(* ===== verification/KB_Prelude.thy ===== *)
theory KB_Prelude
  imports Complex_Main "HOL-Library.Log_Nat" "HOL-Library.AList" "HOL-Library.List_Lexorder"
    "HOL-Library.Product_Lexorder"
begin

text \<open>
  Shared vocabulary of the development: Python strings as lists of Unicode code points,
  JSON values, the application error hierarchy of src/src/common/exception.py, IEEE double
  arithmetic for the few places where the code rounds through a float, and the generic list
  lemmas that the component theories share.
\<close>

named_theorems kb_defs \<open>definitions unfolded by the component proofs\<close>
named_theorems kb_frame \<open>what an operation leaves unchanged\<close>

subsection \<open>Strings\<close>

text \<open>
  A Python \<open>str\<close> is a sequence of code points, so its length and its slices count code
  points. ASCII literals of the source are written \<open>lit ''abc''\<close>.
\<close>

type_synonym rune = nat
type_synonym str = "rune list"

definition lit :: "string \<Rightarrow> str" where
  "lit = map of_char"

lemma lit_eq_iff [simp]: "lit a = lit b \<longleftrightarrow> a = b"
  unfolding lit_def by (rule inj_map_eq_map) (simp add: inj_on_def)

lemma lit_Nil [simp]: "lit [] = []"
  by (simp add: lit_def)

lemma lit_eq_Nil_iff [simp]: "lit a = [] \<longleftrightarrow> a = []" "[] = lit a \<longleftrightarrow> a = []"
  by (simp_all add: lit_def)

lemma length_lit [simp]: "length (lit a) = length a"
  by (simp add: lit_def)

text \<open>\<open>str.isspace\<close> of one code point: the characters that \<open>strip\<close> and \<open>split\<close> treat as
  white space.\<close>

definition is_space :: "rune \<Rightarrow> bool" where
  "is_space c \<longleftrightarrow>
     (9 \<le> c \<and> c \<le> 13) \<or> (28 \<le> c \<and> c \<le> 32) \<or> c = 133 \<or> c = 160 \<or> c = 5760 \<or>
     (8192 \<le> c \<and> c \<le> 8202) \<or> c = 8232 \<or> c = 8233 \<or> c = 8239 \<or> c = 8287 \<or> c = 12288"

definition lstrip :: "str \<Rightarrow> str" where
  "lstrip s = dropWhile is_space s"

definition strip :: "str \<Rightarrow> str" where
  "strip s = rev (dropWhile is_space (rev (dropWhile is_space s)))"

lemma strip_Nil [simp]: "strip [] = []"
  by (simp add: strip_def)

lemma strip_eq_Nil_iff: "strip s = [] \<longleftrightarrow> list_all is_space s"
proof
  assume "strip s = []"
  then have "dropWhile is_space (rev (dropWhile is_space s)) = []" by (simp add: strip_def)
  then have all: "\<forall>c \<in> set (dropWhile is_space s). is_space c"
    by (simp add: dropWhile_eq_Nil_conv)
  have "dropWhile is_space s = []"
  proof (rule ccontr)
    assume ne: "dropWhile is_space s \<noteq> []"
    then have "\<not> is_space (hd (dropWhile is_space s))" by (rule hd_dropWhile)
    with ne all show False by simp
  qed
  then show "list_all is_space s" by (simp add: dropWhile_eq_Nil_conv list_all_iff)
next
  assume "list_all is_space s"
  then have "dropWhile is_space s = []" by (simp only: dropWhile_eq_Nil_conv list_all_iff)
  then show "strip s = []" by (simp only: strip_def dropWhile.simps rev.simps)
qed

lemma strip_ends:
  assumes "strip s \<noteq> []"
  shows "\<not> is_space (hd (strip s)) \<and> \<not> is_space (last (strip s))"
proof -
  let ?l = "dropWhile is_space s"
  let ?r = "dropWhile is_space (rev ?l)"
  have ne: "?r \<noteq> []" using assms by (simp only: strip_def rev_is_Nil_conv simp_thms)
  then have last: "\<not> is_space (hd ?r)" by (rule hd_dropWhile)
  have l: "?l \<noteq> []" using ne by (metis dropWhile.simps(1) rev.simps(1))
  have "rev ?l = takeWhile is_space (rev ?l) @ ?r" by (rule takeWhile_dropWhile_id [symmetric])
  then have "?l = rev ?r @ rev (takeWhile is_space (rev ?l))" by (metis rev_append rev_rev_ident)
  then have "hd ?l = hd (rev ?r)" using ne by (metis hd_append2 rev_is_Nil_conv)
  moreover have "\<not> is_space (hd ?l)" using l by (rule hd_dropWhile)
  ultimately have "\<not> is_space (hd (rev ?r))" by simp
  then show ?thesis using last ne by (simp only: strip_def last_rev simp_thms)
qed

lemma dropWhile_hd: "xs = [] \<or> \<not> P (hd xs) \<Longrightarrow> dropWhile P xs = xs"
  by (cases xs) auto

lemma strip_id: "s = [] \<or> (\<not> is_space (hd s) \<and> \<not> is_space (last s)) \<Longrightarrow> strip s = s"
  unfolding strip_def by (subst (2) dropWhile_hd, blast, subst dropWhile_hd) (auto simp: hd_rev)

lemma strip_idem [simp]: "strip (strip s) = strip s"
  using strip_ends [of s] by (intro strip_id) blast

text \<open>Substring test, Python's \<open>needle in hay\<close>.\<close>

fun starts_with :: "'a list \<Rightarrow> 'a list \<Rightarrow> bool" where
  "starts_with [] ys = True"
| "starts_with (x # xs) [] = False"
| "starts_with (x # xs) (y # ys) = (x = y \<and> starts_with xs ys)"

fun contains_str :: "'a list \<Rightarrow> 'a list \<Rightarrow> bool" where
  "contains_str needle [] = (needle = [])"
| "contains_str needle (c # cs) = (starts_with needle (c # cs) \<or> contains_str needle cs)"

lemma starts_with_iff: "starts_with xs ys \<longleftrightarrow> (\<exists>zs. ys = xs @ zs)"
  by (induction xs ys rule: starts_with.induct) auto

lemma contains_str_iff: "contains_str xs ys \<longleftrightarrow> (\<exists>us vs. ys = us @ xs @ vs)"
proof (induction ys)
  case Nil
  then show ?case by simp
next
  case (Cons y ys)
  show ?case
  proof
    assume "contains_str xs (y # ys)"
    then consider "starts_with xs (y # ys)" | "contains_str xs ys" by auto
    then show "\<exists>us vs. y # ys = us @ xs @ vs"
    proof cases
      case 1
      then obtain zs where "y # ys = [] @ xs @ zs" by (auto simp: starts_with_iff)
      then show ?thesis by blast
    next
      case 2
      then obtain us vs where "y # ys = (y # us) @ xs @ vs" using Cons.IH by auto
      then show ?thesis by blast
    qed
  next
    assume "\<exists>us vs. y # ys = us @ xs @ vs"
    then obtain us vs where eq: "y # ys = us @ xs @ vs" by blast
    show "contains_str xs (y # ys)"
    proof (cases us)
      case Nil
      with eq have "starts_with xs (y # ys)" by (auto simp: starts_with_iff)
      then show ?thesis by simp
    next
      case (Cons u us')
      with eq have "ys = us' @ xs @ vs" by simp
      then show ?thesis using Cons.IH by auto
    qed
  qed
qed

text \<open>\<open>s.find(needle)\<close> for a non-empty needle.\<close>

fun find_str :: "str \<Rightarrow> str \<Rightarrow> nat option" where
  "find_str needle [] = None"
| "find_str needle (c # cs) =
     (if starts_with needle (c # cs) then Some 0 else map_option Suc (find_str needle cs))"

lemma find_str_Some: "find_str needle s = Some i \<Longrightarrow> i < length s \<and> starts_with needle (drop i s)"
  by (induction needle s arbitrary: i rule: find_str.induct) (auto split: if_splits)

text \<open>The decimal digits of a natural number.\<close>

fun decimal_digits :: "nat \<Rightarrow> str" where
  "decimal_digits n = (if n < 10 then [48 + n] else decimal_digits (n div 10) @ [48 + n mod 10])"

declare decimal_digits.simps [simp del]

subsection \<open>JSON values\<close>

datatype json =
    JNull
  | JBool bool
  | JNum rat
  | JStr str
  | JArr "json list"
  | JObj "(str \<times> json) list"

subsection \<open>Errors\<close>

text \<open>
  The subclasses of \<open>ApplicationError\<close> with their dot-namespaced \<open>code\<close>; the human
  readable message is not modelled. \<open>BackendError\<close> is any other exception a
  database, cache or network call may raise.
\<close>

datatype app_error =
    ValidationError str
  | NotFoundError str
  | PermissionDeniedError str
  | AuthenticationError str
  | ConflictError str
  | DataError str
  | NotImplementedFeatureError str
  | BackendError

subsection \<open>IEEE 754 double precision\<close>

text \<open>
  \<open>fl64 x\<close> is the double nearest to \<open>x\<close>, ties to even: the significand is scaled to 53
  bits and rounded. Exponent range (overflow, subnormals) is not modelled; the values the
  code rounds (durations, scores) are far from either end.
\<close>

definition round_half_even :: "rat \<Rightarrow> int" where
  "round_half_even x =
     (let f = \<lfloor>x\<rfloor>; d = x - of_int f
      in if d < 1/2 then f else if 1/2 < d then f + 1 else if even f then f else f + 1)"

definition pow2 :: "int \<Rightarrow> rat" where
  "pow2 e = (if 0 \<le> e then 2 ^ nat e else 1 / 2 ^ nat (- e))"

definition fl64 :: "rat \<Rightarrow> rat" where
  "fl64 x =
     (if x = 0 then 0
      else let (p, q) = quotient_of \<bar>x\<bar>;
               e0 = bitlen p - bitlen q - 53;
               e = (if 2 ^ 53 \<le> \<bar>x\<bar> / pow2 e0 then e0 + 1 else e0);
               m = round_half_even (\<bar>x\<bar> / pow2 e)
           in sgn x * of_int m * pow2 e)"

definition trunc :: "rat \<Rightarrow> int" where
  "trunc x = (if 0 \<le> x then \<lfloor>x\<rfloor> else \<lceil>x\<rceil>)"

lemma pow2_pos [simp]: "0 < pow2 e"
  by (simp add: pow2_def)

lemma round_half_even_nonneg: "0 \<le> x \<Longrightarrow> 0 \<le> round_half_even x"
  by (auto simp: round_half_even_def Let_def)

lemma fl64_zero [simp]: "fl64 0 = 0"
  by (simp add: fl64_def)

lemma fl64_nonneg: "0 \<le> x \<Longrightarrow> 0 \<le> fl64 x"
  unfolding fl64_def Let_def
  by (auto split: prod.splits
      intro!: mult_nonneg_nonneg round_half_even_nonneg divide_nonneg_nonneg less_imp_le [OF pow2_pos])

lemma trunc_nonneg: "0 \<le> x \<Longrightarrow> 0 \<le> trunc x"
  by (simp add: trunc_def)

text \<open>
  \<open>int((b - a).total_seconds() * 1000)\<close> on two instants counted in microseconds:
  \<open>total_seconds\<close> divides by \<open>10\<^sup>6\<close> (one rounding) and the product rounds again before
  \<open>int\<close> truncates.
\<close>

definition elapsed_ms :: "int \<Rightarrow> int \<Rightarrow> int" where
  "elapsed_ms a b = trunc (fl64 (fl64 (of_int (b - a) / 1000000) * 1000))"

lemma elapsed_ms_nonneg: "a \<le> b \<Longrightarrow> 0 \<le> elapsed_ms a b"
  unfolding elapsed_ms_def
  by (intro trunc_nonneg fl64_nonneg mult_nonneg_nonneg) simp_all

subsection \<open>Lists\<close>

lemma distinct_map_filter: "distinct (map f xs) \<Longrightarrow> distinct (map f (filter P xs))"
  by (induction xs) auto

lemma filter_map_id_on:
  "(\<And>x. x \<in> set xs \<Longrightarrow> P x \<Longrightarrow> f x = x) \<Longrightarrow> (\<And>x. x \<in> set xs \<Longrightarrow> P (f x) = P x) \<Longrightarrow>
   filter P (map f xs) = filter P xs"
  by (induction xs) auto

lemma find_append_eq:
  "find P (xs @ ys) = (case find P xs of None \<Rightarrow> find P ys | Some x \<Rightarrow> Some x)"
  by (induction xs) auto

lemma map_filter_append: "List.map_filter f (xs @ ys) = List.map_filter f xs @ List.map_filter f ys"
  by (simp add: List.map_filter_def)

subsection \<open>More strings\<close>

text \<open>\<open>str.upper\<close> on ASCII strings (HTTP methods are ASCII tokens).\<close>

definition upper_ascii :: "str \<Rightarrow> str" where
  "upper_ascii s = map (\<lambda>c. if 97 \<le> c \<and> c \<le> 122 then c - 32 else c) s"

lemma upper_ascii_idem [simp]: "upper_ascii (upper_ascii s) = upper_ascii s"
  by (auto simp: upper_ascii_def)

text \<open>\<open>str.lower\<close> and \<open>str.upper\<close>: written out on ASCII, a parameter elsewhere.\<close>

definition lower_char :: "(rune \<Rightarrow> str) \<Rightarrow> rune \<Rightarrow> str" where
  "lower_char ulower c = (if 65 \<le> c \<and> c \<le> 90 then [c + 32] else if c < 128 then [c] else ulower c)"

definition lower_str :: "(rune \<Rightarrow> str) \<Rightarrow> str \<Rightarrow> str" where
  "lower_str ulower s = concat (map (lower_char ulower) s)"

definition upper_char :: "(rune \<Rightarrow> str) \<Rightarrow> rune \<Rightarrow> str" where
  "upper_char uupper c = (if 97 \<le> c \<and> c \<le> 122 then [c - 32] else if c < 128 then [c] else uupper c)"

definition upper_str :: "(rune \<Rightarrow> str) \<Rightarrow> str \<Rightarrow> str" where
  "upper_str uupper s = concat (map (upper_char uupper) s)"

text \<open>\<open>s.replace(old, new)\<close> for a non-empty \<open>old\<close>: leftmost, non-overlapping.\<close>

function str_replace :: "'a list \<Rightarrow> 'a list \<Rightarrow> 'a list \<Rightarrow> 'a list" where
  "str_replace old new [] = []"
| "str_replace old new (c # cs) =
     (if starts_with old (c # cs) then new @ str_replace old new (drop (length old - 1) cs)
      else c # str_replace old new cs)"
  by pat_completeness auto
termination
  by (relation "measure (\<lambda>(old, new, s). length s)") auto

lemma str_replace_absent:
  "\<not> contains_str old s \<Longrightarrow> str_replace old new s = s"
  by (induction old new s rule: str_replace.induct) auto

lemma length_str_replace_le:
  assumes "length new \<le> length old" and "old \<noteq> []"
  shows "length (str_replace old new s) \<le> length s"
  using assms
proof (induction old new s rule: str_replace.induct)
  case (2 old new c cs)
  show ?case
  proof (cases "starts_with old (c # cs)")
    case True
    then obtain zs where zs: "c # cs = old @ zs" by (auto simp: starts_with_iff)
    then have "drop (length old - 1) cs = zs" using 2 by (cases old) auto
    moreover have "length (c # cs) = length old + length zs" using zs by simp
    ultimately show ?thesis using 2 True by auto
  qed (use 2 in auto)
qed simp

lemma length_str_replace_less:
  assumes "length new < length old" and "contains_str old s"
  shows "length (str_replace old new s) < length s"
  using assms
proof (induction old new s rule: str_replace.induct)
  case (2 old new c cs)
  show ?case
  proof (cases "starts_with old (c # cs)")
    case True
    then obtain zs where zs: "c # cs = old @ zs" by (auto simp: starts_with_iff)
    then have d: "drop (length old - 1) cs = zs" using 2 by (cases old) auto
    have "length (c # cs) = length old + length zs" using zs by simp
    moreover have "length (str_replace old new zs) \<le> length zs"
      using 2 by (intro length_str_replace_le) auto
    ultimately show ?thesis using 2 True d by auto
  qed (use 2 in auto)
qed simp

text \<open>The loop "drop empties and repeated values, keep the first occurrence".\<close>

fun dedup_from :: "str set \<Rightarrow> str list \<Rightarrow> str list" where
  "dedup_from seen [] = []"
| "dedup_from seen (v # vs) =
     (if v = [] \<or> v \<in> seen then dedup_from seen vs else v # dedup_from (insert v seen) vs)"

definition dedup_non_empty_strings :: "str list \<Rightarrow> str list" where
  "dedup_non_empty_strings values = dedup_from {} values"

lemma set_dedup_from: "set (dedup_from seen vs) = set vs - seen - {[]}"
  by (induction seen vs rule: dedup_from.induct) auto

lemma set_dedup [simp]: "set (dedup_non_empty_strings vs) = set vs - {[]}"
  by (simp add: dedup_non_empty_strings_def set_dedup_from)

lemma distinct_dedup_from: "distinct (dedup_from seen vs)"
  by (induction seen vs rule: dedup_from.induct) (auto simp: set_dedup_from)

lemma distinct_dedup [simp]: "distinct (dedup_non_empty_strings vs)"
  by (simp add: dedup_non_empty_strings_def distinct_dedup_from)

lemma dedup_from_id: "distinct vs \<Longrightarrow> [] \<notin> set vs \<Longrightarrow> set vs \<inter> seen = {} \<Longrightarrow> dedup_from seen vs = vs"
  by (induction vs arbitrary: seen) auto

lemma dedup_id: "distinct vs \<Longrightarrow> [] \<notin> set vs \<Longrightarrow> dedup_non_empty_strings vs = vs"
  by (simp add: dedup_non_empty_strings_def dedup_from_id)

lemma dedup_eq_Nil_iff: "dedup_non_empty_strings vs = [] \<longleftrightarrow> set vs \<subseteq> {[]}"
  using set_dedup [of vs] by (metis Diff_eq_empty_iff set_empty)

text \<open>
  \<open>int(s)\<close>: surrounding white space, an optional sign, digits with single underscores between
  them; \<open>digit\<close> gives the value of a decimal digit character (the Unicode table).
\<close>

fun py_digits :: "(rune \<Rightarrow> int option) \<Rightarrow> int \<Rightarrow> str \<Rightarrow> int option" where
  "py_digits digit acc [] = Some acc"
| "py_digits digit acc (c # cs) =
     (case digit c of
        Some d \<Rightarrow> py_digits digit (10 * acc + d) cs
      | None \<Rightarrow>
          if c = of_char CHR ''_'' then
            (case cs of
               [] \<Rightarrow> None
             | c' # cs' \<Rightarrow> (case digit c' of None \<Rightarrow> None | Some d \<Rightarrow> py_digits digit (10 * acc + d) cs'))
          else None)"

definition py_nat :: "(rune \<Rightarrow> int option) \<Rightarrow> str \<Rightarrow> int option" where
  "py_nat digit s =
     (case s of [] \<Rightarrow> None
      | c # cs \<Rightarrow> (case digit c of None \<Rightarrow> None | Some d \<Rightarrow> py_digits digit d cs))"

definition py_int :: "(rune \<Rightarrow> int option) \<Rightarrow> str \<Rightarrow> int option" where
  "py_int digit s0 =
     (case strip s0 of
        [] \<Rightarrow> None
      | c # cs \<Rightarrow>
          if c = of_char CHR ''-'' then map_option uminus (py_nat digit cs)
          else if c = of_char CHR ''+'' then py_nat digit cs
          else py_nat digit (c # cs))"

end
