(* ===== verification/Span_Types.thy ===== *)
theory Span_Types
  imports KB_Prelude
begin

text \<open>
  The vocabulary of the processing-span trees: the storage row
  (src/src/db/models/knowledge_processing_span.py), the in-memory handle and the stage
  dependency graph of src/src/core/knowledge/documents/span_tracker.py. A span is identified
  inside a knowledge's attempt by its \<open>span_id\<close>; instants are microseconds since the epoch.
\<close>

subsection \<open>Rows and handles\<close>

record span_row =
  row_id :: nat
  row_knowledge_id :: str
  row_attempt :: int
  row_span_id :: str
  row_parent :: "str option"
  row_name :: str
  row_kind :: str
  row_status :: str
  row_input :: "json option"
  row_output :: "json option"
  row_metadata :: "json option"
  row_error_code :: "str option"
  row_error_message :: "str option"
  row_error_detail :: "str option"
  row_started_at :: "int option"
  row_finished_at :: "int option"
  row_duration_ms :: "int option"
  row_created_at :: int
  row_updated_at :: int

record span =
  sp_knowledge_id :: str
  sp_attempt :: int
  sp_span_id :: str
  sp_parent :: "str option"
  sp_name :: str
  sp_kind :: str
  sp_status :: str
  sp_started_at :: int

abbreviation "SPAN_KIND_ROOT \<equiv> lit ''root''"
abbreviation "SPAN_KIND_STAGE \<equiv> lit ''stage''"
abbreviation "SPAN_KIND_SUBSPAN \<equiv> lit ''subspan''"
abbreviation "SPAN_KIND_GENERATION \<equiv> lit ''generation''"

abbreviation "SPAN_STATUS_PENDING \<equiv> lit ''pending''"
abbreviation "SPAN_STATUS_RUNNING \<equiv> lit ''running''"
abbreviation "SPAN_STATUS_DONE \<equiv> lit ''done''"
abbreviation "SPAN_STATUS_FAILED \<equiv> lit ''failed''"
abbreviation "SPAN_STATUS_SKIPPED \<equiv> lit ''skipped''"
abbreviation "SPAN_STATUS_CANCELLED \<equiv> lit ''cancelled''"

abbreviation "STAGE_DOCREADER \<equiv> lit ''docreader''"
abbreviation "STAGE_CHUNKING \<equiv> lit ''chunking''"
abbreviation "STAGE_EMBEDDING \<equiv> lit ''embedding''"
abbreviation "STAGE_MULTIMODAL \<equiv> lit ''multimodal''"
abbreviation "STAGE_POSTPROCESS \<equiv> lit ''postprocess''"

abbreviation "ROOT_SPAN_NAME \<equiv> lit ''knowledge_processing''"
abbreviation (input) "MAX_SPAN_NAME_LEN \<equiv> (255 :: nat)"
abbreviation (input) "MAX_ERROR_MESSAGE_LEN \<equiv> (1024 :: nat)"
abbreviation (input) "MAX_ERROR_DETAIL_LEN \<equiv> (8192 :: nat)"

text \<open>The sentinel start time of a row without one.\<close>

abbreviation (input) "EPOCH \<equiv> (0 :: int)"

definition TERMINAL_STATUSES :: "str set" where
  "TERMINAL_STATUSES =
     {SPAN_STATUS_DONE, SPAN_STATUS_FAILED, SPAN_STATUS_CANCELLED, SPAN_STATUS_SKIPPED}"

text \<open>The statuses that the cancel sweeps flip.\<close>

definition OPEN_STATUSES :: "str set" where
  "OPEN_STATUSES = {SPAN_STATUS_PENDING, SPAN_STATUS_RUNNING}"

definition ALL_STAGES :: "str list" where
  "ALL_STAGES =
     [STAGE_DOCREADER, STAGE_CHUNKING, STAGE_EMBEDDING, STAGE_MULTIMODAL, STAGE_POSTPROCESS]"

definition STAGE_DEPENDENCIES :: "str \<Rightarrow> str list" where
  "STAGE_DEPENDENCIES s =
     (if s = STAGE_CHUNKING then [STAGE_DOCREADER]
      else if s = STAGE_EMBEDDING then [STAGE_CHUNKING]
      else if s = STAGE_MULTIMODAL then [STAGE_CHUNKING]
      else if s = STAGE_POSTPROCESS then [STAGE_EMBEDDING, STAGE_MULTIMODAL]
      else [])"

definition is_open :: "span_row \<Rightarrow> bool" where
  "is_open r \<longleftrightarrow> row_status r \<in> OPEN_STATUSES"

definition is_terminal :: "span_row \<Rightarrow> bool" where
  "is_terminal r \<longleftrightarrow> row_status r \<in> TERMINAL_STATUSES"

lemma terminal_not_open: "is_terminal r \<Longrightarrow> \<not> is_open r"
  by (auto simp: is_open_def is_terminal_def OPEN_STATUSES_def TERMINAL_STATUSES_def)

subsection \<open>Span names\<close>

text \<open>
  \<open>fit_span_name\<close> shortens a name to the column width; \<open>digest8\<close> is the first four bytes
  of the SHA-256 of the UTF-8 name in hexadecimal, a parameter of the model that the code
  relies on for its length only.
\<close>

definition fit_span_name :: "(str \<Rightarrow> str) \<Rightarrow> str \<Rightarrow> str" where
  "fit_span_name digest8 name =
     (if length name \<le> MAX_SPAN_NAME_LEN then name
      else let suffix = lit ''~'' @ digest8 name;
               keep = int MAX_SPAN_NAME_LEN - int (length suffix)
           in if keep < 1
              then (if MAX_SPAN_NAME_LEN < length suffix then take MAX_SPAN_NAME_LEN suffix else suffix)
              else take (nat keep) name @ suffix)"

lemma length_fit_span_name: "length (fit_span_name digest8 name) \<le> MAX_SPAN_NAME_LEN"
  by (auto simp: fit_span_name_def Let_def)

lemma fit_span_name_idem:
  "fit_span_name digest8 (fit_span_name digest8 name) = fit_span_name digest8 name"
  using length_fit_span_name [of digest8 name]
  by (simp add: fit_span_name_def [of digest8 "fit_span_name digest8 name"])

subsection \<open>The stage dependency graph\<close>

text \<open>
  \<open>stages_depending_on\<close> walks the graph backwards by frontiers. The state is
  \<open>(seen, out, nxt)\<close>; \<open>stage_visit\<close> is the body of the loop over \<open>ALL_STAGES\<close>.
\<close>

definition stage_visit ::
  "str list \<Rightarrow> str \<Rightarrow> str set \<times> str list \<times> str list \<Rightarrow> str set \<times> str list \<times> str list" where
  "stage_visit frontier candidate st =
     (case st of (seen, out, nxt) \<Rightarrow>
        if candidate \<in> seen then (seen, out, nxt)
        else if list_ex (\<lambda>dep. dep \<in> set frontier) (STAGE_DEPENDENCIES candidate)
        then (insert candidate seen, out @ [candidate], nxt @ [candidate])
        else (seen, out, nxt))"

lemma stage_visit_simp [simp]:
  "stage_visit frontier c (seen, out, nxt) =
     (if c \<in> seen \<or> \<not> list_ex (\<lambda>dep. dep \<in> set frontier) (STAGE_DEPENDENCIES c)
      then (seen, out, nxt) else (insert c seen, out @ [c], nxt @ [c]))"
  by (simp add: stage_visit_def)

text \<open>One pass over a list of candidates, in closed form.\<close>

definition newly_dependent :: "str list \<Rightarrow> str set \<Rightarrow> str list \<Rightarrow> str list" where
  "newly_dependent frontier seen cs =
     filter (\<lambda>c. c \<notin> seen \<and> list_ex (\<lambda>dep. dep \<in> set frontier) (STAGE_DEPENDENCIES c)) cs"

lemma fold_stage_visit:
  "distinct cs \<Longrightarrow>
   fold (stage_visit frontier) cs (seen, out, nxt) =
     (seen \<union> set (newly_dependent frontier seen cs),
      out @ newly_dependent frontier seen cs, nxt @ newly_dependent frontier seen cs)"
proof (induction cs arbitrary: seen out nxt)
  case Nil
  then show ?case by (simp add: newly_dependent_def)
next
  case (Cons c cs)
  have same: "newly_dependent frontier (insert c seen) cs = newly_dependent frontier seen cs"
    using Cons.prems by (auto simp: newly_dependent_def intro!: filter_cong)
  then show ?case
    using Cons.prems by (auto simp: Cons.IH) (auto simp: newly_dependent_def)
qed

lemma distinct_ALL_STAGES [simp]: "distinct ALL_STAGES"
  by (simp add: ALL_STAGES_def)

function stages_loop :: "str list \<Rightarrow> str set \<Rightarrow> str list \<Rightarrow> str list" where
  "stages_loop frontier seen out =
     (if frontier = [] then out
      else case fold (stage_visit frontier) ALL_STAGES (seen, out, []) of
             (seen', out', nxt) \<Rightarrow> stages_loop nxt seen' out')"
  by pat_completeness auto
termination
proof (relation "measure (\<lambda>(frontier, seen, out).
    card (set ALL_STAGES - seen) + (if frontier = [] then 0 else 1))")
  show "wf (measure (\<lambda>(frontier, seen, out).
    card (set ALL_STAGES - seen) + (if frontier = [] then 0 else 1)))" by simp
next
  fix frontier out out' nxt y and seen seen' :: "str set"
  assume "frontier \<noteq> []" and "(seen', y) = fold (stage_visit frontier) ALL_STAGES (seen, out, [])"
    and "(out', nxt) = y"
  then have eq: "fold (stage_visit frontier) ALL_STAGES (seen, out, []) = (seen', out', nxt)"
    by simp
  let ?N = "newly_dependent frontier seen ALL_STAGES"
  from eq have s': "seen' = seen \<union> set ?N" and n: "nxt = ?N"
    by (auto simp: fold_stage_visit)
  have sub: "set ALL_STAGES - seen' \<subseteq> set ALL_STAGES - seen" by (auto simp: s')
  show "((nxt, seen', out'), frontier, seen, out) \<in> measure (\<lambda>(frontier, seen, out).
    card (set ALL_STAGES - seen) + (if frontier = [] then 0 else 1))"
  proof (cases "?N = []")
    case True
    then show ?thesis using \<open>frontier \<noteq> []\<close> s' n by simp
  next
    case False
    then obtain c where c: "c \<in> set ?N" by (cases ?N) auto
    then have "c \<in> set ALL_STAGES - seen" "c \<notin> set ALL_STAGES - seen'"
      by (auto simp: newly_dependent_def s')
    with sub have "set ALL_STAGES - seen' \<subset> set ALL_STAGES - seen" by blast
    then have "card (set ALL_STAGES - seen') < card (set ALL_STAGES - seen)"
      by (intro psubset_card_mono) auto
    then show ?thesis using \<open>frontier \<noteq> []\<close> False n by simp
  qed
qed

declare stages_loop.simps [simp del]

definition stages_depending_on :: "str \<Rightarrow> str list" where
  "stages_depending_on stage = stages_loop [stage] {} []"

definition is_main_pipeline_stage :: "str \<Rightarrow> bool" where
  "is_main_pipeline_stage name \<longleftrightarrow> name \<in> set ALL_STAGES"

text \<open>The graph itself, as the relation "is a direct prerequisite of".\<close>

definition stage_edge :: "(str \<times> str) set" where
  "stage_edge = {(d, c). c \<in> set ALL_STAGES \<and> d \<in> set (STAGE_DEPENDENCIES c)}"

lemma set_newly_dependent:
  "set (newly_dependent frontier seen ALL_STAGES) = stage_edge `` set frontier - seen"
  by (auto simp: newly_dependent_def stage_edge_def list_ex_iff)

lemma stages_loop_closure:
  assumes "set out = seen" and "seen \<subseteq> stage_edge\<^sup>+ `` {s}"
    and "set frontier \<subseteq> insert s seen"
    and "stage_edge `` (insert s seen - set frontier) \<subseteq> seen"
  shows "set (stages_loop frontier seen out) = stage_edge\<^sup>+ `` {s}"
  using assms
proof (induction frontier seen out rule: stages_loop.induct)
  case (1 frontier seen out)
  let ?N = "newly_dependent frontier seen ALL_STAGES"
  show ?case
  proof (cases "frontier = []")
    case True
    then have closed: "stage_edge `` insert s seen \<subseteq> seen" using "1.prems"(4) by simp
    have "t \<in> seen" if "(s, t) \<in> stage_edge\<^sup>+" for t
      using that by (induction rule: trancl_induct) (use closed in auto)
    then show ?thesis
      using True "1.prems"(1,2) by (subst stages_loop.simps) auto
  next
    case False
    have new: "stage_edge `` set frontier \<subseteq> stage_edge\<^sup>+ `` {s}"
      using "1.prems"(2,3) by (auto intro: trancl_into_trancl)
    have "set (stages_loop ?N (seen \<union> set ?N) (out @ ?N)) = stage_edge\<^sup>+ `` {s}"
    proof (rule "1.IH" [OF False fold_stage_visit [OF distinct_ALL_STAGES, symmetric] refl, simplified])
      show "stage_edge `` (insert s (seen \<union> set ?N) - set ?N) \<subseteq> seen \<union> set ?N"
        using "1.prems"(4) by (auto simp: set_newly_dependent)
    qed (use "1.prems" new in \<open>auto simp: set_newly_dependent\<close>)
    then show ?thesis
      using False by (subst stages_loop.simps) (simp add: fold_stage_visit)
  qed
qed

lemma set_stages_depending_on: "set (stages_depending_on s) = stage_edge\<^sup>+ `` {s}"
  unfolding stages_depending_on_def by (rule stages_loop_closure) auto

lemma stages_depending_on_simps [simp]:
  "stages_depending_on STAGE_DOCREADER =
     [STAGE_CHUNKING, STAGE_EMBEDDING, STAGE_MULTIMODAL, STAGE_POSTPROCESS]"
  "stages_depending_on STAGE_CHUNKING = [STAGE_EMBEDDING, STAGE_MULTIMODAL, STAGE_POSTPROCESS]"
  "stages_depending_on STAGE_EMBEDDING = [STAGE_POSTPROCESS]"
  "stages_depending_on STAGE_MULTIMODAL = [STAGE_POSTPROCESS]"
  "stages_depending_on STAGE_POSTPROCESS = []"
  by (simp_all add: stages_depending_on_def stages_loop.simps stage_visit_def ALL_STAGES_def
      STAGE_DEPENDENCIES_def)

end
