(* ===== verification/Span_Store.thy ===== *)
theory Span_Store
  imports Span_Types
begin

text \<open>
  The span table. First what each write means on the list of rows (in \<open>id\<close> order), then
  the contract \<open>span_store_contract\<close> that the tracker relies on (the protocol \<open>SpanStore\<close> of
  span_tracker.py), then the repository of src/src/db/dao/knowledge_span_repository.py, which
  issues one SQL statement after another against a database that may fail at any of them, and
  the proof that it keeps the contract.
\<close>

subsection \<open>What a write means on the rows\<close>

definition row_key :: "span_row \<Rightarrow> str \<times> int \<times> str" where
  "row_key r = (row_knowledge_id r, row_attempt r, row_span_id r)"

definition in_attempt :: "str \<Rightarrow> int \<Rightarrow> span_row \<Rightarrow> bool" where
  "in_attempt kid att r \<longleftrightarrow> row_knowledge_id r = kid \<and> row_attempt r = att"

definition effective_attempt :: "int \<Rightarrow> int" where
  "effective_attempt a = (if 0 < a then a else 1)"

text \<open>
  The \<open>ON CONFLICT ... DO UPDATE\<close> list: every transition column is overwritten, the three
  JSON columns only by a value.
\<close>

definition keep_unless :: "'a option \<Rightarrow> 'a option \<Rightarrow> 'a option" where
  "keep_unless old new = (case new of None \<Rightarrow> old | Some v \<Rightarrow> Some v)"

definition update_on_conflict :: "span_row \<Rightarrow> span_row \<Rightarrow> span_row" where
  "update_on_conflict new old =
     old\<lparr>row_status := row_status new,
         row_input := keep_unless (row_input old) (row_input new),
         row_output := keep_unless (row_output old) (row_output new),
         row_metadata := keep_unless (row_metadata old) (row_metadata new),
         row_error_code := row_error_code new,
         row_error_message := row_error_message new,
         row_error_detail := row_error_detail new,
         row_started_at := row_started_at new,
         row_finished_at := row_finished_at new,
         row_duration_ms := row_duration_ms new,
         row_updated_at := row_updated_at new\<rparr>"

definition put_row :: "span_row \<Rightarrow> nat \<Rightarrow> span_row list \<Rightarrow> span_row list" where
  "put_row new n rows =
     (if list_ex (\<lambda>r. row_key r = row_key new) rows
      then map (\<lambda>r. if row_key r = row_key new then update_on_conflict new r else r) rows
      else rows @ [new\<lparr>row_id := n\<rparr>])"

definition normal_row :: "span_row \<Rightarrow> span_row" where
  "normal_row r = r\<lparr>row_attempt := effective_attempt (row_attempt r)\<rparr>"

text \<open>The marks the sweeps leave.\<close>

definition mark_upstream_failed :: "str \<Rightarrow> span_row \<Rightarrow> span_row" where
  "mark_upstream_failed reason r =
     r\<lparr>row_status := SPAN_STATUS_CANCELLED, row_error_code := Some (lit ''UPSTREAM_FAILED''),
       row_error_message := Some reason\<rparr>"

definition mark_cancelled :: "str \<Rightarrow> str \<Rightarrow> int \<Rightarrow> span_row \<Rightarrow> span_row" where
  "mark_cancelled code reason now r =
     r\<lparr>row_status := SPAN_STATUS_CANCELLED, row_error_code := Some code,
       row_error_message := Some reason, row_finished_at := Some now, row_updated_at := now\<rparr>"

definition cancel_ids :: "str \<Rightarrow> int \<Rightarrow> str set \<Rightarrow> str \<Rightarrow> span_row list \<Rightarrow> span_row list" where
  "cancel_ids kid att ids reason rows =
     map (\<lambda>r. if in_attempt kid att r \<and> row_span_id r \<in> ids
              then mark_upstream_failed reason r else r) rows"

definition cancel_open ::
  "(span_row \<Rightarrow> bool) \<Rightarrow> str \<Rightarrow> str \<Rightarrow> int \<Rightarrow> span_row list \<Rightarrow> span_row list" where
  "cancel_open P code reason now rows =
     map (\<lambda>r. if P r \<and> is_open r then mark_cancelled code reason now r else r) rows"

text \<open>
  The open descendants: \<open>open_children\<close> of a set of span ids, and the spans reached from it
  by at most \<open>n\<close> links through open rows.
\<close>

definition open_children :: "span_row list \<Rightarrow> str \<Rightarrow> int \<Rightarrow> str set \<Rightarrow> str set" where
  "open_children rows kid att ps =
     {row_span_id r | r. r \<in> set rows \<and> in_attempt kid att r \<and> is_open r
        \<and> (\<exists>p. row_parent r = Some p \<and> p \<in> ps)}"

fun open_reach :: "span_row list \<Rightarrow> str \<Rightarrow> int \<Rightarrow> nat \<Rightarrow> str set \<Rightarrow> str set" where
  "open_reach rows kid att 0 ps = {}"
| "open_reach rows kid att (Suc n) ps =
     open_children rows kid att ps \<union> open_reach rows kid att n (open_children rows kid att ps)"

text \<open>The bound of the walk.\<close>

abbreviation (input) "CANCEL_DEPTH_LIMIT \<equiv> (16 :: nat)"

definition key_unique :: "span_row list \<Rightarrow> bool" where
  "key_unique rows \<longleftrightarrow> distinct (map row_key rows)"

subsection \<open>Lemmas about the writes\<close>

lemma row_key_simps [simp]:
  "row_key (update_on_conflict new r) = row_key r"
  "row_key (mark_upstream_failed reason r) = row_key r"
  "row_key (mark_cancelled code reason now r) = row_key r"
  "row_key (r\<lparr>row_id := n\<rparr>) = row_key r"
  by (simp_all add: row_key_def update_on_conflict_def mark_upstream_failed_def mark_cancelled_def)

lemma in_attempt_key: "in_attempt kid att r \<longleftrightarrow> fst (row_key r) = kid \<and> fst (snd (row_key r)) = att"
  by (simp add: in_attempt_def row_key_def)

lemma in_attempt_simps [simp]:
  "in_attempt kid att (update_on_conflict new r) = in_attempt kid att r"
  "in_attempt kid att (mark_upstream_failed reason r) = in_attempt kid att r"
  "in_attempt kid att (mark_cancelled code reason now r) = in_attempt kid att r"
  "in_attempt kid att (r\<lparr>row_id := n\<rparr>) = in_attempt kid att r"
  by (simp_all add: in_attempt_key)

lemma mark_not_open [simp]:
  "\<not> is_open (mark_upstream_failed reason r)" "\<not> is_open (mark_cancelled code reason now r)"
  by (simp_all add: is_open_def OPEN_STATUSES_def mark_upstream_failed_def mark_cancelled_def)

lemma map_row_key_put_row:
  "map row_key (put_row new n rows) =
     (if list_ex (\<lambda>r. row_key r = row_key new) rows then map row_key rows
      else map row_key rows @ [row_key new])"
  by (auto simp: put_row_def)

lemma map_row_key_cancel [simp]:
  "map row_key (cancel_ids kid att ids reason rows) = map row_key rows"
  "map row_key (cancel_open P code reason now rows) = map row_key rows"
  by (auto simp: cancel_ids_def cancel_open_def)

lemma key_unique_writes:
  "key_unique rows \<Longrightarrow> key_unique (put_row new n rows)"
  "key_unique rows \<Longrightarrow> key_unique (cancel_ids kid att ids reason rows)"
  "key_unique rows \<Longrightarrow> key_unique (cancel_open P code reason now rows)"
  by (auto simp: key_unique_def map_row_key_put_row list_ex_iff image_iff)

lemma key_uniqueD:
  "key_unique rows \<Longrightarrow> r \<in> set rows \<Longrightarrow> r' \<in> set rows \<Longrightarrow> row_key r = row_key r' \<Longrightarrow> r = r'"
  unfolding key_unique_def by (metis distinct_map inj_onD)

text \<open>Frames: a write into one attempt leaves the rows of every other attempt as they are.\<close>

definition other_rows :: "str \<Rightarrow> int \<Rightarrow> span_row list \<Rightarrow> span_row list" where
  "other_rows kid att rows = filter (\<lambda>r. \<not> in_attempt kid att r) rows"

lemma other_rows_writes [kb_frame]:
  "in_attempt kid att new \<Longrightarrow> other_rows kid att (put_row new n rows) = other_rows kid att rows"
  "other_rows kid att (cancel_ids kid att ids reason rows) = other_rows kid att rows"
  "other_rows kid att (cancel_open (\<lambda>r. in_attempt kid att r \<and> P r) code reason now rows) =
     other_rows kid att rows"
  by (auto simp: other_rows_def put_row_def cancel_ids_def cancel_open_def in_attempt_key
      intro!: filter_map_id_on split: if_splits)

text \<open>The flat sweeps leave nothing open, and touch only what was open.\<close>

lemma cancel_open_no_open: "\<forall>r \<in> set (cancel_open P code reason now rows). P r \<longrightarrow> \<not> is_open r"
  if "\<And>r. P (mark_cancelled code reason now r) = P r"
  using that by (auto simp: cancel_open_def)

lemma cancel_ids_empty [simp]: "cancel_ids kid att {} reason rows = rows"
  by (simp add: cancel_ids_def)

lemma cancel_ids_compose:
  "cancel_ids kid att ids2 reason (cancel_ids kid att ids1 reason rows) =
   cancel_ids kid att (ids1 \<union> ids2) reason rows"
  by (auto simp: cancel_ids_def mark_upstream_failed_def in_attempt_def)

subsection \<open>Open descendants\<close>

lemma open_children_Un:
  "open_children rows kid att (A \<union> B) = open_children rows kid att A \<union> open_children rows kid att B"
  by (auto simp: open_children_def)

lemma open_children_mono: "A \<subseteq> B \<Longrightarrow> open_children rows kid att A \<subseteq> open_children rows kid att B"
  by (auto simp: open_children_def)

lemma open_reach_Un:
  "open_reach rows kid att n (A \<union> B) = open_reach rows kid att n A \<union> open_reach rows kid att n B"
  by (induction n arbitrary: A B) (auto simp: open_children_Un)

lemma open_reach_mono: "A \<subseteq> B \<Longrightarrow> open_reach rows kid att n A \<subseteq> open_reach rows kid att n B"
  by (metis open_reach_Un sup.absorb_iff2 sup_ge1)

lemma open_reach_empty [simp]: "open_reach rows kid att n {} = {}"
  by (induction n) (auto simp: open_children_def)

lemma open_reach_Suc_mono: "open_reach rows kid att n A \<subseteq> open_reach rows kid att (Suc n) A"
proof (induction n arbitrary: A)
  case 0
  then show ?case by simp
next
  case (Suc n)
  show ?case using Suc.IH [of "open_children rows kid att A"] by auto
qed

lemma open_reach_le: "m \<le> n \<Longrightarrow> open_reach rows kid att m A \<subseteq> open_reach rows kid att n A"
  using lift_Suc_mono_le [of "\<lambda>k. open_reach rows kid att k A", OF open_reach_Suc_mono] .

lemma open_children_open: "s \<in> open_children rows kid att ps \<Longrightarrow>
    \<exists>r \<in> set rows. in_attempt kid att r \<and> row_span_id r = s \<and> is_open r"
  by (auto simp: open_children_def)

lemma open_reach_open: "s \<in> open_reach rows kid att n ps \<Longrightarrow>
    \<exists>r \<in> set rows. in_attempt kid att r \<and> row_span_id r = s \<and> is_open r"
  by (induction n arbitrary: ps) (auto dest: open_children_open)

text \<open>
  Flipping one level of children and walking on from them reaches the same spans as walking
  on in the original table: a path that comes back to a flipped span can be cut there.
\<close>

definition flip_if :: "str \<Rightarrow> int \<Rightarrow> str set \<Rightarrow> str \<Rightarrow> span_row \<Rightarrow> span_row" where
  "flip_if kid att ids reason r =
     (if in_attempt kid att r \<and> row_span_id r \<in> ids then mark_upstream_failed reason r else r)"

lemma flip_if_simps [simp]:
  "row_key (flip_if kid att ids reason r) = row_key r"
  "in_attempt k a (flip_if kid att ids reason r) = in_attempt k a r"
  "row_span_id (flip_if kid att ids reason r) = row_span_id r"
  "row_parent (flip_if kid att ids reason r) = row_parent r"
  "in_attempt kid att r \<Longrightarrow>
     is_open (flip_if kid att ids reason r) \<longleftrightarrow> is_open r \<and> row_span_id r \<notin> ids"
  by (auto simp: flip_if_def in_attempt_def) (auto simp: mark_upstream_failed_def)

lemma set_cancel_ids: "set (cancel_ids kid att ids reason rows) = flip_if kid att ids reason ` set rows"
  by (simp add: cancel_ids_def flip_if_def)

lemma open_children_after_flip:
  "open_children (cancel_ids kid att C reason rows) kid att ps = open_children rows kid att ps - C"
proof (intro set_eqI iffI)
  fix s assume "s \<in> open_children (cancel_ids kid att C reason rows) kid att ps"
  then show "s \<in> open_children rows kid att ps - C"
    by (auto simp: open_children_def set_cancel_ids)
next
  fix s assume "s \<in> open_children rows kid att ps - C"
  then obtain r p where r: "r \<in> set rows" "in_attempt kid att r" "is_open r" "row_span_id r = s"
      "row_parent r = Some p" "p \<in> ps" "s \<notin> C"
    by (auto simp: open_children_def)
  then show "s \<in> open_children (cancel_ids kid att C reason rows) kid att ps"
    unfolding open_children_def set_cancel_ids
    by (intro CollectI exI [of _ "flip_if kid att C reason r"]) auto
qed

lemma open_reach_cut:
  assumes rows'_def: "rows' = cancel_ids kid att C reason rows"
  shows "open_reach rows kid att n D \<subseteq>
    C \<union> open_reach rows' kid att n D \<union> open_reach rows' kid att n C"
proof (induction n arbitrary: D)
  case 0
  then show ?case by simp
next
  case (Suc n)
  let ?E = "open_children rows kid att D" and ?E' = "open_children rows' kid att D"
  have E': "?E' = ?E - C" unfolding rows'_def by (rule open_children_after_flip)
  have "?E \<subseteq> C \<union> ?E'" by (auto simp: E')
  from open_reach_mono [OF this, of rows' kid att n] have "open_reach rows' kid att n ?E \<subseteq>
      open_reach rows' kid att n C \<union> open_reach rows' kid att n ?E'"
    by (simp add: open_reach_Un)
  moreover have "open_reach rows kid att n ?E \<subseteq>
      C \<union> open_reach rows' kid att n ?E \<union> open_reach rows' kid att n C" by (rule Suc.IH)
  moreover have "open_reach rows' kid att n C \<subseteq> open_reach rows' kid att (Suc n) C"
    by (rule open_reach_Suc_mono)
  ultimately show ?case by (auto simp: E')
qed

lemma open_reach_flip_subset:
  "open_reach (cancel_ids kid att C reason rows) kid att n D \<subseteq> open_reach rows kid att n D"
proof (induction n arbitrary: D)
  case 0
  then show ?case by simp
next
  case (Suc n)
  have "open_children rows kid att D - C \<subseteq> open_children rows kid att D" by blast
  then show ?case
    using Suc.IH [of "open_children rows kid att D - C"]
      open_reach_mono [of "open_children rows kid att D - C" "open_children rows kid att D" rows kid att n]
    by (auto simp: open_children_after_flip)
qed

lemma open_reach_level:
  assumes C: "C = open_children rows kid att F"
  shows "C \<union> open_reach (cancel_ids kid att C reason rows) kid att n C = open_reach rows kid att (Suc n) F"
  using open_reach_cut [OF refl, of rows kid att n C C reason] open_reach_flip_subset [of kid att C reason rows n C]
  by (auto simp: C)

subsection \<open>Reads\<close>

definition rows_of :: "str \<Rightarrow> int \<Rightarrow> span_row list \<Rightarrow> span_row list" where
  "rows_of kid att rows =
     (if kid = [] then []
      else if 0 < att then filter (in_attempt kid att) rows
      else filter (\<lambda>r. row_knowledge_id r = kid) rows)"

definition max_attempt :: "str \<Rightarrow> span_row list \<Rightarrow> int" where
  "max_attempt kid rows =
     (case filter (\<lambda>r. row_knowledge_id r = kid) rows of
        [] \<Rightarrow> 0
      | r # rs \<Rightarrow> Max (row_attempt ` set (r # rs)))"

lemma max_attempt_ge: "r \<in> set rows \<Longrightarrow> row_knowledge_id r = kid \<Longrightarrow> row_attempt r \<le> max_attempt kid rows"
proof -
  assume "r \<in> set rows" "row_knowledge_id r = kid"
  then have "r \<in> set (filter (\<lambda>r. row_knowledge_id r = kid) rows)" by simp
  then show ?thesis
    unfolding max_attempt_def
    by (cases "filter (\<lambda>r. row_knowledge_id r = kid) rows") (auto intro: Max_ge)
qed

lemma rows_of_set: "r \<in> set (rows_of kid att rows) \<Longrightarrow> 0 < att \<Longrightarrow> r \<in> set rows \<and> in_attempt kid att r"
  by (auto simp: rows_of_def split: if_splits)

subsection \<open>The contract of the store\<close>

text \<open>
  A store operation returns an exception (\<open>Inl\<close>) or a value, with the store after it.
\<close>

type_synonym ('s, 'a) store_op = "'s \<Rightarrow> (app_error + 'a) \<times> 's"

record 's span_store =
  store_upsert :: "span_row \<Rightarrow> ('s, span_row) store_op"
  store_next_attempt :: "str \<Rightarrow> ('s, int) store_op"
  store_latest_attempt :: "str \<Rightarrow> ('s, int) store_op"
  store_list_by_attempt :: "str \<Rightarrow> int \<Rightarrow> ('s, span_row list) store_op"
  store_cancel_descendants :: "str \<Rightarrow> int \<Rightarrow> str \<Rightarrow> str \<Rightarrow> ('s, int) store_op"
  store_cancel_all_open_spans :: "str \<Rightarrow> int \<Rightarrow> str \<Rightarrow> str \<Rightarrow> int \<Rightarrow> ('s, int) store_op"
  store_cancel_open_spans_by_name ::
    "str \<Rightarrow> int \<Rightarrow> str \<Rightarrow> str \<Rightarrow> str \<Rightarrow> int \<Rightarrow> ('s, int) store_op"

text \<open>
  \<open>view\<close> is the content of the table; \<open>healthy\<close> holds in a store whose next calls do not
  fail. A call that raises may have done part of its work only in \<open>cancel_descendants\<close>.
\<close>

locale span_store_contract =
  fixes S :: "'s span_store" and view :: "'s \<Rightarrow> span_row list" and healthy :: "'s \<Rightarrow> bool"
  assumes upsert_law:
      "store_upsert S r s = (res_row, s') \<Longrightarrow> (healthy s \<longrightarrow> healthy s') \<and>
         (case res_row of
            Inl e \<Rightarrow> view s' = view s \<and> (healthy s \<longrightarrow> row_knowledge_id r = [] \<or> row_span_id r = [])
          | Inr x \<Rightarrow> row_knowledge_id r \<noteq> [] \<and> row_span_id r \<noteq> [] \<and>
              (\<exists>n. view s' = put_row (normal_row r) n (view s)))"
    and next_attempt_law:
      "store_next_attempt S kid s = (res, s') \<Longrightarrow> (healthy s \<longrightarrow> healthy s') \<and> view s' = view s \<and>
         (case res of Inl e \<Rightarrow> \<not> healthy s | Inr n \<Rightarrow> n = max_attempt kid (view s) + 1)"
    and latest_attempt_law:
      "store_latest_attempt S kid s = (res, s') \<Longrightarrow> (healthy s \<longrightarrow> healthy s') \<and> view s' = view s \<and>
         (case res of Inl e \<Rightarrow> \<not> healthy s | Inr n \<Rightarrow> n = max_attempt kid (view s))"
    and list_law:
      "store_list_by_attempt S kid att s = (res_rows, s') \<Longrightarrow> (healthy s \<longrightarrow> healthy s') \<and> view s' = view s \<and>
         (case res_rows of Inl e \<Rightarrow> \<not> healthy s | Inr rows \<Rightarrow> rows = rows_of kid att (view s))"
    and cancel_descendants_law:
      "store_cancel_descendants S kid att p reason s = (res, s') \<Longrightarrow>
         (healthy s \<longrightarrow> healthy s') \<and>
         (\<exists>ids. view s' = cancel_ids kid att ids reason (view s) \<and>
            ids \<subseteq> open_reach (view s) kid att CANCEL_DEPTH_LIMIT {p} \<and>
            (case res of Inl e \<Rightarrow> \<not> healthy s
             | Inr n \<Rightarrow> ids = open_reach (view s) kid att CANCEL_DEPTH_LIMIT {p}))"
    and cancel_all_law:
      "store_cancel_all_open_spans S kid att code reason now s = (res, s') \<Longrightarrow>
         (healthy s \<longrightarrow> healthy s') \<and>
         (case res of Inl e \<Rightarrow> view s' = view s \<and> \<not> healthy s
          | Inr n \<Rightarrow> view s' = cancel_open (in_attempt kid att) code reason now (view s))"
    and cancel_by_name_law:
      "kid \<noteq> [] \<Longrightarrow> 0 < att \<Longrightarrow> name \<noteq> [] \<Longrightarrow>
       store_cancel_open_spans_by_name S kid att name code reason now s = (res, s') \<Longrightarrow>
         (healthy s \<longrightarrow> healthy s') \<and>
         (case res of Inl e \<Rightarrow> view s' = view s \<and> \<not> healthy s
          | Inr n \<Rightarrow> view s' =
              cancel_open (\<lambda>r. in_attempt kid att r \<and> row_name r = name) code reason now (view s))"
    and cancel_by_name_blank:
      "kid = [] \<or> att \<le> 0 \<or> name = [] \<Longrightarrow>
       store_cancel_open_spans_by_name S kid att name code reason now s = (Inr 0, s)"

subsection \<open>The repository\<close>

text \<open>
  The database: the rows in \<open>id\<close> order, the last value of the \<open>BIGSERIAL\<close>, and for the
  statements to come whether they fail (\<open>db_faults\<close>, exhausted means none fails).
\<close>

record span_db =
  db_rows :: "span_row list"
  db_seq :: nat
  db_faults :: "bool list"

definition stmt_fails :: "span_db \<Rightarrow> bool" where
  "stmt_fails d = (case db_faults d of [] \<Rightarrow> False | f # fs \<Rightarrow> f)"

definition after_stmt :: "span_db \<Rightarrow> span_db" where
  "after_stmt d = d\<lparr>db_faults := (case db_faults d of [] \<Rightarrow> [] | f # fs \<Rightarrow> fs)\<rparr>"

definition repo_upsert :: "span_row \<Rightarrow> (span_db, span_row) store_op" where
  "repo_upsert row d =
     (if row_knowledge_id row = [] \<or> row_span_id row = []
      then (Inl (ValidationError (lit ''span.invalid_row'')), d)
      else let attempt = (if 0 < row_attempt row then row_attempt row else 1);
               row' = row\<lparr>row_attempt := attempt\<rparr>;
               d1 = after_stmt d
           in if stmt_fails d then (Inl BackendError, d1)
              else let d2 = d1\<lparr>db_rows := put_row row' (Suc (db_seq d1)) (db_rows d1),
                               db_seq := Suc (db_seq d1)\<rparr>
                   in case find (\<lambda>r. row_key r = row_key row') (db_rows d2) of
                        None \<Rightarrow> (Inl (ValidationError (lit ''span.upsert_no_row'')), d2)
                      | Some r \<Rightarrow> (Inr r, d2))"

definition repo_max_attempt :: "str \<Rightarrow> (span_db, int) store_op" where
  "repo_max_attempt kid d =
     (if stmt_fails d then (Inl BackendError, after_stmt d)
      else (Inr (max_attempt kid (db_rows d)), after_stmt d))"

definition repo_next_attempt :: "str \<Rightarrow> (span_db, int) store_op" where
  "repo_next_attempt kid d =
     (case repo_max_attempt kid d of (Inl e, d') \<Rightarrow> (Inl e, d') | (Inr n, d') \<Rightarrow> (Inr (n + 1), d'))"

definition repo_latest_attempt :: "str \<Rightarrow> (span_db, int) store_op" where
  "repo_latest_attempt kid d = repo_max_attempt kid d"

definition repo_list_by_attempt :: "str \<Rightarrow> int \<Rightarrow> (span_db, span_row list) store_op" where
  "repo_list_by_attempt kid att d =
     (if kid = [] then (Inr [], d)
      else if stmt_fails d then (Inl BackendError, after_stmt d)
      else (Inr (if 0 < att then filter (in_attempt kid att) (db_rows d)
                 else filter (\<lambda>r. row_knowledge_id r = kid) (db_rows d)), after_stmt d))"

definition repo_get_span :: "str \<Rightarrow> int \<Rightarrow> str \<Rightarrow> (span_db, span_row option) store_op" where
  "repo_get_span kid att sid d =
     (if stmt_fails d then (Inl BackendError, after_stmt d)
      else (Inr (find (\<lambda>r. row_key r = (kid, att, sid)) (db_rows d)), after_stmt d))"

text \<open>
  The walk of \<open>cancel_descendants\<close>: the fuel is the code's own \<open>range(_CANCEL_DEPTH_LIMIT)\<close>;
  each level is one \<open>select\<close> and one \<open>update\<close>.
\<close>

fun cancel_walk ::
  "nat \<Rightarrow> str \<Rightarrow> int \<Rightarrow> str \<Rightarrow> str list \<Rightarrow> int \<Rightarrow> (span_db, int) store_op" where
  "cancel_walk 0 kid att reason frontier acc d = (Inr acc, d)"
| "cancel_walk (Suc depth) kid att reason frontier acc d =
     (if frontier = [] then (Inr acc, d)
      else if stmt_fails d then (Inl BackendError, after_stmt d)
      else let d1 = after_stmt d;
               child_ids = map row_span_id
                 (filter (\<lambda>r. in_attempt kid att r \<and> is_open r \<and>
                    (case row_parent r of None \<Rightarrow> False | Some p \<Rightarrow> p \<in> set frontier)) (db_rows d1))
           in if child_ids = [] then (Inr acc, d1)
              else if stmt_fails d1 then (Inl BackendError, after_stmt d1)
              else let affected = length (filter (\<lambda>r. in_attempt kid att r \<and>
                                     row_span_id r \<in> set child_ids) (db_rows d1));
                       d2 = (after_stmt d1)\<lparr>db_rows :=
                               cancel_ids kid att (set child_ids) reason (db_rows d1)\<rparr>
                   in cancel_walk depth kid att reason child_ids (acc + int affected) d2)"

definition repo_cancel_descendants :: "str \<Rightarrow> int \<Rightarrow> str \<Rightarrow> str \<Rightarrow> (span_db, int) store_op" where
  "repo_cancel_descendants kid att parent reason d =
     cancel_walk CANCEL_DEPTH_LIMIT kid att reason [parent] 0 d"

definition repo_cancel_where ::
  "(span_row \<Rightarrow> bool) \<Rightarrow> str \<Rightarrow> str \<Rightarrow> int \<Rightarrow> (span_db, int) store_op" where
  "repo_cancel_where P code reason now d =
     (if stmt_fails d then (Inl BackendError, after_stmt d)
      else (Inr (int (length (filter (\<lambda>r. P r \<and> is_open r) (db_rows d)))),
            (after_stmt d)\<lparr>db_rows := cancel_open P code reason now (db_rows d)\<rparr>))"

definition repo_cancel_all_open_spans ::
  "str \<Rightarrow> int \<Rightarrow> str \<Rightarrow> str \<Rightarrow> int \<Rightarrow> (span_db, int) store_op" where
  "repo_cancel_all_open_spans kid att code reason now =
     repo_cancel_where (in_attempt kid att) code reason now"

definition repo_cancel_open_spans_by_name ::
  "str \<Rightarrow> int \<Rightarrow> str \<Rightarrow> str \<Rightarrow> str \<Rightarrow> int \<Rightarrow> (span_db, int) store_op" where
  "repo_cancel_open_spans_by_name kid att name code reason now d =
     (if kid = [] \<or> att \<le> 0 \<or> name = [] then (Inr 0, d)
      else repo_cancel_where (\<lambda>r. in_attempt kid att r \<and> row_name r = name) code reason now d)"

definition span_repository :: "span_db span_store" where
  "span_repository =
     \<lparr>store_upsert = repo_upsert,
      store_next_attempt = repo_next_attempt,
      store_latest_attempt = repo_latest_attempt,
      store_list_by_attempt = repo_list_by_attempt,
      store_cancel_descendants = repo_cancel_descendants,
      store_cancel_all_open_spans = repo_cancel_all_open_spans,
      store_cancel_open_spans_by_name = repo_cancel_open_spans_by_name\<rparr>"

definition db_healthy :: "span_db \<Rightarrow> bool" where
  "db_healthy d \<longleftrightarrow> (\<forall>f \<in> set (db_faults d). \<not> f)"

subsection \<open>The repository keeps the contract\<close>

lemma after_stmt_db_simps [simp]:
  "db_rows (after_stmt d) = db_rows d" "db_seq (after_stmt d) = db_seq d"
  by (simp_all add: after_stmt_def)

lemma db_healthy_simps [simp]:
  "db_healthy (d\<lparr>db_rows := rows\<rparr>) = db_healthy d"
  "db_healthy (d\<lparr>db_seq := n\<rparr>) = db_healthy d"
  by (simp_all add: db_healthy_def)

lemma db_healthy_after_stmt [simp]: "db_healthy d \<Longrightarrow> db_healthy (after_stmt d)"
  by (cases "db_faults d") (auto simp: db_healthy_def after_stmt_def)

lemma db_healthy_stmt [simp]: "db_healthy d \<Longrightarrow> \<not> stmt_fails d"
  by (cases "db_faults d") (simp_all add: db_healthy_def stmt_fails_def)

lemma put_row_finds: "find (\<lambda>r. row_key r = row_key new) (put_row new n rows) \<noteq> None"
  by (auto simp: put_row_def find_None_iff list_ex_iff)

lemma repo_upsert_law:
  assumes "repo_upsert r d = (res, d')"
  shows "(db_healthy d \<longrightarrow> db_healthy d') \<and>
    (case res of
       Inl e \<Rightarrow> db_rows d' = db_rows d \<and> (db_healthy d \<longrightarrow> row_knowledge_id r = [] \<or> row_span_id r = [])
     | Inr x \<Rightarrow> row_knowledge_id r \<noteq> [] \<and> row_span_id r \<noteq> [] \<and>
         (\<exists>n. db_rows d' = put_row (normal_row r) n (db_rows d)))"
proof -
  let ?r = "r\<lparr>row_attempt := if 0 < row_attempt r then row_attempt r else 1\<rparr>"
  have n: "normal_row r = ?r" by (simp add: normal_row_def effective_attempt_def)
  obtain x where x: "find (\<lambda>q. row_key q = row_key ?r) (put_row ?r (Suc (db_seq d)) (db_rows d)) = Some x"
    using put_row_finds [of ?r "Suc (db_seq d)" "db_rows d"] by (auto simp del: find_None_iff)
  show ?thesis
    using assms x by (auto simp: repo_upsert_def Let_def n split: if_splits)
qed

lemma cancel_walk_law:
  assumes "cancel_walk depth kid att reason frontier acc d = (res, d')"
  shows "(db_healthy d \<longrightarrow> db_healthy d') \<and>
    (\<exists>ids. db_rows d' = cancel_ids kid att ids reason (db_rows d) \<and>
       ids \<subseteq> open_reach (db_rows d) kid att depth (set frontier) \<and>
       (case res of Inl e \<Rightarrow> \<not> db_healthy d
        | Inr n \<Rightarrow> ids = open_reach (db_rows d) kid att depth (set frontier)))"
  using assms
proof (induction depth kid att reason frontier acc d rule: cancel_walk.induct)
  case (1 kid att reason frontier acc d)
  then show ?case by (intro conjI exI [of _ "{}"]) auto
next
  case (2 depth kid att reason frontier acc d)
  let ?rows = "db_rows d"
  let ?C = "open_children ?rows kid att (set frontier)"
  define child_ids where "child_ids = map row_span_id
      (filter (\<lambda>r. in_attempt kid att r \<and> is_open r \<and>
         (case row_parent r of None \<Rightarrow> False | Some p \<Rightarrow> p \<in> set frontier)) ?rows)"
  have C: "set child_ids = ?C"
    by (auto simp: child_ids_def open_children_def split: option.splits)
  have stop: ?case if "res = Inr acc" "?C = {}" "d' = d \<or> d' = after_stmt d"
    using that by (intro conjI exI [of _ "{}"]) auto
  have fail: ?case if "res = Inl BackendError" "\<not> db_healthy d" "d' = after_stmt d \<or> d' = after_stmt (after_stmt d)"
    using that by (intro conjI exI [of _ "{}"]) auto
  let ?d2 = "(after_stmt (after_stmt d))\<lparr>db_rows := cancel_ids kid att (set child_ids) reason ?rows\<rparr>"
  let ?rows2 = "cancel_ids kid att ?C reason ?rows"
  consider "frontier = []" | "frontier \<noteq> []" "stmt_fails d"
    | "frontier \<noteq> []" "\<not> stmt_fails d" "child_ids = []"
    | "frontier \<noteq> []" "\<not> stmt_fails d" "child_ids \<noteq> []" "stmt_fails (after_stmt d)"
    | "frontier \<noteq> []" "\<not> stmt_fails d" "child_ids \<noteq> []" "\<not> stmt_fails (after_stmt d)"
    by blast
  then show ?case
  proof cases
    case 1
    then show ?thesis using "2.prems" by (intro stop) (auto simp: open_children_def)
  next
    case 2
    then show ?thesis using "2.prems" by (intro fail) auto
  next
    case 3
    then show ?thesis using "2.prems" C by (intro stop) (auto simp: child_ids_def)
  next
    case 4
    then have "\<not> db_healthy d" using db_healthy_stmt [OF db_healthy_after_stmt] by blast
    with 4 show ?thesis using "2.prems" by (intro fail) (auto simp: child_ids_def Let_def)
  next
    case 5
    then obtain t where walk: "cancel_walk depth kid att reason child_ids t ?d2 = (res, d')"
      using "2.prems" by (auto simp: child_ids_def Let_def)
    have ih: "(db_healthy ?d2 \<longrightarrow> db_healthy d') \<and>
      (\<exists>ids. db_rows d' = cancel_ids kid att ids reason (db_rows ?d2) \<and>
         ids \<subseteq> open_reach (db_rows ?d2) kid att depth (set child_ids) \<and>
         (case res of Inl e \<Rightarrow> \<not> db_healthy ?d2
          | Inr n \<Rightarrow> ids = open_reach (db_rows ?d2) kid att depth (set child_ids)))"
      using "2.IH" 5 walk "2.prems" by (simp add: child_ids_def Let_def)
    then obtain ids where a: "db_rows d' = cancel_ids kid att ids reason (db_rows ?d2)"
        "ids \<subseteq> open_reach (db_rows ?d2) kid att depth (set child_ids)"
        "case res of Inl e \<Rightarrow> \<not> db_healthy ?d2
         | Inr n \<Rightarrow> ids = open_reach (db_rows ?d2) kid att depth (set child_ids)"
      by blast
    have rows2: "db_rows ?d2 = ?rows2" by (simp add: C)
    note ids = a [unfolded rows2, unfolded C]
    have lvl: "?C \<union> open_reach ?rows2 kid att depth ?C = open_reach ?rows kid att (Suc depth) (set frontier)"
      by (rule open_reach_level) simp
    show ?thesis
    proof (intro conjI exI [of _ "?C \<union> ids"])
      show "db_healthy d \<longrightarrow> db_healthy d'" using ih by auto
      show "db_rows d' = cancel_ids kid att (?C \<union> ids) reason ?rows"
        by (simp add: ids(1) cancel_ids_compose)
      show "?C \<union> ids \<subseteq> open_reach ?rows kid att (Suc depth) (set frontier)"
        unfolding lvl [symmetric] using ids(2) by (rule Un_mono [OF order_refl])
      show "case res of Inl e \<Rightarrow> \<not> db_healthy d
          | Inr n \<Rightarrow> ?C \<union> ids = open_reach ?rows kid att (Suc depth) (set frontier)"
        using ids(3) unfolding lvl [symmetric] by (cases res) auto
    qed
  qed
qed

interpretation repo: span_store_contract span_repository db_rows db_healthy
proof (unfold_locales, goal_cases)
  case (1 r s res s')
  then show ?case using repo_upsert_law [of r s res s'] by (simp add: span_repository_def)
next
  case (2 kid s res s')
  then show ?case
    by (auto simp: span_repository_def repo_next_attempt_def repo_max_attempt_def split: if_splits)
next
  case (3 kid s res s')
  then show ?case
    by (auto simp: span_repository_def repo_latest_attempt_def repo_max_attempt_def split: if_splits)
next
  case (4 kid att s res s')
  then show ?case
    by (auto simp: span_repository_def repo_list_by_attempt_def rows_of_def split: if_splits)
next
  case (5 kid att p reason s res s')
  then show ?case
    using cancel_walk_law [of CANCEL_DEPTH_LIMIT kid att reason "[p]" 0 s res s']
    by (simp only: span_repository_def repo_cancel_descendants_def span_store.simps list.set) blast
next
  case (6 kid att code reason now s res s')
  then show ?case
    by (auto simp: span_repository_def repo_cancel_all_open_spans_def repo_cancel_where_def
        split: if_splits)
next
  case (7 kid att name code reason now s res s')
  then show ?case
    by (auto simp: span_repository_def repo_cancel_open_spans_by_name_def repo_cancel_where_def
        split: if_splits)
next
  case (8 kid att name code reason now s)
  then show ?case
    by (auto simp: span_repository_def repo_cancel_open_spans_by_name_def)
qed

end
