(* ===== verification/Span_Tracker.thy ===== *)
theory Span_Tracker
  imports Span_Store
begin

text \<open>
  The processing-span tracker of src/src/core/knowledge/documents/span_tracker.py: one
  definition per method of \<open>SpanTracker\<close>, over any store. An exception the method lets
  through is \<open>Inl\<close>; the exceptions it logs and swallows are branches of the model. The
  instants \<open>now\<close> a method reads from the clock and the span id it draws are arguments.
  Logging is not modelled.
\<close>

record 's tracker =
  tr_store :: 's
  tr_heartbeat :: bool
  tr_touched :: "str list"
  tr_starts :: "str \<rightharpoonup> int"

type_synonym ('s, 'a) tracker_op = "'s tracker \<Rightarrow> (app_error + 'a) \<times> 's tracker"

subsection \<open>Internals\<close>

definition truncate_str :: "str \<Rightarrow> nat \<Rightarrow> str" where
  "truncate_str value limit = take limit value"

text \<open>\<open>_build_row\<close> with its keyword defaults; the callers overwrite the fields they pass.\<close>

definition build_row ::
  "str \<Rightarrow> int \<Rightarrow> str \<Rightarrow> str option \<Rightarrow> str \<Rightarrow> str \<Rightarrow> str \<Rightarrow> int \<Rightarrow> span_row" where
  "build_row kid attempt span_id parent name kind status now =
     \<lparr>row_id = 0, row_knowledge_id = kid, row_attempt = attempt, row_span_id = span_id,
      row_parent = parent, row_name = name, row_kind = kind, row_status = status,
      row_input = None, row_output = None, row_metadata = None,
      row_error_code = Some [], row_error_message = Some [], row_error_detail = Some [],
      row_started_at = None, row_finished_at = None, row_duration_ms = None,
      row_created_at = now, row_updated_at = now\<rparr>"

definition to_span :: "span_row \<Rightarrow> span" where
  "to_span row =
     \<lparr>sp_knowledge_id = row_knowledge_id row, sp_attempt = row_attempt row,
      sp_span_id = row_span_id row, sp_parent = row_parent row, sp_name = row_name row,
      sp_kind = row_kind row, sp_status = row_status row,
      sp_started_at = (case row_started_at row of None \<Rightarrow> EPOCH | Some a \<Rightarrow> a)\<rparr>"

definition touch_knowledge_heartbeat :: "str \<Rightarrow> str \<Rightarrow> 's tracker \<Rightarrow> 's tracker" where
  "touch_knowledge_heartbeat kid kind t =
     (if \<not> tr_heartbeat t \<or> kid = [] then t
      else if kind \<noteq> SPAN_KIND_ROOT \<and> kind \<noteq> SPAN_KIND_STAGE then t
      else t\<lparr>tr_touched := tr_touched t @ [kid]\<rparr>)"

definition record_start :: "str \<Rightarrow> int \<Rightarrow> 's tracker \<Rightarrow> 's tracker" where
  "record_start span_id started t = t\<lparr>tr_starts := (tr_starts t)(span_id \<mapsto> started)\<rparr>"

definition take_start :: "str \<Rightarrow> 's tracker \<Rightarrow> int option \<times> 's tracker" where
  "take_start span_id t = (tr_starts t span_id, t\<lparr>tr_starts := (tr_starts t)(span_id := None)\<rparr>)"

definition duration_since :: "span \<Rightarrow> int \<Rightarrow> 's tracker \<Rightarrow> int \<times> 's tracker" where
  "duration_since sp now t =
     (case take_start (sp_span_id sp) t of
        (Some start, t') \<Rightarrow> (elapsed_ms start now, t')
      | (None, t') \<Rightarrow> (if sp_started_at sp = EPOCH then 0 else elapsed_ms (sp_started_at sp) now, t'))"

subsection \<open>Attempt lifecycle\<close>

definition open_attempt ::
  "'s span_store \<Rightarrow> str \<Rightarrow> str \<Rightarrow> int \<Rightarrow> str \<Rightarrow> ('s, span option \<times> int) tracker_op" where
  "open_attempt S kid trace_id now root_id t =
     (if kid = [] then (Inr (None, 0), t)
      else case store_next_attempt S kid (tr_store t) of
        (Inl e, s) \<Rightarrow> (Inl e, t\<lparr>tr_store := s\<rparr>)
      | (Inr attempt, s) \<Rightarrow>
          let meta = (if trace_id \<noteq> [] then [(lit ''langfuse_trace_id'', JStr trace_id)] else []);
              row = (build_row kid attempt root_id None ROOT_SPAN_NAME SPAN_KIND_ROOT
                       SPAN_STATUS_RUNNING now)
                    \<lparr>row_metadata := Some (JObj meta), row_started_at := Some now\<rparr>
          in case store_upsert S row s of
               (Inl e, s') \<Rightarrow> (Inr (None, attempt), t\<lparr>tr_store := s'\<rparr>)
             | (Inr persisted, s') \<Rightarrow>
                 (Inr (Some \<lparr>sp_knowledge_id = kid, sp_attempt = attempt, sp_span_id = root_id,
                         sp_parent = None, sp_name = ROOT_SPAN_NAME, sp_kind = SPAN_KIND_ROOT,
                         sp_status = SPAN_STATUS_RUNNING, sp_started_at = now\<rparr>, attempt),
                  touch_knowledge_heartbeat kid SPAN_KIND_ROOT
                    (record_start root_id now (t\<lparr>tr_store := s'\<rparr>))))"

text \<open>The row that closes the root.\<close>

definition closing_row :: "span_row \<Rightarrow> str \<Rightarrow> json option \<Rightarrow> str \<Rightarrow> str \<Rightarrow> int \<Rightarrow> span_row" where
  "closing_row root_row status output error_code error_message now =
     (let duration_ms = (case row_started_at root_row of None \<Rightarrow> 0 | Some a \<Rightarrow> elapsed_ms a now)
      in (build_row (row_knowledge_id root_row) (row_attempt root_row) (row_span_id root_row)
            (row_parent root_row) (row_name root_row) (row_kind root_row) status now)
         \<lparr>row_input := row_input root_row, row_output := output,
          row_metadata := row_metadata root_row,
          row_error_code := Some (strip error_code),
          row_error_message := Some (truncate_str error_message MAX_ERROR_MESSAGE_LEN),
          row_started_at := row_started_at root_row,
          row_finished_at := Some now, row_duration_ms := Some duration_ms\<rparr>)"

definition finalize_core ::
  "'s span_store \<Rightarrow> str \<Rightarrow> int \<Rightarrow> str \<Rightarrow> json option \<Rightarrow> str \<Rightarrow> str \<Rightarrow> int \<Rightarrow> ('s, unit) tracker_op" where
  "finalize_core S kid attempt status0 output error_code error_message now t =
     (if kid = [] \<or> attempt \<le> 0 then (Inr (), t)
      else let status = (if status0 = [] then SPAN_STATUS_DONE else status0)
      in if status \<notin> TERMINAL_STATUSES
         then (Inl (ValidationError (lit ''span.invalid_status'')), t)
         else case store_list_by_attempt S kid attempt (tr_store t) of
           (Inl e, s) \<Rightarrow> (Inr (), t\<lparr>tr_store := s\<rparr>)
         | (Inr rows, s) \<Rightarrow>
             (case find (\<lambda>r. row_kind r = SPAN_KIND_ROOT) rows of
                None \<Rightarrow> (Inr (), t\<lparr>tr_store := s\<rparr>)
              | Some root_row \<Rightarrow>
                  if row_status root_row \<in> TERMINAL_STATUSES then (Inr (), t\<lparr>tr_store := s\<rparr>)
                  else case store_upsert S (closing_row root_row status output error_code
                                              error_message now) s of
                         (Inl e, s') \<Rightarrow> (Inr (), t\<lparr>tr_store := s'\<rparr>)
                       | (Inr persisted, s') \<Rightarrow>
                           (Inr (), touch_knowledge_heartbeat kid SPAN_KIND_ROOT
                                      (t\<lparr>tr_store := s'\<rparr>))))"

definition finalize_attempt ::
  "'s span_store \<Rightarrow> str \<Rightarrow> int \<Rightarrow> str \<Rightarrow> json option \<Rightarrow> str \<Rightarrow> str \<Rightarrow> int \<Rightarrow> ('s, unit) tracker_op" where
  "finalize_attempt S kid attempt status output error_code error_message now t =
     finalize_core S kid attempt status output error_code error_message now t"

definition abort_attempt ::
  "'s span_store \<Rightarrow> str \<Rightarrow> int \<Rightarrow> str \<Rightarrow> str \<Rightarrow> str \<Rightarrow> int \<Rightarrow> int \<Rightarrow> ('s, unit) tracker_op" where
  "abort_attempt S kid attempt error_code0 error_message reason0 now1 now2 t =
     (if kid = [] \<or> attempt \<le> 0 then (Inr (), t)
      else let reason = (if reason0 = [] then lit ''user cancelled'' else reason0);
               error_code = (if error_code0 = [] then lit ''USER_CANCELLED'' else error_code0);
               s = snd (store_cancel_all_open_spans S kid attempt error_code reason now1 (tr_store t))
           in finalize_core S kid attempt SPAN_STATUS_CANCELLED None error_code error_message now2
                (t\<lparr>tr_store := s\<rparr>))"

subsection \<open>Stage and subspan lifecycle\<close>

text \<open>The scan of \<open>begin_stage\<close>: the first root's id, the last row of the stage.\<close>

definition stage_scan :: "str \<Rightarrow> span_row \<Rightarrow> str \<times> span_row option \<Rightarrow> str \<times> span_row option" where
  "stage_scan stage r acc =
     (case acc of (root_id, existing) \<Rightarrow>
        (if row_kind r = SPAN_KIND_ROOT \<and> root_id = [] then row_span_id r else root_id,
         if row_kind r = SPAN_KIND_STAGE \<and> row_name r = stage then Some r else existing))"

definition begin_stage ::
  "'s span_store \<Rightarrow> str \<Rightarrow> int \<Rightarrow> str \<Rightarrow> json option \<Rightarrow> int \<Rightarrow> str \<Rightarrow> ('s, span option) tracker_op" where
  "begin_stage S kid attempt stage input now new_id t =
     (if kid = [] \<or> stage = [] then (Inr None, t)
      else case store_list_by_attempt S kid attempt (tr_store t) of
        (Inl e, s) \<Rightarrow> (Inr None, t\<lparr>tr_store := s\<rparr>)
      | (Inr rows, s) \<Rightarrow>
          (case fold (stage_scan stage) rows ([], None) of
             (root_id, Some ex) \<Rightarrow>
               let row = (build_row (row_knowledge_id ex) (row_attempt ex) (row_span_id ex)
                            (row_parent ex) (row_name ex) (row_kind ex) SPAN_STATUS_RUNNING now)
                         \<lparr>row_input := input, row_started_at := Some now,
                          row_duration_ms := Some 0\<rparr>
               in (case store_upsert S row s of
                     (Inl e, s') \<Rightarrow> (Inr None, t\<lparr>tr_store := s'\<rparr>)
                   | (Inr persisted, s') \<Rightarrow>
                       (Inr (Some \<lparr>sp_knowledge_id = row_knowledge_id ex,
                               sp_attempt = row_attempt ex, sp_span_id = row_span_id ex,
                               sp_parent = row_parent ex, sp_name = row_name ex,
                               sp_kind = row_kind ex, sp_status = SPAN_STATUS_RUNNING,
                               sp_started_at = now\<rparr>),
                        touch_knowledge_heartbeat kid SPAN_KIND_STAGE
                          (record_start (row_span_id ex) now (t\<lparr>tr_store := s'\<rparr>))))
           | (root_id, None) \<Rightarrow>
               let row = (build_row kid attempt new_id (Some root_id) stage SPAN_KIND_STAGE
                            SPAN_STATUS_RUNNING now)
                         \<lparr>row_input := input, row_started_at := Some now\<rparr>
               in (case store_upsert S row s of
                     (Inl e, s') \<Rightarrow> (Inr None, t\<lparr>tr_store := s'\<rparr>)
                   | (Inr persisted, s') \<Rightarrow>
                       (Inr (Some \<lparr>sp_knowledge_id = kid, sp_attempt = attempt,
                               sp_span_id = new_id, sp_parent = Some root_id, sp_name = stage,
                               sp_kind = SPAN_KIND_STAGE, sp_status = SPAN_STATUS_RUNNING,
                               sp_started_at = now\<rparr>),
                        touch_knowledge_heartbeat kid SPAN_KIND_STAGE
                          (record_start new_id now (t\<lparr>tr_store := s'\<rparr>))))))"

definition begin_sub_span ::
  "'s span_store \<Rightarrow> (str \<Rightarrow> str) \<Rightarrow> span option \<Rightarrow> str \<Rightarrow> str \<Rightarrow> json option \<Rightarrow> int \<Rightarrow> int \<Rightarrow> str
     \<Rightarrow> ('s, span option) tracker_op" where
  "begin_sub_span S digest8 parent name0 kind0 input now1 now2 new_id t =
     (case parent of None \<Rightarrow> (Inr None, t)
      | Some p \<Rightarrow>
        if name0 = [] then (Inr None, t)
        else
          let name = fit_span_name digest8 name0;
              kind = (if kind0 \<in> {SPAN_KIND_GENERATION, SPAN_KIND_SUBSPAN} then kind0
                      else SPAN_KIND_SUBSPAN);
              s = snd (store_cancel_open_spans_by_name S (sp_knowledge_id p) (sp_attempt p) name
                         (lit ''TASK_SUPERSEDED'')
                         (lit ''superseded by a new run of the same subtask'') now1 (tr_store t));
              row = (build_row (sp_knowledge_id p) (sp_attempt p) new_id (Some (sp_span_id p)) name
                       kind SPAN_STATUS_RUNNING now2)
                    \<lparr>row_input := input, row_started_at := Some now2\<rparr>
          in case store_upsert S row s of
               (Inl e, s') \<Rightarrow> (Inr None, t\<lparr>tr_store := s'\<rparr>)
             | (Inr persisted, s') \<Rightarrow>
                 (Inr (Some \<lparr>sp_knowledge_id = sp_knowledge_id p, sp_attempt = sp_attempt p,
                         sp_span_id = new_id, sp_parent = Some (sp_span_id p), sp_name = name,
                         sp_kind = kind, sp_status = SPAN_STATUS_RUNNING, sp_started_at = now2\<rparr>),
                  touch_knowledge_heartbeat (sp_knowledge_id p) kind
                    (record_start new_id now2 (t\<lparr>tr_store := s'\<rparr>))))"

subsection \<open>Span transitions\<close>

text \<open>The row every transition of a handle starts from.\<close>

definition span_row_of :: "span \<Rightarrow> str \<Rightarrow> int \<Rightarrow> span_row" where
  "span_row_of sp status now =
     (build_row (sp_knowledge_id sp) (sp_attempt sp) (sp_span_id sp) (sp_parent sp) (sp_name sp)
        (sp_kind sp) status now)\<lparr>row_started_at := Some (sp_started_at sp), row_finished_at := Some now\<rparr>"

definition end_span ::
  "'s span_store \<Rightarrow> span option \<Rightarrow> json option \<Rightarrow> int \<Rightarrow> ('s, unit) tracker_op" where
  "end_span S spo output now t =
     (case spo of None \<Rightarrow> (Inr (), t)
      | Some sp \<Rightarrow>
          (case duration_since sp now t of (ms, t1) \<Rightarrow>
             let row = (span_row_of sp SPAN_STATUS_DONE now)
                       \<lparr>row_output := output, row_duration_ms := Some ms\<rparr>;
                 s' = snd (store_upsert S row (tr_store t1))
             in (Inr (), touch_knowledge_heartbeat (sp_knowledge_id sp) (sp_kind sp)
                           (t1\<lparr>tr_store := s'\<rparr>))))"

fun cascade_rows ::
  "'s span_store \<Rightarrow> str list \<Rightarrow> str \<Rightarrow> int \<Rightarrow> span_row list \<Rightarrow> 's \<Rightarrow> 's" where
  "cascade_rows S dependents reason now [] s = s"
| "cascade_rows S dependents reason now (row # rows) s =
     (if row_kind row \<noteq> SPAN_KIND_STAGE then cascade_rows S dependents reason now rows s
      else if row_status row \<notin> {SPAN_STATUS_PENDING, SPAN_STATUS_RUNNING}
      then cascade_rows S dependents reason now rows s
      else if row_name row \<notin> set dependents then cascade_rows S dependents reason now rows s
      else let updated = (build_row (row_knowledge_id row) (row_attempt row) (row_span_id row)
                            (row_parent row) (row_name row) (row_kind row)
                            SPAN_STATUS_CANCELLED now)
                         \<lparr>row_error_code := Some (lit ''UPSTREAM_FAILED''),
                          row_error_message := Some reason,
                          row_started_at := row_started_at row, row_finished_at := Some now,
                          row_duration_ms := row_duration_ms row\<rparr>
           in case store_upsert S updated s of
                (Inl e, s') \<Rightarrow> cascade_rows S dependents reason now rows s'
              | (Inr persisted, s') \<Rightarrow>
                  cascade_rows S dependents reason now rows
                    (snd (store_cancel_descendants S (row_knowledge_id row) (row_attempt row)
                            (row_span_id row) reason s')))"

definition cascade_dependent_stages ::
  "'s span_store \<Rightarrow> span \<Rightarrow> str \<Rightarrow> int \<Rightarrow> 's tracker \<Rightarrow> 's tracker" where
  "cascade_dependent_stages S failed_stage reason now t =
     (case store_list_by_attempt S (sp_knowledge_id failed_stage) (sp_attempt failed_stage)
             (tr_store t) of
        (Inl e, s) \<Rightarrow> t\<lparr>tr_store := s\<rparr>
      | (Inr rows, s) \<Rightarrow>
          let dependents = stages_depending_on (sp_name failed_stage)
          in if dependents = [] then t\<lparr>tr_store := s\<rparr>
             else t\<lparr>tr_store := cascade_rows S dependents reason now rows s\<rparr>)"

definition fail_span ::
  "'s span_store \<Rightarrow> span option \<Rightarrow> str \<Rightarrow> str \<Rightarrow> str option \<Rightarrow> int \<Rightarrow> int \<Rightarrow> int \<Rightarrow> ('s, unit) tracker_op" where
  "fail_span S spo error_code error_message error_detail now1 now2 now3 t =
     (case spo of None \<Rightarrow> (Inr (), t)
      | Some sp \<Rightarrow>
          (case duration_since sp now1 t of (ms, t1) \<Rightarrow>
             let detail = (case error_detail of None \<Rightarrow> [] | Some d \<Rightarrow> d);
                 row = (span_row_of sp SPAN_STATUS_FAILED now1)
                       \<lparr>row_error_code := Some (strip error_code),
                        row_error_message := Some (truncate_str error_message MAX_ERROR_MESSAGE_LEN),
                        row_error_detail := Some (truncate_str detail MAX_ERROR_DETAIL_LEN),
                        row_duration_ms := Some ms\<rparr>;
                 s1 = snd (store_upsert S row (tr_store t1));
                 reason0 = lit ''upstream '' @ sp_name sp @ lit '' failed'';
                 reason = (if error_code = [] then reason0
                           else reason0 @ lit '' ('' @ error_code @ lit '')'');
                 s2 = snd (store_cancel_descendants S (sp_knowledge_id sp) (sp_attempt sp)
                             (sp_span_id sp) reason s1);
                 t2 = t1\<lparr>tr_store := s2\<rparr>
             in if sp_kind sp = SPAN_KIND_STAGE
                then let t3 = cascade_dependent_stages S sp reason now2 t2
                     in if is_main_pipeline_stage (sp_name sp)
                        then (case finalize_core S (sp_knowledge_id sp) (sp_attempt sp)
                                     SPAN_STATUS_FAILED None error_code error_message now3 t3 of
                                (Inl e, t4) \<Rightarrow> (Inl e, t4)
                              | (Inr u, t4) \<Rightarrow>
                                  (Inr (), touch_knowledge_heartbeat (sp_knowledge_id sp)
                                             (sp_kind sp) t4))
                        else (Inr (), touch_knowledge_heartbeat (sp_knowledge_id sp) (sp_kind sp) t3)
                else (Inr (), touch_knowledge_heartbeat (sp_knowledge_id sp) (sp_kind sp) t2)))"

definition skip_span ::
  "'s span_store \<Rightarrow> span option \<Rightarrow> str \<Rightarrow> int \<Rightarrow> ('s, unit) tracker_op" where
  "skip_span S spo reason now t =
     (case spo of None \<Rightarrow> (Inr (), t)
      | Some sp \<Rightarrow>
          let row = (span_row_of sp SPAN_STATUS_SKIPPED now)
                    \<lparr>row_error_message := Some reason, row_duration_ms := Some 0\<rparr>;
              s' = snd (store_upsert S row (tr_store t))
          in (Inr (), touch_knowledge_heartbeat (sp_knowledge_id sp) (sp_kind sp)
                        (t\<lparr>tr_store := s'\<rparr>)))"

subsection \<open>Lookups and the progress query\<close>

definition latest_attempt :: "'s span_store \<Rightarrow> str \<Rightarrow> 's tracker \<Rightarrow> int \<times> 's tracker" where
  "latest_attempt S kid t =
     (case store_latest_attempt S kid (tr_store t) of
        (Inl e, s) \<Rightarrow> (0, t\<lparr>tr_store := s\<rparr>)
      | (Inr n, s) \<Rightarrow> (n, t\<lparr>tr_store := s\<rparr>))"

definition list_attempt_spans ::
  "'s span_store \<Rightarrow> str \<Rightarrow> int \<Rightarrow> 's tracker \<Rightarrow> span_row list \<times> 's tracker" where
  "list_attempt_spans S kid attempt t =
     (case store_list_by_attempt S kid attempt (tr_store t) of
        (Inl e, s) \<Rightarrow> ([], t\<lparr>tr_store := s\<rparr>)
      | (Inr rows, s) \<Rightarrow> (rows, t\<lparr>tr_store := s\<rparr>))"

definition lookup_stage ::
  "'s span_store \<Rightarrow> str \<Rightarrow> int \<Rightarrow> str \<Rightarrow> 's tracker \<Rightarrow> span option \<times> 's tracker" where
  "lookup_stage S kid attempt stage t =
     (case store_list_by_attempt S kid attempt (tr_store t) of
        (Inl e, s) \<Rightarrow> (None, t\<lparr>tr_store := s\<rparr>)
      | (Inr rows, s) \<Rightarrow>
          (map_option to_span (find (\<lambda>r. row_kind r = SPAN_KIND_STAGE \<and> row_name r = stage) rows),
           t\<lparr>tr_store := s\<rparr>))"

definition lookup_span_by_name ::
  "'s span_store \<Rightarrow> (str \<Rightarrow> str) \<Rightarrow> str \<Rightarrow> int \<Rightarrow> str \<Rightarrow> 's tracker \<Rightarrow> span option \<times> 's tracker" where
  "lookup_span_by_name S digest8 kid attempt name0 t =
     (if name0 = [] \<or> kid = [] \<or> attempt \<le> 0 then (None, t)
      else let name = fit_span_name digest8 name0
           in case store_list_by_attempt S kid attempt (tr_store t) of
                (Inl e, s) \<Rightarrow> (None, t\<lparr>tr_store := s\<rparr>)
              | (Inr rows, s) \<Rightarrow>
                  (map_option to_span (find (\<lambda>r. row_name r = name) rows), t\<lparr>tr_store := s\<rparr>))"

record span_progress =
  pr_knowledge_id :: str
  pr_attempt :: int
  pr_latest_attempt :: int
  pr_spans :: "span_row list"

definition get_progress ::
  "'s span_store \<Rightarrow> str \<Rightarrow> int option \<Rightarrow> ('s, span_progress) tracker_op" where
  "get_progress S kid attempt t =
     (if strip kid = [] then (Inl (ValidationError (lit ''span.knowledge_required'')), t)
      else if (case attempt of None \<Rightarrow> False | Some a \<Rightarrow> a < 1)
      then (Inl (ValidationError (lit ''span.invalid_attempt'')), t)
      else case latest_attempt S kid t of (latest, t1) \<Rightarrow>
        let current = (case attempt of Some a \<Rightarrow> a | None \<Rightarrow> latest)
        in if current \<le> 0 then (Inl (NotFoundError (lit ''span.not_found'')), t1)
           else case list_attempt_spans S kid current t1 of (spans, t2) \<Rightarrow>
             (Inr \<lparr>pr_knowledge_id = kid, pr_attempt = current, pr_latest_attempt = latest,
                   pr_spans = spans\<rparr>, t2))"

end
