(* ===== verification/Span_Invariants.thy ===== *)
theory Span_Invariants
  imports Span_Tracker
begin

text \<open>
  What the tracker operations do to the table, proved once against the store contract. Every
  operation on an attempt is a sequence of the three kinds of writes of \<open>table_step\<close>, so a
  property of the table is proved for each kind of write and then holds along every run.
\<close>

subsection \<open>Writes into one attempt\<close>

definition known_key :: "str \<times> int \<times> str \<Rightarrow> span_row list \<Rightarrow> bool" where
  "known_key k rows \<longleftrightarrow> k \<in> set (map row_key rows)"

text \<open>A row may be put when it updates a known row, or does not start a stage a second time.\<close>

definition put_ok :: "span_row list \<Rightarrow> span_row \<Rightarrow> bool" where
  "put_ok rows row \<longleftrightarrow>
     known_key (row_key row) rows \<or> row_kind row \<noteq> SPAN_KIND_STAGE \<or>
     (\<forall>r \<in> set rows. in_attempt (row_knowledge_id row) (row_attempt row) r \<and>
        row_kind r = SPAN_KIND_STAGE \<longrightarrow> row_name r \<noteq> row_name row)"

lemma known_key_list_ex: "known_key (row_key new) rows \<longleftrightarrow> list_ex (\<lambda>r. row_key r = row_key new) rows"
  by (simp add: known_key_def list_ex_iff image_iff eq_commute [of "row_key new"])

lemma put_row_known:
  "known_key (row_key new) rows \<Longrightarrow> put_row new n rows =
     map (\<lambda>r. if row_key r = row_key new then update_on_conflict new r else r) rows"
  by (simp add: put_row_def known_key_list_ex)

lemma put_row_fresh:
  "\<not> known_key (row_key new) rows \<Longrightarrow> put_row new n rows = rows @ [new\<lparr>row_id := n\<rparr>]"
  by (simp add: put_row_def known_key_list_ex)

text \<open>A row has a knowledge, a span id and a positive attempt.\<close>

definition row_wf :: "span_row \<Rightarrow> bool" where
  "row_wf r \<longleftrightarrow> row_knowledge_id r \<noteq> [] \<and> row_span_id r \<noteq> [] \<and> 0 < row_attempt r"

definition rows_wf :: "span_row list \<Rightarrow> bool" where
  "rows_wf rows \<longleftrightarrow> (\<forall>r \<in> set rows. row_wf r)"

lemma row_wf_key: "row_key r = row_key q \<Longrightarrow> row_wf r = row_wf q"
  by (simp add: row_wf_def row_key_def)

inductive table_step :: "str \<Rightarrow> int \<Rightarrow> span_row list \<Rightarrow> span_row list \<Rightarrow> bool" for kid att where
  put: "in_attempt kid att row \<Longrightarrow> row_wf row \<Longrightarrow> put_ok rows row \<Longrightarrow> table_step kid att rows (put_row row n rows)"
| flip: "table_step kid att rows (cancel_ids kid att ids reason rows)"
| sweep: "table_step kid att rows
    (cancel_open (\<lambda>r. in_attempt kid att r \<and> P r) code reason now rows)"

abbreviation table_steps :: "str \<Rightarrow> int \<Rightarrow> span_row list \<Rightarrow> span_row list \<Rightarrow> bool" where
  "table_steps kid att \<equiv> (table_step kid att)\<^sup>*\<^sup>*"

lemma table_step_other_rows:
  "table_step kid att rows rows' \<Longrightarrow> other_rows kid att rows' = other_rows kid att rows"
  by (induction rule: table_step.induct) (simp_all add: kb_frame)

lemma table_step_key_unique: "table_step kid att rows rows' \<Longrightarrow> key_unique rows \<Longrightarrow> key_unique rows'"
  by (induction rule: table_step.induct) (simp_all add: key_unique_writes)

lemma table_step_known: "table_step kid att rows rows' \<Longrightarrow> known_key k rows \<Longrightarrow> known_key k rows'"
  by (induction rule: table_step.induct) (auto simp: known_key_def map_row_key_put_row)

lemma table_step_wf: "table_step kid att rows rows' \<Longrightarrow> rows_wf rows \<Longrightarrow> rows_wf rows'"
proof (induction rule: table_step.induct)
  case (put row rows n)
  have "row_wf (row\<lparr>row_id := n\<rparr>)" using put.hyps(2) by (simp add: row_wf_def)
  then show ?case
    using put.prems row_wf_key [OF row_key_simps(1)]
    by (auto simp: rows_wf_def put_row_def)
qed (auto simp: rows_wf_def cancel_ids_def cancel_open_def row_wf_key [OF row_key_simps(2)]
    row_wf_key [OF row_key_simps(3)])

lemma table_steps_wf: "table_steps kid att rows rows' \<Longrightarrow> rows_wf rows \<Longrightarrow> rows_wf rows'"
  by (induction rule: rtranclp_induct) (simp_all add: table_step_wf)

lemma table_steps_other_rows:
  "table_steps kid att rows rows' \<Longrightarrow> other_rows kid att rows' = other_rows kid att rows"
  by (induction rule: rtranclp_induct) (simp_all add: table_step_other_rows)

lemma table_steps_key_unique: "table_steps kid att rows rows' \<Longrightarrow> key_unique rows \<Longrightarrow> key_unique rows'"
  by (induction rule: rtranclp_induct) (simp_all add: table_step_key_unique)

lemma table_steps_known: "table_steps kid att rows rows' \<Longrightarrow> known_key k rows \<Longrightarrow> known_key k rows'"
  by (induction rule: rtranclp_induct) (simp_all add: table_step_known)

subsection \<open>Identity columns\<close>

text \<open>
  The columns no write changes once the row is in the table: the key, the name, kind and
  parent of the span and its creation time. The table grows at its end only.
\<close>

definition row_identity :: "span_row \<Rightarrow> nat \<times> (str \<times> int \<times> str) \<times> str \<times> str \<times> str option \<times> int" where
  "row_identity r = (row_id r, row_key r, row_name r, row_kind r, row_parent r, row_created_at r)"

lemma row_identity_simps [simp]:
  "row_identity (update_on_conflict new r) = row_identity r"
  "row_identity (mark_upstream_failed reason r) = row_identity r"
  "row_identity (mark_cancelled code reason now r) = row_identity r"
  by (simp_all add: row_identity_def update_on_conflict_def mark_upstream_failed_def
      mark_cancelled_def row_key_def)

lemma map_identity:
  "(\<And>r. row_identity (f r) = row_identity r) \<Longrightarrow>
   map (row_identity \<circ> f) rows = map row_identity rows"
  by simp

lemma table_step_identity:
  "table_step kid att rows rows' \<Longrightarrow> \<exists>new. map row_identity rows' = map row_identity rows @ new"
proof (induction rule: table_step.induct)
  case (put row rows n)
  then show ?case
    by (cases "known_key (row_key row) rows") (simp_all add: put_row_known put_row_fresh map_identity)
qed (simp_all add: cancel_ids_def cancel_open_def map_identity)

lemma table_steps_identity:
  "table_steps kid att rows rows' \<Longrightarrow> \<exists>new. map row_identity rows' = map row_identity rows @ new"
proof (induction rule: rtranclp_induct)
  case base
  then show ?case by simp
next
  case (step y z)
  then show ?case using table_step_identity [OF step.hyps(2)] by fastforce
qed

subsection \<open>One row per stage\<close>

definition stage_name_of :: "span_row \<Rightarrow> str \<times> int \<times> str" where
  "stage_name_of r = (row_knowledge_id r, row_attempt r, row_name r)"

definition stage_unique :: "span_row list \<Rightarrow> bool" where
  "stage_unique rows \<longleftrightarrow>
     distinct (map stage_name_of (filter (\<lambda>r. row_kind r = SPAN_KIND_STAGE) rows))"

lemma stage_unique_map:
  assumes "\<And>r. row_identity (f r) = row_identity r"
  shows "stage_unique (map f rows) = stage_unique rows"
proof -
  have kind: "row_kind (f r) = row_kind r" and name: "stage_name_of (f r) = stage_name_of r" for r
    using assms [of r] by (auto simp: row_identity_def row_key_def stage_name_of_def)
  have "map stage_name_of (filter (\<lambda>r. row_kind r = SPAN_KIND_STAGE) (map f rows)) =
      map stage_name_of (filter (\<lambda>r. row_kind r = SPAN_KIND_STAGE) rows)"
    by (simp add: filter_map comp_def kind name)
  then show ?thesis by (simp add: stage_unique_def)
qed

lemma table_step_stage_unique:
  "table_step kid att rows rows' \<Longrightarrow> stage_unique rows \<Longrightarrow> stage_unique rows'"
proof (induction rule: table_step.induct)
  case (put row rows n)
  show ?case
  proof (cases "known_key (row_key row) rows")
    case True
    then show ?thesis using put.prems by (simp add: put_row_known stage_unique_map)
  next
    case False
    then show ?thesis
      using put.prems put.hyps(3)
      by (auto simp: put_row_fresh stage_unique_def put_ok_def stage_name_of_def in_attempt_def)
  qed
qed (simp_all add: cancel_ids_def cancel_open_def stage_unique_map)

lemma table_steps_stage_unique:
  "table_steps kid att rows rows' \<Longrightarrow> stage_unique rows \<Longrightarrow> stage_unique rows'"
  by (induction rule: rtranclp_induct) (simp_all add: table_step_stage_unique)

subsection \<open>Bookkeeping outside the table\<close>

lemma touch_store [simp]: "tr_store (touch_knowledge_heartbeat kid kind t) = tr_store t"
  by (simp add: touch_knowledge_heartbeat_def)

lemma record_start_store [simp]: "tr_store (record_start span_id now t) = tr_store t"
  by (simp add: record_start_def)

lemma duration_since_store: "duration_since sp now t = (ms, t') \<Longrightarrow> tr_store t' = tr_store t"
  by (auto simp: duration_since_def take_start_def split: option.splits)

lemma build_row_simps [simp]:
  "row_knowledge_id (build_row kid att sid parent name kind status now) = kid"
  "row_attempt (build_row kid att sid parent name kind status now) = att"
  "row_span_id (build_row kid att sid parent name kind status now) = sid"
  "row_parent (build_row kid att sid parent name kind status now) = parent"
  "row_name (build_row kid att sid parent name kind status now) = name"
  "row_kind (build_row kid att sid parent name kind status now) = kind"
  "row_status (build_row kid att sid parent name kind status now) = status"
  by (simp_all add: build_row_def)

definition span_key :: "span \<Rightarrow> str \<times> int \<times> str" where
  "span_key sp = (sp_knowledge_id sp, sp_attempt sp, sp_span_id sp)"

lemma span_row_of_simps [simp]:
  "row_knowledge_id (span_row_of sp status now) = sp_knowledge_id sp"
  "row_attempt (span_row_of sp status now) = sp_attempt sp"
  "row_span_id (span_row_of sp status now) = sp_span_id sp"
  "row_status (span_row_of sp status now) = status"
  "row_kind (span_row_of sp status now) = sp_kind sp"
  "row_name (span_row_of sp status now) = sp_name sp"
  by (simp_all add: span_row_of_def)

lemma normal_row_id: "0 < row_attempt r \<Longrightarrow> normal_row r = r"
  by (simp add: normal_row_def effective_attempt_def)

text \<open>The scan of \<open>begin_stage\<close> finds a row of the stage if there is one.\<close>

lemma stage_scan_existing:
  "fold (stage_scan stage) rows acc = (root_id, existing) \<Longrightarrow>
   (case existing of
      None \<Rightarrow> snd acc = None \<and> (\<forall>r \<in> set rows. row_kind r = SPAN_KIND_STAGE \<longrightarrow> row_name r \<noteq> stage)
    | Some r \<Rightarrow> (r \<in> set rows \<and> row_kind r = SPAN_KIND_STAGE \<and> row_name r = stage) \<or> snd acc = Some r)"
proof (induction rows arbitrary: acc)
  case Nil
  then show ?case by (auto split: option.splits)
next
  case (Cons r rows)
  from Cons.IH [of "stage_scan stage r acc"] Cons.prems show ?case
    by (auto simp: stage_scan_def split: option.splits prod.splits if_splits)
qed

end
