(* ===== verification/Span_Laws.thy ===== *)
theory Span_Laws
  imports Span_Invariants
begin

text \<open>
  The effect of every tracker operation on the table, proved inside the store contract: each
  is a run of \<open>table_step\<close>, whatever the faults of the store.
\<close>

definition root_of :: "str \<Rightarrow> int \<Rightarrow> span_row list \<Rightarrow> span_row option" where
  "root_of kid att rows = find (\<lambda>r. row_kind r = SPAN_KIND_ROOT) (rows_of kid att rows)"

lemma root_ofD:
  "root_of kid att rows = Some r \<Longrightarrow> 0 < att \<Longrightarrow>
     r \<in> set rows \<and> in_attempt kid att r \<and> row_kind r = SPAN_KIND_ROOT"
  by (auto simp: root_of_def find_Some_iff dest!: nth_mem dest: rows_of_set)

lemma put_ok_known: "known_key (row_key row) rows \<Longrightarrow> put_ok rows row"
  by (simp add: put_ok_def)

lemma known_key_mem: "r \<in> set rows \<Longrightarrow> known_key (row_key r) rows"
  by (simp add: known_key_def)

lemma closing_row_simps [simp]:
  "row_key (closing_row r status output code msg now) = row_key r"
  "row_knowledge_id (closing_row r status output code msg now) = row_knowledge_id r"
  "row_attempt (closing_row r status output code msg now) = row_attempt r"
  "row_status (closing_row r status output code msg now) = status"
  by (simp_all add: closing_row_def row_key_def Let_def)

lemma max_attempt_nonneg: "rows_wf rows \<Longrightarrow> 0 \<le> max_attempt kid rows"
proof -
  assume wf: "rows_wf rows"
  show ?thesis
  proof (cases "filter (\<lambda>r. row_knowledge_id r = kid) rows")
    case Nil
    then show ?thesis by (simp add: max_attempt_def)
  next
    case (Cons r rs)
    then have "r \<in> set rows" "row_knowledge_id r = kid" by (auto dest: filter_eq_ConsD)
    then have "0 < row_attempt r" "row_attempt r \<le> max_attempt kid rows"
      using wf by (auto simp: rows_wf_def row_wf_def intro: max_attempt_ge)
    then show ?thesis by simp
  qed
qed

context span_store_contract
begin

lemma upsert_steps:
  assumes "store_upsert S r s = (res, s')" and "0 < row_attempt r" and "put_ok (view s) r"
  shows "table_steps (row_knowledge_id r) (row_attempt r) (view s) (view s')"
proof (cases res)
  case (Inl e)
  then show ?thesis using upsert_law [OF assms(1)] by simp
next
  case (Inr x)
  then obtain n where "view s' = put_row (normal_row r) n (view s)" "row_wf r"
    using upsert_law [OF assms(1)] assms(2) by (auto simp: row_wf_def)
  moreover have "in_attempt (row_knowledge_id r) (row_attempt r) r" by (simp add: in_attempt_def)
  ultimately show ?thesis
    using assms(2,3) by (auto simp: normal_row_id intro: r_into_rtranclp table_step.put)
qed

lemma cancel_descendants_steps:
  assumes "store_cancel_descendants S kid att p reason s = (res, s')"
  shows "table_steps kid att (view s) (view s')"
  using cancel_descendants_law [OF assms] by (metis r_into_rtranclp table_step.flip)

lemma cancel_all_steps:
  assumes "store_cancel_all_open_spans S kid att code reason now s = (res, s')"
  shows "table_steps kid att (view s) (view s')"
  using cancel_all_law [OF assms] table_step.sweep [of kid att "view s" "\<lambda>_. True" code reason now]
  by (cases res) auto

lemma cancel_by_name_steps:
  assumes "store_cancel_open_spans_by_name S kid att name code reason now s = (res, s')"
  shows "table_steps kid att (view s) (view s')"
proof (cases "kid = [] \<or> att \<le> 0 \<or> name = []")
  case True
  then show ?thesis using cancel_by_name_blank [of kid att name code reason now s] assms by simp
next
  case False
  then show ?thesis
    using cancel_by_name_law [OF _ _ _ assms] table_step.sweep [of kid att "view s" "\<lambda>r. row_name r = name" code reason now]
    by (cases res) auto
qed

lemma finalize_core_effect:
  assumes "finalize_core S kid att status0 output code msg now t = (res, t')"
  defines "status \<equiv> if status0 = [] then SPAN_STATUS_DONE else status0"
  shows "(healthy (tr_store t) \<longrightarrow> healthy (tr_store t')) \<and>
    ((view (tr_store t') = view (tr_store t) \<and>
       (healthy (tr_store t) \<longrightarrow> kid = [] \<or> att \<le> 0 \<or> status \<notin> TERMINAL_STATUSES \<or>
          (case root_of kid att (view (tr_store t)) of
             None \<Rightarrow> True | Some r \<Rightarrow> is_terminal r \<or> row_knowledge_id r = [] \<or> row_span_id r = []))) \<or>
     (\<exists>r n. root_of kid att (view (tr_store t)) = Some r \<and> \<not> is_terminal r \<and> row_wf r \<and> 0 < att \<and>
        status \<in> TERMINAL_STATUSES \<and>
        view (tr_store t') = put_row (closing_row r status output code msg now) n (view (tr_store t))))"
proof (cases "kid = [] \<or> att \<le> 0 \<or> status \<notin> TERMINAL_STATUSES")
  case True
  then show ?thesis using assms by (auto simp: finalize_core_def status_def Let_def split: if_splits)
next
  case False
  obtain lres s where l: "store_list_by_attempt S kid att (tr_store t) = (lres, s)" by fastforce
  note law = list_law [OF l]
  show ?thesis
  proof (cases lres)
    case (Inl e)
    then have "t' = t\<lparr>tr_store := s\<rparr>"
      using assms False l by (auto simp: finalize_core_def status_def Let_def)
    then show ?thesis using law Inl by simp
  next
    case (Inr rows)
    with law have rows: "rows = rows_of kid att (view (tr_store t))" by simp
    show ?thesis
    proof (cases "root_of kid att (view (tr_store t))")
      case None
      then have "t' = t\<lparr>tr_store := s\<rparr>"
        using assms False l Inr rows by (auto simp: finalize_core_def status_def Let_def root_of_def)
      then show ?thesis using law None by simp
    next
      case (Some r)
      show ?thesis
      proof (cases "is_terminal r")
        case True
        then have "t' = t\<lparr>tr_store := s\<rparr>"
          using assms False l Inr rows Some
          by (auto simp: finalize_core_def status_def Let_def root_of_def is_terminal_def)
        then show ?thesis using law Some True by simp
      next
        case open_root: False
        let ?row = "closing_row r status output code msg now"
        obtain ures s' where u: "store_upsert S ?row s = (ures, s')" by fastforce
        have t': "tr_store t' = s'"
          using assms False l Inr rows Some open_root u
          by (auto simp: finalize_core_def status_def Let_def root_of_def is_terminal_def split: sum.splits)
        have pos: "0 < row_attempt r" using root_ofD [OF Some] False by (simp add: in_attempt_def)
        then have n: "normal_row ?row = ?row" by (simp add: normal_row_id)
        show ?thesis
        proof (cases ures)
          case (Inl e)
          then show ?thesis
            using upsert_law [OF u] law Some t'
            by (auto simp: closing_row_def Let_def)
        next
          case (Inr x)
          then obtain k where "view s' = put_row ?row k (view s)" using upsert_law [OF u] n by auto
          moreover have "row_wf r"
            using upsert_law [OF u] Inr pos by (auto simp: row_wf_def closing_row_def Let_def)
          ultimately show ?thesis using upsert_law [OF u] law Some t' False open_root by auto
        qed
      qed
    qed
  qed
qed

lemma finalize_core_steps:
  assumes "finalize_core S kid att status output code msg now t = (res, t')"
  shows "table_steps kid att (view (tr_store t)) (view (tr_store t'))"
proof -
  consider "view (tr_store t') = view (tr_store t)"
    | r n st where "root_of kid att (view (tr_store t)) = Some r" "0 < att" "row_wf r"
        "view (tr_store t') = put_row (closing_row r st output code msg now) n (view (tr_store t))"
    using finalize_core_effect [OF assms] by auto
  then show ?thesis
  proof cases
    case 1
    then show ?thesis by simp
  next
    case (2 r n st)
    let ?row = "closing_row r st output code msg now"
    have r: "r \<in> set (view (tr_store t))" "in_attempt kid att r" using root_ofD [OF 2(1,2)] by auto
    then have "in_attempt kid att ?row" by (simp add: in_attempt_key)
    moreover have "put_ok (view (tr_store t)) ?row" using r by (simp add: put_ok_known known_key_mem)
    moreover have "row_wf ?row" using 2(3) by (simp add: row_wf_key [of ?row r])
    ultimately show ?thesis unfolding 2(4) by (intro r_into_rtranclp table_step.put)
  qed
qed

lemma finalize_core_result:
  "fst (finalize_core S kid att status output code msg now t) =
     (if kid = [] \<or> att \<le> 0 \<or> (if status = [] then SPAN_STATUS_DONE else status) \<in> TERMINAL_STATUSES
      then Inr () else Inl (ValidationError (lit ''span.invalid_status'')))"
  by (auto simp: finalize_core_def Let_def split: sum.split prod.split option.split)

lemma abort_attempt_steps:
  assumes "abort_attempt S kid att code msg reason now1 now2 t = (res, t')"
  shows "table_steps kid att (view (tr_store t)) (view (tr_store t'))"
proof (cases "kid = [] \<or> att \<le> 0")
  case True
  then show ?thesis using assms by (simp add: abort_attempt_def)
next
  case False
  let ?reason = "if reason = [] then lit ''user cancelled'' else reason"
  let ?code = "if code = [] then lit ''USER_CANCELLED'' else code"
  obtain r s where c: "store_cancel_all_open_spans S kid att ?code ?reason now1 (tr_store t) = (r, s)"
    by fastforce
  have "finalize_core S kid att SPAN_STATUS_CANCELLED None ?code msg now2 (t\<lparr>tr_store := s\<rparr>) = (res, t')"
    using assms False c by (simp add: abort_attempt_def Let_def)
  from finalize_core_steps [OF this] cancel_all_steps [OF c] show ?thesis by simp
qed

lemma open_attempt_steps:
  assumes "open_attempt S kid trace now rid t = (res, t')" and wf: "rows_wf (view (tr_store t))"
  shows "table_steps kid (max_attempt kid (view (tr_store t)) + 1) (view (tr_store t)) (view (tr_store t'))"
proof (cases "kid = []")
  case True
  then show ?thesis using assms by (auto simp: open_attempt_def)
next
  case False
  obtain nres s where nx: "store_next_attempt S kid (tr_store t) = (nres, s)" by fastforce
  note law = next_attempt_law [OF nx]
  show ?thesis
  proof (cases nres)
    case (Inl e)
    then show ?thesis using assms False nx law by (auto simp: open_attempt_def)
  next
    case (Inr att)
    let ?row = "(build_row kid att rid None ROOT_SPAN_NAME SPAN_KIND_ROOT SPAN_STATUS_RUNNING now)
      \<lparr>row_metadata := Some (JObj (if trace \<noteq> [] then [(lit ''langfuse_trace_id'', JStr trace)] else [])),
       row_started_at := Some now\<rparr>"
    obtain ures s' where u: "store_upsert S ?row s = (ures, s')" by fastforce
    have t': "tr_store t' = s'"
      using assms False nx Inr u by (auto simp: open_attempt_def Let_def split: sum.splits)
    show ?thesis
    proof (cases ures)
      case (Inl e)
      then show ?thesis using upsert_law [OF u] law t' by auto
    next
      case (Inr x)
      have att: "att = max_attempt kid (view (tr_store t)) + 1" using law \<open>nres = Inr att\<close> by simp
      have "0 < att" using max_attempt_nonneg [OF wf, of kid] by (simp add: att)
      moreover have "put_ok (view s) ?row" by (simp add: put_ok_def)
      ultimately have "table_steps kid att (view s) (view s')" using upsert_steps [OF u] by simp
      then show ?thesis using law t' by (simp add: att)
    qed
  qed
qed

lemma begin_stage_steps:
  assumes b: "begin_stage S kid att stage input now new_id t = (res, t')" and att: "0 < att"
  shows "table_steps kid att (view (tr_store t)) (view (tr_store t'))"
proof (cases "kid = [] \<or> stage = []")
  case True
  then show ?thesis using b by (auto simp: begin_stage_def)
next
  case False
  obtain lres s where l: "store_list_by_attempt S kid att (tr_store t) = (lres, s)" by fastforce
  note law = list_law [OF l]
  show ?thesis
  proof (cases lres)
    case (Inl e)
    then show ?thesis using b False l law by (auto simp: begin_stage_def)
  next
    case (Inr rows)
    with law have rows: "rows = rows_of kid att (view (tr_store t))" and v: "view s = view (tr_store t)"
      by auto
    obtain root_id existing where f: "fold (stage_scan stage) rows ([], None) = (root_id, existing)"
      by fastforce
    show ?thesis
    proof (cases existing)
      case None
      let ?row = "(build_row kid att new_id (Some root_id) stage SPAN_KIND_STAGE SPAN_STATUS_RUNNING now)
        \<lparr>row_input := input, row_started_at := Some now\<rparr>"
      obtain ures s' where u: "store_upsert S ?row s = (ures, s')" by fastforce
      have t': "tr_store t' = s'"
        using b False l Inr f None u by (auto simp: begin_stage_def Let_def split: sum.splits)
      have "put_ok (view s) ?row"
        using stage_scan_existing [OF f] None False att
        by (auto simp: put_ok_def v rows rows_of_def in_attempt_def)
      from upsert_steps [OF u _ this] att show ?thesis by (simp add: t' v)
    next
      case (Some ex)
      let ?row = "(build_row (row_knowledge_id ex) (row_attempt ex) (row_span_id ex) (row_parent ex)
          (row_name ex) (row_kind ex) SPAN_STATUS_RUNNING now)
        \<lparr>row_input := input, row_started_at := Some now, row_duration_ms := Some 0\<rparr>"
      obtain ures s' where u: "store_upsert S ?row s = (ures, s')" by fastforce
      have t': "tr_store t' = s'"
        using b False l Inr f Some u by (auto simp: begin_stage_def Let_def split: sum.splits)
      have ex: "ex \<in> set (view s)" "in_attempt kid att ex"
        using stage_scan_existing [OF f] Some rows_of_set [of ex kid att "view (tr_store t)"] att
        by (auto simp: rows v)
      then have "put_ok (view s) ?row"
        by (intro put_ok_known) (auto simp: known_key_def row_key_def image_iff)
      from upsert_steps [OF u _ this] ex att show ?thesis
        by (simp add: t' v in_attempt_def)
    qed
  qed
qed

lemma begin_sub_span_steps:
  assumes b: "begin_sub_span S digest8 (Some p) name kind input now1 now2 new_id t = (res, t')"
    and att: "0 < sp_attempt p"
  shows "table_steps (sp_knowledge_id p) (sp_attempt p) (view (tr_store t)) (view (tr_store t'))"
proof (cases "name = []")
  case True
  then show ?thesis using b by (auto simp: begin_sub_span_def)
next
  case False
  let ?name = "fit_span_name digest8 name"
  let ?kind = "if kind \<in> {SPAN_KIND_GENERATION, SPAN_KIND_SUBSPAN} then kind else SPAN_KIND_SUBSPAN"
  obtain cres s where c: "store_cancel_open_spans_by_name S (sp_knowledge_id p) (sp_attempt p) ?name
      (lit ''TASK_SUPERSEDED'') (lit ''superseded by a new run of the same subtask'') now1
      (tr_store t) = (cres, s)" by fastforce
  let ?row = "(build_row (sp_knowledge_id p) (sp_attempt p) new_id (Some (sp_span_id p)) ?name ?kind
      SPAN_STATUS_RUNNING now2)\<lparr>row_input := input, row_started_at := Some now2\<rparr>"
  obtain ures s' where u: "store_upsert S ?row s = (ures, s')" by fastforce
  have t': "tr_store t' = s'"
    using b False c u by (auto simp: begin_sub_span_def Let_def split: sum.splits)
  have "put_ok (view s) ?row" by (auto simp: put_ok_def)
  from upsert_steps [OF u _ this] att cancel_by_name_steps [OF c] show ?thesis
    by (simp add: t' )
qed

lemma span_upsert_steps:
  assumes "store_upsert S row s = (res, s')" and "0 < sp_attempt sp" and "known_key (span_key sp) (view s)"
    and "row_knowledge_id row = sp_knowledge_id sp" "row_attempt row = sp_attempt sp"
    and "row_span_id row = sp_span_id sp"
  shows "table_steps (sp_knowledge_id sp) (sp_attempt sp) (view s) (view s')"
  using upsert_steps [OF assms(1)] assms(2-)
  by (simp add: put_ok_known row_key_def span_key_def)

lemma end_span_steps:
  assumes e: "end_span S (Some sp) output now t = (res, t')" and att: "0 < sp_attempt sp"
    and k: "known_key (span_key sp) (view (tr_store t))"
  shows "table_steps (sp_knowledge_id sp) (sp_attempt sp) (view (tr_store t)) (view (tr_store t'))"
proof -
  obtain ms t1 where d: "duration_since sp now t = (ms, t1)" by fastforce
  let ?row = "(span_row_of sp SPAN_STATUS_DONE now)\<lparr>row_output := output, row_duration_ms := Some ms\<rparr>"
  obtain ures s' where u: "store_upsert S ?row (tr_store t1) = (ures, s')" by fastforce
  have "tr_store t' = s'" using e d u by (auto simp: end_span_def Let_def)
  then show ?thesis
    using span_upsert_steps [OF u att] k duration_since_store [OF d] by simp
qed

lemma skip_span_steps:
  assumes e: "skip_span S (Some sp) reason now t = (res, t')" and att: "0 < sp_attempt sp"
    and k: "known_key (span_key sp) (view (tr_store t))"
  shows "table_steps (sp_knowledge_id sp) (sp_attempt sp) (view (tr_store t)) (view (tr_store t'))"
proof -
  let ?row = "(span_row_of sp SPAN_STATUS_SKIPPED now)
    \<lparr>row_error_message := Some reason, row_duration_ms := Some 0\<rparr>"
  obtain ures s' where u: "store_upsert S ?row (tr_store t) = (ures, s')" by fastforce
  have "tr_store t' = s'" using e u by (auto simp: skip_span_def Let_def)
  then show ?thesis using span_upsert_steps [OF u att k] by simp
qed

text \<open>The cascade: every row of the snapshot is known, and stays known.\<close>

lemma cascade_rows_steps:
  assumes "\<forall>r \<in> set rows. in_attempt kid att r \<and> known_key (row_key r) (view s)" and "0 < att"
  shows "table_steps kid att (view s) (view (cascade_rows S dependents reason now rows s))"
  using assms
proof (induction rows arbitrary: s)
  case Nil
  then show ?case by simp
next
  case (Cons row rows)
  let ?updated = "(build_row (row_knowledge_id row) (row_attempt row) (row_span_id row)
      (row_parent row) (row_name row) (row_kind row) SPAN_STATUS_CANCELLED now)
    \<lparr>row_error_code := Some (lit ''UPSTREAM_FAILED''), row_error_message := Some reason,
     row_started_at := row_started_at row, row_finished_at := Some now,
     row_duration_ms := row_duration_ms row\<rparr>"
  obtain ures s1 where u: "store_upsert S ?updated s = (ures, s1)" by fastforce
  obtain cres s2 where c: "store_cancel_descendants S (row_knowledge_id row) (row_attempt row)
      (row_span_id row) reason s1 = (cres, s2)" by fastforce
  have ra: "row_knowledge_id row = kid" "row_attempt row = att"
    using Cons.prems by (auto simp: in_attempt_def)
  have "put_ok (view s) ?updated"
    using Cons.prems by (intro put_ok_known) (simp add: row_key_def)
  from upsert_steps [OF u _ this] ra Cons.prems(2) have s1: "table_steps kid att (view s) (view s1)"
    by simp
  have s2: "table_steps kid att (view s1) (view s2)"
    using cancel_descendants_steps [OF c] ra by simp
  have ih: "table_steps kid att (view s) (view (cascade_rows S dependents reason now rows s3))"
    if "table_steps kid att (view s) (view s3)" for s3
    using Cons.IH [of s3] Cons.prems table_steps_known [OF that] that by auto
  show ?case
    using ih [of s] ih [OF s1] ih [OF rtranclp_trans [OF s1 s2]] u c by (auto split: sum.splits)
qed

lemma cascade_dependent_stages_steps:
  assumes "0 < sp_attempt sp"
  shows "table_steps (sp_knowledge_id sp) (sp_attempt sp) (view (tr_store t))
    (view (tr_store (cascade_dependent_stages S sp reason now t)))"
proof -
  obtain lres s where l: "store_list_by_attempt S (sp_knowledge_id sp) (sp_attempt sp) (tr_store t) = (lres, s)"
    by fastforce
  note law = list_law [OF l]
  show ?thesis
  proof (cases lres)
    case (Inl e)
    then show ?thesis using l law by (simp add: cascade_dependent_stages_def)
  next
    case (Inr rows)
    then have "\<forall>r \<in> set rows. in_attempt (sp_knowledge_id sp) (sp_attempt sp) r \<and> known_key (row_key r) (view s)"
      using law assms by (auto dest: rows_of_set known_key_mem)
    from cascade_rows_steps [OF this assms] show ?thesis
      using Inr l law by (simp add: cascade_dependent_stages_def Let_def)
  qed
qed

lemma fail_span_steps:
  assumes e: "fail_span S (Some sp) code msg detail now1 now2 now3 t = (res, t')"
    and att: "0 < sp_attempt sp" and k: "known_key (span_key sp) (view (tr_store t))"
  shows "table_steps (sp_knowledge_id sp) (sp_attempt sp) (view (tr_store t)) (view (tr_store t'))"
proof -
  obtain ms t1 where d: "duration_since sp now1 t = (ms, t1)" by fastforce
  define row where "row = (span_row_of sp SPAN_STATUS_FAILED now1)
    \<lparr>row_error_code := Some (strip code),
     row_error_message := Some (truncate_str msg MAX_ERROR_MESSAGE_LEN),
     row_error_detail := Some (truncate_str (case detail of None \<Rightarrow> [] | Some d \<Rightarrow> d) MAX_ERROR_DETAIL_LEN),
     row_duration_ms := Some ms\<rparr>"
  define reason where "reason = (if code = [] then lit ''upstream '' @ sp_name sp @ lit '' failed''
    else (lit ''upstream '' @ sp_name sp @ lit '' failed'') @ lit '' ('' @ code @ lit '')'')"
  obtain ures s1 where u: "store_upsert S row (tr_store t1) = (ures, s1)" by fastforce
  obtain cres s2 where c: "store_cancel_descendants S (sp_knowledge_id sp) (sp_attempt sp)
      (sp_span_id sp) reason s1 = (cres, s2)" by fastforce
  let ?R = "table_steps (sp_knowledge_id sp) (sp_attempt sp)"
  have r1: "?R (view (tr_store t)) (view s1)"
    using span_upsert_steps [OF u att] k duration_since_store [OF d] by (simp add: row_def)
  have r2: "?R (view s1) (view s2)" by (rule cancel_descendants_steps [OF c])
  let ?t3 = "cascade_dependent_stages S sp reason now2 (t1\<lparr>tr_store := s2\<rparr>)"
  have r3: "?R (view s2) (view (tr_store ?t3))"
    using cascade_dependent_stages_steps [OF att, of "t1\<lparr>tr_store := s2\<rparr>" reason now2] by simp
  obtain fres t4 where f: "finalize_core S (sp_knowledge_id sp) (sp_attempt sp) SPAN_STATUS_FAILED None
      code msg now3 ?t3 = (fres, t4)" by fastforce
  have r4: "?R (view (tr_store ?t3)) (view (tr_store t4))" by (rule finalize_core_steps [OF f])
  have "view (tr_store t') \<in> {view s2, view (tr_store ?t3), view (tr_store t4)}"
    using e d u c f
    by (auto simp: fail_span_def Let_def row_def [symmetric] reason_def [symmetric] split: if_splits sum.splits)
  then show ?thesis using r1 r2 r3 r4 by (auto intro: rtranclp_trans)
qed

end

end
