(* ===== verification/Span_Closing.thy ===== *)
theory Span_Closing
  imports Span_Laws
begin

text \<open>
  Closing spans on a store that does not fail: the table as a map from keys to rows, and what
  the cascade of a failed stage, the closing of the root and the flat sweep do to single rows.
\<close>

subsection \<open>The table as a map\<close>

definition row_at :: "str \<times> int \<times> str \<Rightarrow> span_row list \<Rightarrow> span_row option" where
  "row_at k rows = find (\<lambda>r. row_key r = k) rows"

lemma row_at_None_iff: "row_at k rows = None \<longleftrightarrow> \<not> known_key k rows"
  by (auto simp: row_at_def find_None_iff known_key_def)

lemma row_at_SomeD: "row_at k rows = Some r \<Longrightarrow> r \<in> set rows \<and> row_key r = k"
  by (auto simp: row_at_def find_Some_iff)

lemma row_at_mem: "key_unique rows \<Longrightarrow> r \<in> set rows \<Longrightarrow> row_at (row_key r) rows = Some r"
  by (metis key_uniqueD known_key_mem not_None_eq row_at_None_iff row_at_SomeD)

lemma row_at_map: "(\<And>r. row_key (f r) = row_key r) \<Longrightarrow> row_at k (map f rows) = map_option f (row_at k rows)"
  by (induction rows) (auto simp: row_at_def)

lemma row_at_append: "row_at k (xs @ ys) = (case row_at k xs of None \<Rightarrow> row_at k ys | Some r \<Rightarrow> Some r)"
  by (induction xs) (auto simp: row_at_def)

lemma row_at_put_row:
  "row_at k (put_row new n rows) =
     (if k = row_key new
      then Some (case row_at k rows of None \<Rightarrow> new\<lparr>row_id := n\<rparr> | Some r \<Rightarrow> update_on_conflict new r)
      else row_at k rows)"
proof (cases "known_key (row_key new) rows")
  case True
  have "row_at k (put_row new n rows) =
      map_option (\<lambda>r. if row_key r = row_key new then update_on_conflict new r else r) (row_at k rows)"
    unfolding put_row_known [OF True] by (rule row_at_map) simp
  moreover have "row_at (row_key new) rows \<noteq> None" using True by (simp add: row_at_None_iff)
  ultimately show ?thesis
    by (cases "row_at k rows") (auto dest: row_at_SomeD)
next
  case False
  then have "row_at (row_key new) rows = None" by (simp add: row_at_None_iff)
  moreover have "row_at k [new\<lparr>row_id := n\<rparr>] = (if k = row_key new then Some (new\<lparr>row_id := n\<rparr>) else None)"
    by (auto simp: row_at_def)
  ultimately show ?thesis
    by (auto simp: put_row_fresh [OF False] row_at_append split: option.split)
qed

lemma row_at_cancel_ids:
  "row_at k (cancel_ids kid att ids reason rows) = map_option (flip_if kid att ids reason) (row_at k rows)"
  unfolding cancel_ids_def flip_if_def [symmetric] by (rule row_at_map) simp

lemma row_at_cancel_open:
  "row_at k (cancel_open P code reason now rows) =
     map_option (\<lambda>r. if P r \<and> is_open r then mark_cancelled code reason now r else r) (row_at k rows)"
  unfolding cancel_open_def by (rule row_at_map) simp

lemma update_status [simp]: "row_status (update_on_conflict new r) = row_status new"
  by (simp add: update_on_conflict_def)

lemma is_open_update [simp]: "is_open (update_on_conflict new r) = is_open new"
  by (simp add: is_open_def)

lemma is_open_row_id [simp]: "is_open (new\<lparr>row_id := n\<rparr>) = is_open new"
  by (simp add: is_open_def)

text \<open>Who the descendants' sweep cannot reach: a span that is closed or has no parent.\<close>

lemma not_in_open_reach:
  assumes u: "key_unique rows" and r: "row_at (kid, att, sid) rows = Some r"
    and c: "\<not> is_open r \<or> row_parent r = None"
  shows "sid \<notin> open_reach rows kid att n ps"
proof
  have key: "r \<in> set rows" "row_key r = (kid, att, sid)" using row_at_SomeD [OF r] by auto
  assume "sid \<in> open_reach rows kid att n ps"
  then have "\<exists>q \<in> set rows. in_attempt kid att q \<and> row_span_id q = sid \<and> is_open q \<and> row_parent q \<noteq> None"
    by (induction n arbitrary: ps) (auto simp: open_children_def)
  then obtain q where "q \<in> set rows" "row_key q = (kid, att, sid)" "is_open q" "row_parent q \<noteq> None"
    by (auto simp: row_key_def in_attempt_def)
  with key_uniqueD [OF u] key c show False by metis
qed

subsection \<open>Closing runs\<close>

text \<open>
  \<open>closing K rows rows'\<close>: nothing is re-opened, and a row outside \<open>K\<close> that is closed or has
  no parent is exactly as it was.
\<close>

definition closing :: "(str \<times> int \<times> str) set \<Rightarrow> span_row list \<Rightarrow> span_row list \<Rightarrow> bool" where
  "closing K rows rows' \<longleftrightarrow>
     (\<forall>k. (case row_at k rows of
             None \<Rightarrow> row_at k rows' = None
           | Some r \<Rightarrow> (\<exists>r'. row_at k rows' = Some r' \<and> row_identity r' = row_identity r \<and>
               (is_open r' \<longrightarrow> is_open r) \<and>
               (k \<notin> K \<and> (\<not> is_open r \<or> row_parent r = None) \<longrightarrow> r' = r))))"

lemma closing_NoneD: "closing K rows rows' \<Longrightarrow> row_at k rows = None \<Longrightarrow> row_at k rows' = None"
  unfolding closing_def by (drule spec [where x = k]) simp

lemma closing_SomeD:
  "closing K rows rows' \<Longrightarrow> row_at k rows = Some r \<Longrightarrow>
     \<exists>r'. row_at k rows' = Some r' \<and> row_identity r' = row_identity r \<and>
       (is_open r' \<longrightarrow> is_open r) \<and> (k \<notin> K \<and> (\<not> is_open r \<or> row_parent r = None) \<longrightarrow> r' = r)"
  unfolding closing_def by (drule spec [where x = k]) simp

lemma closing_refl [simp]: "closing K rows rows"
  by (auto simp: closing_def split: option.split)

lemma row_identity_parent: "row_identity r' = row_identity r \<Longrightarrow> row_parent r' = row_parent r"
  by (simp add: row_identity_def)

lemma closing_trans:
  assumes "closing K a b" and "closing K b c"
  shows "closing K a c"
  unfolding closing_def
proof
  fix k
  show "case row_at k a of None \<Rightarrow> row_at k c = None
    | Some r \<Rightarrow> \<exists>r'. row_at k c = Some r' \<and> row_identity r' = row_identity r \<and>
        (is_open r' \<longrightarrow> is_open r) \<and> (k \<notin> K \<and> (\<not> is_open r \<or> row_parent r = None) \<longrightarrow> r' = r)"
  proof (cases "row_at k a")
    case None
    then show ?thesis using closing_NoneD [OF assms(1)] closing_NoneD [OF assms(2)] by simp
  next
    case (Some r)
    then obtain r1 where r1: "row_at k b = Some r1" "row_identity r1 = row_identity r"
        "is_open r1 \<longrightarrow> is_open r" "k \<notin> K \<and> (\<not> is_open r \<or> row_parent r = None) \<longrightarrow> r1 = r"
      using closing_SomeD [OF assms(1)] by blast
    then obtain r2 where r2: "row_at k c = Some r2" "row_identity r2 = row_identity r1"
        "is_open r2 \<longrightarrow> is_open r1" "k \<notin> K \<and> (\<not> is_open r1 \<or> row_parent r1 = None) \<longrightarrow> r2 = r1"
      using closing_SomeD [OF assms(2)] by blast
    have same: "r2 = r" if "k \<notin> K" "\<not> is_open r \<or> row_parent r = None"
    proof -
      have "r1 = r" using r1(4) that by simp
      with r2(4) that show ?thesis by simp
    qed
    show ?thesis
      unfolding Some option.case
    proof (intro exI [of _ r2] conjI impI)
      show "row_at k c = Some r2" by (rule r2(1))
      show "row_identity r2 = row_identity r" using r1(2) r2(2) by simp
      show "is_open r" if "is_open r2" using that r1(3) r2(3) by blast
      show "r2 = r" if "k \<notin> K \<and> (\<not> is_open r \<or> row_parent r = None)" using that same by blast
    qed
  qed
qed

lemma closing_mono:
  assumes "closing K rows rows'" and "K \<subseteq> K'"
  shows "closing K' rows rows'"
  unfolding closing_def
proof
  fix k
  show "case row_at k rows of None \<Rightarrow> row_at k rows' = None
    | Some r \<Rightarrow> \<exists>r'. row_at k rows' = Some r' \<and> row_identity r' = row_identity r \<and>
        (is_open r' \<longrightarrow> is_open r) \<and> (k \<notin> K' \<and> (\<not> is_open r \<or> row_parent r = None) \<longrightarrow> r' = r)"
  proof (cases "row_at k rows")
    case None
    then show ?thesis using closing_NoneD [OF assms(1)] by simp
  next
    case (Some r)
    have out: "k \<notin> K" if "k \<notin> K'" using that assms(2) by (rule contra_subsetD [rotated])
    obtain r' where r': "row_at k rows' = Some r'" "row_identity r' = row_identity r"
        "is_open r' \<longrightarrow> is_open r" "k \<notin> K \<and> (\<not> is_open r \<or> row_parent r = None) \<longrightarrow> r' = r"
      using closing_SomeD [OF assms(1) Some] by (elim exE conjE) (rule that)
    show ?thesis
      unfolding Some option.case
    proof (intro exI [of _ r'] conjI impI)
      show "is_open r" if "is_open r'" using that r'(3) by simp
      show "r' = r" if "k \<notin> K' \<and> (\<not> is_open r \<or> row_parent r = None)"
        by (rule r'(4) [rule_format]) (use that out in simp)
    qed (fact r')+
  qed
qed

lemma closing_put:
  assumes "known_key (row_key new) rows" and "\<not> is_open new" and "row_key new \<in> K"
  shows "closing K rows (put_row new n rows)"
proof -
  have "row_at (row_key new) rows \<noteq> None" using assms(1) by (simp add: row_at_None_iff)
  then show ?thesis using assms(2,3) by (auto simp: closing_def row_at_put_row split: option.split)
qed

lemma closing_flip:
  assumes u: "key_unique rows" and ids: "ids \<subseteq> open_reach rows kid att n ps"
  shows "closing K rows (cancel_ids kid att ids reason rows)"
  unfolding closing_def
proof
  fix k
  show "case row_at k rows of None \<Rightarrow> row_at k (cancel_ids kid att ids reason rows) = None
    | Some r \<Rightarrow> \<exists>r'. row_at k (cancel_ids kid att ids reason rows) = Some r' \<and>
        row_identity r' = row_identity r \<and> (is_open r' \<longrightarrow> is_open r) \<and>
        (k \<notin> K \<and> (\<not> is_open r \<or> row_parent r = None) \<longrightarrow> r' = r)"
  proof (cases "row_at k rows")
    case None
    then show ?thesis by (simp add: row_at_cancel_ids)
  next
    case (Some r)
    have key: "row_key r = k" using row_at_SomeD [OF Some] by simp
    have same: "flip_if kid att ids reason r = r" if "\<not> is_open r \<or> row_parent r = None"
    proof (rule ccontr)
      assume "flip_if kid att ids reason r \<noteq> r"
      then have "in_attempt kid att r" "row_span_id r \<in> ids" by (auto simp: flip_if_def split: if_splits)
      then have "k = (kid, att, row_span_id r)" using key by (simp add: row_key_def in_attempt_def)
      then show False
        using not_in_open_reach [OF u, of kid att "row_span_id r" r n ps] Some that ids
          \<open>row_span_id r \<in> ids\<close> by auto
    qed
    show ?thesis
      unfolding Some row_at_cancel_ids option.map option.case
    proof (intro exI [of _ "flip_if kid att ids reason r"] conjI impI refl)
      show "row_identity (flip_if kid att ids reason r) = row_identity r"
        by (simp add: flip_if_def)
      show "is_open r" if "is_open (flip_if kid att ids reason r)"
        using that by (simp add: flip_if_def split: if_splits)
      show "flip_if kid att ids reason r = r" if "k \<notin> K \<and> (\<not> is_open r \<or> row_parent r = None)"
        using that same by blast
    qed
  qed
qed

lemma closing_known: "closing K rows rows' \<Longrightarrow> known_key k rows \<Longrightarrow> known_key k rows'"
  using closing_SomeD [of K rows rows' k] by (metis not_None_eq row_at_None_iff)

lemma closing_closed:
  "closing K rows rows' \<Longrightarrow> row_at k rows = Some r \<Longrightarrow> \<not> is_open r \<Longrightarrow>
     \<exists>r'. row_at k rows' = Some r' \<and> \<not> is_open r'"
  using closing_SomeD by blast

lemma closing_same:
  "closing K rows rows' \<Longrightarrow> row_at k rows = Some r \<Longrightarrow> k \<notin> K \<Longrightarrow>
     \<not> is_open r \<or> row_parent r = None \<Longrightarrow> row_at k rows' = Some r"
  using closing_SomeD by blast

subsection \<open>The cascade of a failed stage\<close>

definition cascade_selected :: "str list \<Rightarrow> span_row list \<Rightarrow> (str \<times> int \<times> str) set" where
  "cascade_selected dependents rows =
     {row_key r | r. r \<in> set rows \<and> row_kind r = SPAN_KIND_STAGE \<and> is_open r \<and> row_name r \<in> set dependents}"

definition all_closed :: "(str \<times> int \<times> str) set \<Rightarrow> span_row list \<Rightarrow> bool" where
  "all_closed K rows \<longleftrightarrow> (\<forall>k \<in> K. \<exists>r. row_at k rows = Some r \<and> \<not> is_open r)"

lemma all_closed_closing: "closing K' rows rows' \<Longrightarrow> all_closed K rows \<Longrightarrow> all_closed K rows'"
  unfolding all_closed_def by (meson closing_closed)

lemma is_open_iff: "is_open r \<longleftrightarrow> row_status r \<in> {SPAN_STATUS_PENDING, SPAN_STATUS_RUNNING}"
  by (simp add: is_open_def OPEN_STATUSES_def)

context span_store_contract
begin

lemma healthy_upsert:
  assumes "store_upsert S r s = (res, s')" and "healthy s" and "row_knowledge_id r \<noteq> []"
    and "row_span_id r \<noteq> []" and "0 < row_attempt r"
  shows "\<exists>x n. res = Inr x \<and> healthy s' \<and> view s' = put_row r n (view s)"
  using upsert_law [OF assms(1)] assms(2-) by (cases res) (auto simp: normal_row_id)

lemma healthy_cancel_descendants:
  assumes "store_cancel_descendants S kid att p reason s = (res, s')" and "healthy s"
    and "key_unique (view s)"
  shows "healthy s' \<and> key_unique (view s') \<and> closing K (view s) (view s')"
proof -
  obtain ids where ids: "view s' = cancel_ids kid att ids reason (view s)"
      "ids \<subseteq> open_reach (view s) kid att CANCEL_DEPTH_LIMIT {p}" "healthy s'"
    using cancel_descendants_law [OF assms(1)] assms(2) by blast
  show ?thesis
    unfolding ids(1) using ids(3) key_unique_writes(2) [OF assms(3)] closing_flip [OF assms(3) ids(2)]
    by simp
qed

lemma cascade_rows_closing:
  fixes reason :: str and now :: int
  assumes "\<forall>r \<in> set rows. row_knowledge_id r = kid \<and> row_attempt r = att \<and> row_span_id r \<noteq> [] \<and>
      known_key (row_key r) (view s)"
    and "kid \<noteq> []" and "0 < att" and "healthy s" and "key_unique (view s)"
    and "cascade_selected dependents rows \<subseteq> K"
  defines "s' \<equiv> cascade_rows S dependents reason now rows s"
  shows "healthy s' \<and> key_unique (view s') \<and> closing K (view s) (view s') \<and>
    all_closed (cascade_selected dependents rows) (view s')"
  using assms(1-6) unfolding s'_def
proof (induction rows arbitrary: s)
  case Nil
  then show ?case by (simp add: cascade_selected_def all_closed_def)
next
  case (Cons row rows)
  have sub: "cascade_selected dependents rows \<subseteq> K"
    using Cons.prems(6) by (auto simp: cascade_selected_def)
  show ?case
  proof (cases "row_kind row = SPAN_KIND_STAGE \<and> is_open row \<and> row_name row \<in> set dependents")
    case False
    then have "cascade_selected dependents (row # rows) = cascade_selected dependents rows"
      by (auto simp: cascade_selected_def)
    moreover have "cascade_rows S dependents reason now (row # rows) s =
        cascade_rows S dependents reason now rows s"
      using False by (auto simp: is_open_iff)
    ultimately show ?thesis using Cons.IH [of s] Cons.prems sub by simp
  next
    case True
    then have sel: "cascade_selected dependents (row # rows) =
        insert (row_key row) (cascade_selected dependents rows)"
      by (auto simp: cascade_selected_def)
    let ?updated = "(build_row (row_knowledge_id row) (row_attempt row) (row_span_id row)
        (row_parent row) (row_name row) (row_kind row) SPAN_STATUS_CANCELLED now)
      \<lparr>row_error_code := Some (lit ''UPSTREAM_FAILED''), row_error_message := Some reason,
       row_started_at := row_started_at row, row_finished_at := Some now,
       row_duration_ms := row_duration_ms row\<rparr>"
    have key: "row_key ?updated = row_key row" by (simp add: row_key_def)
    have closed: "\<not> is_open ?updated" by (simp add: is_open_iff)
    obtain ures s1 where u: "store_upsert S ?updated s = (ures, s1)" by fastforce
    then obtain x n where s1: "ures = Inr x" "healthy s1" "view s1 = put_row ?updated n (view s)"
      using healthy_upsert [OF u] Cons.prems by fastforce
    have c1: "closing K (view s) (view s1)"
      unfolding s1(3) using Cons.prems sel closed by (intro closing_put) (auto simp: key)
    have at1: "all_closed {row_key row} (view s1)"
      unfolding s1(3) all_closed_def using closed
      by (auto simp: row_at_put_row key split: option.split)
    obtain cres s2 where c: "store_cancel_descendants S (row_knowledge_id row) (row_attempt row)
        (row_span_id row) reason s1 = (cres, s2)" by fastforce
    have u1: "key_unique (view s1)" unfolding s1(3) by (rule key_unique_writes(1) [OF Cons.prems(5)])
    have s2: "healthy s2" "key_unique (view s2)" "closing K (view s1) (view s2)"
      using healthy_cancel_descendants [OF c s1(2) u1] by auto
    have c2: "closing K (view s) (view s2)" by (rule closing_trans [OF c1 s2(3)])
    have run: "cascade_rows S dependents reason now (row # rows) s = cascade_rows S dependents reason now rows s2"
      using True u s1(1) c by (auto simp: is_open_iff)
    have ih: "healthy (cascade_rows S dependents reason now rows s2) \<and>
        key_unique (view (cascade_rows S dependents reason now rows s2)) \<and>
        closing K (view s2) (view (cascade_rows S dependents reason now rows s2)) \<and>
        all_closed (cascade_selected dependents rows) (view (cascade_rows S dependents reason now rows s2))"
      using Cons.IH [of s2] Cons.prems s2 sub closing_known [OF c2] by auto
    have "all_closed {row_key row} (view (cascade_rows S dependents reason now rows s2))"
      using all_closed_closing [OF s2(3) at1] all_closed_closing ih by blast
    then show ?thesis
      unfolding run sel using ih closing_trans [OF c2] by (auto simp: all_closed_def)
  qed
qed

lemma cascade_dependent_stages_closing:
  fixes reason :: str and now :: int
  assumes "healthy (tr_store t)" and "key_unique (view (tr_store t))" and "rows_wf (view (tr_store t))"
    and "sp_knowledge_id sp \<noteq> []" and "0 < sp_attempt sp"
  defines "rows \<equiv> view (tr_store t)"
    and "t' \<equiv> cascade_dependent_stages S sp reason now t"
    and "K \<equiv> cascade_selected (stages_depending_on (sp_name sp))
                 (filter (in_attempt (sp_knowledge_id sp) (sp_attempt sp)) (view (tr_store t)))"
  shows "healthy (tr_store t') \<and> key_unique (view (tr_store t')) \<and> closing K rows (view (tr_store t')) \<and>
    all_closed K (view (tr_store t'))"
proof -
  let ?deps = "stages_depending_on (sp_name sp)"
  obtain lres s where l: "store_list_by_attempt S (sp_knowledge_id sp) (sp_attempt sp) (tr_store t) = (lres, s)"
    by fastforce
  let ?L = "filter (in_attempt (sp_knowledge_id sp) (sp_attempt sp)) rows"
  have s: "lres = Inr ?L" "view s = rows" "healthy s"
    using list_law [OF l] assms(1,4,5) by (auto simp: rows_of_def rows_def split: sum.splits)
  show ?thesis
  proof (cases "?deps = []")
    case True
    then have "K = {}" "tr_store t' = s"
      using l s by (simp_all add: K_def cascade_selected_def t'_def cascade_dependent_stages_def)
    then show ?thesis using s assms(2) by (simp add: all_closed_def rows_def)
  next
    case False
    then have t': "tr_store t' = cascade_rows S ?deps reason now ?L s"
      using l s by (simp add: t'_def cascade_dependent_stages_def Let_def)
    have "\<forall>r \<in> set ?L. row_knowledge_id r = sp_knowledge_id sp \<and> row_attempt r = sp_attempt sp \<and>
        row_span_id r \<noteq> [] \<and> known_key (row_key r) (view s)"
      using s assms(3) by (auto simp: in_attempt_def rows_wf_def row_wf_def rows_def known_key_mem)
    from cascade_rows_closing [OF this assms(4,5) s(3), of ?deps K reason now] show ?thesis
      using s(2) assms(2) by (simp add: t' K_def rows_def)
  qed
qed

text \<open>The first three steps of \<open>fail_span\<close> on a stage: its own row, its descendants, the cascade.\<close>

lemma fail_stage_prefix:
  fixes sp :: span
  assumes known: "row_at (span_key sp) (view s) = Some r0" and nb: "sp_knowledge_id sp \<noteq> []" "sp_span_id sp \<noteq> []"
    and att: "0 < sp_attempt sp" and h: "healthy s" and u: "key_unique (view s)"
    and row: "row_knowledge_id row = sp_knowledge_id sp" "row_attempt row = sp_attempt sp"
      "row_span_id row = sp_span_id sp" "row_status row = SPAN_STATUS_FAILED"
    and up: "store_upsert S row s = (ures, s1)"
    and cd: "store_cancel_descendants S (sp_knowledge_id sp) (sp_attempt sp) (sp_span_id sp) reason s1 = (cres, s2)"
  shows "healthy s2 \<and> key_unique (view s2) \<and> closing {span_key sp} (view s) (view s2) \<and>
    (\<exists>f. row_at (span_key sp) (view s2) = Some f \<and> row_status f = SPAN_STATUS_FAILED)"
proof -
  have key: "row_key row = span_key sp" using row by (simp add: row_key_def span_key_def)
  have closed: "\<not> is_open row" using row by (simp add: is_open_iff)
  obtain x n where s1: "healthy s1" "view s1 = put_row row n (view s)"
    using healthy_upsert [OF up h] nb att row by auto
  have f1: "row_at (span_key sp) (view s1) = Some (update_on_conflict row r0)"
    unfolding s1(2) row_at_put_row by (simp add: key known)
  have "known_key (row_key row) (view s)" using known by (metis key not_None_eq row_at_None_iff)
  then have c1: "closing {span_key sp} (view s) (view s1)"
    unfolding s1(2) using closed by (intro closing_put) (auto simp: key)
  have u1: "key_unique (view s1)" unfolding s1(2) by (rule key_unique_writes(1) [OF u])
  have s2: "healthy s2" "key_unique (view s2)" "closing {} (view s1) (view s2)" "closing {span_key sp} (view s1) (view s2)"
    using healthy_cancel_descendants [OF cd s1(1) u1] by auto
  have "row_at (span_key sp) (view s2) = Some (update_on_conflict row r0)"
    using closing_same [OF s2(3) f1] closed by simp
  then show ?thesis using s2 closing_trans [OF c1 s2(4)] row by auto
qed

lemma closing_row_back:
  assumes "closing K rows rows'" and "key_unique rows'" and "r \<in> set rows'"
  shows "\<exists>q \<in> set rows. row_identity r = row_identity q \<and> (is_open r \<longrightarrow> is_open q)"
proof -
  have at': "row_at (row_key r) rows' = Some r" using assms(2,3) by (rule row_at_mem)
  then obtain q where q: "row_at (row_key r) rows = Some q"
    using closing_NoneD [OF assms(1), of "row_key r"] by fastforce
  from closing_SomeD [OF assms(1) q] at' have "row_identity r = row_identity q" "is_open r \<longrightarrow> is_open q"
    by auto
  with row_at_SomeD [OF q] show ?thesis by blast
qed

lemma row_identity_eqD:
  assumes "row_identity r = row_identity q"
  shows "row_kind r = row_kind q" "row_key r = row_key q" "row_name r = row_name q"
    "in_attempt kid att r = in_attempt kid att q" "row_parent r = row_parent q"
  using assms by (auto simp: row_identity_def in_attempt_key)

lemma rows_wf_closing:
  assumes "closing K rows rows'" and "key_unique rows'" and "rows_wf rows"
  shows "rows_wf rows'"
  unfolding rows_wf_def
proof
  fix r assume "r \<in> set rows'"
  with closing_row_back [OF assms(1,2)] obtain q where "q \<in> set rows" "row_key r = row_key q"
    using row_identity_eqD by metis
  then show "row_wf r" using assms(3) row_wf_key [of r q] by (simp add: rows_wf_def)
qed

text \<open>The last step: closing an open root that is the only root of its attempt.\<close>

lemma finalize_closes_root:
  assumes fin: "finalize_core S kid att status output code msg now t = (res, t')"
    and st: "status \<in> TERMINAL_STATUSES" and h: "healthy (tr_store t)" and u: "key_unique (view (tr_store t))"
    and wf: "rows_wf (view (tr_store t))"
    and root: "row_at k (view (tr_store t)) = Some r" "row_kind r = SPAN_KIND_ROOT" "in_attempt kid att r" "is_open r"
    and only: "\<forall>q \<in> set (view (tr_store t)). in_attempt kid att q \<and> row_kind q = SPAN_KIND_ROOT \<longrightarrow> row_key q = k"
  shows "\<exists>n. view (tr_store t') = put_row (closing_row r status output code msg now) n (view (tr_store t))"
proof -
  let ?rows = "view (tr_store t)"
  have mem: "r \<in> set ?rows" "row_key r = k" using row_at_SomeD [OF root(1)] by auto
  then have nb: "kid \<noteq> []" "0 < att" "row_knowledge_id r \<noteq> []" "row_span_id r \<noteq> []"
    using wf root(3) by (auto simp: rows_wf_def row_wf_def in_attempt_def)
  then have "r \<in> set (rows_of kid att ?rows)" using mem root(3) by (simp add: rows_of_def)
  then have "root_of kid att ?rows \<noteq> None" using root(2) by (auto simp: root_of_def find_None_iff)
  then obtain q where q: "root_of kid att ?rows = Some q" by blast
  have "q = r"
    using root_ofD [OF q nb(2)] only mem key_uniqueD [OF u] by metis
  moreover have "\<not> is_terminal r" using root(4) terminal_not_open by blast
  moreover have "status \<noteq> []" using st by (auto simp: TERMINAL_STATUSES_def)
  ultimately show ?thesis
    using finalize_core_effect [OF fin] q nb st h by auto
qed

theorem fail_stage_closes:
  fixes sp :: span
  assumes e: "fail_span S (Some sp) code msg detail now1 now2 now3 t = (res, t')"
  defines "rows \<equiv> view (tr_store t)" and "rows' \<equiv> view (tr_store t')"
    and "kid \<equiv> sp_knowledge_id sp" and "att \<equiv> sp_attempt sp"
  assumes h: "healthy (tr_store t)" and u: "key_unique rows" and wf: "rows_wf rows"
    and sp: "row_at (span_key sp) rows = Some r0" "row_kind r0 = SPAN_KIND_STAGE" "sp_kind sp = SPAN_KIND_STAGE"
    and main: "is_main_pipeline_stage (sp_name sp)"
    and root: "row_at k rows = Some rt" "row_kind rt = SPAN_KIND_ROOT" "in_attempt kid att rt" "is_open rt"
      "row_parent rt = None"
    and only: "\<forall>q \<in> set rows. in_attempt kid att q \<and> row_kind q = SPAN_KIND_ROOT \<longrightarrow> row_key q = k"
  shows "(\<exists>f. row_at (span_key sp) rows' = Some f \<and> row_status f = SPAN_STATUS_FAILED) \<and>
    (\<exists>q. row_at k rows' = Some q \<and> row_status q = SPAN_STATUS_FAILED) \<and>
    (\<forall>r \<in> set rows'. in_attempt kid att r \<and> row_kind r = SPAN_KIND_STAGE \<and>
       row_name r \<in> set (stages_depending_on (sp_name sp)) \<longrightarrow> \<not> is_open r)"
proof -
  have r0: "r0 \<in> set rows" "row_key r0 = span_key sp" using row_at_SomeD [OF sp(1)] by auto
  then have nb: "kid \<noteq> []" "sp_span_id sp \<noteq> []" "0 < att"
    using wf by (auto simp: rows_wf_def row_wf_def row_key_def span_key_def kid_def att_def)
  have k: "row_key rt = k" using row_at_SomeD [OF root(1)] by simp
  have neq: "k \<noteq> span_key sp" using sp(1,2) root(1,2) by auto
  obtain ms t1 where d: "duration_since sp now1 t = (ms, t1)" by fastforce
  define row where "row = (span_row_of sp SPAN_STATUS_FAILED now1)
    \<lparr>row_error_code := Some (strip code),
     row_error_message := Some (truncate_str msg MAX_ERROR_MESSAGE_LEN),
     row_error_detail := Some (truncate_str (case detail of None \<Rightarrow> [] | Some d \<Rightarrow> d) MAX_ERROR_DETAIL_LEN),
     row_duration_ms := Some ms\<rparr>"
  define reason where "reason = (if code = [] then lit ''upstream '' @ sp_name sp @ lit '' failed''
    else (lit ''upstream '' @ sp_name sp @ lit '' failed'') @ lit '' ('' @ code @ lit '')'')"
  obtain ures s1 where up: "store_upsert S row (tr_store t1) = (ures, s1)" by fastforce
  obtain cres s2 where cd: "store_cancel_descendants S (sp_knowledge_id sp) (sp_attempt sp)
      (sp_span_id sp) reason s1 = (cres, s2)" by fastforce
  let ?t2 = "t1\<lparr>tr_store := s2\<rparr>"
  define t3 where "t3 = cascade_dependent_stages S sp reason now2 ?t2"
  obtain fres t4 where fin: "finalize_core S (sp_knowledge_id sp) (sp_attempt sp) SPAN_STATUS_FAILED None
      code msg now3 t3 = (fres, t4)" by fastforce
  have st1: "view (tr_store t1) = rows" "healthy (tr_store t1)"
    using duration_since_store [OF d] h by (simp_all add: rows_def)
  have t': "rows' = view (tr_store t4)"
    using e d up cd fin sp(3) main
    by (auto simp: rows'_def fail_span_def Let_def row_def [symmetric] reason_def [symmetric]
        t3_def [symmetric] split: sum.splits)
  from fail_stage_prefix [OF _ _ _ _ st1(2) _ _ _ _ _ up cd]
  have p2: "healthy s2" "key_unique (view s2)" "closing {span_key sp} rows (view s2)"
    and f2: "\<exists>f. row_at (span_key sp) (view s2) = Some f \<and> row_status f = SPAN_STATUS_FAILED"
    using sp(1) nb u by (auto simp: st1 row_def kid_def att_def)
  have wf2: "rows_wf (view s2)" by (rule rows_wf_closing [OF p2(3,2) wf])
  define K where "K = cascade_selected (stages_depending_on (sp_name sp)) (filter (in_attempt kid att) (view s2))"
  have p3: "healthy (tr_store t3)" "key_unique (view (tr_store t3))" "closing K (view s2) (view (tr_store t3))"
    "all_closed K (view (tr_store t3))"
    using cascade_dependent_stages_closing [of ?t2 sp reason now2] p2 wf2 nb
    by (auto simp: K_def t3_def kid_def att_def)
  have rt2: "row_at k (view s2) = Some rt" using closing_same [OF p2(3) root(1)] neq root(5) by simp
  have "k \<notin> K"
    using row_at_mem [OF p2(2)] rt2 root(2) by (force simp: K_def cascade_selected_def)
  then have rt3: "row_at k (view (tr_store t3)) = Some rt" using closing_same [OF p3(3) rt2] root(5) by simp
  have c3: "closing (insert (span_key sp) K) rows (view (tr_store t3))"
    by (rule closing_trans [OF closing_mono [OF p2(3)] closing_mono [OF p3(3)]]) auto
  have only3: "\<forall>q \<in> set (view (tr_store t3)). in_attempt kid att q \<and> row_kind q = SPAN_KIND_ROOT \<longrightarrow> row_key q = k"
    using closing_row_back [OF c3 p3(2)] only row_identity_eqD by metis
  have wf3: "rows_wf (view (tr_store t3))" by (rule rows_wf_closing [OF c3 p3(2) wf])
  obtain n where r4: "rows' = put_row (closing_row rt SPAN_STATUS_FAILED None code msg now3) n (view (tr_store t3))"
    using finalize_closes_root [OF fin _ p3(1,2) wf3 rt3 root(2)] root(3,4) only3 t'
    by (auto simp: TERMINAL_STATUSES_def kid_def att_def)
  obtain f where f: "row_at (span_key sp) (view s2) = Some f" "row_status f = SPAN_STATUS_FAILED"
    using f2 by blast
  have fc: "\<not> is_open f" using f(2) by (simp add: is_open_iff)
  have "span_key sp \<notin> K"
  proof
    assume "span_key sp \<in> K"
    then obtain q where "q \<in> set (view s2)" "row_key q = span_key sp" "is_open q"
      by (auto simp: K_def cascade_selected_def)
    with row_at_mem [OF p2(2)] f(1) fc show False by fastforce
  qed
  then have f3: "row_at (span_key sp) (view (tr_store t3)) = Some f" using closing_same [OF p3(3) f(1)] fc by simp
  have u4: "key_unique rows'" unfolding r4 by (rule key_unique_writes(1) [OF p3(2)])
  show ?thesis
  proof (intro conjI ballI impI)
    show "\<exists>f. row_at (span_key sp) rows' = Some f \<and> row_status f = SPAN_STATUS_FAILED"
      using f3 f(2) neq by (simp add: r4 row_at_put_row k)
    show "\<exists>q. row_at k rows' = Some q \<and> row_status q = SPAN_STATUS_FAILED"
      using rt3 by (simp add: r4 row_at_put_row k)
  next
    fix r assume r: "r \<in> set rows'" and P: "in_attempt kid att r \<and> row_kind r = SPAN_KIND_STAGE \<and>
       row_name r \<in> set (stages_depending_on (sp_name sp))"
    have at4: "row_at (row_key r) rows' = Some r" by (rule row_at_mem [OF u4 r])
    have "row_at (row_key r) rows' = row_at (row_key r) (view (tr_store t3))"
    proof (cases "row_key r = k")
      case True
      then have "r = update_on_conflict (closing_row rt SPAN_STATUS_FAILED None code msg now3) rt"
        using at4 rt3 by (simp add: r4 row_at_put_row k)
      then have "row_kind r = SPAN_KIND_ROOT" using root(2) by (simp add: update_on_conflict_def)
      then show ?thesis using P by simp
    next
      case False
      then show ?thesis by (simp add: r4 row_at_put_row k)
    qed
    then have at3: "row_at (row_key r) (view (tr_store t3)) = Some r" using at4 by simp
    then have "r \<in> set (view (tr_store t3))" using row_at_SomeD by blast
    then obtain q where q: "q \<in> set (view s2)" "row_identity r = row_identity q" "is_open r \<longrightarrow> is_open q"
      using closing_row_back [OF p3(3,2)] by blast
    show "\<not> is_open r"
    proof
      assume "is_open r"
      then have "row_key q \<in> K"
        using q P row_identity_eqD [OF q(2)] by (auto simp: K_def cascade_selected_def)
      then have "\<exists>x. row_at (row_key r) (view (tr_store t3)) = Some x \<and> \<not> is_open x"
        using p3(4) row_identity_eqD(2) [OF q(2)] by (simp add: all_closed_def)
      with at3 \<open>is_open r\<close> show False by simp
    qed
  qed
qed

end

end
