(* ===== verification/Span_Properties.thy ===== *)
theory Span_Properties
  imports Span_Closing
begin

text \<open>
  The tracker over the repository as a state machine, and its properties. A step is one call
  of a tracker method, with any arguments and any database faults; the handles passed to a
  transition are handles of spans that were recorded, as the tracker itself hands them out.
\<close>

subsection \<open>Runs of the tracker\<close>

definition valid_handle :: "span \<Rightarrow> span_db tracker \<Rightarrow> bool" where
  "valid_handle sp t \<longleftrightarrow> 0 < sp_attempt sp \<and> known_key (span_key sp) (db_rows (tr_store t))"

inductive span_step :: "(str \<Rightarrow> str) \<Rightarrow> str \<Rightarrow> int \<Rightarrow> span_db tracker \<Rightarrow> span_db tracker \<Rightarrow> bool"
  for digest8 where
  opened: "span_step digest8 kid (max_attempt kid (db_rows (tr_store t)) + 1) t
     (snd (open_attempt span_repository kid trace now new_id t))"
| finalized: "span_step digest8 kid att t
     (snd (finalize_attempt span_repository kid att status output code msg now t))"
| aborted: "span_step digest8 kid att t
     (snd (abort_attempt span_repository kid att code msg reason now1 now2 t))"
| stage_begun: "0 < att \<Longrightarrow> span_step digest8 kid att t
     (snd (begin_stage span_repository kid att stage input now new_id t))"
| sub_begun: "0 < sp_attempt p \<Longrightarrow> span_step digest8 (sp_knowledge_id p) (sp_attempt p) t
     (snd (begin_sub_span span_repository digest8 (Some p) name kind input now1 now2 new_id t))"
| ended: "valid_handle sp t \<Longrightarrow> span_step digest8 (sp_knowledge_id sp) (sp_attempt sp) t
     (snd (end_span span_repository (Some sp) output now t))"
| failed: "valid_handle sp t \<Longrightarrow> span_step digest8 (sp_knowledge_id sp) (sp_attempt sp) t
     (snd (fail_span span_repository (Some sp) code msg detail now1 now2 now3 t))"
| skipped: "valid_handle sp t \<Longrightarrow> span_step digest8 (sp_knowledge_id sp) (sp_attempt sp) t
     (snd (skip_span span_repository (Some sp) reason now t))"

lemma span_step_table_steps:
  assumes "span_step digest8 kid att t t'" and "rows_wf (db_rows (tr_store t))"
  shows "table_steps kid att (db_rows (tr_store t)) (db_rows (tr_store t'))"
  using assms
proof (induction rule: span_step.induct)
  case (opened kid t trace now new_id)
  then show ?case by (rule repo.open_attempt_steps [OF prod.collapse [symmetric]])
next
  case (finalized kid att t status out code msg now)
  show ?case
    unfolding finalize_attempt_def by (rule repo.finalize_core_steps [OF prod.collapse [symmetric]])
next
  case (aborted kid att t code msg reason now1 now2)
  show ?case by (rule repo.abort_attempt_steps [OF prod.collapse [symmetric]])
next
  case (stage_begun att kid t stage input now new_id)
  from stage_begun(1) show ?case by (rule repo.begin_stage_steps [OF prod.collapse [symmetric]])
next
  case (sub_begun p t name kind input now1 now2 new_id)
  from sub_begun(1) show ?case by (rule repo.begin_sub_span_steps [OF prod.collapse [symmetric]])
next
  case (ended sp t out now)
  then show ?case unfolding valid_handle_def
    by (intro repo.end_span_steps [OF prod.collapse [symmetric]]) auto
next
  case (failed sp t code msg detail now1 now2 now3)
  then show ?case unfolding valid_handle_def
    by (intro repo.fail_span_steps [OF prod.collapse [symmetric]]) auto
next
  case (skipped sp t reason now)
  then show ?case unfolding valid_handle_def
    by (intro repo.skip_span_steps [OF prod.collapse [symmetric]]) auto
qed

definition empty_tracker :: "bool list \<Rightarrow> bool \<Rightarrow> span_db tracker" where
  "empty_tracker faults heartbeat =
     \<lparr>tr_store = \<lparr>db_rows = [], db_seq = 0, db_faults = faults\<rparr>, tr_heartbeat = heartbeat,
      tr_touched = [], tr_starts = Map.empty\<rparr>"

inductive span_reachable :: "(str \<Rightarrow> str) \<Rightarrow> span_db tracker \<Rightarrow> bool" for digest8 where
  start: "span_reachable digest8 (empty_tracker faults heartbeat)"
| step: "span_reachable digest8 t \<Longrightarrow> span_step digest8 kid att t t' \<Longrightarrow> span_reachable digest8 t'"

definition table_inv :: "span_row list \<Rightarrow> bool" where
  "table_inv rows \<longleftrightarrow> rows_wf rows \<and> key_unique rows \<and> stage_unique rows"

lemma span_step_inv:
  "span_step digest8 kid att t t' \<Longrightarrow> table_inv (db_rows (tr_store t)) \<Longrightarrow> table_inv (db_rows (tr_store t'))"
  by (auto simp: table_inv_def
      dest: span_step_table_steps table_steps_wf table_steps_key_unique table_steps_stage_unique)

lemma span_reachable_inv: "span_reachable digest8 t \<Longrightarrow> table_inv (db_rows (tr_store t))"
proof (induction rule: span_reachable.induct)
  case (start faults heartbeat)
  then show ?case by (simp add: empty_tracker_def table_inv_def rows_wf_def key_unique_def stage_unique_def)
next
  case (step t kid att t')
  then show ?case by (simp add: span_step_inv)
qed

subsection \<open>A run used by the witnesses\<close>

definition demo_digest :: "str \<Rightarrow> str" where
  "demo_digest name = lit ''00000000''"

definition demo_opened :: "span_db tracker" where
  "demo_opened = snd (open_attempt span_repository (lit ''k'') [] 1000 (lit ''r'') (empty_tracker [] True))"

definition demo_chunking :: "span_db tracker" where
  "demo_chunking =
     snd (begin_stage span_repository (lit ''k'') 1 STAGE_CHUNKING None 2000 (lit ''c'') demo_opened)"

definition demo_embedding :: "span_db tracker" where
  "demo_embedding =
     snd (begin_stage span_repository (lit ''k'') 1 STAGE_EMBEDDING None 3000 (lit ''e'') demo_chunking)"

definition demo_handle :: span where
  "demo_handle =
     \<lparr>sp_knowledge_id = lit ''k'', sp_attempt = 1, sp_span_id = lit ''c'', sp_parent = Some (lit ''r''),
      sp_name = STAGE_CHUNKING, sp_kind = SPAN_KIND_STAGE, sp_status = SPAN_STATUS_RUNNING,
      sp_started_at = 2000\<rparr>"

definition demo_row :: "nat \<Rightarrow> str \<Rightarrow> str option \<Rightarrow> str \<Rightarrow> str \<Rightarrow> int \<Rightarrow> span_row" where
  "demo_row n sid parent name kind now =
     (build_row (lit ''k'') 1 sid parent name kind SPAN_STATUS_RUNNING now)
       \<lparr>row_id := n, row_started_at := Some now\<rparr>"

lemmas demo_simps = span_repository_def repo_next_attempt_def repo_max_attempt_def max_attempt_def
  repo_upsert_def repo_list_by_attempt_def put_row_def row_key_def stmt_fails_def after_stmt_def
  in_attempt_def stage_scan_def Let_def

lemma demo_opened_store: "tr_store demo_opened = \<lparr>db_rows =
    [(demo_row 1 (lit ''r'') None ROOT_SPAN_NAME SPAN_KIND_ROOT 1000)\<lparr>row_metadata := Some (JObj [])\<rparr>],
   db_seq = 1, db_faults = []\<rparr>"
  by (simp add: demo_opened_def open_attempt_def empty_tracker_def demo_row_def build_row_def demo_simps)

lemma demo_chunking_store: "tr_store demo_chunking = \<lparr>db_rows =
    [(demo_row 1 (lit ''r'') None ROOT_SPAN_NAME SPAN_KIND_ROOT 1000)\<lparr>row_metadata := Some (JObj [])\<rparr>,
     demo_row 2 (lit ''c'') (Some (lit ''r'')) STAGE_CHUNKING SPAN_KIND_STAGE 2000],
   db_seq = 2, db_faults = []\<rparr>"
  by (simp add: demo_chunking_def begin_stage_def demo_opened_store demo_row_def build_row_def demo_simps)

lemma demo_embedding_store: "tr_store demo_embedding = \<lparr>db_rows =
    [(demo_row 1 (lit ''r'') None ROOT_SPAN_NAME SPAN_KIND_ROOT 1000)\<lparr>row_metadata := Some (JObj [])\<rparr>,
     demo_row 2 (lit ''c'') (Some (lit ''r'')) STAGE_CHUNKING SPAN_KIND_STAGE 2000,
     demo_row 3 (lit ''e'') (Some (lit ''r'')) STAGE_EMBEDDING SPAN_KIND_STAGE 3000],
   db_seq = 3, db_faults = []\<rparr>"
  by (simp add: demo_embedding_def begin_stage_def demo_chunking_store demo_row_def build_row_def demo_simps)

lemmas demo_facts = demo_embedding_store demo_chunking_store demo_row_def build_row_def in_attempt_def row_key_def
  is_open_def is_terminal_def OPEN_STATUSES_def TERMINAL_STATUSES_def db_healthy_def row_at_def span_key_def
  is_main_pipeline_stage_def ALL_STAGES_def demo_handle_def rows_wf_def row_wf_def

lemma demo_opened_reachable: "span_reachable demo_digest demo_opened"
  unfolding demo_opened_def 
  by (rule span_reachable.step [OF span_reachable.start [of _ "[]" True] span_step.opened])

lemma demo_embedding_reachable: "span_reachable demo_digest demo_embedding"
proof -
  have "span_reachable demo_digest demo_chunking"
    unfolding demo_chunking_def by (rule span_reachable.step [OF demo_opened_reachable span_step.stage_begun]) simp
  then show ?thesis
    unfolding demo_embedding_def by (rule span_reachable.step [OF _ span_step.stage_begun]) simp
qed

subsection \<open>Properties\<close>

text \<open>C7: In every state the tracker can reach from an empty table, whatever database faults
  occur, the rows carry a knowledge, a span id and a positive attempt, the key (knowledge,
  attempt, span id) is unique, and an attempt has at most one row per pipeline stage: retries
  and double calls of \<open>begin_stage\<close> never show a stage twice.\<close>

theorem reachable_table_inv:
  assumes "span_reachable digest8 t"
  shows "rows_wf (db_rows (tr_store t)) \<and> key_unique (db_rows (tr_store t)) \<and>
    stage_unique (db_rows (tr_store t))"
  using span_reachable_inv [OF assms] by (simp add: table_inv_def)

theorem reachable_table_inv_witness:
  "length (db_rows (tr_store demo_embedding)) = 3 \<and> rows_wf (db_rows (tr_store demo_embedding)) \<and>
   key_unique (db_rows (tr_store demo_embedding)) \<and> stage_unique (db_rows (tr_store demo_embedding))"
proof -
  have "length (db_rows (tr_store demo_embedding)) = 3" by (simp add: demo_facts)
  then show ?thesis using reachable_table_inv [OF demo_embedding_reachable] by simp
qed



text \<open>C15: When a main pipeline stage fails on a working store, the failure reaches every part of the
  attempt that can no longer succeed: the stage and the root of the attempt become \<open>failed\<close>,
  and no stage that depends on it, directly or not, is left pending or running.\<close>

theorem fail_main_stage_closes_attempt:
  assumes "fail_span span_repository (Some sp) code msg detail now1 now2 now3 t = (res, t')"
    and "db_healthy (tr_store t)" and "table_inv (db_rows (tr_store t))"
    and "row_at (span_key sp) (db_rows (tr_store t)) = Some r0" and "row_kind r0 = SPAN_KIND_STAGE"
    and "sp_kind sp = SPAN_KIND_STAGE" and "is_main_pipeline_stage (sp_name sp)"
    and "row_at k (db_rows (tr_store t)) = Some rt" and "row_kind rt = SPAN_KIND_ROOT"
    and "in_attempt (sp_knowledge_id sp) (sp_attempt sp) rt" and "is_open rt" and "row_parent rt = None"
    and "\<forall>q \<in> set (db_rows (tr_store t)). in_attempt (sp_knowledge_id sp) (sp_attempt sp) q \<and>
           row_kind q = SPAN_KIND_ROOT \<longrightarrow> row_key q = k"
  shows "(\<exists>f. row_at (span_key sp) (db_rows (tr_store t')) = Some f \<and> row_status f = SPAN_STATUS_FAILED) \<and>
    (\<exists>q. row_at k (db_rows (tr_store t')) = Some q \<and> row_status q = SPAN_STATUS_FAILED) \<and>
    (\<forall>r \<in> set (db_rows (tr_store t')). in_attempt (sp_knowledge_id sp) (sp_attempt sp) r \<and>
       row_kind r = SPAN_KIND_STAGE \<and> row_name r \<in> set (stages_depending_on (sp_name sp)) \<longrightarrow> \<not> is_open r)"
  using repo.fail_stage_closes [OF assms(1,2) _ _ assms(4-13)] assms(3) by (simp add: table_inv_def)

theorem fail_main_stage_closes_attempt_witness:
  "filter (\<lambda>r. in_attempt (lit ''k'') 1 r \<and> row_kind r = SPAN_KIND_STAGE \<and>
     row_name r \<in> set (stages_depending_on STAGE_CHUNKING) \<and> is_open r)
   (db_rows (tr_store (snd (fail_span span_repository (Some demo_handle) (lit ''E'') [] None
      4000 5000 6000 demo_embedding)))) = []"
proof -
  let ?k = "(lit ''k'', 1 :: int, lit ''r'')"
  have h: "db_healthy (tr_store demo_embedding)" by (simp add: demo_facts)
  have at: "row_at (span_key demo_handle) (db_rows (tr_store demo_embedding)) =
        Some (demo_row 2 (lit ''c'') (Some (lit ''r'')) STAGE_CHUNKING SPAN_KIND_STAGE 2000)"
      "row_at ?k (db_rows (tr_store demo_embedding)) =
        Some ((demo_row 1 (lit ''r'') None ROOT_SPAN_NAME SPAN_KIND_ROOT 1000)\<lparr>row_metadata := Some (JObj [])\<rparr>)"
    by (simp_all add: demo_facts)
  have kinds: "sp_kind demo_handle = SPAN_KIND_STAGE" "is_main_pipeline_stage (sp_name demo_handle)"
    by (simp_all add: demo_facts)
  have only: "\<forall>q \<in> set (db_rows (tr_store demo_embedding)).
      in_attempt (sp_knowledge_id demo_handle) (sp_attempt demo_handle) q \<and>
      row_kind q = SPAN_KIND_ROOT \<longrightarrow> row_key q = ?k"
    by (simp add: demo_facts)
  show ?thesis
    using fail_main_stage_closes_attempt [OF prod.collapse [symmetric] h span_reachable_inv
      [OF demo_embedding_reachable] at(1) _ kinds at(2) _ _ _ _ only]
    by (auto simp: demo_facts filter_empty_conv)
qed

text \<open>Aborting an attempt on a working store is one flat sweep: every pending or running span of
  the attempt becomes \<open>cancelled\<close> with the given code and reason, every finished span and every
  other attempt stay as they are. The sweep already closes the root, so the following
  finalization writes nothing: the error message and the root's duration are never stored.\<close>

theorem abort_attempt_sweeps:
  assumes a: "abort_attempt span_repository kid att code msg reason now1 now2 t = (res, t')"
    and h: "db_healthy (tr_store t)" and nb: "kid \<noteq> []" "0 < att"
    and vocab: "\<forall>r \<in> set (db_rows (tr_store t)). is_open r \<or> is_terminal r"
  shows "res = Inr () \<and> db_rows (tr_store t') =
    cancel_open (in_attempt kid att) (if code = [] then lit ''USER_CANCELLED'' else code)
      (if reason = [] then lit ''user cancelled'' else reason) now1 (db_rows (tr_store t))"
proof -
  let ?code = "if code = [] then lit ''USER_CANCELLED'' else code"
  let ?reason = "if reason = [] then lit ''user cancelled'' else reason"
  obtain c s where sw: "store_cancel_all_open_spans span_repository kid att ?code ?reason now1 (tr_store t) = (c, s)"
    by fastforce
  let ?rows = "cancel_open (in_attempt kid att) ?code ?reason now1 (db_rows (tr_store t))"
  have s: "db_healthy s" "db_rows s = ?rows"
    using repo.cancel_all_law [OF sw] h by (auto split: sum.splits)
  have f: "finalize_core span_repository kid att SPAN_STATUS_CANCELLED None ?code msg now2 (t\<lparr>tr_store := s\<rparr>) = (res, t')"
    using a nb sw by (simp add: abort_attempt_def Let_def)
  have closed: "is_terminal r" if "root_of kid att ?rows = Some r" for r
  proof -
    from root_ofD [OF that nb(2)] obtain q where q: "q \<in> set (db_rows (tr_store t))" "in_attempt kid att r"
        "r = (if in_attempt kid att q \<and> is_open q then mark_cancelled ?code ?reason now1 q else q)"
      by (auto simp: cancel_open_def)
    show ?thesis
    proof (cases "in_attempt kid att q \<and> is_open q")
      case True
      then show ?thesis by (simp add: q(3) mark_cancelled_def is_terminal_def TERMINAL_STATUSES_def)
    next
      case False
      then show ?thesis using q vocab by auto
    qed
  qed
  have "db_rows (tr_store t') = ?rows"
    using repo.finalize_core_effect [OF f] closed s(2) by auto
  moreover have "res = Inr ()"
    using arg_cong [OF f, of fst] unfolding repo.finalize_core_result by (simp add: TERMINAL_STATUSES_def)
  ultimately show ?thesis by simp
qed

theorem abort_attempt_sweeps_witness:
  "db_rows (tr_store (snd (abort_attempt span_repository (lit ''k'') 1 [] (lit ''m'') [] 7000 8000 demo_embedding))) =
   cancel_open (in_attempt (lit ''k'') 1) (lit ''USER_CANCELLED'') (lit ''user cancelled'') 7000
     (db_rows (tr_store demo_embedding))"
proof -
  have h: "db_healthy (tr_store demo_embedding)" by (simp add: demo_facts)
  have v: "\<forall>r \<in> set (db_rows (tr_store demo_embedding)). is_open r \<or> is_terminal r" by (simp add: demo_facts)
  show ?thesis using abort_attempt_sweeps [OF prod.collapse [symmetric] h _ _ v] by simp
qed

lemma root_of_map:
  assumes "\<And>r. row_identity (f r) = row_identity r"
  shows "root_of kid att (map f rows) = map_option f (root_of kid att rows)"
proof -
  have k: "row_kind (f r) = row_kind r" "in_attempt kid att (f r) = in_attempt kid att r"
    "row_knowledge_id (f r) = row_knowledge_id r" for r
    using repo.row_identity_eqD [OF assms [of r]] by (auto simp: row_key_def)
  have fd: "find P (map f xs) = map_option f (find P xs)" if "\<And>r. P (f r) = P r" for P and xs :: "span_row list"
    by (induction xs) (auto simp: that)
  have fl: "rows_of kid att (map f rows) = map f (rows_of kid att rows)"
    by (simp add: rows_of_def filter_map comp_def k)
  show ?thesis unfolding root_of_def fl by (rule fd) (simp add: k)
qed

lemma root_of_put_root:
  assumes "root_of kid att rows = Some r" and "row_key new = row_key r" and "0 < att"
  shows "root_of kid att (put_row new n rows) = Some (update_on_conflict new r)"
proof -
  have "known_key (row_key new) rows" using root_ofD [OF assms(1,3)] assms(2) by (metis known_key_mem)
  then have "put_row new n rows = map (\<lambda>r. if row_key r = row_key new then update_on_conflict new r else r) rows"
    by (rule put_row_known)
  then show ?thesis using assms by (simp add: root_of_map)
qed

lemma finalize_leaves_closed_root:
  assumes "finalize_attempt span_repository kid att status output code msg now t = (res, t')"
    and "\<And>r. root_of kid att (db_rows (tr_store t)) = Some r \<Longrightarrow> is_terminal r"
  shows "db_rows (tr_store t') = db_rows (tr_store t)"
  using repo.finalize_core_effect [OF assms(1) [unfolded finalize_attempt_def]] assms(2) by blast

text \<open>Finalizing is idempotent: once a finalization with a terminal status has run on a working
  store, no later one writes anything, whatever its status, message or clock and whatever the
  store does then.\<close>

theorem finalize_attempt_once:
  assumes f1: "finalize_attempt span_repository kid att status1 output1 code1 msg1 now1 t = (res1, t1)"
    and h: "db_healthy (tr_store t)" and wf: "rows_wf (db_rows (tr_store t))"
    and st: "status1 \<in> TERMINAL_STATUSES" and nb: "kid \<noteq> []" "0 < att"
    and same: "db_rows (tr_store t1') = db_rows (tr_store t1)"
    and f2: "finalize_attempt span_repository kid att status2 output2 code2 msg2 now2 t1' = (res2, t2)"
  shows "db_rows (tr_store t2) = db_rows (tr_store t1)"
proof -
  have ne: "status1 \<noteq> []" using st by (auto simp: TERMINAL_STATUSES_def)
  have "is_terminal q" if q: "root_of kid att (db_rows (tr_store t1)) = Some q" for q
  proof -
    consider (same) "db_rows (tr_store t1) = db_rows (tr_store t)"
        "case root_of kid att (db_rows (tr_store t)) of None \<Rightarrow> True
         | Some r \<Rightarrow> is_terminal r \<or> row_knowledge_id r = [] \<or> row_span_id r = []"
      | (put) r n where "root_of kid att (db_rows (tr_store t)) = Some r"
          "db_rows (tr_store t1) = put_row (closing_row r status1 output1 code1 msg1 now1) n (db_rows (tr_store t))"
      using repo.finalize_core_effect [OF f1 [unfolded finalize_attempt_def]] h st ne nb by auto
    then show ?thesis
    proof cases
      case same
      then show ?thesis using q wf root_ofD [OF _ nb(2)] by (auto simp: rows_wf_def row_wf_def)
    next
      case put
      then show ?thesis
        using q root_of_put_root [OF put(1) closing_row_simps(1) nb(2)] st by (auto simp: is_terminal_def)
    qed
  qed
  then show ?thesis using finalize_leaves_closed_root [OF f2] same by simp
qed

theorem finalize_attempt_once_witness:
  "\<exists>t1 res1. finalize_attempt span_repository (lit ''k'') 1 SPAN_STATUS_DONE None [] [] 9000 demo_embedding = (res1, t1) \<and>
     db_rows (tr_store (snd (finalize_attempt span_repository (lit ''k'') 1 SPAN_STATUS_FAILED None
       (lit ''E'') (lit ''late'') 9500 t1))) = db_rows (tr_store t1)"
proof -
  let ?f = "finalize_attempt span_repository (lit ''k'') 1 SPAN_STATUS_DONE None [] [] 9000 demo_embedding"
  have "db_healthy (tr_store demo_embedding)" "rows_wf (db_rows (tr_store demo_embedding))"
    "SPAN_STATUS_DONE \<in> TERMINAL_STATUSES" by (simp_all add: demo_facts)
  from finalize_attempt_once [OF prod.collapse [symmetric] this _ _ refl prod.collapse [symmetric]]
  show ?thesis by (intro exI [of _ "snd ?f"] exI [of _ "fst ?f"]) simp
qed

lemma fit_span_name_nonempty: "name \<noteq> [] \<Longrightarrow> fit_span_name digest8 name \<noteq> []"
  by (auto simp: fit_span_name_def Let_def split: if_splits)

lemma filter_cancel_open_closed:
  "(\<And>r. P (mark_cancelled code reason now r) = P r) \<Longrightarrow>
   filter (\<lambda>r. P r \<and> is_open r) (cancel_open P code reason now rows) = []"
  by (auto simp: cancel_open_def filter_empty_conv)

text \<open>Starting a subtask replaces its earlier runs: on a working store, after \<open>begin_sub_span\<close>
  the only open span of that name in the attempt is the new one, and spans of other names are
  as before.\<close>

theorem begin_sub_span_supersedes:
  assumes b: "begin_sub_span span_repository digest8 (Some p) name kind input now1 now2 new_id t = (res, t')"
    and h: "db_healthy (tr_store t)" and nb: "name \<noteq> []" "sp_knowledge_id p \<noteq> []" "0 < sp_attempt p" "new_id \<noteq> []"
    and fresh: "\<not> known_key (sp_knowledge_id p, sp_attempt p, new_id) (db_rows (tr_store t))"
  defines "P \<equiv> \<lambda>r. in_attempt (sp_knowledge_id p) (sp_attempt p) r \<and> row_name r = fit_span_name digest8 name"
  shows "map row_span_id (filter (\<lambda>r. P r \<and> is_open r) (db_rows (tr_store t'))) = [new_id] \<and>
    filter (\<lambda>r. \<not> P r) (db_rows (tr_store t')) = filter (\<lambda>r. \<not> P r) (db_rows (tr_store t))"
proof -
  let ?name = "fit_span_name digest8 name"
  let ?code = "lit ''TASK_SUPERSEDED''" and ?reason = "lit ''superseded by a new run of the same subtask''"
  let ?kind = "if kind \<in> {SPAN_KIND_GENERATION, SPAN_KIND_SUBSPAN} then kind else SPAN_KIND_SUBSPAN"
  let ?row = "(build_row (sp_knowledge_id p) (sp_attempt p) new_id (Some (sp_span_id p)) ?name ?kind
      SPAN_STATUS_RUNNING now2)\<lparr>row_input := input, row_started_at := Some now2\<rparr>"
  obtain c s where sw: "store_cancel_open_spans_by_name span_repository (sp_knowledge_id p) (sp_attempt p) ?name
      ?code ?reason now1 (tr_store t) = (c, s)" by fastforce
  let ?rows = "cancel_open P ?code ?reason now1 (db_rows (tr_store t))"
  have s: "db_healthy s" "db_rows s = ?rows"
    using repo.cancel_by_name_law [OF nb(2,3) fit_span_name_nonempty [OF nb(1)] sw] h
    by (auto simp: P_def split: sum.splits)
  obtain u s' where up: "store_upsert span_repository ?row s = (u, s')" by fastforce
  from repo.healthy_upsert [OF up s(1)] nb(2-4) obtain n where s': "db_rows s' = put_row ?row n ?rows"
    by (auto simp: s(2))
  have key: "row_key ?row = (sp_knowledge_id p, sp_attempt p, new_id)" by (simp add: row_key_def)
  have "\<not> known_key (row_key ?row) ?rows"
    using fresh unfolding key by (simp add: known_key_def)
  then have rows': "db_rows (tr_store t') = ?rows @ [?row\<lparr>row_id := n\<rparr>]"
    using b sw up nb(1) s' by (auto simp: begin_sub_span_def Let_def put_row_fresh split: sum.splits)
  have P: "P (mark_cancelled ?code ?reason now1 r) = P r" for r
    by (simp add: P_def mark_cancelled_def in_attempt_def)
  have new: "P (?row\<lparr>row_id := n\<rparr>)" "is_open (?row\<lparr>row_id := n\<rparr>)"
    by (simp_all add: P_def in_attempt_def is_open_iff)
  have rest: "filter (\<lambda>r. \<not> P r) ?rows = filter (\<lambda>r. \<not> P r) (db_rows (tr_store t))"
    unfolding cancel_open_def by (rule filter_map_id_on) (auto simp: P split: if_splits)
  show ?thesis
    unfolding rows' using filter_cancel_open_closed [of P, OF P] rest new by simp
qed

theorem begin_sub_span_supersedes_witness:
  "let rows = db_rows (tr_store (snd (begin_sub_span span_repository demo_digest (Some demo_handle) STAGE_EMBEDDING
       (lit ''generation'') None 4000 5000 (lit ''s'') demo_embedding)))
   in map row_span_id (filter (\<lambda>r. (in_attempt (lit ''k'') 1 r \<and> row_name r = STAGE_EMBEDDING) \<and> is_open r) rows) = [lit ''s'']"
proof -
  have "db_healthy (tr_store demo_embedding)"
    "\<not> known_key (sp_knowledge_id demo_handle, sp_attempt demo_handle, lit ''s'') (db_rows (tr_store demo_embedding))"
    by (simp_all add: demo_facts known_key_def)
  from begin_sub_span_supersedes [OF prod.collapse [symmetric] this(1) _ _ _ _ this(2), of STAGE_EMBEDDING demo_digest
      "lit ''generation''" None 4000 5000]
  show ?thesis by (simp add: demo_handle_def fit_span_name_def Let_def)
qed

subsection \<open>Errors\<close>

text \<open>Recording is best effort: whatever the store does, no stage or span call and no abort
  raises, and a finalization raises only for a status outside the terminal ones. The exception
  is \<open>open_attempt\<close>, which lets exactly the error of the store's \<open>next_attempt\<close> through.\<close>

theorem tracker_raises_only:
  "\<not> isl (fst (begin_stage S kid att stage input now new_id t)) \<and>
   \<not> isl (fst (begin_sub_span S digest8 parent name kind input now now2 new_id t)) \<and>
   \<not> isl (fst (end_span S sp output now t)) \<and>
   \<not> isl (fst (fail_span S sp code msg detail now now2 now3 t)) \<and>
   \<not> isl (fst (skip_span S sp reason now t)) \<and>
   \<not> isl (fst (abort_attempt S kid att code msg reason now now2 t)) \<and>
   (isl (fst (finalize_attempt S kid att status output code msg now t)) \<longleftrightarrow>
      kid \<noteq> [] \<and> 0 < att \<and> status \<noteq> [] \<and> status \<notin> TERMINAL_STATUSES) \<and>
   (fst (open_attempt S kid trace now new_id t) = Inl e \<longleftrightarrow>
      kid \<noteq> [] \<and> fst (store_next_attempt S kid (tr_store t)) = Inl e)"
proof (intro conjI)
  have core: "isl (fst (finalize_core S k a st out c m n u)) \<longleftrightarrow>
      k \<noteq> [] \<and> 0 < a \<and> st \<noteq> [] \<and> st \<notin> TERMINAL_STATUSES" for k a st out c m n u
    by (auto simp: finalize_core_def Let_def TERMINAL_STATUSES_def split: sum.split prod.split option.split)
  show "\<not> isl (fst (begin_stage S kid att stage input now new_id t))"
    by (auto simp: begin_stage_def Let_def split: sum.split prod.split option.split)
  show "\<not> isl (fst (begin_sub_span S digest8 parent name kind input now now2 new_id t))"
    by (auto simp: begin_sub_span_def Let_def split: sum.split prod.split option.split)
  show "\<not> isl (fst (end_span S sp output now t))"
    by (auto simp: end_span_def Let_def split: prod.split option.split)
  show "\<not> isl (fst (skip_span S sp reason now t))"
    by (auto simp: skip_span_def Let_def split: option.split)
  have failed: "finalize_core S k a SPAN_STATUS_FAILED out c m n u \<noteq> (Inl e, u')" for k a out c m n u e u'
    using core [of k a SPAN_STATUS_FAILED out c m n u] by (auto simp: TERMINAL_STATUSES_def)
  show "\<not> isl (fst (fail_span S sp code msg detail now now2 now3 t))"
    by (auto simp: failed fail_span_def Let_def split: prod.split option.split sum.split)
  show "\<not> isl (fst (abort_attempt S kid att code msg reason now now2 t))"
    by (simp add: abort_attempt_def Let_def core TERMINAL_STATUSES_def)
  show "isl (fst (finalize_attempt S kid att status output code msg now t)) \<longleftrightarrow>
      kid \<noteq> [] \<and> 0 < att \<and> status \<noteq> [] \<and> status \<notin> TERMINAL_STATUSES"
    by (simp add: finalize_attempt_def core)
  show "fst (open_attempt S kid trace now new_id t) = Inl e \<longleftrightarrow>
      kid \<noteq> [] \<and> fst (store_next_attempt S kid (tr_store t)) = Inl e"
    by (auto simp: open_attempt_def Let_def split: sum.split prod.split)
qed

text \<open>The progress query on a working store: a blank knowledge id, an attempt below 1 and a
  knowledge without attempts are the three errors; otherwise it returns the rows of the asked
  (or newest) attempt in table order, with the newest attempt's number.\<close>

theorem get_progress_result:
  assumes "db_healthy (tr_store t)"
  defines "rows \<equiv> db_rows (tr_store t)"
  shows "fst (get_progress span_repository kid attempt t) =
    (if list_all is_space kid then Inl (ValidationError (lit ''span.knowledge_required''))
     else case attempt of
       Some a \<Rightarrow>
         if a < 1 then Inl (ValidationError (lit ''span.invalid_attempt''))
         else Inr \<lparr>pr_knowledge_id = kid, pr_attempt = a, pr_latest_attempt = max_attempt kid rows,
                   pr_spans = filter (in_attempt kid a) rows\<rparr>
     | None \<Rightarrow>
         if max_attempt kid rows \<le> 0 then Inl (NotFoundError (lit ''span.not_found''))
         else Inr \<lparr>pr_knowledge_id = kid, pr_attempt = max_attempt kid rows,
                   pr_latest_attempt = max_attempt kid rows,
                   pr_spans = filter (in_attempt kid (max_attempt kid rows)) rows\<rparr>)"
proof (cases "list_all is_space kid")
  case True
  then show ?thesis by (simp add: get_progress_def strip_eq_Nil_iff)
next
  case False
  then have ne: "strip kid \<noteq> []" "kid \<noteq> []" by (auto simp: strip_eq_Nil_iff)
  obtain l s where l: "store_latest_attempt span_repository kid (tr_store t) = (l, s)" by fastforce
  have s: "db_healthy s" "db_rows s = rows" "l = Inr (max_attempt kid rows)"
    using repo.latest_attempt_law [OF l] assms by (auto simp: rows_def split: sum.splits)
  have ls: "fst (store_list_by_attempt span_repository kid a s) = Inr (rows_of kid a rows)" for a
    using repo.list_law [of kid a s, OF prod.collapse [symmetric]] s(1,2) by (auto split: sum.splits)
  have la: "list_attempt_spans span_repository kid a (t\<lparr>tr_store := s\<rparr>) =
      (rows_of kid a rows, snd (list_attempt_spans span_repository kid a (t\<lparr>tr_store := s\<rparr>)))" for a
    using ls [of a] by (cases "store_list_by_attempt span_repository kid a s") (auto simp: list_attempt_spans_def)
  have lt: "latest_attempt span_repository kid t = (max_attempt kid rows, t\<lparr>tr_store := s\<rparr>)"
    using l s(3) by (simp add: latest_attempt_def)
  have wr: "(case list_attempt_spans span_repository kid a (t\<lparr>tr_store := s\<rparr>) of (spans, t2) \<Rightarrow>
      (Inr (f spans), t2)) = (Inr (f (rows_of kid a rows)), snd (list_attempt_spans span_repository kid a (t\<lparr>tr_store := s\<rparr>)))" for a f
    by (subst la) simp
  show ?thesis
    using False ne by (simp add: get_progress_def lt wr rows_of_def Let_def split: option.split)
qed

theorem get_progress_result_witness:
  "fst (get_progress span_repository (lit ''k'') None demo_embedding) =
     Inr \<lparr>pr_knowledge_id = lit ''k'', pr_attempt = 1, pr_latest_attempt = 1,
          pr_spans = db_rows (tr_store demo_embedding)\<rparr>"
proof -
  have "db_healthy (tr_store demo_embedding)" "\<not> list_all is_space (lit ''k'')"
    "max_attempt (lit ''k'') (db_rows (tr_store demo_embedding)) = 1"
    "filter (in_attempt (lit ''k'') 1) (db_rows (tr_store demo_embedding)) = db_rows (tr_store demo_embedding)"
    by (simp_all add: demo_facts max_attempt_def) (simp add: is_space_def lit_def)
  with get_progress_result [of demo_embedding "lit ''k''" None] show ?thesis by simp
qed

subsection \<open>Attempts, descendants and names\<close>

lemma max_attempt_none: "rows_wf rows \<Longrightarrow> filter (in_attempt kid (max_attempt kid rows + 1)) rows = []"
  by (auto simp: filter_empty_conv in_attempt_def dest: max_attempt_ge)

text \<open>Opening an attempt on a working store starts a new one: its number is one above every
  earlier attempt of the knowledge, so no row had it, and the table gains exactly one row, the
  running root, while all earlier rows stay as they are.\<close>

theorem open_attempt_starts_fresh:
  assumes o: "open_attempt span_repository kid trace now new_id t = (res, t')"
    and h: "db_healthy (tr_store t)" and wf: "rows_wf (db_rows (tr_store t))" and nb: "kid \<noteq> []" "new_id \<noteq> []"
  shows "\<exists>att sp r. res = Inr (Some sp, att) \<and> 0 < att \<and>
    (\<forall>q \<in> set (db_rows (tr_store t)). row_knowledge_id q = kid \<longrightarrow> row_attempt q < att) \<and>
    db_rows (tr_store t') = db_rows (tr_store t) @ [r] \<and>
    row_key r = (kid, att, new_id) \<and> row_kind r = SPAN_KIND_ROOT \<and> row_status r = SPAN_STATUS_RUNNING \<and>
    row_parent r = None \<and> to_span r = sp"
proof -
  let ?att = "max_attempt kid (db_rows (tr_store t)) + 1"
  let ?meta = "if trace \<noteq> [] then [(lit ''langfuse_trace_id'', JStr trace)] else []"
  let ?row = "(build_row kid ?att new_id None ROOT_SPAN_NAME SPAN_KIND_ROOT SPAN_STATUS_RUNNING now)
    \<lparr>row_metadata := Some (JObj ?meta), row_started_at := Some now\<rparr>"
  obtain n s where nx: "store_next_attempt span_repository kid (tr_store t) = (n, s)" by fastforce
  have s: "db_healthy s" "db_rows s = db_rows (tr_store t)" "n = Inr ?att"
    using repo.next_attempt_law [OF nx] h by (auto split: sum.splits)
  have pos: "0 < ?att" using max_attempt_nonneg [OF wf, of kid] by simp
  obtain u s' where up: "store_upsert span_repository ?row s = (u, s')" by fastforce
  from repo.healthy_upsert [OF up s(1)] nb pos obtain x m where s': "u = Inr x" "db_rows s' = put_row ?row m (db_rows s)"
    by auto
  have key: "row_key ?row = (kid, ?att, new_id)" by (simp add: row_key_def)
  have "\<not> known_key (row_key ?row) (db_rows s)"
    unfolding key s(2) known_key_def using max_attempt_none [OF wf, of kid]
    by (auto simp: filter_empty_conv in_attempt_def row_key_def)
  then have "db_rows s' = db_rows (tr_store t) @ [?row\<lparr>row_id := m\<rparr>]"
    unfolding s' by (simp add: put_row_fresh s(2))
  then show ?thesis
    using o nx s up s' nb pos
    by (intro exI [of _ ?att] exI [of _ "to_span ?row"] exI [of _ "?row\<lparr>row_id := m\<rparr>"])
      (auto simp: open_attempt_def Let_def row_key_def to_span_def build_row_def dest: max_attempt_ge)
qed

theorem open_attempt_starts_fresh_witness:
  "\<exists>sp. fst (open_attempt span_repository (lit ''k'') [] 9000 (lit ''r2'') demo_embedding) = Inr (Some sp, 2)"
proof -
  have "db_healthy (tr_store demo_embedding)" "rows_wf (db_rows (tr_store demo_embedding))"
    by (simp_all add: demo_facts)
  from open_attempt_starts_fresh [OF prod.collapse [symmetric] this, of "lit ''k''" "lit ''r2''" "[]" 9000]
  obtain att sp r where a: "fst (open_attempt span_repository (lit ''k'') [] 9000 (lit ''r2'') demo_embedding) = Inr (Some sp, att)"
      "row_key r = (lit ''k'', att, lit ''r2'')" by auto
  have "att = 2" using a by (simp add: open_attempt_def demo_facts demo_simps split: sum.splits prod.splits)
  with a show ?thesis by blast
qed

text \<open>The cascade of \<open>cancel_descendants\<close> on a working store cancels exactly the open spans
  linked to the parent by at most 16 links that all run through open spans; so a span whose own
  parent is already closed, or that hangs deeper, stays open, although the parent's subtree
  contains it.\<close>

theorem cancel_descendants_exact:
  assumes "repo_cancel_descendants kid att parent reason d = (res, d')" and "db_healthy d"
  shows "db_rows d' = cancel_ids kid att (open_reach (db_rows d) kid att 16 {parent}) reason (db_rows d) \<and>
    (key_unique (db_rows d) \<longrightarrow> (\<forall>r q. r \<in> set (db_rows d) \<and> q \<in> set (db_rows d) \<and>
       in_attempt kid att r \<and> in_attempt kid att q \<and> row_parent r = Some (row_span_id q) \<and>
       row_span_id q \<noteq> parent \<and> \<not> is_open q \<longrightarrow> r \<in> set (db_rows d')))"
proof -
  have e: "store_cancel_descendants span_repository kid att parent reason d = (res, d')"
    using assms(1) by (simp add: span_repository_def)
  let ?R = "\<lambda>n ps. open_reach (db_rows d) kid att n ps"
  have d': "db_rows d' = cancel_ids kid att (?R 16 {parent}) reason (db_rows d)"
    using repo.cancel_descendants_law [OF e] assms(2) by (cases res) auto
  have through: "\<exists>r \<in> set (db_rows d). \<exists>p. in_attempt kid att r \<and> row_span_id r = s \<and> row_parent r = Some p \<and>
      (p \<in> ps \<or> (\<exists>q \<in> set (db_rows d). in_attempt kid att q \<and> row_span_id q = p \<and> is_open q))"
    if "s \<in> ?R n ps" for s n ps
    using that
  proof (induction n arbitrary: ps)
    case 0
    then show ?case by simp
  next
    case (Suc n)
    then consider "s \<in> open_children (db_rows d) kid att ps" | "s \<in> ?R n (open_children (db_rows d) kid att ps)"
      by auto
    then show ?case
    proof cases
      case 1
      then show ?thesis by (auto simp: open_children_def)
    next
      case 2
      from Suc.IH [OF 2] obtain r p where r: "r \<in> set (db_rows d)" "in_attempt kid att r" "row_span_id r = s"
          "row_parent r = Some p" and p: "p \<in> open_children (db_rows d) kid att ps \<or>
          (\<exists>q \<in> set (db_rows d). in_attempt kid att q \<and> row_span_id q = p \<and> is_open q)"
        by (elim bexE exE conjE) blast
      from p have "\<exists>q \<in> set (db_rows d). in_attempt kid att q \<and> row_span_id q = p \<and> is_open q"
        using open_children_open [of p "db_rows d" kid att ps] by (elim disjE) simp_all
      with r(2-4) show ?thesis by (intro bexI [OF exI [of _ p] r(1)]) simp
    qed
  qed
  have "r \<in> set (db_rows d')"
    if u: "key_unique (db_rows d)" and m: "r \<in> set (db_rows d)" "q \<in> set (db_rows d)" "in_attempt kid att r"
      "in_attempt kid att q" "row_parent r = Some (row_span_id q)" "row_span_id q \<noteq> parent" "\<not> is_open q" for r q
  proof -
    have same: "x = y" if "x \<in> set (db_rows d)" "y \<in> set (db_rows d)" "in_attempt kid att x" "in_attempt kid att y"
        "row_span_id x = row_span_id y" for x y
      using key_uniqueD [OF u that(1,2)] that(3-5) by (simp add: row_key_def in_attempt_def)
    have "row_span_id r \<notin> ?R 16 {parent}"
    proof
      assume "row_span_id r \<in> ?R 16 {parent}"
      from through [OF this] obtain x p where x: "x \<in> set (db_rows d)" "in_attempt kid att x"
          "row_span_id x = row_span_id r" "row_parent x = Some p" and p: "p = parent \<or>
          (\<exists>y \<in> set (db_rows d). in_attempt kid att y \<and> row_span_id y = p \<and> is_open y)"
        by auto
      have "x = r" using x(1) m(1) x(2) m(3) x(3) by (rule same)
      then have "p = row_span_id q" using x(4) m(5) by simp
      with p m(6) obtain y where y: "y \<in> set (db_rows d)" "in_attempt kid att y"
          "row_span_id y = row_span_id q" "is_open y"
        by auto
      have "y = q" using y(1) m(2) y(2) m(4) y(3) by (rule same)
      with y(4) m(7) show False by simp
    qed
    then show ?thesis using m(1) by (force simp: d' cancel_ids_def)
  qed
  then show ?thesis using d' by blast
qed

theorem cancel_descendants_exact_witness:
  "db_rows (snd (repo_cancel_descendants (lit ''k'') 1 (lit ''r'') (lit ''x'') (tr_store demo_embedding))) =
     cancel_ids (lit ''k'') 1 {lit ''c'', lit ''e''} (lit ''x'') (db_rows (tr_store demo_embedding))"
proof -
  let ?rows = "db_rows (tr_store demo_embedding)"
  have h: "db_healthy (tr_store demo_embedding)" by (simp add: demo_facts)
  have "\<forall>r \<in> set ?rows. in_attempt (lit ''k'') 1 r \<and> is_open r" by (simp add: demo_facts)
  then have c: "open_children ?rows (lit ''k'') 1 ps = set (map row_span_id (filter (\<lambda>r.
      case row_parent r of None \<Rightarrow> False | Some p \<Rightarrow> p \<in> ps) ?rows))" for ps
    by (auto simp: open_children_def image_iff split: option.splits)
  have c1: "open_children ?rows (lit ''k'') 1 {lit ''r''} = {lit ''c'', lit ''e''}"
    and c2: "open_children ?rows (lit ''k'') 1 {lit ''c'', lit ''e''} = {}"
    unfolding c by (simp_all add: demo_facts)
  have "open_reach ?rows (lit ''k'') 1 16 {lit ''r''} = {lit ''c'', lit ''e''}"
    by (simp add: numeral_eq_Suc c1 c2)
  with cancel_descendants_exact [OF prod.collapse [symmetric] h, of "lit ''k''" 1 "lit ''r''" "lit ''x''"]
  show ?thesis by simp
qed

text \<open>The backward walk over the stage graph returns every stage that transitively depends on
  the given one, and nothing else, each once.\<close>

theorem stages_depending_on_closure:
  "set (stages_depending_on stage) = stage_edge\<^sup>+ `` {stage} \<and> distinct (stages_depending_on stage)"
proof
  show "set (stages_depending_on stage) = stage_edge\<^sup>+ `` {stage}" by (rule set_stages_depending_on)
  show "distinct (stages_depending_on stage)"
  proof (cases "stage \<in> set ALL_STAGES")
    case True
    then consider "stage = STAGE_DOCREADER" | "stage = STAGE_CHUNKING" | "stage = STAGE_EMBEDDING"
      | "stage = STAGE_MULTIMODAL" | "stage = STAGE_POSTPROCESS"
      by (auto simp: ALL_STAGES_def)
    then show ?thesis by cases simp_all
  next
    case False
    have "set (STAGE_DEPENDENCIES c) \<subseteq> set ALL_STAGES" for c
      by (auto simp: STAGE_DEPENDENCIES_def ALL_STAGES_def)
    then have "stage_edge `` {stage} = {}" using False by (auto simp: stage_edge_def)
    then have "stage_edge\<^sup>+ `` {stage} = {}" by (auto dest: tranclD)
    then show ?thesis using set_stages_depending_on [of stage] by simp
  qed
qed

text \<open>A fitted span name fits the column, names that already fit are kept, fitting twice changes
  nothing, and two long names are mapped to the same name only when their digests agree.\<close>

theorem fit_span_name_spec:
  assumes "\<And>n. length (digest8 n) = 8"
  shows "length (fit_span_name digest8 name) \<le> 255 \<and>
    (length name \<le> 255 \<longrightarrow> fit_span_name digest8 name = name) \<and>
    fit_span_name digest8 (fit_span_name digest8 name) = fit_span_name digest8 name \<and>
    (255 < length name \<and> 255 < length name' \<and> fit_span_name digest8 name = fit_span_name digest8 name' \<longrightarrow>
       take 246 name = take 246 name' \<and> digest8 name = digest8 name')"
  using length_fit_span_name [of digest8 name] fit_span_name_idem [of digest8 name]
  by (auto simp: fit_span_name_def Let_def assms)

theorem fit_span_name_spec_witness:
  "length (fit_span_name demo_digest (replicate 300 97)) \<le> 255 \<and>
   fit_span_name demo_digest (lit ''chunking'') = lit ''chunking''"
proof -
  have d: "\<And>n. length (demo_digest n) = 8" by (simp add: demo_digest_def)
  show ?thesis
    using fit_span_name_spec [of demo_digest "replicate 300 97" "[]", OF d]
      fit_span_name_spec [of demo_digest "lit ''chunking''" "[]", OF d]
    by simp
qed

text \<open>What was written can be read back: after a successful upsert, \<open>get_span\<close> of the row's key
  returns the row the upsert returned, which carries the written status, times and errors, the
  written JSON columns or, where none was given, the stored ones, and an unchanged creation
  time when the span already existed.\<close>

theorem upsert_get_span:
  assumes u: "repo_upsert row d = (Inr r, d')" and ok: "\<not> stmt_fails d'"
  shows "fst (repo_get_span (row_knowledge_id row) (effective_attempt (row_attempt row)) (row_span_id row) d') =
      Inr (Some r) \<and>
    row_status r = row_status row \<and> row_error_code r = row_error_code row \<and>
    row_finished_at r = row_finished_at row \<and> row_duration_ms r = row_duration_ms row \<and>
    (case row_at (row_key (normal_row row)) (db_rows d) of
       None \<Rightarrow> row_output r = row_output row \<and> row_created_at r = row_created_at row \<and> row_id r = db_seq d'
     | Some old \<Rightarrow> row_output r = keep_unless (row_output old) (row_output row) \<and>
         row_input r = keep_unless (row_input old) (row_input row) \<and>
         row_created_at r = row_created_at old \<and> row_id r = row_id old)"
proof -
  let ?row = "normal_row row"
  have n: "row\<lparr>row_attempt := if 0 < row_attempt row then row_attempt row else 1\<rparr> = ?row"
    by (simp add: normal_row_def effective_attempt_def)
  have d': "db_rows d' = put_row ?row (Suc (db_seq d)) (db_rows d)" "db_seq d' = Suc (db_seq d)"
      "row_at (row_key ?row) (db_rows d') = Some r"
    using u unfolding repo_upsert_def Let_def n by (auto simp: row_at_def split: if_splits option.splits)
  have key: "row_key ?row = (row_knowledge_id row, effective_attempt (row_attempt row), row_span_id row)"
    by (simp add: row_key_def normal_row_def)
  have r: "r = (case row_at (row_key ?row) (db_rows d) of None \<Rightarrow> ?row\<lparr>row_id := Suc (db_seq d)\<rparr>
      | Some old \<Rightarrow> update_on_conflict ?row old)"
    using d'(3) unfolding d'(1) row_at_put_row by simp
  have cols: "row_status ?row = row_status row" "row_error_code ?row = row_error_code row"
    "row_finished_at ?row = row_finished_at row" "row_duration_ms ?row = row_duration_ms row"
    "row_output ?row = row_output row" "row_input ?row = row_input row" "row_created_at ?row = row_created_at row"
    by (simp_all add: normal_row_def)
  have "fst (repo_get_span (row_knowledge_id row) (effective_attempt (row_attempt row)) (row_span_id row) d') = Inr (Some r)"
    using ok d'(3) by (simp add: repo_get_span_def row_at_def key)
  then show ?thesis
    by (auto simp: r cols d'(2) update_on_conflict_def split: option.split)
qed

theorem upsert_get_span_witness:
  "let row = demo_row 9 (lit ''c'') None STAGE_CHUNKING SPAN_KIND_STAGE 5000;
       d' = snd (repo_upsert row (tr_store demo_embedding))
   in map_option row_created_at (projr (fst (repo_get_span (lit ''k'') 1 (lit ''c'') d'))) = Some 2000"
proof -
  let ?row = "demo_row 9 (lit ''c'') None STAGE_CHUNKING SPAN_KIND_STAGE 5000"
  let ?up = "repo_upsert ?row (tr_store demo_embedding)"
  have ok: "\<not> stmt_fails (snd ?up)" and "\<not> isl (fst ?up)"
    by (simp_all add: demo_facts repo_upsert_def stmt_fails_def after_stmt_def put_row_def Let_def
        update_on_conflict_def)
  then obtain r where up: "?up = (Inr r, snd ?up)" by (cases "fst ?up") (auto simp: prod_eq_iff)
  have old: "row_at (row_key (normal_row ?row)) (db_rows (tr_store demo_embedding)) =
      Some (demo_row 2 (lit ''c'') (Some (lit ''r'')) STAGE_CHUNKING SPAN_KIND_STAGE 2000)"
    by (simp add: demo_facts normal_row_def effective_attempt_def)
  show ?thesis
    using upsert_get_span [OF up ok] unfolding old
    by (simp add: Let_def) (simp add: demo_facts effective_attempt_def)
qed

end
