(* ===== verification/Span_Tree.thy ===== *)
theory Span_Tree
  imports Span_Properties
begin

text \<open>
  The span timeline of src/src/core/knowledge/documents/span_tree.py: the flat rows of an attempt
  are nested under their parents. The recursion \<open>attach\<close> threads the set of visited ids; its
  fuel is the number of rows plus one, which \<open>build_tree_total\<close> shows to be enough, and
  \<open>None\<close> is running out of fuel or Python's \<open>KeyError\<close>.
\<close>

subsection \<open>Nodes\<close>

record node_data =
  nd_span_id :: str
  nd_parent :: "str option"
  nd_name :: str
  nd_kind :: str
  nd_status :: str
  nd_started_at :: "int option"
  nd_finished_at :: "int option"
  nd_duration_ms :: "int option"
  nd_error_code :: str
  nd_error_message :: str
  nd_input :: "json option"
  nd_output :: "json option"
  nd_metadata :: "json option"

datatype span_node = SpanNode (node_data: node_data) (node_children: "span_node list")

record span_last_error =
  le_name :: str
  le_error_code :: str
  le_error_message :: str
  le_finished_at :: "int option"

record spans_read =
  rd_knowledge_id :: str
  rd_attempt :: int
  rd_latest_attempt :: int
  rd_current_attempt :: int
  rd_parse_status :: str
  rd_current_stage :: str
  rd_trace :: span_node
  rd_last_error :: "span_last_error option"

definition empty_trace :: span_node where
  "empty_trace = SpanNode
     \<lparr>nd_span_id = [], nd_parent = None, nd_name = ROOT_SPAN_NAME, nd_kind = SPAN_KIND_ROOT,
      nd_status = SPAN_STATUS_PENDING, nd_started_at = None, nd_finished_at = None,
      nd_duration_ms = None, nd_error_code = [], nd_error_message = [],
      nd_input = None, nd_output = None, nd_metadata = None\<rparr> []"

definition or_blank :: "str option \<Rightarrow> str" where
  "or_blank v = (case v of None \<Rightarrow> [] | Some s \<Rightarrow> s)"

definition row_data :: "span_row \<Rightarrow> node_data" where
  "row_data row =
     \<lparr>nd_span_id = row_span_id row, nd_parent = row_parent row, nd_name = row_name row,
      nd_kind = row_kind row, nd_status = row_status row, nd_started_at = row_started_at row,
      nd_finished_at = row_finished_at row, nd_duration_ms = row_duration_ms row,
      nd_error_code = or_blank (row_error_code row),
      nd_error_message = or_blank (row_error_message row),
      nd_input = row_input row, nd_output = row_output row, nd_metadata = row_metadata row\<rparr>"

subsection \<open>The tree\<close>

text \<open>\<open>by_id\<close> keeps the last row of an id; \<open>child_ids\<close> and \<open>roots\<close> keep the row order.\<close>

definition by_id :: "span_row list \<Rightarrow> str \<rightharpoonup> span_row" where
  "by_id spans = fold (\<lambda>row m. m(row_span_id row \<mapsto> row)) spans Map.empty"

definition nested_under :: "span_row list \<Rightarrow> span_row \<Rightarrow> str option" where
  "nested_under spans row =
     (case row_parent row of
        None \<Rightarrow> None
      | Some parent \<Rightarrow> if parent \<noteq> [] \<and> by_id spans parent \<noteq> None then Some parent else None)"

definition child_ids :: "span_row list \<Rightarrow> str \<Rightarrow> str list" where
  "child_ids spans parent =
     map row_span_id (filter (\<lambda>row. nested_under spans row = Some parent) spans)"

definition root_ids :: "span_row list \<Rightarrow> str list" where
  "root_ids spans = map row_span_id (filter (\<lambda>row. nested_under spans row = None) spans)"

text \<open>The list comprehension over the children: ids already seen are skipped.\<close>

fun attach_list ::
  "(str \<Rightarrow> str set \<Rightarrow> (span_node \<times> str set) option) \<Rightarrow> str list \<Rightarrow> str set
     \<Rightarrow> (span_node list \<times> str set) option" where
  "attach_list f [] seen = Some ([], seen)"
| "attach_list f (c # cs) seen =
     (if c \<in> seen then attach_list f cs seen
      else case f c seen of
             None \<Rightarrow> None
           | Some (kid, seen1) \<Rightarrow>
               (case attach_list f cs seen1 of
                  None \<Rightarrow> None
                | Some (kids, seen2) \<Rightarrow> Some (kid # kids, seen2)))"

fun attach :: "span_row list \<Rightarrow> nat \<Rightarrow> str \<Rightarrow> str set \<Rightarrow> (span_node \<times> str set) option" where
  "attach spans 0 span_id seen = None"
| "attach spans (Suc n) span_id seen =
     (case attach_list (attach spans n) (child_ids spans span_id) (insert span_id seen) of
        None \<Rightarrow> None
      | Some (kids, seen1) \<Rightarrow>
          (case by_id spans span_id of
             None \<Rightarrow> None
           | Some row \<Rightarrow> Some (SpanNode (row_data row) kids, seen1)))"

definition preferred_root :: "span_row list \<Rightarrow> str list \<Rightarrow> str" where
  "preferred_root spans roots =
     (case find (\<lambda>row. row_kind row = SPAN_KIND_ROOT) spans of
        Some row \<Rightarrow> row_span_id row
      | None \<Rightarrow> hd roots)"

definition build_tree :: "span_row list \<Rightarrow> span_node option" where
  "build_tree spans =
     (let roots = root_ids spans; fuel = Suc (length spans)
      in if roots = [] then Some empty_trace
         else case attach spans fuel (preferred_root spans roots) {} of
           None \<Rightarrow> None
         | Some (tree, seen) \<Rightarrow>
             (case attach_list (attach spans fuel) roots seen of
                None \<Rightarrow> None
              | Some (extras, seen1) \<Rightarrow>
                  Some (if extras \<noteq> []
                        then SpanNode (node_data tree) (node_children tree @ extras)
                        else tree)))"

subsection \<open>Hints\<close>

definition current_stage :: "span_row list \<Rightarrow> str" where
  "current_stage spans =
     (case find (\<lambda>row. row_kind row = SPAN_KIND_STAGE \<and>
                       row_status row \<in> {SPAN_STATUS_RUNNING, SPAN_STATUS_PENDING}) spans of
        None \<Rightarrow> []
      | Some row \<Rightarrow> row_name row)"

definition error_instant :: "span_row \<Rightarrow> int" where
  "error_instant row = (case row_finished_at row of None \<Rightarrow> row_updated_at row | Some a \<Rightarrow> a)"

text \<open>Python's \<open>max\<close> with a key returns the first maximal element.\<close>

definition first_max :: "('a \<Rightarrow> int) \<Rightarrow> 'a list \<Rightarrow> 'a" where
  "first_max key xs = foldl (\<lambda>best x. if key best < key x then x else best) (hd xs) (tl xs)"

definition last_error :: "span_row list \<Rightarrow> span_last_error option" where
  "last_error spans =
     (let failed = filter (\<lambda>row. row_status row = SPAN_STATUS_FAILED) spans
      in if failed = [] then None
         else let row = first_max error_instant failed
              in Some \<lparr>le_name = row_name row, le_error_code = or_blank (row_error_code row),
                       le_error_message = or_blank (row_error_message row),
                       le_finished_at = row_finished_at row\<rparr>)"

definition spans_read_payload :: "str \<Rightarrow> str \<Rightarrow> span_progress option \<Rightarrow> spans_read option" where
  "spans_read_payload kid parse_status progress =
     (case progress of
        None \<Rightarrow>
          Some \<lparr>rd_knowledge_id = kid, rd_attempt = 0, rd_latest_attempt = 0,
                rd_current_attempt = 0, rd_parse_status = parse_status, rd_current_stage = [],
                rd_trace = empty_trace, rd_last_error = None\<rparr>
      | Some p \<Rightarrow>
          if pr_spans p = [] then
            Some \<lparr>rd_knowledge_id = kid, rd_attempt = pr_attempt p,
                  rd_latest_attempt = pr_latest_attempt p, rd_current_attempt = pr_attempt p,
                  rd_parse_status = parse_status, rd_current_stage = [],
                  rd_trace = empty_trace, rd_last_error = None\<rparr>
          else
            (case build_tree (pr_spans p) of
               None \<Rightarrow> None
             | Some tree \<Rightarrow>
                 Some \<lparr>rd_knowledge_id = kid, rd_attempt = pr_attempt p,
                       rd_latest_attempt = pr_latest_attempt p,
                       rd_current_attempt = pr_attempt p, rd_parse_status = parse_status,
                       rd_current_stage = current_stage (pr_spans p), rd_trace = tree,
                       rd_last_error = last_error (pr_spans p)\<rparr>))"

subsection \<open>Ids and edges of a tree\<close>

fun tree_ids :: "span_node \<Rightarrow> str list" where
  "tree_ids (SpanNode d kids) = nd_span_id d # concat (map tree_ids kids)"

fun tree_edges :: "span_node \<Rightarrow> (str \<times> str) list" where
  "tree_edges (SpanNode d kids) =
     map (\<lambda>k. (nd_span_id d, nd_span_id (node_data k))) kids @ concat (map tree_edges kids)"

abbreviation forest_ids :: "span_node list \<Rightarrow> str list" where
  "forest_ids kids \<equiv> concat (map tree_ids kids)"

definition child_edge :: "span_row list \<Rightarrow> (str \<times> str) set" where
  "child_edge spans = {(p, c). c \<in> set (child_ids spans p)}"

lemma by_id_id: "by_id spans sid = Some row \<Longrightarrow> row_span_id row = sid \<and> row \<in> set spans"
proof -
  have "fold (\<lambda>row m. m(row_span_id row \<mapsto> row)) spans m sid = Some row \<Longrightarrow>
      (row_span_id row = sid \<and> row \<in> set spans) \<or> m sid = Some row" for m
  proof (induction spans arbitrary: m)
    case Nil
    then show ?case by simp
  next
    case (Cons r rs)
    from Cons.IH [of "m(row_span_id r \<mapsto> r)"] Cons.prems show ?case by (auto split: if_splits)
  qed
  from this [of Map.empty] show "by_id spans sid = Some row \<Longrightarrow> ?thesis"
    by (simp add: by_id_def)
qed

lemma dom_by_id: "dom (by_id spans) = row_span_id ` set spans"
proof -
  have "dom (fold (\<lambda>row m. m(row_span_id row \<mapsto> row)) spans m) = dom m \<union> row_span_id ` set spans" for m
    by (induction spans arbitrary: m) auto
  from this [of Map.empty] show ?thesis by (simp add: by_id_def)
qed

lemma child_ids_dom: "c \<in> set (child_ids spans p) \<Longrightarrow> c \<in> dom (by_id spans)"
  by (auto simp: child_ids_def dom_by_id)

lemma node_id_in_tree_ids: "nd_span_id (node_data t) \<in> set (tree_ids t)"
  by (cases t) simp

subsection \<open>What a traversal does\<close>

text \<open>The ids a traversal has added: each once, all new, closed under children, and reachable.\<close>

definition visited ::
  "span_row list \<Rightarrow> str set \<Rightarrow> str set \<Rightarrow> str list \<Rightarrow> str set \<Rightarrow> bool" where
  "visited spans starts seen ids seen' \<longleftrightarrow>
     distinct ids \<and> set ids \<inter> seen = {} \<and> seen' = seen \<union> set ids \<and>
     (\<forall>x \<in> set ids. set (child_ids spans x) \<subseteq> seen') \<and>
     set ids \<subseteq> (child_edge spans)\<^sup>* `` starts"

lemma visitedD:
  assumes "visited spans starts seen ids seen'"
  shows "distinct ids" "set ids \<inter> seen = {}" "seen' = seen \<union> set ids"
    "\<forall>x \<in> set ids. set (child_ids spans x) \<subseteq> seen'" "set ids \<subseteq> (child_edge spans)\<^sup>* `` starts"
  using assms unfolding visited_def by iprover+

lemma visited_Nil: "visited spans starts seen [] seen"
  by (simp add: visited_def)

lemma visited_append:
  assumes "visited spans A seen xs seen1" and "visited spans B seen1 ys seen2"
  shows "visited spans (A \<union> B) seen (xs @ ys) seen2"
proof -
  note a = visitedD [OF assms(1)] and b = visitedD [OF assms(2)]
  show ?thesis
    unfolding visited_def
  proof (intro conjI ballI)
    show "distinct (xs @ ys)" "set (xs @ ys) \<inter> seen = {}" "seen2 = seen \<union> set (xs @ ys)"
      using a(1-3) b(1-3) by auto
    show "set (xs @ ys) \<subseteq> (child_edge spans)\<^sup>* `` (A \<union> B)" using a(5) b(5) by auto
  next
    fix x assume "x \<in> set (xs @ ys)"
    then show "set (child_ids spans x) \<subseteq> seen2" using a(4) b(3,4) by auto
  qed
qed

lemma visited_node:
  assumes "visited spans (set (child_ids spans s)) (insert s seen) ids seen1" and "s \<notin> seen"
    and "set (child_ids spans s) \<subseteq> seen1"
  shows "visited spans {s} seen (s # ids) seen1"
proof -
  have "(s, y) \<in> (child_edge spans)\<^sup>*" if "y \<in> set ids" for y
  proof -
    have "set ids \<subseteq> (child_edge spans)\<^sup>* `` set (child_ids spans s)"
      using assms(1) by (rule visitedD)
    then have "y \<in> (child_edge spans)\<^sup>* `` set (child_ids spans s)" using that by (rule subsetD)
    then obtain c where c: "c \<in> set (child_ids spans s)" "(c, y) \<in> (child_edge spans)\<^sup>*"
      by (rule ImageE)
    then have "(s, c) \<in> child_edge spans" by (simp add: child_edge_def)
    then show ?thesis using c(2) by (rule converse_rtrancl_into_rtrancl)
  qed
  then have r: "set (s # ids) \<subseteq> (child_edge spans)\<^sup>* `` {s}" by auto
  have v: "distinct ids" "set ids \<inter> insert s seen = {}" "seen1 = insert s seen \<union> set ids"
      "\<forall>x \<in> set ids. set (child_ids spans x) \<subseteq> seen1"
    using visitedD [OF assms(1)] by simp_all
  show ?thesis
    unfolding visited_def
  proof (intro conjI r)
    show "distinct (s # ids)" "set (s # ids) \<inter> seen = {}" "seen1 = seen \<union> set (s # ids)"
      using v(1-3) assms(2) by auto
    show "\<forall>x \<in> set (s # ids). set (child_ids spans x) \<subseteq> seen1" using v(4) assms(3) by simp
  qed
qed

definition attach_ok ::
  "span_row list \<Rightarrow> (str \<Rightarrow> str set \<Rightarrow> (span_node \<times> str set) option) \<Rightarrow> bool" where
  "attach_ok spans f \<longleftrightarrow> (\<forall>s seen node seen'. f s seen = Some (node, seen') \<and> s \<notin> seen \<longrightarrow>
     nd_span_id (node_data node) = s \<and> visited spans {s} seen (tree_ids node) seen' \<and>
     set (tree_edges node) \<subseteq> child_edge spans)"

lemma attach_okD:
  assumes "attach_ok spans f" and "f s seen = Some (node, seen')" and "s \<notin> seen"
  shows "nd_span_id (node_data node) = s" "visited spans {s} seen (tree_ids node) seen'"
    "set (tree_edges node) \<subseteq> child_edge spans"
  using assms unfolding attach_ok_def by blast+

lemma attach_list_visited:
  assumes ok: "attach_ok spans f" and e: "attach_list f cs seen = Some (kids, seen')"
  shows "visited spans (set cs) seen (forest_ids kids) seen' \<and> set cs \<subseteq> seen' \<and>
    (\<forall>k \<in> set kids. nd_span_id (node_data k) \<in> set cs \<and> set (tree_edges k) \<subseteq> child_edge spans)"
  using e
proof (induction cs arbitrary: seen kids)
  case Nil
  then show ?case by (simp add: visited_Nil)
next
  case (Cons c cs)
  show ?case
  proof (cases "c \<in> seen")
    case True
    then have "attach_list f cs seen = Some (kids, seen')" using Cons.prems by simp
    from Cons.IH [OF this] True show ?thesis
      using visited_append [OF visited_Nil [of spans "{c}" seen], of "set cs" "forest_ids kids" seen']
      by (auto simp: visited_def)
  next
    case False
    then obtain k seen1 ks where f: "f c seen = Some (k, seen1)" and
      r: "attach_list f cs seen1 = Some (ks, seen')" and kids: "kids = k # ks"
      using Cons.prems by (auto split: option.splits)
    note k = attach_okD [OF ok f False]
    note ih = Cons.IH [OF r]
    have "visited spans ({c} \<union> set cs) seen (tree_ids k @ forest_ids ks) seen'"
      by (rule visited_append [OF k(2)]) (use ih in blast)
    moreover have "c \<in> seen'"
      using k(1,2) ih node_id_in_tree_ids [of k] by (auto simp: visited_def)
    ultimately show ?thesis using k ih kids by auto
  qed
qed

lemma attach_visited: "attach_ok spans (attach spans n)"
proof (induction n)
  case 0
  then show ?case by (simp add: attach_ok_def)
next
  case (Suc n)
  show ?case
    unfolding attach_ok_def
  proof (intro allI impI, elim conjE)
    fix s seen node seen'
    assume e: "attach spans (Suc n) s seen = Some (node, seen')" and s: "s \<notin> seen"
    then obtain kids row where k: "attach_list (attach spans n) (child_ids spans s) (insert s seen) = Some (kids, seen')"
      and r: "by_id spans s = Some row" and node: "node = SpanNode (row_data row) kids"
      by (auto split: option.splits)
    have id: "nd_span_id (row_data row) = s" using by_id_id [OF r] by (simp add: row_data_def)
    note v = attach_list_visited [OF Suc.IH k]
    show "nd_span_id (node_data node) = s \<and> visited spans {s} seen (tree_ids node) seen' \<and>
        set (tree_edges node) \<subseteq> child_edge spans"
    proof (intro conjI)
      show "visited spans {s} seen (tree_ids node) seen'"
        using visited_node [of spans s seen "forest_ids kids" seen'] v s by (simp add: node id)
      show "set (tree_edges node) \<subseteq> child_edge spans"
        using v id by (auto simp: node child_edge_def)
    qed (simp add: node id)
  qed
qed

text \<open>The fuel: one unit per id not yet seen.\<close>

lemma attach_list_defined:
  assumes "\<And>s seen. seen0 \<subseteq> seen \<Longrightarrow> s \<in> dom (by_id spans) \<Longrightarrow> s \<notin> seen \<Longrightarrow> f s seen \<noteq> None"
    and "attach_ok spans f" and "set cs \<subseteq> dom (by_id spans)" and "seen0 \<subseteq> seen"
  shows "attach_list f cs seen \<noteq> None"
  using assms(3,4)
proof (induction cs arbitrary: seen)
  case Nil
  then show ?case by simp
next
  case (Cons c cs)
  show ?case
  proof (cases "c \<in> seen")
    case True
    then show ?thesis using Cons by simp
  next
    case False
    have "f c seen \<noteq> None" using Cons.prems False by (intro assms(1)) auto
    then obtain k seen1 where f: "f c seen = Some (k, seen1)" by auto
    have "seen0 \<subseteq> seen1" using attach_okD(2) [OF assms(2) f False] Cons.prems by (auto simp: visited_def)
    then show ?thesis using Cons False f by (auto split: option.splits)
  qed
qed

lemma attach_defined:
  "s \<in> dom (by_id spans) \<Longrightarrow> s \<notin> seen \<Longrightarrow> card (dom (by_id spans) - seen) < n \<Longrightarrow>
     attach spans n s seen \<noteq> None"
proof (induction n arbitrary: s seen)
  case 0
  then show ?case by simp
next
  case (Suc n)
  have fin: "finite (dom (by_id spans) - seen)" by (simp add: dom_by_id)
  have less: "card (dom (by_id spans) - insert s seen) < n"
  proof -
    have "dom (by_id spans) - insert s seen = (dom (by_id spans) - seen) - {s}" by auto
    moreover have "s \<in> dom (by_id spans) - seen" using Suc.prems by simp
    ultimately have "card (dom (by_id spans) - insert s seen) < card (dom (by_id spans) - seen)"
      using card_Diff1_less [OF fin] by simp
    then show ?thesis using Suc.prems(3) by simp
  qed
  have "attach_list (attach spans n) (child_ids spans s) (insert s seen) \<noteq> None"
  proof (rule attach_list_defined [OF _ attach_visited])
    fix q seen1 assume "insert s seen \<subseteq> seen1" "q \<in> dom (by_id spans)" "q \<notin> seen1"
    moreover from this have "card (dom (by_id spans) - seen1) \<le> card (dom (by_id spans) - insert s seen)"
      by (intro card_mono) (auto simp: dom_by_id)
    ultimately show "attach spans n q seen1 \<noteq> None" using less by (intro Suc.IH) auto
  qed (use child_ids_dom in auto)
  then show ?case using Suc.prems(1) by (auto split: option.splits)
qed

lemma attach_fuel:
  assumes "s \<in> dom (by_id spans)" and "s \<notin> seen"
  shows "attach spans (Suc (length spans)) s seen \<noteq> None"
proof (rule attach_defined [OF assms])
  have "card (dom (by_id spans) - seen) \<le> card (dom (by_id spans))"
    by (intro card_mono) (auto simp: dom_by_id)
  also have "\<dots> \<le> length spans"
    unfolding dom_by_id by (metis card_length length_map list.set_map)
  finally show "card (dom (by_id spans) - seen) < Suc (length spans)" by simp
qed

lemma preferred_root_dom: "root_ids spans \<noteq> [] \<Longrightarrow> preferred_root spans (root_ids spans) \<in> dom (by_id spans)"
proof -
  assume "root_ids spans \<noteq> []"
  then have "hd (root_ids spans) \<in> set (root_ids spans)" by simp
  then have "hd (root_ids spans) \<in> row_span_id ` set spans" by (auto simp: root_ids_def)
  then show ?thesis
    by (auto simp: preferred_root_def dom_by_id find_Some_iff split: option.split)
qed

lemma root_ids_dom: "set (root_ids spans) \<subseteq> dom (by_id spans)"
  by (auto simp: root_ids_def dom_by_id)

text \<open>The two phases of \<open>build_tree\<close>.\<close>

lemma build_tree_phases:
  assumes "root_ids spans \<noteq> []"
  defines "p \<equiv> preferred_root spans (root_ids spans)"
  obtains tree seen extras seen1 where
    "attach spans (Suc (length spans)) p {} = Some (tree, seen)"
    "attach_list (attach spans (Suc (length spans))) (root_ids spans) seen = Some (extras, seen1)"
    "build_tree spans = Some (SpanNode (node_data tree) (node_children tree @ extras))"
proof -
  obtain tree seen where a: "attach spans (Suc (length spans)) p {} = Some (tree, seen)"
    using attach_fuel [OF preferred_root_dom [OF assms(1)], of "{}"] p_def by fastforce
  have "attach_list (attach spans (Suc (length spans))) (root_ids spans) seen \<noteq> None"
    by (rule attach_list_defined [OF _ attach_visited root_ids_dom, of "{}"]) (use attach_fuel in auto)
  then obtain extras seen1 where
    b: "attach_list (attach spans (Suc (length spans))) (root_ids spans) seen = Some (extras, seen1)"
    by fastforce
  have "build_tree spans = Some (SpanNode (node_data tree) (node_children tree @ extras))"
    using a b assms(1) unfolding build_tree_def Let_def p_def by (cases tree) (simp del: attach.simps)
  with a b show ?thesis by (rule that)
qed

subsection \<open>Properties\<close>

lemma nested_under_dom: "nested_under spans row = Some q \<Longrightarrow> q \<in> dom (by_id spans)"
  by (auto simp: nested_under_def split: option.splits if_splits)

lemma finite_child_edge: "finite (child_edge spans)"
proof -
  have "child_edge spans \<subseteq> dom (by_id spans) \<times> dom (by_id spans)"
  proof
    fix e assume "e \<in> child_edge spans"
    then obtain q row where "row \<in> set spans" "nested_under spans row = Some q" "e = (q, row_span_id row)"
      by (auto simp: child_edge_def child_ids_def)
    then show "e \<in> dom (by_id spans) \<times> dom (by_id spans)"
      using nested_under_dom [of spans row q] by (simp add: dom_by_id)
  qed
  moreover have "finite (dom (by_id spans) \<times> dom (by_id spans))" by (simp add: dom_by_id)
  ultimately show ?thesis by (rule finite_subset)
qed

lemma reached_from_root:
  assumes "acyclic (child_edge spans)" and "s \<in> dom (by_id spans)"
  shows "s \<in> (child_edge spans)\<^sup>* `` set (root_ids spans)"
proof -
  have "wf (child_edge spans)" using finite_child_edge assms(1) by (rule finite_acyclic_wf)
  then show ?thesis using assms(2)
  proof (induction s rule: wf_induct_rule)
    case (less s)
    from less.prems obtain row where row: "row \<in> set spans" "row_span_id row = s" by (auto simp: dom_by_id)
    show ?case
    proof (cases "nested_under spans row")
      case None
      then show ?thesis using row by (auto simp: root_ids_def)
    next
      case (Some parent)
      then have e: "(parent, s) \<in> child_edge spans" using row by (auto simp: child_edge_def child_ids_def)
      moreover have "parent \<in> dom (by_id spans)"
        using Some by (auto simp: nested_under_def split: option.splits if_splits)
      ultimately have "parent \<in> (child_edge spans)\<^sup>* `` set (root_ids spans)" by (rule less.IH)
      then show ?thesis using e by (auto intro: rtrancl_into_rtrancl)
    qed
  qed
qed

text \<open>The timeline tree is built for every list of rows that has a root: each span id occurs in
  it once, the ids are exactly those below the chosen root or another root, and every node
  hangs under its own parent, except the further roots, which are put under the chosen one. If
  the parent links have no cycle, every row of the attempt is in the tree.\<close>

theorem build_tree_nests:
  assumes ne: "root_ids spans \<noteq> []"
  defines "p \<equiv> preferred_root spans (root_ids spans)"
  shows "\<exists>tree. build_tree spans = Some tree \<and> distinct (tree_ids tree) \<and>
    set (tree_ids tree) = (child_edge spans)\<^sup>* `` insert p (set (root_ids spans)) \<and>
    (\<forall>(a, c) \<in> set (tree_edges tree). (a, c) \<in> child_edge spans \<or> (a = p \<and> c \<in> set (root_ids spans))) \<and>
    (acyclic (child_edge spans) \<longrightarrow> set (tree_ids tree) = row_span_id ` set spans)"
proof -
  from build_tree_phases [OF ne] p_def obtain tree seen extras seen1 where
    a: "attach spans (Suc (length spans)) p {} = Some (tree, seen)" and
    b: "attach_list (attach spans (Suc (length spans))) (root_ids spans) seen = Some (extras, seen1)" and
    t: "build_tree spans = Some (SpanNode (node_data tree) (node_children tree @ extras))"
    by metis
  let ?t = "SpanNode (node_data tree) (node_children tree @ extras)"
  let ?reach = "(child_edge spans)\<^sup>* `` insert p (set (root_ids spans))"
  note va = attach_okD [OF attach_visited a, simplified]
  note vb = attach_list_visited [OF attach_visited b]
  have ids: "tree_ids ?t = tree_ids tree @ forest_ids extras" by (cases tree) simp
  have v: "visited spans (insert p (set (root_ids spans))) {} (tree_ids ?t) seen1"
    unfolding ids using visited_append [OF va(2)] vb by simp
  note v = visitedD [OF v]
  have seen1: "seen1 = set (tree_ids ?t)" using v(3) by simp
  have "p \<in> set (tree_ids ?t)" using va(1) node_id_in_tree_ids [of tree] by (simp add: ids)
  then have start: "insert p (set (root_ids spans)) \<subseteq> set (tree_ids ?t)" using vb seen1 by simp
  have closed: "child_edge spans `` set (tree_ids ?t) \<subseteq> set (tree_ids ?t)"
    using v(4) unfolding seen1 child_edge_def by blast
  have "y \<in> set (tree_ids ?t)" if "(x, y) \<in> (child_edge spans)\<^sup>*" "x \<in> set (tree_ids ?t)" for x y
    using that by (induction rule: rtrancl_induct) (use closed in blast)+
  then have reach: "set (tree_ids ?t) = ?reach" using v(5) start by blast
  have edges: "(a, c) \<in> child_edge spans \<or> (a = p \<and> c \<in> set (root_ids spans))"
    if "(a, c) \<in> set (tree_edges ?t)" for a c
    using that va(1,3) vb by (cases tree) (auto dest!: subsetD)
  have all: "set (tree_ids ?t) = row_span_id ` set spans" if "acyclic (child_edge spans)"
  proof
    show "set (tree_ids ?t) \<subseteq> row_span_id ` set spans"
    proof
      fix y assume "y \<in> set (tree_ids ?t)"
      then obtain x where x: "(x, y) \<in> (child_edge spans)\<^sup>*" "x \<in> insert p (set (root_ids spans))"
        using reach by blast
      from x(1) show "y \<in> row_span_id ` set spans"
      proof (cases rule: rtranclE)
        case base
        then show ?thesis
          using x(2) preferred_root_dom [OF ne] root_ids_dom [of spans] p_def dom_by_id [of spans] by auto
      next
        case (step z)
        then have "y \<in> set (child_ids spans z)" by (simp add: child_edge_def)
        then have "y \<in> dom (by_id spans)" by (rule child_ids_dom)
        then show ?thesis by (simp add: dom_by_id)
      qed
    qed
  next
    show "row_span_id ` set spans \<subseteq> set (tree_ids ?t)"
      unfolding reach using reached_from_root [OF that] dom_by_id [of spans] by blast
  qed
  have "\<forall>(a, c) \<in> set (tree_edges ?t). (a, c) \<in> child_edge spans \<or> (a = p \<and> c \<in> set (root_ids spans))"
    using edges by blast
  with t v(1) reach all show ?thesis by blast
qed

theorem build_tree_nests_witness:
  "map_option tree_ids (build_tree (db_rows (tr_store demo_embedding))) = Some [lit ''r'', lit ''c'', lit ''e''] \<and>
   set (the (map_option tree_ids (build_tree (db_rows (tr_store demo_embedding))))) =
     (child_edge (db_rows (tr_store demo_embedding)))\<^sup>* `` {lit ''r''}"
proof -
  let ?rows = "db_rows (tr_store demo_embedding)"
  have r: "root_ids ?rows = [lit ''r'']" "preferred_root ?rows [lit ''r''] = lit ''r''"
    by (simp_all add: root_ids_def nested_under_def by_id_def preferred_root_def demo_facts)
  have "map_option tree_ids (build_tree ?rows) = Some [lit ''r'', lit ''c'', lit ''e'']"
    by (simp add: build_tree_def Let_def r)
       (simp add: demo_facts child_ids_def nested_under_def by_id_def row_data_def)
  with build_tree_nests [of ?rows] r show ?thesis by auto
qed

lemma first_max_spec:
  "xs \<noteq> [] \<Longrightarrow> first_max key xs \<in> set xs \<and> (\<forall>x \<in> set xs. key x \<le> key (first_max key xs))"
proof -
  have f: "foldl (\<lambda>best x. if key best < key x then x else best) b ys \<in> insert b (set ys) \<and>
      (\<forall>x \<in> insert b (set ys). key x \<le> key (foldl (\<lambda>best x. if key best < key x then x else best) b ys))"
    for b and ys :: "'a list"
  proof (induction ys arbitrary: b)
    case Nil
    then show ?case by simp
  next
    case (Cons y ys)
    show ?case using Cons.IH [of "if key b < key y then y else b"] by (auto split: if_splits)
  qed
  assume "xs \<noteq> []"
  then have "insert (hd xs) (set (tl xs)) = set xs" by (cases xs) simp_all
  with f [of "hd xs" "tl xs"] show ?thesis unfolding first_max_def by simp
qed

text \<open>The timeline payload is defined for every progress: the recursion never runs out of fuel
  or misses an id, an attempt without rows shows the pending placeholder, and the error banner
  is that of a failed span that no other failed span finished after.\<close>

theorem spans_read_payload_total:
  "\<exists>r. spans_read_payload kid parse_status progress = Some r \<and>
    (case progress of
       None \<Rightarrow> rd_trace r = empty_trace \<and> rd_attempt r = 0 \<and> rd_last_error r = None
     | Some p \<Rightarrow> rd_attempt r = pr_attempt p \<and> rd_latest_attempt r = pr_latest_attempt p \<and>
         (case rd_last_error r of
            None \<Rightarrow> filter (\<lambda>row. row_status row = SPAN_STATUS_FAILED) (pr_spans p) = []
          | Some e \<Rightarrow> (\<exists>row \<in> set (pr_spans p). row_status row = SPAN_STATUS_FAILED \<and>
              le_name e = row_name row \<and> le_finished_at e = row_finished_at row \<and>
              (\<forall>q \<in> set (pr_spans p). row_status q = SPAN_STATUS_FAILED \<longrightarrow>
                 error_instant q \<le> error_instant row))))"
proof (cases progress)
  case None
  then show ?thesis by (simp add: spans_read_payload_def)
next
  case (Some p)
  have "build_tree (pr_spans p) \<noteq> None"
  proof (cases "root_ids (pr_spans p) = []")
    case True
    then show ?thesis by (simp add: build_tree_def)
  next
    case False
    then show ?thesis using build_tree_phases by (metis option.distinct(1))
  qed
  then obtain tree where t: "build_tree (pr_spans p) = Some tree" by auto
  let ?failed = "filter (\<lambda>row. row_status row = SPAN_STATUS_FAILED) (pr_spans p)"
  show ?thesis
  proof (cases "?failed = []")
    case True
    then show ?thesis using Some t by (simp add: spans_read_payload_def last_error_def Let_def)
  next
    case False
    then have "pr_spans p \<noteq> []" by auto
    then show ?thesis
      using Some t False first_max_spec [OF False, of error_instant]
      by (auto simp: spans_read_payload_def last_error_def Let_def
          intro!: bexI [of _ "first_max error_instant ?failed"])
  qed
qed

theorem spans_read_payload_total_witness:
  "\<exists>r. spans_read_payload (lit ''k'') (lit ''processing'') (Some \<lparr>pr_knowledge_id = lit ''k'', pr_attempt = 1,
      pr_latest_attempt = 1, pr_spans = db_rows (tr_store demo_embedding)\<rparr>) = Some r \<and> rd_attempt r = 1"
  using spans_read_payload_total [of "lit ''k''" "lit ''processing''" "Some \<lparr>pr_knowledge_id = lit ''k'',
      pr_attempt = 1, pr_latest_attempt = 1, pr_spans = db_rows (tr_store demo_embedding)\<rparr>"]
  by auto

end
