(* ===== verification/Access_Control.thy ===== *)
theory Access_Control
  imports KB_Prelude
begin

text \<open>
  Who may call what: the tenant role ladder and the API-key scopes of
  src/src/core/auth/permissions.py, the API-key gate with its route registry
  (src/src/web/middleware/api_key_gate.py) and the role guards of
  src/src/web/middleware/rbac.py. A guard returns \<open>Inr ()\<close> when the request may go on, the
  error otherwise; the guards also return the audit rows they hand to the audit service.
\<close>

subsection \<open>Roles\<close>

abbreviation "ROLE_OWNER \<equiv> lit ''owner''"
abbreviation "ROLE_ADMIN \<equiv> lit ''admin''"
abbreviation "ROLE_CONTRIBUTOR \<equiv> lit ''contributor''"
abbreviation "ROLE_VIEWER \<equiv> lit ''viewer''"

definition role_levels :: "(str \<times> int) list" where
  "role_levels = [(ROLE_OWNER, 40), (ROLE_ADMIN, 30), (ROLE_CONTRIBUTOR, 20), (ROLE_VIEWER, 10)]"

definition role_level :: "str \<Rightarrow> int" where
  "role_level role = (case map_of role_levels role of None \<Rightarrow> 0 | Some n \<Rightarrow> n)"

definition has_permission :: "str \<Rightarrow> str \<Rightarrow> bool" where
  "has_permission role required \<longleftrightarrow> role_level role \<ge> role_level required"

definition is_valid_role :: "str \<Rightarrow> bool" where
  "is_valid_role role \<longleftrightarrow> map_of role_levels role \<noteq> None"

lemma role_level_pos_iff: "0 < role_level role \<longleftrightarrow> is_valid_role role"
  by (auto simp: role_level_def is_valid_role_def role_levels_def)

subsection \<open>API-key scopes and route policies\<close>

abbreviation "SCOPE_TENANT \<equiv> lit ''tenant''"
abbreviation "SCOPE_PLATFORM \<equiv> lit ''platform''"

record api_key_scope =
  sc_key_id :: int
  sc_scope_type :: str
  sc_full_access :: bool
  sc_knowledge_base_ids :: "str list"
  sc_capabilities :: "str list"

definition is_platform :: "api_key_scope \<Rightarrow> bool" where
  "is_platform sc \<longleftrightarrow> sc_scope_type sc = SCOPE_PLATFORM"

definition has_capability :: "api_key_scope \<Rightarrow> str \<Rightarrow> bool" where
  "has_capability sc capability =
     (if capability = [] then False else capability \<in> set (sc_capabilities sc))"

definition is_knowledge_base_restricted :: "api_key_scope \<Rightarrow> bool" where
  "is_knowledge_base_restricted sc \<longleftrightarrow> length (sc_knowledge_base_ids sc) > 0"

record route_policy =
  pol_platform_only :: bool
  pol_require_full_access :: bool
  pol_capabilities :: "str list"

definition with_capability :: "route_policy \<Rightarrow> str \<Rightarrow> route_policy" where
  "with_capability pol capability =
     (if capability \<in> set (pol_capabilities pol) then pol
      else pol\<lparr>pol_capabilities := pol_capabilities pol @ [capability]\<rparr>)"

subsection \<open>The route registry\<close>

abbreviation "SLASH \<equiv> (of_char CHR ''/'' :: rune)"

function collapse_slashes :: "str \<Rightarrow> str" where
  "collapse_slashes path =
     (if contains_str [SLASH, SLASH] path
      then collapse_slashes (str_replace [SLASH, SLASH] [SLASH] path) else path)"
  by pat_completeness auto
termination
  by (relation "measure length") (auto intro: length_str_replace_less)

declare collapse_slashes.simps [simp del]

definition rstrip_slash :: "str \<Rightarrow> str" where
  "rstrip_slash path = rev (dropWhile (\<lambda>c. c = SLASH) (rev path))"

definition normalize_path :: "str \<Rightarrow> str" where
  "normalize_path path =
     (if path = [] then []
      else let p = collapse_slashes path in if 1 < length p then rstrip_slash p else p)"

type_synonym authorizer = "(str \<times> (str \<times> route_policy) list) list"

definition register_route :: "str \<Rightarrow> str \<Rightarrow> route_policy \<Rightarrow> authorizer \<Rightarrow> authorizer" where
  "register_route method path policy A =
     (let method_upper = strip (upper_ascii method);
          path_norm = normalize_path path;
          A' = (if map_of A method_upper = None then A @ [(method_upper, [])] else A);
          by_path = (case map_of A' method_upper of None \<Rightarrow> [] | Some m \<Rightarrow> m)
      in AList.update method_upper (AList.update path_norm policy by_path) A')"

definition lookup_route :: "str \<Rightarrow> str \<Rightarrow> authorizer \<Rightarrow> route_policy option" where
  "lookup_route method path A =
     (case map_of A (upper_ascii method) of
        None \<Rightarrow> None
      | Some by_path \<Rightarrow> map_of by_path (normalize_path path))"

definition registered_routes :: "authorizer \<Rightarrow> (str \<times> str list) list" where
  "registered_routes A = map (\<lambda>(method, by_path). (method, sort (map fst by_path))) A"

subsection \<open>The gate\<close>

definition authorize :: "api_key_scope \<Rightarrow> route_policy \<Rightarrow> app_error + unit" where
  "authorize sc pol =
     (if pol_platform_only pol \<and> \<not> is_platform sc
      then Inl (PermissionDeniedError (lit ''api_key.platform_only''))
      else if pol_platform_only pol \<and> pol_capabilities pol = []
      then Inl (PermissionDeniedError (lit ''api_key.platform_only_no_caps''))
      else if sc_full_access sc then Inr ()
      else if list_ex (has_capability sc) (pol_capabilities pol) then Inr ()
      else if \<not> pol_require_full_access pol \<and> pol_capabilities pol = [] then Inr ()
      else Inl (PermissionDeniedError (lit ''api_key.scope_forbidden'')))"

definition api_key_gate :: "authorizer \<Rightarrow> str \<Rightarrow> str \<Rightarrow> api_key_scope option \<Rightarrow> app_error + unit" where
  "api_key_gate A method path sco =
     (case sco of
        None \<Rightarrow> Inr ()
      | Some sc \<Rightarrow>
          (case lookup_route method path A of
             None \<Rightarrow> Inl (PermissionDeniedError (lit ''api_key.route_not_allowed''))
           | Some pol \<Rightarrow> authorize sc pol))"

subsection \<open>Role guards\<close>

text \<open>
  What the guards read from \<open>request.state\<close>; \<open>tenant_id\<close> is the raw value (absent, a number or
  a string, which \<open>digit\<close> helps to parse), \<open>user_info\<close> the id of an attached user.
\<close>

datatype raw_tenant = TenantAbsent | TenantInt int | TenantStr str

record request_state =
  rq_scope :: "api_key_scope option"
  rq_role :: "str option"
  rq_is_system_admin :: bool
  rq_user_info :: "str option option"
  rq_user_id :: "str option"
  rq_tenant_id :: raw_tenant
  rq_path :: str
  rq_method :: str

record denied_row =
  dn_tenant_id :: int
  dn_actor :: str
  dn_role :: str
  dn_path :: str
  dn_method :: str

datatype lookup_error = ResourceMissing | LookupFailed app_error

definition actor_user_id :: "request_state \<Rightarrow> str" where
  "actor_user_id rq =
     (case rq_user_info rq of
        Some info \<Rightarrow> (case info of None \<Rightarrow> [] | Some i \<Rightarrow> i)
      | None \<Rightarrow> (case rq_user_id rq of None \<Rightarrow> [] | Some i \<Rightarrow> i))"

definition request_tenant_id :: "(rune \<Rightarrow> int option) \<Rightarrow> request_state \<Rightarrow> int" where
  "request_tenant_id digit rq =
     (case rq_tenant_id rq of
        TenantAbsent \<Rightarrow> 0
      | TenantInt n \<Rightarrow> n
      | TenantStr s \<Rightarrow> if s = [] then 0 else (case py_int digit s of None \<Rightarrow> 0 | Some n \<Rightarrow> n))"

definition tenant_role :: "request_state \<Rightarrow> str" where
  "tenant_role rq = (case rq_role rq of None \<Rightarrow> [] | Some r \<Rightarrow> r)"

definition denied ::
  "(rune \<Rightarrow> int option) \<Rightarrow> bool \<Rightarrow> str \<Rightarrow> request_state \<Rightarrow> denied_row list" where
  "denied digit audit role rq =
     (if audit
      then [\<lparr>dn_tenant_id = request_tenant_id digit rq, dn_actor = actor_user_id rq, dn_role = role,
             dn_path = rq_path rq, dn_method = rq_method rq\<rparr>]
      else [])"

definition require_role ::
  "(rune \<Rightarrow> int option) \<Rightarrow> str \<Rightarrow> request_state \<Rightarrow> bool \<Rightarrow> (app_error + unit) \<times> denied_row list" where
  "require_role digit min_role rq audit =
     (if rq_scope rq \<noteq> None then (Inr (), [])
      else let role = tenant_role rq
           in if has_permission role min_role then (Inr (), [])
              else if rq_is_system_admin rq then (Inr (), [])
              else (Inl (PermissionDeniedError (lit ''rbac.insufficient_role'')),
                    denied digit audit role rq))"

definition require_system_admin ::
  "(rune \<Rightarrow> int option) \<Rightarrow> request_state \<Rightarrow> bool \<Rightarrow> (app_error + unit) \<times> denied_row list" where
  "require_system_admin digit rq audit =
     (case rq_scope rq of
        Some sc \<Rightarrow>
          if is_platform sc then (Inr (), [])
          else (Inl (PermissionDeniedError (lit ''rbac.api_key_not_system_admin'')), [])
      | None \<Rightarrow>
          if rq_is_system_admin rq then (Inr (), [])
          else (Inl (PermissionDeniedError (lit ''rbac.system_admin_required'')),
                denied digit audit (lit ''user'') rq))"

definition require_ownership_or_role ::
  "(rune \<Rightarrow> int option) \<Rightarrow> str \<Rightarrow> (request_state \<Rightarrow> str \<times> lookup_error option) \<Rightarrow> request_state
     \<Rightarrow> bool \<Rightarrow> (app_error + unit) \<times> denied_row list" where
  "require_ownership_or_role digit min_role lookup rq audit =
     (if rq_scope rq \<noteq> None then (Inr (), [])
      else let role = tenant_role rq
           in if has_permission role min_role then (Inr (), [])
              else if rq_is_system_admin rq then (Inr (), [])
              else case lookup rq of
                (creator_id, Some ResourceMissing) \<Rightarrow> (Inr (), [])
              | (creator_id, Some (LookupFailed e)) \<Rightarrow> (Inl e, [])
              | (creator_id, None) \<Rightarrow>
                  if creator_id \<noteq> [] \<and> creator_id = actor_user_id rq then (Inr (), [])
                  else (Inl (PermissionDeniedError (lit ''rbac.ownership_or_role_required'')),
                        denied digit audit role rq))"

subsection \<open>Paths\<close>

lemma collapse_no_double: "\<not> contains_str [SLASH, SLASH] (collapse_slashes path)"
proof (induction path rule: collapse_slashes.induct)
  case (1 path)
  then show ?case by (subst collapse_slashes.simps) auto
qed

lemma collapse_id: "\<not> contains_str [SLASH, SLASH] path \<Longrightarrow> collapse_slashes path = path"
  by (subst collapse_slashes.simps) simp

lemma contains_rstrip: "contains_str xs (rstrip_slash p) \<Longrightarrow> contains_str xs p"
proof -
  assume "contains_str xs (rstrip_slash p)"
  then obtain us vs where eq: "rstrip_slash p = us @ xs @ vs" by (auto simp: contains_str_iff)
  have "rev p = takeWhile (\<lambda>c. c = SLASH) (rev p) @ rev (rstrip_slash p)"
    by (simp add: rstrip_slash_def)
  then have "rev (rev p) = rev (takeWhile (\<lambda>c. c = SLASH) (rev p) @ rev (rstrip_slash p))" by (rule arg_cong)
  then have "p = us @ xs @ (vs @ rev (takeWhile (\<lambda>c. c = SLASH) (rev p)))"
    by (simp add: eq)
  then show ?thesis unfolding contains_str_iff by blast
qed

lemma rstrip_last: "rstrip_slash p \<noteq> [] \<Longrightarrow> last (rstrip_slash p) \<noteq> SLASH"
proof -
  let ?d = "dropWhile (\<lambda>c. c = SLASH) (rev p)"
  assume "rstrip_slash p \<noteq> []"
  then have d: "?d \<noteq> []" by (simp add: rstrip_slash_def)
  then have "hd ?d \<noteq> SLASH" by (rule hd_dropWhile)
  then show ?thesis unfolding rstrip_slash_def using d by (simp only: last_rev simp_thms)
qed

lemma rstrip_id: "p = [] \<or> last p \<noteq> SLASH \<Longrightarrow> rstrip_slash p = p"
  by (cases p rule: rev_cases) (auto simp: rstrip_slash_def)

lemma rstrip_nonempty:
  assumes "\<not> contains_str [SLASH, SLASH] p" and "1 < length p"
  shows "rstrip_slash p \<noteq> []"
proof
  assume "rstrip_slash p = []"
  then have all: "\<forall>c \<in> set p. c = SLASH" by (simp add: rstrip_slash_def dropWhile_eq_Nil_conv)
  from assms(2) obtain a b q where p: "p = a # b # q" by (cases p; cases "tl p") auto
  then have "a = SLASH" "b = SLASH" using all by auto
  then have "starts_with [SLASH, SLASH] p" using p by simp
  then show False using assms(1) p by simp
qed

lemma normalize_canonical:
  "\<not> contains_str [SLASH, SLASH] (normalize_path path) \<and>
   (length (normalize_path path) \<le> 1 \<or> last (normalize_path path) \<noteq> SLASH)"
proof (cases "path = []")
  case True
  then show ?thesis by (simp add: normalize_path_def)
next
  case False
  let ?p = "collapse_slashes path"
  show ?thesis
  proof (cases "1 < length ?p")
    case True
    then have "rstrip_slash ?p \<noteq> []" using rstrip_nonempty collapse_no_double by blast
    then show ?thesis
      using True False collapse_no_double [of path] contains_rstrip [of "[SLASH, SLASH]" ?p] rstrip_last [of ?p]
      by (auto simp: normalize_path_def)
  next
    case False
    then show ?thesis using \<open>path \<noteq> []\<close> collapse_no_double [of path] by (simp add: normalize_path_def Let_def)
  qed
qed

lemma normalize_id:
  "\<not> contains_str [SLASH, SLASH] p \<Longrightarrow> length p \<le> 1 \<or> last p \<noteq> SLASH \<Longrightarrow> normalize_path p = p"
  by (auto simp: normalize_path_def collapse_id rstrip_id Let_def)

subsection \<open>Properties\<close>

text \<open>Path normalization is a canonical form: the result has no doubled slash and, unless it is a
  single character, no trailing one; a path in that form is unchanged, so normalizing twice is
  normalizing once.\<close>

theorem normalize_path_canonical:
  "\<not> contains_str [SLASH, SLASH] (normalize_path path) \<and>
   (length (normalize_path path) \<le> 1 \<or> last (normalize_path path) \<noteq> SLASH) \<and>
   normalize_path (normalize_path path) = normalize_path path \<and>
   (normalize_path path = path \<longleftrightarrow>
      \<not> contains_str [SLASH, SLASH] path \<and> (length path \<le> 1 \<or> last path \<noteq> SLASH))"
  using normalize_canonical [of path] normalize_id [of "normalize_path path"] normalize_id [of path] by metis

theorem normalize_path_canonical_witness:
  "normalize_path (lit ''/api//v1/'') = lit ''/api/v1'' \<and>
   normalize_path (normalize_path (lit ''/api//v1/'')) = normalize_path (lit ''/api//v1/'')"
proof
  show "normalize_path (lit ''/api//v1/'') = lit ''/api/v1''" by code_simp
  show "normalize_path (normalize_path (lit ''/api//v1/'')) = normalize_path (lit ''/api//v1/'')"
    using normalize_path_canonical [of "lit ''/api//v1/''"] by simp
qed


definition demo_scope :: api_key_scope where
  "demo_scope = \<lparr>sc_key_id = 1, sc_scope_type = SCOPE_TENANT, sc_full_access = False,
     sc_knowledge_base_ids = [], sc_capabilities = [lit ''chat'']\<rparr>"

definition open_policy :: route_policy where
  "open_policy = \<lparr>pol_platform_only = False, pol_require_full_access = False, pol_capabilities = []\<rparr>"


text \<open>\<open>with_capability\<close> lets every key with the capability through unless the route is platform
  only, and keeps admitting the keys it admitted before if the route listed a capability or
  required full access. On a route open to every key it narrows access instead: afterwards only
  full-access keys and keys with the capability pass.\<close>

theorem with_capability_effect:
  assumes "cap \<noteq> []" and "\<not> pol_platform_only pol"
  shows "(cap \<in> set (sc_capabilities sc) \<longrightarrow> authorize sc (with_capability pol cap) = Inr ()) \<and>
    (pol_capabilities pol \<noteq> [] \<or> pol_require_full_access pol \<longrightarrow>
       authorize sc pol = Inr () \<longrightarrow> authorize sc (with_capability pol cap) = Inr ()) \<and>
    (pol_capabilities pol = [] \<and> \<not> pol_require_full_access pol \<longrightarrow>
       authorize sc pol = Inr () \<and>
       (authorize sc (with_capability pol cap) = Inr () \<longleftrightarrow>
          sc_full_access sc \<or> cap \<in> set (sc_capabilities sc)))"
  using assms by (auto simp: authorize_def with_capability_def has_capability_def list_ex_iff)

theorem with_capability_effect_witness:
  "authorize demo_scope open_policy = Inr () \<and>
   authorize demo_scope (with_capability open_policy (lit ''ingest'')) \<noteq> Inr ()"
  using with_capability_effect [of "lit ''ingest''" open_policy demo_scope]
  by (simp add: open_policy_def demo_scope_def)

lemma map_of_append_new:
  "map_of A m = None \<Longrightarrow> map_of (A @ [(m, v)]) k = (if k = m then Some v else map_of A k)"
  by (induction A) (auto split: if_splits)

text \<open>The registry finds what was registered, and nothing else changes: after registering a policy,
  a lookup gives it exactly for the same method and the same normalized path, any other lookup
  is as before. A route without a policy is denied to every API key, and as the gate looks up
  the concrete URL, a policy registered under a template with a parameter is not found for a
  URL of that route.\<close>

theorem register_lookup_route:
  "lookup_route m' p' (register_route m p pol A) =
     (if upper_ascii m' = strip (upper_ascii m) \<and> normalize_path p' = normalize_path p then Some pol
      else lookup_route m' p' A) \<and>
   (lookup_route m' p' A = None \<longleftrightarrow>
      (\<forall>sc. api_key_gate A m' p' (Some sc) = Inl (PermissionDeniedError (lit ''api_key.route_not_allowed'')))) \<and>
   (\<forall>sc. api_key_gate (register_route (lit ''GET'') (lit ''/kb/{id}'') pol []) (lit ''GET'') (lit ''/kb/7'') (Some sc) =
      Inl (PermissionDeniedError (lit ''api_key.route_not_allowed'')))"
proof (intro conjI allI)
  show reg: "lookup_route m' p' (register_route m p pol A) =
     (if upper_ascii m' = strip (upper_ascii m) \<and> normalize_path p' = normalize_path p then Some pol
      else lookup_route m' p' A)" for m' p' m p pol A
    by (auto simp: lookup_route_def register_route_def Let_def update_conv' map_of_append_new split: option.splits)
  have "authorize sc pol \<noteq> Inl (PermissionDeniedError (lit ''api_key.route_not_allowed''))" for sc pol
    by (simp add: authorize_def)
  then show "lookup_route m' p' A = None \<longleftrightarrow>
      (\<forall>sc. api_key_gate A m' p' (Some sc) = Inl (PermissionDeniedError (lit ''api_key.route_not_allowed'')))"
    by (simp add: api_key_gate_def split: option.split)
  have "normalize_path (lit ''/kb/7'') \<noteq> normalize_path (lit ''/kb/{id}'')" by code_simp
  then have "lookup_route (lit ''GET'') (lit ''/kb/7'') (register_route (lit ''GET'') (lit ''/kb/{id}'') pol []) = None"
    unfolding reg by (simp add: lookup_route_def)
  then show "api_key_gate (register_route (lit ''GET'') (lit ''/kb/{id}'') pol []) (lit ''GET'') (lit ''/kb/7'') (Some sc) =
      Inl (PermissionDeniedError (lit ''api_key.route_not_allowed''))" for sc
    by (simp add: api_key_gate_def)
qed

text \<open>The role guards: a user (not an API key) passes a valid minimum role exactly when the role
  is high enough or the user is a system administrator; the ownership guard also lets the
  creator and a missing resource through. A refused request leaves exactly one audit row when
  the audit service is there, an admitted one none; no enforcement switch is consulted.\<close>

theorem role_guards:
  assumes "rq_scope rq = None" and "is_valid_role min_role"
  shows "(fst (require_role digit min_role rq audit) = Inr () \<longleftrightarrow>
      (is_valid_role (tenant_role rq) \<and> role_level min_role \<le> role_level (tenant_role rq)) \<or> rq_is_system_admin rq) \<and>
    (fst (require_ownership_or_role digit min_role lookup rq audit) = Inr () \<longleftrightarrow>
      fst (require_role digit min_role rq audit) = Inr () \<or>
      snd (lookup rq) = Some ResourceMissing \<or>
      (snd (lookup rq) = None \<and> fst (lookup rq) \<noteq> [] \<and> fst (lookup rq) = actor_user_id rq)) \<and>
    length (snd (require_role digit min_role rq audit)) =
      (if audit \<and> isl (fst (require_role digit min_role rq audit)) then 1 else 0)"
proof -
  have "is_valid_role (tenant_role rq)" if "role_level min_role \<le> role_level (tenant_role rq)"
    using that assms(2) role_level_pos_iff [of min_role] role_level_pos_iff [of "tenant_role rq"] by linarith
  then show ?thesis
    using assms
    by (auto simp: require_role_def require_ownership_or_role_def has_permission_def denied_def Let_def
        split: prod.splits option.splits lookup_error.splits)
qed

definition demo_request :: request_state where
  "demo_request = \<lparr>rq_scope = None, rq_role = Some ROLE_VIEWER, rq_is_system_admin = False,
     rq_user_info = None, rq_user_id = Some (lit ''u''), rq_tenant_id = TenantInt 7, rq_path = lit ''/kb'',
     rq_method = lit ''PUT''\<rparr>"

theorem role_guards_witness:
  "fst (require_role (\<lambda>_. None) ROLE_CONTRIBUTOR demo_request True) \<noteq> Inr () \<and>
   fst (require_ownership_or_role (\<lambda>_. None) ROLE_CONTRIBUTOR (\<lambda>_. (lit ''u'', None)) demo_request True) = Inr ()"
proof -
  have v: "rq_scope demo_request = None" "is_valid_role ROLE_CONTRIBUTOR"
    by (simp_all add: demo_request_def is_valid_role_def role_levels_def)
  have "\<not> role_level ROLE_CONTRIBUTOR \<le> role_level (tenant_role demo_request)"
    "\<not> rq_is_system_admin demo_request" "actor_user_id demo_request = lit ''u''"
    by (simp_all add: demo_request_def tenant_role_def role_level_def role_levels_def actor_user_id_def)
  then show ?thesis
    using role_guards [OF v, of "\<lambda>_. None" True "\<lambda>_. (lit ''u'', None)"] by simp
qed

end
