(* ===== verification/Tags.thy ===== *)
theory Tags
  imports KB_Prelude
begin

text \<open>
  Knowledge tags: the tables \<open>tags\<close> and \<open>document_tags\<close> with the SQL of
  src/src/db/dao/knowledge_tag_repository.py, and the service of
  src/src/core/knowledge/tags/service/tag_service.py. The unique constraints of the tables are
  part of the model: a statement that breaks one fails and changes nothing. Other database
  failures and column widths are not modelled. The documents and chunks that reference a tag
  are owned by other components; the state holds the columns the counts read.
\<close>

subsection \<open>Tables\<close>

record tag_row =
  tg_id :: str
  tg_seq_id :: int
  tg_tenant_id :: int
  tg_knowledge_base_id :: str
  tg_name :: str
  tg_color :: "str option"
  tg_sort_order :: int
  tg_created_at :: int
  tg_updated_at :: int

record doc_ref =
  dr_id :: str
  dr_tenant_id :: int
  dr_knowledge_base_id :: str
  dr_deleted :: bool

record chunk_ref =
  cr_tenant_id :: int
  cr_knowledge_base_id :: str
  cr_tag_id :: "str option"
  cr_deleted :: bool

record tags_db =
  tb_tags :: "tag_row list"
  tb_next_seq :: int
  tb_bindings :: "(str \<times> str) list"
  tb_documents :: "doc_ref list"
  tb_chunks :: "chunk_ref list"

type_synonym 'a tag_op = "tags_db \<Rightarrow> (app_error + 'a) \<times> tags_db"

definition tag_name_key :: "tag_row \<Rightarrow> int \<times> str \<times> str" where
  "tag_name_key r = (tg_tenant_id r, tg_knowledge_base_id r, tg_name r)"

subsection \<open>LIKE\<close>

abbreviation "BACKSLASH \<equiv> (of_char CHR 0x5C :: rune)"
abbreviation "PERCENT \<equiv> (of_char CHR ''%'' :: rune)"
abbreviation "UNDERSCORE \<equiv> (of_char CHR ''_'' :: rune)"

definition escape_like_pattern :: "str \<Rightarrow> str" where
  "escape_like_pattern term =
     fold (\<lambda>c escaped. str_replace [c] [BACKSLASH, c] escaped) [BACKSLASH, PERCENT, UNDERSCORE] term"

text \<open>SQL's \<open>s LIKE p ESCAPE '\'\<close>.\<close>

fun sql_like :: "str \<Rightarrow> str \<Rightarrow> bool" where
  "sql_like [] s = (s = [])"
| "sql_like (p # ps) [] = (p = PERCENT \<and> sql_like ps [])"
| "sql_like (p # ps) (c # cs) =
     (if p = PERCENT then sql_like ps (c # cs) \<or> sql_like (p # ps) cs
      else if p = UNDERSCORE then sql_like ps cs
      else if p = BACKSLASH
      then (case ps of [] \<Rightarrow> c = p \<and> cs = [] | q # qs \<Rightarrow> c = q \<and> sql_like qs cs)
      else c = p \<and> sql_like ps cs)"

subsection \<open>Repository\<close>

definition tag_create :: "tag_row \<Rightarrow> tag_row tag_op" where
  "tag_create row d =
     (let row' = row\<lparr>tg_seq_id := tb_next_seq d\<rparr>;
          d' = d\<lparr>tb_next_seq := tb_next_seq d + 1\<rparr>
      in if list_ex (\<lambda>r. tg_id r = tg_id row \<or> tag_name_key r = tag_name_key row) (tb_tags d)
         then (Inl BackendError, d')
         else (Inr row', d'\<lparr>tb_tags := tb_tags d @ [row']\<rparr>))"

text \<open>The columns \<open>update\<close> sets; the others are immutable.\<close>

definition set_mutable :: "tag_row \<Rightarrow> tag_row \<Rightarrow> tag_row" where
  "set_mutable new old =
     old\<lparr>tg_name := tg_name new, tg_color := tg_color new, tg_sort_order := tg_sort_order new,
         tg_updated_at := tg_updated_at new\<rparr>"

definition tag_update :: "tag_row \<Rightarrow> tag_row tag_op" where
  "tag_update row d =
     (case find (\<lambda>r. tg_id r = tg_id row) (tb_tags d) of
        None \<Rightarrow> (Inl (DataError (lit ''tag.update_no_row'')), d)
      | Some old \<Rightarrow>
          let new = set_mutable row old
          in if list_ex (\<lambda>r. tg_id r \<noteq> tg_id row \<and> tag_name_key r = tag_name_key new) (tb_tags d)
             then (Inl BackendError, d)
             else (Inr new, d\<lparr>tb_tags := map (\<lambda>r. if tg_id r = tg_id row then set_mutable row r else r)
                                            (tb_tags d)\<rparr>))"

definition tag_get_by_id :: "int \<Rightarrow> str \<Rightarrow> tags_db \<Rightarrow> tag_row option" where
  "tag_get_by_id tenant tid d = find (\<lambda>r. tg_id r = tid \<and> tg_tenant_id r = tenant) (tb_tags d)"

definition tag_get_by_ids :: "int \<Rightarrow> str list \<Rightarrow> tags_db \<Rightarrow> tag_row list" where
  "tag_get_by_ids tenant ids d =
     (if ids = [] then []
      else filter (\<lambda>r. tg_tenant_id r = tenant \<and> tg_id r \<in> set ids) (tb_tags d))"

definition tag_get_by_seq_id :: "int \<Rightarrow> int \<Rightarrow> tags_db \<Rightarrow> tag_row option" where
  "tag_get_by_seq_id tenant seq d =
     find (\<lambda>r. tg_seq_id r = seq \<and> tg_tenant_id r = tenant) (tb_tags d)"

definition tag_get_by_seq_ids :: "int \<Rightarrow> int list \<Rightarrow> tags_db \<Rightarrow> tag_row list" where
  "tag_get_by_seq_ids tenant seqs d =
     (if seqs = [] then []
      else filter (\<lambda>r. tg_tenant_id r = tenant \<and> tg_seq_id r \<in> set seqs) (tb_tags d))"

definition tag_get_by_name :: "int \<Rightarrow> str \<Rightarrow> str \<Rightarrow> tags_db \<Rightarrow> tag_row option" where
  "tag_get_by_name tenant kb name d = find (\<lambda>r. tag_name_key r = (tenant, kb, name)) (tb_tags d)"

text \<open>\<open>order by sort_order asc, created_at desc, seq_id desc\<close>, then \<open>limit\<close> and \<open>offset\<close>, which the
  database refuses when negative.\<close>

definition tag_list_by_kb :: "int \<Rightarrow> str \<Rightarrow> int \<Rightarrow> int \<Rightarrow> str \<Rightarrow> tags_db \<Rightarrow> app_error + (tag_row list \<times> int)" where
  "tag_list_by_kb tenant kb page page_size keyword0 d =
     (let keyword = strip keyword0;
          matching = filter (\<lambda>r. tg_tenant_id r = tenant \<and> tg_knowledge_base_id r = kb \<and>
            (keyword = [] \<or> sql_like ([PERCENT] @ escape_like_pattern keyword @ [PERCENT]) (tg_name r)))
            (tb_tags d);
          ordered = sort_key (\<lambda>r. (tg_sort_order r, - tg_created_at r, - tg_seq_id r)) matching;
          offset = (page - 1) * page_size
      in if offset < 0 \<or> page_size < 0 then Inl BackendError
         else Inr (take (nat page_size) (drop (nat offset) ordered), int (length matching)))"

definition tag_delete :: "int \<Rightarrow> str \<Rightarrow> tags_db \<Rightarrow> bool \<times> tags_db" where
  "tag_delete tenant tid d =
     (list_ex (\<lambda>r. tg_tenant_id r = tenant \<and> tg_id r = tid) (tb_tags d),
      d\<lparr>tb_tags := filter (\<lambda>r. \<not> (tg_tenant_id r = tenant \<and> tg_id r = tid)) (tb_tags d)\<rparr>)"

definition count_documents :: "int \<Rightarrow> str \<Rightarrow> str \<Rightarrow> tags_db \<Rightarrow> int" where
  "count_documents tenant kb tid d =
     int (length (filter (\<lambda>(b, doc). snd b = tid \<and> fst b = dr_id doc \<and> \<not> dr_deleted doc \<and>
        dr_tenant_id doc = tenant \<and> dr_knowledge_base_id doc = kb)
        (List.product (tb_bindings d) (tb_documents d))))"

definition count_chunks :: "int \<Rightarrow> str \<Rightarrow> str \<Rightarrow> tags_db \<Rightarrow> int" where
  "count_chunks tenant kb tid d =
     int (length (filter (\<lambda>c. cr_tenant_id c = tenant \<and> cr_knowledge_base_id c = kb \<and>
        cr_tag_id c = Some tid \<and> \<not> cr_deleted c) (tb_chunks d)))"

definition count_references :: "int \<Rightarrow> str \<Rightarrow> str \<Rightarrow> tags_db \<Rightarrow> int \<times> int" where
  "count_references tenant kb tid d = (count_documents tenant kb tid d, count_chunks tenant kb tid d)"

text \<open>The grouped counts: every requested id is present, zero without references.\<close>

definition batch_count_references :: "int \<Rightarrow> str \<Rightarrow> str list \<Rightarrow> tags_db \<Rightarrow> str \<rightharpoonup> int \<times> int" where
  "batch_count_references tenant kb ids d tid =
     (if tid \<in> set ids then Some (count_documents tenant kb tid d, count_chunks tenant kb tid d) else None)"

definition repo_set_knowledge_tags :: "str \<Rightarrow> str list \<Rightarrow> tags_db \<Rightarrow> tags_db" where
  "repo_set_knowledge_tags kid tag_ids d =
     (let remaining = filter (\<lambda>b. fst b \<noteq> kid) (tb_bindings d);
          unique_ids = dedup_non_empty_strings tag_ids
      in if unique_ids = [] then d\<lparr>tb_bindings := remaining\<rparr>
         else d\<lparr>tb_bindings := remaining @ map (\<lambda>t. (kid, t)) unique_ids\<rparr>)"

text \<open>The join of the bindings with the tags, for one document, in binding order.\<close>

definition tags_of :: "tags_db \<Rightarrow> str \<Rightarrow> tag_row list" where
  "tags_of d kid = List.map_filter (\<lambda>b. if fst b = kid then find (\<lambda>r. tg_id r = snd b) (tb_tags d) else None)
     (tb_bindings d)"

definition repo_get_knowledge_tags :: "str list \<Rightarrow> tags_db \<Rightarrow> str \<rightharpoonup> tag_row list" where
  "repo_get_knowledge_tags ids d kid =
     (if ids = [] \<or> kid \<notin> set ids \<or> tags_of d kid = [] then None else Some (tags_of d kid))"

definition repo_delete_knowledge_tag_relations :: "str \<Rightarrow> tags_db \<Rightarrow> int \<times> tags_db" where
  "repo_delete_knowledge_tag_relations kid d =
     (int (length (filter (\<lambda>b. fst b = kid) (tb_bindings d))),
      d\<lparr>tb_bindings := filter (\<lambda>b. fst b \<noteq> kid) (tb_bindings d)\<rparr>)"

subsection \<open>Service\<close>

text \<open>
  The service over the repository. \<open>kb_repo\<close> is the optional knowledge-base repository: which
  knowledge bases a tenant owns. The instant \<open>now\<close> and the drawn id \<open>new_id\<close> are arguments.
\<close>

type_synonym kb_repo = "(str \<Rightarrow> int \<Rightarrow> bool) option"

definition UNTAGGED_TAG_NAME :: str where
  "UNTAGGED_TAG_NAME = [0x672A, 0x5206, 0x7C7B]"

record tag_info =
  ti_row :: tag_row
  ti_knowledge_count :: int
  ti_chunk_count :: int

definition map_from_db :: "tag_row \<Rightarrow> int \<Rightarrow> int \<Rightarrow> tag_info" where
  "map_from_db row kc cc = \<lparr>ti_row = row, ti_knowledge_count = kc, ti_chunk_count = cc\<rparr>"

definition require_create_scope :: "str \<Rightarrow> str \<Rightarrow> app_error + str" where
  "require_create_scope kb name =
     (let clean_name = strip name
      in if kb = [] \<or> clean_name = []
         then Inl (ValidationError (lit ''tag.kb_id_and_name_required'')) else Inr clean_name)"

definition require_kb :: "kb_repo \<Rightarrow> int \<Rightarrow> str \<Rightarrow> app_error + unit" where
  "require_kb kbs tenant kb =
     (case kbs of
        None \<Rightarrow> Inr ()
      | Some owned \<Rightarrow> if owned kb tenant then Inr () else Inl (NotFoundError (lit ''tag.kb_not_found'')))"

definition get_owned_tag :: "int \<Rightarrow> str \<Rightarrow> tags_db \<Rightarrow> app_error + tag_row" where
  "get_owned_tag tenant tid d =
     (case tag_get_by_id tenant tid d of
        None \<Rightarrow> Inl (NotFoundError (lit ''tag.not_found''))
      | Some row \<Rightarrow> Inr row)"

record tag_page =
  tp_total :: int
  tp_page :: int
  tp_page_size :: int
  tp_data :: "tag_info list"

definition list_tags :: "kb_repo \<Rightarrow> int \<Rightarrow> str \<Rightarrow> int \<Rightarrow> int \<Rightarrow> str \<Rightarrow> tags_db \<Rightarrow> app_error + tag_page" where
  "list_tags kbs tenant kb page page_size keyword d =
     (if kb = [] then Inl (ValidationError (lit ''tag.kb_id_required''))
      else case require_kb kbs tenant kb of
        Inl e \<Rightarrow> Inl e
      | Inr u \<Rightarrow>
          (case tag_list_by_kb tenant kb page page_size keyword d of
             Inl e \<Rightarrow> Inl e
           | Inr (rows, n) \<Rightarrow>
               if rows = []
               then Inr \<lparr>tp_total = n, tp_page = page, tp_page_size = page_size, tp_data = []\<rparr>
               else let counts = batch_count_references tenant kb (map tg_id rows) d
                    in Inr \<lparr>tp_total = n, tp_page = page, tp_page_size = page_size,
                            tp_data = map (\<lambda>row. map_from_db row (fst (the (counts (tg_id row))))
                                                    (snd (the (counts (tg_id row))))) rows\<rparr>))"

definition create_tag ::
  "kb_repo \<Rightarrow> int \<Rightarrow> str \<Rightarrow> str \<Rightarrow> str option \<Rightarrow> int \<Rightarrow> int \<Rightarrow> str \<Rightarrow> tag_info tag_op" where
  "create_tag kbs tenant kb name color sort_order now new_id d =
     (case require_create_scope kb name of
        Inl e \<Rightarrow> (Inl e, d)
      | Inr clean_name \<Rightarrow>
          (case require_kb kbs tenant kb of
             Inl e \<Rightarrow> (Inl e, d)
           | Inr u \<Rightarrow>
               (case tag_get_by_name tenant kb clean_name d of
                  Some existing \<Rightarrow> (Inl (ConflictError (lit ''tag.name_conflict'')), d)
                | None \<Rightarrow>
                    let row = \<lparr>tg_id = new_id, tg_seq_id = 0, tg_tenant_id = tenant,
                               tg_knowledge_base_id = kb, tg_name = clean_name,
                               tg_color = map_option strip color,
                               tg_sort_order = (if clean_name = UNTAGGED_TAG_NAME then - 1 else sort_order),
                               tg_created_at = now, tg_updated_at = now\<rparr>
                    in case tag_create row d of
                         (Inl e, d') \<Rightarrow> (Inl e, d')
                       | (Inr persisted, d') \<Rightarrow> (Inr (map_from_db persisted 0 0), d'))))"

definition find_or_create_tag_by_name ::
  "kb_repo \<Rightarrow> int \<Rightarrow> str \<Rightarrow> str \<Rightarrow> int \<Rightarrow> str \<Rightarrow> tag_info tag_op" where
  "find_or_create_tag_by_name kbs tenant kb name now new_id d =
     (case require_create_scope kb name of
        Inl e \<Rightarrow> (Inl e, d)
      | Inr clean_name \<Rightarrow>
          (case require_kb kbs tenant kb of
             Inl e \<Rightarrow> (Inl e, d)
           | Inr u \<Rightarrow>
               (case tag_get_by_name tenant kb clean_name d of
                  Some existing \<Rightarrow> (Inr (map_from_db existing 0 0), d)
                | None \<Rightarrow> create_tag kbs tenant kb clean_name (Some []) 0 now new_id d)))"

definition update_tag ::
  "int \<Rightarrow> str \<Rightarrow> str option \<Rightarrow> str option \<Rightarrow> int option \<Rightarrow> int \<Rightarrow> tag_info tag_op" where
  "update_tag tenant tid name color sort_order now d =
     (if tid = [] then (Inl (ValidationError (lit ''tag.tag_id_required'')), d)
      else case get_owned_tag tenant tid d of
        Inl e \<Rightarrow> (Inl e, d)
      | Inr row \<Rightarrow>
          if (case name of None \<Rightarrow> False | Some n \<Rightarrow> strip n = [])
          then (Inl (ValidationError (lit ''tag.name_required'')), d)
          else let updated = row\<lparr>tg_updated_at := now,
                     tg_name := (case name of None \<Rightarrow> tg_name row | Some n \<Rightarrow> strip n),
                     tg_color := (case color of None \<Rightarrow> tg_color row | Some c \<Rightarrow> Some (strip c)),
                     tg_sort_order := (case sort_order of None \<Rightarrow> tg_sort_order row | Some n \<Rightarrow> n)\<rparr>
               in case tag_update updated d of
                    (Inl e, d') \<Rightarrow> (Inl e, d')
                  | (Inr persisted, d') \<Rightarrow> (Inr (map_from_db persisted 0 0), d'))"

definition delete_tag :: "int \<Rightarrow> str \<Rightarrow> bool \<Rightarrow> bool \<Rightarrow> str list \<Rightarrow> bool tag_op" where
  "delete_tag tenant tid force content_only exclude_ids d =
     (if tid = [] then (Inl (ValidationError (lit ''tag.tag_id_required'')), d)
      else case get_owned_tag tenant tid d of
        Inl e \<Rightarrow> (Inl e, d)
      | Inr tag \<Rightarrow>
          (case count_references tenant (tg_knowledge_base_id tag) tid d of
             (knowledge_count, chunk_count) \<Rightarrow>
               if content_only then (Inr False, d)
               else if \<not> force \<and> (knowledge_count > 0 \<or> chunk_count > 0)
               then (Inl (ValidationError (lit ''tag.has_references'')), d)
               else if exclude_ids \<noteq> [] then (Inr False, d)
               else (case tag_delete tenant tid d of (removed, d') \<Rightarrow> (Inr removed, d'))))"

definition resolve_tag_id :: "(rune \<Rightarrow> int option) \<Rightarrow> int \<Rightarrow> str \<Rightarrow> tags_db \<Rightarrow> app_error + str" where
  "resolve_tag_id digit tenant tid d =
     (if tid = [] then Inl (ValidationError (lit ''tag.tag_id_required''))
      else case py_int digit tid of
        None \<Rightarrow> Inr tid
      | Some seq \<Rightarrow>
          (case tag_get_by_seq_id tenant seq d of
             None \<Rightarrow> Inl (NotFoundError (lit ''tag.not_found''))
           | Some row \<Rightarrow> Inr (tg_id row)))"

definition set_knowledge_tags :: "str \<Rightarrow> str list \<Rightarrow> tags_db \<Rightarrow> tags_db" where
  "set_knowledge_tags kid tag_ids d = repo_set_knowledge_tags kid tag_ids d"

definition get_knowledge_tags :: "tags_db \<Rightarrow> str list \<Rightarrow> str \<rightharpoonup> tag_info list" where
  "get_knowledge_tags d ids kid =
     map_option (map (\<lambda>row. map_from_db row 0 0)) (repo_get_knowledge_tags ids d kid)"

definition get_tags_by_ids :: "int \<Rightarrow> str list \<Rightarrow> tags_db \<Rightarrow> str \<rightharpoonup> tag_info" where
  "get_tags_by_ids tenant ids d =
     (if ids = [] then Map.empty
      else map_of (rev (map (\<lambda>row. (tg_id row, map_from_db row 0 0)) (tag_get_by_ids tenant ids d))))"

definition delete_knowledge_tag_relations :: "str \<Rightarrow> tags_db \<Rightarrow> int \<times> tags_db" where
  "delete_knowledge_tag_relations kid d = repo_delete_knowledge_tag_relations kid d"

subsection \<open>Runs\<close>

text \<open>A step is one service call for a tenant, or a change of the documents and chunks.\<close>

inductive tag_step :: "int \<Rightarrow> tags_db \<Rightarrow> tags_db \<Rightarrow> bool" for tenant where
  created: "tag_step tenant d (snd (create_tag kbs tenant kb name color sort_order now new_id d))"
| found_or_created: "tag_step tenant d (snd (find_or_create_tag_by_name kbs tenant kb name now new_id d))"
| updated: "tag_step tenant d (snd (update_tag tenant tid name color sort_order now d))"
| deleted: "tag_step tenant d (snd (delete_tag tenant tid force content_only exclude_ids d))"
| bound: "tag_step tenant d (set_knowledge_tags kid tag_ids d)"
| unbound: "tag_step tenant d (snd (delete_knowledge_tag_relations kid d))"
| content: "tag_step tenant d (d\<lparr>tb_documents := docs, tb_chunks := chunks\<rparr>)"

definition tags_inv :: "tags_db \<Rightarrow> bool" where
  "tags_inv d \<longleftrightarrow> distinct (map tg_id (tb_tags d)) \<and> distinct (map tag_name_key (tb_tags d)) \<and>
     distinct (tb_bindings d) \<and> distinct (map tg_seq_id (tb_tags d)) \<and>
     (\<forall>r \<in> set (tb_tags d). tg_seq_id r < tb_next_seq d \<and> tg_name r \<noteq> [] \<and> strip (tg_name r) = tg_name r)"

definition empty_tags :: "doc_ref list \<Rightarrow> chunk_ref list \<Rightarrow> tags_db" where
  "empty_tags docs chunks =
     \<lparr>tb_tags = [], tb_next_seq = 10000000, tb_bindings = [], tb_documents = docs, tb_chunks = chunks\<rparr>"

inductive tag_reachable :: "tags_db \<Rightarrow> bool" where
  start: "tag_reachable (empty_tags docs chunks)"
| step: "tag_reachable d \<Longrightarrow> tag_step tenant d d' \<Longrightarrow> tag_reachable d'"

lemma require_create_scope_Inr:
  "require_create_scope kb name = Inr n \<longleftrightarrow> kb \<noteq> [] \<and> n = strip name \<and> n \<noteq> []"
  by (auto simp: require_create_scope_def Let_def)

lemma tag_create_effect:
  assumes "tag_create row d = (res, d')"
  shows "(tb_tags d' = tb_tags d \<and> tb_bindings d' = tb_bindings d \<and> tb_next_seq d' = tb_next_seq d + 1) \<or>
    (res = Inr (row\<lparr>tg_seq_id := tb_next_seq d\<rparr>) \<and> tb_tags d' = tb_tags d @ [row\<lparr>tg_seq_id := tb_next_seq d\<rparr>] \<and>
     tb_bindings d' = tb_bindings d \<and> tb_next_seq d' = tb_next_seq d + 1 \<and>
     (\<forall>r \<in> set (tb_tags d). tg_id r \<noteq> tg_id row \<and> tag_name_key r \<noteq> tag_name_key row))"
  using assms by (auto simp: tag_create_def Let_def list_ex_iff split: if_splits)

lemma tag_name_key_seq [simp]: "tag_name_key (r\<lparr>tg_seq_id := n\<rparr>) = tag_name_key r"
  by (simp add: tag_name_key_def)

lemma tag_create_inv:
  assumes inv: "tags_inv d" and c: "tag_create row d = (res, d')"
    and name: "tg_name row \<noteq> []" "strip (tg_name row) = tg_name row"
  shows "tags_inv d'"
proof -
  have seq: "\<forall>r \<in> set (tb_tags d). tg_seq_id r < tb_next_seq d" using inv by (simp add: tags_inv_def)
  then have seq1: "\<forall>r \<in> set (tb_tags d). tg_seq_id r < tb_next_seq d + 1" "tb_next_seq d \<notin> tg_seq_id ` set (tb_tags d)"
    by force+
  consider "tb_tags d' = tb_tags d" "tb_bindings d' = tb_bindings d" "tb_next_seq d' = tb_next_seq d + 1"
    | "tb_tags d' = tb_tags d @ [row\<lparr>tg_seq_id := tb_next_seq d\<rparr>]" "tb_bindings d' = tb_bindings d"
      "tb_next_seq d' = tb_next_seq d + 1" "tg_id row \<notin> tg_id ` set (tb_tags d)"
      "tag_name_key row \<notin> tag_name_key ` set (tb_tags d)"
    using tag_create_effect [OF c] by force
  then show ?thesis
    using inv seq1 name by cases (simp_all add: tags_inv_def)
qed

lemma tag_create_tenant:
  assumes "tag_create row d = (res, d')" and "tg_tenant_id row = tenant"
  shows "filter (\<lambda>r. tg_tenant_id r \<noteq> tenant) (tb_tags d') = filter (\<lambda>r. tg_tenant_id r \<noteq> tenant) (tb_tags d)"
  using tag_create_effect [OF assms(1)] assms(2) by auto

text \<open>\<open>create_tag\<close> and \<open>find_or_create\<close> change the tables only through \<open>tag_create\<close>.\<close>

lemma create_tag_via:
  "snd (create_tag kbs tenant kb name color so now new_id d) = d \<or>
   (\<exists>row. tg_tenant_id row = tenant \<and> tg_name row = strip name \<and> tg_name row \<noteq> [] \<and>
      snd (create_tag kbs tenant kb name color so now new_id d) = snd (tag_create row d))"
  by (auto simp: create_tag_def Let_def require_create_scope_Inr split: sum.splits option.splits prod.splits
      intro!: exI [of _ "\<lparr>tg_id = new_id, tg_seq_id = 0, tg_tenant_id = tenant, tg_knowledge_base_id = kb,
        tg_name = strip name, tg_color = map_option strip color,
        tg_sort_order = (if strip name = UNTAGGED_TAG_NAME then - 1 else so), tg_created_at = now,
        tg_updated_at = now\<rparr>"])

lemma find_or_create_via:
  "snd (find_or_create_tag_by_name kbs tenant kb name now new_id d) = d \<or>
   snd (find_or_create_tag_by_name kbs tenant kb name now new_id d) =
     snd (create_tag kbs tenant kb (strip name) (Some []) 0 now new_id d)"
  by (auto simp: find_or_create_tag_by_name_def require_create_scope_Inr split: sum.splits option.splits)

lemma distinct_map_replace:
  assumes ids: "distinct (map i xs)" and keys: "distinct (map k xs)" and old: "old \<in> set xs" "i old = t"
    and other: "\<forall>r \<in> set xs. i r \<noteq> t \<longrightarrow> k r \<noteq> k (g old)"
  shows "distinct (map k (map (\<lambda>r. if i r = t then g r else r) xs))"
proof -
  have same: "r = old" if "r \<in> set xs" "i r = t" for r
    using ids that old by (auto simp: distinct_map dest: inj_onD)
  have inj: "inj_on k (set xs)" and d: "distinct xs" using keys by (auto simp: distinct_map)
  have "inj_on (k \<circ> (\<lambda>r. if i r = t then g r else r)) (set xs)"
  proof (rule inj_onI)
    fix x y assume xy: "x \<in> set xs" "y \<in> set xs"
      and e: "(k \<circ> (\<lambda>r. if i r = t then g r else r)) x = (k \<circ> (\<lambda>r. if i r = t then g r else r)) y"
    consider "i x = t" "i y = t" | "i x = t" "i y \<noteq> t" | "i x \<noteq> t" "i y = t" | "i x \<noteq> t" "i y \<noteq> t" by blast
    then show "x = y"
    proof cases
      case 1
      then show ?thesis using same xy by metis
    next
      case 2
      then have "k (g old) = k y" using e same [OF xy(1)] by simp
      then show ?thesis using other xy(2) 2(2) by metis
    next
      case 3
      then have "k x = k (g old)" using e same [OF xy(2)] by simp
      then show ?thesis using other xy(1) 3(1) by metis
    next
      case 4
      then show ?thesis using e inj xy by (auto dest: inj_onD)
    qed
  qed
  with d show ?thesis by (simp add: distinct_map)
qed

lemma set_mutable_simps [simp]:
  "tg_id (set_mutable new r) = tg_id r" "tg_seq_id (set_mutable new r) = tg_seq_id r"
  "tg_tenant_id (set_mutable new r) = tg_tenant_id r" "tg_name (set_mutable new r) = tg_name new"
  by (simp_all add: set_mutable_def)

lemma tag_update_effect:
  assumes "tag_update row d = (res, d')"
  shows "d' = d \<or> (\<exists>old \<in> set (tb_tags d). tg_id old = tg_id row \<and>
    (\<forall>r \<in> set (tb_tags d). tg_id r \<noteq> tg_id row \<longrightarrow> tag_name_key r \<noteq> tag_name_key (set_mutable row old)) \<and>
    d' = d\<lparr>tb_tags := map (\<lambda>r. if tg_id r = tg_id row then set_mutable row r else r) (tb_tags d)\<rparr>)"
proof (cases "find (\<lambda>r. tg_id r = tg_id row) (tb_tags d)")
  case None
  then show ?thesis using assms by (simp add: tag_update_def)
next
  case (Some old)
  then have "old \<in> set (tb_tags d)" "tg_id old = tg_id row" by (auto simp: find_Some_iff)
  then show ?thesis using assms Some by (auto simp: tag_update_def Let_def list_ex_iff split: if_splits)
qed

lemma tag_update_inv:
  assumes inv: "tags_inv d" and u: "tag_update row d = (res, d')"
    and name: "tg_name row \<noteq> []" "strip (tg_name row) = tg_name row"
  shows "tags_inv d'"
proof -
  let ?f = "\<lambda>r. if tg_id r = tg_id row then set_mutable row r else r"
  from tag_update_effect [OF u] show ?thesis
  proof (elim disjE bexE conjE)
    fix old assume old: "old \<in> set (tb_tags d)" "tg_id old = tg_id row"
      and other: "\<forall>r \<in> set (tb_tags d). tg_id r \<noteq> tg_id row \<longrightarrow> tag_name_key r \<noteq> tag_name_key (set_mutable row old)"
      and d': "d' = d\<lparr>tb_tags := map ?f (tb_tags d)\<rparr>"
    have "map tg_id (map ?f (tb_tags d)) = map tg_id (tb_tags d)"
      "map tg_seq_id (map ?f (tb_tags d)) = map tg_seq_id (tb_tags d)" by auto
    moreover have "distinct (map tag_name_key (map ?f (tb_tags d)))"
      using inv old other by (intro distinct_map_replace) (auto simp: tags_inv_def)
    moreover have "\<forall>r \<in> set (map ?f (tb_tags d)). tg_seq_id r < tb_next_seq d \<and> tg_name r \<noteq> [] \<and> strip (tg_name r) = tg_name r"
      using inv name by (auto simp: tags_inv_def)
    ultimately show ?thesis using inv unfolding d' tags_inv_def by (simp del: map_map)
  qed (use inv in simp)
qed

lemma get_owned_tag_Inr:
  "get_owned_tag tenant tid d = Inr row \<Longrightarrow> row \<in> set (tb_tags d) \<and> tg_id row = tid \<and> tg_tenant_id row = tenant"
  by (auto simp: get_owned_tag_def tag_get_by_id_def find_Some_iff split: option.splits)

lemma update_tag_via:
  "snd (update_tag tenant tid name color so now d) = d \<or>
   (\<exists>row u. row \<in> set (tb_tags d) \<and> tg_id row = tid \<and> tg_tenant_id row = tenant \<and> tg_id u = tid \<and>
      (tg_name u = tg_name row \<or> (tg_name u \<noteq> [] \<and> strip (tg_name u) = tg_name u)) \<and>
      snd (update_tag tenant tid name color so now d) = snd (tag_update u d))"
proof (cases "tid = [] \<or> isl (get_owned_tag tenant tid d) \<or> (case name of None \<Rightarrow> False | Some n \<Rightarrow> strip n = [])")
  case True
  then show ?thesis by (auto simp: update_tag_def split: sum.splits option.splits)
next
  case False
  then obtain row where row: "get_owned_tag tenant tid d = Inr row" by (auto simp: isl_def split: sum.splits)
      (metis sum.exhaust)
  let ?u = "row\<lparr>tg_updated_at := now, tg_name := (case name of None \<Rightarrow> tg_name row | Some n \<Rightarrow> strip n),
    tg_color := (case color of None \<Rightarrow> tg_color row | Some c \<Rightarrow> Some (strip c)),
    tg_sort_order := (case so of None \<Rightarrow> tg_sort_order row | Some n \<Rightarrow> n)\<rparr>"
  have "snd (update_tag tenant tid name color so now d) = snd (tag_update ?u d)"
    using False row by (auto simp: update_tag_def Let_def split: sum.splits prod.splits)
  moreover have "tg_name ?u = tg_name row \<or> (tg_name ?u \<noteq> [] \<and> strip (tg_name ?u) = tg_name ?u)"
    using False by (auto split: option.splits)
  moreover note get_owned_tag_Inr [OF row]
  ultimately show ?thesis by (intro disjI2 exI [of _ row] exI [of _ ?u]) simp
qed

lemma delete_tag_result:
  "delete_tag tenant tid force content_only ex d =
     (if tid = [] then (Inl (ValidationError (lit ''tag.tag_id_required'')), d)
      else case get_owned_tag tenant tid d of
        Inl e \<Rightarrow> (Inl e, d)
      | Inr tag \<Rightarrow>
          if content_only then (Inr False, d)
          else if \<not> force \<and> (count_documents tenant (tg_knowledge_base_id tag) tid d > 0 \<or>
                              count_chunks tenant (tg_knowledge_base_id tag) tid d > 0)
          then (Inl (ValidationError (lit ''tag.has_references'')), d)
          else if ex \<noteq> [] then (Inr False, d)
          else (Inr True, d\<lparr>tb_tags := filter (\<lambda>r. \<not> (tg_tenant_id r = tenant \<and> tg_id r = tid)) (tb_tags d)\<rparr>))"
  by (auto simp: delete_tag_def count_references_def tag_delete_def list_ex_iff dest!: get_owned_tag_Inr
      split: sum.splits)

lemma delete_tag_tags:
  "\<exists>P. tb_tags (snd (delete_tag tenant tid force content_only ex d)) =
     filter (\<lambda>r. tg_tenant_id r \<noteq> tenant \<or> P r) (tb_tags d) \<and>
   tb_bindings (snd (delete_tag tenant tid force content_only ex d)) = tb_bindings d \<and>
   tb_next_seq (snd (delete_tag tenant tid force content_only ex d)) = tb_next_seq d"
proof -
  have "\<exists>P. tb_tags d = filter (\<lambda>r. tg_tenant_id r \<noteq> tenant \<or> P r) (tb_tags d)"
    by (rule exI [of _ "\<lambda>_. True"]) simp
  moreover have "\<exists>P. filter (\<lambda>r. \<not> (tg_tenant_id r = tenant \<and> tg_id r = tid)) (tb_tags d) =
      filter (\<lambda>r. tg_tenant_id r \<noteq> tenant \<or> P r) (tb_tags d)"
    by (rule exI [of _ "\<lambda>r. tg_id r \<noteq> tid"]) (auto intro: filter_cong)
  ultimately show ?thesis unfolding delete_tag_result by (auto split: sum.splits)
qed

lemma tags_inv_filter:
  "tags_inv d \<Longrightarrow> tb_tags d' = filter P (tb_tags d) \<Longrightarrow> tb_bindings d' = tb_bindings d \<Longrightarrow>
     tb_next_seq d' = tb_next_seq d \<Longrightarrow> tags_inv d'"
  by (auto simp: tags_inv_def distinct_map_filter)

lemma tags_inv_bindings:
  "tags_inv d \<Longrightarrow> tb_tags d' = tb_tags d \<Longrightarrow> distinct (tb_bindings d') \<Longrightarrow>
     tb_next_seq d' = tb_next_seq d \<Longrightarrow> tags_inv d'"
  by (auto simp: tags_inv_def)

lemma set_knowledge_tags_bindings:
  "tb_bindings (set_knowledge_tags kid tag_ids d) =
     filter (\<lambda>b. fst b \<noteq> kid) (tb_bindings d) @ map (Pair kid) (dedup_non_empty_strings tag_ids)"
  "tb_tags (set_knowledge_tags kid tag_ids d) = tb_tags d"
  "tb_next_seq (set_knowledge_tags kid tag_ids d) = tb_next_seq d"
  by (auto simp: set_knowledge_tags_def repo_set_knowledge_tags_def Let_def)

lemma create_tag_inv:
  assumes "tags_inv d"
  shows "tags_inv (snd (create_tag kbs tenant kb name color so now new_id d)) \<and>
    filter (\<lambda>r. tg_tenant_id r \<noteq> tenant) (tb_tags (snd (create_tag kbs tenant kb name color so now new_id d))) =
    filter (\<lambda>r. tg_tenant_id r \<noteq> tenant) (tb_tags d)"
  using create_tag_via [of kbs tenant kb name color so now new_id d]
proof (elim disjE exE conjE)
  fix row assume row: "tg_tenant_id row = tenant" "tg_name row = strip name" "tg_name row \<noteq> []"
    and e: "snd (create_tag kbs tenant kb name color so now new_id d) = snd (tag_create row d)"
  have "strip (tg_name row) = tg_name row" using row(2) by simp
  from tag_create_inv [OF assms prod.collapse [symmetric] row(3) this]
    tag_create_tenant [OF prod.collapse [symmetric] row(1)]
  show ?thesis unfolding e by blast
qed (use assms in simp)

lemma tag_step_inv:
  assumes "tag_step tenant d d'" and "tags_inv d"
  shows "tags_inv d' \<and> filter (\<lambda>r. tg_tenant_id r \<noteq> tenant) (tb_tags d') =
    filter (\<lambda>r. tg_tenant_id r \<noteq> tenant) (tb_tags d)"
  using assms
proof (induction rule: tag_step.induct)
  case (created d kbs kb name color so now new_id)
  then show ?case by (rule create_tag_inv)
next
  case (found_or_created d kbs kb name now new_id)
  from find_or_create_via [of kbs tenant kb name now new_id d] show ?case
    using create_tag_inv [OF found_or_created, of kbs tenant kb "strip name" "Some []" 0 now new_id] found_or_created
    by (elim disjE) simp_all
next
  case (updated d tid name color so now)
  consider (same) "snd (update_tag tenant tid name color so now d) = d"
    | (changed) row u where "row \<in> set (tb_tags d)" "tg_id row = tid" "tg_tenant_id row = tenant" "tg_id u = tid"
        "snd (update_tag tenant tid name color so now d) = snd (tag_update u d)"
        "tg_name u = tg_name row \<or> (tg_name u \<noteq> [] \<and> strip (tg_name u) = tg_name u)"
    using update_tag_via [of tenant tid name color so now d] by blast
  then show ?case
  proof cases
    case same
    then show ?thesis using updated by simp
  next
    case changed
    note row = changed(1-4) and e = changed(5) and n = changed(6)
    have "tg_name u \<noteq> []" "strip (tg_name u) = tg_name u" using n row(1) updated by (auto simp: tags_inv_def)
    then have inv: "tags_inv (snd (tag_update u d))"
      by (rule tag_update_inv [OF updated prod.collapse [symmetric]])
    have "r = row" if "r \<in> set (tb_tags d)" "tg_id r = tid" for r
      using updated row that by (auto simp: tags_inv_def distinct_map dest: inj_onD)
    then have ne: "tg_id r \<noteq> tg_id u" if "r \<in> set (tb_tags d)" "tg_tenant_id r \<noteq> tenant" for r
      using that row(3,4) by metis
    have "filter (\<lambda>r. tg_tenant_id r \<noteq> tenant) (map (\<lambda>r. if tg_id r = tg_id u then set_mutable u r else r) (tb_tags d)) =
        filter (\<lambda>r. tg_tenant_id r \<noteq> tenant) (tb_tags d)"
      by (rule filter_map_id_on) (simp_all add: ne)
    then show ?thesis
      using inv tag_update_effect [OF prod.collapse [symmetric], of u d] by (auto simp: e)
  qed
next
  case (deleted d tid force content_only ex)
  from delete_tag_tags obtain P where
    e: "tb_tags (snd (delete_tag tenant tid force content_only ex d)) =
       filter (\<lambda>r. tg_tenant_id r \<noteq> tenant \<or> P r) (tb_tags d)"
      "tb_bindings (snd (delete_tag tenant tid force content_only ex d)) = tb_bindings d"
      "tb_next_seq (snd (delete_tag tenant tid force content_only ex d)) = tb_next_seq d"
    by blast
  have "filter (\<lambda>r. tg_tenant_id r \<noteq> tenant) (filter (\<lambda>r. tg_tenant_id r \<noteq> tenant \<or> P r) (tb_tags d)) =
      filter (\<lambda>r. tg_tenant_id r \<noteq> tenant) (tb_tags d)"
    by (simp only: filter_filter) (rule filter_cong, auto)
  then show ?case using tags_inv_filter [OF deleted e] by (simp add: e(1))
next
  case (bound d kid tag_ids)
  then have "distinct (tb_bindings (set_knowledge_tags kid tag_ids d))"
    by (auto simp: set_knowledge_tags_bindings tags_inv_def distinct_map inj_on_def)
  then show ?case using bound by (auto simp: set_knowledge_tags_bindings intro: tags_inv_bindings)
next
  case (unbound d kid)
  then show ?case
    by (auto simp: delete_knowledge_tag_relations_def repo_delete_knowledge_tag_relations_def tags_inv_def)
next
  case (content d docs chunks)
  then show ?case by (auto simp: tags_inv_def)
qed

lemma tag_reachable_inv: "tag_reachable d \<Longrightarrow> tags_inv d"
  by (induction rule: tag_reachable.induct) (auto simp: empty_tags_def tags_inv_def dest: tag_step_inv)

subsection \<open>The contract of a tag source\<close>

text \<open>
  What the scope authorization needs of the service: \<open>get_knowledge_tags\<close> either fails or maps each
  asked document to its tags, a document without tags being absent or mapped to the empty list.
\<close>

locale tag_source =
  fixes fetch :: "'s \<Rightarrow> str list \<Rightarrow> app_error + (str \<rightharpoonup> tag_info list)" and tags :: "'s \<Rightarrow> str \<Rightarrow> tag_row list"
  assumes fetch_law: "fetch s ids = Inr m \<Longrightarrow> kid \<in> set ids \<Longrightarrow>
    map ti_row (case m kid of None \<Rightarrow> [] | Some ts \<Rightarrow> ts) = tags s kid"

definition tag_service_fetch :: "tags_db \<Rightarrow> str list \<Rightarrow> app_error + (str \<rightharpoonup> tag_info list)" where
  "tag_service_fetch d ids = Inr (get_knowledge_tags d ids)"

interpretation tag_service: tag_source tag_service_fetch tags_of
  by unfold_locales
    (auto simp: tag_service_fetch_def get_knowledge_tags_def repo_get_knowledge_tags_def map_from_db_def
      comp_def split: if_splits)

end
