(* ===== verification/Tag_Properties.thy ===== *)
theory Tag_Properties
  imports Tags
begin

text \<open>
  Properties of the tag service over its repository: the invariant of every run and tenant
  isolation, the guarded delete, find-or-create, the document bindings and the keyword filter.
\<close>

subsection \<open>A run used by the witnesses\<close>

definition demo_create :: "str \<Rightarrow> str \<Rightarrow> tags_db \<Rightarrow> tags_db" where
  "demo_create name tid d = snd (create_tag None 7 (lit ''kb'') name None 0 1000 tid d)"

definition demo_tags :: tags_db where
  "demo_tags = demo_create (lit '' beta '') (lit ''t2'') (demo_create (lit ''alpha'') (lit ''t1'')
     (empty_tags [\<lparr>dr_id = lit ''d1'', dr_tenant_id = 7, dr_knowledge_base_id = lit ''kb'', dr_deleted = False\<rparr>] []))"

definition demo_tag :: "str \<Rightarrow> str \<Rightarrow> int \<Rightarrow> tag_row" where
  "demo_tag name tid seq = \<lparr>tg_id = tid, tg_seq_id = seq, tg_tenant_id = 7, tg_knowledge_base_id = lit ''kb'',
     tg_name = name, tg_color = None, tg_sort_order = 0, tg_created_at = 1000, tg_updated_at = 1000\<rparr>"

lemma strip_words: "strip (lit ''alpha'') = lit ''alpha''" "strip (lit '' beta '') = lit ''beta''"
  "strip (lit ''beta'') = lit ''beta''"
  by (simp_all add: strip_def lit_def is_space_def)

lemma untagged_words: "lit ''alpha'' \<noteq> UNTAGGED_TAG_NAME" "lit ''beta'' \<noteq> UNTAGGED_TAG_NAME"
  by (auto simp: UNTAGGED_TAG_NAME_def lit_def)

lemma demo_tags_eq: "demo_tags = \<lparr>tb_tags = [demo_tag (lit ''alpha'') (lit ''t1'') 10000000,
     demo_tag (lit ''beta'') (lit ''t2'') 10000001], tb_next_seq = 10000002, tb_bindings = [],
   tb_documents = [\<lparr>dr_id = lit ''d1'', dr_tenant_id = 7, dr_knowledge_base_id = lit ''kb'', dr_deleted = False\<rparr>],
   tb_chunks = []\<rparr>"
  by (simp add: demo_tags_def demo_create_def create_tag_def require_create_scope_def require_kb_def
      tag_get_by_name_def tag_create_def tag_name_key_def demo_tag_def empty_tags_def strip_words untagged_words Let_def)

lemma demo_tags_reachable: "tag_reachable demo_tags"
  unfolding demo_tags_def demo_create_def
  by (rule tag_reachable.step [OF tag_reachable.step [OF tag_reachable.start tag_step.created] tag_step.created])

subsection \<open>Properties\<close>



text \<open>Deleting a tag: the row disappears exactly when the tag belongs to the tenant, the call is
  not content-only and excludes nothing, and either force is set or no live document of its
  knowledge base and no live chunk references it; on every other branch nothing changes.\<close>

theorem delete_tag_guarded:
  assumes "delete_tag tenant tid force content_only exclude_ids d = (res, d')" and "tags_inv d"
  shows "(if tid \<noteq> [] \<and> \<not> content_only \<and> exclude_ids = [] \<and>
            (\<exists>tag \<in> set (tb_tags d). tg_id tag = tid \<and> tg_tenant_id tag = tenant \<and>
               (force \<or> (count_documents tenant (tg_knowledge_base_id tag) tid d = 0 \<and>
                         count_chunks tenant (tg_knowledge_base_id tag) tid d = 0)))
          then res = Inr True \<and> d' = d\<lparr>tb_tags := filter (\<lambda>r. tg_id r \<noteq> tid) (tb_tags d)\<rparr>
          else res \<noteq> Inr True \<and> d' = d)"
proof -
  have uniq: "r = q" if "r \<in> set (tb_tags d)" "q \<in> set (tb_tags d)" "tg_id r = tg_id q" for r q
    using assms(2) that by (auto simp: tags_inv_def distinct_map dest: inj_onD)
  have nonneg: "0 \<le> count_documents tenant kb tid d" "0 \<le> count_chunks tenant kb tid d" for kb
    by (simp_all add: count_documents_def count_chunks_def)
  show ?thesis
  proof (cases "get_owned_tag tenant tid d")
    case (Inl e)
    then have "\<not> (\<exists>tag \<in> set (tb_tags d). tg_id tag = tid \<and> tg_tenant_id tag = tenant)"
      by (auto simp: get_owned_tag_def tag_get_by_id_def find_None_iff split: option.splits)
    then show ?thesis using assms(1) Inl unfolding delete_tag_result by (auto split: if_splits)
  next
    case (Inr tag)
    have tag: "tag \<in> set (tb_tags d)" "tg_id tag = tid" "tg_tenant_id tag = tenant"
      using get_owned_tag_Inr [OF Inr] by auto
    let ?free = "count_documents tenant (tg_knowledge_base_id tag) tid d = 0 \<and>
      count_chunks tenant (tg_knowledge_base_id tag) tid d = 0"
    have ex: "(\<exists>q \<in> set (tb_tags d). tg_id q = tid \<and> tg_tenant_id q = tenant \<and>
        (force \<or> (count_documents tenant (tg_knowledge_base_id q) tid d = 0 \<and>
                  count_chunks tenant (tg_knowledge_base_id q) tid d = 0))) \<longleftrightarrow> force \<or> ?free"
      using tag uniq [OF _ tag(1)] by metis
    have same: "filter (\<lambda>r. \<not> (tg_tenant_id r = tenant \<and> tg_id r = tid)) (tb_tags d) =
        filter (\<lambda>r. tg_id r \<noteq> tid) (tb_tags d)"
    proof (rule filter_cong [OF refl])
      fix r assume "r \<in> set (tb_tags d)"
      then show "\<not> (tg_tenant_id r = tenant \<and> tg_id r = tid) \<longleftrightarrow> tg_id r \<noteq> tid"
        using uniq [of r tag] tag by auto
    qed
    have free: "?free \<longleftrightarrow> \<not> (count_documents tenant (tg_knowledge_base_id tag) tid d > 0 \<or>
        count_chunks tenant (tg_knowledge_base_id tag) tid d > 0)"
      using nonneg [of "tg_knowledge_base_id tag"] by linarith
    show ?thesis using assms(1) Inr unfolding ex delete_tag_result same free by (auto split: if_splits)
  qed
qed

theorem delete_tag_guarded_witness:
  "fst (delete_tag 7 (lit ''t1'') False False [] demo_tags) = Inr True \<and>
   fst (delete_tag 7 (lit ''t1'') False False [] (set_knowledge_tags (lit ''d1'') [lit ''t1''] demo_tags)) \<noteq> Inr True"
proof -
  have inv: "tags_inv demo_tags" "tags_inv (set_knowledge_tags (lit ''d1'') [lit ''t1''] demo_tags)"
    using tag_reachable_inv demo_tags_reachable tag_reachable.step [OF demo_tags_reachable tag_step.bound] by blast+
  show ?thesis
    using delete_tag_guarded [of 7 "lit ''t1''" False False "[]" demo_tags, OF prod.collapse [symmetric] inv(1)]
      delete_tag_guarded [of 7 "lit ''t1''" False False "[]", OF prod.collapse [symmetric] inv(2)]
    by (simp add: demo_tags_eq demo_tag_def count_documents_def count_chunks_def set_knowledge_tags_def
        repo_set_knowledge_tags_def dedup_non_empty_strings_def split: if_splits)
qed

text \<open>Find-or-create is idempotent: after it succeeded, calling it again with any name that trims
  to the same one, for the same knowledge base, returns the same tag and changes nothing.\<close>

theorem find_or_create_idempotent:
  assumes f: "find_or_create_tag_by_name kbs tenant kb name now new_id d = (Inr info, d')"
    and n: "strip name' = strip name" and inv: "tags_inv d"
  shows "find_or_create_tag_by_name kbs tenant kb name' now' new_id' d' =
    (Inr (map_from_db (ti_row info) 0 0), d') \<and> ti_row info \<in> set (tb_tags d')"
proof -
  have req: "require_create_scope kb name = Inr (strip name)" "require_create_scope kb name' = Inr (strip name)"
    "require_create_scope kb (strip name) = Inr (strip name)"
    using f n by (auto simp: find_or_create_tag_by_name_def require_create_scope_def Let_def split: sum.splits if_splits)
  have kb: "require_kb kbs tenant kb = Inr ()"
    using f req(1) by (auto simp: find_or_create_tag_by_name_def split: sum.splits)
  have found: "tag_get_by_name tenant kb (strip name) d' = Some (ti_row info)"
  proof (cases "tag_get_by_name tenant kb (strip name) d")
    case (Some r)
    then show ?thesis using f req(1) kb by (auto simp: find_or_create_tag_by_name_def map_from_db_def)
  next
    case None
    then have c: "create_tag kbs tenant kb (strip name) (Some []) 0 now new_id d = (Inr info, d')"
      using f req(1) kb by (simp add: find_or_create_tag_by_name_def)
    let ?row = "\<lparr>tg_id = new_id, tg_seq_id = 0, tg_tenant_id = tenant, tg_knowledge_base_id = kb,
      tg_name = strip name, tg_color = Some [], tg_sort_order = (if strip name = UNTAGGED_TAG_NAME then - 1 else 0),
      tg_created_at = now, tg_updated_at = now\<rparr>"
    have "\<exists>p. tag_create ?row d = (Inr p, d') \<and> info = map_from_db p 0 0"
      using c None req(3) kb by (auto simp: create_tag_def Let_def split: sum.splits prod.splits)
    then obtain p where p: "tag_create ?row d = (Inr p, d')" "info = map_from_db p 0 0" by blast
    then have "p = ?row\<lparr>tg_seq_id := tb_next_seq d\<rparr>" "tb_tags d' = tb_tags d @ [p]"
      by (auto simp: tag_create_def Let_def split: if_splits)
    then show ?thesis
      using None p(2) by (auto simp: tag_get_by_name_def find_append_eq map_from_db_def tag_name_key_def)
  qed
  then have "ti_row info \<in> set (tb_tags d')" by (auto simp: tag_get_by_name_def find_Some_iff)
  then show ?thesis using req(2) kb found by (simp add: find_or_create_tag_by_name_def)
qed

theorem find_or_create_idempotent_witness:
  "\<exists>d'. snd (find_or_create_tag_by_name None 7 (lit ''kb'') (lit ''beta'') 2000 (lit ''t3'') demo_tags) = d' \<and>
     snd (find_or_create_tag_by_name None 7 (lit ''kb'') (lit '' beta '') 3000 (lit ''t4'') d') = d'"
proof -
  have "fst (find_or_create_tag_by_name None 7 (lit ''kb'') (lit ''beta'') 2000 (lit ''t3'') demo_tags) =
      Inr (map_from_db (demo_tag (lit ''beta'') (lit ''t2'') 10000001) 0 0)"
    by (simp add: find_or_create_tag_by_name_def require_create_scope_def require_kb_def tag_get_by_name_def
        tag_name_key_def demo_tags_eq demo_tag_def strip_words Let_def)
  then have "find_or_create_tag_by_name None 7 (lit ''kb'') (lit ''beta'') 2000 (lit ''t3'') demo_tags =
      (Inr (map_from_db (demo_tag (lit ''beta'') (lit ''t2'') 10000001) 0 0),
       snd (find_or_create_tag_by_name None 7 (lit ''kb'') (lit ''beta'') 2000 (lit ''t3'') demo_tags))"
    by (simp add: prod_eq_iff)
  from find_or_create_idempotent [OF this _ tag_reachable_inv [OF demo_tags_reachable], of "lit '' beta ''" 3000 "lit ''t4''"]
  show ?thesis by (simp add: strip_words)
qed

text \<open>Binding round trip: after \<open>set_knowledge_tags\<close> the document's tags are exactly the given
  ids in order, without blanks, repetitions and unknown ids, and every other document keeps
  its tags.\<close>

theorem set_get_knowledge_tags:
  "map tg_id (tags_of (set_knowledge_tags kid tag_ids d) kid) =
     filter (\<lambda>t. t \<in> tg_id ` set (tb_tags d)) (dedup_non_empty_strings tag_ids) \<and>
   (kid' = kid \<or> tags_of (set_knowledge_tags kid tag_ids d) kid' = tags_of d kid')"
proof
  let ?d = "set_knowledge_tags kid tag_ids d"
  have none: "List.map_filter (\<lambda>b. if fst b = kid then find (\<lambda>r. tg_id r = snd b) rows else None)
      (filter (\<lambda>b. fst b \<noteq> kid) bs) = []" for rows and bs :: "(str \<times> str) list"
    by (induction bs) (auto simp: map_filter_simps)
  have some: "map tg_id (List.map_filter (\<lambda>b. if fst b = kid then find (\<lambda>r. tg_id r = snd b) rows else None)
      (map (Pair kid) ts)) = filter (\<lambda>t. t \<in> tg_id ` set rows) ts" for rows and ts :: "str list"
  proof (induction ts)
    case Nil
    then show ?case by (simp add: map_filter_simps)
  next
    case (Cons t ts)
    show ?case
    proof (cases "find (\<lambda>r. tg_id r = t) rows")
      case None
      then have "t \<notin> tg_id ` set rows" by (auto simp: find_None_iff)
      then show ?thesis using Cons.IH None by (simp add: map_filter_simps)
    next
      case (Some r)
      then have "tg_id r = t" "r \<in> set rows" by (auto simp: find_Some_iff)
      then show ?thesis using Cons.IH Some by (auto simp: map_filter_simps)
    qed
  qed
  show "map tg_id (tags_of ?d kid) = filter (\<lambda>t. t \<in> tg_id ` set (tb_tags d)) (dedup_non_empty_strings tag_ids)"
    unfolding tags_of_def set_knowledge_tags_bindings map_filter_append map_append none some by simp
  have other: "List.map_filter (\<lambda>b. if fst b = kid' then f b else None) (filter (\<lambda>b. fst b \<noteq> kid) bs @ map (Pair kid) ts) =
      List.map_filter (\<lambda>b. if fst b = kid' then f b else None) bs" if "kid' \<noteq> kid"
    for f :: "str \<times> str \<Rightarrow> tag_row option" and bs :: "(str \<times> str) list" and ts :: "str list"
  proof -
    have "List.map_filter (\<lambda>b. if fst b = kid' then f b else None) (map (Pair kid) ts) = []"
      using that by (induction ts) (auto simp: map_filter_simps)
    moreover have "List.map_filter (\<lambda>b. if fst b = kid' then f b else None) (filter (\<lambda>b. fst b \<noteq> kid) bs) =
        List.map_filter (\<lambda>b. if fst b = kid' then f b else None) bs"
      using that by (induction bs) (auto simp: map_filter_simps split: option.splits)
    ultimately show ?thesis by (simp add: map_filter_append)
  qed
  then show "kid' = kid \<or> tags_of ?d kid' = tags_of d kid'"
    using other [of "\<lambda>b. find (\<lambda>r. tg_id r = snd b) (tb_tags d)"]
    unfolding tags_of_def set_knowledge_tags_bindings by (cases "kid' = kid") simp_all
qed

subsection \<open>The keyword filter\<close>

definition escape_char :: "rune \<Rightarrow> str" where
  "escape_char c = (if c = BACKSLASH \<or> c = PERCENT \<or> c = UNDERSCORE then [BACKSLASH, c] else [c])"

lemma str_replace_char:
  "str_replace [c] new s = concat (map (\<lambda>x. if x = c then new else [x]) s)"
  by (induction s) auto

lemma special_runes [simp]:
  "BACKSLASH = 92" "PERCENT = 37" "UNDERSCORE = 95"
  by simp_all

lemma escape_like_concat: "escape_like_pattern term = concat (map escape_char term)"
  by (induction "term") (auto simp: escape_like_pattern_def str_replace_char escape_char_def)

lemma sql_like_percent:
  "sql_like (PERCENT # ps) s \<longleftrightarrow> (\<exists>us vs. s = us @ vs \<and> sql_like ps vs)"
proof (induction s)
  case Nil
  then show ?case by simp
next
  case (Cons c cs)
  have "(\<exists>us vs. c # cs = us @ vs \<and> sql_like ps vs) \<longleftrightarrow>
      sql_like ps (c # cs) \<or> (\<exists>us vs. cs = us @ vs \<and> sql_like ps vs)"
    by (metis append_Cons append_Nil list.exhaust list.inject)
  then show ?case using Cons.IH by simp
qed

lemma sql_like_escape_char:
  "sql_like (escape_char c @ ps) s \<longleftrightarrow> (\<exists>t. s = c # t \<and> sql_like ps t)"
  by (cases s) (auto simp: escape_char_def)

lemma sql_like_literal:
  "sql_like (concat (map escape_char k) @ ps) s \<longleftrightarrow> (\<exists>t. s = k @ t \<and> sql_like ps t)"
proof (induction k arbitrary: s)
  case Nil
  then show ?case by simp
next
  case (Cons c k)
  have "sql_like (concat (map escape_char (c # k)) @ ps) s \<longleftrightarrow>
      (\<exists>t. s = c # t \<and> sql_like (concat (map escape_char k) @ ps) t)"
    using sql_like_escape_char [of c "concat (map escape_char k) @ ps" s] by simp
  then show ?case by (auto simp: Cons.IH)
qed

text \<open>The keyword filter of the tag list is a plain substring test: for every keyword, with percent
  signs, underscores or backslashes in it or not, a name matches the escaped pattern exactly
  when it contains the keyword. So a page holds only tags of the tenant and knowledge base
  whose name contains the trimmed keyword, at most \<open>page_size\<close> of them.\<close>

theorem keyword_filter_is_substring:
  "(sql_like ([PERCENT] @ escape_like_pattern keyword @ [PERCENT]) name \<longleftrightarrow> contains_str keyword name) \<and>
   (case tag_list_by_kb tenant kb page page_size keyword d of
      Inl e \<Rightarrow> e = BackendError
    | Inr (rows, n) \<Rightarrow> int (length rows) \<le> page_size \<and>
        n = int (length (filter (\<lambda>r. tg_tenant_id r = tenant \<and> tg_knowledge_base_id r = kb \<and>
              contains_str (strip keyword) (tg_name r)) (tb_tags d))) \<and>
        set rows \<subseteq> {r \<in> set (tb_tags d). tg_tenant_id r = tenant \<and> tg_knowledge_base_id r = kb \<and>
          contains_str (strip keyword) (tg_name r)})"
proof
  have like: "sql_like ([PERCENT] @ escape_like_pattern k @ [PERCENT]) s \<longleftrightarrow> contains_str k s" for k s
  proof -
    have all: "sql_like [PERCENT] t" for t
      using sql_like_percent [of "[]" t] by auto
    show ?thesis
      unfolding escape_like_concat append_Cons append_Nil sql_like_percent sql_like_literal contains_str_iff
      using all by auto
  qed
  then show "sql_like ([PERCENT] @ escape_like_pattern keyword @ [PERCENT]) name \<longleftrightarrow> contains_str keyword name" .
  have "contains_str [] s" for s :: str by (cases s) auto
  then have match: "(strip keyword = [] \<or> sql_like ([PERCENT] @ escape_like_pattern (strip keyword) @ [PERCENT]) s) \<longleftrightarrow>
      contains_str (strip keyword) s" for s
    unfolding like by metis
  show "case tag_list_by_kb tenant kb page page_size keyword d of
      Inl e \<Rightarrow> e = BackendError
    | Inr (rows, n) \<Rightarrow> int (length rows) \<le> page_size \<and>
        n = int (length (filter (\<lambda>r. tg_tenant_id r = tenant \<and> tg_knowledge_base_id r = kb \<and>
              contains_str (strip keyword) (tg_name r)) (tb_tags d))) \<and>
        set rows \<subseteq> {r \<in> set (tb_tags d). tg_tenant_id r = tenant \<and> tg_knowledge_base_id r = kb \<and>
          contains_str (strip keyword) (tg_name r)}"
    unfolding tag_list_by_kb_def Let_def match
    by (auto dest!: in_set_takeD in_set_dropD)
qed

theorem keyword_filter_is_substring_witness:
  "contains_str (lit ''50%'') (lit ''top 50%'') \<and>
   sql_like ([PERCENT] @ escape_like_pattern (lit ''50%'') @ [PERCENT]) (lit ''top 50%'')"
  using keyword_filter_is_substring [where keyword = "lit ''50%''" and name = "lit ''top 50%''"]
  by (simp add: lit_def)

end
