(* ===== verification/Scope_Auth.thy ===== *)
theory Scope_Auth
  imports Tags
begin

text \<open>
  The authorization boundary of the agent's retrieval tools: search targets
  (src/src/core/agents/tools/search_target.py) and the checks of
  src/src/core/agents/tools/scope_auth.py. The row lookups and the tag fetcher are parameters of
  the operations; what they rely on of the fetcher is the contract \<open>tag_source\<close>. Targets and
  results are never \<open>None\<close> by their types, so those guards of the code are dead; the unused
  request context is dropped.
\<close>

subsection \<open>Search targets\<close>

datatype target_type = KNOWLEDGE_BASE | KNOWLEDGE

record search_target =
  tgt_type :: target_type
  tgt_knowledge_base_id :: str
  tgt_tenant_id :: int
  tgt_knowledge_ids :: "str list"
  tgt_tag_ids :: "str list"
  tgt_scope_tag_ids :: "str list"
  tgt_disable_recall_thresholds :: bool

definition recall_thresholds :: "search_target \<Rightarrow> rat \<Rightarrow> rat \<Rightarrow> rat \<times> rat" where
  "recall_thresholds t vector keyword =
     (if tgt_disable_recall_thresholds t then (0, 0) else (vector, keyword))"

fun kb_ids_from :: "str set \<Rightarrow> search_target list \<Rightarrow> str list" where
  "kb_ids_from seen [] = []"
| "kb_ids_from seen (t # ts) =
     (if tgt_knowledge_base_id t = [] \<or> tgt_knowledge_base_id t \<in> seen then kb_ids_from seen ts
      else tgt_knowledge_base_id t # kb_ids_from (insert (tgt_knowledge_base_id t) seen) ts)"

definition get_all_knowledge_base_ids :: "search_target list \<Rightarrow> str list" where
  "get_all_knowledge_base_ids ts = kb_ids_from {} ts"

definition get_kb_tenant_map :: "search_target list \<Rightarrow> str \<rightharpoonup> int" where
  "get_kb_tenant_map ts =
     fold (\<lambda>t m. if tgt_knowledge_base_id t \<noteq> [] then m(tgt_knowledge_base_id t \<mapsto> tgt_tenant_id t) else m)
       ts Map.empty"

definition get_tenant_id_for_kb :: "search_target list \<Rightarrow> str \<Rightarrow> int" where
  "get_tenant_id_for_kb ts kb =
     (case find (\<lambda>t. tgt_knowledge_base_id t = kb) ts of None \<Rightarrow> 0 | Some t \<Rightarrow> tgt_tenant_id t)"

definition contains_kb :: "search_target list \<Rightarrow> str \<Rightarrow> bool" where
  "contains_kb ts kb = list_ex (\<lambda>t. tgt_knowledge_base_id t = kb) ts"

definition has_recall_threshold_override :: "search_target list \<Rightarrow> bool" where
  "has_recall_threshold_override ts = list_ex tgt_disable_recall_thresholds ts"

definition filter_by_kb_ids :: "str list \<Rightarrow> search_target list \<Rightarrow> search_target list" where
  "filter_by_kb_ids kb_ids ts = filter (\<lambda>t. tgt_knowledge_base_id t \<in> set kb_ids) ts"

subsection \<open>What one target authorizes\<close>

definition effective_search_target_tag_ids :: "search_target \<Rightarrow> str list" where
  "effective_search_target_tag_ids t = dedup_non_empty_strings (tgt_tag_ids t @ tgt_scope_tag_ids t)"

definition search_target_scope :: "search_target \<Rightarrow> str list \<times> str list" where
  "search_target_scope t =
     (let knowledge_ids = dedup_non_empty_strings (tgt_knowledge_ids t)
      in if knowledge_ids \<noteq> [] then (knowledge_ids, []) else ([], effective_search_target_tag_ids t))"

definition search_target_is_whole_kb :: "search_target \<Rightarrow> bool" where
  "search_target_is_whole_kb t =
     (case search_target_scope t of (knowledge_ids, tag_ids) \<Rightarrow>
        tgt_type t = KNOWLEDGE_BASE \<and> knowledge_ids = [] \<and> tag_ids = [])"

subsection \<open>The checks\<close>

record document =
  doc_id :: str
  doc_knowledge_base_id :: str
  doc_title :: "str option"
  doc_file_name :: "str option"

record chunk_row =
  ck_id :: str
  ck_is_enabled :: bool
  ck_knowledge_base_id :: str
  ck_knowledge_id :: str

record search_result =
  sr_id :: str
  sr_knowledge_id :: str
  sr_knowledge_base_id :: str

type_synonym fetch_tags = "(str list \<Rightarrow> app_error + (str \<rightharpoonup> tag_info list)) option"
type_synonym 'a row_lookup = "(str \<Rightarrow> app_error + 'a option) option"

text \<open>Only application errors are caught by \<open>except ApplicationError\<close>.\<close>

definition is_application_error :: "app_error \<Rightarrow> bool" where
  "is_application_error e \<longleftrightarrow> e \<noteq> BackendError"

definition knowledge_ids_matching_any_tag ::
  "str list \<Rightarrow> str list \<Rightarrow> fetch_tags \<Rightarrow> app_error + (str \<rightharpoonup> bool)" where
  "knowledge_ids_matching_any_tag knowledge_ids tag_ids fetch_tags =
     (case fetch_tags of
        None \<Rightarrow> Inr Map.empty
      | Some fetch \<Rightarrow>
          if knowledge_ids = [] \<or> tag_ids = [] then Inr Map.empty
          else let unique_knowledge_ids = dedup_non_empty_strings knowledge_ids;
                   unique_tag_ids = dedup_non_empty_strings tag_ids
               in if unique_knowledge_ids = [] \<or> unique_tag_ids = [] then Inr Map.empty
                  else (case fetch unique_knowledge_ids of
                          Inl e \<Rightarrow> Inl e
                        | Inr tag_map \<Rightarrow>
                            Inr (\<lambda>kid. if kid \<in> set unique_knowledge_ids \<and>
                                          list_ex (\<lambda>tag. tg_id (ti_row tag) \<in> set unique_tag_ids)
                                            (case tag_map kid of None \<Rightarrow> [] | Some ts \<Rightarrow> ts)
                                       then Some True else None)))"

definition matched :: "(str \<rightharpoonup> bool) \<Rightarrow> str \<Rightarrow> bool" where
  "matched m kid = (case m kid of None \<Rightarrow> False | Some b \<Rightarrow> b)"

text \<open>
  The loop over the targets of a knowledge base: \<open>None\<close> is the early return that grants access,
  otherwise whether the knowledge base matched and the tags collected.
\<close>

fun scan_targets :: "search_target list \<Rightarrow> str \<Rightarrow> str \<Rightarrow> bool \<times> str list \<Rightarrow> (bool \<times> str list) option" where
  "scan_targets [] kid kb acc = Some acc"
| "scan_targets (t # ts) kid kb acc =
     (if tgt_knowledge_base_id t \<noteq> kb then scan_targets ts kid kb acc
      else if search_target_is_whole_kb t then None
      else case search_target_scope t of (knowledge_ids, tag_ids) \<Rightarrow>
        if kid \<in> set knowledge_ids then None
        else scan_targets ts kid kb (True, snd acc @ tag_ids))"

text \<open>\<open>(allowed, error)\<close>; an exception that is not an application error escapes as \<open>Inl\<close>.\<close>

definition search_targets_allow_knowledge_id ::
  "search_target list \<Rightarrow> str \<Rightarrow> str \<Rightarrow> fetch_tags \<Rightarrow> app_error + (bool \<times> app_error option)" where
  "search_targets_allow_knowledge_id ts kid kb fetch_tags =
     (if kid = [] \<or> kb = [] then Inr (False, None)
      else case scan_targets ts kid kb (False, []) of
        None \<Rightarrow> Inr (True, None)
      | Some (matched_kb, tag_ids) \<Rightarrow>
          if \<not> matched_kb \<or> tag_ids = [] \<or> fetch_tags = None then Inr (False, None)
          else (case knowledge_ids_matching_any_tag [kid] tag_ids fetch_tags of
                  Inl e \<Rightarrow> if is_application_error e then Inr (False, Some e) else Inl e
                | Inr matches \<Rightarrow> Inr (matched matches kid, None)))"

definition authorize_knowledge_in_search_targets ::
  "search_target list \<Rightarrow> str \<Rightarrow> document row_lookup \<Rightarrow> fetch_tags \<Rightarrow> app_error + document" where
  "authorize_knowledge_in_search_targets ts kid0 knowledge_service fetch_tags =
     (let kid = strip kid0
      in if kid = [] then Inl (ValidationError (lit ''tool.knowledge_id_required''))
         else case knowledge_service of
           None \<Rightarrow> Inl (ValidationError (lit ''tool.knowledge_service_unavailable''))
         | Some get_document \<Rightarrow>
             (case get_document kid of
                Inl e \<Rightarrow> Inl e
              | Inr None \<Rightarrow> Inl (NotFoundError (lit ''tool.document_not_found''))
              | Inr (Some knowledge) \<Rightarrow>
                  if \<not> contains_kb ts (doc_knowledge_base_id knowledge)
                  then Inl (PermissionDeniedError (lit ''tool.kb_out_of_scope''))
                  else (case search_targets_allow_knowledge_id ts (doc_id knowledge)
                               (doc_knowledge_base_id knowledge) fetch_tags of
                          Inl e \<Rightarrow> Inl e
                        | Inr (allowed, Some e) \<Rightarrow>
                            Inl (PermissionDeniedError (lit ''tool.scope_validation_failed''))
                        | Inr (allowed, None) \<Rightarrow>
                            if \<not> allowed
                            then Inl (PermissionDeniedError (lit ''tool.document_out_of_mention_scope''))
                            else Inr knowledge)))"

definition authorize_chunk_in_search_targets ::
  "search_target list \<Rightarrow> str \<Rightarrow> chunk_row row_lookup \<Rightarrow> fetch_tags \<Rightarrow> app_error + chunk_row" where
  "authorize_chunk_in_search_targets ts cid0 chunk_service fetch_tags =
     (let cid = strip cid0
      in if cid = [] then Inl (ValidationError (lit ''tool.chunk_id_required''))
         else case chunk_service of
           None \<Rightarrow> Inl (ValidationError (lit ''tool.chunk_service_unavailable''))
         | Some get_chunk \<Rightarrow>
             (case get_chunk cid of
                Inl e \<Rightarrow> Inl e
              | Inr None \<Rightarrow> Inl (NotFoundError (lit ''tool.chunk_not_found''))
              | Inr (Some chunk) \<Rightarrow>
                  if \<not> ck_is_enabled chunk then Inl (PermissionDeniedError (lit ''tool.chunk_disabled''))
                  else if \<not> contains_kb ts (ck_knowledge_base_id chunk)
                  then Inl (PermissionDeniedError (lit ''tool.kb_out_of_scope''))
                  else (case search_targets_allow_knowledge_id ts (ck_knowledge_id chunk)
                               (ck_knowledge_base_id chunk) fetch_tags of
                          Inl e \<Rightarrow> Inl e
                        | Inr (allowed, Some e) \<Rightarrow>
                            Inl (PermissionDeniedError (lit ''tool.scope_validation_failed''))
                        | Inr (allowed, None) \<Rightarrow>
                            if \<not> allowed
                            then Inl (PermissionDeniedError (lit ''tool.chunk_out_of_mention_scope''))
                            else Inr chunk)))"

definition validate_knowledge_base_ids_in_search_targets ::
  "search_target list \<Rightarrow> str list \<Rightarrow> app_error + unit" where
  "validate_knowledge_base_ids_in_search_targets ts kb_ids =
     (if list_all (contains_kb ts) (dedup_non_empty_strings kb_ids) then Inr ()
      else Inl (PermissionDeniedError (lit ''tool.kb_out_of_scope'')))"

definition ref_of :: "document \<Rightarrow> str" where
  "ref_of k =
     (let title0 = (case doc_title k of None \<Rightarrow> [] | Some t \<Rightarrow> strip t);
          title = (if title0 = [] then (case doc_file_name k of None \<Rightarrow> [] | Some f \<Rightarrow> strip f) else title0)
      in if title \<noteq> [] then doc_id k @ lit ''|'' @ title else doc_id k)"

fun resolve_refs ::
  "search_target list \<Rightarrow> str list \<Rightarrow> document row_lookup \<Rightarrow> fetch_tags \<Rightarrow> str set \<Rightarrow> document list
     \<Rightarrow> app_error + document list" where
  "resolve_refs ts [] ks ft seen out = Inr out"
| "resolve_refs ts (ref # refs) ks ft seen out =
     (let kid = strip (takeWhile (\<lambda>c. c \<noteq> of_char CHR ''|'') ref)
      in if kid = [] then resolve_refs ts refs ks ft seen out
         else case authorize_knowledge_in_search_targets ts kid ks ft of
           Inl e \<Rightarrow> Inl e
         | Inr k \<Rightarrow>
             if doc_id k \<in> seen then resolve_refs ts refs ks ft seen out
             else resolve_refs ts refs ks ft (insert (doc_id k) seen) (out @ [k]))"

definition resolve_authorized_source_refs ::
  "search_target list \<Rightarrow> str list \<Rightarrow> document row_lookup \<Rightarrow> fetch_tags \<Rightarrow> app_error + str list" where
  "resolve_authorized_source_refs ts refs ks ft =
     (case resolve_refs ts refs ks ft {} [] of Inl e \<Rightarrow> Inl e | Inr ks' \<Rightarrow> Inr (map ref_of ks'))"

text \<open>The batched filter: \<open>scan_all\<close> is its loop over the targets, \<open>remaining\<close> its check of the results.\<close>

fun scan_all ::
  "search_target list \<Rightarrow> str \<Rightarrow> bool \<times> str list \<times> str list \<Rightarrow> (bool \<times> str list \<times> str list) option" where
  "scan_all [] kb acc = Some acc"
| "scan_all (t # ts) kb acc =
     (if tgt_knowledge_base_id t \<noteq> kb then scan_all ts kb acc
      else if search_target_is_whole_kb t then None
      else case search_target_scope t of (knowledge_ids, tag_ids) \<Rightarrow>
        scan_all ts kb (True, fst (snd acc) @ knowledge_ids, snd (snd acc) @ tag_ids))"

fun remaining :: "str \<Rightarrow> str set \<Rightarrow> search_result list \<Rightarrow> app_error + str list" where
  "remaining kb explicit [] = Inr []"
| "remaining kb explicit (r # rs) =
     (if sr_knowledge_id r = [] then remaining kb explicit rs
      else if sr_knowledge_base_id r \<noteq> [] \<and> sr_knowledge_base_id r \<noteq> kb
      then Inl (PermissionDeniedError (lit ''tool.graph_result_mismatch''))
      else case remaining kb explicit rs of
        Inl e \<Rightarrow> Inl e
      | Inr ids \<Rightarrow> Inr (if sr_knowledge_id r \<notin> explicit then sr_knowledge_id r # ids else ids))"

definition filter_search_results_in_search_targets ::
  "search_target list \<Rightarrow> str \<Rightarrow> search_result list \<Rightarrow> fetch_tags \<Rightarrow> app_error + search_result list" where
  "filter_search_results_in_search_targets ts kb results fetch_tags =
     (case scan_all ts kb (False, [], []) of
        None \<Rightarrow> Inr results
      | Some (matched_kb, explicit_ids, tag_ids) \<Rightarrow>
          if \<not> matched_kb then Inl (PermissionDeniedError (lit ''tool.kb_out_of_scope''))
          else let explicit = set (dedup_non_empty_strings explicit_ids)
               in (case remaining kb explicit results of
                     Inl e \<Rightarrow> Inl e
                   | Inr remaining_ids \<Rightarrow>
                       if tag_ids \<noteq> [] \<and> fetch_tags = None
                       then Inl (ValidationError (lit ''tool.knowledge_service_unavailable''))
                       else (case (if tag_ids \<noteq> []
                                   then knowledge_ids_matching_any_tag remaining_ids tag_ids fetch_tags
                                   else Inr Map.empty) of
                               Inl e \<Rightarrow> Inl e
                             | Inr tag_matches \<Rightarrow>
                                 Inr (filter (\<lambda>r. sr_knowledge_id r \<noteq> [] \<and>
                                   (sr_knowledge_id r \<in> explicit \<or> matched tag_matches (sr_knowledge_id r)))
                                   results))))"

subsection \<open>The specification\<close>

text \<open>
  The scope as a relation: a target grants a document of its knowledge base when it covers the
  whole base, lists the document, or lists no document and the document carries one of its
  tags; the targets of a session are alternatives.
\<close>

definition grants :: "(str \<Rightarrow> tag_row list) \<Rightarrow> search_target \<Rightarrow> str \<Rightarrow> str \<Rightarrow> bool" where
  "grants tags t kb kid \<longleftrightarrow> tgt_knowledge_base_id t = kb \<and>
     (if set (tgt_knowledge_ids t) \<subseteq> {[]}
      then (if set (tgt_tag_ids t) \<union> set (tgt_scope_tag_ids t) \<subseteq> {[]} then tgt_type t = KNOWLEDGE_BASE
            else \<exists>r \<in> set (tags kid). tg_id r \<noteq> [] \<and> tg_id r \<in> set (tgt_tag_ids t) \<union> set (tgt_scope_tag_ids t))
      else kid \<in> set (tgt_knowledge_ids t))"

definition in_scope :: "(str \<Rightarrow> tag_row list) \<Rightarrow> search_target list \<Rightarrow> str \<Rightarrow> str \<Rightarrow> bool" where
  "in_scope tags ts kb kid \<longleftrightarrow> kid \<noteq> [] \<and> kb \<noteq> [] \<and> (\<exists>t \<in> set ts. grants tags t kb kid)"

lemma in_scope_contains_kb: "in_scope tags ts kb kid \<Longrightarrow> contains_kb ts kb"
  by (auto simp: in_scope_def grants_def contains_kb_def list_ex_iff)

text \<open>The scope of a target, read as the code reads it.\<close>

definition tagged :: "(str \<Rightarrow> tag_row list) \<Rightarrow> str list \<Rightarrow> str \<Rightarrow> bool" where
  "tagged tags tag_ids kid \<longleftrightarrow> (\<exists>r \<in> set (tags kid). tg_id r \<noteq> [] \<and> tg_id r \<in> set tag_ids)"

lemma tagged_append: "tagged tags (xs @ ys) kid \<longleftrightarrow> tagged tags xs kid \<or> tagged tags ys kid"
  by (auto simp: tagged_def)

lemma tagged_Nil [simp]: "\<not> tagged tags [] kid"
  by (simp add: tagged_def)

lemma scope_cases:
  obtains (ids) ids where "search_target_scope t = (ids, [])" "ids \<noteq> []" "set ids = set (tgt_knowledge_ids t) - {[]}"
      "\<not> set (tgt_knowledge_ids t) \<subseteq> {[]}"
    | (tags) tids where "search_target_scope t = ([], tids)" "set tids = set (tgt_tag_ids t) \<union> set (tgt_scope_tag_ids t) - {[]}"
      "set (tgt_knowledge_ids t) \<subseteq> {[]}"
proof (cases "dedup_non_empty_strings (tgt_knowledge_ids t) = []")
  case True
  then show ?thesis
    using that(2) by (simp add: search_target_scope_def effective_search_target_tag_ids_def dedup_eq_Nil_iff)
next
  case False
  then show ?thesis using that(1) by (simp add: search_target_scope_def dedup_eq_Nil_iff)
qed

lemma grants_iff:
  assumes "tgt_knowledge_base_id t = kb" and "kid \<noteq> []" and "search_target_scope t = (ids, tids)"
  shows "grants tags t kb kid \<longleftrightarrow> search_target_is_whole_kb t \<or> kid \<in> set ids \<or> tagged tags tids kid"
proof (cases rule: scope_cases [of t])
  case (ids ids')
  then show ?thesis using assms by (auto simp: grants_def search_target_is_whole_kb_def)
next
  case (tags tids')
  have "tids' = [] \<longleftrightarrow> set (tgt_tag_ids t) \<union> set (tgt_scope_tag_ids t) \<subseteq> {[]}"
    using tags(2) by (metis Diff_eq_empty_iff set_empty)
  moreover have "tids' = tids" "ids = []" using tags(1) assms(3) by simp_all
  ultimately show ?thesis
    using tags assms by (auto simp: grants_def search_target_is_whole_kb_def tagged_def)
qed

end
