(* ===== verification/Scope_Properties.thy ===== *)
theory Scope_Properties
  imports Scope_Auth Tag_Properties
begin

text \<open>
  The scope checks implement the scope relation: proved once for any tag source, then for the
  tag service, whose fetch never fails.
\<close>

lemma scan_targets_law:
  assumes "kid \<noteq> []"
  shows "case scan_targets ts kid kb acc of
      None \<Rightarrow> \<exists>t \<in> set ts. grants tags t kb kid
    | Some (m, tids) \<Rightarrow>
        ((\<exists>t \<in> set ts. grants tags t kb kid) \<or> tagged tags (snd acc) kid \<longleftrightarrow> tagged tags tids kid) \<and>
        (m \<longleftrightarrow> fst acc \<or> contains_kb ts kb)"
proof (induction ts arbitrary: acc)
  case Nil
  then show ?case by (cases acc) (simp add: contains_kb_def)
next
  case (Cons t ts)
  show ?case
  proof (cases "tgt_knowledge_base_id t = kb")
    case False
    then have "\<not> grants tags t kb kid" by (simp add: grants_def)
    then show ?thesis using Cons.IH [of acc] False by (auto simp: contains_kb_def split: option.splits)
  next
    case True
    obtain ids tids where sc: "search_target_scope t = (ids, tids)" by fastforce
    note g = grants_iff [OF True assms sc, of tags]
    show ?thesis
    proof (cases "search_target_is_whole_kb t \<or> kid \<in> set ids")
      case True
      then have "scan_targets (t # ts) kid kb acc = None" using \<open>tgt_knowledge_base_id t = kb\<close> sc by auto
      then show ?thesis using g True by auto
    next
      case False
      then have e: "scan_targets (t # ts) kid kb acc = scan_targets ts kid kb (True, snd acc @ tids)"
        using True sc by simp
      show ?thesis
        unfolding e using Cons.IH [of "(True, snd acc @ tids)"] g False True
        by (auto simp: tagged_append contains_kb_def split: option.splits)
    qed
  qed
qed

lemma scan_all_law:
  assumes "kid \<noteq> []"
  shows "case scan_all ts kb acc of
      None \<Rightarrow> \<exists>t \<in> set ts. tgt_knowledge_base_id t = kb \<and> search_target_is_whole_kb t
    | Some (m, ids, tids) \<Rightarrow>
        ((\<exists>t \<in> set ts. grants tags t kb kid) \<or> kid \<in> set (fst (snd acc)) \<or> tagged tags (snd (snd acc)) kid \<longleftrightarrow>
           kid \<in> set ids \<or> tagged tags tids kid) \<and>
        (m \<longleftrightarrow> fst acc \<or> contains_kb ts kb)"
proof (induction ts arbitrary: acc)
  case Nil
  then show ?case by (cases acc) (simp add: contains_kb_def)
next
  case (Cons t ts)
  show ?case
  proof (cases "tgt_knowledge_base_id t = kb")
    case False
    then have "\<not> grants tags t kb kid" by (simp add: grants_def)
    then show ?thesis using Cons.IH [of acc] False by (auto simp: contains_kb_def split: option.splits)
  next
    case True
    obtain ids tids where sc: "search_target_scope t = (ids, tids)" by fastforce
    note g = grants_iff [OF True assms sc, of tags]
    show ?thesis
    proof (cases "search_target_is_whole_kb t")
      case w: True
      then show ?thesis using True by simp
    next
      case False
      then have e: "scan_all (t # ts) kb acc = scan_all ts kb (True, fst (snd acc) @ ids, snd (snd acc) @ tids)"
        using True sc by simp
      show ?thesis
        unfolding e using Cons.IH [of "(True, fst (snd acc) @ ids, snd (snd acc) @ tids)"] g False True
        by (auto simp: tagged_append contains_kb_def split: option.splits)
    qed
  qed
qed

lemma remaining_law:
  "case remaining kb explicit rs of
     Inl e \<Rightarrow> e = PermissionDeniedError (lit ''tool.graph_result_mismatch'') \<and>
       (\<exists>r \<in> set rs. sr_knowledge_id r \<noteq> [] \<and> sr_knowledge_base_id r \<notin> {[], kb})
   | Inr ids \<Rightarrow> set ids = {sr_knowledge_id r | r. r \<in> set rs \<and> sr_knowledge_id r \<noteq> [] \<and> sr_knowledge_id r \<notin> explicit} \<and>
       (\<forall>r \<in> set rs. sr_knowledge_id r \<noteq> [] \<longrightarrow> sr_knowledge_base_id r \<in> {[], kb})"
proof (induction rs)
  case Nil
  then show ?case by simp
next
  case (Cons r rs)
  then show ?case by (auto split: sum.splits)
qed

context tag_source
begin

lemma matching_law:
  assumes "knowledge_ids_matching_any_tag ids tids (Some (fetch s)) = res"
  shows "case res of
      Inl e \<Rightarrow> fetch s (dedup_non_empty_strings ids) = Inl e
    | Inr m \<Rightarrow> matched m kid \<longleftrightarrow> kid \<in> set ids \<and> kid \<noteq> [] \<and> tagged (tags s) tids kid"
proof -
  consider (empty) "ids = [] \<or> tids = [] \<or> dedup_non_empty_strings ids = [] \<or> dedup_non_empty_strings tids = []"
    | (failed) e where "fetch s (dedup_non_empty_strings ids) = Inl e" "ids \<noteq> []" "tids \<noteq> []"
        "dedup_non_empty_strings ids \<noteq> []" "dedup_non_empty_strings tids \<noteq> []"
    | (fetched) m where "fetch s (dedup_non_empty_strings ids) = Inr m" "ids \<noteq> []" "tids \<noteq> []"
        "dedup_non_empty_strings ids \<noteq> []" "dedup_non_empty_strings tids \<noteq> []"
    by (cases "fetch s (dedup_non_empty_strings ids)") blast+
  then show ?thesis
  proof cases
    case empty
    then have "res = Inr Map.empty" using assms by (auto simp: knowledge_ids_matching_any_tag_def Let_def)
    moreover have "\<not> (kid \<in> set ids \<and> kid \<noteq> [] \<and> tagged (tags s) tids kid)"
      using empty by (auto simp: tagged_def dedup_eq_Nil_iff)
    ultimately show ?thesis by (simp add: matched_def)
  next
    case failed
    then show ?thesis using assms by (auto simp: knowledge_ids_matching_any_tag_def Let_def)
  next
    case fetched
    let ?ts = "case m kid of None \<Rightarrow> [] | Some ts \<Rightarrow> ts"
    have r: "res = Inr (\<lambda>kid. if kid \<in> set (dedup_non_empty_strings ids) \<and>
        list_ex (\<lambda>tag. tg_id (ti_row tag) \<in> set (dedup_non_empty_strings tids)) (case m kid of None \<Rightarrow> [] | Some ts \<Rightarrow> ts)
        then Some True else None)"
      using assms fetched by (simp add: knowledge_ids_matching_any_tag_def Let_def)
    show ?thesis
    proof (cases "kid \<in> set (dedup_non_empty_strings ids)")
      case True
      have "list_ex (\<lambda>tag. tg_id (ti_row tag) \<in> set (dedup_non_empty_strings tids)) ?ts \<longleftrightarrow>
          (\<exists>row \<in> set (map ti_row ?ts). tg_id row \<in> set (dedup_non_empty_strings tids))"
        by (auto simp: list_ex_iff)
      also have "\<dots> \<longleftrightarrow> tagged (tags s) tids kid"
        unfolding fetch_law [OF fetched(1) True] by (auto simp: tagged_def)
      finally show ?thesis using True by (simp add: r matched_def)
    next
      case False
      then show ?thesis by (auto simp: r matched_def)
    qed
  qed
qed

lemma allow_law:
  assumes "search_targets_allow_knowledge_id ts kid kb (Some (fetch s)) = res"
  shows "case res of
      Inl e \<Rightarrow> fetch s [kid] = Inl e
    | Inr (allowed, Some e) \<Rightarrow> \<not> allowed \<and> fetch s [kid] = Inl e
    | Inr (allowed, None) \<Rightarrow> allowed \<longleftrightarrow> in_scope (tags s) ts kb kid"
proof (cases "kid = [] \<or> kb = []")
  case True
  then show ?thesis using assms by (auto simp: search_targets_allow_knowledge_id_def in_scope_def)
next
  case False
  then have ne: "kid \<noteq> []" "kb \<noteq> []" by auto
  have d: "dedup_non_empty_strings [kid] = [kid]" using ne by (simp add: dedup_id)
  note law = scan_targets_law [OF ne(1), where ts = ts and kb = kb and acc = "(False, [])" and tags = "tags s"]
  show ?thesis
  proof (cases "scan_targets ts kid kb (False, [])")
    case None
    then show ?thesis using assms law ne by (auto simp: search_targets_allow_knowledge_id_def in_scope_def)
  next
    case (Some p)
    then obtain m tids where p: "scan_targets ts kid kb (False, []) = Some (m, tids)" by (cases p) auto
    have spec: "in_scope (tags s) ts kb kid \<longleftrightarrow> tagged (tags s) tids kid" "m \<longleftrightarrow> contains_kb ts kb"
      using law ne by (auto simp: p in_scope_def)
    show ?thesis
    proof (cases "\<not> m \<or> tids = []")
      case True
      then have "res = Inr (False, None)" using assms p ne by (auto simp: search_targets_allow_knowledge_id_def)
      moreover have "\<not> in_scope (tags s) ts kb kid"
        using True spec in_scope_contains_kb by auto
      ultimately show ?thesis by simp
    next
      case False
      obtain r where r: "knowledge_ids_matching_any_tag [kid] tids (Some (fetch s)) = r" by blast
      show ?thesis
        using matching_law [OF r, of kid] assms p ne False spec d r
        by (auto simp: search_targets_allow_knowledge_id_def split: sum.splits if_splits)
    qed
  qed
qed

lemma authorize_knowledge_law:
  assumes "authorize_knowledge_in_search_targets ts kid ks (Some (fetch s)) = Inr k"
  shows "\<exists>get. ks = Some get \<and> strip kid \<noteq> [] \<and> get (strip kid) = Inr (Some k) \<and>
    in_scope (tags s) ts (doc_knowledge_base_id k) (doc_id k)"
  using assms allow_law [of ts _ _ s, OF refl]
  by (fastforce simp: authorize_knowledge_in_search_targets_def Let_def
      split: option.splits sum.splits prod.splits if_splits)

lemma authorize_chunk_law:
  assumes "authorize_chunk_in_search_targets ts cid cs (Some (fetch s)) = Inr c"
  shows "\<exists>get. cs = Some get \<and> strip cid \<noteq> [] \<and> get (strip cid) = Inr (Some c) \<and> ck_is_enabled c \<and>
    in_scope (tags s) ts (ck_knowledge_base_id c) (ck_knowledge_id c)"
  using assms allow_law [of ts _ _ s, OF refl]
  by (fastforce simp: authorize_chunk_in_search_targets_def Let_def
      split: option.splits sum.splits prod.splits if_splits)

lemma resolve_refs_law:
  assumes "resolve_refs ts refs ks (Some (fetch s)) seen out = Inr docs"
    and "set (map doc_id out) = seen" and "distinct (map doc_id out)"
  shows "distinct (map doc_id docs) \<and>
    (\<forall>k \<in> set docs. k \<in> set out \<or> in_scope (tags s) ts (doc_knowledge_base_id k) (doc_id k))"
  using assms
proof (induction ts refs ks "Some (fetch s)" seen out rule: resolve_refs.induct)
  case (1 ts ks seen out)
  then show ?case by simp
next
  case (2 ts ref refs ks seen out)
  let ?kid = "strip (takeWhile (\<lambda>c. c \<noteq> of_char CHR ''|'') ref)"
  show ?case
  proof (cases "?kid = []")
    case True
    then show ?thesis using "2.hyps"(1) [OF refl True] "2.prems" by simp
  next
    case False
    then obtain k where k: "authorize_knowledge_in_search_targets ts ?kid ks (Some (fetch s)) = Inr k"
      using "2.prems"(1) by (auto simp: Let_def split: sum.splits)
    show ?thesis
    proof (cases "doc_id k \<in> seen")
      case True
      then show ?thesis using "2.hyps"(2) [OF refl False k True] "2.prems" False k by (simp add: Let_def)
    next
      case new: False
      have e: "resolve_refs ts refs ks (Some (fetch s)) (insert (doc_id k) seen) (out @ [k]) = Inr docs"
        using "2.prems"(1) False k new by (simp add: Let_def)
      have "distinct (map doc_id docs) \<and> (\<forall>q \<in> set docs. q \<in> set (out @ [k]) \<or>
          in_scope (tags s) ts (doc_knowledge_base_id q) (doc_id q))"
        by (rule "2.hyps"(3) [OF refl False k new e]) (use "2.prems"(2,3) new in auto)
      then show ?thesis using authorize_knowledge_law [OF k] by auto
    qed
  qed
qed

lemma filter_law:
  assumes "filter_search_results_in_search_targets ts kb results (Some (fetch s)) = Inr out"
    and "kb \<noteq> []"
    and whole: "\<not> (\<exists>t \<in> set ts. tgt_knowledge_base_id t = kb \<and> search_target_is_whole_kb t)"
  shows "out = filter (\<lambda>r. in_scope (tags s) ts kb (sr_knowledge_id r)) results \<and>
    (\<forall>r \<in> set results. sr_knowledge_id r \<noteq> [] \<longrightarrow> sr_knowledge_base_id r \<in> {[], kb})"
proof -
  have "[0 :: nat] \<noteq> []" by simp
  from scan_all_law [OF this, where ts = ts and kb = kb and acc = "(False, [], [])" and tags = "tags s"] whole
  obtain m ids tids where sc: "scan_all ts kb (False, [], []) = Some (m, ids, tids)" by (auto split: option.splits)
  then have m: m using assms(1) by (auto simp: filter_search_results_in_search_targets_def split: if_splits)
  let ?ex = "set (dedup_non_empty_strings ids)"
  obtain rem where rem: "remaining kb ?ex results = Inr rem"
    using assms(1) sc m by (auto simp: filter_search_results_in_search_targets_def Let_def split: sum.splits)
  have rlaw: "set rem = {sr_knowledge_id r | r. r \<in> set results \<and> sr_knowledge_id r \<noteq> [] \<and> sr_knowledge_id r \<notin> ?ex}"
    and kbs: "\<forall>r \<in> set results. sr_knowledge_id r \<noteq> [] \<longrightarrow> sr_knowledge_base_id r \<in> {[], kb}"
    using remaining_law [where kb = kb and explicit = ?ex and rs = results] unfolding rem sum.case by blast+
  obtain tm where tm: "(if tids \<noteq> [] then knowledge_ids_matching_any_tag rem tids (Some (fetch s)) else Inr Map.empty) = Inr tm"
    and out: "out = filter (\<lambda>r. sr_knowledge_id r \<noteq> [] \<and> (sr_knowledge_id r \<in> ?ex \<or> matched tm (sr_knowledge_id r))) results"
    using assms(1) sc m rem
    by (auto simp: filter_search_results_in_search_targets_def Let_def split: sum.splits if_splits)
  have mt: "matched tm kid \<longleftrightarrow> kid \<in> set rem \<and> kid \<noteq> [] \<and> tagged (tags s) tids kid" for kid
    using tm matching_law [of rem tids s "Inr tm" kid] by (auto simp: matched_def split: if_splits)
  have same: "sr_knowledge_id r \<noteq> [] \<and> (sr_knowledge_id r \<in> ?ex \<or> matched tm (sr_knowledge_id r)) \<longleftrightarrow>
      in_scope (tags s) ts kb (sr_knowledge_id r)" if "r \<in> set results" for r
  proof (cases "sr_knowledge_id r = []")
    case True
    then show ?thesis by (simp add: in_scope_def)
  next
    case False
    have "(\<exists>t \<in> set ts. grants (tags s) t kb (sr_knowledge_id r)) \<longleftrightarrow>
        sr_knowledge_id r \<in> set ids \<or> tagged (tags s) tids (sr_knowledge_id r)"
      using scan_all_law [OF False, where ts = ts and kb = kb and acc = "(False, [], [])" and tags = "tags s"] by (simp add: sc)
    moreover have "sr_knowledge_id r \<in> set rem \<longleftrightarrow> sr_knowledge_id r \<notin> ?ex"
      unfolding rlaw using that False by auto
    ultimately show ?thesis using False assms(2) by (auto simp: in_scope_def mt)
  qed
  have "out = filter (\<lambda>r. in_scope (tags s) ts kb (sr_knowledge_id r)) results"
    unfolding out by (rule filter_cong [OF refl same])
  with kbs show ?thesis by blast
qed

end

subsection \<open>Properties over the tag service\<close>

lemma tag_service_no_error: "tag_service_fetch d ids \<noteq> Inl e"
  by (simp add: tag_service_fetch_def)

lemma allow_tag_service:
  "search_targets_allow_knowledge_id ts kid kb (Some (tag_service_fetch d)) = Inr (in_scope (tags_of d) ts kb kid, None)"
proof (cases "search_targets_allow_knowledge_id ts kid kb (Some (tag_service_fetch d))")
  case (Inl e)
  then show ?thesis using tag_service.allow_law [OF Inl] by (simp add: tag_service_no_error)
next
  case (Inr p)
  then show ?thesis
    using tag_service.allow_law [OF Inr] by (cases p) (auto simp: tag_service_no_error split: option.splits)
qed

text \<open>C13: A document id is authorized exactly when it names a stored document that the session's targets
  grant: one target of its knowledge base covers the whole base, lists the document, or lists
  none and the document carries one of its tags. No handle, however well formed, opens a
  document outside that scope.\<close>

theorem authorize_knowledge_iff:
  "authorize_knowledge_in_search_targets ts kid (Some get) (Some (tag_service_fetch d)) = Inr k \<longleftrightarrow>
     strip kid \<noteq> [] \<and> get (strip kid) = Inr (Some k) \<and>
     in_scope (tags_of d) ts (doc_knowledge_base_id k) (doc_id k)"
  using in_scope_contains_kb [of "tags_of d" ts "doc_knowledge_base_id k" "doc_id k"]
  by (auto simp: authorize_knowledge_in_search_targets_def allow_tag_service Let_def
      split: option.splits sum.splits if_splits)

text \<open>The same boundary for chunk ids: a chunk is returned exactly when it is stored, enabled, and
  its owning document is in the session's scope.\<close>

theorem authorize_chunk_iff:
  "authorize_chunk_in_search_targets ts cid (Some get) (Some (tag_service_fetch d)) = Inr c \<longleftrightarrow>
     strip cid \<noteq> [] \<and> get (strip cid) = Inr (Some c) \<and> ck_is_enabled c \<and>
     in_scope (tags_of d) ts (ck_knowledge_base_id c) (ck_knowledge_id c)"
  using in_scope_contains_kb [of "tags_of d" ts "ck_knowledge_base_id c" "ck_knowledge_id c"]
  by (auto simp: authorize_chunk_in_search_targets_def allow_tag_service Let_def
      split: option.splits sum.splits if_splits)


text \<open>Source references are rebuilt from authorized rows only: whatever ids and titles the model
  supplies, each returned reference is the id and title of a stored document in scope, and no
  document is referenced twice.\<close>

theorem resolve_refs_authorized:
  assumes "resolve_authorized_source_refs ts refs ks (Some (tag_service_fetch d)) = Inr out"
  shows "\<exists>docs. out = map ref_of docs \<and> distinct (map doc_id docs) \<and>
    (\<forall>k \<in> set docs. in_scope (tags_of d) ts (doc_knowledge_base_id k) (doc_id k))"
proof -
  from assms obtain docs where r: "resolve_refs ts refs ks (Some (tag_service_fetch d)) {} [] = Inr docs"
    and out: "out = map ref_of docs"
    by (auto simp: resolve_authorized_source_refs_def split: sum.splits)
  from tag_service.resolve_refs_law [OF r] out show ?thesis by auto
qed

subsection \<open>Witnesses\<close>

definition demo_target :: "str list \<Rightarrow> str list \<Rightarrow> search_target" where
  "demo_target ids tags = \<lparr>tgt_type = KNOWLEDGE_BASE, tgt_knowledge_base_id = lit ''kb'', tgt_tenant_id = 7,
     tgt_knowledge_ids = ids, tgt_tag_ids = tags, tgt_scope_tag_ids = [], tgt_disable_recall_thresholds = False\<rparr>"

definition demo_document :: document where
  "demo_document = \<lparr>doc_id = lit ''d1'', doc_knowledge_base_id = lit ''kb'', doc_title = Some (lit ''T''), doc_file_name = None\<rparr>"

definition demo_bound :: tags_db where
  "demo_bound = set_knowledge_tags (lit ''d1'') [lit ''t1''] demo_tags"

lemma demo_tags_of: "map tg_id (tags_of demo_bound (lit ''d1'')) = [lit ''t1'']"
  by (simp add: demo_bound_def demo_tags_eq demo_tag_def tags_of_def set_knowledge_tags_def repo_set_knowledge_tags_def
      dedup_non_empty_strings_def map_filter_simps)

lemma demo_in_scope: "in_scope (tags_of demo_bound) [demo_target [] [lit ''t1'']] (lit ''kb'') (lit ''d1'')"
proof -
  obtain r where "r \<in> set (tags_of demo_bound (lit ''d1''))" "tg_id r = lit ''t1''"
    using demo_tags_of by (cases "tags_of demo_bound (lit ''d1'')") auto
  then show ?thesis by (auto simp: in_scope_def grants_def demo_target_def intro!: bexI [of _ r])
qed


theorem resolve_refs_authorized_witness:
  "\<exists>out docs. resolve_authorized_source_refs [demo_target [] [lit ''t1'']] [lit ''d1|forged'']
       (Some (\<lambda>_. Inr (Some demo_document))) (Some (tag_service_fetch demo_bound)) = Inr out \<and>
     out = map ref_of docs \<and> distinct (map doc_id docs)"
proof -
  have sp: "strip (takeWhile (\<lambda>c. c \<noteq> 124) (lit ''d1|forged'')) = lit ''d1''"
    "strip (lit ''d1'') = lit ''d1''"
    by (simp_all add: lit_def strip_def is_space_def)
  have "authorize_knowledge_in_search_targets [demo_target [] [lit ''t1'']] (lit ''d1'')
      (Some (\<lambda>_. Inr (Some demo_document))) (Some (tag_service_fetch demo_bound)) = Inr demo_document"
    using authorize_knowledge_iff [of _ "lit ''d1''" "\<lambda>_. Inr (Some demo_document)"] demo_in_scope sp
    by (simp add: demo_document_def)
  then have e: "resolve_authorized_source_refs [demo_target [] [lit ''t1'']] [lit ''d1|forged'']
      (Some (\<lambda>_. Inr (Some demo_document))) (Some (tag_service_fetch demo_bound)) = Inr [ref_of demo_document]"
    by (simp add: resolve_authorized_source_refs_def sp Let_def)
  from resolve_refs_authorized [OF e] obtain docs where "[ref_of demo_document] = map ref_of docs"
    "distinct (map doc_id docs)" by (elim exE conjE) (rule that)
  with e show ?thesis by (intro exI [of _ "[ref_of demo_document]"] exI [of _ docs]) simp
qed

end
