(* ===== verification/Handle_Table.thy ===== *)
theory Handle_Table
  imports KB_Prelude
begin

text \<open>
  Model-visible handles: the table of
  src/src/core/agents/engine/modelcontext/handle_table.py and the word-bounded wrapper of
  handles.py beside it. The dictionaries are association lists in insertion order; the compiled
  pattern of an entry is determined by its handle and not stored. The word characters of the
  regular expression \<open>\b\<close> (Unicode letters, digits, underscore) are a parameter.
\<close>

subsection \<open>Numbers\<close>

fun decimal :: "nat \<Rightarrow> str" where
  "decimal n = (if n < 10 then [48 + n] else decimal (n div 10) @ [48 + n mod 10])"

declare decimal.simps [simp del]

definition pad_zero :: "nat \<Rightarrow> str \<Rightarrow> str" where
  "pad_zero width s = replicate (width - length s) 48 @ s"

definition undecimal :: "str \<Rightarrow> nat" where
  "undecimal s = foldl (\<lambda>acc c. 10 * acc + (c - 48)) 0 s"

lemma undecimal_append: "undecimal (s @ [48 + d]) = 10 * undecimal s + d"
  by (simp add: undecimal_def)

lemma undecimal_decimal: "undecimal (decimal n) = n"
proof (induction n rule: decimal.induct)
  case (1 n)
  show ?case
  proof (cases "n < 10")
    case True
    then show ?thesis by (subst decimal.simps) (simp add: undecimal_def)
  next
    case False
    then show ?thesis using 1 by (subst decimal.simps) (simp add: undecimal_append)
  qed
qed

lemma undecimal_pad: "undecimal (pad_zero w s) = undecimal s"
proof -
  have "foldl (\<lambda>acc c. 10 * acc + (c - 48)) 0 (replicate k 48 @ s) = undecimal s" for k
    by (induction k) (simp_all add: undecimal_def)
  then show ?thesis by (simp add: undecimal_def pad_zero_def)
qed

lemma decimal_digits: "c \<in> set (decimal n) \<Longrightarrow> 48 \<le> c \<and> c \<le> 57"
proof (induction n rule: decimal.induct)
  case (1 n)
  show ?case
  proof (cases "n < 10")
    case True
    then show ?thesis using "1.prems" by (subst (asm) decimal.simps) auto
  next
    case False
    have "c \<in> set (decimal (n div 10)) \<or> c = 48 + n mod 10"
      using "1.prems" False by (subst (asm) decimal.simps) auto
    then show ?thesis using "1.IH" [OF False] by auto
  qed
qed

lemma decimal_nonempty: "decimal n \<noteq> []"
  by (subst decimal.simps) auto

subsection \<open>The table\<close>

record 'm handle_entry =
  he_value :: str
  he_meta :: 'm

record 'm handle_table =
  ht_prefix :: str
  ht_width :: nat
  ht_next :: nat
  ht_handle_by_key :: "(str \<times> str) list"
  ht_entry_by_handle :: "(str \<times> 'm handle_entry) list"

definition new_table :: "str \<Rightarrow> nat \<Rightarrow> nat \<Rightarrow> 'm handle_table" where
  "new_table prefix width start =
     \<lparr>ht_prefix = prefix, ht_width = width, ht_next = start, ht_handle_by_key = [],
      ht_entry_by_handle = []\<rparr>"

definition handle_number :: "nat \<Rightarrow> nat \<Rightarrow> str" where
  "handle_number width n = (if 0 < width then pad_zero width (decimal n) else decimal n)"

definition register_key ::
  "str \<Rightarrow> str \<Rightarrow> 'm \<Rightarrow> ('m \<Rightarrow> 'm \<Rightarrow> 'm) option \<Rightarrow> 'm handle_table \<Rightarrow> str \<times> 'm handle_table" where
  "register_key key value meta merge T =
     (if key = [] then ([], T)
      else case map_of (ht_handle_by_key T) key of
        Some existing \<Rightarrow>
          (case merge of
             None \<Rightarrow> (existing, T)
           | Some f \<Rightarrow>
               (case map_of (ht_entry_by_handle T) existing of
                  None \<Rightarrow> (existing, T)
                | Some entry \<Rightarrow>
                    (existing,
                     T\<lparr>ht_entry_by_handle := AList.update existing
                         (entry\<lparr>he_meta := f (he_meta entry) meta\<rparr>) (ht_entry_by_handle T)\<rparr>)))
      | None \<Rightarrow>
          let handle = ht_prefix T @ handle_number (ht_width T) (ht_next T)
          in (handle,
              T\<lparr>ht_next := Suc (ht_next T),
                ht_handle_by_key := AList.update key handle (ht_handle_by_key T),
                ht_entry_by_handle := AList.update handle \<lparr>he_value = value, he_meta = meta\<rparr>
                  (ht_entry_by_handle T)\<rparr>))"

definition handle_for_key :: "str \<Rightarrow> 'm handle_table \<Rightarrow> str option" where
  "handle_for_key key T = map_of (ht_handle_by_key T) key"

definition resolve_handle :: "str \<Rightarrow> 'm handle_table \<Rightarrow> (str \<times> 'm) option" where
  "resolve_handle handle T =
     map_option (\<lambda>e. (he_value e, he_meta e)) (map_of (ht_entry_by_handle T) handle)"

definition has_handle :: "str \<Rightarrow> 'm handle_table \<Rightarrow> bool" where
  "has_handle handle T \<longleftrightarrow> map_of (ht_entry_by_handle T) handle \<noteq> None"

definition table_size :: "'m handle_table \<Rightarrow> nat" where
  "table_size T = length (ht_entry_by_handle T)"

text \<open>\<open>(value, handle)\<close> pairs.\<close>

definition handle_pairs :: "'m handle_table \<Rightarrow> (str \<times> str) list" where
  "handle_pairs T = map (\<lambda>(handle, e). (he_value e, handle)) (ht_entry_by_handle T)"

subsection \<open>The word-bounded wrapper\<close>

definition wrap_register :: "str \<Rightarrow> unit handle_table \<Rightarrow> str \<times> unit handle_table" where
  "wrap_register value0 T =
     (let value = strip value0 in if value = [] then ([], T) else register_key value value () None T)"

definition wrap_resolve :: "str \<Rightarrow> unit handle_table \<Rightarrow> str option" where
  "wrap_resolve handle T = map_option fst (resolve_handle (strip handle) T)"

definition wrap_handle :: "str \<Rightarrow> unit handle_table \<Rightarrow> str option" where
  "wrap_handle value0 T = handle_for_key value0 T"

definition wrap_empty :: "unit handle_table \<Rightarrow> bool" where
  "wrap_empty T \<longleftrightarrow> table_size T = 0"

definition wrap_len :: "unit handle_table \<Rightarrow> nat" where
  "wrap_len T = table_size T"

text \<open>\<open>sorted(..., key=..., reverse=True)\<close> is stable: equal keys keep their order.\<close>

definition longest_first :: "('a \<Rightarrow> str) \<Rightarrow> 'a list \<Rightarrow> 'a list" where
  "longest_first f xs = sort_key (\<lambda>x. - int (length (f x))) xs"

definition encode_known_text :: "str \<Rightarrow> unit handle_table \<Rightarrow> str" where
  "encode_known_text value T =
     (if value = [] then value
      else fold (\<lambda>(v, h) text. str_replace v h text) (longest_first fst (handle_pairs T)) value)"

text \<open>\<open>\bH\b\<close> substitution: \<open>prev\<close> is the character before the rest of the text.\<close>

definition word_edge :: "(rune \<Rightarrow> bool) \<Rightarrow> rune option \<Rightarrow> rune option \<Rightarrow> bool" where
  "word_edge word a b \<longleftrightarrow>
     (case a of None \<Rightarrow> False | Some c \<Rightarrow> word c) \<noteq> (case b of None \<Rightarrow> False | Some c \<Rightarrow> word c)"

definition first_of :: "str \<Rightarrow> rune option" where
  "first_of s = (case s of [] \<Rightarrow> None | c # cs \<Rightarrow> Some c)"

function word_sub :: "(rune \<Rightarrow> bool) \<Rightarrow> str \<Rightarrow> str \<Rightarrow> rune option \<Rightarrow> str \<Rightarrow> str" where
  "word_sub word h v prev [] = []"
| "word_sub word h v prev (c # cs) =
     (if starts_with h (c # cs) \<and> h \<noteq> [] \<and> word_edge word prev (first_of h) \<and>
         word_edge word (Some (last h)) (first_of (drop (length h) (c # cs)))
      then v @ word_sub word h v (Some (last h)) (drop (length h - 1) cs)
      else c # word_sub word h v (Some c) cs)"
  by pat_completeness auto
termination
  by (relation "measure (\<lambda>(word, h, v, prev, s). length s)") auto

definition decode_known_text :: "(rune \<Rightarrow> bool) \<Rightarrow> unit handle_table \<Rightarrow> str \<Rightarrow> str" where
  "decode_known_text word T value =
     (if value = [] then value
      else fold (\<lambda>(v, h) text. word_sub word h v None text) (longest_first snd (handle_pairs T)) value)"

subsection \<open>The table is a bijection\<close>

definition table_ok :: "nat \<Rightarrow> 'm handle_table \<Rightarrow> bool" where
  "table_ok start T \<longleftrightarrow> start \<le> ht_next T \<and>
     distinct (map fst (ht_handle_by_key T)) \<and>
     map snd (ht_handle_by_key T) = map fst (ht_entry_by_handle T) \<and>
     map fst (ht_entry_by_handle T) = map (\<lambda>n. ht_prefix T @ handle_number (ht_width T) n) [start..<ht_next T] \<and>
     [] \<notin> fst ` set (ht_handle_by_key T)"

lemma handle_number_inj: "handle_number w m = handle_number w n \<longleftrightarrow> m = n"
proof
  assume e: "handle_number w m = handle_number w n"
  have "undecimal (handle_number w k) = k" for k
    by (simp add: handle_number_def undecimal_pad undecimal_decimal)
  with arg_cong [OF e, of undecimal] show "m = n" by simp
qed simp

lemma table_ok_distinct: "table_ok start T \<Longrightarrow> distinct (map fst (ht_entry_by_handle T))"
  by (auto simp: table_ok_def distinct_map inj_on_def handle_number_inj)

lemma new_table_ok: "table_ok start (new_table prefix width start)"
  by (simp add: table_ok_def new_table_def)

lemma update_new: "k \<notin> fst ` set al \<Longrightarrow> AList.update k v al = al @ [(k, v)]"
  by (induction al) auto

lemma map_fst_update_old: "k \<in> fst ` set al \<Longrightarrow> map fst (AList.update k v al) = map fst al"
  by (induction al) auto

lemma next_handle_new:
  assumes "table_ok start T"
  shows "ht_prefix T @ handle_number (ht_width T) (ht_next T) \<notin> fst ` set (ht_entry_by_handle T)"
proof -
  have "map fst (ht_entry_by_handle T) = map (\<lambda>n. ht_prefix T @ handle_number (ht_width T) n) [start..<ht_next T]"
    using assms by (simp add: table_ok_def)
  from arg_cong [OF this, of set]
  have "fst ` set (ht_entry_by_handle T) = (\<lambda>n. ht_prefix T @ handle_number (ht_width T) n) ` {start..<ht_next T}"
    by simp
  then show ?thesis by (auto simp: handle_number_inj)
qed

lemma register_cases:
  assumes "table_ok start T" and "register_key key value meta merge T = (h, T')"
  obtains (blank) "key = []" "h = []" "T' = T"
    | (known) "map_of (ht_handle_by_key T) key = Some h" "ht_handle_by_key T' = ht_handle_by_key T"
        "ht_next T' = ht_next T" "map fst (ht_entry_by_handle T') = map fst (ht_entry_by_handle T)"
        "ht_prefix T' = ht_prefix T" "ht_width T' = ht_width T"
        "\<And>g. map_option he_value (map_of (ht_entry_by_handle T') g) = map_option he_value (map_of (ht_entry_by_handle T) g)"
    | (new) "key \<noteq> []" "map_of (ht_handle_by_key T) key = None"
        "h = ht_prefix T @ handle_number (ht_width T) (ht_next T)" "h \<notin> fst ` set (ht_entry_by_handle T)"
        "T' = T\<lparr>ht_next := Suc (ht_next T), ht_handle_by_key := ht_handle_by_key T @ [(key, h)],
                ht_entry_by_handle := ht_entry_by_handle T @ [(h, \<lparr>he_value = value, he_meta = meta\<rparr>)]\<rparr>"
proof (cases "key = []")
  case True
  then show ?thesis using assms(2) blank by (simp add: register_key_def)
next
  case ne: False
  show ?thesis
  proof (cases "map_of (ht_handle_by_key T) key")
    case None
    then have "key \<notin> fst ` set (ht_handle_by_key T)" by (simp add: map_of_eq_None_iff)
    then show ?thesis
      using assms(2) ne None next_handle_new [OF assms(1)]
      by (intro new) (auto simp: register_key_def Let_def update_new)
  next
    case (Some e)
    show ?thesis
    proof (cases "\<exists>f entry. merge = Some f \<and> map_of (ht_entry_by_handle T) e = Some entry")
      case True
      then obtain f entry where f: "merge = Some f" "map_of (ht_entry_by_handle T) e = Some entry" by blast
      then have mem: "e \<in> fst ` set (ht_entry_by_handle T)" by (metis map_of_eq_None_iff option.distinct(1))
      have fst: "map fst (AList.update e x (ht_entry_by_handle T)) = map fst (ht_entry_by_handle T)" for x
        by (rule map_fst_update_old [OF mem])
      have eq: "h = e" "T' = T\<lparr>ht_entry_by_handle := AList.update e (entry\<lparr>he_meta := f (he_meta entry) meta\<rparr>)
          (ht_entry_by_handle T)\<rparr>"
        using assms(2) ne Some f by (auto simp: register_key_def)
      show ?thesis
        unfolding eq using Some fst f by (intro known) (simp_all add: eq update_conv')
    next
      case False
      then show ?thesis
        using assms(2) ne Some by (intro known) (auto simp: register_key_def split: option.splits)
    qed
  qed
qed

lemma register_ok:
  assumes "table_ok start T" and "register_key key value meta merge T = (h, T')"
  shows "table_ok start T'"
  using assms
proof (cases rule: register_cases)
  case blank
  then show ?thesis using assms(1) by simp
next
  case known
  then show ?thesis using assms(1) by (simp add: table_ok_def)
next
  case new
  then have "key \<notin> fst ` set (ht_handle_by_key T)" by (simp add: map_of_eq_None_iff)
  then show ?thesis using new assms(1) by (auto simp: table_ok_def)
qed

end
