(* ===== verification/Resource_Codec.thy ===== *)
theory Resource_Codec
  imports Handle_Table "HOL-Library.Sublist"
begin

text \<open>
  Stored-resource references and their streaming decoders:
  src/src/core/agents/engine/modelcontext/resources.py and stream.py. The regular expressions
  are written as matchers that return the length of the match at a position, 0 for none (no
  match of them is empty). Decimal digits (\<open>\d\<close>) of other scripts are a parameter.
\<close>

subsection \<open>Matchers\<close>

abbreviation "RESOURCE_PREFIX \<equiv> lit ''res://''"

definition ascii_digit :: "rune \<Rightarrow> bool" where
  "ascii_digit c \<longleftrightarrow> 48 \<le> c \<and> c \<le> 57"

definition ascii_letter :: "rune \<Rightarrow> bool" where
  "ascii_letter c \<longleftrightarrow> (97 \<le> c \<and> c \<le> 122) \<or> (65 \<le> c \<and> c \<le> 90)"

definition ref_char :: "rune \<Rightarrow> bool" where
  "ref_char c \<longleftrightarrow> ascii_digit c \<or> ascii_letter c \<or> c = 95 \<or> c = 45"

definition hex_char :: "rune \<Rightarrow> bool" where
  "hex_char c \<longleftrightarrow> ascii_digit c \<or> (97 \<le> c \<and> c \<le> 102) \<or> (65 \<le> c \<and> c \<le> 70)"

text \<open>\<open>[^\s)\]>"']\<close>\<close>

definition url_char :: "rune \<Rightarrow> bool" where
  "url_char c \<longleftrightarrow> \<not> is_space c \<and> c \<notin> {41, 93, 62, 34, 39}"

definition run_len :: "(rune \<Rightarrow> bool) \<Rightarrow> str \<Rightarrow> nat" where
  "run_len P s = length (takeWhile P s)"

definition match_resource :: "str \<Rightarrow> nat" where
  "match_resource s =
     (if starts_with (lit ''resource://'') s \<and> 22 \<le> run_len ref_char (drop 11 s) then 33 else 0)"

definition SCHEMES :: "str list" where
  "SCHEMES = map lit [''local'', ''minio'', ''cos'', ''tos'', ''s3'', ''oss'', ''ks3'', ''obs'']"

definition match_scheme :: "str \<Rightarrow> nat" where
  "match_scheme s =
     (case find (\<lambda>scheme. starts_with (scheme @ lit ''://'') s) SCHEMES of
        None \<Rightarrow> 0
      | Some scheme \<Rightarrow>
          let n = length scheme + 3; body = run_len url_char (drop n s)
          in if body = 0 then 0 else n + body)"

definition match_physical :: "str \<Rightarrow> nat" where
  "match_physical s =
     (let n = run_len ref_char (drop 10 s);
          storage = (if starts_with (lit ''storage://'') s \<and> 0 < n \<and> starts_with (lit ''/'') (drop (10 + n) s)
                     then 11 + n else 0)
      in if 0 < storage \<and> 0 < match_scheme (drop storage s) then storage + match_scheme (drop storage s)
         else match_scheme s)"

definition hex_group :: "nat \<Rightarrow> str \<Rightarrow> bool" where
  "hex_group n s \<longleftrightarrow> n \<le> length s \<and> list_all hex_char (take n s)"

definition match_summary :: "str \<Rightarrow> nat" where
  "match_summary s =
     (if starts_with (lit ''summary/'') s \<and> hex_group 8 (drop 8 s) \<and> starts_with (lit ''-'') (drop 16 s) \<and>
         hex_group 4 (drop 17 s) \<and> starts_with (lit ''-'') (drop 21 s) \<and> hex_group 4 (drop 22 s) \<and>
         starts_with (lit ''-'') (drop 26 s) \<and> hex_group 4 (drop 27 s) \<and> starts_with (lit ''-'') (drop 31 s) \<and>
         hex_group 12 (drop 32 s)
      then 44 else 0)"

definition match_stored_ref :: "str \<Rightarrow> nat" where
  "match_stored_ref s =
     (if 0 < match_resource s then match_resource s
      else if 0 < match_physical s then match_physical s
      else match_summary s)"

definition match_handle_shape :: "(rune \<Rightarrow> bool) \<Rightarrow> str \<Rightarrow> nat" where
  "match_handle_shape udigit s =
     (if starts_with RESOURCE_PREFIX s \<and> 0 < run_len udigit (drop 6 s)
      then 6 + run_len udigit (drop 6 s) else 0)"

subsection \<open>The registry\<close>

type_synonym registry = "unit handle_table"

definition new_registry :: registry where
  "new_registry = new_table RESOURCE_PREFIX 4 1"

text \<open>\<open>re.sub\<close> with a callback that registers each match.\<close>

function encode_from :: "str \<Rightarrow> registry \<Rightarrow> str \<times> registry" where
  "encode_from [] T = ([], T)"
| "encode_from (c # cs) T =
     (let n = match_stored_ref (c # cs)
      in if 0 < n
         then (case register_key (take n (c # cs)) (take n (c # cs)) () None T of
                 (h, T1) \<Rightarrow> (case encode_from (drop (n - 1) cs) T1 of (out, T2) \<Rightarrow> (h @ out, T2)))
         else (case encode_from cs T of (out, T2) \<Rightarrow> (c # out, T2)))"
  by pat_completeness auto
termination
  by (relation "measure (\<lambda>(s, T). length s)") auto

definition encode_text :: "str \<Rightarrow> registry \<Rightarrow> str \<times> registry" where
  "encode_text value T = (if value = [] then (value, T) else encode_from value T)"

definition decode_pairs :: "registry \<Rightarrow> (str \<times> str) list" where
  "decode_pairs T = longest_first snd (handle_pairs T)"

definition decode_text :: "registry \<Rightarrow> str \<Rightarrow> str" where
  "decode_text T value =
     (if value = [] then value
      else fold (\<lambda>(v, h) text. str_replace h v text) (decode_pairs T) value)"

function sub_handles :: "(rune \<Rightarrow> bool) \<Rightarrow> str \<Rightarrow> str" where
  "sub_handles udigit [] = []"
| "sub_handles udigit (c # cs) =
     (let n = match_handle_shape udigit (c # cs)
      in if 0 < n then sub_handles udigit (drop (n - 1) cs) else c # sub_handles udigit cs)"
  by pat_completeness auto
termination
  by (relation "measure (\<lambda>(u, s). length s)") auto

definition strip_orphan_handles :: "(rune \<Rightarrow> bool) \<Rightarrow> str \<Rightarrow> str" where
  "strip_orphan_handles udigit value = (if value = [] then value else sub_handles udigit value)"

function find_handles :: "(rune \<Rightarrow> bool) \<Rightarrow> str \<Rightarrow> str list" where
  "find_handles udigit [] = []"
| "find_handles udigit (c # cs) =
     (let n = match_handle_shape udigit (c # cs)
      in if 0 < n then take n (c # cs) # find_handles udigit (drop (n - 1) cs)
         else find_handles udigit cs)"
  by pat_completeness auto
termination
  by (relation "measure (\<lambda>(u, s). length s)") auto

definition orphan_handles :: "(rune \<Rightarrow> bool) \<Rightarrow> registry \<Rightarrow> str \<Rightarrow> str list" where
  "orphan_handles udigit T decoded =
     (if decoded = [] then []
      else dedup_non_empty_strings (filter (\<lambda>h. \<not> has_handle h T) (find_handles udigit decoded)))"

definition registry_handles :: "registry \<Rightarrow> str list" where
  "registry_handles T = map snd (handle_pairs T)"

text \<open>The textual parts of a message, encoded in this order.\<close>

record llm_message =
  msg_content :: str
  msg_reasoning :: str
  msg_parts :: "str list"
  msg_tool_arguments :: "str list"

fun encode_list :: "str list \<Rightarrow> registry \<Rightarrow> str list \<times> registry" where
  "encode_list [] T = ([], T)"
| "encode_list (s # ss) T =
     (case encode_text s T of (s', T1) \<Rightarrow> (case encode_list ss T1 of (ss', T2) \<Rightarrow> (s' # ss', T2)))"

definition encode_message :: "llm_message \<Rightarrow> registry \<Rightarrow> llm_message \<times> registry" where
  "encode_message m T =
     (case encode_text (msg_content m) T of (content, T1) \<Rightarrow>
      case encode_text (msg_reasoning m) T1 of (reasoning, T2) \<Rightarrow>
      case encode_list (msg_parts m) T2 of (parts, T3) \<Rightarrow>
      case encode_list (msg_tool_arguments m) T3 of (args, T4) \<Rightarrow>
        (\<lparr>msg_content = content, msg_reasoning = reasoning, msg_parts = parts,
          msg_tool_arguments = args\<rparr>, T4))"

fun encode_messages :: "llm_message list \<Rightarrow> registry \<Rightarrow> llm_message list \<times> registry" where
  "encode_messages [] T = ([], T)"
| "encode_messages (m # ms) T =
     (case encode_message m T of (m', T1) \<Rightarrow> (case encode_messages ms T1 of (ms', T2) \<Rightarrow> (m' # ms', T2)))"

definition decode_tool_calls :: "registry \<Rightarrow> str list \<Rightarrow> str list" where
  "decode_tool_calls T arguments = map (decode_text T) arguments"

subsection \<open>Streaming\<close>

text \<open>\<open>StreamHold\<close>: the state is the withheld suffix.\<close>

definition hold_feed :: "(str \<Rightarrow> nat) \<Rightarrow> (str \<Rightarrow> str) \<Rightarrow> str \<Rightarrow> str \<Rightarrow> str \<times> str" where
  "hold_feed hold_len emit pending chunk =
     (let combined = pending @ chunk
      in if combined = [] then ([], [])
         else let hold = hold_len combined
              in if 0 < hold \<and> hold \<le> length combined
                 then (emit (take (length combined - hold) combined), drop (length combined - hold) combined)
                 else (emit combined, []))"

definition hold_flush :: "(str \<Rightarrow> str) \<Rightarrow> str \<Rightarrow> str \<times> str" where
  "hold_flush flush pending = (flush pending, [])"

definition ends_with :: "str \<Rightarrow> str \<Rightarrow> bool" where
  "ends_with p s \<longleftrightarrow> length p \<le> length s \<and> drop (length s - length p) s = p"

definition resource_hold_len :: "str list \<Rightarrow> str \<Rightarrow> nat" where
  "resource_hold_len handles combined =
     fold (\<lambda>handle hold. fold (\<lambda>n hold. if hold < n \<and> ends_with (take n handle) combined then n else hold)
             [1..<length handle] hold)
       handles 0"

definition resource_feed :: "registry \<Rightarrow> str list \<Rightarrow> str \<Rightarrow> str \<Rightarrow> str \<times> str" where
  "resource_feed T handles = hold_feed (resource_hold_len handles) (decode_text T)"

definition resource_flush :: "registry \<Rightarrow> str \<Rightarrow> str \<times> str" where
  "resource_flush T = hold_flush (decode_text T)"

definition is_handle_token_byte :: "rune \<Rightarrow> bool" where
  "is_handle_token_byte c \<longleftrightarrow> ascii_letter c \<or> ascii_digit c \<or> c = 45 \<or> c = 95"

definition all_digits :: "str \<Rightarrow> bool" where
  "all_digits s \<longleftrightarrow> s \<noteq> [] \<and> list_all ascii_digit s"

definition could_be_numeric_handle :: "str \<Rightarrow> str \<Rightarrow> bool" where
  "could_be_numeric_handle v pfx =
     (if v = [] \<or> pfx = [] then False
      else if starts_with v pfx then True
      else if \<not> starts_with pfx v \<or> length v = length pfx then False
      else list_all ascii_digit (drop (length pfx) v))"

definition handle_hold_len :: "str \<Rightarrow> str \<Rightarrow> nat" where
  "handle_hold_len pfx combined =
     (let tail = rev (takeWhile is_handle_token_byte (rev combined))
      in if could_be_numeric_handle tail pfx then length tail else 0)"

definition handle_feed :: "(rune \<Rightarrow> bool) \<Rightarrow> unit handle_table \<Rightarrow> str \<Rightarrow> str \<Rightarrow> str \<times> str" where
  "handle_feed word T = hold_feed (handle_hold_len (ht_prefix T)) (decode_known_text word T)"

definition handle_flush :: "(rune \<Rightarrow> bool) \<Rightarrow> unit handle_table \<Rightarrow> str \<Rightarrow> str \<times> str" where
  "handle_flush word T = hold_flush (decode_known_text word T)"

text \<open>\<open>rfind\<close>: the last position of the prefix, as what follows it.\<close>

definition orphan_resource_hold_len :: "str \<Rightarrow> nat" where
  "orphan_resource_hold_len combined =
     (let partial = fold (\<lambda>n hold. if ends_with (take n RESOURCE_PREFIX) combined then Some n else hold)
            [1..<length RESOURCE_PREFIX] None;
          starts = filter (\<lambda>i. starts_with RESOURCE_PREFIX (drop i combined)) [0..<length combined]
      in case (if starts = [] then None else Some (last starts)) of
           Some idx \<Rightarrow>
             let suffix = drop (idx + length RESOURCE_PREFIX) combined
             in if suffix = [] \<or> all_digits suffix then length combined - idx
                else (case partial of None \<Rightarrow> 0 | Some n \<Rightarrow> n)
         | None \<Rightarrow> (case partial of None \<Rightarrow> 0 | Some n \<Rightarrow> n))"

definition orphan_resource_flush :: "(rune \<Rightarrow> bool) \<Rightarrow> str \<Rightarrow> str" where
  "orphan_resource_flush udigit pending =
     (if starts_with pending RESOURCE_PREFIX \<and> length (lit ''res:'') \<le> length pending then []
      else if starts_with RESOURCE_PREFIX pending \<and>
              (drop (length RESOURCE_PREFIX) pending = [] \<or> all_digits (drop (length RESOURCE_PREFIX) pending))
      then []
      else sub_handles udigit pending)"

definition orphan_feed :: "(rune \<Rightarrow> bool) \<Rightarrow> str \<Rightarrow> str \<Rightarrow> str \<times> str" where
  "orphan_feed udigit = hold_feed orphan_resource_hold_len (sub_handles udigit)"

definition orphan_flush :: "(rune \<Rightarrow> bool) \<Rightarrow> str \<Rightarrow> str \<times> str" where
  "orphan_flush udigit = hold_flush (orphan_resource_flush udigit)"

text \<open>
  The composed decoder: four stages, each possibly absent, a stage being its feed and flush on its
  own state; the citation expander is one of them.
\<close>

record 's stage =
  stage_feed :: "'s \<Rightarrow> str \<Rightarrow> str \<times> 's"
  stage_flush :: "'s \<Rightarrow> str \<times> 's"

fun decoder_feed :: "('s stage option \<times> 's) list \<Rightarrow> str \<Rightarrow> str \<times> ('s stage option \<times> 's) list" where
  "decoder_feed [] chunk = (chunk, [])"
| "decoder_feed ((st, s) # rest) chunk =
     (case st of
        None \<Rightarrow> (case decoder_feed rest chunk of (out, rest') \<Rightarrow> (out, (st, s) # rest'))
      | Some g \<Rightarrow>
          (case stage_feed g s chunk of (chunk1, s') \<Rightarrow>
            (case decoder_feed rest chunk1 of (out, rest') \<Rightarrow> (out, (st, s') # rest'))))"

fun flush_later :: "('s stage option \<times> 's) list \<Rightarrow> str \<Rightarrow> str \<times> ('s stage option \<times> 's) list" where
  "flush_later [] tail = (tail, [])"
| "flush_later ((st, s) # rest) tail =
     (case st of
        None \<Rightarrow> (case flush_later rest tail of (out, rest') \<Rightarrow> (out, (st, s) # rest'))
      | Some g \<Rightarrow>
          (case stage_feed g s tail of (fed, s1) \<Rightarrow>
            (case stage_flush g s1 of (flushed, s2) \<Rightarrow>
              (case flush_later rest (fed @ flushed) of (out, rest') \<Rightarrow> (out, (st, s2) # rest')))))"

definition decoder_flush :: "('s stage option \<times> 's) list \<Rightarrow> str \<times> ('s stage option \<times> 's) list" where
  "decoder_flush stages =
     (case stages of
        [] \<Rightarrow> ([], [])
      | (st, s) # rest \<Rightarrow>
          (case st of
             None \<Rightarrow> (case flush_later rest [] of (out, rest') \<Rightarrow> (out, (st, s) # rest'))
           | Some g \<Rightarrow>
               (case stage_flush g s of (tail, s') \<Rightarrow>
                 (case flush_later rest tail of (out, rest') \<Rightarrow> (out, (st, s') # rest')))))"

end
