(* ===== verification/Resource_Laws.thy ===== *)
theory Resource_Laws
  imports Resource_Codec
begin

text \<open>
  Why decoding can be done chunk by chunk: replacement distributes over a cut that no handle
  straddles, a released prefix never ends inside a handle, and replacement creates no new
  straddling handle when the durable values are apart from the handles.
\<close>

subsection \<open>Replacement and cuts\<close>

lemma starts_with_prefix: "starts_with xs ys \<longleftrightarrow> prefix xs ys"
  by (auto simp: starts_with_iff prefix_def)

lemma ends_with_suffix: "ends_with p s \<longleftrightarrow> suffix p s"
proof
  assume "ends_with p s"
  then have "p = drop (length s - length p) s" by (simp add: ends_with_def)
  then show "suffix p s" by (metis suffix_drop)
next
  assume "suffix p s"
  then show "ends_with p s" by (auto simp: suffix_def ends_with_def)
qed

definition crosses :: "'a list \<Rightarrow> 'a list \<Rightarrow> 'a list \<Rightarrow> bool" where
  "crosses h a b \<longleftrightarrow> (\<exists>x y. h = x @ y \<and> x \<noteq> [] \<and> y \<noteq> [] \<and> suffix x a \<and> prefix y b)"

lemma crosses_Nil [simp]: "\<not> crosses h [] b" "\<not> crosses h a []"
  by (auto simp: crosses_def)

lemma crosses_Cons: "crosses h a b \<Longrightarrow> crosses h (c # a) b"
  unfolding crosses_def by (metis suffix_ConsI)

lemma crosses_drop: "crosses h (drop n a) b \<Longrightarrow> crosses h a b"
  unfolding crosses_def by (metis suffix_drop suffix_order.trans)

lemma starts_with_cut:
  assumes "starts_with h (a @ b)" and "a \<noteq> []" and "\<not> crosses h a b"
  shows "starts_with h a"
proof -
  obtain zs where zs: "a @ b = h @ zs" using assms(1) by (auto simp: starts_with_iff)
  show ?thesis
  proof (cases "length h \<le> length a")
    case True
    then have "h = take (length h) a" using zs by (metis append_eq_conv_conj take_append take_all_iff diff_is_0_eq take0 append_Nil2)
    then show ?thesis by (metis append_take_drop_id starts_with_iff)
  next
    case False
    then have "h = a @ drop (length a) h"
      using zs by (metis append_eq_append_conv_if append_take_drop_id nat_le_linear)
    moreover from this have "b = drop (length a) h @ zs" using zs by (metis append_assoc same_append_eq)
    ultimately have "crosses h a b"
      unfolding crosses_def using assms(2) False
      by (intro exI [of _ a] exI [of _ "drop (length a) h"]) auto
    then show ?thesis using assms(3) by simp
  qed
qed

lemma str_replace_cut:
  assumes "\<not> crosses h a b" and "h \<noteq> []"
  shows "str_replace h v (a @ b) = str_replace h v a @ str_replace h v b"
  using assms
proof (induction h v a rule: str_replace.induct)
  case (2 h v c cs)
  show ?case
  proof (cases "starts_with h (c # cs)")
    case True
    then obtain zs where zs: "c # cs = h @ zs" by (auto simp: starts_with_iff)
    then have d: "drop (length h - 1) cs = zs" using \<open>h \<noteq> []\<close> by (cases h) auto
    have "drop (length h) (c # cs) = zs" using zs by simp
    then have "\<not> crosses h zs b" using \<open>\<not> crosses h (c # cs) b\<close> crosses_drop by metis
    then have ih: "str_replace h v (zs @ b) = str_replace h v zs @ str_replace h v b"
      using "2.IH"(1) [OF True] d \<open>h \<noteq> []\<close> by simp
    have "c # cs @ b = h @ zs @ b" using zs by simp
    then have "starts_with h (c # cs @ b)" by (metis starts_with_iff)
    moreover have "drop (length h - 1) (cs @ b) = zs @ b" using zs \<open>h \<noteq> []\<close> by (cases h) auto
    ultimately show ?thesis using True d ih by simp
  next
    case False
    have not_b: "\<not> starts_with h (c # cs @ b)"
    proof
      assume "starts_with h (c # cs @ b)"
      then have "starts_with h ((c # cs) @ b)" by (simp only: append_Cons)
      from starts_with_cut [OF this _ "2.prems"(1)] False show False by blast
    qed
    have "\<not> crosses h cs b" using "2.prems"(1) by (rule contrapos_nn) (rule crosses_Cons)
    then have "str_replace h v (cs @ b) = str_replace h v cs @ str_replace h v b"
      by (rule "2.IH"(2) [OF False _ \<open>h \<noteq> []\<close>])
    then show ?thesis by (simp only: append_Cons str_replace.simps if_not_P [OF False] if_not_P [OF not_b])
  qed
qed simp

text \<open>\<open>apart v g\<close>: a durable value and a handle that cannot be mistaken for each other.\<close>

definition apart :: "'a list \<Rightarrow> 'a list \<Rightarrow> bool" where
  "apart v g \<longleftrightarrow> v \<noteq> [] \<and> \<not> sublist v g \<and>
     list_all (\<lambda>n. \<not> suffix (take n g) v) [1..<Suc (length g)] \<and>
     list_all (\<lambda>n. \<not> prefix (drop n g) v) [0..<length g]"

lemma apart_suffix:
  assumes "apart v g" and "prefix x g" and "x \<noteq> []"
  shows "\<not> suffix x v"
proof -
  obtain r where r: "g = x @ r" using assms(2) by (auto simp: prefix_def)
  have "length x \<in> set [1..<Suc (length g)]" using r assms(3) by (simp add: Suc_le_eq)
  then have "\<not> suffix (take (length x) g) v" using assms(1) unfolding apart_def list_all_iff by blast
  then show ?thesis using r by simp
qed

lemma apart_prefix:
  assumes "apart v g" and "suffix y g" and "y \<noteq> []"
  shows "\<not> prefix y v"
proof -
  obtain r where r: "g = r @ y" using assms(2) by (auto simp: suffix_def)
  have "length r \<in> set [0..<length g]" using r assms(3) by simp
  then have "\<not> prefix (drop (length r) g) v" using assms(1) unfolding apart_def list_all_iff by blast
  then show ?thesis using r by simp
qed

lemma suffix_append_cases: "suffix x (u @ v) \<Longrightarrow> suffix x v \<or> (\<exists>x'. x = x' @ v \<and> suffix x' u)"
  by (metis suffix_append)

lemma prefix_append_cases: "prefix y (v @ u) \<Longrightarrow> prefix y v \<or> (\<exists>y'. y = v @ y' \<and> prefix y' u)"
  by (metis prefix_append)

lemma suffix_of_replace:
  assumes "apart v g" and "h \<noteq> []" and "prefix x g" and "suffix x (str_replace h v a)"
  shows "suffix x a"
  using assms
proof (induction h v a arbitrary: x rule: str_replace.induct)
  case (2 h v c cs)
  show ?case
  proof (cases "starts_with h (c # cs)")
    case True
    let ?zs = "drop (length h - 1) cs"
    have sfx: "suffix ?zs (c # cs)" by (metis suffix_ConsI suffix_drop)
    have "suffix x (v @ str_replace h v ?zs)" using 2 True by simp
    then consider "suffix x (str_replace h v ?zs)" | x' where "x = x' @ str_replace h v ?zs" "suffix x' v"
      using suffix_append_cases by blast
    then show ?thesis
    proof cases
      case 1
      then have "suffix x ?zs" using 2 True by blast
      then show ?thesis using sfx by (metis suffix_order.trans)
    next
      case (2 x')
      have "prefix x' g" using 2(1) \<open>prefix x g\<close> by (metis prefixI prefix_order.trans)
      then have "x' = []" using apart_suffix [OF \<open>apart v g\<close>] 2(2) by blast
      then have "suffix x (str_replace h v ?zs)" using 2(1) by simp
      then have "suffix x ?zs" using "2.IH"(1) True \<open>apart v g\<close> \<open>h \<noteq> []\<close> \<open>prefix x g\<close> by blast
      then show ?thesis using sfx by (metis suffix_order.trans)
    qed
  next
    case False
    then have "suffix x (c # str_replace h v cs)" using 2 by simp
    then have "x = c # str_replace h v cs \<or> suffix x (str_replace h v cs)" by (simp add: suffix_Cons)
    then show ?thesis
    proof
      assume x: "x = c # str_replace h v cs"
      show ?thesis
      proof (cases "contains_str h cs")
        case False
        then show ?thesis using x by (simp add: str_replace_absent)
      next
        case True
        have "sublist v (str_replace h v cs)"
          using True
        proof (induction cs)
          case Nil
          then show ?case using \<open>h \<noteq> []\<close> by simp
        next
          case (Cons d ds)
          show ?case
          proof (cases "starts_with h (d # ds)")
            case True
            then show ?thesis by (simp add: sublist_append_leftI)
          next
            case False
            then show ?thesis using Cons by (simp add: sublist_Cons_right)
          qed
        qed
        then have "sublist v g"
          using x \<open>prefix x g\<close> by (metis prefix_imp_sublist sublist_Cons_right sublist_order.order_trans)
        then show ?thesis using \<open>apart v g\<close> by (simp add: apart_def)
      qed
    next
      assume "suffix x (str_replace h v cs)"
      then have "suffix x cs" using 2 False by blast
      then show ?thesis by (metis suffix_ConsI)
    qed
  qed
qed simp

lemma prefix_of_replace:
  assumes "apart v g" and "h \<noteq> []" and "sublist y g" and "suffix y g" and "prefix y (str_replace h v b)"
  shows "prefix y b"
  using assms
proof (induction h v b arbitrary: y rule: str_replace.induct)
  case (2 h v c cs)
  show ?case
  proof (cases "starts_with h (c # cs)")
    case True
    let ?zs = "drop (length h - 1) cs"
    have "prefix y (v @ str_replace h v ?zs)" using 2 True by simp
    then consider "prefix y v" | y' where "y = v @ y'" using prefix_append_cases by blast
    then show ?thesis
    proof cases
      case 1
      then show ?thesis using apart_prefix [OF \<open>apart v g\<close> \<open>suffix y g\<close>] by (cases "y = []") auto
    next
      case (2 y')
      then have "sublist v g" using \<open>sublist y g\<close> by (metis prefixI prefix_imp_sublist sublist_order.order_trans)
      then show ?thesis using \<open>apart v g\<close> by (simp add: apart_def)
    qed
  next
    case False
    then have p: "prefix y (c # str_replace h v cs)" using 2 by simp
    show ?thesis
    proof (cases y)
      case (Cons d y')
      then have "d = c" "prefix y' (str_replace h v cs)" using p by auto
      moreover have "suffix y' g" using Cons \<open>suffix y g\<close> by (metis suffix_ConsD)
      ultimately have "prefix y' cs" using 2 False by (metis suffix_imp_sublist)
      then show ?thesis using Cons \<open>d = c\<close> by simp
    qed simp
  qed
qed simp

lemma crosses_replace:
  assumes "apart v g" and "h \<noteq> []" and "\<not> crosses g a b"
  shows "\<not> crosses g (str_replace h v a) (str_replace h v b)"
proof
  assume "crosses g (str_replace h v a) (str_replace h v b)"
  then obtain x y where xy: "g = x @ y" "x \<noteq> []" "y \<noteq> []" "suffix x (str_replace h v a)"
      "prefix y (str_replace h v b)" by (auto simp: crosses_def)
  have "suffix x a" using suffix_of_replace [OF assms(1,2) _ xy(4)] xy(1) by simp
  moreover have "prefix y b"
    using prefix_of_replace [OF assms(1,2) _ _ xy(5)] xy(1) by (metis suffixI suffix_imp_sublist)
  ultimately show False using assms(3) xy by (auto simp: crosses_def)
qed

definition replace_all :: "(str \<times> str) list \<Rightarrow> str \<Rightarrow> str" where
  "replace_all pairs s = fold (\<lambda>(v, h) text. str_replace h v text) pairs s"

lemma replace_all_simps [simp]:
  "replace_all [] s = s"
  "replace_all ((v, h) # ps) s = replace_all ps (str_replace h v s)"
  by (simp_all add: replace_all_def)

lemma replace_all_Nil [simp]: "replace_all ps [] = []"
  by (induction ps) auto

lemma replace_all_cut:
  assumes "\<And>v h g. (v, h) \<in> set ps \<Longrightarrow> g \<in> snd ` set ps \<Longrightarrow> apart v g"
    and "\<And>g. g \<in> snd ` set ps \<Longrightarrow> g \<noteq> [] \<and> \<not> crosses g a b"
  shows "replace_all ps (a @ b) = replace_all ps a @ replace_all ps b"
  using assms
proof (induction ps arbitrary: a b)
  case (Cons p ps)
  obtain v h where p: "p = (v, h)" by (cases p)
  have h: "h \<noteq> []" "\<not> crosses h a b" using Cons.prems(2) [of h] p by auto
  have "replace_all ps (str_replace h v a @ str_replace h v b) =
      replace_all ps (str_replace h v a) @ replace_all ps (str_replace h v b)"
  proof (rule Cons.IH)
    fix v' h' g
    assume "(v', h') \<in> set ps" "g \<in> snd ` set ps"
    then show "apart v' g" using Cons.prems(1) [of v' h' g] by auto
  next
    fix g
    assume g: "g \<in> snd ` set ps"
    then have "apart v g" using Cons.prems(1) [of v h g] p by auto
    moreover have "g \<noteq> []" "\<not> crosses g a b" using Cons.prems(2) [of g] g by auto
    ultimately show "g \<noteq> [] \<and> \<not> crosses g (str_replace h v a) (str_replace h v b)"
      using crosses_replace h(1) by blast
  qed
  then show ?case using p str_replace_cut [OF h(2,1)] by simp
qed simp

end
