(* ===== verification/Resource_Stream.thy ===== *)
theory Resource_Stream
  imports Resource_Laws
begin

text \<open>
  The streaming contract: a hold that withholds what may still grow into a handle, and an emitter
  that may be applied piecewise at the cut the hold chooses. The locale derives that any chunking
  of a stream gives the one-shot result; it is interpreted on the resource decoder and on the
  orphan filter.
\<close>

fun feed_all :: "(str \<Rightarrow> str \<Rightarrow> str \<times> str) \<Rightarrow> str \<Rightarrow> str list \<Rightarrow> str \<times> str" where
  "feed_all feed pending [] = ([], pending)"
| "feed_all feed pending (c # cs) =
     (case feed pending c of (out, pending1) \<Rightarrow>
        (case feed_all feed pending1 cs of (outs, pending2) \<Rightarrow> (out @ outs, pending2)))"

locale stream_hold =
  fixes ok :: "'t \<Rightarrow> bool"
    and hold_len :: "'t \<Rightarrow> str \<Rightarrow> nat"
    and emit :: "'t \<Rightarrow> str \<Rightarrow> str"
  assumes hold_le: "ok t \<Longrightarrow> hold_len t c \<le> length c"
    and emit_Nil: "ok t \<Longrightarrow> emit t [] = []"
    and emit_cut: "ok t \<Longrightarrow>
      emit t (c @ d) = emit t (take (length c - hold_len t c) c) @ emit t (drop (length c - hold_len t c) c @ d)"
begin

lemma hold_feed_emit:
  assumes "ok t" and "hold_feed (hold_len t) (emit t) pending chunk = (out, pending')"
  shows "out @ emit t (pending' @ d) = emit t (pending @ chunk @ d)"
proof (cases "pending @ chunk = []")
  case True
  then show ?thesis using assms by (simp add: hold_feed_def)
next
  case ne: False
  show ?thesis
  proof (cases "0 < hold_len t (pending @ chunk)")
    case True
    then show ?thesis
      using assms ne hold_le [OF assms(1), of "pending @ chunk"] emit_cut [OF assms(1), of "pending @ chunk" d]
      by (simp add: hold_feed_def Let_def del: take_append drop_append append_is_Nil_conv)
  next
    case False
    then show ?thesis
      using assms ne emit_cut [OF assms(1), of "pending @ chunk" d]
      by (simp add: hold_feed_def Let_def del: append_is_Nil_conv)
  qed
qed

lemma feed_all_emit:
  assumes "ok t" and "feed_all (hold_feed (hold_len t) (emit t)) pending chunks = (out, pending')"
  shows "out @ emit t pending' = emit t (pending @ concat chunks)"
  using assms(2)
proof (induction chunks arbitrary: pending out)
  case (Cons c cs)
  obtain o1 p1 where s: "hold_feed (hold_len t) (emit t) pending c = (o1, p1)" by (metis surj_pair)
  obtain o2 p2 where r: "feed_all (hold_feed (hold_len t) (emit t)) p1 cs = (o2, p2)" by (metis surj_pair)
  have eq: "out = o1 @ o2" "pending' = p2" using Cons.prems s r by simp_all
  have "o2 @ emit t p2 = emit t (p1 @ concat cs)" using Cons.IH [of p1 o2] r eq by simp
  then show ?case using hold_feed_emit [OF assms(1) s, of "concat cs"] eq by simp
qed simp

text \<open>The withheld suffix is what the hold chose on the text seen so far.\<close>

lemma feed_chunking:
  assumes "ok t" and "concat chunks = concat chunks'"
    and "feed_all (hold_feed (hold_len t) (emit t)) [] chunks = (out, p)"
    and "feed_all (hold_feed (hold_len t) (emit t)) [] chunks' = (out', p')"
  shows "out @ emit t p = out' @ emit t p'"
  using feed_all_emit [OF assms(1,3)] feed_all_emit [OF assms(1,4)] assms(2) by simp

end

subsection \<open>The resource decoder\<close>

definition res_handle :: "str \<Rightarrow> bool" where
  "res_handle h \<longleftrightarrow> starts_with RESOURCE_PREFIX h \<and> list_all ascii_digit (drop 6 h) \<and> length h > 6"

definition registry_ok :: "registry \<Rightarrow> bool" where
  "registry_ok T \<longleftrightarrow> table_ok 1 T \<and> ht_prefix T = RESOURCE_PREFIX \<and> ht_width T = 4 \<and>
     handle_pairs T = ht_handle_by_key T"

text \<open>No durable value of the table can be mistaken for a piece of one of its handles.\<close>

definition values_apart :: "registry \<Rightarrow> bool" where
  "values_apart T \<longleftrightarrow>
     list_all (\<lambda>(v, h). list_all (\<lambda>(v', g). apart v g) (handle_pairs T)) (handle_pairs T)"

lemma RESOURCE_PREFIX_runes: "RESOURCE_PREFIX = [114, 101, 115, 58, 47, 47]"
  by (simp add: lit_def)

lemma decimal_ascii: "list_all ascii_digit (decimal n)"
  using decimal_digits by (auto simp: list_all_iff ascii_digit_def)

lemma handle_number_ascii: "list_all ascii_digit (handle_number w n)" "handle_number w n \<noteq> []"
  using decimal_ascii [of n] decimal_nonempty [of n]
  by (auto simp: handle_number_def pad_zero_def list_all_iff ascii_digit_def)

lemma registry_handle_shape:
  assumes "registry_ok T" and "h \<in> snd ` set (handle_pairs T)"
  shows "res_handle h"
proof -
  have "map fst (ht_entry_by_handle T) = map (\<lambda>n. RESOURCE_PREFIX @ handle_number 4 n) [1..<ht_next T]"
    using assms(1) by (simp add: registry_ok_def table_ok_def)
  moreover have "h \<in> set (map fst (ht_entry_by_handle T))" using assms(2) by (force simp: handle_pairs_def)
  ultimately obtain n where "h = RESOURCE_PREFIX @ handle_number 4 n" by auto
  then show ?thesis
    using handle_number_ascii [of 4 n] by (simp add: res_handle_def RESOURCE_PREFIX_runes)
qed

lemma res_handle_cases:
  assumes "res_handle h"
  obtains ds where "h = RESOURCE_PREFIX @ ds" "ds \<noteq> []" "list_all ascii_digit ds"
proof -
  obtain ds where "h = RESOURCE_PREFIX @ ds" using assms by (auto simp: res_handle_def starts_with_iff)
  then show thesis using assms by (intro that [of ds]) (auto simp: res_handle_def RESOURCE_PREFIX_runes)
qed

lemma res_handle_r_first:
  assumes "res_handle h" and "h = x @ y" and "x \<noteq> []"
  shows "114 \<notin> set y"
proof -
  obtain ds where ds: "h = RESOURCE_PREFIX @ ds" "list_all ascii_digit ds"
    using assms(1) by (rule res_handle_cases)
  have "114 \<notin> set (drop 1 h)" using ds by (auto simp: RESOURCE_PREFIX_runes list_all_iff ascii_digit_def)
  moreover have "set y \<subseteq> set (drop 1 h)" using assms(2,3) by (cases x) auto
  ultimately show ?thesis by blast
qed

lemma res_handle_hd:
  assumes "res_handle h" and "prefix b h" and "b \<noteq> []"
  shows "hd b = 114"
  using assms by (elim res_handle_cases) (auto simp: RESOURCE_PREFIX_runes prefix_Cons)

lemma res_handle_nonempty: "res_handle h \<Longrightarrow> h \<noteq> []"
  by (auto simp: res_handle_def)

text \<open>What the two nested loops compute: the longest proper handle prefix that ends the text.\<close>

lemma inner_hold:
  fixes ns :: "nat list"
  assumes "r = fold (\<lambda>n hold. if hold < n \<and> ends_with (take n h) c then n else hold) ns k"
  shows "k \<le> r \<and> (r = k \<or> (r \<in> set ns \<and> suffix (take r h) c)) \<and>
    (\<forall>n \<in> set ns. suffix (take n h) c \<longrightarrow> n \<le> r)"
  using assms
proof (induction ns arbitrary: k)
  case (Cons n ns)
  define k' where "k' = (if k < n \<and> suffix (take n h) c then n else k)"
  have "r = fold (\<lambda>n hold. if hold < n \<and> ends_with (take n h) c then n else hold) ns k'"
    using Cons.prems by (simp add: k'_def ends_with_suffix)
  from Cons.IH [OF this] show ?case by (auto simp: k'_def split: if_splits)
qed simp

lemma resource_hold:
  assumes "r = resource_hold_len hs c"
  shows "(r = 0 \<or> (\<exists>h \<in> set hs. 0 < r \<and> r < length h \<and> suffix (take r h) c)) \<and>
    (\<forall>h \<in> set hs. \<forall>n. 0 < n \<and> n < length h \<and> suffix (take n h) c \<longrightarrow> n \<le> r)"
proof -
  let ?step = "\<lambda>h hold. fold (\<lambda>n hold. if hold < n \<and> ends_with (take n h) c then n else hold) [1..<length h] hold"
  have "k \<le> fold ?step hs k \<and>
      (fold ?step hs k = k \<or>
        (\<exists>h \<in> set hs. 0 < fold ?step hs k \<and> fold ?step hs k < length h \<and> suffix (take (fold ?step hs k) h) c)) \<and>
      (\<forall>h \<in> set hs. \<forall>n. 0 < n \<and> n < length h \<and> suffix (take n h) c \<longrightarrow> n \<le> fold ?step hs k)" for k
  proof (induction hs arbitrary: k)
    case (Cons h hs)
    from inner_hold [OF refl, where h = h and c = c and ns = "[1..<length h]" and k = k] Cons.IH [of "?step h k"]
    show ?case by (auto simp: Suc_le_eq)
  qed simp
  from this [of 0] show ?thesis using assms by (auto simp: resource_hold_len_def)
qed

lemma resource_hold_le: "resource_hold_len hs c \<le> length c"
proof -
  have "resource_hold_len hs c = 0 \<or> (\<exists>h. resource_hold_len hs c < length h \<and> suffix (take (resource_hold_len hs c) h) c)"
    using resource_hold [OF refl, of hs c] by blast
  then show ?thesis by (auto dest!: suffix_length_le)
qed

lemma resource_cut_clean:
  assumes hs: "\<And>h. h \<in> set hs \<Longrightarrow> res_handle h" and g: "g \<in> set hs"
    and a: "a = take (length c - resource_hold_len hs c) c"
    and b: "b = drop (length c - resource_hold_len hs c) c"
  shows "\<not> crosses g a (b @ d)"
proof
  assume "crosses g a (b @ d)"
  then obtain x y where xy: "g = x @ y" "x \<noteq> []" "y \<noteq> []" "suffix x a" "prefix y (b @ d)"
    by (auto simp: crosses_def)
  have c: "c = a @ b" using a b by simp
  have lb: "length b = resource_hold_len hs c" using b resource_hold_le [of hs c] by simp
  have ry: "114 \<notin> set y" using res_handle_r_first [OF hs [OF g] xy(1,2)] .
  show False
  proof (cases "b = []")
    case False
    then obtain h where h: "h \<in> set hs" "suffix (take (length b) h) c" "length b < length h"
      using resource_hold [OF refl, of hs c] lb by auto
    have "length (take (length b) h) = length b" using h by simp
    then have "take (length b) h = b" using h(2) c by (metis suffix_append same_append_eq suffix_def append_eq_append_conv)
    then have "prefix b h" by (metis take_is_prefix)
    then have "hd b = 114" using res_handle_hd [OF hs [OF h(1)]] False by blast
    moreover have "hd y = hd b" using xy(3,5) False by (metis hd_append2 prefix_def)
    ultimately show False using ry xy(3) by (metis list.set_sel(1))
  next
    case True
    then have "suffix x c" using xy(4) c by simp
    moreover have "take (length x) g = x" "0 < length x" "length x < length g" using xy by auto
    ultimately have "length x \<le> resource_hold_len hs c"
      using resource_hold [OF refl, of hs c] g by metis
    then show False using True lb xy(2) by simp
  qed
qed

lemma decode_text_replace: "decode_text T s = replace_all (decode_pairs T) s"
  by (simp add: decode_text_def replace_all_def [symmetric])

lemma decode_pairs_set [simp]: "set (decode_pairs T) = set (handle_pairs T)"
  by (simp add: decode_pairs_def longest_first_def)

interpretation resource_decoder: stream_hold
  "\<lambda>T. registry_ok T \<and> values_apart T" "\<lambda>T. resource_hold_len (registry_handles T)" decode_text
proof
  fix T :: registry and c d :: str
  assume ok: "registry_ok T \<and> values_apart T"
  show "resource_hold_len (registry_handles T) c \<le> length c" by (rule resource_hold_le)
  show "decode_text T [] = []" by (simp add: decode_text_def)
  let ?n = "length c - resource_hold_len (registry_handles T) c"
  have hs: "set (registry_handles T) = snd ` set (handle_pairs T)" by (simp add: registry_handles_def)
  have "replace_all (decode_pairs T) (take ?n c @ drop ?n c @ d) =
      replace_all (decode_pairs T) (take ?n c) @ replace_all (decode_pairs T) (drop ?n c @ d)"
  proof (rule replace_all_cut)
    fix v h g
    assume "(v, h) \<in> set (decode_pairs T)" "g \<in> snd ` set (decode_pairs T)"
    then show "apart v g" using ok by (fastforce simp: values_apart_def list_all_iff)
  next
    fix g
    assume "g \<in> snd ` set (decode_pairs T)"
    then have g: "g \<in> set (registry_handles T)" by (simp add: hs)
    have shape: "\<And>h. h \<in> set (registry_handles T) \<Longrightarrow> res_handle h"
      using ok registry_handle_shape by (auto simp: hs)
    show "g \<noteq> [] \<and> \<not> crosses g (take ?n c) (drop ?n c @ d)"
      using resource_cut_clean [OF shape g refl refl] res_handle_nonempty [OF shape [OF g]] by blast
  qed
  then show "decode_text T (c @ d) = decode_text T (take ?n c) @ decode_text T (drop ?n c @ d)"
    unfolding decode_text_replace by (metis append_assoc append_take_drop_id)
qed

subsection \<open>The orphan filter\<close>

lemma shape_zero: "\<not> starts_with RESOURCE_PREFIX s \<Longrightarrow> match_handle_shape u s = 0"
  by (simp add: match_handle_shape_def)

lemma shape_split:
  assumes "0 < match_handle_shape u s"
  obtains ds rest where "s = RESOURCE_PREFIX @ ds @ rest" "ds \<noteq> []" "list_all u ds"
    "rest = [] \<or> \<not> u (hd rest)" "match_handle_shape u s = length (RESOURCE_PREFIX @ ds)"
proof -
  obtain t where t: "s = RESOURCE_PREFIX @ t"
    using assms by (auto simp: match_handle_shape_def starts_with_iff split: if_splits)
  have ds: "takeWhile u t \<noteq> []" "match_handle_shape u s = 6 + length (takeWhile u t)"
    using assms t by (auto simp: match_handle_shape_def run_len_def RESOURCE_PREFIX_runes split: if_splits)
  show thesis
  proof (rule that [of "takeWhile u t" "dropWhile u t"])
    show "list_all u (takeWhile u t)" by (auto simp: list_all_iff dest: set_takeWhileD)
    show "dropWhile u t = [] \<or> \<not> u (hd (dropWhile u t))" using hd_dropWhile by blast
  qed (use t ds in \<open>auto simp: RESOURCE_PREFIX_runes\<close>)
qed

lemma shape_at:
  assumes "list_all u ds" and "ds \<noteq> []" and "rest = [] \<or> \<not> u (hd rest)"
  shows "match_handle_shape u (RESOURCE_PREFIX @ ds @ rest) = 6 + length ds"
proof -
  have "takeWhile u (ds @ rest) = ds"
    using assms by (cases rest) (auto simp: list_all_iff takeWhile_append)
  then show ?thesis using assms(2) by (simp add: match_handle_shape_def run_len_def RESOURCE_PREFIX_runes)
qed

text \<open>A cut that no token straddles: every match that starts before it ends before it.\<close>

definition clean_cut :: "(rune \<Rightarrow> bool) \<Rightarrow> str \<Rightarrow> str \<Rightarrow> bool" where
  "clean_cut u a b \<longleftrightarrow>
     (\<forall>i < length a. match_handle_shape u (drop i (a @ b)) = match_handle_shape u (drop i a))"

lemma clean_cut_drop: "clean_cut u a b \<Longrightarrow> clean_cut u (drop n a) b"
proof -
  assume c: "clean_cut u a b"
  show "clean_cut u (drop n a) b"
    unfolding clean_cut_def
  proof (intro allI impI)
    fix i
    assume i: "i < length (drop n a)"
    then have "n + i < length a" by simp
    then have "match_handle_shape u (drop (n + i) (a @ b)) = match_handle_shape u (drop (n + i) a)"
      using c by (simp add: clean_cut_def del: drop_append)
    then show "match_handle_shape u (drop i (drop n a @ b)) = match_handle_shape u (drop i (drop n a))"
      using i by (simp add: add.commute)
  qed
qed

lemma match_le: "match_handle_shape u s \<le> length s"
  using length_takeWhile_le [of u "drop 6 s"]
  by (auto simp: match_handle_shape_def run_len_def starts_with_iff RESOURCE_PREFIX_runes)

lemma sub_handles_cut: "clean_cut u a b \<Longrightarrow> sub_handles u (a @ b) = sub_handles u a @ sub_handles u b"
proof (induction u a rule: sub_handles.induct)
  case (2 u c cs)
  let ?n = "match_handle_shape u (c # cs)"
  have same: "match_handle_shape u (c # cs @ b) = ?n"
    using "2.prems" by (auto simp: clean_cut_def dest: spec [of _ 0])
  have tail: "clean_cut u (drop (?n - 1) cs) b"
    using clean_cut_drop [OF "2.prems", of "Suc (?n - 1)"] by simp
  show ?case
  proof (cases "0 < ?n")
    case True
    have "?n - 1 \<le> length cs" using match_le [of u "c # cs"] by simp
    then show ?thesis using "2.IH"(1) [OF refl True tail] same True by (simp add: Let_def)
  next
    case False
    have "clean_cut u cs b" using clean_cut_drop [OF "2.prems", of 1] by simp
    then have "sub_handles u (cs @ b) = sub_handles u cs @ sub_handles u b"
      using "2.IH"(2) [OF refl] False by blast
    then show ?thesis using same False by (simp add: Let_def)
  qed
qed simp

lemma partial_hold:
  assumes "r = fold (\<lambda>n hold. if ends_with (take n p) c then Some n else hold) ns k"
    and "sorted_wrt (<) (ns :: nat list)" and "\<And>m n. k = Some m \<Longrightarrow> n \<in> set ns \<Longrightarrow> m < n"
  shows "(case r of None \<Rightarrow> k = None \<and> (\<forall>n \<in> set ns. \<not> suffix (take n p) c)
     | Some m \<Rightarrow> (k = Some m \<or> (m \<in> set ns \<and> suffix (take m p) c)) \<and>
                (\<forall>n \<in> set ns. suffix (take n p) c \<longrightarrow> n \<le> m))"
  using assms
proof (induction ns arbitrary: k)
  case Nil
  then show ?case by (auto split: option.splits)
next
  case (Cons n ns)
  define k' where "k' = (if suffix (take n p) c then Some n else k)"
  have "r = fold (\<lambda>n hold. if ends_with (take n p) c then Some n else hold) ns k'"
    using Cons.prems(1) by (simp add: k'_def ends_with_suffix)
  moreover have "\<And>m n'. k' = Some m \<Longrightarrow> n' \<in> set ns \<Longrightarrow> m < n'"
    using Cons.prems(2,3) by (auto simp: k'_def split: if_splits)
  ultimately have ih: "(case r of None \<Rightarrow> k' = None \<and> (\<forall>n \<in> set ns. \<not> suffix (take n p) c)
     | Some m \<Rightarrow> (k' = Some m \<or> (m \<in> set ns \<and> suffix (take m p) c)) \<and>
                (\<forall>n \<in> set ns. suffix (take n p) c \<longrightarrow> n \<le> m))"
    using Cons.IH [of k'] Cons.prems(2) by simp
  show ?case
  proof (cases r)
    case None
    then show ?thesis using ih by (auto simp: k'_def split: if_splits)
  next
    case (Some m)
    have "suffix (take n p) c \<Longrightarrow> n \<le> m"
      using ih Some Cons.prems(2) by (auto simp: k'_def)
    then show ?thesis using ih Some by (auto simp: k'_def split: if_splits)
  qed
qed

lemma last_filter_upt:
  assumes "filter P [0..<n] \<noteq> []"
  shows "P (last (filter P [0..<n])) \<and> last (filter P [0..<n]) < n \<and>
    (\<forall>j < n. P j \<longrightarrow> j \<le> last (filter P [0..<n]))"
  using assms
proof (induction n)
  case (Suc n)
  then show ?case by (cases "P n"; cases "filter P [0..<n] = []") (auto simp: filter_empty_conv less_Suc_eq)
qed simp

definition token_tail :: "str \<Rightarrow> bool" where
  "token_tail t \<longleftrightarrow>
     (\<exists>m. 0 < m \<and> m < 6 \<and> t = take m RESOURCE_PREFIX) \<or> (\<exists>ds. t = RESOURCE_PREFIX @ ds \<and> list_all ascii_digit ds)"

lemma token_tail_cons: "token_tail t \<Longrightarrow> \<exists>t'. t = 114 # t' \<and> 114 \<notin> set t'"
proof -
  assume "token_tail t"
  then consider m where "0 < m" "m < 6" "t = take m RESOURCE_PREFIX"
    | ds where "t = RESOURCE_PREFIX @ ds" "list_all ascii_digit ds" by (auto simp: token_tail_def)
  then show ?thesis
  proof cases
    case 1
    then have "t = 114 # take (m - 1) [101, 115, 58, 47, 47]" by (cases m) (auto simp: RESOURCE_PREFIX_runes)
    moreover have "114 \<notin> set (take (m - 1) [101, 115, 58, 47, 47 :: rune])" by (auto dest: in_set_takeD)
    ultimately show ?thesis by blast
  next
    case 2
    then show ?thesis by (auto simp: RESOURCE_PREFIX_runes list_all_iff ascii_digit_def)
  qed
qed

lemma orphan_hold:
  assumes "n = orphan_resource_hold_len c"
  shows "n \<le> length c" and "0 < n \<Longrightarrow> token_tail (drop (length c - n) c)"
    and "suffix t c \<Longrightarrow> token_tail t \<Longrightarrow> 0 < n"
proof -
  define partial where "partial = fold (\<lambda>n hold. if ends_with (take n RESOURCE_PREFIX) c then Some n else hold)
      [1..<length RESOURCE_PREFIX] None"
  have len6: "length RESOURCE_PREFIX = 6" by simp
  define starts where "starts = filter (\<lambda>i. starts_with RESOURCE_PREFIX (drop i c)) [0..<length c]"
  define p where "p = (case partial of None \<Rightarrow> 0 | Some n \<Rightarrow> n)"
  define idx where "idx = last starts"
  define sfx where "sfx = drop (idx + 6) c"
  have n: "n = (if starts \<noteq> [] \<and> (sfx = [] \<or> all_digits sfx) then length c - idx else p)"
    unfolding assms orphan_resource_hold_len_def Let_def partial_def [symmetric] starts_def [symmetric]
      p_def idx_def sfx_def
    unfolding len6 by (cases "starts = []") simp_all
  have part: "case partial of None \<Rightarrow> (\<forall>n \<in> set [1..<6]. \<not> suffix (take n RESOURCE_PREFIX) c)
     | Some m \<Rightarrow> m \<in> set [1..<6] \<and> suffix (take m RESOURCE_PREFIX) c"
  proof -
    have "case partial of None \<Rightarrow> None = (None :: nat option) \<and> (\<forall>n \<in> set [1..<6]. \<not> suffix (take n RESOURCE_PREFIX) c)
     | Some m \<Rightarrow> (None = Some m \<or> m \<in> set [1..<6] \<and> suffix (take m RESOURCE_PREFIX) c) \<and>
                (\<forall>n \<in> set [1..<6]. suffix (take n RESOURCE_PREFIX) c \<longrightarrow> n \<le> m)"
      unfolding len6 [symmetric] by (rule partial_hold [OF partial_def sorted_wrt_upt]) simp
    then show ?thesis by (cases partial) (simp_all only: option.case option.distinct simp_thms)
  qed
  have pp: "0 < p \<Longrightarrow> p < 6 \<and> suffix (take p RESOURCE_PREFIX) c"
    using part by (auto simp: p_def split: option.splits)
  have pz: "0 < m \<Longrightarrow> m < 6 \<Longrightarrow> suffix (take m RESOURCE_PREFIX) c \<Longrightarrow> 0 < p" for m
    using part by (auto simp: p_def Suc_le_eq split: option.splits)
  have idx: "starts \<noteq> [] \<Longrightarrow> starts_with RESOURCE_PREFIX (drop idx c) \<and> idx < length c \<and>
      (\<forall>j < length c. starts_with RESOURCE_PREFIX (drop j c) \<longrightarrow> j \<le> idx)"
    using last_filter_upt [of "\<lambda>i. starts_with RESOURCE_PREFIX (drop i c)" "length c"]
    by (simp add: starts_def idx_def)
  have pl: "0 < p \<Longrightarrow> p \<le> length c \<and> drop (length c - p) c = take p RESOURCE_PREFIX"
    using pp suffix_length_le [of "take p RESOURCE_PREFIX" c]
    by (auto simp: suffix_def RESOURCE_PREFIX_runes)
  show "n \<le> length c" using n pl by (cases "0 < p") auto
  show "token_tail (drop (length c - n) c)" if "0 < n"
  proof (cases "starts \<noteq> [] \<and> (sfx = [] \<or> all_digits sfx)")
    case True
    then obtain r where r: "drop idx c = RESOURCE_PREFIX @ r" using idx by (auto simp: starts_with_iff)
    have "sfx = drop 6 (drop idx c)" by (simp add: sfx_def add.commute)
    then have "sfx = r" using r by (simp add: RESOURCE_PREFIX_runes)
    then have "list_all ascii_digit r" using True by (auto simp: all_digits_def)
    moreover have "length c - n = idx" using n True idx by auto
    ultimately show ?thesis using r by (auto simp: token_tail_def)
  next
    case False
    then show ?thesis using n that pl pp by (auto simp: token_tail_def)
  qed
  show "0 < n" if t: "suffix t c" "token_tail t"
  proof (cases "starts \<noteq> [] \<and> (sfx = [] \<or> all_digits sfx)")
    case True
    then show ?thesis using n idx by auto
  next
    case False
    from t(2) consider m where "0 < m" "m < 6" "t = take m RESOURCE_PREFIX"
      | ds where "t = RESOURCE_PREFIX @ ds" "list_all ascii_digit ds" by (auto simp: token_tail_def)
    then show ?thesis
    proof cases
      case 1
      then show ?thesis using n False pz t(1) by auto
    next
      case 2
      obtain u where u: "c = u @ RESOURCE_PREFIX @ ds" using t(1) 2 by (auto simp: suffix_def)
      have "starts_with RESOURCE_PREFIX (drop (length u) c)" using u by (auto simp: starts_with_iff)
      moreover have lu: "length u < length c" using u by (simp add: RESOURCE_PREFIX_runes)
      ultimately have ne: "starts \<noteq> []" by (auto simp: starts_def filter_empty_conv)
      have le: "length u \<le> idx"
        using idx [OF ne] lu \<open>starts_with RESOURCE_PREFIX (drop (length u) c)\<close> by blast
      obtain r where r: "drop idx c = RESOURCE_PREFIX @ r" using idx ne by (auto simp: starts_with_iff)
      have "idx = length u"
      proof (rule ccontr)
        assume "idx \<noteq> length u"
        then obtain k where k: "idx = length u + Suc k" using le by (metis less_natE le_neq_implies_less add_Suc_right)
        then have "drop idx c = drop k ([101, 115, 58, 47, 47] @ ds)" using u by (simp add: RESOURCE_PREFIX_runes)
        moreover have "114 \<in> set (drop idx c)" using r by (simp add: RESOURCE_PREFIX_runes)
        ultimately have "114 \<in> set (drop k ([101, 115, 58, 47, 47] @ ds))" by (simp only:)
        then have "114 \<in> set ([101, 115, 58, 47, 47] @ ds)" by (metis in_set_dropD)
        then show False using 2(2) by (auto simp: list_all_iff ascii_digit_def)
      qed
      then have "sfx = ds" using u by (simp add: sfx_def RESOURCE_PREFIX_runes)
      then show ?thesis using False ne 2(2) by (auto simp: all_digits_def)
    qed
  qed
qed

lemma orphan_cut_clean:
  assumes n: "n = orphan_resource_hold_len c"
    and a: "a = take (length c - n) c" and b: "b = drop (length c - n) c"
  shows "clean_cut ascii_digit a (b @ d)"
  unfolding clean_cut_def
proof (intro allI impI)
  fix i
  assume i: "i < length a"
  define s where "s = drop i a"
  have s: "s \<noteq> []" "drop i (a @ b @ d) = s @ b @ d" "suffix s a" using i by (auto simp: s_def suffix_drop)
  have c: "c = a @ b" using a b by simp
  have lb: "length b = n" using b orphan_hold(1) [OF n] by simp
  have hb: "b \<noteq> [] \<Longrightarrow> \<exists>b'. b = 114 # b'"
    using orphan_hold(2) [OF n] lb token_tail_cons b by fastforce
  have nt: "b = [] \<Longrightarrow> \<not> token_tail s" using orphan_hold(3) [OF n, of s] c s(3) lb by auto
  show "match_handle_shape ascii_digit (drop i (a @ b @ d)) = match_handle_shape ascii_digit (drop i a)"
  proof (cases "starts_with RESOURCE_PREFIX s")
    case True
    then obtain t where t: "s = RESOURCE_PREFIX @ t" by (auto simp: starts_with_iff)
    have "takeWhile ascii_digit (t @ b @ d) = takeWhile ascii_digit t"
    proof (cases "list_all ascii_digit t")
      case True
      then have "token_tail s" using t by (auto simp: token_tail_def)
      then obtain b' where "b = 114 # b'" using nt hb by blast
      moreover have "\<not> ascii_digit 114" by (simp add: ascii_digit_def)
      ultimately have "takeWhile ascii_digit (t @ b @ d) = t" using True by (simp add: list_all_iff)
      moreover have "takeWhile ascii_digit t = t" using True by (simp add: takeWhile_eq_all_conv list_all_iff)
      ultimately show ?thesis by (simp only:)
    next
      case False
      then show ?thesis by (auto simp: list_all_iff takeWhile_append)
    qed
    then show ?thesis
      using s(2) t by (simp add: s_def [symmetric] match_handle_shape_def run_len_def RESOURCE_PREFIX_runes)
  next
    case False
    have "\<not> starts_with RESOURCE_PREFIX (s @ b @ d)"
    proof
      assume sw: "starts_with RESOURCE_PREFIX (s @ b @ d)"
      then have "crosses RESOURCE_PREFIX s (b @ d)" using starts_with_cut [OF sw s(1)] False by blast
      then obtain x y where xy: "RESOURCE_PREFIX = x @ y" "x \<noteq> []" "y \<noteq> []" "suffix x s" "prefix y (b @ d)"
        by (auto simp: crosses_def)
      have lx: "length x < 6" using arg_cong [OF xy(1), of length] xy(3) by (cases y) simp_all
      have "x = take (length x) RESOURCE_PREFIX" using xy(1) by (metis append_eq_conv_conj)
      then have tt: "token_tail x" using lx xy(2) by (auto simp: token_tail_def)
      show False
      proof (cases "b = []")
        case True
        then have "suffix x c" using xy(4) s(3) c by (metis append_Nil2 suffix_order.trans)
        then show False using orphan_hold(3) [OF n _ tt] lb True by simp
      next
        case False
        then obtain b' where "b = 114 # b'" using hb by blast
        then have "hd y = 114" using xy(3,5) by (cases y) auto
        then have "114 \<in> set (drop (length x) RESOURCE_PREFIX)" using xy(1,3) by (metis append_eq_conv_conj list.set_sel(1))
        then have "114 \<in> set (drop 1 RESOURCE_PREFIX)"
          using set_drop_subset_set_drop [of 1 "length x" RESOURCE_PREFIX] xy(2)
          by (cases x) (auto simp del: set_drop_subset_set_drop)
        then show False by (simp add: RESOURCE_PREFIX_runes)
      qed
    qed
    then show ?thesis using s(2) False by (simp add: shape_zero s_def)
  qed
qed

interpretation orphan_filter: stream_hold
  "\<lambda>u. \<forall>c. u c = ascii_digit c" "\<lambda>u. orphan_resource_hold_len" sub_handles
proof
  fix u :: "rune \<Rightarrow> bool" and c d :: str
  assume "\<forall>c. u c = ascii_digit c"
  then have u: "u = ascii_digit" by auto
  show "orphan_resource_hold_len c \<le> length c" by (rule orphan_hold(1) [OF refl])
  show "sub_handles u [] = []" by simp
  let ?n = "length c - orphan_resource_hold_len c"
  have "sub_handles u (take ?n c @ drop ?n c @ d) = sub_handles u (take ?n c) @ sub_handles u (drop ?n c @ d)"
    unfolding u by (rule sub_handles_cut, rule orphan_cut_clean) (rule refl)+
  then show "sub_handles u (c @ d) = sub_handles u (take ?n c) @ sub_handles u (drop ?n c @ d)"
    by (metis append_assoc append_take_drop_id)
qed

end
