(* ===== verification/Resource_Roundtrip.thy ===== *)
theory Resource_Roundtrip
  imports Resource_Stream
begin

text \<open>
  Encoding a text and decoding it again: the encoder's output is the text with some of its
  segments replaced by handles, and each replacement pass of the decoder restores the segments of
  one handle and nothing else.
\<close>

subsection \<open>Segments\<close>

datatype segment = Plain rune | Ref str str

text \<open>The text in which the handles of \<open>D\<close> have been restored.\<close>

fun mix :: "str set \<Rightarrow> segment list \<Rightarrow> str" where
  "mix D [] = []"
| "mix D (Plain c # segs) = c # mix D segs"
| "mix D (Ref v h # segs) = (if h \<in> D then v else h) @ mix D segs"

definition seg_pairs :: "segment list \<Rightarrow> (str \<times> str) set" where
  "seg_pairs segs = {(v, h). Ref v h \<in> set segs}"

lemma seg_pairs_simps [simp]:
  "seg_pairs [] = {}" "seg_pairs (Plain c # segs) = seg_pairs segs"
  "seg_pairs (Ref v h # segs) = insert (v, h) (seg_pairs segs)"
  by (auto simp: seg_pairs_def)

definition good_segs :: "segment list \<Rightarrow> bool" where
  "good_segs segs \<longleftrightarrow>
     (\<forall>(v, h) \<in> seg_pairs segs. res_handle h \<and> (\<forall>(v', h') \<in> seg_pairs segs. length h' = length h \<and> (h' = h \<longrightarrow> v' = v)))"

lemma prefix_mix:
  assumes "prefix y (mix D segs)" and "114 \<notin> set y" and "\<And>v h. (v, h) \<in> seg_pairs segs \<Longrightarrow> res_handle h"
  shows "prefix y (mix UNIV segs)"
  using assms
proof (induction D segs arbitrary: y rule: mix.induct)
  case (2 D c segs)
  then show ?case by (cases y) auto
next
  case (3 D v h segs)
  show ?case
  proof (cases "h \<in> D")
    case True
    then have p: "prefix y (v @ mix D segs)" using 3 by simp
    from prefix_append_cases [OF p] show ?thesis
    proof
      assume "prefix y v"
      then show ?thesis by (auto simp: prefix_def)
    next
      assume "\<exists>y'. y = v @ y' \<and> prefix y' (mix D segs)"
      then obtain y' where "y = v @ y'" "prefix y' (mix D segs)" by blast
      moreover from this have "prefix y' (mix UNIV segs)" using 3 by auto
      ultimately show ?thesis by simp
    qed
  next
    case False
    obtain h' where "h = 114 # h'"
      using "3.prems"(3) [of v h] by (auto elim!: res_handle_cases simp: RESOURCE_PREFIX_runes)
    then have "y = []" using 3 False by (cases y) auto
    then show ?thesis by simp
  qed
qed auto

lemma contains_sublist: "contains_str xs ys \<longleftrightarrow> sublist xs ys"
  by (auto simp: contains_str_iff sublist_def)

lemma res_handle_has_prefix: "res_handle h \<Longrightarrow> sublist h s \<Longrightarrow> contains_str RESOURCE_PREFIX s"
  unfolding contains_sublist
  by (elim res_handle_cases) (metis prefixI prefix_imp_sublist sublist_order.order_trans)

text \<open>A handle of the restored kind does not start in a restored or plain piece.\<close>

lemma no_cross_restored:
  assumes "res_handle g" and "\<not> contains_str RESOURCE_PREFIX (a @ mix UNIV segs)"
    and "\<And>v h. (v, h) \<in> seg_pairs segs \<Longrightarrow> res_handle h"
  shows "\<not> crosses g a (mix D segs)"
proof
  assume "crosses g a (mix D segs)"
  then obtain x y where xy: "g = x @ y" "x \<noteq> []" "suffix x a" "prefix y (mix D segs)"
    by (auto simp: crosses_def)
  have "prefix y (mix UNIV segs)"
    using prefix_mix [OF xy(4) res_handle_r_first [OF assms(1) xy(1,2)] assms(3)] .
  then have "sublist g (a @ mix UNIV segs)"
    using xy(1,3) unfolding sublist_def prefix_def suffix_def by force
  then show False using assms(1,2) res_handle_has_prefix by blast
qed

lemma no_cross_handle:
  assumes "res_handle g" and "res_handle h" and "length g = length h"
  shows "\<not> crosses g h b"
proof
  assume "crosses g h b"
  then obtain x y where xy: "g = x @ y" "x \<noteq> []" "y \<noteq> []" "suffix x h" by (auto simp: crosses_def)
  obtain u where u: "h = u @ x" using xy(4) by (auto simp: suffix_def)
  have "hd x = 114" using res_handle_hd [OF assms(1), of x] xy by simp
  then have "114 \<in> set x" using xy(2) by (metis list.set_sel(1))
  then have "u = []" using res_handle_r_first [OF assms(2) u] by blast
  then show False using u xy assms(3) by simp
qed

lemma restore_step:
  assumes "res_handle g" and "g \<notin> D" and "\<not> contains_str RESOURCE_PREFIX (mix UNIV segs)"
    and "\<And>v' h. (v', h) \<in> seg_pairs segs \<Longrightarrow> res_handle h \<and> length h = length g \<and> (h = g \<longrightarrow> v' = v)"
  shows "str_replace g v (mix D segs) = mix (insert g D) segs"
  using assms(2-)
proof (induction D segs rule: mix.induct)
  case (2 D c segs)
  have nc: "\<not> contains_str RESOURCE_PREFIX ([c] @ mix UNIV segs)" using "2.prems"(2) by simp
  have shape: "\<And>v h. (v, h) \<in> seg_pairs segs \<Longrightarrow> res_handle h" using "2.prems"(3) by auto
  have x: "\<not> crosses g [c] (mix D segs)" by (rule no_cross_restored [OF assms(1) nc shape])
  have "length [c] < length g" using assms(1) by (auto simp: res_handle_def)
  then have "\<not> starts_with g [c]" unfolding starts_with_prefix using prefix_length_le by fastforce
  then have "str_replace g v [c] = [c]" by simp
  moreover have "str_replace g v ([c] @ mix D segs) = str_replace g v [c] @ str_replace g v (mix D segs)"
    by (rule str_replace_cut [OF x res_handle_nonempty [OF assms(1)]])
  moreover have "str_replace g v (mix D segs) = mix (insert g D) segs"
  proof (rule "2.IH")
    show "\<not> contains_str RESOURCE_PREFIX (mix UNIV segs)" using nc by simp
  qed (use "2.prems" in auto)
  ultimately show ?case by simp
next
  case (3 D v' h segs)
  have h: "res_handle h" "length h = length g" "h = g \<longrightarrow> v' = v" using "3.prems"(3) [of v' h] by auto
  have nc: "\<not> contains_str RESOURCE_PREFIX (v' @ mix UNIV segs)" using "3.prems"(2) by simp
  have nv: "\<not> contains_str RESOURCE_PREFIX v'" "\<not> contains_str RESOURCE_PREFIX (mix UNIV segs)"
    using nc unfolding contains_str_iff by (metis append_assoc)+
  have ih: "str_replace g v (mix D segs) = mix (insert g D) segs"
    by (rule "3.IH") (use "3.prems" nv in auto)
  have shape: "\<And>v h. (v, h) \<in> seg_pairs segs \<Longrightarrow> res_handle h" using "3.prems"(3) by auto
  show ?case
  proof (cases "h = g")
    case True
    then have "mix D (Ref v' h # segs) = g @ mix D segs" using "3.prems"(1) by simp
    moreover obtain c cs where g: "g = c # cs" using assms(1) by (cases g) (auto simp: res_handle_def)
    moreover have "starts_with g (g @ mix D segs)" by (auto simp: starts_with_iff)
    ultimately have "str_replace g v (mix D (Ref v' h # segs)) = v @ str_replace g v (mix D segs)" by simp
    then show ?thesis using ih True h by simp
  next
    case False
    define w where "w = (if h \<in> D then v' else h)"
    have x: "\<not> crosses g w (mix D segs)"
      using no_cross_restored [OF assms(1) nc shape] no_cross_handle [OF assms(1) h(1)] h(2)
      by (simp add: w_def)
    have "\<not> contains_str g w"
    proof (cases "h \<in> D")
      case True
      then show ?thesis using nv(1) res_handle_has_prefix [OF assms(1)] by (auto simp: w_def contains_sublist)
    next
      case False
      then show ?thesis using h \<open>h \<noteq> g\<close> by (auto simp: w_def contains_str_iff)
    qed
    then have "str_replace g v w = w" by (rule str_replace_absent)
    then have "str_replace g v (w @ mix D segs) = w @ mix (insert g D) segs"
      using str_replace_cut [OF x res_handle_nonempty [OF assms(1)]] ih by simp
    then show ?thesis using False by (simp add: w_def)
  qed
qed simp

lemma restore_all:
  assumes "\<not> contains_str RESOURCE_PREFIX (mix UNIV segs)"
    and "\<And>v h. (v, h) \<in> set ps \<Longrightarrow> res_handle h"
    and "\<And>v h v' h'. (v, h) \<in> set ps \<Longrightarrow> (v', h') \<in> seg_pairs segs \<Longrightarrow>
           res_handle h' \<and> length h' = length h \<and> (h' = h \<longrightarrow> v' = v)"
    and "distinct (map snd ps)" and "D \<inter> snd ` set ps = {}"
  shows "replace_all ps (mix D segs) = mix (D \<union> snd ` set ps) segs"
  using assms(2-)
proof (induction ps arbitrary: D)
  case (Cons p ps)
  obtain v h where p: "p = (v, h)" by (cases p)
  have step: "str_replace h v (mix D segs) = mix (insert h D) segs"
  proof (rule restore_step [OF _ _ assms(1)])
    have mem: "(v, h) \<in> set (p # ps)" using p by simp
    show "res_handle h" by (rule Cons.prems(1) [OF mem])
    show "h \<notin> D" using Cons.prems(4) p by auto
    fix v' h'
    assume "(v', h') \<in> seg_pairs segs"
    then show "res_handle h' \<and> length h' = length h \<and> (h' = h \<longrightarrow> v' = v)" by (rule Cons.prems(2) [OF mem])
  qed
  have "replace_all ps (mix (insert h D) segs) = mix (insert h D \<union> snd ` set ps) segs"
  proof (rule Cons.IH)
    show "res_handle h'" if "(v', h') \<in> set ps" for v' h' using Cons.prems(1) [of v' h'] that by simp
    show "res_handle h2 \<and> length h2 = length h1 \<and> (h2 = h1 \<longrightarrow> v2 = v1)"
      if "(v1, h1) \<in> set ps" "(v2, h2) \<in> seg_pairs segs" for v1 h1 v2 h2
      using Cons.prems(2) [of v1 h1 v2 h2] that by simp
    show "distinct (map snd ps)" "insert h D \<inter> snd ` set ps = {}" using Cons.prems(3,4) p by auto
  qed
  then show ?case using p step by simp
qed simp

lemma mix_all: "(\<And>v h. (v, h) \<in> seg_pairs segs \<Longrightarrow> h \<in> D) \<Longrightarrow> mix D segs = mix UNIV segs"
  by (induction D segs rule: mix.induct) auto

subsection \<open>The encoder\<close>

lemma registry_handles_nth:
  "registry_ok T \<Longrightarrow> map snd (handle_pairs T) = map (\<lambda>n. RESOURCE_PREFIX @ handle_number 4 n) [1..<ht_next T]"
  by (simp add: registry_ok_def table_ok_def handle_pairs_def comp_def case_prod_unfold)

lemma decimal_length: "n < 10 ^ Suc k \<Longrightarrow> length (decimal n) \<le> Suc k"
proof (induction k arbitrary: n)
  case 0
  then show ?case by (subst decimal.simps) simp
next
  case (Suc k)
  then have "n div 10 < 10 ^ Suc k" by (simp add: less_mult_imp_div_less)
  then have "length (decimal (n div 10)) \<le> Suc k" by (rule Suc.IH)
  then show ?case by (subst decimal.simps) simp
qed

lemma handle_number_length: "n < 10000 \<Longrightarrow> length (handle_number 4 n) = 4"
  using decimal_length [of n 3] by (simp add: handle_number_def pad_zero_def)

lemma new_registry_ok: "registry_ok new_registry"
  by (simp add: registry_ok_def new_registry_def new_table_ok) (simp add: new_table_def handle_pairs_def)

lemma register_registry:
  assumes "registry_ok T" and "register_key v v () None T = (h, T')" and "v \<noteq> []"
  shows "registry_ok T'" and "(v, h) \<in> set (handle_pairs T')" and "set (handle_pairs T) \<subseteq> set (handle_pairs T')"
    and "ht_next T \<le> ht_next T'"
proof -
  have ok: "table_ok 1 T" using assms(1) by (simp add: registry_ok_def)
  have ok': "table_ok 1 T'" by (rule register_ok [OF ok assms(2)])
  have "registry_ok T' \<and> (v, h) \<in> set (handle_pairs T') \<and> set (handle_pairs T) \<subseteq> set (handle_pairs T') \<and>
      ht_next T \<le> ht_next T'"
  proof (cases "map_of (ht_handle_by_key T) v")
    case (Some e)
    then have "h = e" "T' = T" using assms(2,3) by (simp_all add: register_key_def)
    moreover have "(v, e) \<in> set (handle_pairs T)"
      using Some assms(1) by (auto simp: registry_ok_def dest: map_of_SomeD)
    ultimately show ?thesis using assms(1) by simp
  next
    case None
    from ok assms(2) show ?thesis
    proof (cases rule: register_cases)
      case new
      then show ?thesis using assms(1) ok' by (auto simp: registry_ok_def handle_pairs_def)
    qed (use assms(3) None in auto)
  qed
  then show "registry_ok T'" "(v, h) \<in> set (handle_pairs T')" "set (handle_pairs T) \<subseteq> set (handle_pairs T')"
    "ht_next T \<le> ht_next T'" by auto
qed

lemma mix_append: "mix D (map Plain s @ segs) = s @ mix D segs"
  by (induction s) auto

lemma encode_segments:
  assumes "registry_ok T" and "encode_from s T = (e, T')"
  shows "\<exists>segs. s = mix UNIV segs \<and> e = mix {} segs \<and> registry_ok T' \<and>
    seg_pairs segs \<subseteq> set (handle_pairs T') \<and> set (handle_pairs T) \<subseteq> set (handle_pairs T') \<and> ht_next T \<le> ht_next T'"
  using assms
proof (induction s T arbitrary: e T' rule: encode_from.induct)
  case (1 T)
  then show ?case by (intro exI [of _ "[]"]) simp
next
  case (2 c cs T)
  let ?n = "match_stored_ref (c # cs)"
  show ?case
  proof (cases "0 < ?n")
    case True
    obtain h T1 where r: "register_key (take ?n (c # cs)) (take ?n (c # cs)) () None T = (h, T1)" by (metis surj_pair)
    obtain out T2 where e: "encode_from (drop (?n - 1) cs) T1 = (out, T2)" by (metis surj_pair)
    have ne: "take ?n (c # cs) \<noteq> []" using True by simp
    note reg = register_registry [OF "2.prems"(1) r ne]
    have eq: "e = h @ out" "T' = T2" using "2.prems"(2) True r e by (simp_all add: Let_def)
    from "2.IH"(1) [OF refl True r [symmetric] reg(1) e] obtain segs where
      segs: "drop (?n - 1) cs = mix UNIV segs" "out = mix {} segs" "registry_ok T2"
        "seg_pairs segs \<subseteq> set (handle_pairs T2)" "set (handle_pairs T1) \<subseteq> set (handle_pairs T2)" "ht_next T1 \<le> ht_next T2"
      by blast
    have "c # cs = take ?n (c # cs) @ drop (?n - 1) cs" using True by (metis append_take_drop_id drop_Cons' neq0_conv)
    then have "c # cs = mix UNIV (Ref (take ?n (c # cs)) h # segs)" using segs(1) by simp
    moreover have "e = mix {} (Ref (take ?n (c # cs)) h # segs)" using eq segs(2) by simp
    moreover have "seg_pairs (Ref (take ?n (c # cs)) h # segs) \<subseteq> set (handle_pairs T')"
      using segs reg eq by auto
    moreover have "registry_ok T'" "set (handle_pairs T) \<subseteq> set (handle_pairs T')" "ht_next T \<le> ht_next T'"
      using segs reg eq by auto
    ultimately show ?thesis by blast
  next
    case False
    obtain out T2 where e: "encode_from cs T = (out, T2)" by (metis surj_pair)
    have eq: "e = c # out" "T' = T2" using "2.prems"(2) False e by (simp_all add: Let_def)
    from "2.IH"(2) [OF refl False "2.prems"(1) e] obtain segs where
      segs: "cs = mix UNIV segs" "out = mix {} segs" "registry_ok T2"
        "seg_pairs segs \<subseteq> set (handle_pairs T2)" "set (handle_pairs T) \<subseteq> set (handle_pairs T2)" "ht_next T \<le> ht_next T2"
      by blast
    then have "c # cs = mix UNIV (Plain c # segs)" "e = mix {} (Plain c # segs)"
      "seg_pairs (Plain c # segs) \<subseteq> set (handle_pairs T')" using eq by auto
    then show ?thesis using segs eq by blast
  qed
qed

lemma decode_pairs_distinct: "registry_ok T \<Longrightarrow> distinct (map snd (decode_pairs T))"
proof -
  assume ok: "registry_ok T"
  have "distinct (map snd (handle_pairs T))"
    unfolding registry_handles_nth [OF ok] by (auto simp: distinct_map inj_on_def handle_number_inj)
  then show ?thesis by (simp add: decode_pairs_def longest_first_def distinct_map)
qed

lemma decode_restores:
  assumes ok: "registry_ok T" and small: "ht_next T \<le> 10000"
    and segs: "seg_pairs segs \<subseteq> set (handle_pairs T)" "\<not> contains_str RESOURCE_PREFIX (mix UNIV segs)"
  shows "decode_text T (mix {} segs) = mix UNIV segs"
proof -
  have shape: "res_handle h" if "(v, h) \<in> set (handle_pairs T)" for v h
    using registry_handle_shape [OF ok, of h] that by force
  have len: "length h = 10" if "(v, h) \<in> set (handle_pairs T)" for v h
  proof -
    have "h \<in> set (map snd (handle_pairs T))" using that by force
    then obtain n where "n < ht_next T" "h = RESOURCE_PREFIX @ handle_number 4 n"
      unfolding registry_handles_nth [OF ok] by auto
    then show ?thesis using small handle_number_length [of n] by (simp add: RESOURCE_PREFIX_runes)
  qed
  have dist: "distinct (map snd (handle_pairs T))"
    unfolding registry_handles_nth [OF ok] by (auto simp: distinct_map inj_on_def handle_number_inj)
  have fn: "v' = v" if "(v, h) \<in> set (handle_pairs T)" "(v', h) \<in> set (handle_pairs T)" for v v' h
    using that dist by (metis distinct_map inj_onD snd_conv fst_conv)
  have "replace_all (decode_pairs T) (mix {} segs) = mix ({} \<union> snd ` set (decode_pairs T)) segs"
  proof (rule restore_all [OF segs(2) _ _ decode_pairs_distinct [OF ok]])
    show "res_handle h" if "(v, h) \<in> set (decode_pairs T)" for v h using that shape by simp
    show "res_handle h' \<and> length h' = length h \<and> (h' = h \<longrightarrow> v' = v)"
      if "(v, h) \<in> set (decode_pairs T)" "(v', h') \<in> seg_pairs segs" for v h v' h'
      using that segs(1) shape len fn by auto
  qed simp
  also have "\<dots> = mix UNIV segs" by (rule mix_all) (use segs(1) in force)
  finally show ?thesis by (simp add: decode_text_replace)
qed

end
