(* ===== verification/Citation_Stream.thy ===== *)
theory Citation_Stream
  imports Resource_Codec
begin

text \<open>
  The citation stage of the streaming decoder,
  src/src/core/agents/engine/modelcontext/citations.py: tag-start tests and the expander that
  keeps partial source tags off the wire. \<open>str.lower\<close> is written out on ASCII; its values
  on other characters, the pattern of a complete reference tag and the registry's
  \<open>expand_text\<close> are parameters. (The final-sigma rule of \<open>lower\<close> chooses between two
  non-ASCII letters and cannot change a comparison with an ASCII tag name.)
\<close>

definition is_named_tag_start :: "str \<Rightarrow> str \<Rightarrow> bool" where
  "is_named_tag_start value name =
     (let pfx = 60 # name
      in if \<not> starts_with pfx value then False
         else if length value = length pfx then True
         else value ! length pfx \<in> {32, 9, 13, 10, 62})"

definition is_ref_tag_start :: "str \<Rightarrow> bool" where
  "is_ref_tag_start value = is_named_tag_start value (lit ''ref'')"

definition is_source_tag_pending :: "str \<Rightarrow> bool" where
  "is_source_tag_pending value =
     list_ex (\<lambda>name. (length value \<le> length (60 # name) \<and> starts_with value (60 # name)) \<or>
         is_named_tag_start value name)
       [lit ''ref'', lit ''kb'', lit ''web'']"

text \<open>\<open>str.find\<close> of one character.\<close>

fun find_char :: "rune \<Rightarrow> str \<Rightarrow> nat option" where
  "find_char c [] = None"
| "find_char c (d # ds) = (if d = c then Some 0 else map_option Suc (find_char c ds))"

lemma find_char_None: "find_char c s = None \<longleftrightarrow> c \<notin> set s"
  by (induction s) auto

lemma find_char_Some: "find_char c s = Some i \<Longrightarrow> i < length s \<and> s ! i = c"
  by (induction s arbitrary: i) (auto split: if_splits)

record citation_env =
  ce_lower :: "rune \<Rightarrow> str"
  ce_ref_tag :: "str \<Rightarrow> bool"
  ce_expand :: "str \<Rightarrow> str"

definition emit_first :: "str \<Rightarrow> str \<times> str \<Rightarrow> str \<times> str" where
  "emit_first s r = (s @ fst r, snd r)"

text \<open>The loop of \<open>feed\<close>: what is emitted and what stays pending.\<close>

function cite_scan :: "citation_env \<Rightarrow> str \<Rightarrow> str \<times> str" where
  "cite_scan env data =
     (if data = [] then ([], [])
      else case find_char 60 data of
        None \<Rightarrow> (data, [])
      | Some idx \<Rightarrow>
          let d = drop idx data; lower = lower_str (ce_lower env) d
          in emit_first (take idx data)
               (if is_source_tag_pending lower \<and> 62 \<notin> set d then ([], d)
                else if is_ref_tag_start lower then
                  (case find_char 62 d of
                     None \<Rightarrow> ([], d)
                   | Some e \<Rightarrow>
                       emit_first (if ce_ref_tag env (take (e + 1) d) then ce_expand env (take (e + 1) d) else [])
                         (cite_scan env (drop (e + 1) d)))
                else if is_named_tag_start lower (lit ''kb'') \<or> is_named_tag_start lower (lit ''web'') then
                  (case find_char 62 d of
                     None \<Rightarrow> ([], d)
                   | Some e \<Rightarrow> cite_scan env (drop (e + 1) d))
                else emit_first [60] (cite_scan env (drop 1 d))))"
  by pat_completeness auto
termination
  by (relation "measure (\<lambda>(env, data). length data)") (auto dest: find_char_Some)

declare cite_scan.simps [simp del]

definition cite_feed :: "citation_env \<Rightarrow> str \<Rightarrow> str \<Rightarrow> str \<times> str" where
  "cite_feed env pending chunk = cite_scan env (pending @ chunk)"

definition cite_flush :: "citation_env \<Rightarrow> str \<Rightarrow> str \<times> str" where
  "cite_flush env pending =
     (if is_source_tag_pending (lower_str (ce_lower env) pending) then [] else ce_expand env pending, [])"

subsection \<open>The scan is resumable\<close>

lemma lower_append: "lower_str u (a @ b) = lower_str u a @ lower_str u b"
  by (simp add: lower_str_def)

lemma emit_first_emit [simp]: "emit_first a (emit_first b r) = emit_first (a @ b) r" "emit_first [] r = r"
  by (simp_all add: emit_first_def)

lemma emit_first_sel [simp]: "fst (emit_first s r) = s @ fst r" "snd (emit_first s r) = snd r"
  by (simp_all add: emit_first_def)

lemma starts_with_append: "starts_with xs ys \<Longrightarrow> starts_with xs (ys @ zs)"
  by (auto simp: starts_with_iff)

lemma starts_with_append_long:
  "length xs \<le> length ys \<Longrightarrow> starts_with xs (ys @ zs) \<longleftrightarrow> starts_with xs ys"
proof (induction xs ys rule: starts_with.induct)
  case (2 x xs)
  then show ?case by simp
qed auto

lemma starts_with_append_short:
  "length ys \<le> length xs \<Longrightarrow> starts_with xs (ys @ zs) \<Longrightarrow> starts_with ys xs"
proof (induction xs ys rule: starts_with.induct)
  case (3 x xs y ys)
  then show ?case by simp
qed auto

lemma named_append: "length value > length name + 1 \<Longrightarrow>
    is_named_tag_start (value @ rest) name = is_named_tag_start value name"
  unfolding is_named_tag_start_def Let_def
  by (subst starts_with_append_long) (auto simp: nth_append)

text \<open>A tag start that the shorter text does not show is at most a proper prefix of it.\<close>

lemma named_later:
  assumes "is_named_tag_start (value @ rest) name" and "\<not> is_named_tag_start value name"
  shows "length value \<le> length name \<and> starts_with value (60 # name)"
proof (cases "length value > length name + 1")
  case True
  then show ?thesis using assms named_append by blast
next
  case short: False
  have sw: "starts_with (60 # name) (value @ rest)"
    using assms(1) unfolding is_named_tag_start_def Let_def by (meson)
  then have p: "starts_with value (60 # name)" using short starts_with_append_short [of "value" "60 # name"] by simp
  have "length value \<noteq> length name + 1"
  proof
    assume l: "length value = length name + 1"
    then have "starts_with (60 # name) value" using sw starts_with_append_long [of "60 # name" "value"] by simp
    then show False using assms(2) l by (simp add: is_named_tag_start_def Let_def)
  qed
  then show ?thesis using p short by simp
qed

lemma named_pending: "name \<in> {lit ''ref'', lit ''kb'', lit ''web''} \<Longrightarrow>
    is_named_tag_start value name \<Longrightarrow> is_source_tag_pending value"
  by (auto simp: is_source_tag_pending_def)

lemma not_pending_append:
  assumes "\<not> is_source_tag_pending value"
  shows "\<not> is_source_tag_pending (value @ rest)"
proof
  assume "is_source_tag_pending (value @ rest)"
  then obtain name where n: "name \<in> set [lit ''ref'', lit ''kb'', lit ''web'']"
    "(length (value @ rest) \<le> length (60 # name) \<and> starts_with (value @ rest) (60 # name)) \<or>
     is_named_tag_start (value @ rest) name"
    unfolding is_source_tag_pending_def list_ex_iff by blast
  have none: "\<not> (length value \<le> length (60 # name) \<and> starts_with value (60 # name))"
      "\<not> is_named_tag_start value name"
    using assms n(1) unfolding is_source_tag_pending_def list_ex_iff by blast+
  from n(2) show False
  proof
    assume a: "length (value @ rest) \<le> length (60 # name) \<and> starts_with (value @ rest) (60 # name)"
    then have "starts_with value (60 # name)" by (auto simp: starts_with_iff)
    then show False using none(1) a by simp
  next
    assume "is_named_tag_start (value @ rest) name"
    then show False using named_later none by fastforce
  qed
qed

lemma gt_in_lower: "62 \<in> set d \<Longrightarrow> 62 \<in> set (lower_str u d)"
  by (force simp: lower_str_def lower_char_def)

lemma named_stable:
  assumes "62 \<in> set d \<or> \<not> is_source_tag_pending (lower_str u d)"
    and "name \<in> {lit ''ref'', lit ''kb'', lit ''web''}"
  shows "is_named_tag_start (lower_str u (d @ b)) name = is_named_tag_start (lower_str u d) name"
proof (cases "is_named_tag_start (lower_str u d) name")
  case True
  have "length (lower_str u d) > length name + 1"
  proof (rule ccontr)
    assume "\<not> length (lower_str u d) > length name + 1"
    moreover have "starts_with (60 # name) (lower_str u d)"
      using True unfolding is_named_tag_start_def Let_def by meson
    ultimately have "lower_str u d = 60 # name" by (auto simp: starts_with_iff)
    then have "62 \<notin> set (lower_str u d)" using assms(2) by (auto simp: lit_def)
    moreover have "is_source_tag_pending (lower_str u d)" using True assms(2) named_pending by blast
    ultimately show False using assms(1) gt_in_lower by blast
  qed
  then show ?thesis by (simp add: lower_append named_append)
next
  case False
  have "\<not> is_named_tag_start (lower_str u d @ lower_str u b) name"
  proof
    assume "is_named_tag_start (lower_str u d @ lower_str u b) name"
    from named_later [OF this False]
    have p: "length (lower_str u d) \<le> length name" "starts_with (lower_str u d) (60 # name)" by auto
    then have "is_source_tag_pending (lower_str u d)"
      using assms(2) unfolding is_source_tag_pending_def list_ex_iff by fastforce
    moreover have "62 \<notin> set (lower_str u d)"
    proof -
      obtain zs where "60 # name = lower_str u d @ zs" using p(2) by (auto simp: starts_with_iff)
      then have "set (lower_str u d) \<subseteq> set (60 # name)" by simp
      then show ?thesis using assms(2) by (auto simp: lit_def)
    qed
    ultimately show False using assms(1) gt_in_lower by blast
  qed
  then show ?thesis using False by (simp add: lower_append)
qed

lemma find_char_append:
  "find_char c (a @ b) = (case find_char c a of Some i \<Rightarrow> Some i | None \<Rightarrow> map_option ((+) (length a)) (find_char c b))"
proof (induction a)
  case Nil
  then show ?case by (cases "find_char c b") auto
next
  case (Cons d ds)
  then show ?case by (cases "find_char c ds"; cases "find_char c b") auto
qed

lemma cite_scan_plain:
  assumes "60 \<notin> set a"
  shows "cite_scan env (a @ b) = emit_first a (cite_scan env b)"
proof (cases "find_char 60 b")
  case None
  then have "find_char 60 (a @ b) = None" using assms by (simp add: find_char_None)
  then show ?thesis using None by (simp add: cite_scan.simps [of env "a @ b"] cite_scan.simps [of env b] emit_first_def)
next
  case (Some i)
  then have f: "find_char 60 (a @ b) = Some (length a + i)"
    using assms find_char_None [of 60 a] by (simp add: find_char_append)
  have "b \<noteq> []" using Some by auto
  then show ?thesis
    using Some f by (simp add: cite_scan.simps [of env "a @ b"] cite_scan.simps [of env b] Let_def)
qed

lemma cite_scan_lt:
  "cite_scan env (60 # d') =
     (let d = 60 # d'; lower = lower_str (ce_lower env) d
      in if is_source_tag_pending lower \<and> 62 \<notin> set d then ([], d)
         else if is_ref_tag_start lower then
           (case find_char 62 d of
              None \<Rightarrow> ([], d)
            | Some e \<Rightarrow>
                emit_first (if ce_ref_tag env (take (e + 1) d) then ce_expand env (take (e + 1) d) else [])
                  (cite_scan env (drop (e + 1) d)))
         else if is_named_tag_start lower (lit ''kb'') \<or> is_named_tag_start lower (lit ''web'') then
           (case find_char 62 d of
              None \<Rightarrow> ([], d)
            | Some e \<Rightarrow> cite_scan env (drop (e + 1) d))
         else emit_first [60] (cite_scan env d'))"
  by (subst cite_scan.simps) (simp add: Let_def)

lemma cite_scan_append:
  "cite_scan env (a @ b) = emit_first (fst (cite_scan env a)) (cite_scan env (snd (cite_scan env a) @ b))"
proof (induction a rule: measure_induct_rule [where f = length])
  case (less a)
  show ?case
  proof (cases "find_char 60 a")
    case None
    then have "60 \<notin> set a" by (simp add: find_char_None)
    moreover from this have "cite_scan env a = (a, [])"
      using cite_scan_plain [of a env "[]"] by (simp add: cite_scan.simps [of env "[]"] emit_first_def)
    ultimately show ?thesis by (simp add: cite_scan_plain)
  next
    case (Some i)
    define pre where "pre = take i a"
    define d' where "d' = drop (Suc i) a"
    have i: "i < length a" "a ! i = 60" using find_char_Some [OF Some] by auto
    have a: "a = pre @ 60 # d'" using i unfolding pre_def d'_def by (metis id_take_nth_drop)
    have pre: "60 \<notin> set pre"
    proof -
      have "find_char 60 pre = None"
      proof (rule ccontr)
        assume "find_char 60 pre \<noteq> None"
        then obtain j where j: "find_char 60 pre = Some j" by auto
        then have "j < i" using find_char_Some [OF j] by (simp add: pre_def)
        moreover have "find_char 60 a = Some j" unfolding a using j by (simp add: find_char_append)
        ultimately show False using Some by simp
      qed
      then show ?thesis by (simp add: find_char_None)
    qed
    have main: "cite_scan env (60 # d' @ b) =
        emit_first (fst (cite_scan env (60 # d'))) (cite_scan env (snd (cite_scan env (60 # d')) @ b))"
    proof -
      let ?d = "60 # d'"
      let ?l = "lower_str (ce_lower env) ?d"
      let ?lb = "lower_str (ce_lower env) (?d @ b)"
      show ?thesis
      proof (cases "is_source_tag_pending ?l \<and> 62 \<notin> set ?d")
        case True
        then have "cite_scan env ?d = ([], ?d)" by (subst cite_scan_lt) (simp add: Let_def)
        then show ?thesis by simp
      next
        case np: False
        then have gt: "62 \<in> set ?d \<or> \<not> is_source_tag_pending ?l" by blast
        have np': "\<not> (is_source_tag_pending ?lb \<and> 62 \<notin> set (?d @ b))"
          using gt not_pending_append [of ?l "lower_str (ce_lower env) b"]
          unfolding lower_append [of _ ?d b] by auto
        have same: "is_ref_tag_start ?lb = is_ref_tag_start ?l"
            "is_named_tag_start ?lb (lit ''kb'') = is_named_tag_start ?l (lit ''kb'')"
            "is_named_tag_start ?lb (lit ''web'') = is_named_tag_start ?l (lit ''web'')"
          unfolding is_ref_tag_start_def using named_stable [OF gt] by blast+
        have cut: "cite_scan env (drop (e + 1) ?d @ b) =
            emit_first (fst (cite_scan env (drop (e + 1) ?d))) (cite_scan env (snd (cite_scan env (drop (e + 1) ?d)) @ b))"
          for e using less [of "drop (e + 1) ?d"] a by simp
        have named_gt: "62 \<in> set ?d"
          if "is_ref_tag_start ?l \<or> is_named_tag_start ?l (lit ''kb'') \<or> is_named_tag_start ?l (lit ''web'')"
          using that gt named_pending unfolding is_ref_tag_start_def by blast
        show ?thesis
        proof (cases "is_ref_tag_start ?l \<or> is_named_tag_start ?l (lit ''kb'') \<or> is_named_tag_start ?l (lit ''web'')")
          case True
          then obtain e where e: "find_char 62 ?d = Some e" using named_gt find_char_None [of 62 ?d] by auto
          then have eb: "find_char 62 (?d @ b) = Some e" by (simp only: find_char_append option.case)
          have e1: "e + 1 \<le> length ?d" using find_char_Some [OF e] by simp
          have d: "cite_scan env ?d = emit_first
              (if is_ref_tag_start ?l then (if ce_ref_tag env (take (e + 1) ?d) then ce_expand env (take (e + 1) ?d) else []) else [])
              (cite_scan env (drop (e + 1) ?d))"
            unfolding cite_scan_lt Let_def if_not_P [OF np] e option.case
            using True by (cases "is_ref_tag_start ?l") (simp_all only: if_True if_False simp_thms emit_first_emit)
          have db: "cite_scan env (?d @ b) = emit_first
              (if is_ref_tag_start ?l then (if ce_ref_tag env (take (e + 1) ?d) then ce_expand env (take (e + 1) ?d) else []) else [])
              (cite_scan env (drop (e + 1) ?d @ b))"
          proof -
            have t: "take (e + 1) (?d @ b) = take (e + 1) ?d" "drop (e + 1) (?d @ b) = drop (e + 1) ?d @ b"
              using e1 by simp_all
            show ?thesis
              unfolding cite_scan_lt Let_def append_Cons
              unfolding append_Cons [symmetric] if_not_P [OF np'] same eb option.case t
              using True by (cases "is_ref_tag_start ?l") (simp_all only: if_True if_False simp_thms emit_first_emit)
          qed
          have "cite_scan env (?d @ b) = emit_first (fst (cite_scan env ?d)) (cite_scan env (snd (cite_scan env ?d) @ b))"
            unfolding db d cut by simp
          then show ?thesis by simp
        next
          case False
          then have nn: "\<not> is_ref_tag_start ?l"
              "\<not> (is_named_tag_start ?l (lit ''kb'') \<or> is_named_tag_start ?l (lit ''web''))" by blast+
          have d: "cite_scan env ?d = emit_first [60] (cite_scan env d')"
            unfolding cite_scan_lt Let_def if_not_P [OF np] if_not_P [OF nn(1)] if_not_P [OF nn(2)] by (rule refl)
          have db: "cite_scan env (60 # d' @ b) = emit_first [60] (cite_scan env (d' @ b))"
            unfolding cite_scan_lt Let_def
            unfolding append_Cons [symmetric] if_not_P [OF np'] same if_not_P [OF nn(1)] if_not_P [OF nn(2)]
            by (rule refl)
          have ih: "cite_scan env (d' @ b) = emit_first (fst (cite_scan env d')) (cite_scan env (snd (cite_scan env d') @ b))"
            using cut [of 0] by simp
          show ?thesis unfolding d db by (subst ih) simp
        qed
      qed
    qed
    show ?thesis unfolding a using pre main by (simp add: cite_scan_plain)
  qed
qed

end
