(* ===== verification/Decoder_Properties.thy ===== *)
theory Decoder_Properties
  imports Resource_Roundtrip Citation_Stream
begin

text \<open>
  Properties of the model-context codec: the handle table, the resource round trip, the
  streaming stages and their composition in the order of \<open>StreamDecoder\<close>.
\<close>

subsection \<open>Running a composed decoder\<close>

fun decoder_run :: "('s stage option \<times> 's) list \<Rightarrow> str list \<Rightarrow> str" where
  "decoder_run stages [] = fst (decoder_flush stages)"
| "decoder_run stages (c # cs) =
     (case decoder_feed stages c of (out, stages') \<Rightarrow> out @ decoder_run stages' cs)"













subsection \<open>The stages of the model context\<close>



definition issue_stage :: "(rune \<Rightarrow> bool) \<Rightarrow> unit handle_table \<Rightarrow> str stage" where
  "issue_stage word T = \<lparr>stage_feed = handle_feed word T, stage_flush = handle_flush word T\<rparr>"






lemma cite_scan_Nil [simp]: "cite_scan env [] = ([], [])"
  by (simp add: cite_scan.simps)






subsection \<open>The orphan stage\<close>












subsection \<open>A concrete table\<close>

definition demo_issues :: "unit handle_table" where
  "demo_issues = \<lparr>ht_prefix = lit ''i'', ht_width = 0, ht_next = 2,
    ht_handle_by_key = [(lit ''page'', lit ''i1'')],
    ht_entry_by_handle = [(lit ''i1'', \<lparr>he_value = lit ''page'', he_meta = ()\<rparr>)]\<rparr>"

lemma demo_register:
  "register_key (lit ''page'') (lit ''page'') () None (new_table (lit ''i'') 0 1) = (lit ''i1'', demo_issues)"
  by (simp add: demo_issues_def register_key_def new_table_def handle_number_def decimal.simps lit_def Let_def)

lemma demo_register_new: "handle_for_key (lit ''page'') (new_table (lit ''i'') 0 1 :: unit handle_table) = None"
  by (simp add: handle_for_key_def new_table_def)

subsection \<open>Properties\<close>

text \<open>Registering a key gives it a handle for good: the handle is found again by the key,
  resolves to the registered value when the key is new, is given again on a second registration
  (which changes nothing), belongs to no other key, and no other handle is disturbed.\<close>
theorem register_round_trip:
  assumes "table_ok start T" and "key \<noteq> []" and "register_key key durable meta None T = (h, T')"
  shows "table_ok start T' \<and> handle_for_key key T' = Some h \<and> has_handle h T' \<and>
    register_key key durable2 meta2 None T' = (h, T') \<and>
    (handle_for_key key T = None \<longrightarrow> resolve_handle h T' = Some (durable, meta) \<and> \<not> has_handle h T) \<and>
    (\<forall>k. handle_for_key k T' = Some h \<longrightarrow> k = key) \<and>
    (\<forall>k g. handle_for_key k T = Some g \<longrightarrow> handle_for_key k T' = Some g \<and> resolve_handle g T' = resolve_handle g T)"
proof -
  have ok: "table_ok start T'" by (rule register_ok [OF assms(1,3)])
  have snds: "distinct (map snd (ht_handle_by_key T'))"
    using table_ok_distinct [OF ok] ok by (simp add: table_ok_def)
  have found: "handle_for_key key T' = Some h \<and> h \<in> fst ` set (ht_entry_by_handle T') \<and>
      (handle_for_key key T = None \<longrightarrow> resolve_handle h T' = Some (durable, meta) \<and> \<not> has_handle h T) \<and>
      (\<forall>k g. handle_for_key k T = Some g \<longrightarrow> handle_for_key k T' = Some g \<and> resolve_handle g T' = resolve_handle g T)"
  proof (cases "map_of (ht_handle_by_key T) key")
    case (Some e)
    then have eq: "h = e" "T' = T" using assms by (simp_all add: register_key_def)
    have "e \<in> set (map snd (ht_handle_by_key T))" using Some by (force dest: map_of_SomeD)
    then have "e \<in> set (map fst (ht_entry_by_handle T))" using assms(1) by (simp only: table_ok_def)
    then have "e \<in> fst ` set (ht_entry_by_handle T)" by simp
    then show ?thesis using eq Some by (simp add: handle_for_key_def)
  next
    case None
    from assms(1,3) show ?thesis
    proof (cases rule: register_cases)
      case new
      have old: "g \<noteq> h" if "map_of (ht_handle_by_key T) k = Some g" for k g
      proof -
        have "g \<in> set (map snd (ht_handle_by_key T))" using that by (force dest: map_of_SomeD)
        then have "g \<in> set (map fst (ht_entry_by_handle T))" using assms(1) by (simp only: table_ok_def)
        then show ?thesis using new(4) by auto
      qed
      have "map_of (ht_entry_by_handle T) h = None" using new(4) by (simp add: map_of_eq_None_iff)
      then show ?thesis
        using new old None
        by (auto simp: handle_for_key_def resolve_handle_def has_handle_def map_add_def split: option.splits)
    qed (use assms(2) None in auto)
  qed
  have "k = key" if "handle_for_key k T' = Some h" for k
  proof -
    have "(k, h) \<in> set (ht_handle_by_key T')" "(key, h) \<in> set (ht_handle_by_key T')"
      using that found by (auto simp: handle_for_key_def dest: map_of_SomeD)
    then show ?thesis using snds by (metis distinct_map inj_onD snd_conv fst_conv)
  qed
  moreover have "has_handle h T'" using found by (simp add: has_handle_def map_of_eq_None_iff)
  moreover have "register_key key durable2 meta2 None T' = (h, T')"
    using found assms(2) by (simp add: register_key_def handle_for_key_def)
  ultimately show ?thesis using ok found by blast
qed

lemma register_round_trip_witness:
  "handle_for_key (lit ''page'') demo_issues = Some (lit ''i1'') \<and>
   resolve_handle (lit ''i1'') demo_issues = Some (lit ''page'', ())"
  using register_round_trip [OF new_table_ok _ demo_register, where ?durable2.0 = "[]"] demo_register_new by simp

text \<open>C39: What the encoder sends to the model decodes to the original text: with at most 9999
  handles and a text that does not itself contain the handle scheme, decoding the encoded text
  gives the text back, whatever references it contains.\<close>
theorem decode_encode:
  assumes "registry_ok T" and "encode_text s T = (e, T')" and "ht_next T' \<le> 10000"
    and "\<not> contains_str RESOURCE_PREFIX s"
  shows "registry_ok T' \<and> decode_text T' e = s"
proof (cases "s = []")
  case True
  then show ?thesis using assms by (simp add: encode_text_def decode_text_def)
next
  case False
  then have "encode_from s T = (e, T')" using assms(2) by (simp add: encode_text_def)
  from encode_segments [OF assms(1) this] obtain segs where
    segs: "s = mix UNIV segs" "e = mix {} segs" "registry_ok T'" "seg_pairs segs \<subseteq> set (handle_pairs T')" by blast
  show ?thesis using decode_restores [OF segs(3) assms(3) segs(4)] assms(4) segs by simp
qed

definition demo_text :: "str" where
  "demo_text = lit ''a s3://b''"

definition demo_registry :: registry where
  "demo_registry = \<lparr>ht_prefix = RESOURCE_PREFIX, ht_width = 4, ht_next = 2,
    ht_handle_by_key = [(lit ''s3://b'', lit ''res://0001'')],
    ht_entry_by_handle = [(lit ''res://0001'', \<lparr>he_value = lit ''s3://b'', he_meta = ()\<rparr>)]\<rparr>"

lemma replicate_3: "replicate 3 x = [x, x, x]"
  by (simp add: numeral_3_eq_3)

lemma demo_encode: "encode_text demo_text new_registry = (lit ''a res://0001'', demo_registry)"
  by (simp add: encode_text_def demo_text_def demo_registry_def new_registry_def new_table_def register_key_def
      match_stored_ref_def match_resource_def match_physical_def match_summary_def match_scheme_def SCHEMES_def
      url_char_def is_space_def run_len_def lit_def Let_def handle_number_def pad_zero_def decimal.simps
      ref_char_def ascii_digit_def ascii_letter_def replicate_3)

lemma demo_clean: "\<not> contains_str RESOURCE_PREFIX demo_text"
  by (simp add: demo_text_def lit_def)

lemma demo_registry_ok: "registry_ok demo_registry"
  using register_registry(1) [OF new_registry_ok, where v = "lit ''s3://b''" and h = "lit ''res://0001''" and T' = demo_registry]
  by (simp add: demo_registry_def new_registry_def new_table_def register_key_def lit_def Let_def
      handle_number_def pad_zero_def decimal.simps replicate_3)

lemma decode_encode_witness:
  "registry_ok demo_registry \<and> decode_text demo_registry (lit ''a res://0001'') = demo_text"
  by (rule decode_encode [OF new_registry_ok demo_encode _ demo_clean]) (simp add: demo_registry_def)

lemma demo_apart: "values_apart demo_registry"
  by (simp add: values_apart_def demo_registry_def handle_pairs_def apart_def lit_def sublist_code
      suffix_def prefix_def upt_rec)




text \<open>A resource handle is restored whole wherever the provider splits it: the released text
  and the final flush are the decoding of the whole text.\<close>
theorem resource_chunking:
  assumes "registry_ok T" and "values_apart T"
    and "feed_all (resource_feed T (registry_handles T)) [] chunks = (out, pending)"
  shows "out @ fst (resource_flush T pending) = decode_text T (concat chunks)"
  using resource_decoder.feed_all_emit [of T "[]" chunks out pending] assms
  by (simp add: resource_feed_def resource_flush_def hold_flush_def)

definition demo_chunks :: "str list" where
  "demo_chunks = [lit ''re'', lit ''s://0001'']"

lemma resource_chunking_witness:
  "fst (feed_all (resource_feed demo_registry (registry_handles demo_registry)) [] demo_chunks) @
   fst (resource_flush demo_registry (snd (feed_all (resource_feed demo_registry (registry_handles demo_registry)) [] demo_chunks))) =
   decode_text demo_registry (concat demo_chunks)"
  by (rule resource_chunking [OF demo_registry_ok demo_apart]) simp

text \<open>The issue stage has no such guarantee: a cut before a handle hides the character before it.\<close>

definition word_ascii :: "rune \<Rightarrow> bool" where
  "word_ascii c \<longleftrightarrow> ascii_letter c \<or> ascii_digit c \<or> c = 95"

lemma issue_decoder_chunk_dependent:
  "decoder_run [(Some (issue_stage word_ascii demo_issues), [])] [lit ''x'', lit ''i1''] = lit ''xpage'' \<and>
   decoder_run [(Some (issue_stage word_ascii demo_issues), [])] [lit ''xi1''] = lit ''xi1''"
  unfolding demo_issues_def
  by (simp add: issue_stage_def handle_feed_def handle_flush_def hold_feed_def hold_flush_def handle_hold_len_def
      could_be_numeric_handle_def decode_known_text_def handle_pairs_def longest_first_def decoder_flush_def
      word_edge_def first_of_def word_ascii_def ascii_letter_def ascii_digit_def is_handle_token_byte_def lit_def Let_def)

end
