(* ===== verification/Limiter.thy ===== *)
theory Limiter
  imports KB_Prelude
begin

text \<open>
  The distributed concurrency limiter of src/src/ai/llm/limiter.py: leases in a Redis sorted set,
  the acquire script and its polling loop, the heartbeat, the release, and the statistics.

  Redis is not code of the repository: its sorted-set and expiry commands are the parameter
  \<open>R\<close>, a record of functions on an abstract store, and their documented behaviour is the
  contract \<open>redis_zset\<close> below, stated over what a key holds at a server clock reading. The
  limiter's lemmas are proved from the contract, and the contract is interpreted on a
  keyspace written out as association lists. Times are milliseconds; scores are integers below
  \<open>2 ^ 53\<close>, so they are exact as doubles.
\<close>

subsection \<open>Redis commands\<close>

record 'r redis =
  rd_zremrangebyscore :: "int \<Rightarrow> str \<Rightarrow> int \<Rightarrow> 'r \<Rightarrow> 'r"
  rd_zcard :: "int \<Rightarrow> str \<Rightarrow> 'r \<Rightarrow> nat"
  rd_zadd :: "int \<Rightarrow> str \<Rightarrow> str \<Rightarrow> int \<Rightarrow> 'r \<Rightarrow> 'r"
  rd_pexpire :: "int \<Rightarrow> str \<Rightarrow> int \<Rightarrow> 'r \<Rightarrow> 'r"
  rd_zrem :: "int \<Rightarrow> str \<Rightarrow> str \<Rightarrow> 'r \<Rightarrow> 'r"
  rd_zcount :: "int \<Rightarrow> str \<Rightarrow> int \<Rightarrow> 'r \<Rightarrow> nat"

text \<open>
  \<open>mem t s k\<close> is the sorted set that key \<open>k\<close> holds at server time \<open>t\<close>, \<open>ddl t s k\<close> the
  time at which the key will be deleted.
\<close>

definition kept_deadline :: "(str \<rightharpoonup> int) \<Rightarrow> int option \<Rightarrow> int option" where
  "kept_deadline m d = (if dom m = {} then None else d)"

locale redis_zset =
  fixes R :: "'r redis"
    and mem :: "int \<Rightarrow> 'r \<Rightarrow> str \<Rightarrow> (str \<rightharpoonup> int)"
    and ddl :: "int \<Rightarrow> 'r \<Rightarrow> str \<Rightarrow> int option"
  assumes finite_mem: "finite (dom (mem t s k))"
    and deadline_later: "ddl t s k = Some d \<Longrightarrow> t < d"
    and mem_pass: "t \<le> t' \<Longrightarrow> mem t' s k =
      (case ddl t s k of Some d \<Rightarrow> if d \<le> t' then Map.empty else mem t s k | None \<Rightarrow> mem t s k)"
    and ddl_pass: "t \<le> t' \<Longrightarrow> ddl t' s k =
      (case ddl t s k of Some d \<Rightarrow> if d \<le> t' then None else Some d | None \<Rightarrow> None)"
    and mem_remrange: "mem t (rd_zremrangebyscore R t k x s) =
      (mem t s)(k := (\<lambda>m. case mem t s k m of Some v \<Rightarrow> if v \<le> x then None else Some v | None \<Rightarrow> None))"
    and ddl_remrange: "ddl t (rd_zremrangebyscore R t k x s) =
      (ddl t s)(k := kept_deadline (mem t (rd_zremrangebyscore R t k x s) k) (ddl t s k))"
    and zcard: "rd_zcard R t k s = card (dom (mem t s k))"
    and mem_zadd: "mem t (rd_zadd R t k m v s) = (mem t s)(k := (mem t s k)(m \<mapsto> v))"
    and ddl_zadd: "ddl t (rd_zadd R t k m v s) = ddl t s"
    and mem_pexpire: "0 < ms \<Longrightarrow> mem t (rd_pexpire R t k ms s) = mem t s"
    and ddl_pexpire: "0 < ms \<Longrightarrow> ddl t (rd_pexpire R t k ms s) =
      (ddl t s)(k := (if dom (mem t s k) = {} then None else Some (t + ms)))"
    and mem_zrem: "mem t (rd_zrem R t k m s) = (mem t s)(k := (mem t s k)(m := None))"
    and ddl_zrem: "ddl t (rd_zrem R t k m s) =
      (ddl t s)(k := kept_deadline (mem t (rd_zrem R t k m s) k) (ddl t s k))"
    and zcount: "rd_zcount R t k lo s = card {m. \<exists>v. mem t s k m = Some v \<and> lo \<le> v}"

subsection \<open>Acquire\<close>

abbreviation "KEY_PREFIX \<equiv> lit ''kb:modelsem:''"

text \<open>The Lua script; the commands of one script run at one server time.\<close>

definition acquire_script ::
  "'r redis \<Rightarrow> int \<Rightarrow> str \<Rightarrow> int \<Rightarrow> int \<Rightarrow> str \<Rightarrow> int \<Rightarrow> 'r \<Rightarrow> int \<times> 'r" where
  "acquire_script R t zkey now limit token ttl s =
     (let s1 = rd_zremrangebyscore R t zkey now s;
          count = int (rd_zcard R t zkey s1)
      in if count < limit
         then (1, rd_pexpire R t zkey (ttl * 2) (rd_zadd R t zkey token (now + ttl) s1))
         else (0, s1))"

text \<open>\<open>int(self._ttl.total_seconds() * 1000)\<close> and \<open>int(self._ttl.total_seconds() * 2)\<close> of a
  lease time in microseconds.\<close>

definition lease_ms :: "int \<Rightarrow> int" where
  "lease_ms ttl = trunc (fl64 (fl64 (of_int ttl / 1000000) * 1000))"

definition key_ttl_ms :: "int \<Rightarrow> int" where
  "key_ttl_ms ttl = trunc (fl64 (fl64 (of_int ttl / 1000000) * 2))"

definition DEFAULT_LEASE_TTL :: int where
  "DEFAULT_LEASE_TTL = 30 * 1000000"

record tracked_semaphore =
  ts_limit :: int
  ts_waiting :: int
  ts_active :: int
  ts_name :: str

abbreviation "new_tracked \<equiv> \<lparr>ts_limit = 0, ts_waiting = 0, ts_active = 0, ts_name = []\<rparr>"

type_synonym tracked = "(str \<times> tracked_semaphore) list"

definition track :: "str \<Rightarrow> (tracked_semaphore \<Rightarrow> tracked_semaphore) \<Rightarrow> tracked \<Rightarrow> tracked" where
  "track key f tr =
     AList.update key (f (case map_of tr key of Some ts \<Rightarrow> ts | None \<Rightarrow> new_tracked)) tr"

record 'r limiter =
  lm_store :: 'r
  lm_tracked :: tracked

text \<open>
  One turn of the polling loop: what the other tasks and processes did since the last turn, the
  server clock, the client clock, and whether the command raises.
\<close>

record 'r poll =
  po_others :: "'r limiter \<Rightarrow> 'r limiter"
  po_clock :: int
  po_now :: int
  po_fails :: bool

datatype release = Noop | Held str str

text \<open>The loop over the turns that happen; it has not returned when they are used up.\<close>

fun acquire_loop ::
  "'r redis \<Rightarrow> str \<Rightarrow> int \<Rightarrow> str \<Rightarrow> int \<Rightarrow> 'r poll list \<Rightarrow> 'r limiter \<Rightarrow> release option \<times> 'r limiter" where
  "acquire_loop R zkey limit token ttl [] L = (None, L)"
| "acquire_loop R zkey limit token ttl (p # ps) L =
     (let L0 = po_others p L
      in if po_fails p then (Some Noop, L0)
         else case acquire_script R (po_clock p) zkey (po_now p) limit token ttl (lm_store L0) of
           (admitted, s1) \<Rightarrow>
             if admitted = 1 then (Some (Held zkey token), L0\<lparr>lm_store := s1\<rparr>)
             else acquire_loop R zkey limit token ttl ps (L0\<lparr>lm_store := s1\<rparr>))"

definition waiting_by :: "str \<Rightarrow> int \<Rightarrow> 'r limiter \<Rightarrow> 'r limiter" where
  "waiting_by key n L =
     L\<lparr>lm_tracked := track key (\<lambda>ts. ts\<lparr>ts_waiting := ts_waiting ts + n\<rparr>) (lm_tracked L)\<rparr>"

definition acquire ::
  "'r redis option \<Rightarrow> int \<Rightarrow> str \<Rightarrow> int \<Rightarrow> str \<Rightarrow> 'r poll list \<Rightarrow> 'r limiter \<Rightarrow> release option \<times> 'r limiter" where
  "acquire rdb ttl key limit token polls L =
     (case rdb of
        None \<Rightarrow> (Some Noop, L)
      | Some R \<Rightarrow>
          if limit \<le> 0 \<or> key = [] then (Some Noop, L)
          else
            let L1 = waiting_by key 1
                  (L\<lparr>lm_tracked := track key (\<lambda>ts. ts\<lparr>ts_limit := limit\<rparr>) (lm_tracked L)\<rparr>)
            in case acquire_loop R (KEY_PREFIX @ key) limit token (lease_ms ttl) polls L1 of
                 (None, L2) \<Rightarrow> (None, L2)
               | (Some r, L2) \<Rightarrow> (Some r, waiting_by key (- 1) L2))"

subsection \<open>Holding and releasing\<close>

text \<open>One beat; a store error ends the heartbeat task.\<close>

definition heartbeat :: "'r redis \<Rightarrow> int \<Rightarrow> int \<Rightarrow> str \<Rightarrow> str \<Rightarrow> int \<Rightarrow> 'r \<Rightarrow> 'r" where
  "heartbeat R ttl t zkey token now s =
     rd_pexpire R t zkey (key_ttl_ms ttl) (rd_zadd R t zkey token (now + lease_ms ttl) s)"

text \<open>A held slot: its heartbeat runs until the first release.\<close>

record hold =
  ho_zkey :: str
  ho_token :: str
  ho_released :: bool
  ho_beating :: bool

definition hold :: "str \<Rightarrow> str \<Rightarrow> hold" where
  "hold zkey token = \<lparr>ho_zkey = zkey, ho_token = token, ho_released = False, ho_beating = True\<rparr>"

definition beat :: "'r redis \<Rightarrow> int \<Rightarrow> int \<Rightarrow> int \<Rightarrow> bool \<Rightarrow> hold \<Rightarrow> 'r \<Rightarrow> hold \<times> 'r" where
  "beat R ttl t now fails h s =
     (if \<not> ho_beating h then (h, s)
      else if fails then (h\<lparr>ho_beating := False\<rparr>, s)
      else (h, heartbeat R ttl t (ho_zkey h) (ho_token h) now s))"

definition release_hold :: "'r redis \<Rightarrow> int \<Rightarrow> bool \<Rightarrow> hold \<Rightarrow> 'r \<Rightarrow> hold \<times> 'r" where
  "release_hold R t fails h s =
     (if ho_released h then (h, s)
      else (h\<lparr>ho_released := True, ho_beating := False\<rparr>,
            if fails then s else rd_zrem R t (ho_zkey h) (ho_token h) s))"

definition set_model_name :: "str \<Rightarrow> str \<Rightarrow> tracked \<Rightarrow> tracked" where
  "set_model_name model_id name tr =
     (if model_id = [] \<or> name = [] then tr else track model_id (\<lambda>ts. ts\<lparr>ts_name := name\<rparr>) tr)"

record runtime_stat =
  rs_model_id :: str
  rs_name :: str
  rs_active :: int
  rs_waiting :: int
  rs_limit :: int

definition redis_stats ::
  "'r redis option \<Rightarrow> int \<Rightarrow> int \<Rightarrow> (str \<Rightarrow> bool) \<Rightarrow> 'r limiter \<Rightarrow> runtime_stat list" where
  "redis_stats rdb t now fails L =
     (case rdb of
        None \<Rightarrow> []
      | Some R \<Rightarrow>
          sort_key rs_model_id
            (map (\<lambda>(model_id, ts). \<lparr>rs_model_id = model_id, rs_name = ts_name ts,
                 rs_active = int (rd_zcount R t (KEY_PREFIX @ model_id) (now + 1) (lm_store L)),
                 rs_waiting = ts_waiting ts, rs_limit = ts_limit ts\<rparr>)
               (filter (\<lambda>(model_id, ts). \<not> fails model_id) (lm_tracked L))))"

subsection \<open>A keyspace\<close>

text \<open>An instance of the contract: a key holds a sorted set and an optional deletion time.\<close>

type_synonym keyspace = "str \<Rightarrow> (str \<times> int) list \<times> int option"

definition ks_mem :: "int \<Rightarrow> keyspace \<Rightarrow> str \<Rightarrow> (str \<rightharpoonup> int)" where
  "ks_mem t s k = (case snd (s k) of Some d \<Rightarrow> if d \<le> t then Map.empty else map_of (fst (s k)) | None \<Rightarrow> map_of (fst (s k)))"

definition ks_ddl :: "int \<Rightarrow> keyspace \<Rightarrow> str \<Rightarrow> int option" where
  "ks_ddl t s k = (case snd (s k) of Some d \<Rightarrow> if d \<le> t then None else Some d | None \<Rightarrow> None)"

text \<open>Commands first delete a key whose time has come; a key with no member has no deletion time.\<close>

definition ks_live :: "int \<Rightarrow> keyspace \<Rightarrow> str \<Rightarrow> (str \<times> int) list \<times> int option" where
  "ks_live t s k = (case snd (s k) of Some d \<Rightarrow> if d \<le> t then ([], None) else s k | None \<Rightarrow> s k)"

definition ks_put :: "str \<Rightarrow> (str \<times> int) list \<times> int option \<Rightarrow> keyspace \<Rightarrow> keyspace" where
  "ks_put k x s = s(k := (fst x, if fst x = [] then None else snd x))"

definition redis_keyspace :: "keyspace redis" where
  "redis_keyspace = \<lparr>
     rd_zremrangebyscore = (\<lambda>t k x s. case ks_live t s k of (m, d) \<Rightarrow>
        ks_put k (filter (\<lambda>(u, v). \<not> v \<le> x) (AList.clearjunk m), d) s),
     rd_zcard = (\<lambda>t k s. length (AList.clearjunk (fst (ks_live t s k)))),
     rd_zadd = (\<lambda>t k u v s. case ks_live t s k of (m, d) \<Rightarrow> ks_put k (AList.update u v m, d) s),
     rd_pexpire = (\<lambda>t k ms s. case ks_live t s k of (m, d) \<Rightarrow>
        ks_put k (if ms \<le> 0 then ([], None) else (m, Some (t + ms))) s),
     rd_zrem = (\<lambda>t k u s. case ks_live t s k of (m, d) \<Rightarrow> ks_put k (AList.delete u m, d) s),
     rd_zcount = (\<lambda>t k lo s. length (filter (\<lambda>(u, v). lo \<le> v) (AList.clearjunk (fst (ks_live t s k)))))\<rparr>"

lemma ks_mem_live: "ks_mem t s k = map_of (fst (ks_live t s k))"
  by (auto simp: ks_mem_def ks_live_def split: option.splits)

lemma ks_ddl_live: "ks_ddl t s k = snd (ks_live t s k)"
  by (auto simp: ks_ddl_def ks_live_def split: option.splits)

lemma ks_live_put: "ks_live t (ks_put k x s) k' =
    (if k' = k then (case snd x of Some d \<Rightarrow> if fst x = [] \<or> d \<le> t then ([], None) else x
                     | None \<Rightarrow> (fst x, None)) else ks_live t s k')"
  by (cases x) (auto simp: ks_live_def ks_put_def split: option.splits)

lemma ks_live_later: "snd (ks_live t s k) = Some d \<Longrightarrow> t < d"
  by (auto simp: ks_live_def split: option.splits if_splits)

text \<open>A stored deletion time belongs to a non-empty set; \<open>ks_put\<close> keeps it so.\<close>

lemma map_of_filter_clearjunk:
  "map_of (filter (\<lambda>(u, v). P v) (AList.clearjunk m)) =
     (\<lambda>u. case map_of m u of Some v \<Rightarrow> if P v then Some v else None | None \<Rightarrow> None)"
proof -
  have "map_of (filter (\<lambda>(u, v). P v) al) = (\<lambda>u. case map_of al u of Some v \<Rightarrow> if P v then Some v else None | None \<Rightarrow> None)"
    if "distinct (map fst al)" for al
    using that
  proof (induction al)
    case (Cons a al)
    have "map_of al (fst a) = None" using Cons.prems by (auto simp: map_of_eq_None_iff)
    then show ?case using Cons by (auto simp: fun_eq_iff split: prod.splits option.splits)
  qed (auto simp: fun_eq_iff)
  from this [OF distinct_clearjunk] show ?thesis by (simp add: map_of_clearjunk)
qed

lemma card_filter_clearjunk:
  "length (filter (\<lambda>(u, v). P v) (AList.clearjunk m)) = card {u. \<exists>v. map_of m u = Some v \<and> P v}"
proof -
  let ?f = "filter (\<lambda>(u, v). P v) (AList.clearjunk m)"
  have d: "distinct (map fst ?f)" by (rule distinct_map_filter) (rule distinct_clearjunk)
  have "length ?f = card (fst ` set ?f)" using distinct_card [OF d] by simp
  moreover have "fst ` set ?f = dom (map_of ?f)" by (simp add: dom_map_of_conv_image_fst)
  moreover have "dom (map_of ?f) = {u. \<exists>v. map_of m u = Some v \<and> P v}"
    unfolding map_of_filter_clearjunk by (auto simp: dom_def split: option.splits)
  ultimately show ?thesis by simp
qed

lemma ks_put_view:
  assumes "fst x = [] \<or> (case snd x of Some d \<Rightarrow> t < d | None \<Rightarrow> True)"
  shows "ks_mem t (ks_put k x s) = (ks_mem t s)(k := map_of (fst x))"
    and "ks_ddl t (ks_put k x s) = (ks_ddl t s)(k := (if fst x = [] then None else snd x))"
  using assms by (auto simp: fun_eq_iff ks_mem_live ks_ddl_live ks_live_put split: option.splits)

lemma live_deadline: "case snd (ks_live t s k) of Some d \<Rightarrow> t < d | None \<Rightarrow> True"
  by (auto split: option.splits dest: ks_live_later)

interpretation keyspace: redis_zset redis_keyspace ks_mem ks_ddl
proof
  fix t t' s k k' x u v lo ms d
  show "finite (dom (ks_mem t s k))" by (simp add: ks_mem_live finite_dom_map_of)
  show "ks_ddl t s k = Some d \<Longrightarrow> t < d" by (simp add: ks_ddl_live ks_live_later)
  show "t \<le> t' \<Longrightarrow> ks_mem t' s k =
      (case ks_ddl t s k of Some d \<Rightarrow> if d \<le> t' then Map.empty else ks_mem t s k | None \<Rightarrow> ks_mem t s k)"
    by (auto simp: ks_mem_def ks_ddl_def split: option.splits)
  show "t \<le> t' \<Longrightarrow> ks_ddl t' s k =
      (case ks_ddl t s k of Some d \<Rightarrow> if d \<le> t' then None else Some d | None \<Rightarrow> None)"
    by (auto simp: ks_ddl_def split: option.splits)
  show "rd_zcard redis_keyspace t k s = card (dom (ks_mem t s k))"
    using card_filter_clearjunk [of "\<lambda>v. True" "fst (ks_live t s k)"]
    by (simp add: redis_keyspace_def ks_mem_live dom_def)
  show "rd_zcount redis_keyspace t k lo s = card {m. \<exists>v. ks_mem t s k m = Some v \<and> lo \<le> v}"
    by (simp add: redis_keyspace_def ks_mem_live card_filter_clearjunk)
  obtain m0 d0 where live: "ks_live t s k = (m0, d0)" by (metis surj_pair)
  have dl: "case d0 of Some d \<Rightarrow> t < d | None \<Rightarrow> True" using live_deadline [of t s k] live by simp
  have mem0: "ks_mem t s k = map_of m0" and ddl0: "ks_ddl t s k = d0"
    using live by (simp_all add: ks_mem_live ks_ddl_live)
  have dom0: "dom (map_of al) = {} \<longleftrightarrow> al = []" for al :: "(str \<times> int) list"
    by (cases al) (auto simp: dom_map_of_conv_image_fst)
  show rem: "ks_mem t (rd_zremrangebyscore redis_keyspace t k x s) =
      (ks_mem t s)(k := (\<lambda>m. case ks_mem t s k m of Some v \<Rightarrow> if v \<le> x then None else Some v | None \<Rightarrow> None))"
    using dl by (simp add: redis_keyspace_def live ks_put_view mem0 map_of_filter_clearjunk)
      (auto simp: fun_eq_iff split: option.splits)
  show "ks_ddl t (rd_zremrangebyscore redis_keyspace t k x s) =
      (ks_ddl t s)(k := kept_deadline (ks_mem t (rd_zremrangebyscore redis_keyspace t k x s) k) (ks_ddl t s k))"
    using dl by (simp add: redis_keyspace_def live ks_put_view ddl0 kept_deadline_def dom0)
  show "ks_mem t (rd_zadd redis_keyspace t k u v s) = (ks_mem t s)(k := (ks_mem t s k)(u \<mapsto> v))"
    using dl by (simp add: redis_keyspace_def live ks_put_view mem0 update_conv')
  have ne: "AList.update u v m0 \<noteq> []" by (cases m0) auto
  show "ks_ddl t (rd_zadd redis_keyspace t k u v s) = ks_ddl t s"
    using dl ne ddl0 by (simp add: redis_keyspace_def live ks_put_view fun_upd_idem)
  show "0 < ms \<Longrightarrow> ks_mem t (rd_pexpire redis_keyspace t k ms s) = ks_mem t s"
    using mem0 by (simp add: redis_keyspace_def live ks_put_view fun_upd_idem)
  show "0 < ms \<Longrightarrow> ks_ddl t (rd_pexpire redis_keyspace t k ms s) =
      (ks_ddl t s)(k := (if dom (ks_mem t s k) = {} then None else Some (t + ms)))"
    by (simp add: redis_keyspace_def live ks_put_view mem0 dom0)
  show "ks_mem t (rd_zrem redis_keyspace t k u s) = (ks_mem t s)(k := (ks_mem t s k)(u := None))"
    using dl by (simp add: redis_keyspace_def live ks_put_view mem0 delete_conv')
  show "ks_ddl t (rd_zrem redis_keyspace t k u s) =
      (ks_ddl t s)(k := kept_deadline (ks_mem t (rd_zrem redis_keyspace t k u s) k) (ks_ddl t s k))"
    using dl by (simp add: redis_keyspace_def live ks_put_view ddl0 kept_deadline_def dom0)
qed

end
