(* ===== verification/Limiter_Laws.thy ===== *)
theory Limiter_Laws
  imports Limiter
begin

text \<open>
  The limiter's lemmas from the Redis contract: what the acquire script decides and writes, what a
  heartbeat does to the key, the invariant of a run of acquirers and releases.
\<close>

subsection \<open>Runs\<close>

text \<open>
  Any interleaving of acquirers and releases on one key with a common limit, on agreeing clocks;
  \<open>H\<close> records who was admitted and until when.
\<close>

inductive lease_run :: "'r redis \<Rightarrow> (int \<Rightarrow> 'r \<Rightarrow> str \<Rightarrow> (str \<rightharpoonup> int)) \<Rightarrow> str \<Rightarrow> int \<Rightarrow> int \<Rightarrow> int \<Rightarrow> 'r \<Rightarrow> (str \<rightharpoonup> int) \<Rightarrow> bool" 
  for R mem k limit ttl where
  start: "mem t s k = Map.empty \<Longrightarrow> lease_run R mem k limit ttl t s Map.empty"
| tick: "lease_run R mem k limit ttl t s H \<Longrightarrow> t \<le> t' \<Longrightarrow> lease_run R mem k limit ttl t' s H"
| admit: "lease_run R mem k limit ttl t s H \<Longrightarrow> acquire_script R t k t limit tok ttl s = (1, s') \<Longrightarrow>
    lease_run R mem k limit ttl t s' (H(tok \<mapsto> t + ttl))"
| refuse: "lease_run R mem k limit ttl t s H \<Longrightarrow> acquire_script R t k t limit tok ttl s = (0, s') \<Longrightarrow>
    lease_run R mem k limit ttl t s' H"
| drop: "lease_run R mem k limit ttl t s H \<Longrightarrow> lease_run R mem k limit ttl t (rd_zrem R t k tok s) (H(tok := None))"

context redis_zset
begin

definition unexpired :: "int \<Rightarrow> int \<Rightarrow> str \<Rightarrow> 'r \<Rightarrow> str set" where
  "unexpired t now k s = {m. \<exists>v. mem t s k m = Some v \<and> now < v}"

lemma finite_unexpired: "finite (unexpired t now k s)"
  by (rule finite_subset [OF _ finite_mem [of t s k]]) (auto simp: unexpired_def)

lemma mem_pruned: "mem t (rd_zremrangebyscore R t k now s) k m = (case mem t s k m of Some v \<Rightarrow> if v \<le> now then None else Some v | None \<Rightarrow> None)"
  by (simp add: mem_remrange)

lemma mem_pruned_Some: "mem t (rd_zremrangebyscore R t k now s) k m = Some v \<longleftrightarrow> mem t s k m = Some v \<and> now < v"
  by (auto simp: mem_pruned split: option.splits if_splits)

lemma card_pruned: "rd_zcard R t k (rd_zremrangebyscore R t k now s) = card (unexpired t now k s)"
proof -
  have "dom (mem t (rd_zremrangebyscore R t k now s) k) = unexpired t now k s"
    by (simp add: dom_def unexpired_def not_None_eq mem_pruned_Some)
  then show ?thesis by (simp add: zcard)
qed

text \<open>The script admits exactly when fewer than \<open>limit\<close> leases are unexpired.\<close>

lemma acquire_script_cases:
  assumes "acquire_script R t k now limit tok ttl s = (a, s')" and "0 < ttl"
  obtains (admitted) "a = 1" "int (card (unexpired t now k s)) < limit"
      "\<And>m. mem t s' k m = (if m = tok then Some (now + ttl) else mem t (rd_zremrangebyscore R t k now s) k m)"
      "ddl t s' k = Some (t + ttl * 2)"
    | (refused) "a = 0" "limit \<le> int (card (unexpired t now k s))"
      "s' = rd_zremrangebyscore R t k now s"
proof (cases "int (card (unexpired t now k s)) < limit")
  case True
  let ?s1 = "rd_zremrangebyscore R t k now s"
  have s': "a = 1" "s' = rd_pexpire R t k (ttl * 2) (rd_zadd R t k tok (now + ttl) ?s1)"
    using True assms(1) by (auto simp: acquire_script_def Let_def card_pruned)
  have m: "mem t s' k m = (if m = tok then Some (now + ttl) else mem t ?s1 k m)" for m
    using assms(2) by (simp add: s' mem_pexpire mem_zadd)
  have "ddl t s' k = Some (t + ttl * 2)"
    using assms(2) by (simp add: s' ddl_pexpire mem_zadd)
  then show thesis using True s' m admitted by blast
next
  case False
  then show thesis using assms(1) refused by (auto simp: acquire_script_def Let_def card_pruned)
qed

lemma unexpired_admitted:
  assumes "\<And>m. mem t s' k m = (if m = tok then Some (now + ttl) else mem t (rd_zremrangebyscore R t k now s) k m)"
    and "0 < ttl"
  shows "unexpired t now k s' = insert tok (unexpired t now k s)"
  using assms by (auto simp: unexpired_def mem_pruned_Some split: if_splits)

lemma unexpired_pruned: "unexpired t now k (rd_zremrangebyscore R t k now s) = unexpired t now k s"
  by (auto simp: unexpired_def mem_pruned_Some)

lemma unexpired_pass: "t \<le> t' \<Longrightarrow> now \<le> now' \<Longrightarrow> unexpired t' now' k s \<subseteq> unexpired t now k s"
  by (auto simp: unexpired_def mem_pass split: option.splits if_splits)

text \<open>The slot count after an admission stays within the limit.\<close>

lemma admitted_within_limit:
  assumes "acquire_script R t k now limit tok ttl s = (1, s')" and "0 < ttl"
  shows "int (card (unexpired t now k s')) \<le> limit"
  using assms
proof (cases rule: acquire_script_cases)
  case admitted
  have "card (unexpired t now k s') \<le> card (unexpired t now k s) + 1"
    unfolding unexpired_admitted [OF admitted(3) assms(2)]
    by (simp add: card_insert_if finite_unexpired)
  then show ?thesis using admitted(2) by linarith
qed simp

subsection \<open>The invariant of a run\<close>

definition run_ok :: "str \<Rightarrow> int \<Rightarrow> int \<Rightarrow> int \<Rightarrow> 'r \<Rightarrow> (str \<rightharpoonup> int) \<Rightarrow> bool" where
  "run_ok k limit ttl t s H \<longleftrightarrow>
     int (card (unexpired t t k s)) \<le> limit \<and>
     (\<forall>m e. H m = Some e \<longrightarrow> t < e \<longrightarrow> mem t s k m = Some e) \<and>
     (\<forall>m e. mem t s k m = Some e \<longrightarrow> e \<le> t + ttl \<and> (\<forall>d. ddl t s k = Some d \<longrightarrow> e \<le> d))"

lemma lease_run_ok:
  assumes "lease_run R mem k limit ttl t s H" and "0 < ttl" and "0 \<le> limit"
  shows "run_ok k limit ttl t s H"
  using assms(1)
proof induction
  case (start t s)
  then show ?case using assms(3) by (simp add: run_ok_def unexpired_def)
next
  case (tick t s H t')
  have sub: "unexpired t' t' k s \<subseteq> unexpired t t k s" using unexpired_pass [OF tick.hyps(2,2)] .
  have card: "int (card (unexpired t' t' k s)) \<le> limit"
    using card_mono [OF finite_unexpired sub] tick.IH by (simp add: run_ok_def)
  show ?case
    unfolding run_ok_def
  proof (intro conjI allI impI card)
    fix m e
    assume "H m = Some e" "t' < e"
    then have m: "mem t s k m = Some e" using tick by (auto simp: run_ok_def)
    then have "d > t'" if "ddl t s k = Some d" for d
      using tick.IH that \<open>t' < e\<close> by (fastforce simp: run_ok_def)
    then show "mem t' s k m = Some e" using m tick.hyps by (auto simp: mem_pass split: option.splits)
  next
    fix m e
    assume "mem t' s k m = Some e"
    then have m: "mem t s k m = Some e" using tick.hyps by (auto simp: mem_pass split: option.splits if_splits)
    then show "e \<le> t' + ttl" using tick by (fastforce simp: run_ok_def)
    fix d
    assume "ddl t' s k = Some d"
    then have "ddl t s k = Some d" using tick.hyps by (auto simp: ddl_pass split: option.splits if_splits)
    then show "e \<le> d" using m tick.IH by (auto simp: run_ok_def)
  qed
next
  case (admit t s H tok s')
  from admit.hyps(2) assms(2) show ?case
  proof (cases rule: acquire_script_cases)
    case admitted
    have card: "int (card (unexpired t t k s')) \<le> limit"
      using admitted_within_limit [OF admit.hyps(2) assms(2)] .
    show ?thesis
      unfolding run_ok_def
    proof (intro conjI allI impI card)
      fix m e
      assume h: "(H(tok \<mapsto> t + ttl)) m = Some e" "t < e"
      show "mem t s' k m = Some e"
      proof (cases "m = tok")
        case False
        then have "mem t s k m = Some e" using h admit.IH by (auto simp: run_ok_def)
        then show ?thesis using admitted(3) False h(2) by (simp add: mem_pruned)
      qed (use h admitted(3) in simp)
    next
      fix m e
      assume m: "mem t s' k m = Some e"
      then have b: "e \<le> t + ttl"
        using admit.IH admitted(3) by (auto simp: run_ok_def mem_pruned split: if_splits option.splits)
      then show "e \<le> t + ttl" .
      fix d
      assume "ddl t s' k = Some d"
      then show "e \<le> d" using b admitted(4) assms(2) by simp
    qed
  qed simp
next
  case (refuse t s H tok s')
  from refuse.hyps(2) assms(2) show ?case
  proof (cases rule: acquire_script_cases)
    case refused
    have "ddl t s' k = Some d \<Longrightarrow> ddl t s k = Some d" for d
      using refused(3) by (simp add: ddl_remrange kept_deadline_def split: if_splits)
    then show ?thesis
      using refuse.IH unexpired_pruned [where t = t and now = t and k = k and s = s]
      by (auto simp: run_ok_def refused(3) mem_pruned split: option.splits if_splits)
  qed simp
next
  case (drop t s H tok)
  let ?s' = "rd_zrem R t k tok s"
  have sub: "unexpired t t k ?s' \<subseteq> unexpired t t k s"
    by (auto simp: unexpired_def mem_zrem split: if_splits)
  have "int (card (unexpired t t k ?s')) \<le> limit"
    using card_mono [OF finite_unexpired sub] drop.IH by (simp add: run_ok_def)
  moreover have "ddl t ?s' k = Some d \<Longrightarrow> ddl t s k = Some d" for d
    by (simp add: ddl_zrem kept_deadline_def split: if_splits)
  ultimately show ?case using drop.IH by (auto simp: run_ok_def mem_zrem split: if_splits)
qed

lemma lease_run_limit:
  assumes "lease_run R mem k limit ttl t s H" and "0 < ttl" and "0 \<le> limit"
  shows "int (card {m. \<exists>e. H m = Some e \<and> t < e}) \<le> limit"
proof -
  have ok: "run_ok k limit ttl t s H" by (rule lease_run_ok [OF assms])
  then have "{m. \<exists>e. H m = Some e \<and> t < e} \<subseteq> unexpired t t k s"
    by (auto simp: run_ok_def unexpired_def)
  then have "card {m. \<exists>e. H m = Some e \<and> t < e} \<le> card (unexpired t t k s)"
    by (rule card_mono [OF finite_unexpired])
  then show ?thesis using ok by (simp add: run_ok_def)
qed

text \<open>No lease survives its time: after a lease time of silence an acquirer is admitted.\<close>

lemma lease_run_heals:
  assumes "lease_run R mem k limit ttl t s H" and "0 < ttl" and "0 < limit" and "t + ttl \<le> t'"
  shows "fst (acquire_script R t' k t' limit tok ttl s) = 1"
proof -
  have ok: "run_ok k limit ttl t s H" using lease_run_ok [OF assms(1,2)] assms(3) by simp
  have "unexpired t' t' k s \<subseteq> unexpired t t' k s" using assms(2,4) by (intro unexpired_pass) auto
  moreover have "unexpired t t' k s = {}" using ok assms(4) by (fastforce simp: run_ok_def unexpired_def)
  ultimately have none: "unexpired t' t' k s = {}" by simp
  obtain a s' where a: "acquire_script R t' k t' limit tok ttl s = (a, s')" by (metis surj_pair)
  from a assms(2) show ?thesis
  proof (cases rule: acquire_script_cases)
    case refused
    then show ?thesis using none assms(3) by simp
  qed (simp add: a)
qed

subsection \<open>The heartbeat\<close>

lemma heartbeat_deadline:
  assumes "0 < key_ttl_ms ttl"
  shows "ddl t (heartbeat R ttl t k tok now s) k = Some (t + key_ttl_ms ttl)"
    and "mem t (heartbeat R ttl t k tok now s) k = (mem t s k)(tok \<mapsto> now + lease_ms ttl)"
  using assms by (simp_all add: heartbeat_def ddl_pexpire mem_pexpire mem_zadd)

lemma heartbeat_forgets:
  assumes "0 < key_ttl_ms ttl" and "t + key_ttl_ms ttl \<le> t'"
  shows "mem t' (heartbeat R ttl t k tok now s) k = Map.empty"
proof -
  have "t \<le> t'" using assms by simp
  then show ?thesis using assms heartbeat_deadline [OF assms(1)] by (simp add: mem_pass [of t t'])
qed

lemma acquire_empty:
  assumes "mem t s k = Map.empty" and "0 < limit"
  shows "fst (acquire_script R t k now limit tok ttl s) = 1"
  using assms by (simp add: acquire_script_def Let_def card_pruned unexpired_def)

subsection \<open>The polling loop\<close>

lemma acquire_loop_snoc:
  "acquire_loop R k limit tok ttl (ps @ [p]) L =
     (case acquire_loop R k limit tok ttl ps L of
        (Some r, L1) \<Rightarrow> (Some r, L1)
      | (None, L1) \<Rightarrow> acquire_loop R k limit tok ttl [p] L1)"
  by (induction ps arbitrary: L) (auto simp: Let_def split: prod.splits option.splits)

lemma acquire_loop_one:
  assumes "fst (acquire_script R (po_clock p) k (po_now p) limit tok ttl (lm_store (po_others p L))) = 1"
  shows "fst (acquire_loop R k limit tok ttl [p] L) = Some (if po_fails p then Noop else Held k tok)"
  using assms by (auto simp: Let_def split: prod.splits)

end

end
