(* ===== verification/Limiter_Local.thy ===== *)
theory Limiter_Local
  imports Limiter
begin

text \<open>
  The in-process limiter of src/src/ai/llm/limiter.py and the process-wide gate. The semaphore is
  the one of the standard library's asyncio (Python 3.12): a value and a queue of waiters; a release hands
  the slot to the first waiter that has not been woken, and a woken waiter takes it when its task
  runs again.
\<close>

subsection \<open>asyncio.Semaphore\<close>

record semaphore =
  sem_value :: int
  sem_waiters :: "(str \<times> bool) list"

definition new_semaphore :: "int \<Rightarrow> semaphore" where
  "new_semaphore n = \<lparr>sem_value = n, sem_waiters = []\<rparr>"

definition sem_locked :: "semaphore \<Rightarrow> bool" where
  "sem_locked s \<longleftrightarrow> sem_value s = 0 \<or> sem_waiters s \<noteq> []"

text \<open>\<open>_wake_up_next\<close>: the first waiter whose future is not done.\<close>

fun wake_first :: "(str \<times> bool) list \<Rightarrow> (str \<times> bool) list option" where
  "wake_first [] = None"
| "wake_first ((w, woken) # ws) =
     (if woken then map_option ((#) (w, woken)) (wake_first ws) else Some ((w, True) # ws))"

definition wake_next :: "semaphore \<Rightarrow> semaphore option" where
  "wake_next s = map_option (\<lambda>ws. \<lparr>sem_value = sem_value s - 1, sem_waiters = ws\<rparr>) (wake_first (sem_waiters s))"

text \<open>The loop that ends \<open>acquire\<close>: wake while the value is positive.\<close>

function wake_all :: "semaphore \<Rightarrow> semaphore" where
  "wake_all s =
     (if 0 < sem_value s then (case wake_next s of None \<Rightarrow> s | Some s' \<Rightarrow> wake_all s') else s)"
  by pat_completeness auto
termination
  by (relation "measure (\<lambda>s. nat (sem_value s))") (auto simp: wake_next_def)

declare wake_all.simps [simp del]

definition sem_release :: "semaphore \<Rightarrow> semaphore" where
  "sem_release s =
     (let s1 = s\<lparr>sem_value := sem_value s + 1\<rparr>
      in case wake_next s1 of None \<Rightarrow> s1 | Some s2 \<Rightarrow> s2)"

text \<open>A task that finds the semaphore locked queues up; it leaves the queue when its future is
  done or when it is cancelled.\<close>

definition sem_enter :: "str \<Rightarrow> semaphore \<Rightarrow> bool \<times> semaphore" where
  "sem_enter w s =
     (if \<not> sem_locked s then (True, s\<lparr>sem_value := sem_value s - 1\<rparr>)
      else (False, s\<lparr>sem_waiters := sem_waiters s @ [(w, False)]\<rparr>))"

definition sem_resume :: "str \<Rightarrow> semaphore \<Rightarrow> semaphore" where
  "sem_resume w s = wake_all (s\<lparr>sem_waiters := filter (\<lambda>(u, b). u \<noteq> w) (sem_waiters s)\<rparr>)"

definition sem_cancel :: "str \<Rightarrow> semaphore \<Rightarrow> semaphore" where
  "sem_cancel w s =
     (let rest = filter (\<lambda>(u, b). u \<noteq> w) (sem_waiters s)
      in wake_all (if map_of (sem_waiters s) w = Some True
                   then \<lparr>sem_value = sem_value s + 1, sem_waiters = rest\<rparr>
                   else s\<lparr>sem_waiters := rest\<rparr>))"

subsection \<open>LocalLimiter\<close>

text \<open>\<open>ll_held\<close> are the release functions that have not been called yet.\<close>

record local_limiter =
  ll_sems :: "(str \<times> semaphore) list"
  ll_tracked :: tracked
  ll_held :: "(str \<times> str) list"

definition ll_init :: local_limiter where
  "ll_init = \<lparr>ll_sems = [], ll_tracked = [], ll_held = []\<rparr>"

definition put_sem :: "str \<Rightarrow> semaphore \<Rightarrow> local_limiter \<Rightarrow> local_limiter" where
  "put_sem key s L = L\<lparr>ll_sems := AList.update key s (ll_sems L)\<rparr>"

definition add_counts :: "str \<Rightarrow> int \<Rightarrow> int \<Rightarrow> local_limiter \<Rightarrow> local_limiter" where
  "add_counts key w a L =
     L\<lparr>ll_tracked := track key (\<lambda>ts. ts\<lparr>ts_waiting := ts_waiting ts + w, ts_active := ts_active ts + a\<rparr>) (ll_tracked L)\<rparr>"

text \<open>\<open>acquire\<close> up to its first suspension: the release granted at once, or waiting.\<close>

datatype local_result = Passthrough | Granted | Waiting

definition local_acquire :: "str \<Rightarrow> int \<Rightarrow> str \<Rightarrow> local_limiter \<Rightarrow> local_result \<times> local_limiter" where
  "local_acquire key limit w L =
     (if limit \<le> 0 \<or> key = [] then (Passthrough, L)
      else
        let L1 = L\<lparr>ll_tracked := track key (\<lambda>ts. ts\<lparr>ts_limit := limit\<rparr>) (ll_tracked L)\<rparr>;
            sem = (case map_of (ll_sems L) key of Some s \<Rightarrow> s | None \<Rightarrow> new_semaphore limit)
        in case sem_enter w sem of
             (True, s) \<Rightarrow> (Granted, (add_counts key 0 1 (put_sem key s L1))\<lparr>ll_held := (key, w) # ll_held L\<rparr>)
           | (False, s) \<Rightarrow> (Waiting, add_counts key 1 0 (put_sem key s L1)))"

text \<open>The suspended \<open>acquire\<close> goes on with its slot, or is cancelled.\<close>

definition local_resume :: "str \<Rightarrow> str \<Rightarrow> local_limiter \<Rightarrow> local_limiter" where
  "local_resume key w L =
     (case map_of (ll_sems L) key of
        None \<Rightarrow> L
      | Some s \<Rightarrow>
          if map_of (sem_waiters s) w = Some True
          then (add_counts key (- 1) 1 (put_sem key (sem_resume w s) L))\<lparr>ll_held := (key, w) # ll_held L\<rparr>
          else L)"

definition local_cancel :: "str \<Rightarrow> str \<Rightarrow> local_limiter \<Rightarrow> local_limiter" where
  "local_cancel key w L =
     (case map_of (ll_sems L) key of
        None \<Rightarrow> L
      | Some s \<Rightarrow>
          if map_of (sem_waiters s) w \<noteq> None
          then add_counts key (- 1) 0 (put_sem key (sem_cancel w s) L)
          else L)"

definition local_release :: "str \<Rightarrow> str \<Rightarrow> local_limiter \<Rightarrow> local_limiter" where
  "local_release key w L =
     (if (key, w) \<notin> set (ll_held L) then L
      else case map_of (ll_sems L) key of
        None \<Rightarrow> L
      | Some s \<Rightarrow>
          (add_counts key 0 (- 1) (put_sem key (sem_release s) L))\<lparr>ll_held := remove1 (key, w) (ll_held L)\<rparr>)"

definition local_stats :: "local_limiter \<Rightarrow> runtime_stat list" where
  "local_stats L =
     sort_key rs_model_id
       (map (\<lambda>(model_id, ts). \<lparr>rs_model_id = model_id, rs_name = ts_name ts, rs_active = ts_active ts,
               rs_waiting = ts_waiting ts, rs_limit = ts_limit ts\<rparr>) (ll_tracked L))"

subsection \<open>The gate\<close>

text \<open>The process-wide governor: the installed limiter and the default limit. \<open>background\<close> is
  the context variable that \<open>background_task_context\<close> sets for the scope of a task.\<close>

record 'l governor =
  gv_limiter :: "'l option"
  gv_n :: int

definition set_governor :: "'l option \<Rightarrow> int \<Rightarrow> 'l governor \<Rightarrow> 'l governor" where
  "set_governor limiter limit g = g\<lparr>gv_limiter := limiter, gv_n := limit\<rparr>"

definition set_global_limit :: "int \<Rightarrow> 'l governor \<Rightarrow> 'l governor" where
  "set_global_limit limit g = g\<lparr>gv_n := limit\<rparr>"

text \<open>Whether a call is governed, by which limiter and with which limit.\<close>

definition gated :: "bool \<Rightarrow> int \<Rightarrow> 'l governor \<Rightarrow> ('l \<times> int) option" where
  "gated background model_limit g =
     (let limit = (if 0 < model_limit then model_limit else gv_n g)
      in case gv_limiter g of
           None \<Rightarrow> None
         | Some L \<Rightarrow> if limit \<le> 0 \<or> \<not> background then None else Some (L, limit))"

definition gate_named_n_local ::
  "bool \<Rightarrow> str \<Rightarrow> str \<Rightarrow> int \<Rightarrow> str \<Rightarrow> local_limiter governor \<Rightarrow> local_result \<times> local_limiter governor" where
  "gate_named_n_local background model_id model_name model_limit w g =
     (case gated background model_limit g of
        None \<Rightarrow> (Passthrough, g)
      | Some (L, limit) \<Rightarrow>
          (case local_acquire model_id limit w (L\<lparr>ll_tracked := set_model_name model_id model_name (ll_tracked L)\<rparr>) of
             (r, L') \<Rightarrow> (r, g\<lparr>gv_limiter := Some L'\<rparr>)))"

definition gate_named_n_redis ::
  "'r redis option \<Rightarrow> int \<Rightarrow> bool \<Rightarrow> str \<Rightarrow> str \<Rightarrow> int \<Rightarrow> str \<Rightarrow> 'r poll list \<Rightarrow> 'r limiter governor
     \<Rightarrow> release option \<times> 'r limiter governor" where
  "gate_named_n_redis rdb ttl background model_id model_name model_limit token polls g =
     (case gated background model_limit g of
        None \<Rightarrow> (Some Noop, g)
      | Some (L, limit) \<Rightarrow>
          (case acquire rdb ttl model_id limit token polls
                  (L\<lparr>lm_tracked := set_model_name model_id model_name (lm_tracked L)\<rparr>) of
             (r, L') \<Rightarrow> (r, g\<lparr>gv_limiter := Some L'\<rparr>)))"

definition gate_local :: "bool \<Rightarrow> str \<Rightarrow> str \<Rightarrow> local_limiter governor \<Rightarrow> local_result \<times> local_limiter governor" where
  "gate_local background model_id w g = gate_named_n_local background model_id [] 0 w g"

definition gate_n_local :: "bool \<Rightarrow> str \<Rightarrow> int \<Rightarrow> str \<Rightarrow> local_limiter governor \<Rightarrow> local_result \<times> local_limiter governor" where
  "gate_n_local background model_id model_limit w g = gate_named_n_local background model_id [] model_limit w g"

definition governor_stats :: "local_limiter governor \<Rightarrow> runtime_stat list \<times> bool" where
  "governor_stats g = (case gv_limiter g of None \<Rightarrow> ([], False) | Some L \<Rightarrow> (local_stats L, True))"

end
