(* ===== verification/Limiter_Properties.thy ===== *)
theory Limiter_Properties
  imports Limiter_Laws Limiter_Local
begin

text \<open>
  Properties of the two limiters: runs of the Redis limiter from its contract, and the invariant of
  the in-process limiter.
\<close>

subsection \<open>Lease times\<close>

lemma default_ttl: "lease_ms DEFAULT_LEASE_TTL = 30000" "key_ttl_ms DEFAULT_LEASE_TTL = 60"
  by code_simp+

subsection \<open>The semaphore\<close>

definition woken :: "semaphore \<Rightarrow> nat" where
  "woken s = length (filter snd (sem_waiters s))"

definition some_pending :: "semaphore \<Rightarrow> bool" where
  "some_pending s \<longleftrightarrow> list_ex (\<lambda>(w, b). \<not> b) (sem_waiters s)"

definition sem_ok :: "int \<Rightarrow> int \<Rightarrow> semaphore \<Rightarrow> bool" where
  "sem_ok c n s \<longleftrightarrow> 0 \<le> sem_value s \<and> sem_value s + int (woken s) + n = c \<and>
     (0 < sem_value s \<longrightarrow> some_pending s \<longrightarrow> 0 < woken s) \<and> distinct (map fst (sem_waiters s))"

lemma wake_first_None: "wake_first ws = None \<longleftrightarrow> \<not> list_ex (\<lambda>(w, b). \<not> b) ws"
  by (induction ws rule: wake_first.induct) auto

lemma wake_first_Some:
  "wake_first ws = Some ws' \<Longrightarrow>
     map fst ws' = map fst ws \<and> length (filter snd ws') = Suc (length (filter snd ws))"
  by (induction ws arbitrary: ws' rule: wake_first.induct) (auto split: if_splits)

lemma wake_next_None: "wake_next s = None \<longleftrightarrow> \<not> some_pending s"
  by (simp add: wake_next_def wake_first_None some_pending_def)

lemma wake_next_Some:
  assumes "wake_next s = Some s'"
  shows "sem_value s' = sem_value s - 1" "woken s' = Suc (woken s)"
    "map fst (sem_waiters s') = map fst (sem_waiters s)"
  using assms wake_first_Some [of "sem_waiters s"] by (auto simp: wake_next_def woken_def)

lemma wake_all_ok:
  assumes "0 \<le> sem_value s" and "sem_value s + int (woken s) + n = c" and "distinct (map fst (sem_waiters s))"
  shows "sem_ok c n (wake_all s) \<and> map fst (sem_waiters (wake_all s)) = map fst (sem_waiters s) \<and>
    (0 < sem_value (wake_all s) \<longrightarrow> \<not> some_pending (wake_all s))"
  using assms
proof (induction s rule: wake_all.induct)
  case (1 s)
  show ?case
  proof (cases "0 < sem_value s")
    case False
    then have "wake_all s = s" by (simp add: wake_all.simps)
    then show ?thesis using "1.prems" False by (simp add: sem_ok_def)
  next
    case True
    show ?thesis
    proof (cases "wake_next s")
      case None
      then have "wake_all s = s" by (simp add: wake_all.simps)
      then show ?thesis using "1.prems" None by (simp add: sem_ok_def wake_next_None)
    next
      case (Some s')
      note s' = wake_next_Some [OF Some]
      have "wake_all s = wake_all s'" using True Some by (simp add: wake_all.simps [of s])
      moreover have "sem_ok c n (wake_all s') \<and> map fst (sem_waiters (wake_all s')) = map fst (sem_waiters s') \<and>
          (0 < sem_value (wake_all s') \<longrightarrow> \<not> some_pending (wake_all s'))"
        using True "1.prems" s' by (intro "1.IH" [OF True Some]) simp_all
      ultimately show ?thesis using s'(3) by simp
    qed
  qed
qed

lemma sem_release_ok:
  assumes "sem_ok c n s"
  shows "sem_ok c (n - 1) (sem_release s) \<and> map fst (sem_waiters (sem_release s)) = map fst (sem_waiters s)"
proof -
  let ?s1 = "s\<lparr>sem_value := sem_value s + 1\<rparr>"
  have w1: "woken ?s1 = woken s" "some_pending ?s1 = some_pending s" by (simp_all add: woken_def some_pending_def)
  show ?thesis
  proof (cases "wake_next ?s1")
    case None
    then have "sem_release s = ?s1" by (simp add: sem_release_def)
    then show ?thesis using assms w1 None by (simp add: sem_ok_def wake_next_None)
  next
    case (Some s2)
    then have eq: "sem_release s = s2" by (simp add: sem_release_def)
    show ?thesis using assms w1 wake_next_Some [OF Some] by (simp add: eq sem_ok_def)
  qed
qed

lemma filter_name_waiters:
  fixes w :: str
  assumes "distinct (map fst ws)" and "map_of ws w = Some b"
  shows "length (filter snd (filter (\<lambda>(u, b). u \<noteq> w) ws)) + (if b then 1 else 0) = length (filter snd ws)"
    and "length (filter (\<lambda>(u, b). u \<noteq> w) ws) + 1 = length ws"
proof -
  have keep: "filter (\<lambda>(u, b). u \<noteq> w) ws = ws" if "w \<notin> fst ` set ws" for ws
    using that by (induction ws) auto
  have "length (filter snd (filter (\<lambda>(u, b). u \<noteq> w) ws)) + (if b then 1 else 0) = length (filter snd ws) \<and>
      length (filter (\<lambda>(u, b). u \<noteq> w) ws) + 1 = length ws"
    using assms
  proof (induction ws)
    case (Cons a ws)
    show ?case
    proof (cases "fst a = w")
      case True
      then have "filter (\<lambda>(u, b). u \<noteq> w) ws = ws" using Cons.prems(1) by (intro keep) auto
      then show ?thesis using True Cons.prems by (cases a) auto
    next
      case False
      then show ?thesis using Cons by (cases a) auto
    qed
  qed simp
  then show "length (filter snd (filter (\<lambda>(u, b). u \<noteq> w) ws)) + (if b then 1 else 0) = length (filter snd ws)"
    "length (filter (\<lambda>(u, b). u \<noteq> w) ws) + 1 = length ws" by auto
qed

lemma sem_resume_ok:
  assumes "sem_ok c n s" and "map_of (sem_waiters s) w = Some True"
  shows "sem_ok c (n + 1) (sem_resume w s)"
    and "length (sem_waiters (sem_resume w s)) + 1 = length (sem_waiters s)"
    and "set (map fst (sem_waiters (sem_resume w s))) \<subseteq> set (map fst (sem_waiters s)) - {w}"
proof -
  let ?s1 = "s\<lparr>sem_waiters := filter (\<lambda>(u, b). u \<noteq> w) (sem_waiters s)\<rparr>"
  have d: "distinct (map fst (sem_waiters s))" using assms(1) by (simp add: sem_ok_def)
  note c = filter_name_waiters [OF d assms(2)]
  have "int (woken ?s1) + 1 = int (woken s)" using c(1) by (simp add: woken_def)
  then have "sem_value ?s1 + int (woken ?s1) + (n + 1) = c" using assms(1) by (simp add: sem_ok_def)
  then have *: "sem_ok c (n + 1) (wake_all ?s1) \<and> map fst (sem_waiters (wake_all ?s1)) = map fst (sem_waiters ?s1) \<and>
      (0 < sem_value (wake_all ?s1) \<longrightarrow> \<not> some_pending (wake_all ?s1))"
    using assms(1) d by (intro wake_all_ok) (simp_all add: sem_ok_def distinct_map_filter)
  then show "sem_ok c (n + 1) (sem_resume w s)" by (simp add: sem_resume_def)
  have "length (sem_waiters (sem_resume w s)) = length (sem_waiters ?s1)"
    using * unfolding sem_resume_def by (metis length_map)
  then show "length (sem_waiters (sem_resume w s)) + 1 = length (sem_waiters s)" using c(2) by simp
  have "set (map fst (sem_waiters (sem_resume w s))) = set (map fst (sem_waiters ?s1))"
    using * unfolding sem_resume_def by simp
  then show "set (map fst (sem_waiters (sem_resume w s))) \<subseteq> set (map fst (sem_waiters s)) - {w}" by auto
qed

lemma sem_cancel_ok:
  assumes "sem_ok c n s" and "map_of (sem_waiters s) w = Some b"
  shows "sem_ok c n (sem_cancel w s)"
    and "length (sem_waiters (sem_cancel w s)) + 1 = length (sem_waiters s)"
    and "set (map fst (sem_waiters (sem_cancel w s))) \<subseteq> set (map fst (sem_waiters s))"
proof -
  let ?rest = "filter (\<lambda>(u, b). u \<noteq> w) (sem_waiters s)"
  define s1 where "s1 = (if map_of (sem_waiters s) w = Some True
     then \<lparr>sem_value = sem_value s + 1, sem_waiters = ?rest\<rparr> else s\<lparr>sem_waiters := ?rest\<rparr>)"
  have d: "distinct (map fst (sem_waiters s))" using assms(1) by (simp add: sem_ok_def)
  note c = filter_name_waiters [OF d assms(2)]
  have w: "sem_waiters s1 = ?rest" by (simp add: s1_def)
  have "sem_value s1 + int (woken s1) = sem_value s + int (woken s)"
    using c(1) assms(2) by (auto simp: s1_def woken_def)
  then have *: "sem_ok c n (wake_all s1) \<and> map fst (sem_waiters (wake_all s1)) = map fst (sem_waiters s1) \<and>
      (0 < sem_value (wake_all s1) \<longrightarrow> \<not> some_pending (wake_all s1))"
    using assms(1) d by (intro wake_all_ok) (auto simp: sem_ok_def distinct_map_filter w s1_def)
  have eq: "sem_cancel w s = wake_all s1" by (simp add: sem_cancel_def s1_def Let_def)
  show "sem_ok c n (sem_cancel w s)" using * eq by simp
  have "length (sem_waiters (sem_cancel w s)) = length ?rest" using * eq w by (metis length_map)
  then show "length (sem_waiters (sem_cancel w s)) + 1 = length (sem_waiters s)" using c(2) by simp
  have "set (map fst (sem_waiters (sem_cancel w s))) = set (map fst ?rest)" using * eq w by simp
  then show "set (map fst (sem_waiters (sem_cancel w s))) \<subseteq> set (map fst (sem_waiters s))" by auto
qed

lemma sem_enter_ok:
  assumes "sem_ok c n s" and "w \<notin> set (map fst (sem_waiters s))"
  shows "case sem_enter w s of (True, s') \<Rightarrow> sem_ok c (n + 1) s' \<and> sem_waiters s' = sem_waiters s
    | (False, s') \<Rightarrow> sem_ok c n s' \<and> sem_waiters s' = sem_waiters s @ [(w, False)]"
proof (cases "sem_locked s")
  case False
  then show ?thesis
    using assms(1) by (auto simp: sem_enter_def sem_locked_def sem_ok_def woken_def some_pending_def)
next
  case True
  have "0 < woken s" if "0 < sem_value s"
  proof -
    have "sem_waiters s \<noteq> []" using True that by (simp add: sem_locked_def)
    then obtain u b where "(u, b) \<in> set (sem_waiters s)" by (metis list.set_sel(1) surj_pair)
    then show ?thesis
      using that assms(1) by (cases b) (fastforce simp: sem_ok_def some_pending_def list_ex_iff woken_def filter_empty_conv)+
  qed
  then show ?thesis using True assms by (auto simp: sem_enter_def sem_ok_def woken_def)
qed

subsection \<open>Runs of the in-process limiter\<close>

definition stat_of :: "local_limiter \<Rightarrow> str \<Rightarrow> tracked_semaphore" where
  "stat_of L key = (case map_of (ll_tracked L) key of Some ts \<Rightarrow> ts | None \<Rightarrow> new_tracked)"

definition held_of :: "local_limiter \<Rightarrow> str \<Rightarrow> nat" where
  "held_of L key = length (filter (\<lambda>(k, w). k = key) (ll_held L))"

definition waiters_of :: "local_limiter \<Rightarrow> str \<Rightarrow> (str \<times> bool) list" where
  "waiters_of L key = (case map_of (ll_sems L) key of None \<Rightarrow> [] | Some s \<Rightarrow> sem_waiters s)"

text \<open>Every call waits and holds under a name of its own.\<close>

definition fresh_call :: "str \<Rightarrow> str \<Rightarrow> local_limiter \<Rightarrow> bool" where
  "fresh_call key w L \<longleftrightarrow> (key, w) \<notin> set (ll_held L) \<and> w \<notin> set (map fst (waiters_of L key))"

text \<open>\<open>caps\<close> records the limit each key was first used with.\<close>

inductive local_run :: "(str \<rightharpoonup> int) \<Rightarrow> local_limiter \<Rightarrow> bool" where
  start: "local_run Map.empty ll_init"
| acquire: "local_run caps L \<Longrightarrow> fresh_call key w L \<Longrightarrow> local_acquire key limit w L = (r, L') \<Longrightarrow>
    local_run (if r = Passthrough \<or> caps key \<noteq> None then caps else caps(key \<mapsto> limit)) L'"
| resume: "local_run caps L \<Longrightarrow> local_run caps (local_resume key w L)"
| cancel: "local_run caps L \<Longrightarrow> local_run caps (local_cancel key w L)"
| release: "local_run caps L \<Longrightarrow> local_run caps (local_release key w L)"
| name: "local_run caps L \<Longrightarrow> local_run caps (L\<lparr>ll_tracked := set_model_name key nm (ll_tracked L)\<rparr>)"

definition key_ok :: "(str \<rightharpoonup> int) \<Rightarrow> local_limiter \<Rightarrow> str \<Rightarrow> bool" where
  "key_ok caps L key \<longleftrightarrow>
     ts_active (stat_of L key) = int (held_of L key) \<and>
     ts_waiting (stat_of L key) = int (length (waiters_of L key)) \<and>
     (\<forall>w. w \<in> set (map fst (waiters_of L key)) \<longrightarrow> (key, w) \<notin> set (ll_held L)) \<and>
     (case map_of (ll_sems L) key of
        None \<Rightarrow> caps key = None \<and> held_of L key = 0
      | Some s \<Rightarrow> \<exists>c. caps key = Some c \<and> 0 < c \<and> sem_ok c (int (held_of L key)) s)"

definition local_ok :: "(str \<rightharpoonup> int) \<Rightarrow> local_limiter \<Rightarrow> bool" where
  "local_ok caps L \<longleftrightarrow> distinct (ll_held L) \<and> (\<forall>key. key_ok caps L key)"

lemma map_of_track:
  "map_of (track key f tr) = (map_of tr)(key \<mapsto> f (case map_of tr key of Some ts \<Rightarrow> ts | None \<Rightarrow> new_tracked))"
  by (simp add: track_def update_conv')

lemma put_sem_sel [simp]:
  "map_of (ll_sems (put_sem key s L)) = (map_of (ll_sems L))(key \<mapsto> s)"
  "ll_tracked (put_sem key s L) = ll_tracked L" "ll_held (put_sem key s L) = ll_held L"
  "stat_of (put_sem key s L) = stat_of L" "held_of (put_sem key s L) = held_of L"
  "waiters_of (put_sem key s L) = (waiters_of L)(key := sem_waiters s)"
  by (auto simp: put_sem_def update_conv' stat_of_def held_of_def waiters_of_def fun_eq_iff)

lemma add_counts_sel [simp]:
  "ll_sems (add_counts key w a L) = ll_sems L" "ll_held (add_counts key w a L) = ll_held L"
  "held_of (add_counts key w a L) = held_of L" "waiters_of (add_counts key w a L) = waiters_of L"
  "stat_of (add_counts key w a L) =
     (stat_of L)(key := (stat_of L key)\<lparr>ts_waiting := ts_waiting (stat_of L key) + w, ts_active := ts_active (stat_of L key) + a\<rparr>)"
  by (auto simp: add_counts_def stat_of_def held_of_def waiters_of_def map_of_track fun_eq_iff)

lemma set_held_sel [simp]:
  "stat_of (L\<lparr>ll_held := hs\<rparr>) = stat_of L" "waiters_of (L\<lparr>ll_held := hs\<rparr>) = waiters_of L"
  "held_of (L\<lparr>ll_held := hs\<rparr>) key = length (filter (\<lambda>(k, w). k = key) hs)"
  by (auto simp: stat_of_def waiters_of_def held_of_def)

lemma set_tracked_sel [simp]:
  "waiters_of (L\<lparr>ll_tracked := tr\<rparr>) = waiters_of L" "held_of (L\<lparr>ll_tracked := tr\<rparr>) = held_of L"
  by (auto simp: waiters_of_def held_of_def fun_eq_iff)

lemma local_okI:
  assumes "local_ok caps L" and "distinct (ll_held L')" and "key_ok caps' L' key"
    and "\<And>k. k \<noteq> key \<Longrightarrow> key_ok caps L k \<Longrightarrow> key_ok caps' L' k"
  shows "local_ok caps' L'"
  using assms by (auto simp: local_ok_def) (metis)

lemma key_ok_same:
  assumes "key_ok caps L k" and "map_of (ll_sems L') k = map_of (ll_sems L) k" and "held_of L' k = held_of L k"
    and "ts_active (stat_of L' k) = ts_active (stat_of L k)" and "ts_waiting (stat_of L' k) = ts_waiting (stat_of L k)"
    and "caps' k = caps k" and "\<And>w. (k, w) \<in> set (ll_held L') \<longleftrightarrow> (k, w) \<in> set (ll_held L)"
  shows "key_ok caps' L' k"
  using assms by (auto simp: key_ok_def waiters_of_def split: option.splits)

lemma key_okI:
  assumes "caps key = Some c" and "0 < c" and "map_of (ll_sems L) key = Some s"
    and "sem_ok c (int (held_of L key)) s" and "ts_active (stat_of L key) = int (held_of L key)"
    and "ts_waiting (stat_of L key) = int (length (sem_waiters s))"
    and "\<forall>w. w \<in> set (map fst (sem_waiters s)) \<longrightarrow> (key, w) \<notin> set (ll_held L)"
  shows "key_ok caps L key"
  unfolding key_ok_def waiters_of_def using assms by simp

lemma held_cons: "length (filter (\<lambda>(k, w). k = key) ((key', w) # hs)) =
    (if key' = key then 1 else 0) + length (filter (\<lambda>(k, w). k = key) hs)"
  by simp

lemma held_remove1:
  "(key', w) \<in> set hs \<Longrightarrow> length (filter (\<lambda>(k, w). k = key) (remove1 (key', w) hs)) + (if key' = key then 1 else 0) =
     length (filter (\<lambda>(k, w). k = key) hs)"
  by (induction hs) auto

lemma acquire_ok:
  assumes ok: "local_ok caps L" and fresh: "fresh_call key w L" and acq: "local_acquire key limit w L = (r, L')"
  shows "local_ok (if r = Passthrough \<or> caps key \<noteq> None then caps else caps(key \<mapsto> limit)) L'"
    (is "local_ok ?caps L'")
proof (cases "limit \<le> 0 \<or> key = []")
  case True
  then show ?thesis using acq ok by (simp add: local_acquire_def)
next
  case False
  define L1 where "L1 = L\<lparr>ll_tracked := track key (\<lambda>ts. ts\<lparr>ts_limit := limit\<rparr>) (ll_tracked L)\<rparr>"
  define s where "s = (case map_of (ll_sems L) key of Some s \<Rightarrow> s | None \<Rightarrow> new_semaphore limit)"
  have k: "key_ok caps L key" using ok by (simp add: local_ok_def)
  have st1: "ts_active (stat_of L1 k) = ts_active (stat_of L k)" "ts_waiting (stat_of L1 k) = ts_waiting (stat_of L k)" for k
    by (auto simp: L1_def stat_of_def map_of_track)
  have sems1: "ll_sems L1 = ll_sems L" "ll_held L1 = ll_held L" "held_of L1 = held_of L" "waiters_of L1 = waiters_of L"
    by (simp_all add: L1_def)
  obtain c where c: "(if caps key \<noteq> None then caps else caps(key \<mapsto> limit)) key = Some c" "0 < c"
    "sem_ok c (int (held_of L key)) s" "sem_waiters s = waiters_of L key"
    using k False
    by (cases "map_of (ll_sems L) key")
      (auto simp: key_ok_def s_def sem_ok_def new_semaphore_def woken_def waiters_of_def some_pending_def)
  have nw: "w \<notin> set (map fst (sem_waiters s))" using fresh c(4) by (simp add: fresh_call_def)
  obtain b s' where e: "sem_enter w s = (b, s')" by (metis surj_pair)
  note enter = sem_enter_ok [OF c(3) nw, unfolded e]
  show ?thesis
  proof (cases b)
    case True
    then have res: "r = Granted" "L' = (add_counts key 0 1 (put_sem key s' L1))\<lparr>ll_held := (key, w) # ll_held L\<rparr>"
      using acq False e by (auto simp: local_acquire_def L1_def [symmetric] s_def [symmetric] Let_def)
    have s': "sem_ok c (int (held_of L key) + 1) s'" "sem_waiters s' = sem_waiters s" using enter True by auto
    show ?thesis
    proof (rule local_okI [OF ok, where key = key])
      show "distinct (ll_held L')" using ok fresh res by (simp add: local_ok_def fresh_call_def)
      show "key_ok ?caps L' key"
        unfolding res(2)
      proof (rule key_okI)
        show "?caps key = Some c" using c(1) res(1) by simp
        have "\<forall>u. u \<in> set (map fst (sem_waiters s')) \<longrightarrow> u \<noteq> w \<and> (key, u) \<notin> set (ll_held L)"
          using k c(4) s'(2) nw unfolding key_ok_def by metis
        then show "\<forall>u. u \<in> set (map fst (sem_waiters s')) \<longrightarrow>
            (key, u) \<notin> set (ll_held (add_counts key 0 1 (put_sem key s' L1)\<lparr>ll_held := (key, w) # ll_held L\<rparr>))"
          by simp
      qed (use k c s' in \<open>auto simp: key_ok_def held_cons st1 sems1 held_of_def [symmetric] add.commute\<close>)
      show "key_ok ?caps L' k'" if "k' \<noteq> key" "key_ok caps L k'" for k'
        by (rule key_ok_same [OF that(2)]) (use that(1) res in \<open>auto simp: sems1 st1 held_cons held_of_def [symmetric]\<close>)
    qed
  next
    case False
    then have res: "r = Waiting" "L' = add_counts key 1 0 (put_sem key s' L1)"
      using acq \<open>\<not> (limit \<le> 0 \<or> key = [])\<close> e
      by (auto simp: local_acquire_def L1_def [symmetric] s_def [symmetric] Let_def)
    have s': "sem_ok c (int (held_of L key)) s'" "sem_waiters s' = sem_waiters s @ [(w, False)]" using enter False by auto
    show ?thesis
    proof (rule local_okI [OF ok, where key = key])
      show "distinct (ll_held L')" using ok res sems1 by (simp add: local_ok_def)
      show "key_ok ?caps L' key"
        unfolding res(2)
      proof (rule key_okI)
        show "?caps key = Some c" using c(1) res(1) by simp
        have "\<forall>u. u \<in> set (map fst (sem_waiters s')) \<longrightarrow> (key, u) \<notin> set (ll_held L)"
          using k c(4) s'(2) fresh unfolding key_ok_def fresh_call_def by auto
        then show "\<forall>u. u \<in> set (map fst (sem_waiters s')) \<longrightarrow>
            (key, u) \<notin> set (ll_held (add_counts key 1 0 (put_sem key s' L1)))" by (simp add: sems1)
      qed (use k c s' in \<open>auto simp: key_ok_def st1 sems1\<close>)
      show "key_ok ?caps L' k'" if "k' \<noteq> key" "key_ok caps L k'" for k'
        by (rule key_ok_same [OF that(2)]) (use that(1) res in \<open>auto simp: sems1 st1\<close>)
    qed
  qed
qed

lemma key_ok_sem:
  assumes "local_ok caps L" and "map_of (ll_sems L) key = Some s"
  obtains c where "caps key = Some c" "0 < c" "sem_ok c (int (held_of L key)) s" "waiters_of L key = sem_waiters s"
    "ts_active (stat_of L key) = int (held_of L key)" "ts_waiting (stat_of L key) = int (length (sem_waiters s))"
    "\<forall>w. w \<in> set (map fst (sem_waiters s)) \<longrightarrow> (key, w) \<notin> set (ll_held L)"
  using assms by (auto simp: local_ok_def key_ok_def waiters_of_def dest!: spec [of _ key])

lemma resume_ok:
  assumes ok: "local_ok caps L"
  shows "local_ok caps (local_resume key w L)"
proof (cases "\<exists>s. map_of (ll_sems L) key = Some s \<and> map_of (sem_waiters s) w = Some True")
  case False
  then show ?thesis using ok by (auto simp: local_resume_def split: option.splits)
next
  case True
  then obtain s where s: "map_of (ll_sems L) key = Some s" "map_of (sem_waiters s) w = Some True" by blast
  obtain c where c: "caps key = Some c" "0 < c" "sem_ok c (int (held_of L key)) s" "waiters_of L key = sem_waiters s"
    "ts_active (stat_of L key) = int (held_of L key)" "ts_waiting (stat_of L key) = int (length (sem_waiters s))"
    "\<forall>w. w \<in> set (map fst (sem_waiters s)) \<longrightarrow> (key, w) \<notin> set (ll_held L)"
    by (rule key_ok_sem [OF ok s(1)])
  note r = sem_resume_ok [OF c(3) s(2)]
  have "w \<in> set (map fst (sem_waiters s))" using s(2) by (force dest: map_of_SomeD)
  then have fresh: "(key, w) \<notin> set (ll_held L)" using c(7) by blast
  have res: "local_resume key w L = (add_counts key (- 1) 1 (put_sem key (sem_resume w s) L))\<lparr>ll_held := (key, w) # ll_held L\<rparr>"
    using s by (simp add: local_resume_def)
  show ?thesis
  proof (rule local_okI [OF ok, where key = key])
    show "distinct (ll_held (local_resume key w L))" using ok fresh res by (simp add: local_ok_def)
    show "key_ok caps (local_resume key w L) key"
      unfolding res
    proof (rule key_okI [where caps = caps and key = key and c = c])
      have "\<forall>u. u \<in> set (map fst (sem_waiters (sem_resume w s))) \<longrightarrow> u \<noteq> w \<and> (key, u) \<notin> set (ll_held L)"
        using r(3) c(7) by blast
      then show "\<forall>u. u \<in> set (map fst (sem_waiters (sem_resume w s))) \<longrightarrow>
          (key, u) \<notin> set (ll_held (add_counts key (- 1) 1 (put_sem key (sem_resume w s) L)\<lparr>ll_held := (key, w) # ll_held L\<rparr>))"
        by simp
    qed (use c r in \<open>auto simp: held_cons held_of_def [symmetric] add.commute\<close>)
    show "key_ok caps (local_resume key w L) k'" if "k' \<noteq> key" "key_ok caps L k'" for k'
      by (rule key_ok_same [OF that(2)]) (use that(1) res in \<open>auto simp: held_cons held_of_def [symmetric]\<close>)
  qed
qed

lemma cancel_ok:
  assumes ok: "local_ok caps L"
  shows "local_ok caps (local_cancel key w L)"
proof (cases "\<exists>s b. map_of (ll_sems L) key = Some s \<and> map_of (sem_waiters s) w = Some b")
  case False
  then show ?thesis using ok by (auto simp: local_cancel_def split: option.splits)
next
  case True
  then obtain s b where s: "map_of (ll_sems L) key = Some s" "map_of (sem_waiters s) w = Some b" by blast
  obtain c where c: "caps key = Some c" "0 < c" "sem_ok c (int (held_of L key)) s" "waiters_of L key = sem_waiters s"
    "ts_active (stat_of L key) = int (held_of L key)" "ts_waiting (stat_of L key) = int (length (sem_waiters s))"
    "\<forall>w. w \<in> set (map fst (sem_waiters s)) \<longrightarrow> (key, w) \<notin> set (ll_held L)"
    by (rule key_ok_sem [OF ok s(1)])
  note r = sem_cancel_ok [OF c(3) s(2)]
  have res: "local_cancel key w L = add_counts key (- 1) 0 (put_sem key (sem_cancel w s) L)"
    using s by (simp add: local_cancel_def)
  show ?thesis
  proof (rule local_okI [OF ok, where key = key])
    show "distinct (ll_held (local_cancel key w L))" using ok res by (simp add: local_ok_def)
    show "key_ok caps (local_cancel key w L) key" 
      unfolding res
    proof (rule key_okI [where caps = caps and key = key and c = c])
      show "\<forall>u. u \<in> set (map fst (sem_waiters (sem_cancel w s))) \<longrightarrow>
          (key, u) \<notin> set (ll_held (add_counts key (- 1) 0 (put_sem key (sem_cancel w s) L)))"
        using r(3) c(7) by (simp del: set_map) blast
    qed (use c r in auto)
    show "key_ok caps (local_cancel key w L) k'" if "k' \<noteq> key" "key_ok caps L k'" for k'
      by (rule key_ok_same [OF that(2)]) (use that(1) res in auto)
  qed
qed

lemma release_ok:
  assumes ok: "local_ok caps L"
  shows "local_ok caps (local_release key w L)"
proof (cases "(key, w) \<in> set (ll_held L) \<and> (\<exists>s. map_of (ll_sems L) key = Some s)")
  case False
  then show ?thesis using ok by (auto simp: local_release_def split: option.splits)
next
  case True
  then obtain s where s: "(key, w) \<in> set (ll_held L)" "map_of (ll_sems L) key = Some s" by blast
  obtain c where c: "caps key = Some c" "0 < c" "sem_ok c (int (held_of L key)) s" "waiters_of L key = sem_waiters s"
    "ts_active (stat_of L key) = int (held_of L key)" "ts_waiting (stat_of L key) = int (length (sem_waiters s))"
    "\<forall>w. w \<in> set (map fst (sem_waiters s)) \<longrightarrow> (key, w) \<notin> set (ll_held L)"
    by (rule key_ok_sem [OF ok s(2)])
  have r: "sem_ok c (int (held_of L key) - 1) (sem_release s)"
    "length (sem_waiters (sem_release s)) = length (sem_waiters s)"
    using sem_release_ok [OF c(3)] by (simp, metis length_map)
  have res: "local_release key w L = (add_counts key 0 (- 1) (put_sem key (sem_release s) L))\<lparr>ll_held := remove1 (key, w) (ll_held L)\<rparr>"
    using s by (simp add: local_release_def)
  have held: "int (length (filter (\<lambda>(k, w). k = key) (remove1 (key, w) (ll_held L)))) = int (held_of L key) - 1"
    using held_remove1 [OF s(1), of key] by (simp add: held_of_def)
  show ?thesis
  proof (rule local_okI [OF ok, where key = key])
    show "distinct (ll_held (local_release key w L))" using ok res by (simp add: local_ok_def)
    show "key_ok caps (local_release key w L) key"
      unfolding res
    proof (rule key_okI [where caps = caps and key = key and c = c])
      have "map fst (sem_waiters (sem_release s)) = map fst (sem_waiters s)" using sem_release_ok [OF c(3)] by blast
      then show "\<forall>u. u \<in> set (map fst (sem_waiters (sem_release s))) \<longrightarrow>
          (key, u) \<notin> set (ll_held (add_counts key 0 (- 1) (put_sem key (sem_release s) L)\<lparr>ll_held := remove1 (key, w) (ll_held L)\<rparr>))"
        using c(7) by (simp del: set_map)
    qed (use c r held in auto)
    show "key_ok caps (local_release key w L) k'" if "k' \<noteq> key" "key_ok caps L k'" for k'
      by (rule key_ok_same [OF that(2)])
        (use that(1) res held_remove1 [OF s(1), of k'] in \<open>auto simp: held_of_def\<close>)
  qed
qed

lemma local_run_ok: "local_run caps L \<Longrightarrow> local_ok caps L"
proof (induction rule: local_run.induct)
  case start
  then show ?case
    by (simp add: local_ok_def key_ok_def ll_init_def stat_of_def held_of_def waiters_of_def)
next
  case (acquire caps L key w limit r L')
  then show ?case by (intro acquire_ok)
next
  case (name caps L key nm)
  let ?L = "L\<lparr>ll_tracked := set_model_name key nm (ll_tracked L)\<rparr>"
  have st: "ts_active (stat_of ?L k) = ts_active (stat_of L k)" "ts_waiting (stat_of ?L k) = ts_waiting (stat_of L k)" for k
    by (auto simp: stat_of_def set_model_name_def map_of_track)
  have "key_ok caps ?L k" for k
  proof (rule key_ok_same [of caps L k])
    show "key_ok caps L k" using name.IH by (simp add: local_ok_def)
  qed (simp_all only: st, simp_all)
  then show ?case using name.IH by (simp add: local_ok_def)
qed (simp_all add: resume_ok cancel_ok release_ok)

lemma wake_first_head: "ws \<noteq> [] \<Longrightarrow> \<not> snd (hd ws) \<Longrightarrow> wake_first ws = Some ((fst (hd ws), True) # tl ws)"
  by (cases ws) auto

subsection \<open>Properties\<close>

text \<open>C31: In every interleaving of acquirers and releases of the Redis limiter on one key, with one
  limit, agreeing clocks and calls shorter than their first heartbeat, at most \<open>limit\<close> holders
  have an unexpired lease at any time.\<close>
theorem lease_limit:
  assumes "redis_zset R mem ddl" and "lease_run R mem k limit (lease_ms ttl) t s H"
    and "0 < lease_ms ttl" and "0 \<le> limit"
  shows "int (card {m. \<exists>e. H m = Some e \<and> t < e}) \<le> limit"
  using redis_zset.lease_run_limit [OF assms] .

definition empty_keyspace :: keyspace where
  "empty_keyspace = (\<lambda>k. ([], None))"

definition one_holder :: keyspace where
  "one_holder = snd (acquire_script redis_keyspace 0 (lit ''m'') 0 1 (lit ''a'') (lease_ms DEFAULT_LEASE_TTL) empty_keyspace)"

lemma one_holder: "acquire_script redis_keyspace 0 (lit ''m'') 0 1 (lit ''a'') (lease_ms DEFAULT_LEASE_TTL) empty_keyspace = (1, one_holder)"
  by (simp add: one_holder_def acquire_script_def redis_keyspace_def ks_live_def ks_put_def empty_keyspace_def Let_def)

lemma one_holder_run:
  "lease_run redis_keyspace ks_mem (lit ''m'') 1 (lease_ms DEFAULT_LEASE_TTL) 0 one_holder
     (Map.empty(lit ''a'' \<mapsto> 0 + lease_ms DEFAULT_LEASE_TTL))"
  by (rule lease_run.admit [OF lease_run.start one_holder]) (simp add: ks_mem_def empty_keyspace_def)

lemma lease_limit_witness:
  "int (card {m. \<exists>e. (Map.empty(lit ''a'' \<mapsto> 0 + lease_ms DEFAULT_LEASE_TTL)) m = Some e \<and> 0 < e}) \<le> 1"
  by (rule lease_limit [OF keyspace.redis_zset_axioms one_holder_run]) (simp_all add: default_ttl)

text \<open>A waiting acquirer gets its slot: once the clock has passed the last activity on the key by
  one lease time (every holder having crashed or finished), the next poll returns holding it,
  however long it has been waiting.\<close>
theorem acquire_heals:
  assumes "redis_zset R mem ddl"
    and "acquire_loop R k limit tok (lease_ms ttl) polls L = (None, L1)"
    and "lease_run R mem k limit (lease_ms ttl) t (lm_store (po_others p L1)) H"
    and "0 < lease_ms ttl" and "0 < limit" and "t + lease_ms ttl \<le> po_clock p" and "po_now p = po_clock p"
    and "\<not> po_fails p"
  shows "fst (acquire_loop R k limit tok (lease_ms ttl) (polls @ [p]) L) = Some (Held k tok)"
proof -
  have one: "fst (acquire_script R (po_clock p) k (po_now p) limit tok (lease_ms ttl) (lm_store (po_others p L1))) = 1"
    using redis_zset.lease_run_heals [OF assms(1,3,4,5,6)] assms(7) by simp
  show ?thesis
    using redis_zset.acquire_loop_one [OF assms(1) one] assms(2,8)
    by (simp add: redis_zset.acquire_loop_snoc [OF assms(1)])
qed

definition quiet_poll :: "keyspace poll" where
  "quiet_poll = \<lparr>po_others = (\<lambda>L. L), po_clock = 40000, po_now = 40000, po_fails = False\<rparr>"

definition early_poll :: "keyspace poll" where
  "early_poll = \<lparr>po_others = (\<lambda>L. L\<lparr>lm_store := one_holder\<rparr>), po_clock = 5, po_now = 5, po_fails = False\<rparr>"

definition demo_limiter :: "keyspace limiter" where
  "demo_limiter = \<lparr>lm_store = one_holder, lm_tracked = []\<rparr>"

lemma demo_waits: "acquire_loop redis_keyspace (lit ''m'') 1 (lit ''b'') (lease_ms DEFAULT_LEASE_TTL) [early_poll] demo_limiter =
    (None, demo_limiter)"
  by (simp add: demo_limiter_def early_poll_def one_holder_def acquire_script_def redis_keyspace_def ks_live_def
      ks_put_def empty_keyspace_def Let_def default_ttl fun_eq_iff)

lemma acquire_heals_witness:
  "fst (acquire_loop redis_keyspace (lit ''m'') 1 (lit ''b'') (lease_ms DEFAULT_LEASE_TTL) ([early_poll] @ [quiet_poll]) demo_limiter) =
     Some (Held (lit ''m'') (lit ''b''))"
proof (rule acquire_heals [OF keyspace.redis_zset_axioms demo_waits])
  show "lease_run redis_keyspace ks_mem (lit ''m'') 1 (lease_ms DEFAULT_LEASE_TTL) 0 (lm_store (po_others quiet_poll demo_limiter))
      (Map.empty(lit ''a'' \<mapsto> 0 + lease_ms DEFAULT_LEASE_TTL))"
    using one_holder_run by (simp add: quiet_poll_def demo_limiter_def)
qed (simp_all add: default_ttl quiet_poll_def)

text \<open>C32: The heartbeat does not keep the slot: it gives the whole key a life of
  \<open>int(ttl.total_seconds() * 2)\<close> milliseconds, 60 for the default lease of 30000, after which
  every lease of the model is gone and the next acquirer is admitted whatever the limit.\<close>
theorem heartbeat_drops_leases:
  assumes "redis_zset R mem ddl" and "0 < key_ttl_ms ttl" and "t + key_ttl_ms ttl \<le> t'" and "0 < limit"
  shows "mem t' (heartbeat R ttl t k tok now s) k = Map.empty \<and>
    fst (acquire_script R t' k now' limit tok' ttl' (heartbeat R ttl t k tok now s)) = 1 \<and>
    key_ttl_ms DEFAULT_LEASE_TTL = 60 \<and> lease_ms DEFAULT_LEASE_TTL = 30000"
proof -
  have e: "mem t' (heartbeat R ttl t k tok now s) k = Map.empty"
    by (rule redis_zset.heartbeat_forgets [OF assms(1-3)])
  then show ?thesis using redis_zset.acquire_empty [OF assms(1) e assms(4)] by (simp add: default_ttl)
qed

lemma heartbeat_drops_leases_witness:
  "fst (acquire_script redis_keyspace 10060 (lit ''m'') 10060 1 (lit ''b'') 30000
     (heartbeat redis_keyspace DEFAULT_LEASE_TTL 10000 (lit ''m'') (lit ''a'') 10000 one_holder)) = 1"
  using heartbeat_drops_leases [OF keyspace.redis_zset_axioms, of DEFAULT_LEASE_TTL 10000 10060 1 "lit ''m''" "lit ''a''" 10000
      one_holder 10060 "lit ''b''" 30000]
  by (simp add: default_ttl)

text \<open>The in-process limiter never runs more calls of a model than the limit it was first used
  with (a later limit does not resize the semaphore), and the counters it reports are the calls
  that hold a slot and the calls that wait, in every run of acquires, wake-ups, cancellations and
  releases.\<close>
theorem local_limiter_counts:
  assumes "local_run caps L"
  shows "case caps key of
      None \<Rightarrow> ts_active (stat_of L key) = 0 \<and> ts_waiting (stat_of L key) = 0 \<and> held_of L key = 0
    | Some c \<Rightarrow> ts_active (stat_of L key) = int (held_of L key) \<and> int (held_of L key) \<le> c \<and>
        ts_waiting (stat_of L key) = int (length (waiters_of L key))"
proof -
  have k: "key_ok caps L key" using local_run_ok [OF assms] by (simp add: local_ok_def)
  show ?thesis
  proof (cases "map_of (ll_sems L) key")
    case None
    then show ?thesis using k by (simp add: key_ok_def waiters_of_def)
  next
    case (Some s)
    then show ?thesis using k by (auto simp: key_ok_def sem_ok_def)
  qed
qed

definition demo_local :: local_limiter where
  "demo_local = snd (local_acquire (lit ''m'') 1 (lit ''b'') (snd (local_acquire (lit ''m'') 1 (lit ''a'') ll_init)))"

lemma demo_local_run: "local_run (Map.empty(lit ''m'' \<mapsto> 1)) demo_local"
proof -
  have a: "local_acquire (lit ''m'') 1 (lit ''a'') ll_init = (Granted, snd (local_acquire (lit ''m'') 1 (lit ''a'') ll_init))"
    by (simp add: local_acquire_def ll_init_def sem_enter_def new_semaphore_def sem_locked_def)
  have b: "local_acquire (lit ''m'') 1 (lit ''b'') (snd (local_acquire (lit ''m'') 1 (lit ''a'') ll_init)) = (Waiting, demo_local)"
    by (simp add: demo_local_def local_acquire_def ll_init_def sem_enter_def new_semaphore_def sem_locked_def
        add_counts_def put_sem_def)
  have f: "fresh_call (lit ''m'') (lit ''a'') ll_init"
    "fresh_call (lit ''m'') (lit ''b'') (snd (local_acquire (lit ''m'') 1 (lit ''a'') ll_init))"
    by (simp_all add: fresh_call_def ll_init_def waiters_of_def local_acquire_def sem_enter_def new_semaphore_def
        sem_locked_def add_counts_def put_sem_def)
  have "local_run (Map.empty(lit ''m'' \<mapsto> 1)) (snd (local_acquire (lit ''m'') 1 (lit ''a'') ll_init))"
    using local_run.acquire [OF local_run.start f(1) a] by simp
  from local_run.acquire [OF this f(2) b] show ?thesis by simp
qed

lemma local_limiter_counts_witness:
  "ts_active (stat_of demo_local (lit ''m'')) = int (held_of demo_local (lit ''m'')) \<and> int (held_of demo_local (lit ''m'')) \<le> 1"
  using local_limiter_counts [OF demo_local_run, of "lit ''m''"] by simp

text \<open>No wake-up is lost: whenever calls wait for a model, either one of them has been woken and
  holds a slot as soon as its task runs, or some call holds a slot and its release wakes the call
  that has waited longest.\<close>
theorem no_lost_wakeup:
  assumes "local_run caps L" and "waiters_of L key \<noteq> []"
  shows "(\<exists>w. map_of (waiters_of L key) w = Some True \<and> (key, w) \<in> set (ll_held (local_resume key w L))) \<or>
    (0 < held_of L key \<and>
     (\<forall>h. (key, h) \<in> set (ll_held L) \<longrightarrow>
        map_of (waiters_of (local_release key h L) key) (fst (hd (waiters_of L key))) = Some True))"
proof -
  have ok: "local_ok caps L" by (rule local_run_ok [OF assms(1)])
  obtain s where s: "map_of (ll_sems L) key = Some s" "sem_waiters s = waiters_of L key"
    using assms(2) by (auto simp: waiters_of_def split: option.splits)
  obtain c where c: "0 < c" "sem_ok c (int (held_of L key)) s"
    using key_ok_sem [OF ok s(1)] by metis
  have d: "distinct (map fst (waiters_of L key))" using c(2) s(2) by (simp add: sem_ok_def)
  show ?thesis
  proof (cases "woken s = 0")
    case False
    then obtain w where "(w, True) \<in> set (waiters_of L key)"
      using s(2) by (auto simp: woken_def filter_empty_conv)
    then have w: "map_of (waiters_of L key) w = Some True" using d by simp
    then have "(key, w) \<in> set (ll_held (local_resume key w L))" using s by (simp add: local_resume_def)
    then show ?thesis using w by blast
  next
    case True
    obtain w b ws where ws: "waiters_of L key = (w, b) # ws" using assms(2) by (cases "waiters_of L key") auto
    have b: "\<not> b" using True s(2) ws by (simp add: woken_def split: if_splits)
    have "some_pending s" using b s(2) ws by (simp add: some_pending_def)
    then have v: "sem_value s = 0" using c(2) True by (auto simp: sem_ok_def)
    then have held: "0 < held_of L key" using c True by (simp add: sem_ok_def)
    have "map_of (waiters_of (local_release key h L) key) w = Some True" if "(key, h) \<in> set (ll_held L)" for h
      using that s ws b
      by (simp add: local_release_def sem_release_def wake_next_def Let_def)
    then show ?thesis using held ws by simp
  qed
qed

lemma no_lost_wakeup_witness:
  "map_of (waiters_of (local_release (lit ''m'') (lit ''a'') demo_local) (lit ''m'')) (lit ''b'') = Some True"
proof -
  have w: "waiters_of demo_local (lit ''m'') = [(lit ''b'', False)]" "(lit ''m'', lit ''a'') \<in> set (ll_held demo_local)"
    by (simp_all add: demo_local_def waiters_of_def local_acquire_def ll_init_def sem_enter_def new_semaphore_def
        sem_locked_def add_counts_def put_sem_def)
  have "waiters_of demo_local (lit ''m'') \<noteq> []" using w(1) by simp
  from no_lost_wakeup [OF demo_local_run this] show ?thesis using w by (auto split: if_splits)
qed

end
