(* ===== verification/SQL_Lexer.thy ===== *)
theory SQL_Lexer
  imports KB_Prelude
begin

text \<open>
  The tokenizer of src/src/core/agents/tools/sql_security.py. The code walks a string by index; the
  model walks the suffix at that index and counts what it consumes. Case conversion and the word
  and case-folding tables of characters outside ASCII are the parameter \<open>U\<close>.
\<close>

record unicode =
  uc_upper :: "rune \<Rightarrow> str"
  uc_lower :: "rune \<Rightarrow> str"
  uc_word :: "rune \<Rightarrow> bool"
  uc_icase :: "rune \<Rightarrow> rune \<Rightarrow> bool"

abbreviation "upper U \<equiv> upper_str (uc_upper U)"
abbreviation "lower U \<equiv> lower_str (uc_lower U)"

subsection \<open>Searching\<close>

definition ident_start :: "rune \<Rightarrow> bool" where
  "ident_start c \<longleftrightarrow> (97 \<le> c \<and> c \<le> 122) \<or> (65 \<le> c \<and> c \<le> 90) \<or> c = 95"

definition ident_char :: "rune \<Rightarrow> bool" where
  "ident_char c \<longleftrightarrow> ident_start c \<or> (48 \<le> c \<and> c \<le> 57)"

definition word_char :: "unicode \<Rightarrow> rune \<Rightarrow> bool" where
  "word_char U c \<longleftrightarrow> (if c < 128 then ident_char c else uc_word U c)"

text \<open>Characters that \<open>re.IGNORECASE\<close> identifies.\<close>

definition icase_eq :: "unicode \<Rightarrow> rune \<Rightarrow> rune \<Rightarrow> bool" where
  "icase_eq U a b \<longleftrightarrow>
     a = b \<or> (if b < 128 then upper_char (\<lambda>c. [c]) a = upper_char (\<lambda>c. [c]) b else uc_icase U a b)"

fun icase_starts :: "unicode \<Rightarrow> str \<Rightarrow> str \<Rightarrow> bool" where
  "icase_starts U [] s = True"
| "icase_starts U (p # ps) [] = False"
| "icase_starts U (p # ps) (c # cs) = (icase_eq U p c \<and> icase_starts U ps cs)"

definition edge :: "unicode \<Rightarrow> rune option \<Rightarrow> rune option \<Rightarrow> bool" where
  "edge U a b \<longleftrightarrow>
     (case a of None \<Rightarrow> False | Some c \<Rightarrow> word_char U c) \<noteq> (case b of None \<Rightarrow> False | Some c \<Rightarrow> word_char U c)"

definition head_opt :: "str \<Rightarrow> rune option" where
  "head_opt s = (case s of [] \<Rightarrow> None | c # cs \<Rightarrow> Some c)"

text \<open>\<open>\b(w1|w2|...)\b\<close>: whether one of the words matches at the start of \<open>s\<close>, after the
  character \<open>prev\<close>; and the first position in a text where it does.\<close>

definition word_at :: "unicode \<Rightarrow> (str \<Rightarrow> str \<Rightarrow> bool) \<Rightarrow> str list \<Rightarrow> rune option \<Rightarrow> str \<Rightarrow> bool" where
  "word_at U m ws prev s \<longleftrightarrow>
     list_ex (\<lambda>w. m w s \<and> edge U prev (head_opt s) \<and>
        edge U (if w = [] then prev else Some (s ! (length w - 1))) (head_opt (drop (length w) s))) ws"

fun search_word :: "unicode \<Rightarrow> (str \<Rightarrow> str \<Rightarrow> bool) \<Rightarrow> str list \<Rightarrow> rune option \<Rightarrow> str \<Rightarrow> nat option" where
  "search_word U m ws prev [] = None"
| "search_word U m ws prev (c # cs) =
     (if word_at U m ws prev (c # cs) then Some 0 else map_option Suc (search_word U m ws (Some c) cs))"

subsection \<open>Quotes\<close>

text \<open>Characters consumed after an opening quote, the closing one included.\<close>

fun skip_quoted :: "rune \<Rightarrow> str \<Rightarrow> nat" where
  "skip_quoted q [] = 0"
| "skip_quoted q [c] = 1"
| "skip_quoted q (c # d # cs) =
     (if c = q then (if d = q then 2 + skip_quoted q cs else 1)
      else if c = 92 then 2 + skip_quoted q cs
      else 1 + skip_quoted q (d # cs))"

definition dollar_tag :: "str \<Rightarrow> str option" where
  "dollar_tag s =
     (case s of
        [] \<Rightarrow> None
      | c # r \<Rightarrow>
          if c \<noteq> 36 then None
          else let name = takeWhile ident_char r; rest = drop (length name) r
               in if name \<noteq> [] \<and> ident_start (hd name) \<and> starts_with [36] rest then Some (36 # name @ [36])
                  else if starts_with [36] r then Some [36, 36]
                  else None)"

definition skip_dollar_quoted :: "str \<Rightarrow> nat option" where
  "skip_dollar_quoted s =
     (case dollar_tag s of
        None \<Rightarrow> None
      | Some tag \<Rightarrow>
          (case find_str tag (drop (length tag) s) of
             None \<Rightarrow> Some (length s)
           | Some i \<Rightarrow> Some (length tag + i + length tag)))"

text \<open>\<open>--\<close> and \<open>/* */\<close> comments: what they consume.\<close>

definition skip_line_comment :: "str \<Rightarrow> nat" where
  "skip_line_comment s = (case find_str [10] s of None \<Rightarrow> length s | Some i \<Rightarrow> i + 1)"

definition skip_block_comment :: "str \<Rightarrow> nat" where
  "skip_block_comment s = (case find_str [42, 47] (drop 2 s) of None \<Rightarrow> length s | Some i \<Rightarrow> i + 4)"

subsection \<open>Tokens\<close>

text \<open>The characters of a word token after its first.\<close>

fun word_rest :: "str \<Rightarrow> nat" where
  "word_rest [] = 0"
| "word_rest (c # cs) =
     (if is_space c \<or> c \<in> {40, 41, 39, 34, 96, 59} then 0
      else if c = 45 \<and> starts_with [45] cs then 0
      else if c = 47 \<and> starts_with [42] cs then 0
      else 1 + word_rest cs)"

text \<open>What the scanner does at one position: consume \<open>n\<close> characters, perhaps emit a token, and
  change the parenthesis depth.\<close>

record scan_step =
  st_len :: nat
  st_token :: bool
  st_depth :: nat

definition scan_at :: "bool \<Rightarrow> nat \<Rightarrow> rune \<Rightarrow> str \<Rightarrow> scan_step" where
  "scan_at include_parens depth c cs =
     (let shown = (depth = 0 \<or> include_parens); s = c # cs
      in if c = 45 \<and> starts_with [45] cs then \<lparr>st_len = skip_line_comment s, st_token = False, st_depth = depth\<rparr>
         else if c = 47 \<and> starts_with [42] cs then \<lparr>st_len = skip_block_comment s, st_token = False, st_depth = depth\<rparr>
         else if c = 39 then \<lparr>st_len = 1 + skip_quoted 39 cs, st_token = False, st_depth = depth\<rparr>
         else if c = 34 then \<lparr>st_len = 1 + skip_quoted 34 cs, st_token = shown, st_depth = depth\<rparr>
         else if c = 36 \<and> skip_dollar_quoted s \<noteq> None then
           \<lparr>st_len = the (skip_dollar_quoted s), st_token = False, st_depth = depth\<rparr>
         else if is_space c then \<lparr>st_len = 1, st_token = False, st_depth = depth\<rparr>
         else if c = 40 then \<lparr>st_len = 1, st_token = shown, st_depth = depth + 1\<rparr>
         else if c = 41 then \<lparr>st_len = 1, st_token = (depth - 1 = 0 \<or> include_parens), st_depth = depth - 1\<rparr>
         else if c = 59 then \<lparr>st_len = 1, st_token = shown, st_depth = depth\<rparr>
         else if shown then \<lparr>st_len = 1 + word_rest cs, st_token = True, st_depth = depth\<rparr>
         else \<lparr>st_len = 1, st_token = False, st_depth = depth\<rparr>)"

lemma dollar_tag_length: "dollar_tag s = Some tag \<Longrightarrow> 0 < length tag \<and> length tag \<le> length s"
  by (auto simp: dollar_tag_def Let_def starts_with_iff split: list.splits if_splits)
    (metis add_Suc_right append_eq_conv_conj le_add1 length_append length_Cons takeWhile_dropWhile_id
      dropWhile_eq_drop length_takeWhile_le Suc_leI le_neq_implies_less length_drop diff_is_0_eq list.size(3) not_less_eq_eq)+

lemma scan_at_pos: "0 < st_len (scan_at inc depth c cs)"
proof -
  have "0 < the (skip_dollar_quoted (c # cs))" if "skip_dollar_quoted (c # cs) \<noteq> None"
    using that dollar_tag_length [of "c # cs"]
    by (auto simp: skip_dollar_quoted_def split: option.splits)
  then show ?thesis
    by (auto simp: scan_at_def Let_def skip_line_comment_def skip_block_comment_def split: option.splits)
qed

function scan_tokens :: "bool \<Rightarrow> nat \<Rightarrow> nat \<Rightarrow> str \<Rightarrow> (nat \<times> str) list" where
  "scan_tokens inc off depth [] = []"
| "scan_tokens inc off depth (c # cs) =
     (let st = scan_at inc depth c cs
      in (if st_token st then [(off, take (st_len st) (c # cs))] else []) @
         scan_tokens inc (off + st_len st) (st_depth st) (drop (st_len st) (c # cs)))"
  by pat_completeness auto
termination
  by (relation "measure (\<lambda>(inc, off, depth, s). length s)") (simp_all add: scan_at_pos)

definition scan_top_level_tokens :: "bool \<Rightarrow> str \<Rightarrow> (nat \<times> str) list" where
  "scan_top_level_tokens include_parens sql = scan_tokens include_parens 0 0 sql"

definition token_words :: "unicode \<Rightarrow> (nat \<times> str) list \<Rightarrow> str list" where
  "token_words U tokens = map (\<lambda>(pos, token). upper U token) tokens"

text \<open>Every token is the text at its offset, tokens do not overlap and are in order.\<close>

fun tokens_in :: "str \<Rightarrow> nat \<Rightarrow> (nat \<times> str) list \<Rightarrow> bool" where
  "tokens_in sql low [] = True"
| "tokens_in sql low ((pos, token) # rest) =
     (low \<le> pos \<and> token \<noteq> [] \<and> pos + length token \<le> length sql \<and>
      take (length token) (drop pos sql) = token \<and> tokens_in sql (pos + length token) rest)"

lemma tokens_in_mono: "low' \<le> low \<Longrightarrow> tokens_in sql low ts \<Longrightarrow> tokens_in sql low' ts"
  by (cases ts) auto

lemma scan_tokens_in: "s = drop off sql \<Longrightarrow> off \<le> length sql \<Longrightarrow> tokens_in sql off (scan_tokens inc off depth s)"
proof (induction inc off depth s rule: scan_tokens.induct)
  case (2 inc off depth c cs)
  define st where "st = scan_at inc depth c cs"
  let ?n = "min (st_len st) (length (c # cs))"
  have pos: "0 < st_len st" by (simp add: st_def scan_at_pos)
  have len: "length (c # cs) = length sql - off" using "2.prems"(1) by (metis length_drop)
  have rest: "tokens_in sql (off + ?n) (scan_tokens inc (off + st_len st) (st_depth st) (drop (st_len st) (c # cs)))"
  proof (cases "st_len st \<le> length (c # cs)")
    case True
    have "drop (st_len st) (c # cs) = drop (off + st_len st) sql"
      using "2.prems"(1) by (simp only: drop_drop add.commute)
    moreover have "off + st_len st \<le> length sql" using True len "2.prems"(2) by linarith
    ultimately have "tokens_in sql (off + st_len st) (scan_tokens inc (off + st_len st) (st_depth st) (drop (st_len st) (c # cs)))"
      unfolding st_def by (rule "2.IH" [OF refl])
    then show ?thesis using True by (simp add: min_def)
  next
    case False
    then have d: "drop (st_len st) (c # cs) = []" by simp
    show ?thesis unfolding d by simp
  qed
  have tok: "take (st_len st) (c # cs) = take ?n (drop off sql)"
    using "2.prems"(1) by (simp add: min_def)
  have n: "0 < ?n" "off + ?n \<le> length sql" using pos len "2.prems"(2) by (auto simp: min_def)
  have eq: "scan_tokens inc off depth (c # cs) =
      (if st_token st then [(off, take (st_len st) (c # cs))] else []) @
        scan_tokens inc (off + st_len st) (st_depth st) (drop (st_len st) (c # cs))"
    by (simp add: Let_def st_def)
  have lt: "length (take ?n (drop off sql)) = ?n" using n by simp
  show ?case
  proof (cases "st_token st")
    case True
    have "take ?n (drop off sql) \<noteq> []" using lt n(1) by (metis length_greater_0_conv)
    then show ?thesis unfolding eq using True rest n lt by (simp add: tok del: take_eq_Nil)
  next
    case False
    then show ?thesis unfolding eq using rest tokens_in_mono [of off "off + ?n"] by simp
  qed
qed simp

end
