(* ===== verification/SQL_Parser.thy ===== *)
theory SQL_Parser
  imports SQL_Lexer
begin

text \<open>
  Statement splitting and the extraction of tables, functions and the WHERE clause,
  src/src/core/agents/tools/sql_security.py. The recursion of the FROM extraction into
  parenthesized groups is by fuel; the length of the text is enough, because a group is shorter
  than the text that holds it.
\<close>

subsection \<open>Keywords\<close>

definition FROM_END_KEYWORDS :: "str list" where
  "FROM_END_KEYWORDS = map lit [''WHERE'', ''GROUP'', ''ORDER'', ''LIMIT'', ''OFFSET'', ''HAVING'', ''FETCH'',
     ''UNION'', ''INTERSECT'', ''EXCEPT'', ''RETURNING'', ''WINDOW'', ''FOR'', '';'']"

definition JOIN_MODIFIERS :: "str list" where
  "JOIN_MODIFIERS = map lit [''INNER'', ''LEFT'', ''RIGHT'', ''FULL'', ''CROSS'', ''OUTER'', ''NATURAL'']"

definition NON_FUNCTION_KEYWORDS :: "str list" where
  "NON_FUNCTION_KEYWORDS = map lit [''SELECT'', ''FROM'', ''WHERE'', ''GROUP'', ''ORDER'', ''BY'', ''HAVING'',
     ''LIMIT'', ''OFFSET'', ''FETCH'', ''UNION'', ''INTERSECT'', ''EXCEPT'', ''AND'', ''OR'', ''NOT'', ''IN'', ''IS'',
     ''NULL'', ''TRUE'', ''FALSE'', ''AS'', ''ON'', ''USING'', ''JOIN'', ''INNER'', ''LEFT'', ''RIGHT'', ''FULL'',
     ''CROSS'', ''OUTER'', ''NATURAL'', ''CASE'', ''WHEN'', ''THEN'', ''ELSE'', ''END'', ''DISTINCT'', ''BETWEEN'',
     ''LIKE'', ''ILIKE'', ''OVER'', ''PARTITION'', ''WINDOW'', ''EXISTS'', ''CAST'', ''ARRAY'', ''ROW'', ''SOME'',
     ''ANY'', ''ALL'', ''AT'', ''COLLATE'', ''VALUES'', ''WITH'', ''RETURNING'', ''FOR'', ''INTO'', ''LATERAL'',
     ''TABLESAMPLE'', ''PRIMARY'', ''KEY'']"

subsection \<open>Statements and identifiers\<close>

text \<open>\<open>sql[a:b]\<close> for \<open>0 <= a\<close>.\<close>

definition slice :: "'a list \<Rightarrow> nat \<Rightarrow> nat \<Rightarrow> 'a list" where
  "slice s a b = take (b - a) (drop a s)"

fun split_from :: "str \<Rightarrow> nat \<Rightarrow> (nat \<times> str) list \<Rightarrow> str list" where
  "split_from sql start [] =
     (let tail = strip (drop start sql) in if tail = [] then [] else [tail])"
| "split_from sql start ((pos, token) # rest) =
     (if token \<noteq> [59] then split_from sql start rest
      else let chunk = strip (slice sql start pos)
           in (if chunk = [] then [] else [chunk]) @ split_from sql (pos + 1) rest)"

definition split_top_level_statements :: "str \<Rightarrow> (nat \<times> str) list \<Rightarrow> str list" where
  "split_top_level_statements sql tokens = split_from sql 0 tokens"

definition unquote_identifier :: "str \<Rightarrow> str" where
  "unquote_identifier token =
     (if 2 \<le> length token \<and> hd token = 34 \<and> last token = 34
      then str_replace [34, 34] [34] (butlast (tl token)) else token)"

definition base_identifier :: "str \<Rightarrow> str" where
  "base_identifier ref = rev (takeWhile (\<lambda>c. c \<noteq> 46) (rev (unquote_identifier ref)))"

definition schema_of :: "unicode \<Rightarrow> str \<Rightarrow> str" where
  "schema_of U ref =
     (let s = unquote_identifier ref
      in if 46 \<in> set s then lower U (takeWhile (\<lambda>c. c \<noteq> 46) s) else [])"

subsection \<open>Parenthesized groups\<close>

text \<open>Characters from an opening parenthesis to just past its match, or to the end.\<close>

function matching_from :: "int \<Rightarrow> str \<Rightarrow> nat" where
  "matching_from depth [] = 0"
| "matching_from depth (c # cs) =
     (let s = c # cs;
          n = (if c = 45 \<and> starts_with [45] cs then skip_line_comment s
               else if c = 47 \<and> starts_with [42] cs then skip_block_comment s
               else if c = 39 then 1 + skip_quoted 39 cs
               else if c = 34 then 1 + skip_quoted 34 cs
               else if c = 36 \<and> skip_dollar_quoted s \<noteq> None then the (skip_dollar_quoted s)
               else 0)
      in if 0 < n then n + matching_from depth (drop n s)
         else if c = 40 then 1 + matching_from (depth + 1) cs
         else if c = 41 then (if depth - 1 = 0 then 1 else 1 + matching_from (depth - 1) cs)
         else 1 + matching_from depth cs)"
  by pat_completeness auto
termination
  by (relation "measure (\<lambda>(depth, s). length s)") (simp_all split: if_splits)

definition matching_paren :: "str \<Rightarrow> nat \<Rightarrow> nat" where
  "matching_paren sql open_index = open_index + min (matching_from 0 (drop open_index sql)) (length sql - open_index)"

definition contains_select_word :: "unicode \<Rightarrow> str \<Rightarrow> nat \<Rightarrow> nat \<Rightarrow> bool" where
  "contains_select_word U sql a b \<longleftrightarrow>
     search_word U (icase_starts U) [lit ''select''] None (slice sql a b) \<noteq> None"

subsection \<open>The FROM clause\<close>

record from_state =
  fs_aliases :: "(str \<times> str) list"
  fs_tables :: "str list"
  fs_subquery :: bool
  fs_function :: bool
  fs_spec :: "str list"
  fs_on :: bool
  fs_skip :: int
  fs_pending :: bool

definition from_start :: from_state where
  "from_start = \<lparr>fs_aliases = [], fs_tables = [], fs_subquery = False, fs_function = False, fs_spec = [],
     fs_on = False, fs_skip = - 1, fs_pending = False\<rparr>"

definition setdefault :: "str \<Rightarrow> str \<Rightarrow> (str \<times> str) list \<Rightarrow> (str \<times> str) list" where
  "setdefault k v m = (if k \<in> fst ` set m then m else m @ [(k, v)])"

definition finalize_spec :: "unicode \<Rightarrow> from_state \<Rightarrow> from_state" where
  "finalize_spec U st =
     (if fs_spec st = [] then st
      else
        let spec = (if upper U (last (fs_spec st)) = lit ''AS'' then butlast (fs_spec st) else fs_spec st)
        in case spec of
             [] \<Rightarrow> st\<lparr>fs_spec := []\<rparr>
           | ref # more_spec \<Rightarrow>
               let alias = (if more_spec = [] then [] else lower U (unquote_identifier (last spec)));
                   name = lower U (base_identifier ref)
               in if name = [] then st\<lparr>fs_spec := []\<rparr>
                  else st\<lparr>fs_spec := [], fs_tables := fs_tables st @ [name],
                         fs_aliases := setdefault name (if alias = [] then name else alias) (fs_aliases st)\<rparr>)"

definition add_missing :: "str list \<Rightarrow> str list \<Rightarrow> str list" where
  "add_missing ts acc = fold (\<lambda>t acc. if t \<in> set acc then acc else acc @ [t]) ts acc"

definition register_group ::
  "unicode \<Rightarrow> (str \<Rightarrow> from_state) \<Rightarrow> str \<Rightarrow> nat \<Rightarrow> nat \<Rightarrow> from_state \<Rightarrow> from_state" where
  "register_group U extract sql open_index end_index st =
     (if \<not> contains_select_word U sql open_index end_index then st
      else
        let inner = extract (slice sql (open_index + 1) (max (end_index - 1) (open_index + 1)))
        in st\<lparr>fs_subquery := True, fs_function := fs_function st \<or> fs_function inner,
              fs_aliases := fold (\<lambda>(t, a). setdefault t a) (fs_aliases inner) (fs_aliases st),
              fs_tables := add_missing (fs_tables inner) (fs_tables st)\<rparr>)"

text \<open>The loop over the tokens after FROM.\<close>

fun from_loop :: "unicode \<Rightarrow> (str \<Rightarrow> from_state) \<Rightarrow> str \<Rightarrow> (nat \<times> str) list \<Rightarrow> from_state \<Rightarrow> from_state" where
  "from_loop U extract sql [] st = finalize_spec U st"
| "from_loop U extract sql ((pos, token) # rest) st =
     (if int pos < fs_skip st then from_loop U extract sql rest st
      else if token = [41] then from_loop U extract sql rest (st\<lparr>fs_on := False\<rparr>)
      else if token = [40] then
        let end_index = matching_paren sql pos;
            st1 = finalize_spec U ((register_group U extract sql pos end_index st)\<lparr>fs_skip := int end_index\<rparr>)
        in from_loop U extract sql rest (st1\<lparr>fs_on := False, fs_pending := True\<rparr>)
      else if upper U token \<in> set FROM_END_KEYWORDS then finalize_spec U st
      else if upper U token = lit ''ON'' \<or> upper U token = lit ''USING'' then
        from_loop U extract sql rest ((finalize_spec U st)\<lparr>fs_on := True, fs_pending := False\<rparr>)
      else if upper U token \<in> set JOIN_MODIFIERS \<or> upper U token = lit ''JOIN'' \<or> token = [44] then
        from_loop U extract sql rest ((finalize_spec U st)\<lparr>fs_on := False, fs_pending := False\<rparr>)
      else if fs_on st then from_loop U extract sql rest st
      else if fs_pending st then
        from_loop U extract sql rest (if upper U token = lit ''AS'' then st else st\<lparr>fs_pending := False\<rparr>)
      else
        let st1 = st\<lparr>fs_spec := fs_spec st @ [token]\<rparr>
        in if rest \<noteq> [] \<and> snd (hd rest) = [40]
           then from_loop U extract sql rest ((finalize_spec U (st1\<lparr>fs_function := True\<rparr>))\<lparr>fs_on := True\<rparr>)
           else from_loop U extract sql rest st1)"

fun after_word :: "unicode \<Rightarrow> str \<Rightarrow> (nat \<times> str) list \<Rightarrow> (nat \<times> str) list option" where
  "after_word U w [] = None"
| "after_word U w ((pos, token) # rest) = (if upper U token = w then Some rest else after_word U w rest)"

fun extract_from :: "unicode \<Rightarrow> nat \<Rightarrow> str \<Rightarrow> from_state" where
  "extract_from U 0 sql = from_start"
| "extract_from U (Suc n) sql =
     (case after_word U (lit ''FROM'') (scan_top_level_tokens False sql) of
        None \<Rightarrow> from_start
      | Some rest \<Rightarrow> from_loop U (extract_from U n) sql rest from_start)"

definition extract_from_clause :: "unicode \<Rightarrow> str \<Rightarrow> from_state" where
  "extract_from_clause U sql = extract_from U (Suc (length sql)) sql"

subsection \<open>Functions and the WHERE clause\<close>

fun extract_functions :: "unicode \<Rightarrow> (nat \<times> str) list \<Rightarrow> str list" where
  "extract_functions U ((p1, t1) # (p2, t2) # rest) =
     (let name = base_identifier t1; more_names = extract_functions U ((p2, t2) # rest)
      in if t2 \<noteq> [40] \<or> name = [] \<or> upper U name \<in> set NON_FUNCTION_KEYWORDS \<or>
            upper U t1 \<in> set NON_FUNCTION_KEYWORDS
         then more_names else lower U name # more_names)"
| "extract_functions U ts = []"

definition WHERE_CLAUSE_ENDS :: "str list" where
  "WHERE_CLAUSE_ENDS = map lit [''group by'', ''order by'', ''limit'', ''having'', ''union'', ''intersect'', ''except'',
     ''offset'', ''fetch'']"

fun where_pos :: "unicode \<Rightarrow> (nat \<times> str) list \<Rightarrow> nat option" where
  "where_pos U [] = None"
| "where_pos U ((pos, token) # rest) = (if upper U token = lit ''WHERE'' then Some (pos + 5) else where_pos U rest)"

definition extract_where_clause :: "unicode \<Rightarrow> str \<Rightarrow> (nat \<times> str) list \<Rightarrow> str" where
  "extract_where_clause U sql tokens =
     (case where_pos U tokens of
        None \<Rightarrow> []
      | Some w \<Rightarrow>
          let low = lower U (drop w sql);
              end_index = fold (\<lambda>clause e. case find_str clause low of
                            Some p \<Rightarrow> if w + p < e then w + p else e | None \<Rightarrow> e) WHERE_CLAUSE_ENDS (length sql)
          in strip (slice sql w end_index))"

subsection \<open>parse_sql\<close>

record sql_parse_result =
  pr_is_select :: bool
  pr_table_names :: "str list"
  pr_table_aliases :: "(str \<times> str) list"
  pr_functions :: "str list"
  pr_where_clause :: str
  pr_original_sql :: str
  pr_parse_error :: str
  pr_statements :: "str list"
  pr_has_cte :: bool
  pr_has_compound :: bool
  pr_has_subquery :: bool
  pr_has_from_function :: bool
  pr_select_into :: bool
  pr_locking_clause :: bool

definition empty_parse :: "str \<Rightarrow> str list \<Rightarrow> sql_parse_result" where
  "empty_parse sql statements =
     \<lparr>pr_is_select = False, pr_table_names = [], pr_table_aliases = [], pr_functions = [], pr_where_clause = [],
      pr_original_sql = sql, pr_parse_error = lit ''empty query'', pr_statements = statements, pr_has_cte = False,
      pr_has_compound = False, pr_has_subquery = False, pr_has_from_function = False, pr_select_into = False,
      pr_locking_clause = False\<rparr>"

text \<open>\<open>dict.fromkeys\<close>: the first occurrences, in order.\<close>

definition unique :: "'a list \<Rightarrow> 'a list" where
  "unique xs = rev (remdups (rev xs))"

fun locking :: "str list \<Rightarrow> bool" where
  "locking (w1 # w2 # ws) =
     ((w1 = lit ''FOR'' \<and> w2 \<in> set (map lit [''UPDATE'', ''SHARE'', ''NO'', ''KEY''])) \<or> locking (w2 # ws))"
| "locking ws = False"

definition parse_sql :: "unicode \<Rightarrow> str \<Rightarrow> sql_parse_result" where
  "parse_sql U sql =
     (case split_top_level_statements sql (scan_top_level_tokens False sql) of
        [] \<Rightarrow> empty_parse sql []
      | first # others \<Rightarrow>
          let first_tokens = scan_top_level_tokens False first;
              words = token_words U first_tokens
          in case words of
               [] \<Rightarrow> empty_parse sql (first # others)
             | first_keyword # later \<Rightarrow>
                 let from = extract_from_clause U first
                 in \<lparr>pr_is_select = (first_keyword = lit ''SELECT''),
                     pr_table_names = unique (fs_tables from), pr_table_aliases = fs_aliases from,
                     pr_functions = unique (extract_functions U (scan_top_level_tokens True first)),
                     pr_where_clause = extract_where_clause U first first_tokens,
                     pr_original_sql = sql, pr_parse_error = [], pr_statements = first # others,
                     pr_has_cte = (first_keyword = lit ''WITH''),
                     pr_has_compound = list_ex (\<lambda>w. w \<in> set (map lit [''UNION'', ''INTERSECT'', ''EXCEPT''])) later,
                     pr_has_subquery = fs_subquery from, pr_has_from_function = fs_function from,
                     pr_select_into = (lit ''INTO'' \<in> set later), pr_locking_clause = locking words\<rparr>)"

end
