(* ===== verification/SQL_Guard.thy ===== *)
theory SQL_Guard
  imports SQL_Parser
begin

text \<open>
  The policy of src/src/core/agents/tools/sql_security.py: the configuration and its builders, the
  checks of \<open>validate_sql\<close>, with one constructor of \<open>sql_error\<close> per error the code
  appends (its arguments are what the message interpolates).
\<close>

subsection \<open>Configuration\<close>

record search_scope =
  sc_knowledge_base_id :: str
  sc_knowledge_ids :: "str list"
  sc_tag_ids :: "str list"

record sql_config =
  cf_min_length :: int
  cf_max_length :: int
  cf_check_input :: bool
  cf_check_select_only :: bool
  cf_check_single_statement :: bool
  cf_check_table_names :: bool
  cf_allowed_tables :: "str list"
  cf_check_function_names :: bool
  cf_allowed_functions :: "str list"
  cf_check_injection_risk :: bool
  cf_check_subqueries :: bool
  cf_check_ctes :: bool
  cf_check_system_columns :: bool
  cf_check_schema_access :: bool
  cf_check_dangerous_functions :: bool
  cf_enable_tenant_injection :: bool
  cf_tenant_id :: int
  cf_tables_with_tenant_id :: "str list"
  cf_enable_soft_delete :: bool
  cf_tables_with_deleted_at :: "str list"
  cf_enable_hidden_kb_filter :: bool
  cf_enable_chunk_enabled_filter :: bool
  cf_enable_search_scope :: bool
  cf_search_scope_kb_ids :: "str list"
  cf_search_scope_knowledge_ids :: "str list"
  cf_search_scopes :: "search_scope list"

definition default_config :: sql_config where
  "default_config = \<lparr>cf_min_length = 6, cf_max_length = 4096, cf_check_input = False, cf_check_select_only = False,
     cf_check_single_statement = False, cf_check_table_names = False, cf_allowed_tables = [],
     cf_check_function_names = False, cf_allowed_functions = [], cf_check_injection_risk = False,
     cf_check_subqueries = False, cf_check_ctes = False, cf_check_system_columns = False,
     cf_check_schema_access = False, cf_check_dangerous_functions = False, cf_enable_tenant_injection = False,
     cf_tenant_id = 0, cf_tables_with_tenant_id = [], cf_enable_soft_delete = False, cf_tables_with_deleted_at = [],
     cf_enable_hidden_kb_filter = False, cf_enable_chunk_enabled_filter = False, cf_enable_search_scope = False,
     cf_search_scope_kb_ids = [], cf_search_scope_knowledge_ids = [], cf_search_scopes = []\<rparr>"

definition DEFAULT_TENANT_TABLES :: "str list" where
  "DEFAULT_TENANT_TABLES = map lit [''knowledge_bases'', ''knowledges'', ''chunks'']"

definition DEFAULT_SOFT_DELETE_TABLES :: "str list" where
  "DEFAULT_SOFT_DELETE_TABLES = map lit [''knowledge_bases'', ''knowledges'', ''chunks'']"

definition DANGEROUS_FUNCTION_PREFIXES :: "str list" where
  "DANGEROUS_FUNCTION_PREFIXES = map lit [''pg_'', ''lo_'', ''dblink'', ''file_'', ''copy_'', ''binary_'']"

definition DANGEROUS_FUNCTIONS :: "str list" where
  "DANGEROUS_FUNCTIONS = map lit [''current_setting'', ''set_config'', ''query_to_xml'', ''xpath'', ''xmlparse'',
     ''xmlroot'', ''xmlelement'', ''xmlforest'', ''xmlconcat'', ''xmlagg'', ''xmlpi'', ''xmlcomment'', ''xmlexists'',
     ''xml_is_well_formed'', ''xpath_exists'', ''table_to_xml'', ''cursor_to_xml'', ''database_to_xml'',
     ''schema_to_xml'', ''txid_current'', ''txid_current_snapshot'', ''txid_snapshot_xmin'', ''txid_snapshot_xmax'',
     ''encode'', ''decode'', ''create_extension'', ''copy'', ''copy_to'', ''copy_from'', ''pg_copy_to'', ''pg_dump'',
     ''pg_dumpall'', ''pg_restore'', ''pg_basebackup'', ''pg_terminate_backend'', ''pg_cancel_backend'',
     ''pg_rotate_logfile'', ''pg_advisory_lock'', ''pg_advisory_unlock'', ''pg_advisory_lock_shared'',
     ''pg_advisory_unlock_shared'', ''pg_try_advisory_lock'', ''pg_try_advisory_lock_shared'', ''pg_start_backup'',
     ''pg_stop_backup'', ''pg_switch_wal'', ''pg_create_restore_point'', ''postgres_fdw_handler'',
     ''file_fdw_handler'', ''plpgsql_call_handler'', ''plpython_call_handler'', ''plperl_call_handler'', ''pg_catalog'',
     ''information_schema'', ''read_text'', ''read_blob'', ''read_csv'', ''read_csv_auto'', ''read_parquet'',
     ''read_json'', ''read_json_auto'', ''read_ndjson'', ''read_ndjson_auto'', ''read_json_objects'', ''read_xlsx'',
     ''sniff_csv'', ''glob'', ''st_read'', ''st_read_meta'']"

definition DEFAULT_SAFE_FUNCTIONS :: "str list" where
  "DEFAULT_SAFE_FUNCTIONS = map lit [''count'', ''sum'', ''avg'', ''min'', ''max'', ''array_agg'', ''string_agg'',
     ''bool_and'', ''bool_or'', ''json_agg'', ''jsonb_agg'', ''json_object_agg'', ''jsonb_object_agg'', ''coalesce'',
     ''nullif'', ''greatest'', ''least'', ''abs'', ''ceil'', ''floor'', ''round'', ''length'', ''lower'', ''upper'',
     ''trim'', ''ltrim'', ''rtrim'', ''substring'', ''concat'', ''concat_ws'', ''replace'', ''left'', ''right'', ''now'',
     ''current_date'', ''current_timestamp'', ''date_trunc'', ''extract'', ''to_char'', ''to_date'', ''to_timestamp'',
     ''date_part'', ''age'']"

definition SYSTEM_COLUMNS :: "str list" where
  "SYSTEM_COLUMNS = map lit [''xmin'', ''xmax'', ''cmin'', ''cmax'', ''ctid'', ''tableoid'']"

definition with_input_validation :: "int \<Rightarrow> int \<Rightarrow> sql_config \<Rightarrow> sql_config" where
  "with_input_validation min_length max_length cfg =
     cfg\<lparr>cf_check_input := True, cf_min_length := min_length, cf_max_length := max_length\<rparr>"

definition with_select_only :: "sql_config \<Rightarrow> sql_config" where
  "with_select_only cfg = cfg\<lparr>cf_check_select_only := True\<rparr>"

definition with_single_statement :: "sql_config \<Rightarrow> sql_config" where
  "with_single_statement cfg = cfg\<lparr>cf_check_single_statement := True\<rparr>"

definition with_allowed_tables :: "unicode \<Rightarrow> str list \<Rightarrow> sql_config \<Rightarrow> sql_config" where
  "with_allowed_tables U tables cfg =
     cfg\<lparr>cf_check_table_names := True, cf_allowed_tables := map (lower U) tables\<rparr>"

definition with_allowed_functions :: "unicode \<Rightarrow> str list \<Rightarrow> sql_config \<Rightarrow> sql_config" where
  "with_allowed_functions U functions cfg =
     cfg\<lparr>cf_check_function_names := True, cf_allowed_functions := map (lower U) functions\<rparr>"

definition with_default_safe_functions :: "sql_config \<Rightarrow> sql_config" where
  "with_default_safe_functions cfg =
     cfg\<lparr>cf_check_function_names := True, cf_allowed_functions := DEFAULT_SAFE_FUNCTIONS\<rparr>"

definition with_no_subqueries :: "sql_config \<Rightarrow> sql_config" where
  "with_no_subqueries cfg = cfg\<lparr>cf_check_subqueries := True\<rparr>"

definition with_no_ctes :: "sql_config \<Rightarrow> sql_config" where
  "with_no_ctes cfg = cfg\<lparr>cf_check_ctes := True\<rparr>"

definition with_no_system_columns :: "sql_config \<Rightarrow> sql_config" where
  "with_no_system_columns cfg = cfg\<lparr>cf_check_system_columns := True\<rparr>"

definition with_no_schema_access :: "sql_config \<Rightarrow> sql_config" where
  "with_no_schema_access cfg = cfg\<lparr>cf_check_schema_access := True\<rparr>"

definition with_no_dangerous_functions :: "sql_config \<Rightarrow> sql_config" where
  "with_no_dangerous_functions cfg = cfg\<lparr>cf_check_dangerous_functions := True\<rparr>"

definition with_tenant_isolation :: "unicode \<Rightarrow> int \<Rightarrow> str list \<Rightarrow> sql_config \<Rightarrow> sql_config" where
  "with_tenant_isolation U tenant_id tables cfg =
     cfg\<lparr>cf_enable_tenant_injection := True, cf_tenant_id := tenant_id,
         cf_tables_with_tenant_id := (if tables = [] then DEFAULT_TENANT_TABLES else map (lower U) tables)\<rparr>"

definition with_soft_delete_filter :: "unicode \<Rightarrow> str list \<Rightarrow> sql_config \<Rightarrow> sql_config" where
  "with_soft_delete_filter U tables cfg =
     cfg\<lparr>cf_enable_soft_delete := True,
         cf_tables_with_deleted_at := (if tables = [] then DEFAULT_SOFT_DELETE_TABLES else map (lower U) tables)\<rparr>"

definition with_hidden_kb_filter :: "sql_config \<Rightarrow> sql_config" where
  "with_hidden_kb_filter cfg = cfg\<lparr>cf_enable_hidden_kb_filter := True\<rparr>"

definition with_chunk_enabled_filter :: "sql_config \<Rightarrow> sql_config" where
  "with_chunk_enabled_filter cfg = cfg\<lparr>cf_enable_chunk_enabled_filter := True\<rparr>"

definition with_injection_risk_check :: "sql_config \<Rightarrow> sql_config" where
  "with_injection_risk_check cfg = cfg\<lparr>cf_check_injection_risk := True\<rparr>"

definition with_search_scope_filter :: "str list \<Rightarrow> str list \<Rightarrow> sql_config \<Rightarrow> sql_config" where
  "with_search_scope_filter kb_ids knowledge_ids cfg =
     (if kb_ids = [] then cfg
      else cfg\<lparr>cf_enable_search_scope := True, cf_search_scope_kb_ids := unique kb_ids,
               cf_search_scope_knowledge_ids := unique knowledge_ids\<rparr>)"

definition with_search_scopes :: "search_scope list \<Rightarrow> sql_config \<Rightarrow> sql_config" where
  "with_search_scopes scopes cfg =
     (if scopes = [] then cfg else cfg\<lparr>cf_enable_search_scope := True, cf_search_scopes := scopes\<rparr>)"

definition with_security_defaults :: "unicode \<Rightarrow> int \<Rightarrow> sql_config \<Rightarrow> sql_config" where
  "with_security_defaults U tenant_id cfg =
     with_allowed_tables U (map lit [''knowledge_bases'', ''knowledges'', ''chunks''])
       (with_tenant_isolation U tenant_id []
         (with_default_safe_functions
           (with_no_dangerous_functions
             (with_no_schema_access
               (with_no_system_columns
                 (with_no_ctes
                   (with_no_subqueries
                     (with_single_statement
                       (with_select_only
                         (with_input_validation 6 4096 cfg))))))))))"

subsection \<open>Errors\<close>

datatype sql_error =
    InvalidCharacter
  | QueryTooShort int
  | QueryTooLong int
  | ParseError str
  | EmptyQuery
  | MultipleStatements nat
  | NotSelectStatement
  | CompoundQuery
  | WithClause
  | SelectInto
  | LockingClause
  | SubqueryUsed
  | FromFunction
  | SchemaAccess str
  | TableNotAllowed str "str list"
  | SystemColumn str
  | PgName str
  | SchemaFunction str
  | DangerousPrefix str
  | DangerousFunction str
  | FunctionNotAllowed str
  | AlwaysTrue str
  | AlwaysFalse str
  | OrAlwaysTrue str

definition check_input :: "str \<Rightarrow> sql_config \<Rightarrow> sql_error list" where
  "check_input sql cfg =
     (if 0 \<in> set sql then [InvalidCharacter]
      else if int (length sql) < cf_min_length cfg then [QueryTooShort (cf_min_length cfg)]
      else if cf_max_length cfg < int (length sql) then [QueryTooLong (cf_max_length cfg)]
      else [])"

subsection \<open>Statement checks\<close>

definition schema_qualified_refs :: "(str \<times> str) list \<Rightarrow> str list" where
  "schema_qualified_refs aliases = filter (\<lambda>alias. 46 \<in> set alias) (map snd aliases)"

text \<open>\<open>[A-Za-z_][A-Za-z0-9_]*\<close>: the identifiers of a text, in order.\<close>

function find_words :: "str \<Rightarrow> str list" where
  "find_words [] = []"
| "find_words (c # cs) =
     (if ident_start c
      then (c # takeWhile ident_char cs) # find_words (dropWhile ident_char cs)
      else find_words cs)"
  by pat_completeness auto
termination
  by (relation "measure length") (auto simp: less_Suc_eq_le length_dropWhile_le)

definition column_references :: "unicode \<Rightarrow> str \<Rightarrow> str list" where
  "column_references U sql =
     filter (\<lambda>name. starts_with (lit ''pg_'') name \<or> name \<in> set SYSTEM_COLUMNS) (map (lower U) (find_words sql))"

definition function_errors :: "unicode \<Rightarrow> sql_config \<Rightarrow> str \<Rightarrow> sql_error list" where
  "function_errors U cfg name =
     (let schema = schema_of U name; func_name = base_identifier name
      in (if cf_check_schema_access cfg \<and> schema \<noteq> [] \<and> schema \<notin> {lit ''pg_catalog'', lit ''public''}
          then [SchemaFunction schema] else []) @
         (if cf_check_dangerous_functions cfg
          then if list_ex (\<lambda>p. starts_with p func_name) DANGEROUS_FUNCTION_PREFIXES then [DangerousPrefix func_name]
               else if func_name \<in> set DANGEROUS_FUNCTIONS then [DangerousFunction func_name] else []
          else []) @
         (if cf_check_function_names cfg \<and> func_name \<notin> set (cf_allowed_functions cfg)
          then [FunctionNotAllowed func_name] else []))"

definition validate_statement :: "unicode \<Rightarrow> sql_config \<Rightarrow> sql_parse_result \<Rightarrow> sql_error list" where
  "validate_statement U cfg p =
     (if pr_has_compound p then [CompoundQuery] else []) @
     (if cf_check_ctes cfg \<and> pr_has_cte p then [WithClause] else []) @
     (if pr_select_into p then [SelectInto] else []) @
     (if pr_locking_clause p then [LockingClause] else []) @
     (if cf_check_subqueries cfg \<and> pr_has_subquery p then [SubqueryUsed] else []) @
     (if pr_has_from_function p then [FromFunction] else []) @
     (if cf_check_schema_access cfg
      then map (\<lambda>ref. SchemaAccess (schema_of U ref))
             (filter (\<lambda>ref. schema_of U ref \<noteq> [] \<and> schema_of U ref \<noteq> lit ''public'')
                (schema_qualified_refs (pr_table_aliases p)))
      else []) @
     (if cf_check_table_names cfg
      then map (\<lambda>t. TableNotAllowed t (cf_allowed_tables cfg))
             (filter (\<lambda>t. t \<notin> set (cf_allowed_tables cfg)) (pr_table_names p))
      else []) @
     (if cf_check_system_columns cfg
      then map (\<lambda>name. if name \<in> set SYSTEM_COLUMNS then SystemColumn name else PgName name)
             (column_references U (pr_original_sql p))
      else []) @
     concat (map (function_errors U cfg) (pr_functions p))"

subsection \<open>Injection patterns\<close>

text \<open>The fragment of regular expressions the patterns use. A match of \<open>r\<close> at the suffix \<open>s\<close>
  of a text of length \<open>n\<close> leaves one of \<open>rx_rests r n s\<close>.\<close>

datatype rx =
    Chars "rune list"
  | Space
  | Spaces
  | Begin
  | End
  | Cat rx rx
  | Alt rx rx

fun space_rests :: "str \<Rightarrow> str list" where
  "space_rests [] = [[]]"
| "space_rests (c # cs) = (c # cs) # (if is_space c then space_rests cs else [])"

fun rx_rests :: "rx \<Rightarrow> nat \<Rightarrow> str \<Rightarrow> str list" where
  "rx_rests (Chars w) n s = (if starts_with w s then [drop (length w) s] else [])"
| "rx_rests Space n s = (case s of [] \<Rightarrow> [] | c # cs \<Rightarrow> if is_space c then [cs] else [])"
| "rx_rests Spaces n s = space_rests s"
| "rx_rests Begin n s = (if length s = n then [s] else [])"
| "rx_rests End n s = (if s = [] then [s] else [])"
| "rx_rests (Cat a b) n s = concat (map (rx_rests b n) (rx_rests a n s))"
| "rx_rests (Alt a b) n s = rx_rests a n s @ rx_rests b n s"

fun tails :: "'a list \<Rightarrow> 'a list list" where
  "tails [] = [[]]"
| "tails (x # xs) = (x # xs) # tails xs"

definition rx_search :: "rx \<Rightarrow> str \<Rightarrow> bool" where
  "rx_search r s \<longleftrightarrow> list_ex (\<lambda>t. rx_rests r (length s) t \<noteq> []) (tails s)"

definition rx_alts :: "rx list \<Rightarrow> rx" where
  "rx_alts rs = foldr Alt (butlast rs) (last rs)"

definition rx_cats :: "rx list \<Rightarrow> rx" where
  "rx_cats rs = foldr Cat (butlast rs) (last rs)"

text \<open>\<open>a\s*=\s*b\<close>, and the frame \<open>(^|\s|\()(...)(\s|\)|$|and|or)\<close>.\<close>

definition rx_equal :: "string \<Rightarrow> string \<Rightarrow> rx" where
  "rx_equal a b = rx_cats [Chars (lit a), Spaces, Chars (lit ''=''), Spaces, Chars (lit b)]"

definition rx_framed :: "rx list \<Rightarrow> rx" where
  "rx_framed rs =
     rx_cats [rx_alts [Begin, Space, Chars (lit ''('')], rx_alts rs,
       rx_alts [Space, Chars (lit '')''), End, Chars (lit ''and''), Chars (lit ''or'')]]"

definition QUOTE :: string where "QUOTE = [CHR 39]"
definition DQUOTE :: string where "DQUOTE = [CHR 34]"

definition rx_blank_equal :: "string \<Rightarrow> rx" where
  "rx_blank_equal q =
     rx_cats [Chars (lit q), Spaces, Chars (lit q), Spaces, Chars (lit ''=''), Spaces, Chars (lit q), Spaces, Chars (lit q)]"

definition SQL_ALWAYS_TRUE_PATTERNS :: "rx list" where
  "SQL_ALWAYS_TRUE_PATTERNS =
     [rx_framed [rx_equal ''1'' ''1'', rx_equal (QUOTE @ ''1'' @ QUOTE) (QUOTE @ ''1'' @ QUOTE),
        rx_equal (DQUOTE @ ''1'' @ DQUOTE) (DQUOTE @ ''1'' @ DQUOTE)],
      rx_framed [rx_equal ''0'' ''0'', rx_equal (QUOTE @ ''0'' @ QUOTE) (QUOTE @ ''0'' @ QUOTE),
        rx_equal (DQUOTE @ ''0'' @ DQUOTE) (DQUOTE @ ''0'' @ DQUOTE)],
      rx_framed [Chars (lit ''true'')],
      rx_framed [rx_blank_equal QUOTE, rx_blank_equal DQUOTE]]"

definition SQL_ALWAYS_FALSE_PATTERNS :: "rx list" where
  "SQL_ALWAYS_FALSE_PATTERNS =
     [rx_framed [rx_equal ''1'' ''0'', rx_equal ''0'' ''1'', rx_equal (QUOTE @ ''1'' @ QUOTE) (QUOTE @ ''0'' @ QUOTE),
        rx_equal (DQUOTE @ ''1'' @ DQUOTE) (DQUOTE @ ''0'' @ DQUOTE)],
      rx_framed [Chars (lit ''false'')]]"

definition RE_OR_ALWAYS_TRUE :: rx where
  "RE_OR_ALWAYS_TRUE =
     rx_cats [Chars (lit ''or''), Space, Spaces,
       rx_alts [rx_equal ''1'' ''1'', rx_equal (QUOTE @ ''1'' @ QUOTE) (QUOTE @ ''1'' @ QUOTE), Chars (lit ''true'')]]"

text \<open>\<open>re.sub("\s+", " ", s)\<close>.\<close>

fun collapse_spaces :: "bool \<Rightarrow> str \<Rightarrow> str" where
  "collapse_spaces after [] = []"
| "collapse_spaces after (c # cs) =
     (if is_space c then (if after then [] else [32]) @ collapse_spaces True cs
      else c # collapse_spaces False cs)"

definition check_injection_risks :: "unicode \<Rightarrow> str \<Rightarrow> sql_error list" where
  "check_injection_risks U where_clause =
     (if where_clause = [] then []
      else
        let normalized = collapse_spaces False (lower U (strip where_clause))
        in map (\<lambda>r. AlwaysTrue where_clause) (filter (\<lambda>r. rx_search r normalized) SQL_ALWAYS_TRUE_PATTERNS) @
           map (\<lambda>r. AlwaysFalse where_clause) (filter (\<lambda>r. rx_search r normalized) SQL_ALWAYS_FALSE_PATTERNS) @
           (if rx_search RE_OR_ALWAYS_TRUE normalized then [OrAlwaysTrue where_clause] else []))"

subsection \<open>validate_sql\<close>

text \<open>The result is valid when the list of errors is empty.\<close>

definition validate_sql :: "unicode \<Rightarrow> str \<Rightarrow> sql_config \<Rightarrow> sql_error list" where
  "validate_sql U sql cfg =
     (if cf_check_input cfg \<and> check_input sql cfg \<noteq> [] then check_input sql cfg
      else
        let p = parse_sql U sql
        in if pr_parse_error p \<noteq> [] then [ParseError (pr_parse_error p)]
           else if pr_statements p = [] then [EmptyQuery]
           else if cf_check_single_statement cfg \<and> 1 < length (pr_statements p)
           then [MultipleStatements (length (pr_statements p))]
           else if cf_check_select_only cfg \<and> \<not> pr_is_select p then [NotSelectStatement]
           else (if pr_is_select p then validate_statement U cfg p else []) @
                (if cf_check_injection_risk cfg \<and> pr_is_select p then check_injection_risks U (pr_where_clause p) else []))"

end
