(* ===== verification/SQL_Rewrite.thy ===== *)
theory SQL_Rewrite
  imports SQL_Guard
begin

text \<open>
  The secure rewriting of src/src/core/agents/tools/sql_security.py: the injection of one filter
  clause, the tenant, soft-delete, hidden knowledge base, enabled-chunk and search-scope filters,
  and \<open>validate_and_secure_sql\<close>.
\<close>

subsection \<open>Injection of a filter\<close>

definition blank :: "rune \<Rightarrow> bool" where
  "blank c \<longleftrightarrow> c \<in> {32, 9, 13, 10}"

definition lstrip_blank :: "str \<Rightarrow> str" where
  "lstrip_blank s = dropWhile blank s"

definition rstrip_blank :: "str \<Rightarrow> str" where
  "rstrip_blank s = rev (dropWhile blank (rev s))"

text \<open>\<open>\bWHERE\b\<close>, as the code has it without \<open>re.IGNORECASE\<close>, and the tail clauses.\<close>

definition find_where :: "unicode \<Rightarrow> str \<Rightarrow> nat option" where
  "find_where U sql = search_word U starts_with [lit ''WHERE''] None sql"

definition TAIL_CLAUSES :: "str list" where
  "TAIL_CLAUSES = map lit [''GROUP BY'', ''ORDER BY'', ''LIMIT'', ''OFFSET'', ''HAVING'', ''FETCH'']"

definition find_tail :: "unicode \<Rightarrow> str \<Rightarrow> nat option" where
  "find_tail U sql = search_word U (icase_starts U) TAIL_CLAUSES None sql"

definition inject_and_conditions :: "unicode \<Rightarrow> str \<Rightarrow> str \<Rightarrow> str" where
  "inject_and_conditions U sql filter0 =
     (let filter_clause = strip filter0
      in if filter_clause = [] then sql
         else case find_where U sql of
           Some w \<Rightarrow>
             let rest = drop (w + 5) sql
             in (case find_tail U rest of
                   None \<Rightarrow> take w sql @ lit ''WHERE '' @ filter_clause @ lit '' AND ('' @ strip rest @ lit '')''
                 | Some t \<Rightarrow>
                     take w sql @ lit ''WHERE '' @ filter_clause @ lit '' AND ('' @ strip (take t rest) @ lit '') '' @
                       lstrip_blank (drop t rest))
         | None \<Rightarrow>
             (case find_tail U sql of
                Some t \<Rightarrow> rstrip_blank (take t sql) @ lit '' WHERE '' @ filter_clause @ lit '' '' @ lstrip_blank (drop t sql)
              | None \<Rightarrow> sql @ lit '' WHERE '' @ filter_clause))"

subsection \<open>The filters\<close>

fun join :: "str \<Rightarrow> str list \<Rightarrow> str" where
  "join sep [] = []"
| "join sep [x] = x"
| "join sep (x # y # ys) = x @ sep @ join sep (y # ys)"

definition int_str :: "int \<Rightarrow> str" where
  "int_str n = (if n < 0 then 45 # decimal_digits (nat (- n)) else decimal_digits (nat n))"

definition quote_sql_string :: "str \<Rightarrow> str" where
  "quote_sql_string value0 = [39] @ str_replace [39] [39, 39] value0 @ [39]"

definition quoted_list :: "str list \<Rightarrow> str" where
  "quoted_list values = join (lit '', '') (map quote_sql_string values)"

definition and_all :: "unicode \<Rightarrow> str \<Rightarrow> str list \<Rightarrow> str" where
  "and_all U sql conditions =
     (if conditions = [] then sql else inject_and_conditions U sql (join (lit '' AND '') conditions))"

definition tenant_condition :: "sql_config \<Rightarrow> str \<times> str \<Rightarrow> str" where
  "tenant_condition cfg ta =
     (case ta of (table, alias) \<Rightarrow>
        if table = lit ''tenants'' then alias @ lit ''.id = '' @ int_str (cf_tenant_id cfg)
        else alias @ lit ''.tenant_id = '' @ int_str (cf_tenant_id cfg))"

definition inject_tenant_conditions :: "unicode \<Rightarrow> sql_config \<Rightarrow> (str \<times> str) list \<Rightarrow> str \<Rightarrow> str" where
  "inject_tenant_conditions U cfg aliases sql =
     (if \<not> cf_enable_tenant_injection cfg then sql
      else and_all U sql
        (map (tenant_condition cfg) (filter (\<lambda>(t, a). t \<in> set (cf_tables_with_tenant_id cfg)) aliases)))"

definition inject_soft_delete_conditions :: "unicode \<Rightarrow> sql_config \<Rightarrow> (str \<times> str) list \<Rightarrow> str \<Rightarrow> str" where
  "inject_soft_delete_conditions U cfg aliases sql =
     (if \<not> cf_enable_soft_delete cfg then sql
      else and_all U sql
        (map (\<lambda>(t, a). a @ lit ''.deleted_at IS NULL'')
           (filter (\<lambda>(t, a). t \<in> set (cf_tables_with_deleted_at cfg)) aliases)))"

text \<open>\<open>aliases.get(table)\<close>, an empty alias counting as none.\<close>

definition alias_of :: "str \<Rightarrow> (str \<times> str) list \<Rightarrow> str option" where
  "alias_of table aliases =
     (case map_of aliases table of None \<Rightarrow> None | Some a \<Rightarrow> if a = [] then None else Some a)"

definition inject_hidden_kb_filter :: "unicode \<Rightarrow> sql_config \<Rightarrow> (str \<times> str) list \<Rightarrow> str \<Rightarrow> str" where
  "inject_hidden_kb_filter U cfg aliases sql =
     (if \<not> cf_enable_hidden_kb_filter cfg then sql
      else case alias_of (lit ''knowledge_bases'') aliases of
             None \<Rightarrow> sql
           | Some a \<Rightarrow> inject_and_conditions U sql (a @ lit ''.is_temporary = false''))"

definition inject_chunk_enabled_filter :: "unicode \<Rightarrow> sql_config \<Rightarrow> (str \<times> str) list \<Rightarrow> str \<Rightarrow> str" where
  "inject_chunk_enabled_filter U cfg aliases sql =
     (if \<not> cf_enable_chunk_enabled_filter cfg then sql
      else case alias_of (lit ''chunks'') aliases of
             None \<Rightarrow> sql
           | Some a \<Rightarrow> inject_and_conditions U sql (a @ lit ''.is_enabled = true''))"

definition build_knowledge_base_scope_condition :: "str \<Rightarrow> search_scope list \<Rightarrow> str" where
  "build_knowledge_base_scope_condition alias scopes =
     (let kb_ids = unique (filter (\<lambda>i. i \<noteq> []) (map sc_knowledge_base_id scopes))
      in if kb_ids = [] then [] else alias @ lit ''.id IN ('' @ quoted_list kb_ids @ lit '')'')"

definition build_scope_clause :: "str \<Rightarrow> str \<Rightarrow> search_scope \<Rightarrow> str" where
  "build_scope_clause alias column scope =
     (if sc_knowledge_base_id scope = [] then []
      else
        let conditions =
              [alias @ lit ''.knowledge_base_id = '' @ quote_sql_string (sc_knowledge_base_id scope)] @
              (if sc_knowledge_ids scope = [] then []
               else [alias @ lit ''.'' @ column @ lit '' IN ('' @ quoted_list (sc_knowledge_ids scope) @ lit '')'']) @
              (if sc_tag_ids scope = [] then []
               else [lit ''EXISTS (SELECT 1 FROM knowledge_tag_relations ktr WHERE ktr.knowledge_id = '' @ alias @
                       lit ''.'' @ column @ lit '' AND ktr.tag_id IN ('' @ quoted_list (sc_tag_ids scope) @ lit ''))''])
        in if length conditions = 1 then hd conditions
           else lit ''('' @ join (lit '' AND '') conditions @ lit '')'')"

definition build_document_scope_condition :: "str \<Rightarrow> str \<Rightarrow> search_scope list \<Rightarrow> str" where
  "build_document_scope_condition alias column scopes =
     (case filter (\<lambda>c. c \<noteq> []) (map (build_scope_clause alias column) scopes) of
        [] \<Rightarrow> []
      | [c] \<Rightarrow> c
      | clauses \<Rightarrow> lit ''('' @ join (lit '' OR '') clauses @ lit '')'')"

definition structured_conditions :: "search_scope list \<Rightarrow> (str \<times> str) list \<Rightarrow> str list" where
  "structured_conditions scopes aliases =
     filter (\<lambda>c. c \<noteq> [])
       ((case alias_of (lit ''knowledge_bases'') aliases of None \<Rightarrow> []
         | Some a \<Rightarrow> [build_knowledge_base_scope_condition a scopes]) @
        (case alias_of (lit ''knowledges'') aliases of None \<Rightarrow> []
         | Some a \<Rightarrow> [build_document_scope_condition a (lit ''id'') scopes]) @
        (case alias_of (lit ''chunks'') aliases of None \<Rightarrow> []
         | Some a \<Rightarrow> [build_document_scope_condition a (lit ''knowledge_id'') scopes]))"

definition plain_conditions :: "sql_config \<Rightarrow> (str \<times> str) list \<Rightarrow> str list" where
  "plain_conditions cfg aliases =
     (let kbs = quoted_list (cf_search_scope_kb_ids cfg);
          kids = (\<lambda>a column. if cf_search_scope_knowledge_ids cfg = [] then []
                   else [a @ lit ''.'' @ column @ lit '' IN ('' @ quoted_list (cf_search_scope_knowledge_ids cfg) @ lit '')''])
      in (case alias_of (lit ''knowledge_bases'') aliases of None \<Rightarrow> []
          | Some a \<Rightarrow> [a @ lit ''.id IN ('' @ kbs @ lit '')'']) @
         (case alias_of (lit ''knowledges'') aliases of None \<Rightarrow> []
          | Some a \<Rightarrow> [a @ lit ''.knowledge_base_id IN ('' @ kbs @ lit '')''] @ kids a (lit ''id'')) @
         (case alias_of (lit ''chunks'') aliases of None \<Rightarrow> []
          | Some a \<Rightarrow> [a @ lit ''.knowledge_base_id IN ('' @ kbs @ lit '')''] @ kids a (lit ''knowledge_id'')))"

definition inject_search_scope_conditions :: "unicode \<Rightarrow> sql_config \<Rightarrow> (str \<times> str) list \<Rightarrow> str \<Rightarrow> str" where
  "inject_search_scope_conditions U cfg aliases sql =
     (if \<not> cf_enable_search_scope cfg then sql
      else if cf_search_scopes cfg \<noteq> [] then and_all U sql (structured_conditions (cf_search_scopes cfg) aliases)
      else if cf_search_scope_kb_ids cfg = [] then sql
      else and_all U sql (plain_conditions cfg aliases))"

subsection \<open>validate_and_secure_sql\<close>

definition table_alias_map :: "unicode \<Rightarrow> str \<Rightarrow> (str \<times> str) list" where
  "table_alias_map U sql = pr_table_aliases (parse_sql U sql)"

definition secure_sql :: "unicode \<Rightarrow> sql_config \<Rightarrow> (str \<times> str) list \<Rightarrow> str \<Rightarrow> str" where
  "secure_sql U cfg aliases sql =
     inject_search_scope_conditions U cfg aliases
       (inject_chunk_enabled_filter U cfg aliases
         (inject_hidden_kb_filter U cfg aliases
           (inject_soft_delete_conditions U cfg aliases
             (inject_tenant_conditions U cfg aliases sql))))"

definition validate_and_secure_sql :: "unicode \<Rightarrow> str \<Rightarrow> sql_config \<Rightarrow> str \<times> sql_error list" where
  "validate_and_secure_sql U sql cfg =
     (case validate_sql U sql cfg of
        e # es \<Rightarrow> ([], e # es)
      | [] \<Rightarrow>
          if cf_enable_tenant_injection cfg \<or> cf_enable_soft_delete cfg \<or> cf_enable_hidden_kb_filter cfg \<or>
             cf_enable_chunk_enabled_filter cfg \<or> cf_enable_search_scope cfg
          then (secure_sql U cfg (table_alias_map U sql) sql, [])
          else (sql, []))"

end
