(* ===== verification/SQL_Filters.thy ===== *)
theory SQL_Filters
  imports SQL_Properties
begin

text \<open>
  How the filters of src/src/core/agents/tools/sql_security.py accumulate in the WHERE clause, and
  that a quoted value cannot leave its literal.
\<close>

subsection \<open>Searching across concatenations\<close>

definition nonword :: "unicode \<Rightarrow> rune option \<Rightarrow> bool" where
  "nonword U a \<longleftrightarrow> (case a of None \<Rightarrow> True | Some c \<Rightarrow> \<not> word_char U c)"

lemma edge_iff: "edge U a b \<longleftrightarrow> nonword U a \<noteq> nonword U b"
  by (auto simp: edge_def nonword_def split: option.splits)

lemma word_at_prev:
  assumes "nonword U a = nonword U b" and "[] \<notin> set ws" shows "word_at U m ws a s = word_at U m ws b s"
proof -
  have "w \<noteq> []" if "w \<in> set ws" for w using that assms(2) by metis
  then show ?thesis unfolding word_at_def list_ex_iff edge_iff using assms(1) by (intro bex_cong) auto
qed

lemma search_word_prev: "nonword U a = nonword U b \<Longrightarrow> [] \<notin> set ws \<Longrightarrow> search_word U m ws a s = search_word U m ws b s"
  by (cases s) (simp_all add: word_at_prev [of U a b])

lemma search_word_0: "search_word U m ws prev s = Some 0 \<longleftrightarrow> s \<noteq> [] \<and> word_at U m ws prev s"
  by (cases s) auto

lemma word_at_WHERE: "word_at U starts_with [lit ''WHERE''] prev s \<longleftrightarrow>
    (\<exists>r. s = lit ''WHERE'' @ r \<and> nonword U prev \<and> nonword U (head_opt r))"
proof -
  have "word_at U starts_with [lit ''WHERE''] prev (lit ''WHERE'' @ r) \<longleftrightarrow> nonword U prev \<and> nonword U (head_opt r)" for r
    by (auto simp: word_at_def starts_with_iff edge_iff nonword_def word_char_def ident_char_def ident_start_def head_opt_def
        lit_def)
  moreover have "word_at U starts_with [lit ''WHERE''] prev s \<Longrightarrow> \<exists>r. s = lit ''WHERE'' @ r"
    by (auto simp: word_at_def starts_with_iff)
  ultimately show ?thesis by blast
qed

lemma head_opt_append: "xs \<noteq> [] \<Longrightarrow> head_opt (xs @ ys) = head_opt xs"
  by (cases xs) (simp_all add: head_opt_def)

text \<open>The first WHERE of a text depends on the text up to the character after it.\<close>

lemma find_where_prefix:
  assumes "search_word U starts_with [lit ''WHERE''] prev (p @ lit ''WHERE'' @ r) = Some (length p)"
    and "nonword U (head_opt r')"
  shows "search_word U starts_with [lit ''WHERE''] prev (p @ lit ''WHERE'' @ r') = Some (length p)"
  using assms(1)
proof (induction p arbitrary: prev)
  case Nil
  then show ?case using assms(2) unfolding search_word_0 list.size(3) append_Nil word_at_WHERE by simp
next
  case (Cons c p)
  have no: "\<not> word_at U starts_with [lit ''WHERE''] prev (c # p @ lit ''WHERE'' @ r)"
    using Cons.prems by (auto split: if_splits)
  have "\<not> word_at U starts_with [lit ''WHERE''] prev (c # p @ lit ''WHERE'' @ r')"
  proof
    assume "word_at U starts_with [lit ''WHERE''] prev (c # p @ lit ''WHERE'' @ r')"
    then obtain q where q: "c # p @ lit ''WHERE'' @ r' = lit ''WHERE'' @ q" "nonword U prev" "nonword U (head_opt q)"
      by (auto simp: word_at_WHERE)
    have q': "drop 5 (c # p @ lit ''WHERE'' @ r') = q" by (simp add: q(1))
    have "take 5 (c # p @ lit ''WHERE'' @ r) = take 5 (c # p @ lit ''WHERE'' @ r')" by simp
    then have t: "take 5 (c # p @ lit ''WHERE'' @ r) = lit ''WHERE''" unfolding q(1) by simp
    have "drop 5 (c # p @ lit ''WHERE'' @ s) = drop 5 (c # p @ lit ''WHERE'') @ s" for s by simp
    moreover have "5 < length (c # p @ lit ''WHERE'')" by simp
    then have "drop 5 (c # p @ lit ''WHERE'') \<noteq> []" unfolding drop_eq_Nil by (simp only: not_le)
    ultimately have "head_opt (drop 5 (c # p @ lit ''WHERE'' @ r)) = head_opt q"
      using head_opt_append unfolding q' [symmetric] by metis
    then have "word_at U starts_with [lit ''WHERE''] prev (c # p @ lit ''WHERE'' @ r)"
      using t q(2,3) append_take_drop_id [of 5 "c # p @ lit ''WHERE'' @ r"] unfolding word_at_WHERE by metis
    then show False using no by simp
  qed
  then show ?case using Cons no by (auto split: if_splits)
qed

subsection \<open>Tail clauses across a parenthesis\<close>

text \<open>No keyword matches across a character that none of its letters stands for, and such a
  character is as good as the end of the text on its left and the start on its right.\<close>

lemma icase_starts_across:
  assumes "\<forall>p \<in> set w. \<not> icase_eq U p c"
  shows "icase_starts U w (xs @ c # ys) \<longleftrightarrow> icase_starts U w xs"
  using assms
proof (induction w arbitrary: xs)
  case (Cons p w)
  then show ?case by (cases xs) auto
qed simp

lemma icase_starts_length: "icase_starts U w s \<Longrightarrow> length w \<le> length s"
  by (induction U w s rule: icase_starts.induct) auto

lemma word_at_across:
  assumes "\<forall>w \<in> set ws. w \<noteq> [] \<and> (\<forall>p \<in> set w. \<not> icase_eq U p c)" and "\<not> word_char U c" and "xs \<noteq> []"
  shows "word_at U (icase_starts U) ws prev (xs @ c # ys) \<longleftrightarrow> word_at U (icase_starts U) ws prev xs"
  unfolding word_at_def list_ex_iff
proof (rule bex_cong [OF refl])
  fix w assume w: "w \<in> set ws"
  have m: "icase_starts U w (xs @ c # ys) = icase_starts U w xs"
    by (rule icase_starts_across) (use assms(1) w in blast)
  have h: "head_opt (xs @ c # ys) = head_opt xs" using assms(3) by (rule head_opt_append)
  show "(icase_starts U w (xs @ c # ys) \<and> edge U prev (head_opt (xs @ c # ys)) \<and>
        edge U (if w = [] then prev else Some ((xs @ c # ys) ! (length w - 1))) (head_opt (drop (length w) (xs @ c # ys)))) =
      (icase_starts U w xs \<and> edge U prev (head_opt xs) \<and>
        edge U (if w = [] then prev else Some (xs ! (length w - 1))) (head_opt (drop (length w) xs)))"
  proof (cases "icase_starts U w xs")
    case True
    then have len: "length w \<le> length xs" by (rule icase_starts_length)
    have ne: "w \<noteq> []" using assms(1) w by blast
    then have "length w - 1 < length xs" using len by (cases w) auto
    then have n: "(xs @ c # ys) ! (length w - 1) = xs ! (length w - 1)" by (simp add: nth_append)
    have "nonword U (head_opt (drop (length w) (xs @ c # ys))) = nonword U (head_opt (drop (length w) xs))"
      using len assms(2) by (cases "drop (length w) xs") (auto simp: head_opt_def nonword_def)
    then show ?thesis using m h n ne by (simp add: edge_iff)
  qed (simp add: m)
qed

lemma search_word_across:
  assumes "\<forall>w \<in> set ws. w \<noteq> [] \<and> (\<forall>p \<in> set w. \<not> icase_eq U p c)" and "\<not> word_char U c"
    and "search_word U (icase_starts U) ws prev xs = None" and "search_word U (icase_starts U) ws None ys = None"
  shows "search_word U (icase_starts U) ws prev (xs @ c # ys) = None"
  using assms(3)
proof (induction xs arbitrary: prev)
  case Nil
  have "\<not> word_at U (icase_starts U) ws prev (c # ys)"
  proof
    assume "word_at U (icase_starts U) ws prev (c # ys)"
    then obtain w where "w \<in> set ws" "icase_starts U w (c # ys)" by (auto simp: word_at_def list_ex_iff)
    moreover from \<open>w \<in> set ws\<close> have "w \<noteq> []" "\<forall>p \<in> set w. \<not> icase_eq U p c" using assms(1) by blast+
    ultimately show False by - (cases w, auto)
  qed
  moreover have "search_word U (icase_starts U) ws (Some c) ys = None"
    using assms(4) search_word_prev [of U None "Some c" ws] assms(1,2) by (force simp: nonword_def)
  ultimately show ?case by simp
next
  case (Cons x xs)
  then show ?case using word_at_across [OF assms(1,2), of "x # xs" prev ys] by (auto split: if_splits)
qed

subsection \<open>Filters accumulate\<close>

text \<open>The tail keywords hold neither parenthesis nor anything the parentheses stand for.\<close>

lemma tail_clause_letters: "\<forall>w \<in> set TAIL_CLAUSES. w \<noteq> [] \<and> (\<forall>p \<in> set w. \<not> icase_eq U p 40 \<and> \<not> icase_eq U p 41)"
  by (simp add: TAIL_CLAUSES_def lit_def icase_eq_def upper_char_def)

lemma find_tail_across:
  assumes "find_tail U xs = None" and "find_tail U ys = None" and "c = 40 \<or> c = 41"
  shows "find_tail U (xs @ c # ys) = None"
  unfolding find_tail_def
proof (rule search_word_across)
  show "\<forall>w \<in> set TAIL_CLAUSES. w \<noteq> [] \<and> (\<forall>p \<in> set w. \<not> icase_eq U p c)" using tail_clause_letters assms(3) by blast
  show "\<not> word_char U c" using assms(3) by (auto simp: word_char_def ident_char_def ident_start_def)
qed (use assms in \<open>simp_all add: find_tail_def\<close>)

text \<open>What a list of filters makes of a WHERE expression.\<close>

definition wrap :: "str list \<Rightarrow> str \<Rightarrow> str" where
  "wrap filters e = fold (\<lambda>f e. f @ lit '' AND ('' @ e @ lit '')'') filters e"

definition injectable :: "unicode \<Rightarrow> str \<Rightarrow> bool" where
  "injectable U f \<longleftrightarrow> f \<noteq> [] \<and> strip f = f \<and> find_tail U (32 # f @ lit '' AND '') = None"

lemma wrap_step:
  assumes "injectable U g" and "find_tail U e = None"
  shows "find_tail U (32 # g @ lit '' AND ('' @ e @ lit '')'') = None"
    and "find_tail U (g @ lit '' AND ('' @ e @ lit '')'') = None"
    and "strip (g @ lit '' AND ('' @ e @ lit '')'') = g @ lit '' AND ('' @ e @ lit '')''"
proof -
  have eq: "32 # g @ lit '' AND ('' @ e @ lit '')'' = (32 # g @ lit '' AND '') @ 40 # e @ 41 # []"
    by (simp add: lit_def)
  have e: "find_tail U (e @ 41 # []) = None"
    by (rule find_tail_across [OF assms(2)]) (simp_all add: find_tail_def)
  have g: "find_tail U (32 # g @ lit '' AND '') = None" using assms(1) by (simp add: injectable_def)
  show tail: "find_tail U (32 # g @ lit '' AND ('' @ e @ lit '')'') = None"
    unfolding eq by (rule find_tail_across [OF g e]) simp
  have "nonword U None = nonword U (Some 32)"
    by (simp add: nonword_def word_char_def ident_char_def ident_start_def)
  moreover have "[] \<notin> set TAIL_CLAUSES" by (simp add: TAIL_CLAUSES_def)
  ultimately have prev: "search_word U (icase_starts U) TAIL_CLAUSES None s = search_word U (icase_starts U) TAIL_CLAUSES (Some 32) s"
    for s by (rule search_word_prev)
  show "find_tail U (g @ lit '' AND ('' @ e @ lit '')'') = None"
    using tail by (simp add: find_tail_def prev split: if_splits)
  have "\<not> is_space (hd g)" using assms(1) strip_ends [of g] by (auto simp: injectable_def)
  moreover have "g \<noteq> []" using assms(1) by (simp add: injectable_def)
  moreover have "last (g @ lit '' AND ('' @ e @ lit '')'') = 41" by (simp add: lit_def)
  ultimately show "strip (g @ lit '' AND ('' @ e @ lit '')'') = g @ lit '' AND ('' @ e @ lit '')''"
    by (intro strip_id) (simp add: is_space_def)
qed

lemma inject_into_where:
  assumes "find_where U sql = Some w" and "find_tail U (drop (w + 5) sql) = None" and "injectable U f"
  shows "inject_and_conditions U sql f = take w sql @ lit ''WHERE '' @ wrap [f] (strip (drop (w + 5) sql))"
  using assms by (simp add: inject_and_conditions_def injectable_def wrap_def)

lemma inject_again:
  assumes "find_where U (pre @ lit ''WHERE'' @ r) = Some (length pre)" and "find_tail U (32 # e) = None"
    and "strip e = e" and "injectable U g"
  shows "inject_and_conditions U (pre @ lit ''WHERE '' @ e) g = pre @ lit ''WHERE '' @ wrap [g] e"
proof -
  have eq: "pre @ lit ''WHERE '' @ e = pre @ lit ''WHERE'' @ 32 # e" by (simp add: lit_def)
  have w: "find_where U (pre @ lit ''WHERE'' @ 32 # e) = Some (length pre)"
    using find_where_prefix [of U None pre r "32 # e"] assms(1)
    by (simp add: find_where_def nonword_def head_opt_def word_char_def ident_char_def ident_start_def)
  have d: "drop (length pre + 5) (pre @ lit ''WHERE'' @ 32 # e) = 32 # e" by simp
  have "strip (32 # e) = strip e" by (simp add: strip_def is_space_def)
  then show ?thesis
    using inject_into_where [OF w, unfolded d, OF assms(2,4)] assms(3) by (simp only: eq) simp
qed

lemma wrap_Cons: "wrap (g # gs) e = wrap gs (wrap [g] e)"
  by (simp add: wrap_def)

lemma inject_all:
  assumes "find_where U (pre @ lit ''WHERE'' @ r) = Some (length pre)"
  shows "find_tail U (32 # e) = None \<Longrightarrow> find_tail U e = None \<Longrightarrow> strip e = e \<Longrightarrow> \<forall>g \<in> set gs. injectable U g \<Longrightarrow>
    fold (\<lambda>f s. inject_and_conditions U s f) gs (pre @ lit ''WHERE '' @ e) = pre @ lit ''WHERE '' @ wrap gs e"
proof (induction gs arbitrary: e)
  case (Cons g gs)
  have "injectable U g" using Cons.prems(4) by simp
  then show ?case
    using inject_again [OF assms Cons.prems(1,3)] wrap_step [of U g e] Cons.prems Cons.IH [of "wrap [g] e"]
    by (simp add: wrap_Cons [of g gs]) (simp add: wrap_def)
qed (simp add: wrap_def)

lemma search_word_at: "search_word U m ws prev s = Some i \<Longrightarrow> \<exists>prev. i < length s \<and> word_at U m ws prev (drop i s)"
  by (induction U m ws prev s arbitrary: i rule: search_word.induct) (auto split: if_splits)

lemma find_where_split:
  assumes "find_where U sql = Some w"
  shows "w \<le> length sql" and "sql = take w sql @ lit ''WHERE'' @ drop (w + 5) sql"
proof -
  obtain r where r: "drop w sql = lit ''WHERE'' @ r" and w: "w < length sql"
    using search_word_at [OF assms [unfolded find_where_def]] by (auto simp: word_at_WHERE)
  have "drop (w + 5) sql = drop 5 (drop w sql)" by (simp add: add.commute)
  then have "drop (w + 5) sql = r" unfolding r by simp
  then show "sql = take w sql @ lit ''WHERE'' @ drop (w + 5) sql" using append_take_drop_id [of w sql] r by simp
  show "w \<le> length sql" using w by simp
qed

lemma fold_inject:
  assumes "find_where U sql = Some w" and "find_tail U (drop (w + 5) sql) = None"
    and "find_tail U (strip (drop (w + 5) sql)) = None"
    and "filters \<noteq> []" and "\<forall>f \<in> set filters. injectable U f"
  shows "fold (\<lambda>f s. inject_and_conditions U s f) filters sql =
    take w sql @ lit ''WHERE '' @ wrap filters (strip (drop (w + 5) sql))"
proof -
  obtain f fs where fs: "filters = f # fs" using assms(4) by (cases filters) auto
  let ?e = "strip (drop (w + 5) sql)" and ?pre = "take w sql"
  have f: "injectable U f" and ok: "\<forall>g \<in> set fs. injectable U g" using assms(5) fs by auto
  have wh: "find_where U (?pre @ lit ''WHERE'' @ drop (w + 5) sql) = Some (length ?pre)"
    using find_where_split [OF assms(1)] assms(1) by simp
  have "inject_and_conditions U sql f = ?pre @ lit ''WHERE '' @ wrap [f] ?e"
    by (rule inject_into_where [OF assms(1,2) f])
  then show ?thesis
    using inject_all [OF wh, of "wrap [f] ?e" fs] wrap_step [OF f assms(3)] ok
    by (simp add: fs wrap_Cons [of f fs]) (simp add: wrap_def)
qed

subsection \<open>Quoted values\<close>

text \<open>How the database reads a standard string literal: up to the first quote that is not doubled.\<close>

fun read_body :: "str \<Rightarrow> (str \<times> str) option" where
  "read_body [] = None"
| "read_body (c # cs) =
     (if c \<noteq> 39 then map_option (\<lambda>(v, r). (c # v, r)) (read_body cs)
      else case cs of
             [] \<Rightarrow> Some ([], [])
           | d # ds \<Rightarrow> if d = 39 then map_option (\<lambda>(v, r). (39 # v, r)) (read_body ds) else Some ([], cs))"

fun read_literal :: "str \<Rightarrow> (str \<times> str) option" where
  "read_literal [] = None"
| "read_literal (c # cs) = (if c = 39 then read_body cs else None)"

definition escaped :: "str \<Rightarrow> str" where
  "escaped v = concat (map (\<lambda>c. if c = 39 then [39, 39] else [c]) v)"

lemma str_replace_escaped: "str_replace [39] [39, 39] v = escaped v"
  by (induction v) (simp_all add: escaped_def)

lemma read_escaped:
  assumes "\<not> starts_with [39] r" shows "read_body (escaped v @ 39 # r) = Some (v, r)"
proof (induction v)
  case Nil
  then show ?case using assms by (cases r) (auto simp: escaped_def)
next
  case (Cons c v)
  then show ?case by (cases "c = 39") (simp_all add: escaped_def)
qed

lemma skip_escaped:
  assumes "\<not> starts_with [39] r" shows "92 \<notin> set v \<Longrightarrow> skip_quoted 39 (escaped v @ 39 # r) = length (escaped v) + 1"
proof (induction v)
  case Nil
  then show ?case using assms by (cases r) (auto simp: escaped_def)
next
  case (Cons c v)
  have rest: "skip_quoted 39 (escaped v @ 39 # r) = length (escaped v) + 1" using Cons by simp
  show ?case
  proof (cases "c = 39")
    case True
    then show ?thesis using rest by (simp add: escaped_def)
  next
    case False
    obtain d ds where "escaped v @ 39 # r = d # ds" by (cases "escaped v @ 39 # r") auto
    then show ?thesis using False rest Cons.prems by (simp add: escaped_def)
  qed
qed

lemma quoted_value:
  assumes "\<not> starts_with [39] rest"
  shows "read_literal (quote_sql_string v @ rest) = Some (v, rest)"
    and "92 \<notin> set v \<Longrightarrow> st_len (scan_at inc depth 39 (tl (quote_sql_string v) @ rest)) = length (quote_sql_string v)"
proof -
  have q: "quote_sql_string v = 39 # escaped v @ [39]" by (simp add: quote_sql_string_def str_replace_escaped)
  show "read_literal (quote_sql_string v @ rest) = Some (v, rest)" using read_escaped [OF assms, of v] by (simp add: q)
  assume "92 \<notin> set v"
  then show "st_len (scan_at inc depth 39 (tl (quote_sql_string v) @ rest)) = length (quote_sql_string v)"
    using skip_escaped [OF assms, of v] by (simp add: q scan_at_def Let_def)
qed

end
