(* ===== verification/Database_Query.thy ===== *)
theory Database_Query
  imports SQL_Rewrite Scope_Auth
begin

text \<open>
  The database-query tool, src/src/core/agents/tools/database_query.py: the search scopes of the
  session, the policy the tool builds, its run, and the text of the result. \<open>json.loads\<close>,
  \<open>json.dumps\<close> and the runner of the database are parameters, and a dict of JSON is its entries in order, one per key; a run returns the statements it
  handed to the runner beside the tool result.
\<close>

subsection \<open>Arguments\<close>

text \<open>\<open>raw.get(key)\<close> when it is a string, of the object the arguments hold.\<close>

definition string_argument :: "str \<Rightarrow> json option \<Rightarrow> str" where
  "string_argument key raw =
     (case raw of
        Some (JObj entries) \<Rightarrow> (case map_of entries key of Some (JStr s) \<Rightarrow> s | _ \<Rightarrow> [])
      | _ \<Rightarrow> [])"

definition parse_input :: "(str \<Rightarrow> json option) \<Rightarrow> str \<Rightarrow> str" where
  "parse_input loads args = string_argument (lit ''sql'') (loads args)"

subsection \<open>Scopes\<close>

fun search_scopes_from_targets :: "search_target list \<Rightarrow> search_scope list" where
  "search_scopes_from_targets [] = []"
| "search_scopes_from_targets (t # ts) =
     (if tgt_knowledge_base_id t = [] then search_scopes_from_targets ts
      else case search_target_scope t of (knowledge_ids, tag_ids) \<Rightarrow>
        if \<not> search_target_is_whole_kb t \<and> knowledge_ids = [] \<and> tag_ids = [] then search_scopes_from_targets ts
        else \<lparr>sc_knowledge_base_id = tgt_knowledge_base_id t, sc_knowledge_ids = knowledge_ids,
               sc_tag_ids = tag_ids\<rparr> # search_scopes_from_targets ts)"

definition query_config :: "unicode \<Rightarrow> int \<Rightarrow> search_scope list \<Rightarrow> sql_config" where
  "query_config U tenant_id scopes =
     with_search_scopes scopes
       (with_injection_risk_check
         (with_chunk_enabled_filter
           (with_hidden_kb_filter
             (with_soft_delete_filter U [] (with_security_defaults U tenant_id default_config)))))"

subsection \<open>The tool\<close>

record tool_result =
  tr_success :: bool
  tr_output :: str
  tr_error :: str
  tr_data :: "(str list \<times> (str \<rightharpoonup> json) list) option"

type_synonym query_runner = "str \<Rightarrow> str + str list \<times> (str \<rightharpoonup> json) list"

definition failed :: "str \<Rightarrow> tool_result" where
  "failed error = \<lparr>tr_success = False, tr_output = [], tr_error = error, tr_data = None\<rparr>"

definition newline :: str where "newline = [10]"

definition format_value :: "(json \<Rightarrow> str) \<Rightarrow> json \<Rightarrow> str" where
  "format_value dumps v = (case v of JNull \<Rightarrow> lit ''<NULL>'' | JStr s \<Rightarrow> s | _ \<Rightarrow> dumps v)"

definition format_record :: "(json \<Rightarrow> str) \<Rightarrow> str list \<Rightarrow> nat \<times> (str \<rightharpoonup> json) \<Rightarrow> str" where
  "format_record dumps columns indexed =
     (case indexed of (index, row) \<Rightarrow>
        lit ''--- Record #'' @ int_str (int index) @ lit '' ---'' @ newline @
        concat (map (\<lambda>column. lit ''  '' @ column @ lit '': '' @
          format_value dumps (case row column of None \<Rightarrow> JNull | Some v \<Rightarrow> v) @ newline) columns) @ newline)"

definition format_query_results :: "(json \<Rightarrow> str) \<Rightarrow> str list \<Rightarrow> (str \<rightharpoonup> json) list \<Rightarrow> str" where
  "format_query_results dumps columns rows =
     (let n = int_str (int (length rows))
      in lit ''=== Query Results ==='' @ newline @ newline @ lit ''Returned '' @ n @ lit '' rows'' @ newline @ newline @
         (if rows = [] then lit ''No matching records found.'' @ newline
          else lit ''=== Data Details ==='' @ newline @ newline @
            concat (map (format_record dumps columns) (zip [1..<Suc (length rows)] rows)) @
            (if 10 < length rows
             then lit ''Note: Showing '' @ n @ lit '' records out of '' @ n @
               lit '' total. Consider using a LIMIT clause to restrict the result count.'' @ newline
             else [])))"

text \<open>\<open>error.type: error.message\<close> of a validation error.\<close>

definition error_label :: "sql_error \<Rightarrow> str" where
  "error_label e =
     (case e of
        InvalidCharacter \<Rightarrow> lit ''input_validation_error: Input validation failed''
      | QueryTooShort n \<Rightarrow> lit ''input_validation_error: Input validation failed''
      | QueryTooLong n \<Rightarrow> lit ''input_validation_error: Input validation failed''
      | ParseError m \<Rightarrow> lit ''parse_error: Failed to parse SQL''
      | EmptyQuery \<Rightarrow> lit ''empty_query: Empty query''
      | MultipleStatements n \<Rightarrow> lit ''multiple_statements: Multiple statements are not allowed''
      | NotSelectStatement \<Rightarrow> lit ''not_select_statement: Only SELECT queries are allowed''
      | TableNotAllowed table allowed \<Rightarrow> lit ''table_not_allowed: Table '' @ [39] @ table @ [39] @ lit '' is not in the allowed list''
      | AlwaysTrue w \<Rightarrow> lit ''sql_injection_risk: Potential SQL injection risk detected''
      | AlwaysFalse w \<Rightarrow> lit ''sql_injection_risk: Suspicious SQL pattern detected''
      | OrAlwaysTrue w \<Rightarrow> lit ''sql_injection_risk: High-risk SQL injection pattern detected''
      | _ \<Rightarrow> lit ''statement_validation_error: Statement validation failed'')"

definition validation_failed :: "sql_error list \<Rightarrow> tool_result" where
  "validation_failed errors =
     failed (lit ''SQL validation failed: '' @ join (lit ''; '') (map error_label errors))"

definition execute ::
  "unicode \<Rightarrow> (str \<Rightarrow> json option) \<Rightarrow> (json \<Rightarrow> str) \<Rightarrow> query_runner \<Rightarrow> search_target list \<Rightarrow> int \<Rightarrow> str \<Rightarrow>
     tool_result \<times> str list" where
  "execute U loads dumps runner search_targets tenant_id args =
     (let sql_text = strip (parse_input loads args)
      in if sql_text = [] then (failed (lit ''Missing or invalid 'sql' parameter''), [])
         else
           let scopes = search_scopes_from_targets search_targets
           in if scopes = [] then (failed (lit ''no effective Agent knowledge scope is available''), [])
              else case validate_and_secure_sql U sql_text (query_config U tenant_id scopes) of
                     (secured_sql, e # es) \<Rightarrow> (validation_failed (e # es), [])
                   | (secured_sql, []) \<Rightarrow>
                       (case runner secured_sql of
                          Inl exc \<Rightarrow> (failed (lit ''Query execution failed: '' @ exc), [secured_sql])
                        | Inr (columns, rows) \<Rightarrow>
                            (\<lparr>tr_success = True, tr_output = format_query_results dumps columns rows, tr_error = [],
                              tr_data = Some (columns, rows)\<rparr>, [secured_sql])))"

end
