(* ===== verification/Query_Properties.thy ===== *)
theory Query_Properties
  imports SQL_Filters Database_Query
begin

text \<open>
  The properties of the database-query tool: its search scopes are the boundary of the retrieval
  tools, a run hands the database nothing but the secured form of an accepted query, and the
  queries that are accepted and run without their filters.
\<close>

subsection \<open>Scopes\<close>

text \<open>What the clause of one scope says of a document: its base, its id when ids are listed, and one of
  the tags when tags are listed.\<close>

definition scope_admits :: "(str \<Rightarrow> tag_row list) \<Rightarrow> search_scope \<Rightarrow> str \<Rightarrow> str \<Rightarrow> bool" where
  "scope_admits tags sc kb kid \<longleftrightarrow> sc_knowledge_base_id sc = kb \<and>
     (sc_knowledge_ids sc = [] \<or> kid \<in> set (sc_knowledge_ids sc)) \<and>
     (sc_tag_ids sc = [] \<or> tagged tags (sc_tag_ids sc) kid)"

lemma scope_of_target:
  assumes "tgt_knowledge_base_id t \<noteq> []" and "kid \<noteq> []"
  shows "(\<exists>sc \<in> set (search_scopes_from_targets [t]). scope_admits tags sc kb kid) \<longleftrightarrow> grants tags t kb kid"
proof (cases "tgt_knowledge_base_id t = kb")
  case True
  obtain ids tids where s: "search_target_scope t = (ids, tids)" by (cases "search_target_scope t")
  have one: "ids = [] \<or> tids = []" using s by (cases rule: scope_cases [of t]) auto
  show ?thesis
    using grants_iff [OF True assms(2) s, of tags] one True assms(1) s
    by (auto simp: scope_admits_def search_target_is_whole_kb_def split: if_splits)
next
  case False
  then show ?thesis
    by (auto simp: scope_admits_def grants_def split: if_splits prod.splits)
qed

lemma scopes_Cons: "search_scopes_from_targets (t # ts) = search_scopes_from_targets [t] @ search_scopes_from_targets ts"
  by (auto split: prod.splits)

lemma scopes_match:
  assumes "kb \<noteq> []" and "kid \<noteq> []"
  shows "(\<exists>sc \<in> set (search_scopes_from_targets ts). scope_admits tags sc kb kid) \<longleftrightarrow> in_scope tags ts kb kid"
proof (induction ts)
  case (Cons t ts)
  have "(\<exists>sc \<in> set (search_scopes_from_targets [t]). scope_admits tags sc kb kid) \<longleftrightarrow> grants tags t kb kid"
  proof (cases "tgt_knowledge_base_id t = []")
    case True
    then show ?thesis using assms(1) by (auto simp: grants_def)
  next
    case False
    then show ?thesis using assms(2) by (rule scope_of_target)
  qed
  moreover have "set (search_scopes_from_targets (t # ts)) =
      set (search_scopes_from_targets [t]) \<union> set (search_scopes_from_targets ts)"
    by (subst scopes_Cons) (rule set_append)
  ultimately show ?case using Cons assms unfolding in_scope_def list.set(2) by blast
qed (simp add: in_scope_def)

subsection \<open>The run\<close>

lemma execute_cases:
  "snd (execute U loads dumps runner targets tenant_id args) =
     (let sql = strip (parse_input loads args); scopes = search_scopes_from_targets targets;
          cfg = query_config U tenant_id scopes
      in if sql \<noteq> [] \<and> scopes \<noteq> [] \<and> validate_sql U sql cfg = []
         then [secure_sql U cfg (table_alias_map U sql) sql] else [])"
  "tr_success (fst (execute U loads dumps runner targets tenant_id args)) \<longleftrightarrow>
     (\<exists>s columns rows. snd (execute U loads dumps runner targets tenant_id args) = [s] \<and> runner s = Inr (columns, rows))"
proof -
  have flags: "cf_enable_tenant_injection (query_config U tenant_id scopes)" for scopes
    by (simp add: query_config_def with_search_scopes_def with_injection_risk_check_def with_chunk_enabled_filter_def
        with_hidden_kb_filter_def with_soft_delete_filter_def with_security_defaults_def with_tenant_isolation_def
        with_allowed_tables_def)
  show "snd (execute U loads dumps runner targets tenant_id args) =
     (let sql = strip (parse_input loads args); scopes = search_scopes_from_targets targets;
          cfg = query_config U tenant_id scopes
      in if sql \<noteq> [] \<and> scopes \<noteq> [] \<and> validate_sql U sql cfg = []
         then [secure_sql U cfg (table_alias_map U sql) sql] else [])"
    by (simp add: execute_def validate_and_secure_sql_def Let_def flags split: list.splits sum.splits)
  show "tr_success (fst (execute U loads dumps runner targets tenant_id args)) \<longleftrightarrow>
     (\<exists>s columns rows. snd (execute U loads dumps runner targets tenant_id args) = [s] \<and> runner s = Inr (columns, rows))"
    by (simp add: execute_def validate_and_secure_sql_def Let_def flags failed_def validation_failed_def
        split: list.splits sum.splits)
qed

end
