(* ===== verification/Guard_Properties.thy ===== *)
theory Guard_Properties
  imports SQL_Bypass
begin

text \<open>
  The properties of the SQL guard and of the database-query tool, each on the lemmas of the
  theories before: what is accepted, what the tokens are, that the FROM extraction is the recursion
  the code writes, how filters join the WHERE clause, quoting, scopes, the run, and the queries that
  run unfiltered.
\<close>



text \<open>The tokens the checks look at are the text: each token is not empty, is what the statement has at
  its offset, and the tokens follow one another without overlap. No check can be answered by text
  that is not in the statement.\<close>

theorem tokens_are_text: "tokens_in sql 0 (scan_top_level_tokens include_parens sql)"
  unfolding scan_top_level_tokens_def by (rule scan_tokens_in) simp_all

text \<open>The FROM extraction always returns, and is the recursion the code writes: on every text it is the loop
  over the tokens after the first FROM, which calls the extraction itself on the inside of a
  parenthesized group. The fuel of the model, one more than the length, is never used up, because a
  group is shorter than the text around it.\<close>

theorem from_clause_recursion:
  "extract_from_clause U sql =
     (case after_word U (lit ''FROM'') (scan_top_level_tokens False sql) of
        None \<Rightarrow> from_start
      | Some rest \<Rightarrow> from_loop U (extract_from_clause U) sql rest from_start)"
  by (rule from_clause_unfold)

text \<open>Filters join the WHERE clause as a conjunction around the parenthesized original: when a query has a
  WHERE keyword and no trailing clause, injecting filters one after another (none of which reads
  like a trailing clause) keeps the text before WHERE and wraps the original condition, each filter
  in front of the parenthesized rest, so an OR in the original cannot widen the filter.\<close>

theorem filters_accumulate:
  assumes "find_where U sql = Some w" and "find_tail U (drop (w + 5) sql) = None"
    and "find_tail U (strip (drop (w + 5) sql)) = None"
    and "filters \<noteq> []" and "\<forall>f \<in> set filters. injectable U f"
  shows "fold (\<lambda>f s. inject_and_conditions U s f) filters sql =
    take w sql @ lit ''WHERE '' @ wrap filters (strip (drop (w + 5) sql))"
  using assms by (rule fold_inject)

lemma filters_accumulate_witness:
  "fold (\<lambda>f s. inject_and_conditions ascii_only s f) [lit ''k.id = 7'', lit ''k.a IS NULL''] (lit ''SELECT id FROM k WHERE a = 1 OR b = 2'') =
     lit ''SELECT id FROM k WHERE k.a IS NULL AND (k.id = 7 AND (a = 1 OR b = 2))''"
proof -
  let ?sql = "lit ''SELECT id FROM k WHERE a = 1 OR b = 2''"
  have w: "find_where ascii_only ?sql = Some 17" by (simp add: find_where_def search_eval)
  have rest: "drop (17 + 5) ?sql = lit '' a = 1 OR b = 2''" "strip (lit '' a = 1 OR b = 2'') = lit ''a = 1 OR b = 2''"
    by (simp_all add: lit_def strip_def is_space_def)
  have tail: "find_tail ascii_only (lit '' a = 1 OR b = 2'') = None" "find_tail ascii_only (lit ''a = 1 OR b = 2'') = None"
    by (simp_all add: search_eval)
  have inj: "\<forall>f \<in> set [lit ''k.id = 7'', lit ''k.a IS NULL'']. injectable ascii_only f"
    by (simp add: injectable_def strip_def is_space_def search_eval)
  show ?thesis
    using filters_accumulate [OF w, unfolded rest, OF tail _ inj] by (simp add: wrap_def lit_def)
qed

text \<open>A quoted value reads back as itself and ends where its literal ends: read as a standard string
  literal, the quoting of any value yields that value and leaves the text after it, so a value
  cannot leave its literal; the scanner of the guard, which also takes a backslash for an escape,
  agrees on where the literal ends when the value has no backslash.\<close>

theorem quoted_value_round_trip:
  assumes "\<not> starts_with [39] rest"
  shows "read_literal (quote_sql_string v @ rest) = Some (v, rest) \<and>
    (92 \<notin> set v \<longrightarrow> st_len (scan_at inc depth 39 (tl (quote_sql_string v) @ rest)) = length (quote_sql_string v))"
  using quoted_value [OF assms] by blast

lemma quoted_value_round_trip_witness:
  "read_literal (quote_sql_string (lit ''a'' @ [39] @ lit '' OR 1=1'') @ lit '')'') = Some (lit ''a'' @ [39] @ lit '' OR 1=1'', lit '')'') \<and>
   st_len (scan_at True 0 39 (tl (quote_sql_string (lit ''kb'')) @ lit '')'')) = 4"
proof -
  have r: "\<not> starts_with [39] (lit '')'')" by (simp add: lit_def)
  have "92 \<notin> set (lit ''kb'')" "length (quote_sql_string (lit ''kb'')) = 4" by (simp_all add: lit_def quote_sql_string_def)
  then show ?thesis using quoted_value_round_trip [OF r] by metis
qed

text \<open>The SQL tool sees the same documents as the retrieval tools: some scope built from the session's
  targets admits a document, by its base, its id where ids are listed and its tags where tags are
  listed, exactly when the document is in the scope the authorization boundary enforces.\<close>

theorem scopes_agree:
  assumes "kb \<noteq> []" and "kid \<noteq> []"
  shows "(\<exists>sc \<in> set (search_scopes_from_targets ts). scope_admits tags sc kb kid) \<longleftrightarrow> in_scope tags ts kb kid"
  using assms by (rule scopes_match)

lemma scopes_agree_witness:
  "in_scope (\<lambda>_. []) [\<lparr>tgt_type = KNOWLEDGE_BASE, tgt_knowledge_base_id = lit ''kb'', tgt_tenant_id = 1, tgt_knowledge_ids = [],
     tgt_tag_ids = [], tgt_scope_tag_ids = [], tgt_disable_recall_thresholds = False\<rparr>] (lit ''kb'') (lit ''d'')"
proof -
  let ?t = "\<lparr>tgt_type = KNOWLEDGE_BASE, tgt_knowledge_base_id = lit ''kb'', tgt_tenant_id = 1, tgt_knowledge_ids = [],
     tgt_tag_ids = [], tgt_scope_tag_ids = [], tgt_disable_recall_thresholds = False\<rparr>"
  have "search_scopes_from_targets [?t] = [\<lparr>sc_knowledge_base_id = lit ''kb'', sc_knowledge_ids = [], sc_tag_ids = []\<rparr>]"
    by (simp add: search_target_scope_def effective_search_target_tag_ids_def search_target_is_whole_kb_def
        dedup_non_empty_strings_def)
  then show ?thesis
    using scopes_agree [of "lit ''kb''" "lit ''d''" "[?t]" "\<lambda>_. []"] by (simp add: scope_admits_def)
qed

text \<open>C28: What a run of the tool sends to the database: nothing when the sql argument is blank, when the session has no
  effective scope, or when the guard rejects the query; otherwise exactly one statement, the secured
  form of the trimmed query under the tenant and the scopes of the session. The tool reports success
  exactly when a statement was sent and the database answered it.\<close>

theorem execute_runs_secured:
  "snd (execute U loads dumps runner targets tenant_id args) =
     (let sql = strip (parse_input loads args); scopes = search_scopes_from_targets targets;
          cfg = query_config U tenant_id scopes
      in if sql \<noteq> [] \<and> scopes \<noteq> [] \<and> validate_sql U sql cfg = []
         then [secure_sql U cfg (table_alias_map U sql) sql] else []) \<and>
   (tr_success (fst (execute U loads dumps runner targets tenant_id args)) =
     (\<exists>s columns rows. snd (execute U loads dumps runner targets tenant_id args) = [s] \<and> runner s = Inr (columns, rows)))"
  using execute_cases by blast

text \<open>C30: Accepted queries that run without their filters. A FROM glued to the star before it is no token, so
  the table is neither checked nor filtered and the query on another table is returned unchanged. A
  WHERE inside a quoted name takes all the filters into the name, and a trailing comment removes the
  rest: the tokens of the secured query have no WHERE. A quoted alias is pasted unquoted into every
  filter, so one that ends in a comment leaves \<open>WHERE true\<close>.\<close>

theorem filters_bypassed:
  assumes "no_new_dots U"
  shows "validate_and_secure_sql U glued_query (query_config U tenant_id scopes) = (glued_query, []) \<and>
    validate_and_secure_sql U quoted_where_query (query_config U 7 one_base) = (quoted_where_secured, []) \<and>
    (\<exists>name. map snd (scan_top_level_tokens True quoted_where_secured) =
      [lit ''select'', lit ''id'', lit ''as'', [34] @ name @ [34], lit ''from'', lit ''chunks'']) \<and>
    validate_and_secure_sql U comment_alias_query (query_config U 7 one_base) = (comment_alias_secured, []) \<and>
    map snd (scan_top_level_tokens True comment_alias_secured) =
      [lit ''select'', lit ''*'', lit ''from'', lit ''chunks'', [34] @ comment_alias @ [34], lit ''WHERE'', lit ''true'']"
  using glued_from_unfiltered [OF assms] quoted_where_unfiltered [OF assms] comment_alias_unfiltered [OF assms] by blast

lemma filters_bypassed_witness:
  "validate_and_secure_sql ascii_only glued_query (query_config ascii_only 7 one_base) = (glued_query, []) \<and>
   validate_and_secure_sql ascii_only comment_alias_query (query_config ascii_only 7 one_base) = (comment_alias_secured, [])"
  using filters_bypassed [OF no_new_dots_ascii, of 7 one_base] by blast

end
