(* ===== verification/Data_Analysis.thy ===== *)
theory Data_Analysis
  imports Database_Query
begin

text \<open>
  The data-analysis tool, src/src/core/agents/tools/data_analysis.py: the statements of the engine,
  the rewriting of column names, and the life of a call: resolving the document, loading its file
  once, checking the query, running it, and dropping the tables at the end. The engine, the file
  resolver and the document lookup are parameters whose replies may depend on everything that
  happened before (the log of events); the log records every effect in order.
\<close>

subsection \<open>Statements of the engine\<close>

definition sql_single_quote_escape :: "str \<Rightarrow> str" where
  "sql_single_quote_escape s = str_replace [39] [39, 39] s"

definition dquoted :: "str \<Rightarrow> str" where
  "dquoted s = [34] @ s @ [34]"

definition squoted :: "str \<Rightarrow> str" where
  "squoted s = [39] @ s @ [39]"

definition load_csv_sql :: "str \<Rightarrow> str \<Rightarrow> str" where
  "load_csv_sql table_name path =
     lit ''CREATE TABLE '' @ dquoted table_name @ lit '' AS SELECT * FROM read_csv_auto('' @
     squoted (sql_single_quote_escape path) @ lit '', header=true, all_varchar=true)''"

definition list_sheets_sql :: "str \<Rightarrow> str" where
  "list_sheets_sql path =
     lit ''SELECT UNNEST(layers).name FROM st_read_meta('' @ squoted (sql_single_quote_escape path) @ lit '')''"

definition EXCEL_SHEET_NAME_COLUMN :: str where
  "EXCEL_SHEET_NAME_COLUMN = lit ''__sheet_name''"

definition sheet_select :: "str \<Rightarrow> str \<Rightarrow> str" where
  "sheet_select escaped_file sheet =
     (let escaped_sheet = squoted (sql_single_quote_escape sheet)
      in lit ''SELECT *, '' @ escaped_sheet @ lit '' AS '' @ EXCEL_SHEET_NAME_COLUMN @ lit '' FROM read_xlsx('' @
         squoted escaped_file @ lit '', sheet = '' @ escaped_sheet @ lit '', header=true, all_varchar=true)'')"

definition build_excel_create_table_sql :: "str \<Rightarrow> str \<Rightarrow> str list \<Rightarrow> str" where
  "build_excel_create_table_sql table_name filename sheet_names =
     (let escaped_file = sql_single_quote_escape filename; create = lit ''CREATE TABLE '' @ dquoted table_name @ lit '' AS ''
      in if sheet_names = []
         then create @ lit ''SELECT * FROM read_xlsx('' @ squoted escaped_file @ lit '', header=true, all_varchar=true)''
         else create @ join (newline @ lit ''UNION ALL BY NAME'' @ newline) (map (sheet_select escaped_file) sheet_names))"

definition drop_table_sql :: "str \<Rightarrow> str" where
  "drop_table_sql table_name = lit ''DROP TABLE IF EXISTS '' @ dquoted table_name"

subsection \<open>Schemas and column names\<close>

record column_info =
  ci_name :: str
  ci_type :: str
  ci_nullable :: str

record table_schema =
  ts_table_name :: str
  ts_columns :: "column_info list"
  ts_row_count :: int

definition schema_description :: "table_schema \<Rightarrow> str" where
  "schema_description s =
     lit ''Table name: '' @ ts_table_name s @ newline @ lit ''Columns: '' @ int_str (int (length (ts_columns s))) @ newline @
     lit ''Rows: '' @ int_str (ts_row_count s) @ newline @ newline @ lit ''Column info:'' @ newline @
     concat (map (\<lambda>c. lit ''- '' @ ci_name c @ lit '' ('' @ ci_type c @ lit '')'' @ newline) (ts_columns s))"

text \<open>The columns of a DESCRIBE: its rows as text, \<open>None\<close> for NULL.\<close>

definition or_empty :: "str option \<Rightarrow> str" where
  "or_empty v = (case v of None \<Rightarrow> [] | Some s \<Rightarrow> s)"

definition describe_column :: "str option list \<Rightarrow> column_info option" where
  "describe_column row =
     (if length row < 3 \<or> or_empty (row ! 0) = [] then None
      else Some \<lparr>ci_name = or_empty (row ! 0), ci_type = or_empty (row ! 1),
                 ci_nullable = (case row ! 2 of None \<Rightarrow> lit ''YES'' | Some s \<Rightarrow> s)\<rparr>)"

definition describe_columns :: "str option list list \<Rightarrow> column_info list" where
  "describe_columns rows = List.map_filter describe_column rows"

definition sheet_names_of :: "str option list list \<Rightarrow> str list" where
  "sheet_names_of rows =
     List.map_filter (\<lambda>row. case row of Some s # _ \<Rightarrow> if strip s \<noteq> [] then Some s else None | _ \<Rightarrow> None) rows"

text \<open>One record of a result: the cells by column, missing and NULL cells empty.\<close>

definition result_record :: "str list \<Rightarrow> str option list \<Rightarrow> str \<rightharpoonup> str" where
  "result_record columns row =
     map_of (rev (zip columns (map (\<lambda>i. if i < length row then or_empty (row ! i) else []) [0..<length columns])))"

definition normalize_identifier_for_match :: "unicode \<Rightarrow> str \<Rightarrow> str" where
  "normalize_identifier_for_match U s = filter (\<lambda>c. c \<noteq> 32 \<and> c \<noteq> 12288) (lower U (strip s))"

definition canonical_names :: "unicode \<Rightarrow> column_info list \<Rightarrow> (str \<times> str) list" where
  "canonical_names U columns =
     filter (\<lambda>(k, v). k \<noteq> []) (map (\<lambda>c. (normalize_identifier_for_match U (ci_name c), ci_name c)) columns)"

text \<open>\<open>re.sub\<close> of \<open>"([^"]+)"\<close>: the text and the fixes.\<close>

function rewrite_quoted :: "(str \<Rightarrow> str option) \<Rightarrow> str \<Rightarrow> str \<times> (str \<times> str) list" where
  "rewrite_quoted canon [] = ([], [])"
| "rewrite_quoted canon (c # cs) =
     (let name = takeWhile (\<lambda>c. c \<noteq> 34) cs; rest = dropWhile (\<lambda>c. c \<noteq> 34) cs
      in if c = 34 \<and> name \<noteq> [] \<and> rest \<noteq> []
         then case rewrite_quoted canon (tl rest) of
                (s, fixes) \<Rightarrow>
                  (case canon name of
                     None \<Rightarrow> (dquoted name @ s, fixes)
                   | Some canonical \<Rightarrow>
                       if canonical = name then (dquoted name @ s, fixes)
                       else (dquoted canonical @ s, (name, canonical) # fixes))
         else case rewrite_quoted canon cs of (s, fixes) \<Rightarrow> (c # s, fixes))"
  by pat_completeness auto
termination
  by (relation "measure (\<lambda>(canon, s). length s)")
    (auto simp: less_Suc_eq_le intro: le_trans [OF diff_le_self length_dropWhile_le])

definition reconcile_sql_columns_with_schema :: "unicode \<Rightarrow> str \<Rightarrow> table_schema option \<Rightarrow> str \<times> (str \<times> str) list" where
  "reconcile_sql_columns_with_schema U sql_text schema =
     (case schema of
        None \<Rightarrow> (sql_text, [])
      | Some s \<Rightarrow>
          if ts_columns s = [] then (sql_text, [])
          else rewrite_quoted
                 (\<lambda>name. map_of (canonical_names U (ts_columns s)) (normalize_identifier_for_match U name)) sql_text)"

text \<open>The first \<open>Referenced column "([^"]+)" not found\<close> of a message.\<close>

fun missing_column :: "str \<Rightarrow> str option" where
  "missing_column [] = None"
| "missing_column (c # cs) =
     (let start = lit ''Referenced column '' @ [34]; s = drop (length start) (c # cs);
          name = takeWhile (\<lambda>c. c \<noteq> 34) s
      in if starts_with start (c # cs) \<and> name \<noteq> [] \<and> starts_with ([34] @ lit '' not found'') (drop (length name) s)
         then Some name else missing_column cs)"

definition build_missing_column_suggestion :: "unicode \<Rightarrow> str \<Rightarrow> table_schema option \<Rightarrow> str" where
  "build_missing_column_suggestion U err_message schema =
     (case schema of
        None \<Rightarrow> []
      | Some s \<Rightarrow>
          (case missing_column err_message of
             None \<Rightarrow> []
           | Some missing \<Rightarrow>
               let wanted = normalize_identifier_for_match U missing
               in if wanted = [] then []
                  else case find (\<lambda>c. normalize_identifier_for_match U (ci_name c) = wanted) (ts_columns s) of
                         None \<Rightarrow> []
                       | Some c \<Rightarrow>
                           lit ''Column '' @ dquoted missing @ lit '' does not exist. Did you mean '' @ dquoted (ci_name c) @
                           lit ''? Please use the exact column name from schema.''))"

subsection \<open>Effects\<close>

datatype event =
    Materialize str str
  | TempFile str
  | RemoveFile str
  | LoadCsv str str
  | ListSheets str
  | LoadExcel str str "str list"
  | DescribeTable str
  | RunQuery str
  | DropTable str

datatype failure = AnalysisExecutionError str | OtherException

datatype exception = Application app_error | Raised failure

type_synonym result_rows = "(str \<rightharpoonup> str) list"

text \<open>\<open>TempFile\<close> is the file a materialization that succeeded left behind; a drop that raises is ignored by
  the code. The replies of the environment, given the log that ends in the event they answer.\<close>

record environment =
  env_materialize :: "event list \<Rightarrow> failure + str"
  env_load :: "event list \<Rightarrow> failure option"
  env_list_sheets :: "event list \<Rightarrow> failure + str list"
  env_describe :: "event list \<Rightarrow> failure + table_schema"
  env_query :: "event list \<Rightarrow> failure + result_rows"

record tool_config =
  tc_search_targets :: "search_target list option"
  tc_knowledge_service :: "document row_lookup"
  tc_fetch_tags :: fetch_tags
  tc_file_type :: "document \<Rightarrow> str option"
  tc_file_path :: "document \<Rightarrow> str option"
  tc_message :: "app_error \<Rightarrow> str"
  tc_loads :: "str \<Rightarrow> json option"
  tc_dump_record :: "(str \<rightharpoonup> str) \<Rightarrow> str"

record tool_state =
  da_created_tables :: "str list"
  da_log :: "event list"

definition emit :: "event \<Rightarrow> tool_state \<Rightarrow> tool_state" where
  "emit e s = s\<lparr>da_log := da_log s @ [e]\<rparr>"

definition table_name_for_knowledge :: "document \<Rightarrow> str" where
  "table_name_for_knowledge k = lit ''k_'' @ str_replace [45] [95] (doc_id k)"

definition record_created_table :: "str \<Rightarrow> tool_state \<Rightarrow> bool \<times> tool_state" where
  "record_created_table t s =
     (if t \<in> set (da_created_tables s) then (False, s)
      else (True, s\<lparr>da_created_tables := da_created_tables s @ [t]\<rparr>))"

definition load_csv :: "environment \<Rightarrow> str \<Rightarrow> str \<Rightarrow> tool_state \<Rightarrow> failure option \<times> tool_state" where
  "load_csv env t path s =
     (case record_created_table t s of
        (False, s1) \<Rightarrow> (None, s1)
      | (True, s1) \<Rightarrow> let s2 = emit (LoadCsv t path) s1 in (env_load env (da_log s2), s2))"

definition load_excel :: "environment \<Rightarrow> str \<Rightarrow> str \<Rightarrow> tool_state \<Rightarrow> failure option \<times> tool_state" where
  "load_excel env t path s =
     (case record_created_table t s of
        (False, s1) \<Rightarrow> (None, s1)
      | (True, s1) \<Rightarrow>
          let s2 = emit (ListSheets path) s1
          in (case env_list_sheets env (da_log s2) of
                Inl OtherException \<Rightarrow> (Some OtherException, s2)
              | Inl (AnalysisExecutionError m) \<Rightarrow>
                  let s3 = emit (LoadExcel t path []) s2 in (env_load env (da_log s3), s3)
              | Inr sheets \<Rightarrow> let s3 = emit (LoadExcel t path sheets) s2 in (env_load env (da_log s3), s3)))"

definition SUPPORTED_FILE_TYPES :: "str list" where
  "SUPPORTED_FILE_TYPES = map lit [''csv'', ''xlsx'', ''xls'']"

definition load_from_knowledge ::
  "unicode \<Rightarrow> environment \<Rightarrow> tool_config \<Rightarrow> document \<Rightarrow> tool_state \<Rightarrow> (failure + table_schema) \<times> tool_state" where
  "load_from_knowledge U env cfg knowledge s =
     (let file_type = lower U (strip (or_empty (tc_file_type cfg knowledge)))
      in if file_type \<notin> set SUPPORTED_FILE_TYPES
         then (Inl (AnalysisExecutionError (lit ''unsupported file type: '' @ file_type @
                 lit '' (supported types: csv, xlsx, xls)'')), s)
         else
           let t = table_name_for_knowledge knowledge;
               s1 = emit (Materialize (or_empty (tc_file_path cfg knowledge)) (or_empty (tc_file_type cfg knowledge))) s
           in (case env_materialize env (da_log s1) of
                 Inl e \<Rightarrow> (Inl e, s1)
               | Inr path \<Rightarrow>
                   (case (if file_type = lit ''csv'' then load_csv else load_excel) env t path (emit (TempFile path) s1) of
                      (Some e, s2) \<Rightarrow> (Inl e, emit (RemoveFile path) s2)
                    | (None, s2) \<Rightarrow>
                        let s3 = emit (DescribeTable t) s2
                        in (env_describe env (da_log s3), emit (RemoveFile path) s3))))"

text \<open>\<open>Inr None\<close> is a document that cannot be resolved.\<close>

definition resolve_knowledge :: "tool_config \<Rightarrow> str \<Rightarrow> app_error + document option" where
  "resolve_knowledge cfg knowledge_id =
     (case tc_search_targets cfg of
        Some ts \<Rightarrow>
          (case authorize_knowledge_in_search_targets ts knowledge_id (tc_knowledge_service cfg) (tc_fetch_tags cfg) of
             Inl e \<Rightarrow> Inl e | Inr k \<Rightarrow> Inr (Some k))
      | None \<Rightarrow>
          (case tc_knowledge_service cfg of
             None \<Rightarrow> Inr None
           | Some get_document \<Rightarrow> (case get_document knowledge_id of Inl e \<Rightarrow> Inr None | Inr k \<Rightarrow> Inr k)))"

text \<open>\<open>str.replace\<close>, which puts the new text around every character when the old one is empty.\<close>

definition replace_all :: "str \<Rightarrow> str \<Rightarrow> str \<Rightarrow> str" where
  "replace_all old new s =
     (if old = [] then new @ concat (map (\<lambda>c. [c] @ new) s) else str_replace old new s)"

definition READ_ONLY_PREFIXES :: "str list" where
  "READ_ONLY_PREFIXES = map lit [''select'', ''show'', ''describe'', ''explain'', ''pragma'']"

definition READ_ONLY_ERROR_MESSAGE :: str where
  "READ_ONLY_ERROR_MESSAGE = lit ''DuckDB tool only supports read-only queries (SELECT, SHOW, DESCRIBE, EXPLAIN, PRAGMA). '' @
     lit ''Modification operations (INSERT, UPDATE, DELETE, CREATE, DROP, etc.) are not allowed.''"

definition is_read_only :: "unicode \<Rightarrow> str \<Rightarrow> bool" where
  "is_read_only U sql \<longleftrightarrow> list_ex (\<lambda>p. starts_with p (lower U (strip sql))) READ_ONLY_PREFIXES"

definition analysis_config :: "unicode \<Rightarrow> str \<Rightarrow> sql_config" where
  "analysis_config U table_name =
     with_no_dangerous_functions (with_single_statement (with_allowed_tables U [table_name] default_config))"

definition format_records :: "((str \<rightharpoonup> str) \<Rightarrow> str) \<Rightarrow> result_rows \<Rightarrow> str \<Rightarrow> str" where
  "format_records dump results query =
     (let n = int_str (int (length results))
      in lit ''=== DuckDB Query Results ==='' @ newline @ newline @ lit ''Executed SQL: '' @ query @ newline @ newline @
         lit ''Returned '' @ n @ lit '' rows'' @ newline @ newline @
         (if results = [] then lit ''No matching records found.'' @ newline
          else lit ''=== Data Details ==='' @ newline @ newline @
            (if 10 < length results
             then lit ''Showing all '' @ n @ lit '' records. Consider using a LIMIT clause '' @
               lit ''to restrict the result count for better performance.'' @ newline @ newline else []) @
            concat (map (\<lambda>(i, r). lit ''record '' @ int_str (int i) @ lit '': '' @ dump r @ newline)
              (zip [1..<Suc (length results)] results))))"

text \<open>The statement a call would run: ids replaced by the table, column names reconciled.\<close>

definition prepared_sql :: "unicode \<Rightarrow> str \<Rightarrow> str \<Rightarrow> table_schema \<Rightarrow> str" where
  "prepared_sql U sql knowledge_id schema =
     (let sql_text = replace_all knowledge_id (ts_table_name schema) sql
      in case reconcile_sql_columns_with_schema U sql_text (Some schema) of
           (rewritten, fixes) \<Rightarrow> if fixes = [] then sql_text else rewritten)"

definition run_query ::
  "unicode \<Rightarrow> environment \<Rightarrow> tool_config \<Rightarrow> str \<Rightarrow> table_schema \<Rightarrow> tool_state \<Rightarrow> (exception + tool_result) \<times> tool_state" where
  "run_query U env cfg sql_text schema s =
     (let s1 = emit (RunQuery sql_text) s
      in case env_query env (da_log s1) of
           Inl OtherException \<Rightarrow> (Inl (Raised OtherException), s1)
         | Inl (AnalysisExecutionError m) \<Rightarrow>
             let suggestion = build_missing_column_suggestion U m (Some schema)
             in (Inr (failed (lit ''Query execution failed: '' @ m @
                   (if suggestion = [] then [] else lit ''. '' @ suggestion))), s1)
         | Inr results \<Rightarrow>
             (Inr \<lparr>tr_success = True, tr_output = format_records (tc_dump_record cfg) results sql_text, tr_error = [],
                tr_data = Some ([], map (\<lambda>r c. map_option JStr (r c)) results)\<rparr>, s1))"

definition execute_analysis ::
  "unicode \<Rightarrow> environment \<Rightarrow> tool_config \<Rightarrow> str \<Rightarrow> tool_state \<Rightarrow> (exception + tool_result) \<times> tool_state" where
  "execute_analysis U env cfg args s =
     (let knowledge_id = string_argument (lit ''knowledge_id'') (tc_loads cfg args);
          sql = string_argument (lit ''sql'') (tc_loads cfg args);
          failed_load = (\<lambda>m. failed (lit ''Failed to load knowledge ID '' @ squoted knowledge_id @ lit '': '' @ m))
      in case resolve_knowledge cfg knowledge_id of
           Inl e \<Rightarrow> if is_application_error e then (Inr (failed (tc_message cfg e)), s) else (Inl (Application e), s)
         | Inr None \<Rightarrow> (Inr (failed_load (lit ''knowledge service returned an empty result'')), s)
         | Inr (Some knowledge) \<Rightarrow>
             (case load_from_knowledge U env cfg knowledge s of
                (Inl OtherException, s1) \<Rightarrow> (Inl (Raised OtherException), s1)
              | (Inl (AnalysisExecutionError m), s1) \<Rightarrow> (Inr (failed_load m), s1)
              | (Inr schema, s1) \<Rightarrow>
                  let sql_text = prepared_sql U sql knowledge_id schema
                  in if \<not> is_read_only U sql_text then (Inr (failed READ_ONLY_ERROR_MESSAGE), s1)
                     else case validate_sql U sql_text (analysis_config U (ts_table_name schema)) of
                            e # es \<Rightarrow> (Inr (validation_failed (e # es)), s1)
                          | [] \<Rightarrow> run_query U env cfg sql_text schema s1))"

definition cleanup :: "tool_state \<Rightarrow> tool_state" where
  "cleanup s =
     (if da_created_tables s = [] then s
      else (fold (\<lambda>t s. emit (DropTable t) s) (da_created_tables s) s)\<lparr>da_created_tables := []\<rparr>)"

subsection \<open>The runs of one tool\<close>

inductive analysis_run :: "unicode \<Rightarrow> tool_state \<Rightarrow> bool" for U where
  start: "analysis_run U \<lparr>da_created_tables = [], da_log = []\<rparr>"
| call: "analysis_run U s \<Longrightarrow> execute_analysis U env cfg args s = (r, s') \<Longrightarrow> analysis_run U s'"
| clean: "analysis_run U s \<Longrightarrow> analysis_run U (cleanup s)"

definition occurrences :: "(event \<Rightarrow> bool) \<Rightarrow> tool_state \<Rightarrow> nat" where
  "occurrences P s = length (filter P (da_log s))"

definition loads_table :: "str \<Rightarrow> event \<Rightarrow> bool" where
  "loads_table t e \<longleftrightarrow> (case e of LoadCsv u p \<Rightarrow> u = t | LoadExcel u p xs \<Rightarrow> u = t | _ \<Rightarrow> False)"

definition tables_tracked :: "tool_state \<Rightarrow> bool" where
  "tables_tracked s \<longleftrightarrow> distinct (da_created_tables s) \<and>
     (\<forall>t. occurrences (loads_table t) s \<le> occurrences ((=) (DropTable t)) s + of_bool (t \<in> set (da_created_tables s)))"

definition files_removed :: "tool_state \<Rightarrow> bool" where
  "files_removed s \<longleftrightarrow> (\<forall>p. occurrences ((=) (TempFile p)) s = occurrences ((=) (RemoveFile p)) s)"

definition queries_checked :: "unicode \<Rightarrow> tool_state \<Rightarrow> bool" where
  "queries_checked U s \<longleftrightarrow> (\<forall>q. RunQuery q \<in> set (da_log s) \<longrightarrow>
     is_read_only U q \<and> (\<exists>t. validate_sql U q (analysis_config U t) = []))"

lemma emit_simps [simp]:
  "da_created_tables (emit e s) = da_created_tables s" "da_log (emit e s) = da_log s @ [e]"
  "occurrences P (emit e s) = occurrences P s + of_bool (P e)"
  by (simp_all add: emit_def occurrences_def)

lemma occurrences_tables [simp]: "occurrences P (s\<lparr>da_created_tables := ts\<rparr>) = occurrences P s"
  by (simp add: occurrences_def)

lemma emit_invariants:
  "(\<forall>t. \<not> loads_table t e) \<Longrightarrow> (\<forall>t. e \<noteq> DropTable t) \<Longrightarrow> tables_tracked (emit e s) = tables_tracked s"
  "(\<forall>q. e \<noteq> RunQuery q) \<Longrightarrow> queries_checked U (emit e s) = queries_checked U s"
  by (auto simp: tables_tracked_def queries_checked_def)

text \<open>Loading records the table before the engine sees it, and touches nothing else.\<close>

lemma record_load:
  assumes "tables_tracked s" and "record_created_table t s = (True, s1)"
  shows "tables_tracked s1" "tables_tracked (emit (LoadCsv t p) s1)" "tables_tracked (emit (LoadExcel t p xs) s1)"
    "tables_tracked (emit (LoadExcel t p xs) (emit (ListSheets p) s1))"
proof -
  have s1: "s1 = s\<lparr>da_created_tables := da_created_tables s @ [t]\<rparr>" "t \<notin> set (da_created_tables s)"
    using assms(2) by (auto simp: record_created_table_def split: if_splits)
  have d: "distinct (da_created_tables s1)" using assms(1) s1 by (simp add: tables_tracked_def)
  have le: "occurrences (loads_table u) s1 + of_bool (u = t) \<le>
      occurrences ((=) (DropTable u)) s1 + of_bool (u \<in> set (da_created_tables s1))" for u
  proof -
    have "occurrences (loads_table u) s \<le> occurrences ((=) (DropTable u)) s + of_bool (u \<in> set (da_created_tables s))"
      using assms(1) by (simp add: tables_tracked_def)
    then show ?thesis using s1 by (cases "u = t") simp_all
  qed
  have le': "occurrences (loads_table u) s1 \<le>
      occurrences ((=) (DropTable u)) s1 + of_bool (u \<in> set (da_created_tables s1))" for u
    using le [of u] by linarith
  show "tables_tracked s1" using d le' by (simp add: tables_tracked_def)
  have e: "loads_table u (LoadCsv t p) = (u = t)" "loads_table u (LoadExcel t p xs) = (u = t)"
    "\<not> loads_table u (ListSheets p)" for u by (auto simp: loads_table_def)
  show "tables_tracked (emit (LoadCsv t p) s1)" "tables_tracked (emit (LoadExcel t p xs) s1)"
    "tables_tracked (emit (LoadExcel t p xs) (emit (ListSheets p) s1))"
    using d le by (simp_all add: tables_tracked_def e)
qed

definition loading :: "event \<Rightarrow> bool" where
  "loading e \<longleftrightarrow> (case e of LoadCsv t p \<Rightarrow> True | ListSheets p \<Rightarrow> True | LoadExcel t p xs \<Rightarrow> True | _ \<Rightarrow> False)"

lemma load_effect:
  assumes "(if csv then load_csv else load_excel) env t p s = (r, s')"
  shows "\<exists>xs. da_log s' = da_log s @ xs \<and> list_all loading xs" and "tables_tracked s \<Longrightarrow> tables_tracked s'"
proof -
  obtain new s1 where rec: "record_created_table t s = (new, s1)" by (cases "record_created_table t s")
  have log: "da_log s1 = da_log s" using rec by (auto simp: record_created_table_def split: if_splits)
  have list: "tables_tracked (emit (ListSheets p) s1)" if "tables_tracked s1"
    using that by (simp add: emit_invariants loads_table_def)
  show "\<exists>xs. da_log s' = da_log s @ xs \<and> list_all loading xs"
    using assms rec log
    by (auto simp: load_csv_def load_excel_def Let_def loading_def split: if_splits sum.splits failure.splits bool.splits)
  assume t: "tables_tracked s"
  show "tables_tracked s'"
  proof (cases new)
    case True
    then show ?thesis
      using assms rec record_load [OF t, of t s1] list
      by (auto simp: load_csv_def load_excel_def Let_def split: if_splits sum.splits failure.splits)
  next
    case False
    then have "s1 = s" using rec by (auto simp: record_created_table_def split: if_splits)
    then show ?thesis using assms rec False t by (auto simp: load_csv_def load_excel_def split: if_splits)
  qed
qed

lemma loading_invariants:
  assumes "da_log s' = da_log s @ xs" and "list_all loading xs"
  shows "queries_checked U s' = queries_checked U s" "occurrences ((=) (TempFile p)) s' = occurrences ((=) (TempFile p)) s"
    "occurrences ((=) (RemoveFile p)) s' = occurrences ((=) (RemoveFile p)) s"
proof -
  have no: "RunQuery q \<notin> set xs" "filter ((=) (TempFile p)) xs = []" "filter ((=) (RemoveFile p)) xs = []" for q
    using assms(2) by (auto simp: list_all_iff loading_def filter_empty_conv)
  show "queries_checked U s' = queries_checked U s" "occurrences ((=) (TempFile p)) s' = occurrences ((=) (TempFile p)) s"
    "occurrences ((=) (RemoveFile p)) s' = occurrences ((=) (RemoveFile p)) s"
    using no by (auto simp: queries_checked_def occurrences_def assms(1))
qed

definition run_invariant :: "unicode \<Rightarrow> tool_state \<Rightarrow> bool" where
  "run_invariant U s \<longleftrightarrow> tables_tracked s \<and> files_removed s \<and> queries_checked U s"

lemma run_invariant_emit:
  assumes "\<forall>t. \<not> loads_table t e" "\<forall>t. e \<noteq> DropTable t" "\<forall>q. e \<noteq> RunQuery q" "\<forall>p. e \<noteq> TempFile p \<and> e \<noteq> RemoveFile p"
  shows "run_invariant U (emit e s) = run_invariant U s"
proof -
  have "TempFile p \<noteq> e" "RemoveFile p \<noteq> e" for p using assms(4) by metis+
  then show ?thesis using assms by (simp add: run_invariant_def emit_invariants files_removed_def)
qed

lemma load_and_remove:
  assumes "run_invariant U s" and "(if csv then load_csv else load_excel) env t p (emit (TempFile p) s) = (r, s')"
  shows "run_invariant U (emit (RemoveFile p) s')" and "run_invariant U (emit (RemoveFile p) (emit (DescribeTable t) s'))"
proof -
  obtain xs where xs: "da_log s' = da_log (emit (TempFile p) s) @ xs" "list_all loading xs"
    using load_effect(1) [OF assms(2)] by blast
  have "tables_tracked (emit (TempFile p) s)" using assms(1) by (simp add: run_invariant_def emit_invariants loads_table_def)
  then have t: "tables_tracked s'" by (rule load_effect(2) [OF assms(2)])
  have q: "queries_checked U s'"
    using loading_invariants(1) [OF xs] assms(1) by (simp add: run_invariant_def emit_invariants)
  have "occurrences ((=) (TempFile u)) s' = occurrences ((=) (RemoveFile u)) s' + of_bool (u = p)" for u
    using loading_invariants(2,3) [OF xs] assms(1) by (simp add: run_invariant_def files_removed_def)
  then show "run_invariant U (emit (RemoveFile p) s')" "run_invariant U (emit (RemoveFile p) (emit (DescribeTable t) s'))"
    using t q by (simp_all add: run_invariant_def emit_invariants files_removed_def loads_table_def)
qed

lemma load_from_knowledge_invariant:
  assumes "run_invariant U s" and "load_from_knowledge U env cfg k s = (r, s')"
  shows "run_invariant U s'"
proof -
  define s1 where "s1 = emit (Materialize (or_empty (tc_file_path cfg k)) (or_empty (tc_file_type cfg k))) s"
  have s1: "run_invariant U s1" using assms(1) by (simp add: s1_def run_invariant_emit loads_table_def)
  let ?ft = "lower U (strip (or_empty (tc_file_type cfg k)))" and ?t = "table_name_for_knowledge k"
  show ?thesis
  proof (cases "?ft \<notin> set SUPPORTED_FILE_TYPES")
    case True
    then show ?thesis using assms by (simp add: load_from_knowledge_def Let_def)
  next
    case ft: False
    show ?thesis
    proof (cases "env_materialize env (da_log s1)")
      case (Inl e)
      then show ?thesis using assms(2) ft s1 by (simp add: load_from_knowledge_def Let_def s1_def)
    next
      case (Inr p)
      obtain e s2 where l: "(if ?ft = lit ''csv'' then load_csv else load_excel) env ?t p (emit (TempFile p) s1) = (e, s2)"
        by (cases "(if ?ft = lit ''csv'' then load_csv else load_excel) env ?t p (emit (TempFile p) s1)")
      have "s' = (case e of Some _ \<Rightarrow> emit (RemoveFile p) s2 | None \<Rightarrow> emit (RemoveFile p) (emit (DescribeTable ?t) s2))"
        using assms(2) ft Inr l unfolding load_from_knowledge_def Let_def s1_def [symmetric] by (cases e) simp_all
      then show ?thesis using load_and_remove [OF s1 l] by (cases e) simp_all
    qed
  qed
qed

lemma execute_invariant:
  assumes "run_invariant U s" and "execute_analysis U env cfg args s = (r, s')"
  shows "run_invariant U s'"
proof -
  let ?kid = "string_argument (lit ''knowledge_id'') (tc_loads cfg args)"
  show ?thesis
  proof (cases "resolve_knowledge cfg ?kid")
    case (Inl e)
    then show ?thesis using assms by (simp add: execute_analysis_def Let_def split: if_splits)
  next
    case (Inr k)
    show ?thesis
    proof (cases k)
      case None
      then show ?thesis using assms Inr by (simp add: execute_analysis_def Let_def)
    next
      case (Some doc)
      obtain l s1 where l: "load_from_knowledge U env cfg doc s = (l, s1)" by (cases "load_from_knowledge U env cfg doc s")
      have s1: "run_invariant U s1" by (rule load_from_knowledge_invariant [OF assms(1) l])
      show ?thesis
      proof (cases l)
        case (Inl f)
        then show ?thesis using assms(2) Inr Some l s1 by (cases f) (simp_all add: execute_analysis_def Let_def)
      next
        case load: (Inr schema)
        let ?sql = "prepared_sql U (string_argument (lit ''sql'') (tc_loads cfg args)) ?kid schema"
        have run: "run_invariant U (emit (RunQuery ?sql) s1)"
          if "is_read_only U ?sql" "validate_sql U ?sql (analysis_config U (ts_table_name schema)) = []"
          using s1 that by (auto simp: run_invariant_def emit_invariants loads_table_def files_removed_def queries_checked_def)
        show ?thesis
          using assms(2) Inr Some l load s1 run
          by (auto simp: execute_analysis_def Let_def run_query_def split: if_splits list.splits sum.splits failure.splits)
      qed
    qed
  qed
qed

end
