(* ===== verification/Analysis_Properties.thy ===== *)
theory Analysis_Properties
  imports Data_Analysis SQL_Bypass
begin

text \<open>
  The properties of the data-analysis tool: what every run of calls and clean-ups keeps, and the
  statements its checks do not look at.
\<close>

subsection \<open>Runs\<close>

lemma fold_drop:
  "da_log (fold (\<lambda>t s. emit (DropTable t) s) ts s) = da_log s @ map DropTable ts"
  "da_created_tables (fold (\<lambda>t s. emit (DropTable t) s) ts s) = da_created_tables s"
  by (induction ts arbitrary: s) simp_all

lemma cleanup_log:
  "da_log (cleanup s) = da_log s @ map DropTable (da_created_tables s)" "da_created_tables (cleanup s) = []"
  by (simp_all add: cleanup_def fold_drop)

lemma count_drops: "distinct ts \<Longrightarrow> length (filter ((=) (DropTable t)) (map DropTable ts)) = of_bool (t \<in> set ts)"
  by (induction ts) auto

lemma cleanup_invariant:
  assumes "run_invariant U s"
  shows "run_invariant U (cleanup s)"
    and "occurrences (loads_table t) (cleanup s) \<le> occurrences ((=) (DropTable t)) (cleanup s)"
proof -
  have d: "distinct (da_created_tables s)" using assms by (simp add: run_invariant_def tables_tracked_def)
  have none: "filter (loads_table u) (map DropTable ts) = []" "filter ((=) (TempFile p)) (map DropTable ts) = []"
    "filter ((=) (RemoveFile p)) (map DropTable ts) = []" for u p ts
    by (auto simp: loads_table_def filter_empty_conv)
  have drops: "occurrences (loads_table u) (cleanup s) \<le> occurrences ((=) (DropTable u)) (cleanup s)" for u
    using assms count_drops [OF d, of u]
    by (simp add: occurrences_def cleanup_log none run_invariant_def tables_tracked_def)
  then show "occurrences (loads_table t) (cleanup s) \<le> occurrences ((=) (DropTable t)) (cleanup s)" .
  show "run_invariant U (cleanup s)"
    using assms drops none
    by (auto simp: run_invariant_def tables_tracked_def files_removed_def queries_checked_def occurrences_def cleanup_log)
qed

lemma analysis_run_invariant: "analysis_run U s \<Longrightarrow> run_invariant U s"
proof (induction rule: analysis_run.induct)
  case start
  show ?case by (simp add: run_invariant_def tables_tracked_def files_removed_def queries_checked_def occurrences_def)
next
  case (call s env cfg args r s')
  then show ?case using execute_invariant by blast
next
  case (clean s)
  then show ?case by (intro cleanup_invariant(1))
qed

text \<open>C34: Whatever calls and clean-ups a tool goes through, and whatever the engine, the resolver and the
  lookup answer: every query it has sent to the engine begins with a read-only keyword and passed
  the validation against a loaded table; every temporary file it made is removed; each table is
  loaded at most once more than it was dropped, a load that failed counting as one; and a clean-up
  drops every table that was loaded and forgets them all.\<close>

theorem analysis_runs:
  assumes "analysis_run U s"
  shows "(\<forall>q. RunQuery q \<in> set (da_log s) \<longrightarrow> is_read_only U q \<and> (\<exists>t. validate_sql U q (analysis_config U t) = [])) \<and>
    (\<forall>p. occurrences ((=) (TempFile p)) s = occurrences ((=) (RemoveFile p)) s) \<and>
    (\<forall>t. occurrences (loads_table t) s \<le> occurrences ((=) (DropTable t)) s + 1) \<and>
    (\<forall>t. occurrences (loads_table t) (cleanup s) \<le> occurrences ((=) (DropTable t)) (cleanup s)) \<and>
    da_created_tables (cleanup s) = []"
proof -
  have inv: "run_invariant U s" by (rule analysis_run_invariant [OF assms])
  have "occurrences (loads_table t) s \<le> occurrences ((=) (DropTable t)) s + 1" for t
  proof -
    have "occurrences (loads_table t) s \<le> occurrences ((=) (DropTable t)) s + of_bool (t \<in> set (da_created_tables s))"
      using inv by (simp add: run_invariant_def tables_tracked_def)
    then show ?thesis by (cases "t \<in> set (da_created_tables s)") simp_all
  qed
  moreover have "\<forall>q. RunQuery q \<in> set (da_log s) \<longrightarrow> is_read_only U q \<and> (\<exists>t. validate_sql U q (analysis_config U t) = [])"
    using inv by (simp add: run_invariant_def queries_checked_def)
  moreover have "\<forall>p. occurrences ((=) (TempFile p)) s = occurrences ((=) (RemoveFile p)) s"
    using inv by (simp add: run_invariant_def files_removed_def)
  ultimately show ?thesis using cleanup_invariant(2) [OF inv] cleanup_log(2) [of s] by blast
qed

definition example_document :: document where
  "example_document = \<lparr>doc_id = lit ''d-1'', doc_knowledge_base_id = lit ''kb'', doc_title = None, doc_file_name = None\<rparr>"

definition example_schema :: table_schema where
  "example_schema = \<lparr>ts_table_name = lit ''k_d_1'', ts_columns = [], ts_row_count = 0\<rparr>"

definition example_environment :: environment where
  "example_environment = \<lparr>env_materialize = (\<lambda>_. Inr (lit ''/tmp/f'')), env_load = (\<lambda>_. None), env_list_sheets = (\<lambda>_. Inr []),
     env_describe = (\<lambda>_. Inr example_schema), env_query = (\<lambda>_. Inr [])\<rparr>"

definition example_config :: tool_config where
  "example_config = \<lparr>tc_search_targets = None, tc_knowledge_service = Some (\<lambda>_. Inr (Some example_document)),
     tc_fetch_tags = None, tc_file_type = (\<lambda>_. Some (lit ''csv'')), tc_file_path = (\<lambda>_. None), tc_message = (\<lambda>_. []),
     tc_loads = (\<lambda>_. Some (JObj [(lit ''knowledge_id'', JStr (lit ''d-1'')), (lit ''sql'', JStr (lit ''drop''))])),
     tc_dump_record = (\<lambda>_. [])\<rparr>"

definition example_state :: tool_state where
  "example_state = snd (execute_analysis ascii_only example_environment example_config [] \<lparr>da_created_tables = [], da_log = []\<rparr>)"

lemma example_state_log: "da_log example_state =
    [Materialize [] (lit ''csv''), TempFile (lit ''/tmp/f''), LoadCsv (lit ''k_d_1'') (lit ''/tmp/f''), DescribeTable (lit ''k_d_1''),
     RemoveFile (lit ''/tmp/f'')]"
  by (simp add: example_state_def execute_analysis_def example_config_def example_environment_def example_schema_def
      example_document_def resolve_knowledge_def string_argument_def load_from_knowledge_def load_csv_def record_created_table_def
      emit_def Let_def or_empty_def SUPPORTED_FILE_TYPES_def table_name_for_knowledge_def prepared_sql_def replace_all_def
      reconcile_sql_columns_with_schema_def is_read_only_def READ_ONLY_PREFIXES_def lit_def strip_def is_space_def lower_eval)

lemma analysis_runs_witness:
  "LoadCsv (lit ''k_d_1'') (lit ''/tmp/f'') \<in> set (da_log example_state) \<and> da_created_tables (cleanup example_state) = [] \<and>
   occurrences (loads_table (lit ''k_d_1'')) (cleanup example_state) \<le> occurrences ((=) (DropTable (lit ''k_d_1''))) (cleanup example_state)"
proof -
  obtain r where "execute_analysis ascii_only example_environment example_config [] \<lparr>da_created_tables = [], da_log = []\<rparr> = (r, example_state)"
    by (metis example_state_def prod.collapse)
  then have "analysis_run ascii_only example_state"
    by (rule analysis_run.call [OF analysis_run.start])
  then show ?thesis using analysis_runs [of ascii_only example_state] example_state_log by simp
qed

subsection \<open>What the checks of the tool do not look at\<close>





lemma finalize_spec_function [simp]: "fs_function (finalize_spec U st) = fs_function st"
  by (simp add: finalize_spec_def Let_def split: list.splits)







end
