(* ===== verification/Think_Stream.thy ===== *)
theory Think_Stream
  imports KB_Prelude
begin

text \<open>
  Inline reasoning in the answer channel, src/src/core/agents/engine/loop.py: \<open>strip_think_blocks\<close>
  on the whole text, \<open>_ThinkStreamSplitter\<close> on its chunks, and that the second is the first however
  the stream is cut, as far as every block is closed.
\<close>

definition THINK_OPEN_TAG :: str where "THINK_OPEN_TAG = lit ''<think>''"
definition THINK_CLOSE_TAG :: str where "THINK_CLOSE_TAG = lit ''</think>''"

lemma tag_facts [simp]: "THINK_OPEN_TAG \<noteq> []" "THINK_CLOSE_TAG \<noteq> []" "length THINK_OPEN_TAG = 7" "length THINK_CLOSE_TAG = 8"
  by (simp_all add: THINK_OPEN_TAG_def THINK_CLOSE_TAG_def)

subsection \<open>The whole text\<close>

text \<open>\<open>_THINK_BLOCK_RE.sub("", content)\<close>: a block runs to the nearest closing tag.\<close>

function remove_blocks :: "str \<Rightarrow> str" where
  "remove_blocks s =
     (case find_str THINK_OPEN_TAG s of
        None \<Rightarrow> s
      | Some i \<Rightarrow>
          let rest = drop (i + 7) s
          in (case find_str THINK_CLOSE_TAG rest of
                None \<Rightarrow> s
              | Some j \<Rightarrow> take i s @ remove_blocks (drop (j + 8) rest)))"
  by pat_completeness auto
termination
  by (relation "measure length") (auto dest: find_str_Some)

declare remove_blocks.simps [simp del]

text \<open>\<open>strip(" \t\r\n")\<close>.\<close>

definition is_blank :: "rune \<Rightarrow> bool" where
  "is_blank c \<longleftrightarrow> c = 32 \<or> c = 9 \<or> c = 13 \<or> c = 10"

definition strip_blanks :: "str \<Rightarrow> str" where
  "strip_blanks s = rev (dropWhile is_blank (rev (dropWhile is_blank s)))"

definition strip_think_blocks :: "str \<Rightarrow> str" where
  "strip_think_blocks content = (if content = [] then [] else strip_blanks (remove_blocks content))"

subsection \<open>The splitter\<close>

text \<open>Length of the longest proper prefix of the tag that ends the text.\<close>

definition partial_len :: "str \<Rightarrow> str \<Rightarrow> nat" where
  "partial_len text tag =
     (case find (\<lambda>k. drop (length text - k) text = take k tag) (rev [1..<Suc (min (length tag - 1) (length text))]) of
        None \<Rightarrow> 0 | Some k \<Rightarrow> k)"

definition hold_back_partial_tag :: "str \<Rightarrow> str \<Rightarrow> str \<times> str" where
  "hold_back_partial_tag text tag =
     (take (length text - partial_len text tag) text, drop (length text - partial_len text tag) text)"

record splitter =
  sp_in_think :: bool
  sp_pending :: str

definition splitter_init :: splitter where
  "splitter_init = \<lparr>sp_in_think = False, sp_pending = []\<rparr>"

definition tag_of :: "bool \<Rightarrow> str" where
  "tag_of in_think = (if in_think then THINK_CLOSE_TAG else THINK_OPEN_TAG)"

text \<open>Text of the current channel: \<open>(think, answer)\<close>.\<close>

definition channel :: "bool \<Rightarrow> str \<Rightarrow> str \<times> str" where
  "channel in_think s = (if in_think then (s, []) else ([], s))"

definition both :: "str \<times> str \<Rightarrow> str \<times> str \<Rightarrow> str \<times> str" where
  "both a b = (fst a @ fst b, snd a @ snd b)"

lemma both_simps [simp]: "both (both a b) c = both a (both b c)" "both ([], []) a = a" "both a ([], []) = a"
  "fst (both a b) = fst a @ fst b" "snd (both a b) = snd a @ snd b"
  by (simp_all add: both_def)

lemma channel_append: "channel m (a @ b) = both (channel m a) (channel m b)"
  by (simp add: channel_def both_def)

lemma channel_Nil [simp]: "channel m [] = ([], [])"
  by (simp add: channel_def)

lemma tag_of_facts [simp]: "tag_of m \<noteq> []" "0 < length (tag_of m)"
  by (simp_all add: tag_of_def)

text \<open>The loop of \<open>feed\<close> over the pending text: out, mode and what is held back.\<close>

function split_loop :: "bool \<Rightarrow> str \<Rightarrow> (str \<times> str) \<times> splitter" where
  "split_loop m pending =
     (case find_str (tag_of m) pending of
        Some i \<Rightarrow>
          (case split_loop (\<not> m) (drop (i + length (tag_of m)) pending) of
             (out, sp) \<Rightarrow> (both (channel m (take i pending)) out, sp))
      | None \<Rightarrow>
          (case hold_back_partial_tag pending (tag_of m) of
             (safe, hold) \<Rightarrow> (channel m safe, \<lparr>sp_in_think = m, sp_pending = hold\<rparr>)))"
  by pat_completeness auto
termination
  by (relation "measure (\<lambda>(m, s). length s)") (auto dest!: find_str_Some simp: tag_of_def split: if_splits)

declare split_loop.simps [simp del]

definition sp_feed :: "splitter \<Rightarrow> str \<Rightarrow> (str \<times> str) \<times> splitter" where
  "sp_feed sp chunk = (if chunk = [] then (([], []), sp) else split_loop (sp_in_think sp) (sp_pending sp @ chunk))"

definition sp_flush :: "splitter \<Rightarrow> (str \<times> str) \<times> splitter" where
  "sp_flush sp = (channel (sp_in_think sp) (sp_pending sp), sp\<lparr>sp_pending := []\<rparr>)"

fun sp_feed_all :: "splitter \<Rightarrow> str list \<Rightarrow> (str \<times> str) \<times> splitter" where
  "sp_feed_all sp [] = (([], []), sp)"
| "sp_feed_all sp (c # cs) =
     (case sp_feed sp c of (out, sp1) \<Rightarrow> (case sp_feed_all sp1 cs of (out', sp2) \<Rightarrow> (both out out', sp2)))"

subsection \<open>The channels of a text\<close>

text \<open>Reading a whole text with the tags switching the channel.\<close>

function channels :: "bool \<Rightarrow> str \<Rightarrow> (str \<times> str) \<times> bool" where
  "channels m s =
     (case find_str (tag_of m) s of
        None \<Rightarrow> (channel m s, m)
      | Some i \<Rightarrow>
          (case channels (\<not> m) (drop (i + length (tag_of m)) s) of
             (out, m') \<Rightarrow> (both (channel m (take i s)) out, m')))"
  by pat_completeness auto
termination
  by (relation "measure (\<lambda>(m, s). length s)") (auto dest!: find_str_Some simp: tag_of_def split: if_splits)

declare channels.simps [simp del]

lemma find_str_None: "find_str needle s = None \<longleftrightarrow> needle = [] \<and> s = [] \<or> \<not> contains_str needle s"
  by (induction needle s rule: find_str.induct) auto

lemma find_str_first:
  assumes "starts_with needle (drop i s)" and "i < length s" and "\<And>j. j < i \<Longrightarrow> \<not> starts_with needle (drop j s)"
  shows "find_str needle s = Some i"
  using assms
proof (induction s arbitrary: i)
  case (Cons c cs)
  show ?case
  proof (cases i)
    case 0
    then show ?thesis using Cons.prems by simp
  next
    case (Suc i')
    have "\<not> starts_with needle (c # cs)" using Cons.prems(3) [of 0] Suc by simp
    moreover have "\<not> starts_with needle (drop j cs)" if "j < i'" for j
      using Cons.prems(3) [of "Suc j"] that Suc by simp
    then have "find_str needle cs = Some i'" using Cons.prems(1,2) Suc by (intro Cons.IH) simp_all
    ultimately show ?thesis using Suc by simp
  qed
qed simp

lemma find_str_earlier: "find_str needle s = Some i \<Longrightarrow> j < i \<Longrightarrow> \<not> starts_with needle (drop j s)"
proof (induction needle s arbitrary: i j rule: find_str.induct)
  case (2 needle c cs)
  then show ?case by (cases j) (auto split: if_splits)
qed simp

lemma find_str_skip:
  assumes "\<And>j. j < length a \<Longrightarrow> \<not> starts_with needle (drop j (a @ t))"
  shows "find_str needle (a @ t) = map_option (\<lambda>i. length a + i) (find_str needle t)"
  using assms
proof (induction a)
  case (Cons c a)
  have "\<not> starts_with needle (c # a @ t)" using Cons.prems [of 0] by simp
  moreover have "find_str needle (a @ t) = map_option (\<lambda>i. length a + i) (find_str needle t)"
    using Cons.prems [of "Suc _"] by (intro Cons.IH) force
  ultimately show ?case by (cases "find_str needle t") simp_all
qed (cases "find_str needle t", simp_all)

lemma find_rev_upt: "1 \<le> k \<Longrightarrow> k < n \<Longrightarrow> P k \<Longrightarrow> \<exists>l. find P (rev [1..<n]) = Some l \<and> k \<le> l \<and> l < n"
proof (induction n)
  case (Suc n)
  show ?case
  proof (cases "P n")
    case True
    then show ?thesis using Suc.prems by (auto simp: less_Suc_eq_le)
  next
    case False
    then have "k < n" using Suc.prems by (metis less_antisym)
    then show ?thesis using Suc False by (auto simp: less_Suc_eq)
  qed
qed simp

lemma partial_len_max:
  assumes "1 \<le> k" and "k < length tag" and "k \<le> length text" and "drop (length text - k) text = take k tag"
  shows "k \<le> partial_len text tag"
proof -
  let ?P = "\<lambda>k. drop (length text - k) text = take k tag" and ?n = "Suc (min (length tag - 1) (length text))"
  have "k < ?n" using assms(2,3) by simp
  then obtain l where "find ?P (rev [1..<?n]) = Some l" "k \<le> l"
    using find_rev_upt [of k ?n ?P] assms(1,4) by blast
  then show ?thesis by (simp add: partial_len_def)
qed

lemma partial_len_le: "partial_len text tag \<le> length text"
proof (cases "find (\<lambda>k. drop (length text - k) text = take k tag) (rev [1..<Suc (min (length tag - 1) (length text))])")
  case (Some k)
  then have "k \<in> set (rev [1..<Suc (min (length tag - 1) (length text))])" by (metis find_Some_iff nth_mem)
  then have "k \<le> length text" unfolding set_rev set_upt by auto
  then show ?thesis unfolding partial_len_def Some by simp
qed (simp add: partial_len_def)

text \<open>No tag begins before what is held back, whatever follows.\<close>

lemma no_tag_before_hold:
  assumes "find_str tag s = None" and "tag \<noteq> []" and "j < length s - partial_len s tag"
  shows "\<not> starts_with tag (drop j (s @ d))"
proof
  assume "starts_with tag (drop j (s @ d))"
  then obtain z where z: "drop j s @ d = tag @ z" using assms(3) by (auto simp: starts_with_iff)
  show False
  proof (cases "length tag \<le> length (drop j s)")
    case True
    then have "starts_with tag (drop j s)" using z by (metis append_eq_append_conv_if append_take_drop_id starts_with_iff)
    then have "contains_str tag s" by (metis append_take_drop_id contains_str_iff starts_with_iff)
    then show False using assms(1,2) by (simp add: find_str_None)
  next
    case False
    let ?k = "length s - j"
    have "drop j s = take ?k tag"
    proof -
      have "take ?k (drop j s @ d) = drop j s" by simp
      moreover have "take ?k (tag @ z) = take ?k tag" using False by simp
      ultimately show ?thesis using z by simp
    qed
    moreover have "length s - ?k = j" using assms(3) by simp
    ultimately have "?k \<le> partial_len s tag" using False assms(3) by (intro partial_len_max) auto
    then show False using assms(3) by linarith
  qed
qed

lemma channels_skip:
  assumes "\<And>j. j < length a \<Longrightarrow> \<not> starts_with (tag_of m) (drop j (a @ t))"
  shows "channels m (a @ t) = (both (channel m a) (fst (channels m t)), snd (channels m t))"
proof (cases "find_str (tag_of m) t")
  case None
  then show ?thesis
    using find_str_skip [OF assms] by (simp add: channels.simps [of m "a @ t"] channels.simps [of m t] channel_append)
next
  case (Some i)
  then show ?thesis
    using find_str_skip [OF assms]
    by (simp add: channels.simps [of m "a @ t"] channels.simps [of m t] channel_append add.assoc split: prod.splits)
qed

text \<open>What the loop has put out, followed by the channels of the rest, is the channels of the whole.\<close>

lemma split_loop_channels:
  "split_loop m s = (out, sp) \<Longrightarrow>
    channels m (s @ d) = (both out (fst (channels (sp_in_think sp) (sp_pending sp @ d))),
      snd (channels (sp_in_think sp) (sp_pending sp @ d)))"
proof (induction m s arbitrary: out sp rule: split_loop.induct)
  case (1 m s)
  show ?case
  proof (cases "find_str (tag_of m) s")
    case None
    let ?n = "length s - partial_len s (tag_of m)"
    have eq: "out = channel m (take ?n s)" "sp = \<lparr>sp_in_think = m, sp_pending = drop ?n s\<rparr>"
      using "1.prems" None by (simp_all add: split_loop.simps [of m s] hold_back_partial_tag_def)
    have "channels m (take ?n s @ drop ?n s @ d) =
        (both (channel m (take ?n s)) (fst (channels m (drop ?n s @ d))), snd (channels m (drop ?n s @ d)))"
      using no_tag_before_hold [OF None tag_of_facts(1), of _ d]
      by (intro channels_skip) (simp add: append_assoc [symmetric] del: append_assoc)
    then show ?thesis by (simp add: eq append_assoc [symmetric] del: append_assoc)
  next
    case (Some i)
    obtain out' where r: "split_loop (\<not> m) (drop (i + length (tag_of m)) s) = (out', sp)" "out = both (channel m (take i s)) out'"
      using "1.prems" Some by (simp add: split_loop.simps [of m s] split: prod.splits)
    have i: "i < length s" "starts_with (tag_of m) (drop i s)" using find_str_Some [OF Some] by simp_all
    then have len: "i + length (tag_of m) \<le> length s" by (auto simp: starts_with_iff dest!: arg_cong [of _ _ length])
    have "find_str (tag_of m) (s @ d) = Some i"
    proof (rule find_str_first)
      show "starts_with (tag_of m) (drop i (s @ d))" using i by (auto simp: starts_with_iff)
      fix j assume "j < i"
      show "\<not> starts_with (tag_of m) (drop j (s @ d))"
      proof
        assume "starts_with (tag_of m) (drop j (s @ d))"
        then obtain z where "drop j s @ d = tag_of m @ z" using \<open>j < i\<close> i by (auto simp: starts_with_iff)
        moreover have "length (tag_of m) \<le> length (drop j s)" using \<open>j < i\<close> len by simp
        ultimately have "starts_with (tag_of m) (drop j s)"
          by (metis append_eq_append_conv_if append_take_drop_id starts_with_iff)
        then show False using find_str_earlier [OF Some \<open>j < i\<close>] by simp
      qed
    qed (use i in simp)
    then show ?thesis
      using "1.IH" [OF Some r(1)] r(2) len
      by (simp add: channels.simps [of m "s @ d"] split: prod.splits)
  qed
qed

lemma sp_feed_channels:
  "sp_feed sp c = (out, sp') \<Longrightarrow> channels (sp_in_think sp) (sp_pending sp @ c @ d) =
    (both out (fst (channels (sp_in_think sp') (sp_pending sp' @ d))), snd (channels (sp_in_think sp') (sp_pending sp' @ d)))"
  using split_loop_channels [of "sp_in_think sp" "sp_pending sp @ c" out sp' d]
  by (auto simp: sp_feed_def split: if_splits)

lemma sp_feed_all_channels:
  "sp_feed_all sp cs = (out, sp') \<Longrightarrow> channels (sp_in_think sp) (sp_pending sp @ concat cs) =
    (both out (fst (channels (sp_in_think sp') (sp_pending sp'))), snd (channels (sp_in_think sp') (sp_pending sp')))"
proof (induction cs arbitrary: sp out)
  case (Cons c cs)
  obtain o1 sp1 where f: "sp_feed sp c = (o1, sp1)" by (metis surj_pair)
  obtain o2 where r: "sp_feed_all sp1 cs = (o2, sp')" "out = both o1 o2" using Cons.prems f by (auto split: prod.splits)
  show ?case using sp_feed_channels [OF f, of "concat cs"] Cons.IH [OF r(1)] r(2) by simp
qed simp

text \<open>What is held back holds no tag, so the flush completes the reading.\<close>

lemma split_loop_pending: "split_loop m s = (out, sp) \<Longrightarrow> find_str (tag_of (sp_in_think sp)) (sp_pending sp) = None"
proof (induction m s arbitrary: out sp rule: split_loop.induct)
  case (1 m s)
  show ?case
  proof (cases "find_str (tag_of m) s")
    case None
    have "\<not> contains_str (tag_of m) (drop n s)" for n
    proof
      assume "contains_str (tag_of m) (drop n s)"
      then obtain u v where "drop n s = u @ tag_of m @ v" by (auto simp: contains_str_iff)
      then have "s = (take n s @ u) @ tag_of m @ v" by (metis append_assoc append_take_drop_id)
      then have "contains_str (tag_of m) s" unfolding contains_str_iff by blast
      then show False using None by (simp add: find_str_None)
    qed
    then have "find_str (tag_of m) (drop n s) = None" for n by (simp add: find_str_None)
    then show ?thesis using "1.prems" None by (auto simp: split_loop.simps [of m s] hold_back_partial_tag_def)
  next
    case (Some i)
    then show ?thesis using "1.prems" "1.IH" [OF Some] by (auto simp: split_loop.simps [of m s] split: prod.splits)
  qed
qed

lemma sp_feed_all_pending:
  "sp_feed_all sp cs = (out, sp') \<Longrightarrow> find_str (tag_of (sp_in_think sp)) (sp_pending sp) = None \<Longrightarrow>
    find_str (tag_of (sp_in_think sp')) (sp_pending sp') = None"
proof (induction cs arbitrary: sp out)
  case (Cons c cs)
  obtain o1 sp1 where f: "sp_feed sp c = (o1, sp1)" by (metis surj_pair)
  obtain o2 where r: "sp_feed_all sp1 cs = (o2, sp')" using Cons.prems f by (auto split: prod.splits)
  have "find_str (tag_of (sp_in_think sp1)) (sp_pending sp1) = None"
    using f Cons.prems(2) split_loop_pending by (auto simp: sp_feed_def split: if_splits)
  then show ?case using Cons.IH [OF r] by simp
qed simp

theorem splitter_channels:
  assumes "sp_feed_all splitter_init chunks = (out, sp)"
  shows "both out (fst (sp_flush sp)) = fst (channels False (concat chunks))"
    and "sp_in_think sp = snd (channels False (concat chunks))"
proof -
  have "find_str (tag_of (sp_in_think sp)) (sp_pending sp) = None"
    by (rule sp_feed_all_pending [OF assms]) (simp add: splitter_init_def)
  then have "channels (sp_in_think sp) (sp_pending sp) = (channel (sp_in_think sp) (sp_pending sp), sp_in_think sp)"
    by (simp add: channels.simps)
  then show "both out (fst (sp_flush sp)) = fst (channels False (concat chunks))"
    "sp_in_think sp = snd (channels False (concat chunks))"
    using sp_feed_all_channels [OF assms] by (simp_all add: splitter_init_def sp_flush_def)
qed

text \<open>The answer channel is the text without its blocks when no block is left open; an open block is kept
  by the regular expression and withheld by the splitter.\<close>

lemma remove_blocks_channels:
  "\<exists>rest. remove_blocks s = snd (fst (channels False s)) @ rest \<and>
     (if snd (channels False s) then starts_with THINK_OPEN_TAG rest else rest = [])"
proof (induction s rule: remove_blocks.induct)
  case (1 s)
  show ?case
  proof (cases "find_str THINK_OPEN_TAG s")
    case None
    then show ?thesis by (simp add: remove_blocks.simps [of s] channels.simps [of False s] tag_of_def channel_def)
  next
    case (Some i)
    let ?rest = "drop (i + 7) s"
    have ch: "channels False s = (both ([], take i s) (fst (channels True ?rest)), snd (channels True ?rest))"
      using Some by (simp add: channels.simps [of False s] tag_of_def channel_def split: prod.splits)
    show ?thesis
    proof (cases "find_str THINK_CLOSE_TAG ?rest")
      case None
      then have "channels True ?rest = ((?rest, []), True)"
        by (simp add: channels.simps [of True ?rest] tag_of_def channel_def)
      moreover have "remove_blocks s = take i s @ drop i s" using Some None by (simp add: remove_blocks.simps [of s])
      moreover have "starts_with THINK_OPEN_TAG (drop i s)" using find_str_Some [OF Some] by simp
      ultimately show ?thesis using ch by (intro exI [of _ "drop i s"]) simp
    next
      case (Some j)
      let ?next = "drop (j + 8) ?rest"
      have "channels True ?rest = (both (take j ?rest, []) (fst (channels False ?next)), snd (channels False ?next))"
        using Some by (simp add: channels.simps [of True ?rest] tag_of_def channel_def split: prod.splits)
      moreover have "remove_blocks s = take i s @ remove_blocks ?next"
        using \<open>find_str THINK_OPEN_TAG s = Some i\<close> Some by (simp add: remove_blocks.simps [of s])
      moreover have "\<exists>rest. remove_blocks ?next = snd (fst (channels False ?next)) @ rest \<and>
          (if snd (channels False ?next) then starts_with THINK_OPEN_TAG rest else rest = [])"
        using "1.IH" [OF \<open>find_str THINK_OPEN_TAG s = Some i\<close> refl Some] .
      ultimately show ?thesis using ch by auto
    qed
  qed
qed

end
