(* ===== verification/Agent_Messages.thy ===== *)
theory Agent_Messages
  imports Think_Stream
begin

text \<open>
  The texts and messages of the agent loop, src/src/core/agents/engine/loop.py: repair of the message
  list before a model call, redaction of old retrieval results, tool-call ids and arguments, and
  the runtime context of a user turn. SHA-256 and the tables of Unicode are parameters.
\<close>

subsection \<open>Messages\<close>

record message_call =
  mc_id :: str
  mc_name :: str
  mc_arguments :: str

record message =
  msg_role :: str
  msg_content :: str
  msg_name :: str
  msg_tool_call_id :: str
  msg_tool_calls :: "message_call list"
  msg_images :: "str list"
  msg_reasoning_content :: str

definition plain_message :: "str \<Rightarrow> str \<Rightarrow> message" where
  "plain_message role content = \<lparr>msg_role = role, msg_content = content, msg_name = [], msg_tool_call_id = [],
     msg_tool_calls = [], msg_images = [], msg_reasoning_content = []\<rparr>"

abbreviation "ROLE_SYSTEM \<equiv> lit ''system''"
abbreviation "ROLE_USER \<equiv> lit ''user''"
abbreviation "ROLE_ASSISTANT \<equiv> lit ''assistant''"
abbreviation "ROLE_TOOL \<equiv> lit ''tool''"

definition has_matching_tool_call :: "message list \<Rightarrow> str \<Rightarrow> bool" where
  "has_matching_tool_call messages tool_call_id \<longleftrightarrow>
     list_ex (\<lambda>m. msg_role m = ROLE_ASSISTANT \<and> list_ex (\<lambda>c. mc_id c = tool_call_id) (msg_tool_calls m)) messages"

definition orphan_as_system :: "message \<Rightarrow> message" where
  "orphan_as_system m = m\<lparr>msg_role := ROLE_SYSTEM,
     msg_content := lit ''[Tool result for '' @ msg_name m @ lit '']: '' @ msg_content m,
     msg_tool_call_id := [], msg_name := []\<rparr>"

text \<open>One turn of the loop: \<open>before\<close> are the messages already read, \<open>result\<close> what was kept.\<close>

definition sanitize_step :: "message list \<Rightarrow> message list \<Rightarrow> message \<Rightarrow> message list" where
  "sanitize_step before result m =
     (if msg_content m = [] \<and> msg_role m \<noteq> ROLE_SYSTEM \<and> msg_role m \<noteq> ROLE_TOOL \<and> msg_tool_calls m = [] then result
      else if result \<noteq> [] \<and> msg_role m \<noteq> ROLE_TOOL \<and> msg_role (last result) = msg_role m
      then butlast result @ [(last result)\<lparr>msg_content := msg_content (last result) @ [10, 10] @ msg_content m\<rparr>]
      else if msg_role m = ROLE_TOOL \<and> msg_tool_call_id m \<noteq> [] \<and> \<not> has_matching_tool_call before (msg_tool_call_id m)
      then result @ [orphan_as_system m]
      else result @ [m])"

fun sanitize_from :: "message list \<Rightarrow> message list \<Rightarrow> message list \<Rightarrow> message list" where
  "sanitize_from before result [] = result"
| "sanitize_from before result (m # ms) = sanitize_from (before @ [m]) (sanitize_step before result m) ms"

definition sanitize_messages :: "message list \<Rightarrow> message list" where
  "sanitize_messages messages = sanitize_from [] [] messages"

definition KB_TOOL_NAMES :: "str list" where
  "KB_TOOL_NAMES = map lit [''knowledge_search'', ''grep_chunks'', ''list_knowledge_chunks'', ''query_knowledge_graph'',
     ''get_document_info'', ''wiki_search'', ''wiki_read_page'', ''wiki_read_source_doc'']"

definition OMITTED :: str where
  "OMITTED = lit ''[Previous retrieval result omitted '' @ [8212] @
     lit '' knowledge base may have changed. Please perform a fresh search.]''"

definition redact_history_kb_results :: "message list \<Rightarrow> message list" where
  "redact_history_kb_results context =
     map (\<lambda>m. if msg_role m = ROLE_TOOL \<and> msg_name m \<in> set KB_TOOL_NAMES
              then (plain_message ROLE_TOOL OMITTED)\<lparr>msg_tool_call_id := msg_tool_call_id m, msg_name := msg_name m\<rparr>
              else m) context"

subsection \<open>Tool-call ids\<close>

definition MAX_TOOL_CALL_ID_LEN :: nat where "MAX_TOOL_CALL_ID_LEN = 64"

definition valid_id_char :: "rune \<Rightarrow> bool" where
  "valid_id_char c \<longleftrightarrow> (97 \<le> c \<and> c \<le> 122) \<or> (65 \<le> c \<and> c \<le> 90) \<or> (48 \<le> c \<and> c \<le> 57) \<or> c = 95 \<or> c = 45"

text \<open>\<open>digest[:n].hex()\<close> for a digest of bytes.\<close>

definition hex_digit :: "nat \<Rightarrow> rune" where
  "hex_digit d = (if d < 10 then 48 + d else 87 + d)"

definition hex_of :: "nat list \<Rightarrow> str" where
  "hex_of bytes = concat (map (\<lambda>b. [hex_digit (b div 16 mod 16), hex_digit (b mod 16)]) bytes)"

definition normalize_tool_call_id :: "(str \<Rightarrow> nat list) \<Rightarrow> str \<Rightarrow> str \<Rightarrow> nat \<Rightarrow> str" where
  "normalize_tool_call_id sha256 call_id0 tool_name index =
     (let stripped = strip call_id0;
          call_id1 = (if stripped = [] then lit ''call_'' @ hex_of (take 6 (sha256 (tool_name @ [95] @ decimal_digits index)))
                      else stripped);
          call_id = map (\<lambda>c. if valid_id_char c then c else 95) call_id1;
          suffix0 = [95] @ hex_of (take 4 (sha256 call_id))
      in if MAX_TOOL_CALL_ID_LEN < length call_id
         then take (MAX_TOOL_CALL_ID_LEN - length suffix0) call_id @ suffix0
         else call_id)"

subsection \<open>Repair of arguments\<close>

definition escapable :: "rune \<Rightarrow> bool" where
  "escapable c \<longleftrightarrow> c \<in> {34, 92, 47, 98, 102, 110, 114, 116, 117}"

fun fix_invalid_escapes :: "bool \<Rightarrow> str \<Rightarrow> str" where
  "fix_invalid_escapes in_string [] = []"
| "fix_invalid_escapes in_string [c] =
     (if in_string \<and> c = 92 then [92, 92] else [c])"
| "fix_invalid_escapes in_string (c # d # cs) =
     (if \<not> in_string then c # fix_invalid_escapes (c = 34) (d # cs)
      else if c = 34 then c # fix_invalid_escapes False (d # cs)
      else if c \<noteq> 92 then c # fix_invalid_escapes True (d # cs)
      else if escapable d then c # d # fix_invalid_escapes True cs
      else 92 # 92 # d # fix_invalid_escapes True cs)"

definition closes :: "rune \<Rightarrow> bool" where
  "closes c \<longleftrightarrow> c = 125 \<or> c = 93"

fun fix_trailing_commas :: "bool \<Rightarrow> bool \<Rightarrow> str \<Rightarrow> str" where
  "fix_trailing_commas in_string escaped [] = []"
| "fix_trailing_commas in_string escaped (c # cs) =
     (if escaped then c # fix_trailing_commas in_string False cs
      else if c = 92 \<and> in_string then c # fix_trailing_commas in_string True cs
      else if c = 34 then c # fix_trailing_commas (\<not> in_string) False cs
      else if in_string then c # fix_trailing_commas in_string False cs
      else if c = 44 \<and> (case dropWhile is_space cs of [] \<Rightarrow> False | d # ds \<Rightarrow> closes d)
      then fix_trailing_commas in_string False cs
      else c # fix_trailing_commas in_string False cs)"

text \<open>The brackets still open at the end of a text, innermost first, and whether a string is.\<close>

fun open_brackets :: "str \<Rightarrow> bool \<Rightarrow> bool \<Rightarrow> str \<Rightarrow> str \<times> bool" where
  "open_brackets stack in_string escaped [] = (stack, in_string)"
| "open_brackets stack in_string escaped (c # cs) =
     (if escaped then open_brackets stack in_string False cs
      else if c = 92 \<and> in_string then open_brackets stack in_string True cs
      else if c = 34 then open_brackets stack (\<not> in_string) False cs
      else if in_string then open_brackets stack in_string False cs
      else if c = 123 then open_brackets (125 # stack) in_string False cs
      else if c = 91 then open_brackets (93 # stack) in_string False cs
      else if closes c \<and> stack \<noteq> [] \<and> hd stack = c then open_brackets (tl stack) in_string False cs
      else open_brackets stack in_string False cs)"

definition balance_brackets :: "str \<Rightarrow> str" where
  "balance_brackets text =
     (case open_brackets [] False False text of
        (stack, in_string) \<Rightarrow> text @ (if in_string then [34] else []) @ stack)"

definition repair_json :: "str \<Rightarrow> str" where
  "repair_json raw =
     (let repaired = strip raw
      in if repaired = [] then lit ''{}''
         else if hd repaired \<noteq> 123 \<and> 58 \<notin> set repaired \<and> 61 \<notin> set repaired then repaired
         else let braced = (if hd repaired = 123 then repaired else [123] @ repaired @ [125])
              in balance_brackets (fix_trailing_commas False False (fix_invalid_escapes False braced)))"

subsection \<open>The runtime context\<close>

definition escape_xml_text :: "str \<Rightarrow> str" where
  "escape_xml_text s = str_replace (lit ''>'') (lit ''&gt;'') (str_replace (lit ''<'') (lit ''&lt;'')
     (str_replace (lit ''&'') (lit ''&amp;'') s))"

definition escape_xml_attr :: "str \<Rightarrow> str" where
  "escape_xml_attr s = str_replace [34] (lit ''&quot;'') (escape_xml_text s)"

text \<open>\<open>text.split("\n")\<close> and \<open>"\n".join\<close>.\<close>

fun split_lines :: "str \<Rightarrow> str list" where
  "split_lines [] = [[]]"
| "split_lines (c # cs) =
     (case split_lines cs of
        [] \<Rightarrow> []
      | l # ls \<Rightarrow> if c = 10 then [] # l # ls else (c # l) # ls)"

fun join_lines :: "str list \<Rightarrow> str" where
  "join_lines [] = []"
| "join_lines [l] = l"
| "join_lines (l # m # ls) = l @ [10] @ join_lines (m # ls)"

definition indent_lines :: "str \<Rightarrow> str \<Rightarrow> str" where
  "indent_lines text indent =
     (if text = [] then [] else join_lines (map (\<lambda>line. if line = [] then line else indent @ line) (split_lines text)))"

record knowledge_base_info =
  kbi_id :: str
  kbi_name :: str
  kbi_type :: str
  kbi_description :: str
  kbi_doc_count :: nat
  kbi_capabilities :: "str list"

record selected_document =
  sd_knowledge_id :: str
  sd_knowledge_base_id :: str
  sd_title :: str
  sd_file_name :: str
  sd_file_type :: str

definition dq :: "str \<Rightarrow> str" where "dq s = [34] @ s @ [34]"

fun join_comma :: "str list \<Rightarrow> str" where
  "join_comma [] = []"
| "join_comma [x] = x"
| "join_comma (x # y # ys) = x @ [44] @ join_comma (y # ys)"

definition knowledge_base_lines :: "knowledge_base_info \<Rightarrow> str list" where
  "knowledge_base_lines kb =
     [lit ''<knowledge_base id='' @ dq (escape_xml_attr (kbi_id kb)) @ lit '' name='' @ dq (escape_xml_attr (kbi_name kb)) @
        lit '' type='' @ dq (if kbi_type kb = [] then lit ''document'' else kbi_type kb) @
        lit '' doc_count='' @ dq (decimal_digits (kbi_doc_count kb)) @
        (if kbi_capabilities kb = [] then [] else lit '' capabilities='' @ dq (join_comma (kbi_capabilities kb))) @ lit ''>''] @
     (if kbi_description kb = [] then []
      else [lit ''<description>'' @ escape_xml_text (kbi_description kb) @ lit ''</description>'']) @
     [lit ''</knowledge_base>'']"

definition format_knowledge_base_list :: "knowledge_base_info list \<Rightarrow> str" where
  "format_knowledge_base_list kbs =
     (if kbs = [] then lit ''<knowledge_bases />''
      else join_lines ([lit ''<knowledge_bases>''] @ concat (map knowledge_base_lines kbs) @ [lit ''</knowledge_bases>'']))"

definition COMMUNICATION_INSTRUCTION :: str where
  "COMMUNICATION_INSTRUCTION = lit ''  <communication_instruction>Do not use internal tool names or identifiers in your '' @
     lit ''answers or in Thought. Say '' @ dq (lit ''keyword retrieval'') @ lit '' instead of grep_chunks, '' @
     dq (lit ''semantic retrieval'') @ lit '' instead of knowledge_search, '' @ dq (lit ''browse full document'') @
     lit '' instead of list_knowledge_chunks; likewise never expose chunk_id, knowledge_id, or other internal IDs '' @ [8212] @
     lit '' refer to documents by title or name.</communication_instruction>''"

definition ANSWER_INSTRUCTION :: str where
  "ANSWER_INSTRUCTION = lit ''  <answer_instruction>When you have gathered enough information, write your complete '' @
     lit ''user-facing answer as your reply and stop '' @ [8212] @ lit '' do not request any more tools in that final message. '' @
     lit ''Until then, keep using tools; do not give a partial answer mid-investigation.</answer_instruction>''"

definition document_line :: "selected_document \<Rightarrow> str" where
  "document_line doc =
     (let title = (if sd_title doc \<noteq> [] then sd_title doc else if sd_file_name doc \<noteq> [] then sd_file_name doc
                   else sd_knowledge_id doc)
      in lit ''    <document knowledge_id='' @ dq (escape_xml_attr (sd_knowledge_id doc)) @ lit '' title='' @
         dq (escape_xml_attr title) @ lit '' file_type='' @ dq (escape_xml_attr (sd_file_type doc)) @ lit '' />'')"

text \<open>The loop over the knowledge bases appends what iterating over the indented text gives, which is
  its characters.\<close>

definition context_lines :: "str \<Rightarrow> str \<Rightarrow> knowledge_base_info list \<Rightarrow> selected_document list \<Rightarrow> str list" where
  "context_lines now session_id kbs docs =
     [lit ''<runtime_context scope='' @ dq (lit ''this_turn'') @ lit ''>'', lit ''  <current_time>'' @ now @ lit ''</current_time>'',
      lit ''  <session>'' @ escape_xml_attr session_id @ lit ''</session>''] @
     (if kbs = [] then []
      else [lit ''  <bound_knowledge_bases>''] @
        map (\<lambda>c. [c]) (indent_lines (format_knowledge_base_list kbs) (lit ''    '')) @ [lit ''  </bound_knowledge_bases>'']) @
     (if docs = [] then []
      else [lit ''  <pinned_documents scope='' @ dq (lit ''authoritative_for_this_turn'') @ lit ''>''] @ map document_line docs @
        [lit ''  </pinned_documents>'']) @
     [COMMUNICATION_INSTRUCTION, ANSWER_INSTRUCTION, lit ''</runtime_context>'']"

definition build_runtime_context_block :: "str \<Rightarrow> str \<Rightarrow> knowledge_base_info list \<Rightarrow> selected_document list \<Rightarrow> str" where
  "build_runtime_context_block now session_id kbs docs = join_lines (context_lines now session_id kbs docs)"

definition compose_user_turn :: "str list \<Rightarrow> str" where
  "compose_user_turn parts =
     (case filter (\<lambda>p. strip p \<noteq> []) parts of [] \<Rightarrow> [] | p # ps \<Rightarrow> p @ concat (map (\<lambda>q. [10, 10] @ q) ps))"

end
