(* ===== verification/Agent_Types.thy ===== *)
theory Agent_Types
  imports Agent_Messages
begin

text \<open>
  The values of the agent loop, src/src/core/agents/engine/types.py and loop.py: steps and run state,
  the chunks of a model stream, the events the loop emits, and its environment. The environment
  answers from the log of everything that happened before, so every theorem holds for every
  behaviour of model, tools, clock and cancellation.
\<close>

subsection \<open>Constants\<close>

definition MAX_LLM_RETRIES :: nat where "MAX_LLM_RETRIES = 2"
definition MAX_EMPTY_RESPONSE_RETRIES :: nat where "MAX_EMPTY_RESPONSE_RETRIES = 2"
definition MAX_REPEATED_RESPONSE_ROUNDS :: nat where "MAX_REPEATED_RESPONSE_ROUNDS = 2"

definition TRANSIENT_ERROR_MARKERS :: "str list" where
  "TRANSIENT_ERROR_MARKERS = map lit [''429'', ''rate limit'', ''500'', ''502'', ''503'', ''504'', ''overloaded'', ''timeout'',
     ''timed out'', ''connection'', ''server error'', ''temporarily unavailable'']"

definition EMPTY_RESPONSE_NUDGE :: str where
  "EMPTY_RESPONSE_NUDGE = lit ''Please provide your complete answer now as plain text.''"

definition EMPTY_RESPONSE_FALLBACK :: str where
  "EMPTY_RESPONSE_FALLBACK = lit ''I'' @ [39] @ lit ''m sorry, I was unable to generate a response. Please try again.''"

definition MAX_ITERATIONS_FALLBACK :: str where
  "MAX_ITERATIONS_FALLBACK = lit ''Sorry, I was unable to generate a complete answer.''"

definition CONTENT_FILTER_FALLBACK :: str where
  "CONTENT_FILTER_FALLBACK =
     lit ''Sorry, this request was blocked by the content safety policy. Please try rephrasing your question.''"

definition is_transient_error :: "(rune \<Rightarrow> str) \<Rightarrow> str \<Rightarrow> bool" where
  "is_transient_error ulower error_text =
     list_ex (\<lambda>marker. contains_str marker (lower_str ulower error_text)) TRANSIENT_ERROR_MARKERS"

definition is_natural_stop_finish_reason :: "(rune \<Rightarrow> str) \<Rightarrow> str \<Rightarrow> bool" where
  "is_natural_stop_finish_reason ulower reason =
     (lower_str ulower (strip reason) \<in> set (map lit [''stop'', ''end_turn'', ''stop_sequence'']))"

subsection \<open>Steps and state\<close>

type_synonym json_object = "(str \<times> json) list"

record engine_result =
  er_success :: bool
  er_output :: str
  er_error :: str
  er_images :: "str list"

definition failed_result :: "str \<Rightarrow> engine_result" where
  "failed_result error = \<lparr>er_success = False, er_output = [], er_error = error, er_images = []\<rparr>"

record tool_call =
  ac_id :: str
  ac_name :: str
  ac_args :: json_object
  ac_result :: "engine_result option"
  ac_duration :: nat

record agent_step =
  as_iteration :: int
  as_thought :: str
  as_reasoning_content :: str
  as_tool_calls :: "tool_call list"

record run_state =
  rs_current_round :: int
  rs_round_steps :: "agent_step list"
  rs_is_complete :: bool
  rs_final_answer :: str
  rs_empty_retries :: nat
  rs_same_content :: nat
  rs_last_content :: str

definition run_start :: run_state where
  "run_start = \<lparr>rs_current_round = 0, rs_round_steps = [], rs_is_complete = False, rs_final_answer = [],
     rs_empty_retries = 0, rs_same_content = 0, rs_last_content = []\<rparr>"

definition total_tool_calls :: "run_state \<Rightarrow> nat" where
  "total_tool_calls s = sum_list (map (\<lambda>step. length (as_tool_calls step)) (rs_round_steps s))"

definition add_step :: "agent_step \<Rightarrow> run_state \<Rightarrow> run_state" where
  "add_step step s = s\<lparr>rs_round_steps := rs_round_steps s @ [step]\<rparr>"

text \<open>\<open>AgentCancelledError\<close> carries the state; \<open>OtherError\<close> is any exception that is no \<open>AgentExecutionError\<close>.\<close>

record agent_state =
  at_current_round :: int
  at_round_steps :: "agent_step list"
  at_is_complete :: bool
  at_final_answer :: str

definition freeze :: "run_state \<Rightarrow> agent_state" where
  "freeze s = \<lparr>at_current_round = rs_current_round s, at_round_steps = rs_round_steps s,
     at_is_complete = rs_is_complete s, at_final_answer = rs_final_answer s\<rparr>"

datatype agent_exception = AgentLLMError str | AgentCancelledError agent_state | OtherError str

datatype iter_outcome = NEXT | CONTINUE | BREAK

subsection \<open>The model stream\<close>

datatype response_type = ANSWER | THINKING | TOOL_CALL | ERROR | OTHER_TYPE

record llm_call =
  lc_id :: str
  lc_name :: str
  lc_arguments :: str
  lc_unresolved :: "str list"

record chunk_data =
  cd_tool_call_id :: str
  cd_tool_name :: str
  cd_source :: "str option"

record chunk =
  cu_type :: response_type
  cu_content :: str
  cu_done :: bool
  cu_tool_calls :: "llm_call list"
  cu_data :: "chunk_data option"
  cu_finish_reason :: str

definition text_chunk :: "response_type \<Rightarrow> str \<Rightarrow> chunk" where
  "text_chunk rt content = \<lparr>cu_type = rt, cu_content = content, cu_done = False, cu_tool_calls = [], cu_data = None,
     cu_finish_reason = []\<rparr>"

record stream_result =
  st_content :: str
  st_reasoning :: str
  st_calls :: "llm_call list"
  st_finish_reason :: str
  st_error :: str

definition empty_result :: stream_result where
  "empty_result = \<lparr>st_content = [], st_reasoning = [], st_calls = [], st_finish_reason = [], st_error = []\<rparr>"

record chat_response =
  re_content :: str
  re_reasoning :: str
  re_calls :: "llm_call list"
  re_finish_reason :: str
  re_answer_streamed :: bool
  re_answer_event_id :: str

subsection \<open>Events and the environment\<close>

datatype event =
    LlmCalled "message list" bool
  | Slept nat
  | CancelChecked
  | ToolInvoked str str
  | IdDrawn str
  | AgentThought str str int bool
  | FinalAnswer str str bool
  | ToolCallPending str str int
  | ToolHint str str json_object int
  | ToolResultEvent str str engine_result nat int
  | Complete nat str "agent_step list"
  | ErrorEvent str
  | CleanedUp

datatype tool_outcome = ToolTimeout | ToolRaised str | ToolReturned "engine_result option"

record environment =
  ev_stream :: "event list \<Rightarrow> chunk list \<times> str option"
  ev_tool :: "event list \<Rightarrow> tool_outcome"
  ev_cancelled :: "event list \<Rightarrow> bool"
  ev_id :: "event list \<Rightarrow> str"
  ev_duration :: "event list \<Rightarrow> nat"
  ev_now :: "event list \<Rightarrow> str"
  ev_lower :: "rune \<Rightarrow> str"
  ev_sha256 :: "str \<Rightarrow> nat list"
  ev_loads :: "str \<Rightarrow> json option"
  ev_dumps :: "json_object \<Rightarrow> str"

text \<open>The model-context registry (its state \<open>'m\<close>, the state \<open>'d\<close> of its stream decoders).\<close>

record ('m, 'd) context_ops =
  cx_encode_messages :: "message list \<Rightarrow> 'm \<Rightarrow> message list \<times> 'm"
  cx_stream_decoder :: 'd
  cx_feed :: "'m \<Rightarrow> 'd \<Rightarrow> str \<Rightarrow> str \<times> 'd"
  cx_flush :: "'m \<Rightarrow> 'd \<Rightarrow> str \<times> 'd"
  cx_decode_tool_calls :: "'m \<Rightarrow> llm_call list \<Rightarrow> llm_call list"
  cx_render_result :: "str \<Rightarrow> engine_result \<Rightarrow> 'm \<Rightarrow> str \<times> 'm"
  cx_register_knowledge_base :: "str \<Rightarrow> 'm \<Rightarrow> 'm"
  cx_register_document :: "str \<Rightarrow> 'm \<Rightarrow> 'm"
  cx_compact_known_text :: "'m \<Rightarrow> str \<Rightarrow> str"
  cx_protocol_prompt :: str

text \<open>What an engine is built with.\<close>

record engine =
  en_max_iterations :: int
  en_retain_retrieval_history :: bool
  en_system_prompt_template :: str
  en_use_custom_system_prompt :: bool
  en_system_prompt :: str
  en_web_search_enabled :: bool
  en_knowledge_bases :: "knowledge_base_info list"
  en_selected_docs :: "selected_document list"
  en_session_id :: str
  en_timeout_text :: str

record 'm world =
  wd_context :: 'm
  wd_log :: "event list"

definition emit :: "event \<Rightarrow> 'm world \<Rightarrow> 'm world" where
  "emit e w = w\<lparr>wd_log := wd_log w @ [e]\<rparr>"

definition draw_id :: "environment \<Rightarrow> str \<Rightarrow> 'm world \<Rightarrow> str \<times> 'm world" where
  "draw_id env suffix w = (let w1 = emit (IdDrawn suffix) w in (ev_id env (wd_log w1), w1))"

definition check_cancelled :: "environment \<Rightarrow> 'm world \<Rightarrow> bool \<times> 'm world" where
  "check_cancelled env w = (let w1 = emit CancelChecked w in (ev_cancelled env (wd_log w1), w1))"

end
