(* ===== verification/Agent_Engine.thy ===== *)
theory Agent_Engine
  imports Agent_Types
begin

text \<open>
  The loop of src/src/core/agents/engine/loop.py, method by method: the model stream and its events,
  the retries, the analysis of a response, the tool calls, the final synthesis, one iteration and
  the loop, with its completion event. A method takes the world (the model context and the log) and
  gives it back; an exception is \<open>Inl\<close>. Tool calls run one after another, the order of the code
  when \<open>parallel_tool_calls\<close> is off.
\<close>

subsection \<open>Streaming\<close>

text \<open>The callback gets the chunk of the provider and the callback's own state.\<close>

type_synonym ('m, 's) chunk_callback = "chunk \<Rightarrow> 's \<times> 'm world \<Rightarrow> 's \<times> 'm world"

definition is_extracted :: "chunk \<Rightarrow> bool" where
  "is_extracted c \<longleftrightarrow> (case cu_data c of None \<Rightarrow> False | Some d \<Rightarrow> cd_source d \<noteq> None)"

definition feed_chunk :: "('m, 'd) context_ops \<Rightarrow> 'm \<Rightarrow> chunk \<Rightarrow> 'd \<Rightarrow> str \<times> 'd" where
  "feed_chunk cx m c dec =
     (case cx_feed cx m dec (cu_content c) of
        (content, dec1) \<Rightarrow>
          if cu_done c then (case cx_flush cx m dec1 of (tail, dec2) \<Rightarrow> (content @ tail, dec2)) else (content, dec1))"

definition add_chunk :: "('m, 'd) context_ops \<Rightarrow> 'm \<Rightarrow> chunk \<Rightarrow> str \<Rightarrow> stream_result \<Rightarrow> stream_result" where
  "add_chunk cx m c content r =
     (let r1 = (if content = [] \<or> is_extracted c then r
                else if cu_type c = THINKING then r\<lparr>st_reasoning := st_reasoning r @ content\<rparr>
                else r\<lparr>st_content := st_content r @ content\<rparr>);
          r2 = (if cu_tool_calls c = [] then r1 else r1\<lparr>st_calls := cx_decode_tool_calls cx m (cu_tool_calls c)\<rparr>)
      in if cu_finish_reason c = [] then r2 else r2\<lparr>st_finish_reason := cu_finish_reason c\<rparr>)"

text \<open>The loop over the chunks: answer decoder, thinking decoder, result, callback state and world.\<close>

fun consume ::
  "('m, 'd) context_ops \<Rightarrow> ('m, 's) chunk_callback \<Rightarrow> chunk list \<Rightarrow> 'd \<Rightarrow> 'd \<Rightarrow> stream_result \<Rightarrow> 's \<times> 'm world \<Rightarrow>
     ('d \<times> 'd \<times> stream_result) \<times> 's \<times> 'm world" where
  "consume cx emit_func [] ad td r sw = ((ad, td, r), sw)"
| "consume cx emit_func (c # cs) ad td r sw =
     (if cu_type c = ERROR then consume cx emit_func cs ad td (r\<lparr>st_error := cu_content c\<rparr>) sw
      else
        let m = wd_context (snd sw);
            fed = feed_chunk cx m c (if cu_type c = THINKING then td else ad)
        in consume cx emit_func cs (if cu_type c = THINKING then ad else snd fed) (if cu_type c = THINKING then snd fed else td)
             (add_chunk cx m c (fst fed) r) (emit_func c sw))"

definition stream_llm_to_events ::
  "environment \<Rightarrow> ('m, 'd) context_ops \<Rightarrow> ('m, 's) chunk_callback \<Rightarrow> message list \<Rightarrow> bool \<Rightarrow> 's \<times> 'm world \<Rightarrow>
     (agent_exception + stream_result) \<times> 's \<times> 'm world" where
  "stream_llm_to_events env cx emit_func messages with_tools sw =
     (case cx_encode_messages cx messages (wd_context (snd sw)) of
        (llm_messages, m) \<Rightarrow>
          let w1 = emit (LlmCalled llm_messages with_tools) ((snd sw)\<lparr>wd_context := m\<rparr>);
              reply = ev_stream env (wd_log w1)
          in case consume cx emit_func (fst reply) (cx_stream_decoder cx) (cx_stream_decoder cx) empty_result (fst sw, w1) of
               ((ad, td, r), sw2) \<Rightarrow>
                 (case snd reply of
                    Some e \<Rightarrow> (Inl (OtherError e), sw2)
                  | None \<Rightarrow>
                      let m2 = wd_context (snd sw2);
                          answer_tail = fst (cx_flush cx m2 ad);
                          thinking_tail = fst (cx_flush cx m2 td);
                          r1 = r\<lparr>st_content := st_content r @ answer_tail, st_reasoning := st_reasoning r @ thinking_tail,
                                 st_calls := cx_decode_tool_calls cx m2 (st_calls r)\<rparr>;
                          sw3 = (if thinking_tail = [] then sw2 else emit_func (text_chunk THINKING thinking_tail) sw2);
                          sw4 = (if answer_tail = [] then sw3 else emit_func (text_chunk ANSWER answer_tail) sw3)
                      in if st_error r1 \<noteq> [] \<and> st_content r1 = [] \<and> st_calls r1 = []
                         then (Inl (AgentLLMError (lit ''LLM stream error: '' @ st_error r1)), sw4)
                         else (Inr r1, sw4)))"

subsection \<open>Thinking events\<close>

record think_state =
  ts_splitter :: splitter
  ts_thinking_open :: bool
  ts_answer_streamed :: bool
  ts_thinking_tool_ids :: "(str \<times> str) list"
  ts_pending_tool_calls :: "str list"

definition think_start :: think_state where
  "think_start = \<lparr>ts_splitter = splitter_init, ts_thinking_open = False, ts_answer_streamed = False,
     ts_thinking_tool_ids = [], ts_pending_tool_calls = []\<rparr>"

definition emit_thought :: "str \<Rightarrow> int \<Rightarrow> str \<Rightarrow> bool \<Rightarrow> 'm world \<Rightarrow> 'm world" where
  "emit_thought thinking_id iteration content done0 w =
     (if content = [] \<and> \<not> done0 then w else emit (AgentThought thinking_id content iteration done0) w)"

definition close_thinking :: "str \<Rightarrow> int \<Rightarrow> think_state \<times> 'm world \<Rightarrow> think_state \<times> 'm world" where
  "close_thinking thinking_id iteration tw =
     (if ts_thinking_open (fst tw)
      then ((fst tw)\<lparr>ts_thinking_open := False\<rparr>, emit_thought thinking_id iteration [] True (snd tw)) else tw)"

definition emit_answer :: "str \<Rightarrow> str \<Rightarrow> int \<Rightarrow> str \<Rightarrow> think_state \<times> 'm world \<Rightarrow> think_state \<times> 'm world" where
  "emit_answer thinking_id answer_id iteration content tw =
     (if content = [] \<or> (\<not> ts_answer_streamed (fst tw) \<and> strip content = []) then tw
      else case close_thinking thinking_id iteration tw of
        (t, w) \<Rightarrow> (t\<lparr>ts_answer_streamed := True\<rparr>, emit (FinalAnswer answer_id content False) w))"

text \<open>Both portions of the splitter's output.\<close>

definition emit_portions ::
  "str \<Rightarrow> str \<Rightarrow> int \<Rightarrow> (str \<times> str) \<times> splitter \<Rightarrow> think_state \<times> 'm world \<Rightarrow> think_state \<times> 'm world" where
  "emit_portions thinking_id answer_id iteration parts tw =
     (case parts of ((think_part, answer_part), sp) \<Rightarrow>
        let t1 = (fst tw)\<lparr>ts_splitter := sp\<rparr>
        in emit_answer thinking_id answer_id iteration answer_part
             (if think_part = [] then (t1, snd tw)
              else (t1\<lparr>ts_thinking_open := True\<rparr>, emit_thought thinking_id iteration think_part False (snd tw))))"

definition announce_tool_call :: "int \<Rightarrow> chunk \<Rightarrow> think_state \<times> 'm world \<Rightarrow> think_state \<times> 'm world" where
  "announce_tool_call iteration c tw =
     (case cu_data c of
        None \<Rightarrow> tw
      | Some d \<Rightarrow>
          if cu_type c = TOOL_CALL \<and> cd_tool_call_id d \<noteq> [] \<and> cd_tool_name d \<noteq> [] \<and>
             cd_tool_call_id d \<notin> set (ts_pending_tool_calls (fst tw))
          then ((fst tw)\<lparr>ts_pending_tool_calls := ts_pending_tool_calls (fst tw) @ [cd_tool_call_id d]\<rparr>,
                emit (ToolCallPending (cd_tool_call_id d) (cd_tool_name d) iteration) (snd tw))
          else tw)"

definition thinking_tool_chunk :: "environment \<Rightarrow> int \<Rightarrow> chunk_data \<Rightarrow> str \<Rightarrow> think_state \<times> 'm world \<Rightarrow> think_state \<times> 'm world" where
  "thinking_tool_chunk env iteration d content tw =
     (case map_of (ts_thinking_tool_ids (fst tw)) (cd_tool_call_id d) of
        Some event_id \<Rightarrow> (fst tw, emit (AgentThought event_id content iteration False) (snd tw))
      | None \<Rightarrow>
          (case draw_id env (lit ''thinking-tool'') (snd tw) of
             (event_id, w) \<Rightarrow>
               ((fst tw)\<lparr>ts_thinking_tool_ids := ts_thinking_tool_ids (fst tw) @ [(cd_tool_call_id d, event_id)]\<rparr>,
                emit (AgentThought event_id content iteration False) w)))"

definition emit_chunk :: "environment \<Rightarrow> str \<Rightarrow> str \<Rightarrow> int \<Rightarrow> ('m, think_state) chunk_callback" where
  "emit_chunk env thinking_id answer_id iteration c tw =
     (let tw1 = announce_tool_call iteration c tw
      in if cu_type c = THINKING then
           (case cu_data c of
              Some d \<Rightarrow>
                if cd_source d = Some (lit ''thinking_tool'') then thinking_tool_chunk env iteration d (cu_content c) tw1
                else if cu_content c \<noteq> [] then ((fst tw1)\<lparr>ts_thinking_open := True\<rparr>,
                       emit_thought thinking_id iteration (cu_content c) False (snd tw1))
                else if cu_done c then close_thinking thinking_id iteration tw1 else tw1
            | None \<Rightarrow>
                if cu_content c \<noteq> [] then ((fst tw1)\<lparr>ts_thinking_open := True\<rparr>,
                       emit_thought thinking_id iteration (cu_content c) False (snd tw1))
                else if cu_done c then close_thinking thinking_id iteration tw1 else tw1)
         else
           let tw2 = (if cu_content c = [] then tw1
                      else emit_portions thinking_id answer_id iteration (sp_feed (ts_splitter (fst tw1)) (cu_content c)) tw1)
           in if cu_done c
              then close_thinking thinking_id iteration
                     (emit_portions thinking_id answer_id iteration (sp_flush (ts_splitter (fst tw2))) tw2)
              else tw2)"

definition stream_thinking_to_events ::
  "environment \<Rightarrow> ('m, 'd) context_ops \<Rightarrow> message list \<Rightarrow> int \<Rightarrow> 'm world \<Rightarrow> (agent_exception + chat_response) \<times> 'm world" where
  "stream_thinking_to_events env cx messages iteration w =
     (case draw_id env (lit ''thinking'') w of
        (thinking_id, w1) \<Rightarrow>
          (case draw_id env (lit ''answer'') w1 of
             (answer_id, w2) \<Rightarrow>
               (case stream_llm_to_events env cx (emit_chunk env thinking_id answer_id iteration) messages True (think_start, w2) of
                  (Inl e, t, w3) \<Rightarrow> (Inl e, w3)
                | (Inr r, t, w3) \<Rightarrow>
                    (Inr \<lparr>re_content = strip_think_blocks (st_content r), re_reasoning = st_reasoning r, re_calls = st_calls r,
                          re_finish_reason = (if st_finish_reason r = [] then lit ''stop'' else st_finish_reason r),
                          re_answer_streamed = ts_answer_streamed t,
                          re_answer_event_id = (if ts_answer_streamed t then answer_id else [])\<rparr>, w3))))"

subsection \<open>Prompts\<close>

definition DEFAULT_SYSTEM_PROMPT :: str where
  "DEFAULT_SYSTEM_PROMPT = lit ''You are a helpful knowledge assistant.'' @ [10, 10] @
     lit ''Answer the user'' @ [39] @ lit ''s question by gathering information with the available tools.'' @ [10] @
     lit ''Keep using tools until you have enough information; do not give a partial'' @ [10] @
     lit ''answer mid-investigation. When you are ready, write your complete user-facing'' @ [10] @
     lit ''answer as your reply and stop '' @ [8212] @ lit '' do not request any more tools in that final'' @ [10] @
     lit ''message. If the retrieved information is insufficient, say so honestly.'' @ [10] @
     lit ''Respond in the same language as the user'' @ [39] @ lit ''s question.''"

definition render_prompt_placeholders :: "str \<Rightarrow> knowledge_base_info list \<Rightarrow> bool \<Rightarrow> str \<Rightarrow> str" where
  "render_prompt_placeholders template knowledge_bases web_search_enabled current_time =
     (let r1 = str_replace (lit ''{{knowledge_bases}}'')
                 (if knowledge_bases = [] then lit ''(no knowledge bases bound to this session)''
                  else lit ''(see `<bound_knowledge_bases>` inside the user message'' @ [39] @
                    lit ''s `<runtime_context>` for the current bound KB list and their capabilities)'') template;
          r2 = str_replace (lit ''{{web_search_status}}'') (if web_search_enabled then lit ''Enabled'' else lit ''Disabled'') r1
      in str_replace (lit ''{{language}}'') [] (str_replace (lit ''{{current_time}}'') current_time r2))"

definition rstrip_blanks :: "str \<Rightarrow> str" where
  "rstrip_blanks s = rev (dropWhile is_blank (rev s))"

definition build_system_prompt :: "environment \<Rightarrow> engine \<Rightarrow> ('m, 'd) context_ops \<Rightarrow> 'm world \<Rightarrow> str" where
  "build_system_prompt env eng cx w =
     (let template = (if en_system_prompt_template eng \<noteq> [] then en_system_prompt_template eng
                      else if en_use_custom_system_prompt eng \<and> en_system_prompt eng \<noteq> [] then en_system_prompt eng
                      else DEFAULT_SYSTEM_PROMPT)
      in rstrip_blanks (render_prompt_placeholders template (en_knowledge_bases eng) (en_web_search_enabled eng)
           (ev_now env (wd_log w))) @ cx_protocol_prompt cx)"

definition register_document :: "('m, 'd) context_ops \<Rightarrow> selected_document \<Rightarrow> 'm \<Rightarrow> 'm" where
  "register_document cx doc m =
     (let m1 = cx_register_document cx (sd_knowledge_id doc) m
      in if sd_knowledge_base_id doc = [] then m1 else cx_register_knowledge_base cx (sd_knowledge_base_id doc) m1)"

definition render_user_turn :: "environment \<Rightarrow> engine \<Rightarrow> ('m, 'd) context_ops \<Rightarrow> str \<Rightarrow> 'm world \<Rightarrow> str \<times> 'm world" where
  "render_user_turn env eng cx query w =
     (let m = fold (register_document cx) (en_selected_docs eng)
                (fold (\<lambda>kb. cx_register_knowledge_base cx (kbi_id kb)) (en_knowledge_bases eng) (wd_context w));
          block = build_runtime_context_block (ev_now env (wd_log w)) (en_session_id eng) (en_knowledge_bases eng)
                    (en_selected_docs eng)
      in (compose_user_turn [cx_compact_known_text cx m block, query], w\<lparr>wd_context := m\<rparr>))"

definition build_messages_with_llm_context ::
  "environment \<Rightarrow> engine \<Rightarrow> ('m, 'd) context_ops \<Rightarrow> str \<Rightarrow> str \<Rightarrow> message list \<Rightarrow> str list \<Rightarrow> 'm world \<Rightarrow> message list \<times> 'm world" where
  "build_messages_with_llm_context env eng cx system_prompt query llm_context image_urls w =
     (case render_user_turn env eng cx query w of
        (turn, w1) \<Rightarrow>
          ([plain_message ROLE_SYSTEM system_prompt] @
           filter (\<lambda>m. msg_role m \<in> {ROLE_USER, ROLE_ASSISTANT, ROLE_TOOL})
             (if en_retain_retrieval_history eng then llm_context else redact_history_kb_results llm_context) @
           [(plain_message ROLE_USER turn)\<lparr>msg_images := image_urls\<rparr>], w1))"

subsection \<open>Final synthesis\<close>

text \<open>\<open>!\[([^\]]*)\]\(([^)]+)\)\<close> at the start of a text.\<close>

definition image_at :: "str \<Rightarrow> bool" where
  "image_at s \<longleftrightarrow> starts_with (lit ''!['') s \<and>
     (let r = dropWhile (\<lambda>c. c \<noteq> 93) (drop 2 s)
      in starts_with (lit ''](''  ) r \<and>
         (let body = drop 2 r in body \<noteq> [] \<and> hd body \<noteq> 41 \<and> 41 \<in> set body))"

fun has_image :: "str \<Rightarrow> bool" where
  "has_image [] = False"
| "has_image (c # cs) = (image_at (c # cs) \<or> has_image cs)"

definition IMAGE_REQUIREMENT :: str where
  "IMAGE_REQUIREMENT =
     lit ''5. Retrieved tool results contain Markdown images. Unless the user explicitly requested text-only output or '' @
     lit ''every image is clearly unrelated, the final answer MUST include at least one relevant Markdown image copied '' @
     lit ''verbatim from the tool results. Preserve its complete URL exactly. Use ASCII half-width parentheses exactly as '' @
     lit ''![alt](url) and never use full-width '' @ [65288] @ lit '' or '' @ [65289] @ lit ''. Place the image immediately '' @
     lit ''after the paragraph it supports. When multiple images support different sections, distribute them across those '' @
     lit ''sections instead of stopping after the first image.'' @ [10] @
     lit ''6. Before finishing, silently verify that the answer contains a Markdown image when requirement 5 applies.''"

definition final_answer_image_requirement :: "bool \<Rightarrow> str" where
  "final_answer_image_requirement has_retrieved_image = (if has_retrieved_image then IMAGE_REQUIREMENT else [])"

definition result_of :: "tool_call \<Rightarrow> engine_result" where
  "result_of c = (case ac_result c of None \<Rightarrow> failed_result (lit ''no result'') | Some r \<Rightarrow> r)"

fun rendered_results :: "('m, 'd) context_ops \<Rightarrow> tool_call list \<Rightarrow> 'm \<Rightarrow> message list \<times> 'm" where
  "rendered_results cx [] m = ([], m)"
| "rendered_results cx (c # cs) m =
     (case cx_render_result cx (ac_name c) (result_of c) m of
        (rendered, m1) \<Rightarrow>
          (case rendered_results cx cs m1 of
             (ms, m2) \<Rightarrow> (plain_message ROLE_USER (lit ''Tool '' @ ac_name c @ lit '' returned: '' @ rendered) # ms, m2)))"

definition final_prompt :: "str \<Rightarrow> bool \<Rightarrow> str" where
  "final_prompt query has_retrieved_image =
     lit ''Based on the above tool call results, generate a complete answer for the user'' @ [39] @ lit ''s question.'' @ [10, 10] @
     lit ''User question: '' @ query @ [10, 10] @ lit ''Requirements:'' @ [10] @
     lit ''1. Answer based on the actually retrieved content'' @ [10] @
     lit ''2. Organize the answer in a structured format'' @ [10] @
     lit ''3. If information is insufficient, honestly state so'' @ [10] @
     lit ''4. IMPORTANT: Respond in the same language as the user'' @ [39] @ lit ''s question'' @ [10] @
     final_answer_image_requirement has_retrieved_image @ [10, 10] @ lit ''Now generate the final answer:''"

definition all_calls :: "run_state \<Rightarrow> tool_call list" where
  "all_calls s = concat (map as_tool_calls (rs_round_steps s))"

definition emit_final :: "str \<Rightarrow> ('m, bool) chunk_callback" where
  "emit_final answer_id c dw =
     (if cu_type c = THINKING \<or> cu_content c = [] then dw
      else (fst dw \<or> cu_done c, emit (FinalAnswer answer_id (cu_content c) (cu_done c)) (snd dw)))"

definition synthesize_final_answer ::
  "environment \<Rightarrow> engine \<Rightarrow> ('m, 'd) context_ops \<Rightarrow> str \<Rightarrow> run_state \<Rightarrow> 'm world \<Rightarrow> (agent_exception + run_state) \<times> 'm world" where
  "synthesize_final_answer env eng cx query s w =
     (case render_user_turn env eng cx query w of
        (user_turn, w0) \<Rightarrow>
          (case rendered_results cx (all_calls s) (wd_context w0) of
             (results, m2) \<Rightarrow>
               (case draw_id env (lit ''answer'') (w0\<lparr>wd_context := m2\<rparr>) of
                  (answer_id, w1) \<Rightarrow>
                    let has_retrieved_image = list_ex (\<lambda>c. has_image (er_output (result_of c))) (all_calls s);
                        messages = [plain_message ROLE_SYSTEM (build_system_prompt env eng cx w), plain_message ROLE_USER user_turn] @ results @
                          [plain_message ROLE_USER (final_prompt query has_retrieved_image)]
                    in case stream_llm_to_events env cx (emit_final answer_id) messages False (False, w1) of
                         (Inl e, answer_done, w2) \<Rightarrow> (Inl e, w2)
                       | (Inr r, answer_done, w2) \<Rightarrow>
                           (Inr (s\<lparr>rs_final_answer := strip_think_blocks (st_content r)\<rparr>),
                            if answer_done then w2 else emit (FinalAnswer answer_id [] True) w2))))"

text \<open>\<open>AgentExecutionError\<close> is caught, other exceptions are not.\<close>

definition handle_max_iterations ::
  "environment \<Rightarrow> engine \<Rightarrow> ('m, 'd) context_ops \<Rightarrow> str \<Rightarrow> run_state \<Rightarrow> 'm world \<Rightarrow> (agent_exception + run_state) \<times> 'm world" where
  "handle_max_iterations env eng cx query s w =
     (case synthesize_final_answer env eng cx query s w of
        (Inl (OtherError e), w1) \<Rightarrow> (Inl (OtherError e), w1)
      | (Inl _, w1) \<Rightarrow> (Inr (s\<lparr>rs_final_answer := MAX_ITERATIONS_FALLBACK, rs_is_complete := True\<rparr>), w1)
      | (Inr s1, w1) \<Rightarrow> (Inr (s1\<lparr>rs_is_complete := True\<rparr>), w1))"

definition best_effort_synthesize ::
  "environment \<Rightarrow> engine \<Rightarrow> ('m, 'd) context_ops \<Rightarrow> str \<Rightarrow> run_state \<Rightarrow> 'm world \<Rightarrow> (agent_exception + run_state) \<times> 'm world" where
  "best_effort_synthesize env eng cx query s w =
     (case synthesize_final_answer env eng cx query s w of
        (Inl (OtherError e), w1) \<Rightarrow> (Inl (OtherError e), w1)
      | (Inl _, w1) \<Rightarrow> (Inr s, w1)
      | (Inr s1, w1) \<Rightarrow> (Inr s1, w1))"

subsection \<open>Think\<close>

fun retry_llm ::
  "environment \<Rightarrow> ('m, 'd) context_ops \<Rightarrow> message list \<Rightarrow> int \<Rightarrow> nat list \<Rightarrow> str \<Rightarrow> 'm world \<Rightarrow>
     (agent_exception + chat_response) \<times> 'm world" where
  "retry_llm env cx messages iteration [] err w = (Inl (AgentLLMError err), w)"
| "retry_llm env cx messages iteration (retry # retries) err w =
     (case stream_thinking_to_events env cx messages iteration (emit (Slept retry) w) of
        (Inl (AgentLLMError err1), w1) \<Rightarrow>
          if is_transient_error (ev_lower env) err1 then retry_llm env cx messages iteration retries err1 w1
          else (Inl (AgentLLMError err1), w1)
      | r \<Rightarrow> r)"

definition call_with_retries ::
  "environment \<Rightarrow> ('m, 'd) context_ops \<Rightarrow> message list \<Rightarrow> int \<Rightarrow> 'm world \<Rightarrow> (agent_exception + chat_response) \<times> 'm world" where
  "call_with_retries env cx messages iteration w =
     (case stream_thinking_to_events env cx messages iteration w of
        (Inl (AgentLLMError err), w1) \<Rightarrow>
          if is_transient_error (ev_lower env) err
          then retry_llm env cx messages iteration [1..<Suc MAX_LLM_RETRIES] err w1 else (Inl (AgentLLMError err), w1)
      | r \<Rightarrow> r)"

text \<open>\<open>str\<close> of the exceptions of the loop; a cancelled run has the message of its class.\<close>

definition exception_text :: "agent_exception \<Rightarrow> str" where
  "exception_text e = (case e of AgentLLMError m \<Rightarrow> m | AgentCancelledError s \<Rightarrow> lit ''Agent run was cancelled'' | OtherError m \<Rightarrow> m)"

text \<open>\<open>Inr (None, s)\<close> is the graceful degradation.\<close>

definition call_llm_with_retry ::
  "environment \<Rightarrow> engine \<Rightarrow> ('m, 'd) context_ops \<Rightarrow> message list \<Rightarrow> run_state \<Rightarrow> str \<Rightarrow> 'm world \<Rightarrow>
     (agent_exception + chat_response option \<times> run_state) \<times> 'm world" where
  "call_llm_with_retry env eng cx messages s query w =
     (case call_with_retries env cx (sanitize_messages messages) (rs_current_round s) w of
        (Inr response, w1) \<Rightarrow> (Inr (Some response, s), w1)
      | (Inl (AgentLLMError err), w1) \<Rightarrow>
          if 0 < total_tool_calls s
          then (case synthesize_final_answer env eng cx query s w1 of
                  (Inl (OtherError e), w2) \<Rightarrow> (Inl (OtherError e), w2)
                | (Inl e, w2) \<Rightarrow>
                    (Inl (AgentLLMError (lit ''LLM call failed: '' @ err @ lit '' (synthesis also failed: '' @
                       exception_text e @ lit '')'')), w2)
                | (Inr s1, w2) \<Rightarrow> (Inr (None, s1\<lparr>rs_is_complete := True\<rparr>), w2))
          else (Inl (AgentLLMError (lit ''LLM call failed: '' @ err)), w1)
      | (Inl e, w1) \<Rightarrow> (Inl e, w1))"

subsection \<open>Analyze\<close>

record verdict =
  vd_is_done :: bool
  vd_final_answer :: str
  vd_empty_content :: bool

definition build_step :: "run_state \<Rightarrow> chat_response \<Rightarrow> agent_step" where
  "build_step s response = \<lparr>as_iteration = rs_current_round s, as_thought = re_content response,
     as_reasoning_content = re_reasoning response, as_tool_calls = []\<rparr>"

definition analyze_response :: "environment \<Rightarrow> chat_response \<Rightarrow> 'm world \<Rightarrow> verdict \<times> 'm world" where
  "analyze_response env response w =
     (if re_finish_reason response = lit ''content_filter'' \<and> re_calls response = [] then
        let answer = (if re_content response = [] then CONTENT_FILTER_FALLBACK else re_content response)
        in (case draw_id env (lit ''answer'') w of
              (answer_id, w1) \<Rightarrow>
                (\<lparr>vd_is_done = True, vd_final_answer = answer, vd_empty_content = False\<rparr>,
                 emit (FinalAnswer answer_id [] True) (emit (FinalAnswer answer_id answer False) w1)))
      else if is_natural_stop_finish_reason (ev_lower env) (re_finish_reason response) \<and> re_calls response = [] then
        let content = strip_think_blocks (re_content response)
        in (case (if re_answer_streamed response \<and> re_answer_event_id response \<noteq> [] then (re_answer_event_id response, w)
                  else case draw_id env (lit ''answer'') w of
                         (answer_id, w1) \<Rightarrow>
                           (answer_id, if content = [] then w1 else emit (FinalAnswer answer_id content False) w1)) of
              (answer_id, w2) \<Rightarrow>
                (\<lparr>vd_is_done = True, vd_final_answer = content, vd_empty_content = (content = [])\<rparr>,
                 emit (FinalAnswer answer_id [] True) w2))
      else (\<lparr>vd_is_done = False, vd_final_answer = [], vd_empty_content = False\<rparr>, w))"

subsection \<open>Act\<close>

definition TOOL_ERROR_HINT :: str where
  "TOOL_ERROR_HINT = [10, 10] @ lit ''[Analyze the error above and try a different approach.]''"

definition parse_tool_arguments :: "environment \<Rightarrow> str \<Rightarrow> json_object option" where
  "parse_tool_arguments env raw =
     (if raw = [] then None else case ev_loads env raw of Some (JObj entries) \<Rightarrow> Some entries | _ \<Rightarrow> None)"

text \<open>The arguments of a call: parsed, or repaired and decoded again; \<open>None\<close> when neither parses.\<close>

definition effective_arguments ::
  "environment \<Rightarrow> ('m, 'd) context_ops \<Rightarrow> 'm \<Rightarrow> llm_call \<Rightarrow> (json_object \<times> str \<times> str list) option" where
  "effective_arguments env cx m tc =
     (case parse_tool_arguments env (lc_arguments tc) of
        Some args \<Rightarrow> Some (args, lc_arguments tc, lc_unresolved tc)
      | None \<Rightarrow>
          let repaired = repair_json (lc_arguments tc)
          in (case parse_tool_arguments env repaired of
                None \<Rightarrow> None
              | Some _ \<Rightarrow>
                  (case cx_decode_tool_calls cx m [tc\<lparr>lc_arguments := repaired\<rparr>] of
                     [] \<Rightarrow> Some ([], repaired, [])
                   | decoded # _ \<Rightarrow>
                       Some (case parse_tool_arguments env (lc_arguments decoded) of None \<Rightarrow> [] | Some args \<Rightarrow> args,
                         lc_arguments decoded, lc_unresolved decoded))))"

text \<open>The \<open>repr\<close> of the list of handles in the message is left out.\<close>

definition invoke_tool :: "environment \<Rightarrow> engine \<Rightarrow> str \<Rightarrow> str \<Rightarrow> 'm world \<Rightarrow> engine_result \<times> 'm world" where
  "invoke_tool env eng name args w =
     (let w1 = emit (ToolInvoked name args) w
      in (case ev_tool env (wd_log w1) of
            ToolTimeout \<Rightarrow> failed_result (lit ''tool execution timed out after '' @ en_timeout_text eng @ lit ''s'')
          | ToolRaised e \<Rightarrow> failed_result e
          | ToolReturned None \<Rightarrow> failed_result (lit ''tool returned no result'')
          | ToolReturned (Some r) \<Rightarrow> r, w1))"

definition run_tool_call ::
  "environment \<Rightarrow> engine \<Rightarrow> ('m, 'd) context_ops \<Rightarrow> int \<Rightarrow> nat \<Rightarrow> llm_call \<Rightarrow> 'm world \<Rightarrow> tool_call \<times> 'm world" where
  "run_tool_call env eng cx iteration index tc w =
     (let call_id = normalize_tool_call_id (ev_sha256 env) (lc_id tc) (lc_name tc) index
      in case effective_arguments env cx (wd_context w) tc of
           None \<Rightarrow>
             (\<lparr>ac_id = call_id, ac_name = lc_name tc, ac_args = [(lit ''_raw'', JStr (lc_arguments tc))],
               ac_result = Some (failed_result (lit ''Failed to parse tool arguments: '' @ lc_arguments tc @ TOOL_ERROR_HINT)),
               ac_duration = 0\<rparr>, w)
         | Some (args, effective_args, unresolved) \<Rightarrow>
             let w1 = emit (ToolHint call_id (lc_name tc) args iteration) w
             in (case (if unresolved = [] then invoke_tool env eng (lc_name tc) effective_args w1
                       else (failed_result (lit ''tool arguments contain unresolved model handles''), w1)) of
                   (result, w2) \<Rightarrow>
                     (\<lparr>ac_id = call_id, ac_name = lc_name tc, ac_args = args, ac_result = Some result,
                       ac_duration = ev_duration env (wd_log w2)\<rparr>, w2)))"

fun run_tool_calls ::
  "environment \<Rightarrow> engine \<Rightarrow> ('m, 'd) context_ops \<Rightarrow> int \<Rightarrow> nat \<Rightarrow> llm_call list \<Rightarrow> 'm world \<Rightarrow> tool_call list \<times> 'm world" where
  "run_tool_calls env eng cx iteration index [] w = ([], w)"
| "run_tool_calls env eng cx iteration index (tc # tcs) w =
     (case run_tool_call env eng cx iteration index tc w of
        (c, w1) \<Rightarrow> (case run_tool_calls env eng cx iteration (Suc index) tcs w1 of (cs, w2) \<Rightarrow> (c # cs, w2)))"

text \<open>The result and the execution event of a call carry the same facts: one event here.\<close>

definition execute_tool_calls ::
  "environment \<Rightarrow> engine \<Rightarrow> ('m, 'd) context_ops \<Rightarrow> chat_response \<Rightarrow> int \<Rightarrow> 'm world \<Rightarrow> tool_call list \<times> 'm world" where
  "execute_tool_calls env eng cx response iteration w =
     (case run_tool_calls env eng cx iteration 0 (re_calls response) w of
        (calls, w1) \<Rightarrow>
          (calls, fold (\<lambda>c. emit (ToolResultEvent (ac_id c) (ac_name c) (result_of c) (ac_duration c) iteration)) calls w1))"

subsection \<open>Observe\<close>

fun append_results :: "('m, 'd) context_ops \<Rightarrow> tool_call list \<Rightarrow> 'm \<Rightarrow> message list \<times> 'm" where
  "append_results cx [] m = ([], m)"
| "append_results cx (c # cs) m =
     (case cx_render_result cx (ac_name c) (result_of c) m of
        (rendered, m1) \<Rightarrow>
          (case append_results cx cs m1 of
             (ms, m2) \<Rightarrow>
               ((plain_message ROLE_TOOL rendered)\<lparr>msg_tool_call_id := ac_id c, msg_name := ac_name c\<rparr> # ms, m2)))"

definition step_message :: "environment \<Rightarrow> agent_step \<Rightarrow> message" where
  "step_message env step = (plain_message ROLE_ASSISTANT (as_thought step))\<lparr>
     msg_reasoning_content := as_reasoning_content step,
     msg_tool_calls := map (\<lambda>c. \<lparr>mc_id = ac_id c, mc_name = ac_name c, mc_arguments = ev_dumps env (ac_args c)\<rparr>)
       (as_tool_calls step)\<rparr>"

definition append_tool_results ::
  "environment \<Rightarrow> ('m, 'd) context_ops \<Rightarrow> message list \<Rightarrow> agent_step \<Rightarrow> 'm world \<Rightarrow> message list \<times> 'm world" where
  "append_tool_results env cx messages step w =
     (case append_results cx (as_tool_calls step) (wd_context w) of
        (results, m) \<Rightarrow>
          (messages @
           (if as_thought step = [] \<and> as_tool_calls step = [] \<and> as_reasoning_content step = [] then []
            else [step_message env step]) @ results, w\<lparr>wd_context := m\<rparr>))"

end
