(* ===== verification/Agent_Loop.thy ===== *)
theory Agent_Loop
  imports Agent_Engine
begin

text \<open>
  One iteration of the agent loop, the loop itself and \<open>AgentEngine.execute\<close>,
  src/src/core/agents/engine/loop.py. The loop is a total function: a round that continues counts an
  empty answer, any other round counts itself. Its completion event is the \<open>finally\<close> of the code.
\<close>

subsection \<open>One iteration\<close>

text \<open>The stuck-loop test: the state after it, and whether it ends the run.\<close>

definition note_repetition :: "chat_response \<Rightarrow> run_state \<Rightarrow> run_state \<times> bool" where
  "note_repetition response s =
     (if re_calls response = [] \<and> re_content response \<noteq> [] then
        let n = (if re_content response = rs_last_content s then Suc (rs_same_content s) else 0);
            s1 = s\<lparr>rs_same_content := n, rs_last_content := re_content response\<rparr>
        in if MAX_REPEATED_RESPONSE_ROUNDS \<le> n
           then (s1\<lparr>rs_final_answer := re_content response, rs_is_complete := True\<rparr>, True) else (s1, False)
      else (s\<lparr>rs_same_content := 0, rs_last_content := []\<rparr>, False))"

text \<open>What a verdict that is done makes of the state.\<close>

definition finish_verdict :: "verdict \<Rightarrow> agent_step \<Rightarrow> message list \<Rightarrow> run_state \<Rightarrow> iter_outcome \<times> message list \<times> run_state" where
  "finish_verdict v step messages s =
     (if vd_empty_content v then
        let s1 = s\<lparr>rs_empty_retries := Suc (rs_empty_retries s)\<rparr>
        in if rs_empty_retries s1 \<le> MAX_EMPTY_RESPONSE_RETRIES
           then (CONTINUE, messages @ [plain_message ROLE_USER EMPTY_RESPONSE_NUDGE], s1)
           else (BREAK, messages, add_step step (s1\<lparr>rs_final_answer := EMPTY_RESPONSE_FALLBACK, rs_is_complete := True\<rparr>))
      else (BREAK, messages, add_step step (s\<lparr>rs_final_answer := vd_final_answer v, rs_is_complete := True\<rparr>)))"

definition after_response ::
  "environment \<Rightarrow> engine \<Rightarrow> ('m, 'd) context_ops \<Rightarrow> chat_response \<Rightarrow> message list \<Rightarrow> run_state \<Rightarrow> 'm world \<Rightarrow>
     iter_outcome \<times> message list \<times> run_state \<times> 'm world" where
  "after_response env eng cx response messages s w =
     (case note_repetition response s of
        (s1, stuck) \<Rightarrow>
          if stuck then (BREAK, messages, s1, w)
          else case check_cancelled env w of
            (cancelled, w1) \<Rightarrow>
              if cancelled then
                (BREAK, messages, if re_content response \<noteq> [] \<or> re_calls response \<noteq> []
                                  then add_step (build_step s1 response) s1 else s1, w1)
              else case analyze_response env response w1 of
                (v, w2) \<Rightarrow>
                  if vd_is_done v
                  then (case finish_verdict v (build_step s1 response) messages s1 of (outcome, ms, s2) \<Rightarrow> (outcome, ms, s2, w2))
                  else case execute_tool_calls env eng cx response (rs_current_round s1) w2 of
                    (calls, w3) \<Rightarrow>
                      let step = (build_step s1 response)\<lparr>as_tool_calls := calls\<rparr>
                      in (case append_tool_results env cx messages step w3 of
                            (ms, w4) \<Rightarrow> (NEXT, ms, add_step step s1, w4)))"

definition run_iteration ::
  "environment \<Rightarrow> engine \<Rightarrow> ('m, 'd) context_ops \<Rightarrow> str \<Rightarrow> message list \<Rightarrow> run_state \<Rightarrow> 'm world \<Rightarrow>
     (agent_exception + iter_outcome) \<times> message list \<times> run_state \<times> 'm world" where
  "run_iteration env eng cx query messages s w =
     (case call_llm_with_retry env eng cx messages s query w of
        (Inl e, w1) \<Rightarrow> (Inl e, messages, s, w1)
      | (Inr (None, s1), w1) \<Rightarrow> (Inr BREAK, messages, s1, w1)
      | (Inr (Some response, s1), w1) \<Rightarrow>
          (case after_response env eng cx response messages s1 w1 of (outcome, rest) \<Rightarrow> (Inr outcome, rest)))"

subsection \<open>What an iteration does to the counters\<close>

lemma synthesize_state:
  "synthesize_final_answer env eng cx query s w = (Inr s1, w1) \<Longrightarrow> \<exists>a. s1 = s\<lparr>rs_final_answer := a\<rparr>"
  by (auto simp: synthesize_final_answer_def Let_def split: prod.splits sum.splits)

lemma call_llm_state:
  "call_llm_with_retry env eng cx messages s query w = (Inr (r, s1), w1) \<Longrightarrow>
     (if r = None then \<exists>a. s1 = s\<lparr>rs_final_answer := a, rs_is_complete := True\<rparr> else s1 = s)"
  by (auto simp: call_llm_with_retry_def split: prod.splits sum.splits agent_exception.splits if_splits dest!: synthesize_state)

lemma note_repetition_counters:
  "note_repetition response s = (s1, b) \<Longrightarrow>
     rs_current_round s1 = rs_current_round s \<and> rs_empty_retries s1 = rs_empty_retries s \<and>
     rs_round_steps s1 = rs_round_steps s"
  by (auto simp: note_repetition_def Let_def split: if_splits)

lemma finish_verdict_counters:
  "finish_verdict v step messages s = (outcome, ms, s1) \<Longrightarrow>
     rs_current_round s1 = rs_current_round s \<and>
     (outcome = CONTINUE \<longrightarrow> rs_empty_retries s1 = Suc (rs_empty_retries s) \<and> rs_empty_retries s1 \<le> MAX_EMPTY_RESPONSE_RETRIES) \<and>
     (outcome = NEXT \<longrightarrow> rs_empty_retries s1 = rs_empty_retries s)"
  by (auto simp: finish_verdict_def Let_def add_step_def split: if_splits)

lemma after_response_counters:
  "after_response env eng cx response messages s w = (outcome, ms, s1, w1) \<Longrightarrow>
     rs_current_round s1 = rs_current_round s \<and>
     (outcome = CONTINUE \<longrightarrow> rs_empty_retries s1 = Suc (rs_empty_retries s) \<and> rs_empty_retries s1 \<le> MAX_EMPTY_RESPONSE_RETRIES) \<and>
     (outcome = NEXT \<longrightarrow> rs_empty_retries s1 = rs_empty_retries s)"
  by (auto simp: after_response_def Let_def add_step_def split: if_splits prod.splits
      dest!: note_repetition_counters finish_verdict_counters)

lemma run_iteration_counters:
  assumes "run_iteration env eng cx query messages s w = (Inr outcome, ms, s1, w1)"
  shows "rs_current_round s1 = rs_current_round s \<and>
     (outcome = CONTINUE \<longrightarrow> rs_empty_retries s1 = Suc (rs_empty_retries s) \<and> rs_empty_retries s1 \<le> MAX_EMPTY_RESPONSE_RETRIES) \<and>
     (outcome = NEXT \<longrightarrow> rs_empty_retries s1 = rs_empty_retries s)"
  using assms
  by (auto simp: run_iteration_def split: prod.splits sum.splits option.splits dest!: call_llm_state after_response_counters)

subsection \<open>The loop\<close>

definition next_round :: "run_state \<Rightarrow> run_state" where
  "next_round s = s\<lparr>rs_current_round := rs_current_round s + 1\<rparr>"

text \<open>The \<open>while\<close> with its exceptions; the state is the object the \<open>finally\<close> reads.\<close>

definition cancelled_run ::
  "environment \<Rightarrow> engine \<Rightarrow> ('m, 'd) context_ops \<Rightarrow> str \<Rightarrow> run_state \<Rightarrow> 'm world \<Rightarrow> agent_exception option \<times> run_state \<times> 'm world" where
  "cancelled_run env eng cx query s w =
     (if 0 < total_tool_calls s
      then (case best_effort_synthesize env eng cx query s w of
              (Inl e, w1) \<Rightarrow> (Some e, s, w1)
            | (Inr s1, w1) \<Rightarrow>
                let s2 = s1\<lparr>rs_is_complete := True\<rparr> in (Some (AgentCancelledError (freeze s2)), s2, w1))
      else (Some (AgentCancelledError (freeze s)), s, w))"

function run_loop ::
  "environment \<Rightarrow> engine \<Rightarrow> ('m, 'd) context_ops \<Rightarrow> str \<Rightarrow> message list \<Rightarrow> run_state \<Rightarrow> 'm world \<Rightarrow>
     agent_exception option \<times> run_state \<times> 'm world" where
  "run_loop env eng cx query messages s w =
     (if rs_current_round s < en_max_iterations eng then
        (case check_cancelled env w of
           (True, w1) \<Rightarrow> cancelled_run env eng cx query s w1
         | (False, w1) \<Rightarrow>
             (case run_iteration env eng cx query messages s w1 of
                (Inl e, ms, s1, w2) \<Rightarrow> (Some e, s1, w2)
              | (Inr CONTINUE, ms, s1, w2) \<Rightarrow> run_loop env eng cx query ms s1 w2
              | (Inr BREAK, ms, s1, w2) \<Rightarrow> (None, s1, w2)
              | (Inr NEXT, ms, s1, w2) \<Rightarrow> run_loop env eng cx query ms (next_round s1) w2))
      else (None, s, w))"
  by pat_completeness auto
termination
  apply (relation "measures [\<lambda>(env, eng, cx, query, messages, s, w). nat (en_max_iterations eng - rs_current_round s),
     \<lambda>(env, eng, cx, query, messages, s, w). Suc MAX_EMPTY_RESPONSE_RETRIES - rs_empty_retries s]")
    apply simp
   apply (clarsimp, drule run_iteration_counters [OF sym], simp add: next_round_def)
  apply (clarsimp, drule run_iteration_counters [OF sym], clarsimp, linarith)
  done

declare run_loop.simps [simp del]

definition emit_completion_event :: "environment \<Rightarrow> run_state \<Rightarrow> 'm world \<Rightarrow> 'm world" where
  "emit_completion_event env s w =
     (case draw_id env (lit ''complete'') w of
        (_, w1) \<Rightarrow> emit (Complete (length (rs_round_steps s)) (rs_final_answer s) (rs_round_steps s)) w1)"

definition execute_loop ::
  "environment \<Rightarrow> engine \<Rightarrow> ('m, 'd) context_ops \<Rightarrow> str \<Rightarrow> message list \<Rightarrow> run_state \<Rightarrow> 'm world \<Rightarrow>
     (agent_exception + run_state) \<times> 'm world" where
  "execute_loop env eng cx query messages s w =
     (case run_loop env eng cx query messages s w of
        (exc, s1, w1) \<Rightarrow>
          let w2 = emit_completion_event env s1 w1
          in case exc of
               Some e \<Rightarrow> (Inl e, w2)
             | None \<Rightarrow>
                 if rs_is_complete s1 then (Inr s1, w2)
                 else case check_cancelled env w2 of
                   (cancelled, w3) \<Rightarrow> if cancelled then (Inr s1, w3) else handle_max_iterations env eng cx query s1 w3)"

definition execute ::
  "environment \<Rightarrow> engine \<Rightarrow> ('m, 'd) context_ops \<Rightarrow> str \<Rightarrow> message list \<Rightarrow> str list \<Rightarrow> 'm world \<Rightarrow>
     (agent_exception + agent_state) \<times> 'm world" where
  "execute env eng cx query llm_context image_urls w =
     (case build_messages_with_llm_context env eng cx (build_system_prompt env eng cx w) query llm_context image_urls w of
        (messages, w1) \<Rightarrow>
          (case execute_loop env eng cx query messages run_start w1 of
             (Inr s, w2) \<Rightarrow> (Inr (freeze s), emit CleanedUp w2)
           | (Inl (OtherError e), w2) \<Rightarrow> (Inl (OtherError e), emit CleanedUp w2)
           | (Inl e, w2) \<Rightarrow> (Inl e, emit CleanedUp (emit (ErrorEvent (exception_text e)) w2))))"

end
