(* ===== verification/Agent_Laws.thy ===== *)
theory Agent_Laws
  imports Agent_Loop
begin

text \<open>
  What the methods of the agent loop may add to the log. The contract between the model stream and
  its callbacks is the locale \<open>stream_callback\<close>, interpreted for the callback of a think round and
  for the one of the final synthesis; the calls of a run are counted by \<open>ran\<close>.
\<close>

subsection \<open>Kinds of events\<close>

definition think_event :: "event \<Rightarrow> bool" where
  "think_event e \<longleftrightarrow> (case e of LlmCalled _ _ \<Rightarrow> True | Slept _ \<Rightarrow> True | IdDrawn _ \<Rightarrow> True | AgentThought _ _ _ _ \<Rightarrow> True
     | FinalAnswer _ _ _ \<Rightarrow> True | ToolCallPending _ _ _ \<Rightarrow> True | _ \<Rightarrow> False)"

definition act_event :: "event \<Rightarrow> bool" where
  "act_event e \<longleftrightarrow> (case e of ToolInvoked _ _ \<Rightarrow> True | ToolHint _ _ _ _ \<Rightarrow> True | ToolResultEvent _ _ _ _ _ \<Rightarrow> True | _ \<Rightarrow> think_event e)"

definition loop_event :: "event \<Rightarrow> bool" where
  "loop_event e \<longleftrightarrow> (case e of Complete _ _ _ \<Rightarrow> False | ErrorEvent _ \<Rightarrow> False | CleanedUp \<Rightarrow> False | _ \<Rightarrow> True)"

definition round_call :: "event \<Rightarrow> bool" where
  "round_call e \<longleftrightarrow> (case e of LlmCalled _ with_tools \<Rightarrow> with_tools | _ \<Rightarrow> False)"

definition synthesis_call :: "event \<Rightarrow> bool" where
  "synthesis_call e \<longleftrightarrow> (case e of LlmCalled _ with_tools \<Rightarrow> \<not> with_tools | _ \<Rightarrow> False)"

lemmas event_kinds = think_event_def act_event_def loop_event_def round_call_def synthesis_call_def

lemma think_is_act: "think_event e \<Longrightarrow> act_event e"
  by (cases e) (simp_all add: event_kinds)

lemma act_is_loop: "act_event e \<Longrightarrow> loop_event e"
  by (cases e) (simp_all add: event_kinds)

lemma act_no_check: "act_event e \<Longrightarrow> e \<noteq> CancelChecked"
  by (cases e) (simp_all add: event_kinds)

subsection \<open>Growth of the log\<close>

definition fits :: "(event \<Rightarrow> bool) \<Rightarrow> nat \<Rightarrow> nat \<Rightarrow> event list \<Rightarrow> bool" where
  "fits ok rounds syntheses es \<longleftrightarrow>
     list_all ok es \<and> length (filter round_call es) \<le> rounds \<and> length (filter synthesis_call es) \<le> syntheses"

definition ran :: "(event \<Rightarrow> bool) \<Rightarrow> nat \<Rightarrow> nat \<Rightarrow> 'm world \<Rightarrow> 'm world \<Rightarrow> bool" where
  "ran ok rounds syntheses w w' \<longleftrightarrow> (\<exists>es. wd_log w' = wd_log w @ es \<and> fits ok rounds syntheses es)"

lemma fits_append: "fits ok a b es \<Longrightarrow> fits ok c d fs \<Longrightarrow> fits ok (a + c) (b + d) (es @ fs)"
  by (simp add: fits_def)

lemma fits_weaken: "fits ok a b es \<Longrightarrow> (\<And>e. ok e \<Longrightarrow> ok' e) \<Longrightarrow> a \<le> c \<Longrightarrow> b \<le> d \<Longrightarrow> fits ok' c d es"
  unfolding fits_def list_all_iff by auto

lemma ran_same [simp, intro]: "ran ok a b w w"
  unfolding ran_def fits_def by simp

lemma ran_context [simp]: "ran ok a b w (w\<lparr>wd_context := m\<rparr>)"
  unfolding ran_def fits_def by simp

lemma ran_from_context [simp]: "ran ok a b (w\<lparr>wd_context := m\<rparr>) w' = ran ok a b w w'"
  unfolding ran_def by simp

lemma ran_then: "ran ok a b w w1 \<Longrightarrow> ran ok c d w1 w2 \<Longrightarrow> ran ok (a + c) (b + d) w w2"
  unfolding ran_def by (metis append.assoc fits_append)

lemma ran_weaken: "ran ok a b w w1 \<Longrightarrow> (\<And>e. ok e \<Longrightarrow> ok' e) \<Longrightarrow> a \<le> c \<Longrightarrow> b \<le> d \<Longrightarrow> ran ok' c d w w1"
  unfolding ran_def by (meson fits_weaken)

lemma ran_quietly: "ran ok 0 0 w w1 \<Longrightarrow> ran ok a b w1 w2 \<Longrightarrow> ran ok a b w w2"
  using ran_then by fastforce

lemma ran_and_quietly: "ran ok a b w w1 \<Longrightarrow> ran ok 0 0 w1 w2 \<Longrightarrow> ran ok a b w w2"
  using ran_then by fastforce

lemma ran_emit: "ok e \<Longrightarrow> \<not> round_call e \<Longrightarrow> \<not> synthesis_call e \<Longrightarrow> ran ok 0 0 w (emit e w)"
  unfolding ran_def fits_def emit_def by simp

lemma ran_emit_think:
  "ran think_event 0 0 w (emit (IdDrawn suffix) w)"
  "ran think_event 0 0 w (emit (AgentThought i c n d) w)"
  "ran think_event 0 0 w (emit (FinalAnswer i c d) w)"
  "ran think_event 0 0 w (emit (ToolCallPending i c n) w)"
  "ran think_event 0 0 w (emit (Slept k) w)"
  by (rule ran_emit; simp add: event_kinds)+

lemma ran_draw_id: "draw_id env suffix w = (i, w1) \<Longrightarrow> ran think_event 0 0 w w1"
  by (auto simp: draw_id_def Let_def ran_emit_think)

lemma ran_model_call: "ran think_event (if t then 1 else 0) (if t then 0 else 1) w (emit (LlmCalled ms t) w)"
  unfolding ran_def fits_def emit_def by (simp add: event_kinds)

subsection \<open>The stream and its callbacks\<close>

locale stream_callback =
  fixes emit_func :: "chunk \<Rightarrow> 's \<times> 'm world \<Rightarrow> 's \<times> 'm world"
  assumes only_thinks: "ran think_event 0 0 (snd sw) (snd (emit_func c sw))"
begin

lemma consume_ran: "consume cx emit_func cs ad td r sw = (x, sw1) \<Longrightarrow> ran think_event 0 0 (snd sw) (snd sw1)"
proof (induction cs arbitrary: ad td r sw)
  case (Cons c cs)
  show ?case
    using Cons.prems by (auto simp: Let_def split: if_splits dest!: Cons.IH intro: ran_quietly [OF only_thinks])
qed simp

text \<open>A stream is one model call, then think events without another.\<close>

lemma stream_from_call:
  assumes "stream_llm_to_events env cx emit_func messages t sw = (x, sw1)"
  shows "\<exists>ms m. ran think_event 0 0 (emit (LlmCalled ms t) ((snd sw)\<lparr>wd_context := m\<rparr>)) (snd sw1)"
proof -
  obtain ms m where enc: "cx_encode_messages cx messages (wd_context (snd sw)) = (ms, m)" by fastforce
  let ?w1 = "emit (LlmCalled ms t) ((snd sw)\<lparr>wd_context := m\<rparr>)"
  let ?reply = "ev_stream env (wd_log ?w1)"
  obtain ad td r sw2 where con:
    "consume cx emit_func (fst ?reply) (cx_stream_decoder cx) (cx_stream_decoder cx) empty_result (fst sw, ?w1) = ((ad, td, r), sw2)"
    using prod_cases3 by (metis prod.collapse)
  have upto: "ran think_event 0 0 ?w1 (snd sw2)" using consume_ran [OF con] by simp
  have tails: "ran think_event 0 0 (snd sw2) (snd sw1)"
    using assms enc con
    by (auto simp: stream_llm_to_events_def Let_def split: option.splits if_splits intro: only_thinks ran_quietly [OF only_thinks])
  have "ran think_event 0 0 ?w1 (snd sw1)" by (rule ran_and_quietly [OF upto tails])
  then show ?thesis by blast
qed

lemma stream_ran:
  assumes "stream_llm_to_events env cx emit_func messages t sw = (x, sw1)"
  shows "ran think_event (if t then 1 else 0) (if t then 0 else 1) (snd sw) (snd sw1)"
proof -
  obtain ms m where m: "ran think_event 0 0 (emit (LlmCalled ms t) ((snd sw)\<lparr>wd_context := m\<rparr>)) (snd sw1)"
    using stream_from_call [OF assms] by blast
  show ?thesis
    using ran_and_quietly [OF ran_model_call m] by simp
qed

end

lemma ran_emit_thought: "ran think_event 0 0 w (emit_thought i n c d w)"
  by (simp add: emit_thought_def ran_emit_think)

lemma ran_close_thinking: "ran think_event 0 0 (snd tw) (snd (close_thinking i n tw))"
  by (simp add: close_thinking_def ran_emit_thought)

lemma ran_emit_answer: "ran think_event 0 0 (snd tw) (snd (emit_answer i a n c tw))"
proof (cases "close_thinking i n tw")
  case (Pair t w)
  have "ran think_event 0 0 (snd tw) w" using ran_close_thinking [of tw i n] Pair by simp
  then show ?thesis
    by (simp add: emit_answer_def Pair ran_and_quietly [OF _ ran_emit_think(3)])
qed

lemma ran_emit_portions: "ran think_event 0 0 (snd tw) (snd (emit_portions i a n parts tw))"
proof -
  obtain p q sp where parts: "parts = ((p, q), sp)" by (metis prod.collapse)
  have "ran think_event 0 0 (snd tw) w \<Longrightarrow> ran think_event 0 0 (snd tw) (snd (emit_answer i a n q (t, w)))" for t w
    using ran_quietly [OF _ ran_emit_answer [of "(t, w)"]] by simp
  then show ?thesis by (simp add: emit_portions_def Let_def parts ran_emit_thought)
qed

lemma ran_announce: "ran think_event 0 0 (snd tw) (snd (announce_tool_call n c tw))"
  by (simp add: announce_tool_call_def ran_emit_think split: option.splits)

lemma ran_thinking_tool_chunk: "ran think_event 0 0 (snd tw) (snd (thinking_tool_chunk env n d c tw))"
  by (auto simp: thinking_tool_chunk_def ran_emit_think split: option.splits prod.splits
      dest!: ran_draw_id intro: ran_and_quietly [OF _ ran_emit_think(2)])

lemma ran_emit_chunk: "ran think_event 0 0 (snd tw) (snd (emit_chunk env i a n c tw))"
proof -
  let ?tw1 = "announce_tool_call n c tw"
  have a: "ran think_event 0 0 (snd ?tw1) w2 \<Longrightarrow> ran think_event 0 0 (snd tw) w2" for w2
    by (rule ran_quietly [OF ran_announce])
  show ?thesis
    unfolding emit_chunk_def Let_def
    by (auto split: option.splits intro!: a ran_thinking_tool_chunk ran_emit_thought ran_close_thinking
        intro: ran_and_quietly [OF ran_emit_portions ran_close_thinking] ran_emit_portions
        ran_quietly [OF ran_emit_portions] ran_and_quietly [OF _ ran_close_thinking] ran_same)
qed

interpretation think_stream: stream_callback "emit_chunk env i a n" for env i a n
  by unfold_locales (rule ran_emit_chunk)

interpretation final_stream: stream_callback "emit_final a" for a
  by unfold_locales (simp add: emit_final_def ran_emit_think)

subsection \<open>Rounds and final synthesis\<close>

lemma ran_stream_thinking:
  assumes "stream_thinking_to_events env cx messages n w = (x, w1)"
  shows "ran think_event 1 0 w w1"
proof -
  obtain i w2 a w3 where ids: "draw_id env (lit ''thinking'') w = (i, w2)" "draw_id env (lit ''answer'') w2 = (a, w3)" by fastforce
  obtain r t w4 where s: "stream_llm_to_events env cx (emit_chunk env i a n) messages True (think_start, w3) = (r, t, w4)"
    using prod_cases3 by blast
  have "w4 = w1" using assms ids s
    by (auto simp: stream_thinking_to_events_def split: sum.splits prod.splits)
  then show ?thesis
    using ran_quietly [OF ran_draw_id [OF ids(1)] ran_quietly [OF ran_draw_id [OF ids(2)]]] think_stream.stream_ran [OF s] by simp
qed

lemma ran_render_user_turn: "render_user_turn env eng cx query w = (t, w1) \<Longrightarrow> \<exists>m. w1 = w\<lparr>wd_context := m\<rparr>"
  by (auto simp: render_user_turn_def Let_def)

text \<open>The final synthesis is one model call without tools.\<close>

lemma ran_synthesize_logged:
  assumes "synthesize_final_answer env eng cx query s w = (x, w1)"
  shows "ran think_event 0 1 w w1 \<and> (\<exists>es. wd_log w1 = wd_log w @ es \<and> list_ex synthesis_call es)"
proof -
  obtain turn w0 where turn: "render_user_turn env eng cx query w = (turn, w0)" by fastforce
  obtain results m where res: "rendered_results cx (all_calls s) (wd_context w0) = (results, m)" by fastforce
  obtain a w2 where d: "draw_id env (lit ''answer'') (w0\<lparr>wd_context := m\<rparr>) = (a, w2)" by fastforce
  let ?ms = "[plain_message ROLE_SYSTEM (build_system_prompt env eng cx w), plain_message ROLE_USER turn] @ results @
    [plain_message ROLE_USER (final_prompt query (list_ex (\<lambda>c. has_image (er_output (result_of c))) (all_calls s)))]"
  obtain r b w3 where s: "stream_llm_to_events env cx (emit_final a) ?ms False (False, w2) = (r, b, w3)" using prod_cases3 by blast
  have pre: "ran think_event 0 0 w w2" using ran_draw_id [OF d] ran_render_user_turn [OF turn] by auto
  have mid: "ran think_event 0 1 w w3" using ran_quietly [OF pre] final_stream.stream_ran [OF s] by simp
  have fin: "ran think_event 0 0 w3 w1" using assms turn res d s
    by (auto simp: synthesize_final_answer_def ran_emit_think split: sum.splits if_splits)
  obtain ms m2 where "ran think_event 0 0 (emit (LlmCalled ms False) (w2\<lparr>wd_context := m2\<rparr>)) w3"
    using final_stream.stream_from_call [OF s] by auto
  then have "\<exists>es. wd_log w1 = wd_log w @ es \<and> list_ex synthesis_call es"
    using pre fin unfolding ran_def emit_def by (auto simp: synthesis_call_def)
  then show ?thesis using ran_and_quietly [OF mid fin] by blast
qed

lemma ran_synthesize: "synthesize_final_answer env eng cx query s w = (x, w1) \<Longrightarrow> ran think_event 0 1 w w1"
  using ran_synthesize_logged by blast

lemma ran_handle_max: "handle_max_iterations env eng cx query s w = (x, w1) \<Longrightarrow> ran think_event 0 1 w w1"
  by (auto simp: handle_max_iterations_def split: prod.splits sum.splits agent_exception.splits dest!: ran_synthesize)

lemma ran_best_effort: "best_effort_synthesize env eng cx query s w = (x, w1) \<Longrightarrow> ran think_event 0 1 w w1"
  by (auto simp: best_effort_synthesize_def split: prod.splits sum.splits agent_exception.splits dest!: ran_synthesize)

lemma ran_retry:
  "retry_llm env cx messages n retries err w = (x, w1) \<Longrightarrow> ran think_event (length retries) 0 w w1"
proof (induction retries arbitrary: err w)
  case (Cons k ks)
  obtain y w2 where st: "stream_thinking_to_events env cx messages n (emit (Slept k) w) = (y, w2)" by fastforce
  have one: "ran think_event 1 0 w w2" by (rule ran_quietly [OF ran_emit_think(5) ran_stream_thinking [OF st]])
  have "w1 = w2 \<or> (\<exists>err1. retry_llm env cx messages n ks err1 w2 = (x, w1))"
    using Cons.prems st by (auto split: sum.splits agent_exception.splits if_splits)
  then show ?case
    using ran_then [OF one Cons.IH] ran_weaken [OF one, of think_event "Suc (length ks)" 0] by auto
qed simp

lemma ran_call_with_retries:
  assumes "call_with_retries env cx messages n w = (x, w1)"
  shows "ran think_event (Suc MAX_LLM_RETRIES) 0 w w1"
proof -
  obtain y w2 where st: "stream_thinking_to_events env cx messages n w = (y, w2)" by fastforce
  note one = ran_stream_thinking [OF st]
  have "w1 = w2 \<or> (\<exists>err1. retry_llm env cx messages n [1..<Suc MAX_LLM_RETRIES] err1 w2 = (x, w1))"
    using assms st by (auto simp: call_with_retries_def split: sum.splits agent_exception.splits if_splits)
  moreover have "ran think_event (Suc MAX_LLM_RETRIES) 0 w w1" if "retry_llm env cx messages n [1..<Suc MAX_LLM_RETRIES] err1 w2 = (x, w1)" for err1
    using ran_then [OF one ran_retry [OF that]] by (simp del: upt_Suc)
  moreover have "ran think_event (Suc MAX_LLM_RETRIES) 0 w w2" by (rule ran_weaken [OF one]) simp_all
  ultimately show ?thesis by blast
qed

text \<open>A failed round may use the one synthesis, and then the run is over.\<close>

lemma ran_call_llm:
  assumes "call_llm_with_retry env eng cx messages s query w = (x, w1)"
  shows "ran think_event (Suc MAX_LLM_RETRIES) (case x of Inr (Some _, _) \<Rightarrow> 0 | _ \<Rightarrow> 1) w w1"
proof -
  obtain y w2 where c: "call_with_retries env cx (sanitize_messages messages) (rs_current_round s) w = (y, w2)" by fastforce
  note one = ran_call_with_retries [OF c]
  have syn: "ran think_event (Suc MAX_LLM_RETRIES) 1 w w3" if "synthesize_final_answer env eng cx query s w2 = (z, w3)" for z w3
    using ran_then [OF one ran_synthesize [OF that]] by simp
  have weak: "ran think_event (Suc MAX_LLM_RETRIES) 1 w w2" by (rule ran_weaken [OF one]) simp_all
  show ?thesis using assms c one weak
    by (auto simp: call_llm_with_retry_def split: sum.splits agent_exception.splits if_splits prod.splits dest: syn)
qed

subsection \<open>Analyze and act\<close>

lemma ran_analyze: "analyze_response env response w = (v, w1) \<Longrightarrow> ran think_event 0 0 w w1"
  by (auto simp: analyze_response_def Let_def ran_emit_think split: if_splits prod.splits dest!: ran_draw_id
      intro: ran_and_quietly [OF _ ran_emit_think(3)])

lemma ran_invoke: "invoke_tool env eng name args w = (r, w1) \<Longrightarrow> ran act_event 0 0 w w1"
  by (auto simp: invoke_tool_def Let_def event_kinds intro: ran_emit)

lemma ran_run_tool_call: "run_tool_call env eng cx n k tc w = (c, w1) \<Longrightarrow> ran act_event 0 0 w w1"
proof -
  have hint: "ran act_event 0 0 w (emit (ToolHint i m a n) w)" for i m a by (rule ran_emit) (simp_all add: event_kinds)
  show "run_tool_call env eng cx n k tc w = (c, w1) \<Longrightarrow> ?thesis"
    by (auto simp: run_tool_call_def Let_def hint split: option.splits prod.splits if_splits
        dest!: ran_invoke intro: ran_quietly [OF hint])
qed

lemma ran_run_tool_calls: "run_tool_calls env eng cx n k tcs w = (cs, w1) \<Longrightarrow> ran act_event 0 0 w w1"
  by (induction tcs arbitrary: k w cs) (auto split: prod.splits dest!: ran_run_tool_call intro: ran_quietly)

lemma ran_fold_emit: "(\<And>c. ok (f c) \<and> \<not> round_call (f c) \<and> \<not> synthesis_call (f c)) \<Longrightarrow> ran ok 0 0 w (fold (\<lambda>c. emit (f c)) cs w)"
  by (induction cs arbitrary: w) (auto intro: ran_quietly [OF ran_emit])

lemma ran_execute_tool_calls: "execute_tool_calls env eng cx response n w = (cs, w1) \<Longrightarrow> ran act_event 0 0 w w1"
  by (auto simp: execute_tool_calls_def event_kinds split: prod.splits
      dest!: ran_run_tool_calls intro!: ran_and_quietly [OF _ ran_fold_emit])

lemma ran_append_tool_results: "append_tool_results env cx messages step w = (ms, w1) \<Longrightarrow> \<exists>m. w1 = w\<lparr>wd_context := m\<rparr>"
  by (auto simp: append_tool_results_def split: prod.splits)

end
