(* ===== verification/Agent_Runs.thy ===== *)
theory Agent_Runs
  imports Agent_Laws
begin

text \<open>
  Runs of the agent loop: the events of an iteration and of the whole loop, what cancellation stops,
  and the invariant of the run state.
\<close>

subsection \<open>Cancellation in a log\<close>

text \<open>Events that neither ask the model for another round nor run a tool.\<close>

definition settled :: "event \<Rightarrow> bool" where
  "settled e \<longleftrightarrow> \<not> round_call e \<and> (case e of ToolInvoked _ _ \<Rightarrow> False | _ \<Rightarrow> True)"

text \<open>From the first check that sees the cancellation on, every event is settled.\<close>

fun stops_when_cancelled :: "environment \<Rightarrow> event list \<Rightarrow> event list \<Rightarrow> bool" where
  "stops_when_cancelled env before [] = True"
| "stops_when_cancelled env before (e # es) =
     (if e = CancelChecked \<and> ev_cancelled env (before @ [e]) then list_all settled es
      else stops_when_cancelled env (before @ [e]) es)"

text \<open>Some check of the log saw the cancellation.\<close>

fun noticed :: "environment \<Rightarrow> event list \<Rightarrow> event list \<Rightarrow> bool" where
  "noticed env before [] = False"
| "noticed env before (e # es) = (e = CancelChecked \<and> ev_cancelled env (before @ [e]) \<or> noticed env (before @ [e]) es)"

lemma noticed_append: "noticed env before (es @ fs) = (noticed env before es \<or> noticed env (before @ es) fs)"
  by (induction es arbitrary: before) auto

definition no_check :: "event list \<Rightarrow> bool" where
  "no_check es \<longleftrightarrow> CancelChecked \<notin> set es"

lemma stops_settled: "list_all settled es \<Longrightarrow> stops_when_cancelled env before es"
  by (induction es arbitrary: before) auto

lemma stops_no_check: "no_check es \<Longrightarrow> stops_when_cancelled env before (es @ fs) = stops_when_cancelled env (before @ es) fs"
  by (induction es arbitrary: before) (auto simp: no_check_def)

lemma stops_no_check_only: "no_check es \<Longrightarrow> stops_when_cancelled env before es"
  using stops_no_check [of es env before "[]"] by simp

lemma stops_then_settled:
  "stops_when_cancelled env before es \<Longrightarrow> list_all settled fs \<Longrightarrow> stops_when_cancelled env before (es @ fs)"
  by (induction es arbitrary: before) (auto intro: stops_settled)

lemma fits_act_no_check: "fits act_event a b es \<Longrightarrow> no_check es"
  unfolding fits_def no_check_def list_all_iff by (metis act_no_check)

lemma fits_think_no_check: "fits think_event a b es \<Longrightarrow> no_check es"
  using fits_weaken [of think_event a b es act_event a b] fits_act_no_check think_is_act by blast

lemma filter_none: "length (filter P xs) \<le> 0 \<longleftrightarrow> list_all (\<lambda>x. \<not> P x) xs"
  by (induction xs) auto

lemma fits_think_settled: "fits think_event 0 b es \<Longrightarrow> list_all settled es"
  unfolding fits_def filter_none
  by (induction es) (auto simp: settled_def event_kinds split: event.splits)

subsection \<open>The events of an iteration\<close>

text \<open>A round: think events, then, when the round got that far, the check and the act events.\<close>

definition goes_on :: "agent_exception + iter_outcome \<Rightarrow> bool" where
  "goes_on x \<longleftrightarrow> x = Inr NEXT \<or> x = Inr CONTINUE"

definition round_trace ::
  "environment \<Rightarrow> agent_exception + iter_outcome \<Rightarrow> event list \<Rightarrow> nat \<Rightarrow> event list \<Rightarrow> event list \<Rightarrow> bool" where
  "round_trace env x before syntheses es1 es2 \<longleftrightarrow>
     fits think_event (Suc MAX_LLM_RETRIES) syntheses es1 \<and>
     (if es2 = [] then \<not> goes_on x
      else hd es2 = CancelChecked \<and> fits act_event 0 0 (tl es2) \<and>
        (ev_cancelled env (before @ es1 @ [CancelChecked]) \<longrightarrow> tl es2 = [] \<and> \<not> goes_on x))"

lemma after_response_trace:
  assumes "after_response env eng cx response messages s w = (outcome, ms, s1, w1)"
  shows "w1 = w \<and> outcome = BREAK \<or>
    (\<exists>es. wd_log w1 = wd_log w @ CancelChecked # es \<and> fits act_event 0 0 es \<and>
       (ev_cancelled env (wd_log w @ [CancelChecked]) \<longrightarrow> es = [] \<and> outcome = BREAK))"
proof -
  obtain s2 stuck where n: "note_repetition response s = (s2, stuck)" by fastforce
  let ?w1 = "emit CancelChecked w"
  have log: "wd_log ?w1 = wd_log w @ [CancelChecked]" by (simp add: emit_def)
  show ?thesis
  proof (cases "stuck \<or> ev_cancelled env (wd_log ?w1)")
    case True
    then show ?thesis using assms n log
      by (auto simp: after_response_def check_cancelled_def Let_def fits_def split: if_splits)
  next
    case False
    obtain v w2 where v: "analyze_response env response ?w1 = (v, w2)" by fastforce
    obtain calls w3 where c: "execute_tool_calls env eng cx response (rs_current_round s2) w2 = (calls, w3)" by fastforce
    have r2: "ran act_event 0 0 ?w1 w2" by (rule ran_weaken [OF ran_analyze [OF v]]) (simp_all add: think_is_act)
    have r3: "ran act_event 0 0 ?w1 w3" by (rule ran_quietly [OF r2 ran_execute_tool_calls [OF c]])
    have "ran act_event 0 0 ?w1 w1"
      using assms n False v c r2 r3
      by (auto simp: after_response_def check_cancelled_def Let_def split: if_splits prod.splits dest!: ran_append_tool_results
          intro: ran_and_quietly)
    then show ?thesis using False log by (auto simp: ran_def)
  qed
qed

lemma iteration_trace:
  assumes "run_iteration env eng cx query messages s w = (x, ms, s1, w1)"
  shows "\<exists>es1 es2. wd_log w1 = wd_log w @ es1 @ es2 \<and>
    round_trace env x (wd_log w) (if goes_on x \<or> x = Inr BREAK \<and> \<not> rs_is_complete s1 then 0 else 1) es1 es2"
proof -
  obtain y w2 where c: "call_llm_with_retry env eng cx messages s query w = (y, w2)" by fastforce
  show ?thesis
  proof (cases "\<exists>response s2. y = Inr (Some response, s2)")
    case False
    then have "w1 = w2 \<and> \<not> goes_on x \<and> (x = Inr BREAK \<longrightarrow> rs_is_complete s1)"
      using assms c by (auto simp: run_iteration_def goes_on_def split: sum.splits prod.splits option.splits dest!: call_llm_state)
    moreover have "ran think_event (Suc MAX_LLM_RETRIES) 1 w w2"
      by (rule ran_weaken [OF ran_call_llm [OF c]]) (auto split: sum.splits option.splits)
    then obtain es where "wd_log w2 = wd_log w @ es" "fits think_event (Suc MAX_LLM_RETRIES) 1 es" unfolding ran_def by blast
    ultimately show ?thesis by (intro exI [of _ es] exI [of _ "[]"]) (auto simp: round_trace_def)
  next
    case True
    then obtain response s2 where y: "y = Inr (Some response, s2)" by blast
    obtain outcome where x: "x = Inr outcome" and a: "after_response env eng cx response messages s2 w2 = (outcome, ms, s1, w1)"
      using assms c y by (auto simp: run_iteration_def split: prod.splits)
    obtain es1 where es1: "wd_log w2 = wd_log w @ es1" "fits think_event (Suc MAX_LLM_RETRIES) 0 es1"
      using ran_call_llm [OF c] y unfolding ran_def by auto
    have weak: "fits think_event (Suc MAX_LLM_RETRIES) n es1" for n by (rule fits_weaken [OF es1(2)]) simp_all
    show ?thesis
      using after_response_trace [OF a]
    proof (elim disjE exE conjE)
      assume "w1 = w2" "outcome = BREAK"
      then show ?thesis using es1 weak x by (intro exI [of _ es1] exI [of _ "[]"]) (auto simp: round_trace_def goes_on_def)
    next
      fix es assume "wd_log w1 = wd_log w2 @ CancelChecked # es" "fits act_event 0 0 es"
        "ev_cancelled env (wd_log w2 @ [CancelChecked]) \<longrightarrow> es = [] \<and> outcome = BREAK"
      then show ?thesis using es1 weak x
        by (intro exI [of _ es1] exI [of _ "CancelChecked # es"]) (auto simp: round_trace_def goes_on_def)
    qed
  qed
qed

lemma round_trace_stops:
  assumes "round_trace env x before n es1 es2" "goes_on x \<longrightarrow> stops_when_cancelled env (before @ es1 @ es2) fs" "\<not> goes_on x \<longrightarrow> list_all settled fs"
  shows "stops_when_cancelled env before (es1 @ es2 @ fs)"
proof -
  have es1: "no_check es1" using assms(1) fits_think_no_check unfolding round_trace_def by blast
  show ?thesis
  proof (cases es2)
    case Nil
    then have "list_all settled fs" using assms by (auto simp: round_trace_def)
    then show ?thesis using es1 Nil by (simp add: stops_no_check stops_settled)
  next
    case (Cons e rest)
    then have e: "e = CancelChecked" and rest: "no_check rest"
      and c: "ev_cancelled env (before @ es1 @ [CancelChecked]) \<longrightarrow> rest = [] \<and> \<not> goes_on x"
      using assms(1) fits_act_no_check by (auto simp: round_trace_def)
    then show ?thesis using assms(2,3) Cons es1 rest
      by (auto simp: stops_no_check stops_settled)
  qed
qed

lemma round_trace_fits:
  assumes "round_trace env x before n es1 es2"
  shows "fits loop_event (Suc MAX_LLM_RETRIES) n (es1 @ es2)"
proof -
  have 1: "fits loop_event (Suc MAX_LLM_RETRIES) n es1"
    using assms unfolding round_trace_def by (auto intro: fits_weaken act_is_loop think_is_act)
  have 2: "fits loop_event 0 0 es2"
  proof (cases es2)
    case (Cons e rest)
    then have "e = CancelChecked" "fits act_event 0 0 rest" using assms by (auto simp: round_trace_def)
    then show ?thesis unfolding Cons fits_def by (auto simp: list_all_iff act_is_loop loop_event_def [of CancelChecked] round_call_def [of CancelChecked] synthesis_call_def [of CancelChecked])
  qed (simp add: fits_def)
  show ?thesis using fits_append [OF 1 2] by simp
qed

subsection \<open>The loop as a relation\<close>

text \<open>Every way a run of the \<open>while\<close> goes; rule induction over it proves the facts of \<open>run_loop\<close>.\<close>

inductive loops ::
  "environment \<Rightarrow> engine \<Rightarrow> ('m, 'd) context_ops \<Rightarrow> str \<Rightarrow> message list \<Rightarrow> run_state \<Rightarrow> 'm world \<Rightarrow>
     agent_exception option \<Rightarrow> run_state \<Rightarrow> 'm world \<Rightarrow> bool"
  for env :: environment and eng :: engine and cx :: "('m, 'd) context_ops" and query :: str
where
  ceiling: "\<not> rs_current_round s < en_max_iterations eng \<Longrightarrow> loops env eng cx query messages s w None s w"
| stopped: "rs_current_round s < en_max_iterations eng \<Longrightarrow> check_cancelled env w = (True, w1) \<Longrightarrow>
    cancelled_run env eng cx query s w1 = (exc, s1, w2) \<Longrightarrow> loops env eng cx query messages s w exc s1 w2"
| failed: "rs_current_round s < en_max_iterations eng \<Longrightarrow> check_cancelled env w = (False, w1) \<Longrightarrow>
    run_iteration env eng cx query messages s w1 = (Inl e, ms, s1, w2) \<Longrightarrow> loops env eng cx query messages s w (Some e) s1 w2"
| left: "rs_current_round s < en_max_iterations eng \<Longrightarrow> check_cancelled env w = (False, w1) \<Longrightarrow>
    run_iteration env eng cx query messages s w1 = (Inr BREAK, ms, s1, w2) \<Longrightarrow> loops env eng cx query messages s w None s1 w2"
| nudged: "rs_current_round s < en_max_iterations eng \<Longrightarrow> check_cancelled env w = (False, w1) \<Longrightarrow>
    run_iteration env eng cx query messages s w1 = (Inr CONTINUE, ms, s1, w2) \<Longrightarrow>
    loops env eng cx query ms s1 w2 exc s2 w3 \<Longrightarrow> loops env eng cx query messages s w exc s2 w3"
| acted: "rs_current_round s < en_max_iterations eng \<Longrightarrow> check_cancelled env w = (False, w1) \<Longrightarrow>
    run_iteration env eng cx query messages s w1 = (Inr NEXT, ms, s1, w2) \<Longrightarrow>
    loops env eng cx query ms (next_round s1) w2 exc s2 w3 \<Longrightarrow> loops env eng cx query messages s w exc s2 w3"

lemma run_loop_loops:
  "run_loop env eng cx query messages s w = (exc, s1, w1) \<Longrightarrow> loops env eng cx query messages s w exc s1 w1"
proof (induction env eng cx query messages s w arbitrary: exc s1 w1 rule: run_loop.induct)
  case (1 env eng cx query messages s w)
  show ?case
  proof (cases "rs_current_round s < en_max_iterations eng")
    case False
    then show ?thesis using "1.prems" by (subst (asm) run_loop.simps) (auto intro: ceiling)
  next
    case go: True
    obtain b w2 where c: "check_cancelled env w = (b, w2)" by fastforce
    show ?thesis
    proof (cases b)
      case True
      then show ?thesis using "1.prems" go c by (subst (asm) run_loop.simps) (auto intro: stopped)
    next
      case False
      obtain x ms s2 w3 where i: "run_iteration env eng cx query messages s w2 = (x, ms, s2, w3)" using prod_cases4 by blast
      note IH = "1.IH" [OF go c [symmetric] _ i [symmetric]]
      have eq: "run_loop env eng cx query messages s w = (case x of Inl e \<Rightarrow> (Some e, s2, w3)
        | Inr CONTINUE \<Rightarrow> run_loop env eng cx query ms s2 w3 | Inr BREAK \<Rightarrow> (None, s2, w3)
        | Inr NEXT \<Rightarrow> run_loop env eng cx query ms (next_round s2) w3)"
        using go c i False by (subst run_loop.simps) (simp split: sum.splits iter_outcome.splits)
      show ?thesis
      proof (cases x)
        case (Inl e)
        then show ?thesis using "1.prems" eq go c i False by (auto intro: failed)
      next
        case (Inr outcome)
        then show ?thesis using "1.prems" eq go c i False IH
          by (cases outcome) (auto intro: left nudged acted)
      qed
    qed
  qed
qed

subsection \<open>The events of the loop\<close>

definition loop_budget :: "engine \<Rightarrow> run_state \<Rightarrow> nat" where
  "loop_budget eng s = nat (en_max_iterations eng - rs_current_round s) + (MAX_EMPTY_RESPONSE_RETRIES - rs_empty_retries s)"

definition loop_trace ::
  "environment \<Rightarrow> engine \<Rightarrow> event list \<Rightarrow> run_state \<Rightarrow> agent_exception option \<Rightarrow> run_state \<Rightarrow> event list \<Rightarrow> bool" where
  "loop_trace env eng before s exc s1 es \<longleftrightarrow>
     stops_when_cancelled env before es \<and>
     fits loop_event (Suc MAX_LLM_RETRIES * loop_budget eng s) (if exc = None \<and> \<not> rs_is_complete s1 then 0 else 1) es"

lemma loop_budget_pos:
  "rs_current_round s < en_max_iterations eng \<Longrightarrow> Suc MAX_LLM_RETRIES + 0 \<le> Suc MAX_LLM_RETRIES * loop_budget eng s"
  using mult_le_mono2 [of 1 "loop_budget eng s" "Suc MAX_LLM_RETRIES"] by (simp add: loop_budget_def)

lemma check_cancelled_log: "check_cancelled env w = (b, w1) \<Longrightarrow> wd_log w1 = wd_log w @ [CancelChecked] \<and> b = ev_cancelled env (wd_log w1)"
  by (auto simp: check_cancelled_def emit_def Let_def)

lemma ran_cancelled_run: "cancelled_run env eng cx query s w = (exc, s1, w1) \<Longrightarrow> ran think_event 0 1 w w1 \<and> exc \<noteq> None"
  by (auto simp: cancelled_run_def Let_def split: if_splits prod.splits sum.splits dest: ran_best_effort)

lemma fits_check: "fits loop_event a b es \<Longrightarrow> fits loop_event a b (CancelChecked # es)"
  by (simp add: fits_def event_kinds)

lemma checked_round_trace:
  assumes i: "run_iteration env eng cx query messages s w1 = (x, ms, s1, w2)" and c: "check_cancelled env w = (False, w1)"
    and "goes_on x \<Longrightarrow> stops_when_cancelled env (wd_log w2) fs \<and> fits loop_event n k fs" "\<not> goes_on x \<Longrightarrow> fs = [] \<and> n = 0"
    and "k = (if goes_on x then k else if x = Inr BREAK \<and> \<not> rs_is_complete s1 then 0 else 1)"
  shows "\<exists>es. wd_log w2 @ fs = wd_log w @ es \<and> stops_when_cancelled env (wd_log w) es \<and>
    fits loop_event (Suc MAX_LLM_RETRIES + n) k es"
proof -
  let ?k = "if goes_on x \<or> x = Inr BREAK \<and> \<not> rs_is_complete s1 then 0 else 1"
  obtain es1 es2 where log: "wd_log w2 = wd_log w1 @ es1 @ es2" and t: "round_trace env x (wd_log w1) ?k es1 es2"
    using iteration_trace [OF i] by blast
  have w1: "wd_log w1 = wd_log w @ [CancelChecked]" "\<not> ev_cancelled env (wd_log w1)" using check_cancelled_log [OF c] by auto
  have s: "stops_when_cancelled env (wd_log w1) (es1 @ es2 @ fs)"
    by (rule round_trace_stops [OF t]) (use assms(3,4) log in auto)
  have "fits loop_event (Suc MAX_LLM_RETRIES + n) k ((es1 @ es2) @ fs)"
  proof (cases "goes_on x")
    case True
    then show ?thesis using fits_append [OF round_trace_fits [OF t], of n k fs] assms(3) by simp
  next
    case False
    then show ?thesis using round_trace_fits [OF t] assms(4,5) by (auto split: if_splits)
  qed
  then show ?thesis using log w1 s by (intro exI [of _ "CancelChecked # es1 @ es2 @ fs"]) (auto intro: fits_check)
qed

lemma loops_trace:
  "loops env eng cx query messages s w exc s1 w1 \<Longrightarrow>
     \<exists>es. wd_log w1 = wd_log w @ es \<and> loop_trace env eng (wd_log w) s exc s1 es"
proof (induction rule: loops.induct)
  case (ceiling s messages w)
  then show ?case by (simp add: loop_trace_def fits_def)
next
  case (stopped s w w1 exc s1 w2 messages)
  then obtain es where es: "wd_log w2 = wd_log w1 @ es" "fits think_event 0 1 es" and e: "exc \<noteq> None"
    using ran_cancelled_run unfolding ran_def by blast
  have "fits loop_event (Suc MAX_LLM_RETRIES * loop_budget eng s) 1 es"
    by (rule fits_weaken [OF es(2)]) (auto intro: act_is_loop think_is_act)
  then show ?case using check_cancelled_log [OF stopped(2)] es e fits_think_settled [OF es(2)]
    by (auto simp: loop_trace_def intro: fits_check)
next
  case (failed s w w1 messages e ms s1 w2)
  show ?case
    using checked_round_trace [OF failed(3,2), of "[]" 0 1] fits_weaken [OF _ _ loop_budget_pos [OF failed(1)] order.refl]
    by (auto simp: loop_trace_def goes_on_def simp del: mult_Suc add_0_right)
next
  case (left s w w1 messages ms s1 w2)
  show ?case
    using checked_round_trace [OF left(3,2), of "[]" 0 "if rs_is_complete s1 then 1 else 0"] fits_weaken [OF _ _ loop_budget_pos [OF left(1)] order.refl]
    by (auto simp: loop_trace_def goes_on_def simp del: mult_Suc add_0_right split: if_splits)
next
  case (nudged s w w1 messages ms s1 w2 exc s2 w3)
  then obtain fs where fs: "wd_log w3 = wd_log w2 @ fs" "loop_trace env eng (wd_log w2) s1 exc s2 fs" by blast
  have "loop_budget eng s = Suc (loop_budget eng s1)"
    using run_iteration_counters [OF nudged(3)] by (auto simp: loop_budget_def)
  then show ?case
    using checked_round_trace [OF nudged(3,2), of fs "Suc MAX_LLM_RETRIES * loop_budget eng s1" "if exc = None \<and> \<not> rs_is_complete s2 then 0 else 1"] fs
    by (auto simp: loop_trace_def goes_on_def)
next
  case (acted s w w1 messages ms s1 w2 exc s2 w3)
  then obtain fs where fs: "wd_log w3 = wd_log w2 @ fs" "loop_trace env eng (wd_log w2) (next_round s1) exc s2 fs" by blast
  have "loop_budget eng s = Suc (loop_budget eng (next_round s1))"
    using run_iteration_counters [OF acted(3)] acted(1) by (auto simp: loop_budget_def next_round_def)
  then show ?case
    using checked_round_trace [OF acted(3,2), of fs "Suc MAX_LLM_RETRIES * loop_budget eng (next_round s1)" "if exc = None \<and> \<not> rs_is_complete s2 then 0 else 1"] fs
    by (auto simp: loop_trace_def goes_on_def)
qed

text \<open>A run that ends as cancelled has a check that saw it.\<close>

definition grows_noticed :: "environment \<Rightarrow> 'm world \<Rightarrow> 'm world \<Rightarrow> bool" where
  "grows_noticed env w w' \<longleftrightarrow> (\<exists>es. wd_log w' = wd_log w @ es \<and> noticed env (wd_log w) es)"

lemma noticed_later: "wd_log w1 = wd_log w @ es \<Longrightarrow> grows_noticed env w1 w2 \<Longrightarrow> grows_noticed env w w2"
  unfolding grows_noticed_def by (auto simp: noticed_append)

lemma noticed_head:
  assumes "check_cancelled env w = (True, w1)" "ran ok a b w1 w2"
  shows "grows_noticed env w w2"
  using check_cancelled_log [OF assms(1)] assms(2) unfolding grows_noticed_def ran_def by auto

lemma loops_cancelled_noticed:
  "loops env eng cx query messages s w exc s1 w1 \<Longrightarrow> exc = Some (AgentCancelledError st) \<Longrightarrow>
     (\<And>messages s w e ms s1 w1. run_iteration env eng cx query messages s w = (Inl e, ms, s1, w1) \<Longrightarrow> e \<noteq> AgentCancelledError st) \<Longrightarrow>
     grows_noticed env w w1"
proof (induction rule: loops.induct)
  case (stopped s w w1 exc s1 w2 messages)
  then show ?case using noticed_head [OF stopped(2)] ran_cancelled_run [OF stopped(3)] by blast
next
  case (nudged s w w1 messages ms s1 w2 exc s2 w3)
  then have "grows_noticed env w2 w3" by blast
  then show ?case using iteration_trace [OF nudged(3)] check_cancelled_log [OF nudged(2)] noticed_later [of w2 w] by auto
next
  case (acted s w w1 messages ms s1 w2 exc s2 w3)
  then have "grows_noticed env w2 w3" by blast
  then show ?case using iteration_trace [OF acted(3)] check_cancelled_log [OF acted(2)] noticed_later [of w2 w] by auto
qed auto

end
