(* ===== verification/Agent_State.thy ===== *)
theory Agent_State
  imports Agent_Runs
begin

text \<open>
  The invariant of the run state of the agent loop: rounds are numbered without gaps and never more
  than the ceiling, every tool call has a result and an id the providers accept, and an answer is
  only there when the run is complete.
\<close>

subsection \<open>Tool-call ids\<close>

definition accepted_id :: "str \<Rightarrow> bool" where
  "accepted_id i \<longleftrightarrow> i \<noteq> [] \<and> length i \<le> MAX_TOOL_CALL_ID_LEN \<and> list_all valid_id_char i"

lemma hex_digit_valid: "d < 16 \<Longrightarrow> valid_id_char (hex_digit d)"
  by (cases "d < 10") (auto simp: hex_digit_def valid_id_char_def)

lemma hex_of_valid: "list_all valid_id_char (hex_of bytes)"
  by (induction bytes) (simp_all add: hex_of_def hex_digit_valid)

lemma hex_of_length: "length (hex_of bytes) = 2 * length bytes"
  by (induction bytes) (simp_all add: hex_of_def)

lemma list_all_take: "list_all P xs \<Longrightarrow> list_all P (take n xs)"
  by (induction xs arbitrary: n) (auto simp: take_Cons split: nat.splits)

lemma normalize_tool_call_id_accepted: "accepted_id (normalize_tool_call_id sha256 call_id tool_name index)"
proof -
  let ?replace = "map (\<lambda>c. if valid_id_char c then c else 95)"
  let ?raw = "if strip call_id = [] then lit ''call_'' @ hex_of (take 6 (sha256 (tool_name @ [95] @ decimal_digits index))) else strip call_id"
  have valid: "list_all valid_id_char (?replace xs)" for xs
    by (induction xs) (simp_all add: valid_id_char_def [of 95])
  have ne: "?replace ?raw \<noteq> []" by (simp add: lit_def)
  have suffix: "length ([95] @ hex_of (take 4 (sha256 xs))) \<le> 9" for xs by (simp add: hex_of_length)
  show ?thesis
    using valid [of ?raw] ne suffix [of "?replace ?raw"] hex_of_valid
    by (auto simp: normalize_tool_call_id_def accepted_id_def Let_def MAX_TOOL_CALL_ID_LEN_def list_all_take hex_of_length
        valid_id_char_def [of 95])
qed

subsection \<open>The invariant\<close>

definition wf_call :: "tool_call \<Rightarrow> bool" where
  "wf_call c \<longleftrightarrow> ac_result c \<noteq> None \<and> accepted_id (ac_id c)"

definition wf_state :: "engine \<Rightarrow> run_state \<Rightarrow> bool" where
  "wf_state eng s \<longleftrightarrow>
     0 \<le> rs_current_round s \<and> length (rs_round_steps s) \<le> nat (en_max_iterations eng) \<and>
     int (length (rs_round_steps s)) \<in> {rs_current_round s, rs_current_round s + 1} \<and>
     map as_iteration (rs_round_steps s) = map int [0..<length (rs_round_steps s)] \<and>
     list_all (\<lambda>st. list_all wf_call (as_tool_calls st)) (rs_round_steps s) \<and>
     (rs_final_answer s \<noteq> [] \<longrightarrow> rs_is_complete s) \<and>
     rs_empty_retries s \<le> Suc MAX_EMPTY_RESPONSE_RETRIES \<and> rs_same_content s \<le> MAX_REPEATED_RESPONSE_ROUNDS"

text \<open>At the head of the loop the run is not complete and its last round is closed.\<close>

definition wf_head :: "engine \<Rightarrow> run_state \<Rightarrow> bool" where
  "wf_head eng s \<longleftrightarrow> wf_state eng s \<and> \<not> rs_is_complete s \<and> int (length (rs_round_steps s)) = rs_current_round s \<and>
     rs_empty_retries s \<le> MAX_EMPTY_RESPONSE_RETRIES \<and> rs_same_content s < MAX_REPEATED_RESPONSE_ROUNDS"

lemma run_start_wf: "wf_head eng run_start"
  by (simp add: wf_head_def wf_state_def run_start_def MAX_REPEATED_RESPONSE_ROUNDS_def)

lemma wf_answered: "wf_state eng s \<Longrightarrow> wf_state eng (s\<lparr>rs_final_answer := a, rs_is_complete := True\<rparr>)"
  by (simp add: wf_state_def)

lemma wf_complete: "wf_state eng s \<Longrightarrow> wf_state eng (s\<lparr>rs_is_complete := True\<rparr>)"
  by (simp add: wf_state_def)

lemma wf_note:
  assumes "note_repetition response s = (s1, stuck)" "wf_head eng s"
  shows "wf_state eng s1 \<and> (\<not> stuck \<longrightarrow> wf_head eng s1)"
  using assms by (auto simp: note_repetition_def Let_def wf_head_def wf_state_def MAX_REPEATED_RESPONSE_ROUNDS_def split: if_splits)

lemma wf_add_step:
  assumes "wf_state eng s" "int (length (rs_round_steps s)) = rs_current_round s" "rs_current_round s < en_max_iterations eng"
    "as_iteration step = rs_current_round s" "list_all wf_call (as_tool_calls step)"
  shows "wf_state eng (add_step step s)"
  using assms by (auto simp: wf_state_def add_step_def)

lemma wf_run_tool_call: "run_tool_call env eng cx n k tc w = (c, w1) \<Longrightarrow> wf_call c"
  by (auto simp: run_tool_call_def wf_call_def Let_def normalize_tool_call_id_accepted split: option.splits prod.splits)

lemma wf_run_tool_calls: "run_tool_calls env eng cx n k tcs w = (cs, w1) \<Longrightarrow> list_all wf_call cs"
  by (induction tcs arbitrary: k w cs w1) (auto split: prod.splits dest: wf_run_tool_call)

lemma wf_execute_tool_calls: "execute_tool_calls env eng cx response n w = (cs, w1) \<Longrightarrow> list_all wf_call cs"
  by (auto simp: execute_tool_calls_def split: prod.splits dest: wf_run_tool_calls)

lemma wf_finish:
  assumes "finish_verdict v step messages s = (outcome, ms, s1)" "wf_head eng s" "rs_current_round s < en_max_iterations eng"
    "as_iteration step = rs_current_round s" "as_tool_calls step = []"
  shows "wf_state eng s1 \<and> (outcome = CONTINUE \<longrightarrow> wf_head eng s1) \<and> outcome \<noteq> NEXT"
proof -
  have "wf_state eng (add_step step (s\<lparr>rs_empty_retries := Suc (rs_empty_retries s), rs_final_answer := a, rs_is_complete := True\<rparr>))"
    "wf_state eng (add_step step (s\<lparr>rs_final_answer := a, rs_is_complete := True\<rparr>))" for a
    by (rule wf_add_step; use assms in \<open>simp add: wf_head_def wf_state_def\<close>)+
  then show ?thesis using assms
    by (auto simp: finish_verdict_def Let_def wf_head_def split: if_splits) (auto simp: wf_state_def)
qed

lemma wf_after_response:
  assumes a: "after_response env eng cx response messages s w = (outcome, ms, s1, w1)" and s: "wf_head eng s"
    and lt: "rs_current_round s < en_max_iterations eng"
  shows "wf_state eng s1 \<and> (outcome = CONTINUE \<longrightarrow> wf_head eng s1) \<and> (outcome = NEXT \<longrightarrow> wf_head eng (next_round s1))"
proof -
  obtain s2 stuck where n: "note_repetition response s = (s2, stuck)" by fastforce
  have s2: "wf_state eng s2" "\<not> stuck \<longrightarrow> wf_head eng s2" "rs_current_round s2 < en_max_iterations eng"
    using wf_note [OF n s] note_repetition_counters [OF n] lt by auto
  have step: "wf_state eng (add_step ((build_step s2 response)\<lparr>as_tool_calls := cs\<rparr>) s2)"
    if "\<not> stuck" "list_all wf_call cs" for cs
    by (rule wf_add_step) (use s2 that in \<open>auto simp: wf_head_def build_step_def\<close>)
  have plain: "\<not> stuck \<Longrightarrow> wf_state eng (add_step (build_step s2 response) s2)"
    using step [of "[]"] by (simp add: build_step_def)
  have head: "wf_head eng (next_round (add_step ((build_step s2 response)\<lparr>as_tool_calls := cs\<rparr>) s2))"
    if "\<not> stuck" "list_all wf_call cs" for cs
    using step [OF that] s2 that unfolding wf_head_def
    by (auto simp: wf_state_def next_round_def add_step_def)
  show ?thesis using a n s2 step plain head
    by (auto simp: after_response_def Let_def split: if_splits prod.splits
        dest!: wf_finish [OF _ _ _] wf_execute_tool_calls) (auto simp: build_step_def)
qed

lemma wf_run_iteration:
  assumes i: "run_iteration env eng cx query messages s w = (x, ms, s1, w1)" and s: "wf_head eng s"
    and lt: "rs_current_round s < en_max_iterations eng"
  shows "wf_state eng s1 \<and> (x = Inr CONTINUE \<longrightarrow> wf_head eng s1) \<and> (x = Inr NEXT \<longrightarrow> wf_head eng (next_round s1))"
proof -
  obtain y w2 where c: "call_llm_with_retry env eng cx messages s query w = (y, w2)" by fastforce
  have st: "wf_state eng s" using s by (simp add: wf_head_def)
  show ?thesis
    using i c s st wf_answered [OF st] lt
    by (auto simp: run_iteration_def split: sum.splits prod.splits option.splits dest!: call_llm_state dest: wf_after_response)
qed

lemma best_effort_state: "best_effort_synthesize env eng cx query s w = (Inr s1, w1) \<Longrightarrow> \<exists>a. s1 = s\<lparr>rs_final_answer := a\<rparr>"
  by (auto simp: best_effort_synthesize_def split: prod.splits sum.splits agent_exception.splits dest!: synthesize_state)
    (rule exI [of _ "rs_final_answer s1"], simp)+

lemma wf_cancelled_run:
  assumes "cancelled_run env eng cx query s w = (exc, s1, w1)" "wf_head eng s"
  shows "wf_state eng s1 \<and> (exc = Some (AgentCancelledError st) \<longrightarrow> st = freeze s1)"
  using assms wf_answered wf_complete
  by (auto simp: cancelled_run_def wf_head_def Let_def best_effort_synthesize_def split: if_splits prod.splits sum.splits
      agent_exception.splits dest!: best_effort_state synthesize_state)

definition loop_result_ok :: "engine \<Rightarrow> agent_exception option \<Rightarrow> run_state \<Rightarrow> bool" where
  "loop_result_ok eng exc s \<longleftrightarrow> wf_state eng s \<and> (case exc of Some (AgentCancelledError st) \<Rightarrow> st = freeze s | _ \<Rightarrow> True)"

text \<open>Only the head of the loop raises the cancellation.\<close>

lemma stream_not_cancelled: "stream_llm_to_events env cx f ms t sw = (Inl e, sw1) \<Longrightarrow> e \<noteq> AgentCancelledError st"
  by (auto simp: stream_llm_to_events_def Let_def split: prod.splits option.splits if_splits)

lemma thinking_not_cancelled: "stream_thinking_to_events env cx ms n w = (Inl e, w1) \<Longrightarrow> e \<noteq> AgentCancelledError st"
  by (auto simp: stream_thinking_to_events_def split: prod.splits sum.splits dest: stream_not_cancelled)

lemma synthesize_not_cancelled: "synthesize_final_answer env eng cx query s w = (Inl e, w1) \<Longrightarrow> e \<noteq> AgentCancelledError st"
  by (auto simp: synthesize_final_answer_def Let_def split: prod.splits sum.splits if_splits dest: stream_not_cancelled)

lemma retry_not_cancelled: "retry_llm env cx ms n ks err w = (Inl e, w1) \<Longrightarrow> e \<noteq> AgentCancelledError st"
  by (induction ks arbitrary: err w)
    (auto split: prod.splits sum.splits agent_exception.splits if_splits dest: thinking_not_cancelled)

lemma call_not_cancelled: "call_with_retries env cx ms n w = (Inl e, w1) \<Longrightarrow> e \<noteq> AgentCancelledError st"
  by (auto simp: call_with_retries_def simp del: upt_Suc split: prod.splits sum.splits agent_exception.splits if_splits
      dest: thinking_not_cancelled retry_not_cancelled)

lemma iteration_not_cancelled:
  "run_iteration env eng cx query messages s w = (Inl e, ms, s1, w1) \<Longrightarrow> e \<noteq> AgentCancelledError st"
  by (auto simp: run_iteration_def call_llm_with_retry_def split: prod.splits sum.splits option.splits agent_exception.splits if_splits
      dest: call_not_cancelled)

lemma loops_wf:
  "loops env eng cx query messages s w exc s1 w1 \<Longrightarrow> wf_head eng s \<Longrightarrow> loop_result_ok eng exc s1"
proof (induction rule: loops.induct)
  case (stopped s w w1 exc s1 w2 messages)
  then show ?case using wf_cancelled_run [OF stopped(3)] by (auto simp: loop_result_ok_def split: option.splits agent_exception.splits)
next
  case (failed s w w1 messages e ms s1 w2)
  then show ?case using wf_run_iteration [OF failed(3)] iteration_not_cancelled [OF failed(3)]
    by (auto simp: loop_result_ok_def split: agent_exception.splits)
qed (auto simp: loop_result_ok_def wf_head_def [of _ "_ :: run_state"] dest: wf_run_iteration)

end
