(* ===== verification/Agent_Properties.thy ===== *)
theory Agent_Properties
  imports Agent_State
begin

text \<open>
  Properties of the agent loop: its completion and error events, the number of model calls of a run,
  what a cancellation stops, the state a run returns, and the texts and messages it builds.
\<close>

subsection \<open>The log of a run\<close>

definition is_completion :: "event \<Rightarrow> bool" where
  "is_completion e \<longleftrightarrow> (case e of Complete _ _ _ \<Rightarrow> True | _ \<Rightarrow> False)"

definition is_error_event :: "event \<Rightarrow> bool" where
  "is_error_event e \<longleftrightarrow> (case e of ErrorEvent _ \<Rightarrow> True | _ \<Rightarrow> False)"

text \<open>The error event of a result.\<close>

definition error_events :: "agent_exception + 'a \<Rightarrow> event list" where
  "error_events r = (case r of Inl (OtherError _) \<Rightarrow> [] | Inl e \<Rightarrow> [ErrorEvent (exception_text e)] | Inr _ \<Rightarrow> [])"

definition same_run :: "agent_exception + agent_state \<Rightarrow> str \<Rightarrow> agent_step list \<Rightarrow> event list \<Rightarrow> bool" where
  "same_run r answer steps post \<longleftrightarrow>
     (case r of Inr st \<Rightarrow> at_round_steps st = steps \<and> answer = (if list_ex synthesis_call post then [] else at_final_answer st)
      | Inl (AgentCancelledError st) \<Rightarrow> at_round_steps st = steps \<and> at_final_answer st = answer | _ \<Rightarrow> True)"

definition ended_well :: "environment \<Rightarrow> event list \<Rightarrow> agent_exception + agent_state \<Rightarrow> event list \<Rightarrow> bool" where
  "ended_well env before r es \<longleftrightarrow>
     (case r of Inr st \<Rightarrow> at_is_complete st \<or> noticed env before es | Inl (AgentCancelledError _) \<Rightarrow> noticed env before es | _ \<Rightarrow> True)"

text \<open>A run: the loop, the completion event, the final synthesis, the error event, the clean-up.\<close>

definition run_shape ::
  "environment \<Rightarrow> engine \<Rightarrow> event list \<Rightarrow> agent_exception + agent_state \<Rightarrow> event list \<Rightarrow> event list \<Rightarrow> str \<Rightarrow> agent_step list \<Rightarrow>
     event list \<Rightarrow> bool" where
  "run_shape env eng before r es pre answer steps post \<longleftrightarrow>
     es = pre @ [Complete (length steps) answer steps] @ post @ error_events r @ [CleanedUp] \<and>
     stops_when_cancelled env before es \<and>
     fits loop_event (Suc MAX_LLM_RETRIES * (nat (en_max_iterations eng) + MAX_EMPTY_RESPONSE_RETRIES)) 1 (pre @ post) \<and>
     same_run r answer steps post \<and> ended_well env before r es"

lemma handle_max_logged:
  assumes "handle_max_iterations env eng cx query s w = (x, w1)"
  shows "ran think_event 0 1 w w1 \<and> (\<exists>es. wd_log w1 = wd_log w @ es \<and> list_ex synthesis_call es)"
  using assms by (auto simp: handle_max_iterations_def split: prod.splits sum.splits agent_exception.splits dest!: ran_synthesize_logged)

lemma handle_max_state:
  "handle_max_iterations env eng cx query s w = (Inr s1, w1) \<Longrightarrow> \<exists>a. s1 = s\<lparr>rs_final_answer := a, rs_is_complete := True\<rparr>"
  by (auto simp: handle_max_iterations_def split: prod.splits sum.splits agent_exception.splits dest!: synthesize_state)

lemma handle_max_not_cancelled: "handle_max_iterations env eng cx query s w = (Inl e, w1) \<Longrightarrow> \<exists>m. e = OtherError m"
  by (auto simp: handle_max_iterations_def split: prod.splits sum.splits agent_exception.splits)

text \<open>What follows the loop: nothing, a check that saw the cancellation, or a check and the synthesis.\<close>

definition tail_ok ::
  "environment \<Rightarrow> event list \<Rightarrow> agent_exception option \<Rightarrow> run_state \<Rightarrow> agent_exception + run_state \<Rightarrow> event list \<Rightarrow> bool" where
  "tail_ok env before exc s1 r post \<longleftrightarrow>
     list_all settled post \<and> fits loop_event 0 (if exc = None \<and> \<not> rs_is_complete s1 then 1 else 0) post \<and>
     (case exc of Some e \<Rightarrow> r = Inl e \<and> post = []
      | None \<Rightarrow> (case r of Inl e \<Rightarrow> \<exists>m. e = OtherError m
          | Inr s2 \<Rightarrow> if list_ex synthesis_call post then \<exists>a. s2 = s1\<lparr>rs_final_answer := a, rs_is_complete := True\<rparr> \<and> \<not> rs_is_complete s1
              else s2 = s1 \<and> (rs_is_complete s1 \<or> noticed env before post)))"

lemma execute_loop_tail:
  assumes "execute_loop env eng cx query messages s w = (r, w')" and l: "run_loop env eng cx query messages s w = (exc, s1, w1)"
  shows "\<exists>before post. wd_log w' = before @ post \<and> tail_ok env before exc s1 r post \<and>
    (\<exists>i. before = wd_log w1 @ [IdDrawn i, Complete (length (rs_round_steps s1)) (rs_final_answer s1) (rs_round_steps s1)])"
proof -
  let ?w2 = "emit_completion_event env s1 w1"
  have log2: "\<exists>i. wd_log ?w2 = wd_log w1 @ [IdDrawn i, Complete (length (rs_round_steps s1)) (rs_final_answer s1) (rs_round_steps s1)]"
    by (auto simp: emit_completion_event_def draw_id_def emit_def Let_def)
  have "\<exists>post. wd_log w' = wd_log ?w2 @ post \<and> tail_ok env (wd_log ?w2) exc s1 r post"
  proof (cases "exc = None \<and> \<not> rs_is_complete s1")
    case False
    then show ?thesis using assms by (auto simp: execute_loop_def Let_def fits_def tail_ok_def split: option.splits)
  next
    case open_run: True
    obtain b w3 where c: "check_cancelled env ?w2 = (b, w3)" by fastforce
    note w3 = check_cancelled_log [OF c]
    show ?thesis
    proof (cases b)
      case True
      then have "r = Inr s1" "w' = w3" using assms open_run c by (auto simp: execute_loop_def Let_def)
      then show ?thesis using w3 True open_run
        by (auto simp: fits_def settled_def event_kinds tail_ok_def intro!: exI [of _ "[CancelChecked]"])
    next
      case False
      then have h: "handle_max_iterations env eng cx query s1 w3 = (r, w')" using assms open_run c by (auto simp: execute_loop_def Let_def)
      obtain es where es: "wd_log w' = wd_log w3 @ es" "fits think_event 0 1 es" "list_ex synthesis_call es"
        using handle_max_logged [OF h] unfolding ran_def by auto
      have "fits loop_event 0 1 (CancelChecked # es)"
        using fits_weaken [OF es(2)] by (intro fits_check) (meson act_is_loop order.refl think_is_act)
      moreover have "list_all settled (CancelChecked # es)" using fits_think_settled [OF es(2)] by (simp add: settled_def event_kinds)
      ultimately have "tail_ok env (wd_log ?w2) exc s1 r (CancelChecked # es)"
        using es(3) handle_max_state handle_max_not_cancelled h open_run by (auto simp: tail_ok_def split: sum.splits)
      then show ?thesis using w3 es(1) by auto
    qed
  qed
  then show ?thesis using log2 by auto
qed

lemma messages_log: "build_messages_with_llm_context env eng cx p query llm images w = (ms, w1) \<Longrightarrow> wd_log w1 = wd_log w"
  by (auto simp: build_messages_with_llm_context_def split: prod.splits dest!: ran_render_user_turn)

lemma error_events_settled: "list_all settled (error_events r @ [CleanedUp])"
  by (auto simp: error_events_def settled_def event_kinds split: sum.splits agent_exception.splits)

lemma loop_budget_start: "loop_budget eng run_start = nat (en_max_iterations eng) + MAX_EMPTY_RESPONSE_RETRIES"
  by (simp add: loop_budget_def run_start_def)

definition state_of :: "agent_exception + run_state \<Rightarrow> agent_exception + agent_state" where
  "state_of r = map_sum id freeze r"

lemma execute_log:
  assumes "build_messages_with_llm_context env eng cx (build_system_prompt env eng cx w) query llm images w = (ms, w1)"
    "execute_loop env eng cx query ms run_start w1 = (r0, w2)"
  shows "execute env eng cx query llm images w =
    (state_of r0, w2\<lparr>wd_log := wd_log w2 @ error_events r0 @ [CleanedUp]\<rparr>)"
  using assms by (auto simp: execute_def state_of_def error_events_def emit_def split: sum.splits agent_exception.splits)

lemma same_run_result:
  assumes ok: "loop_result_ok eng exc s1" and tail: "tail_ok env before exc s1 r0 post"
  shows "same_run (state_of r0) (rs_final_answer s1) (rs_round_steps s1) post"
proof (cases exc)
  case None
  have "\<not> rs_is_complete s1 \<longrightarrow> rs_final_answer s1 = []" using ok by (auto simp: loop_result_ok_def wf_state_def)
  then show ?thesis using None tail
    by (auto simp: tail_ok_def same_run_def state_of_def freeze_def split: sum.splits if_splits agent_exception.splits)
next
  case (Some e)
  then show ?thesis using ok tail
    by (auto simp: loop_result_ok_def tail_ok_def same_run_def state_of_def freeze_def split: agent_exception.splits)
qed

lemma ended_well_result:
  assumes loop: "loops env eng cx query ms s w exc s1 w1" "wd_log w1 = wd_log w @ es"
    and tail: "tail_ok env (wd_log w1 @ es2) exc s1 r0 post" and "es2 = [IdDrawn i, Complete n a steps]"
  shows "ended_well env (wd_log w) (state_of r0) (es @ es2 @ post @ fs)"
proof (cases exc)
  case None
  then show ?thesis using tail loop(2)
    by (auto simp: tail_ok_def ended_well_def state_of_def freeze_def noticed_append split: sum.splits if_splits agent_exception.splits)
next
  case (Some e)
  have "noticed env (wd_log w) es" if "e = AgentCancelledError st" for st
  proof -
    have "grows_noticed env w w1"
      by (rule loops_cancelled_noticed [OF loop(1)]) (simp_all add: Some that iteration_not_cancelled)
    then show ?thesis using loop(2) by (auto simp: grows_noticed_def)
  qed
  then show ?thesis using Some tail
    by (auto simp: tail_ok_def ended_well_def state_of_def noticed_append split: agent_exception.splits)
qed

lemma fits_id: "fits loop_event a b es \<Longrightarrow> fits loop_event a b (es @ [IdDrawn i])"
  by (simp add: fits_def event_kinds)

lemma execute_run_shape:
  assumes "execute env eng cx query llm images w = (r, w')"
  shows "\<exists>es pre answer steps post. wd_log w' = wd_log w @ es \<and> run_shape env eng (wd_log w) r es pre answer steps post"
proof -
  obtain ms w1 where b: "build_messages_with_llm_context env eng cx (build_system_prompt env eng cx w) query llm images w = (ms, w1)" by fastforce
  obtain r0 w2 where x: "execute_loop env eng cx query ms run_start w1 = (r0, w2)" by fastforce
  obtain exc s1 w3 where l: "run_loop env eng cx query ms run_start w1 = (exc, s1, w3)" using prod_cases3 by blast
  note loops = run_loop_loops [OF l]
  note log1 = messages_log [OF b]
  obtain es where es: "wd_log w3 = wd_log w1 @ es" "loop_trace env eng (wd_log w1) run_start exc s1 es"
    using loops_trace [OF loops] by blast
  define c where "c i = [IdDrawn i, Complete (length (rs_round_steps s1)) (rs_final_answer s1) (rs_round_steps s1)]" for i
  obtain i post where tail: "wd_log w2 = wd_log w3 @ c i @ post" "tail_ok env (wd_log w3 @ c i) exc s1 r0 post"
    using execute_loop_tail [OF x l] unfolding c_def by auto
  have ok: "loop_result_ok eng exc s1" by (rule loops_wf [OF loops run_start_wf])
  have r: "r = state_of r0" "wd_log w' = wd_log w @ es @ c i @ post @ error_events r @ [CleanedUp]"
    using execute_log [OF b x] assms es(1) tail(1) log1 by (auto simp: error_events_def state_of_def split: sum.splits)
  have "list_all settled (c i @ post @ error_events r @ [CleanedUp])"
    using tail(2) error_events_settled [of r] by (auto simp: tail_ok_def c_def settled_def event_kinds)
  then have stops: "stops_when_cancelled env (wd_log w) (es @ c i @ post @ error_events r @ [CleanedUp])"
    using es log1 by (auto simp: loop_trace_def intro: stops_then_settled)
  have "fits loop_event (Suc MAX_LLM_RETRIES * (nat (en_max_iterations eng) + MAX_EMPTY_RESPONSE_RETRIES)) 1 (es @ post)"
    using es(2) tail(2) fits_append [of loop_event _ _ es 0 _ post] unfolding loop_trace_def tail_ok_def loop_budget_start
    by (fastforce split: if_splits)
  then have fits: "fits loop_event (Suc MAX_LLM_RETRIES * (nat (en_max_iterations eng) + MAX_EMPTY_RESPONSE_RETRIES)) 1 ((es @ [IdDrawn i]) @ post)"
    by (simp add: fits_def event_kinds)
  show ?thesis
    using r stops fits same_run_result [OF ok tail(2)] log1
      ended_well_result [OF loops es(1) tail(2), of i _ _ _ "error_events r @ [CleanedUp]"]
    by (intro exI [of _ "es @ c i @ post @ error_events r @ [CleanedUp]"] exI [of _ "es @ [IdDrawn i]"] exI [of _ "rs_final_answer s1"]
        exI [of _ "rs_round_steps s1"] exI [of _ post]) (auto simp: run_shape_def c_def)
qed

subsection \<open>Properties of a run\<close>

lemma loop_event_not_terminal: "loop_event e \<Longrightarrow> \<not> is_completion e \<and> \<not> is_error_event e \<and> CleanedUp \<noteq> e"
  by (cases e) (simp_all add: is_completion_def is_error_event_def loop_event_def)

lemma no_terminal_events:
  "fits loop_event a b es \<Longrightarrow> filter is_completion es = [] \<and> filter is_error_event es = [] \<and> filter ((=) CleanedUp) es = []"
  unfolding fits_def list_all_iff filter_empty_conv using loop_event_not_terminal by blast

text \<open>C1: whatever the model, the tools, the clock and the cancellation do, a run of the engine emits
  exactly one completion event, one error event with the text of the exception when it fails with an
  agent error and none otherwise, and cleans the tools up once, as the last thing it does.\<close>

theorem run_reports_once:
  "case execute env eng cx query llm images w of (r, w') \<Rightarrow>
     \<exists>es. wd_log w' = wd_log w @ es \<and> length (filter is_completion es) = 1 \<and> filter is_error_event es = error_events r \<and>
       filter ((=) CleanedUp) es = [CleanedUp] \<and> last es = CleanedUp"
proof -
  obtain r w' where e: "execute env eng cx query llm images w = (r, w')" by fastforce
  obtain es pre a steps post where s: "wd_log w' = wd_log w @ es" "run_shape env eng (wd_log w) r es pre a steps post"
    using execute_run_shape [OF e] by blast
  have "filter is_completion (error_events r) = []" "filter is_error_event (error_events r) = error_events r"
    "filter ((=) CleanedUp) (error_events r) = []"
    by (auto simp: error_events_def is_completion_def is_error_event_def split: sum.splits agent_exception.splits)
  moreover have es: "es = pre @ [Complete (length steps) a steps] @ post @ error_events r @ [CleanedUp]" using s(2) by (simp add: run_shape_def)
  moreover have "filter is_completion (pre @ post) = []" "filter is_error_event (pre @ post) = []" "filter ((=) CleanedUp) (pre @ post) = []"
    using s(2) no_terminal_events unfolding run_shape_def by blast+
  ultimately have "length (filter is_completion es) = 1 \<and> filter is_error_event es = error_events r \<and>
      filter ((=) CleanedUp) es = [CleanedUp] \<and> last es = CleanedUp"
    by (simp add: is_completion_def [of CleanedUp] is_completion_def [of "Complete _ _ _"]
        is_error_event_def [of CleanedUp] is_error_event_def [of "Complete _ _ _"])
  then show ?thesis using e s(1) by auto
qed

text \<open>C2: a run asks the model at most three times (a call and its two retries) in each round and
  after each of the two nudges for an empty answer, and makes at most one call without tools, the
  final synthesis.\<close>

theorem run_calls_bounded:
  "case execute env eng cx query llm images w of (r, w') \<Rightarrow>
     \<exists>es. wd_log w' = wd_log w @ es \<and>
       length (filter round_call es) \<le> 3 * (nat (en_max_iterations eng) + 2) \<and> length (filter synthesis_call es) \<le> 1"
proof -
  obtain r w' where e: "execute env eng cx query llm images w = (r, w')" by fastforce
  obtain es pre a steps post where s: "wd_log w' = wd_log w @ es" "run_shape env eng (wd_log w) r es pre a steps post"
    using execute_run_shape [OF e] by blast
  have "filter round_call (error_events r) = [] \<and> filter synthesis_call (error_events r) = []"
    by (auto simp: error_events_def event_kinds split: sum.splits agent_exception.splits)
  then show ?thesis using e s
    by (auto simp: run_shape_def fits_def MAX_LLM_RETRIES_def MAX_EMPTY_RESPONSE_RETRIES_def
        round_call_def [of "Complete _ _ _"] round_call_def [of CleanedUp] synthesis_call_def [of "Complete _ _ _"] synthesis_call_def [of CleanedUp])
qed

text \<open>C4: from the first check that sees the cancellation on, a run asks the model for no further round
  and runs no tool; a run that raises the cancellation, or that returns an incomplete state, has seen
  it.\<close>

theorem run_obeys_cancellation:
  "case execute env eng cx query llm images w of (r, w') \<Rightarrow>
     \<exists>es. wd_log w' = wd_log w @ es \<and> stops_when_cancelled env (wd_log w) es \<and> ended_well env (wd_log w) r es"
proof -
  obtain r w' where e: "execute env eng cx query llm images w = (r, w')" by fastforce
  then show ?thesis using execute_run_shape [OF e] by (auto simp: run_shape_def)
qed

text \<open>The completion event carries the steps of the state the run returns or salvages, and its
  answer, except that it is emitted before the synthesis at the ceiling of the rounds: then its
  answer is empty, whatever the synthesis gives.\<close>

theorem completion_event_answer:
  "case execute env eng cx query llm images w of (r, w') \<Rightarrow>
     \<exists>pre answer steps post. wd_log w' = wd_log w @ pre @ [Complete (length steps) answer steps] @ post \<and> same_run r answer steps post"
proof -
  obtain r w' where e: "execute env eng cx query llm images w = (r, w')" by fastforce
  obtain es pre a steps post where s: "wd_log w' = wd_log w @ es" "run_shape env eng (wd_log w) r es pre a steps post"
    using execute_run_shape [OF e] by blast
  have "\<not> list_ex synthesis_call (error_events r @ [CleanedUp])"
    by (auto simp: error_events_def event_kinds split: sum.splits agent_exception.splits)
  then have "same_run r a steps (post @ error_events r @ [CleanedUp])"
    using s(2) by (auto simp: run_shape_def same_run_def split: sum.splits agent_exception.splits)
  then show ?thesis using e s by (auto simp: run_shape_def)
qed

text \<open>The part of the invariant that a frozen state shows.\<close>

definition wf_agent_state :: "engine \<Rightarrow> agent_state \<Rightarrow> bool" where
  "wf_agent_state eng st \<longleftrightarrow>
     length (at_round_steps st) \<le> nat (en_max_iterations eng) \<and>
     int (length (at_round_steps st)) \<in> {at_current_round st, at_current_round st + 1} \<and>
     map as_iteration (at_round_steps st) = map int [0..<length (at_round_steps st)] \<and>
     list_all (\<lambda>step. list_all wf_call (as_tool_calls step)) (at_round_steps st) \<and>
     (at_final_answer st \<noteq> [] \<longrightarrow> at_is_complete st)"

lemma wf_freeze: "wf_state eng s \<Longrightarrow> wf_agent_state eng (freeze s)"
  by (simp add: wf_state_def wf_agent_state_def freeze_def)

text \<open>C26: the state a run returns, or salvages when it is cancelled, is well formed: its steps are
  numbered from 0 without gaps, at most one per round of the ceiling; every tool call has a result
  and an id of at most 64 letters, digits, underscores and dashes; an answer means complete.\<close>

theorem run_state_wf:
  "case fst (execute env eng cx query llm images w) of
     Inr st \<Rightarrow> wf_agent_state eng st | Inl (AgentCancelledError st) \<Rightarrow> wf_agent_state eng st | Inl _ \<Rightarrow> True"
proof -
  obtain ms w1 where b: "build_messages_with_llm_context env eng cx (build_system_prompt env eng cx w) query llm images w = (ms, w1)" by fastforce
  obtain r0 w2 where x: "execute_loop env eng cx query ms run_start w1 = (r0, w2)" by fastforce
  obtain exc s1 w3 where l: "run_loop env eng cx query ms run_start w1 = (exc, s1, w3)" using prod_cases3 by blast
  obtain before post where tail: "tail_ok env before exc s1 r0 post" using execute_loop_tail [OF x l] by blast
  have ok: "loop_result_ok eng exc s1" by (rule loops_wf [OF run_loop_loops [OF l] run_start_wf])
  then have wf: "wf_state eng s1" by (simp add: loop_result_ok_def)
  show ?thesis
    using ok tail wf_freeze [OF wf] wf_freeze [OF wf_answered [OF wf]]
    by (auto simp: execute_log [OF b x] state_of_def tail_ok_def loop_result_ok_def
        split: sum.splits agent_exception.splits option.splits if_splits)
qed

end
