(* ===== verification/Agent_Texts.thy ===== *)
theory Agent_Texts
  imports Agent_Messages
begin

text \<open>
  Properties of the texts and messages of the agent loop: the splitter of inline reasoning, the repair
  of tool arguments, the repair of the message list and what merging does to tool calls.
\<close>

subsection \<open>Inline reasoning\<close>

text \<open>However a stream is cut into chunks, what the splitter sends to the two channels, its flush
  included, is the reference split of the whole text, and the answer is the text without its complete
  think blocks; only a block left open at the end is kept by \<open>strip_think_blocks\<close> and withheld by the
  splitter.\<close>

theorem splitter_matches_strip:
  "case sp_feed_all splitter_init chunks of
     (out, sp) \<Rightarrow>
       both out (fst (sp_flush sp)) = fst (channels False (concat chunks)) \<and>
       (\<exists>rest. remove_blocks (concat chunks) = snd (both out (fst (sp_flush sp))) @ rest \<and>
          (if sp_in_think sp then starts_with THINK_OPEN_TAG rest else rest = []))"
proof (cases "sp_feed_all splitter_init chunks")
  case (Pair out sp)
  note both = splitter_channels [OF Pair]
  show ?thesis
    unfolding Pair prod.case both(1) both(2) using remove_blocks_channels [of "concat chunks"] by (simp only: simp_thms)
qed

subsection \<open>Repair of arguments\<close>

text \<open>Whether a text ends inside a string, and there right after a backslash.\<close>

fun str_scan :: "bool \<Rightarrow> bool \<Rightarrow> str \<Rightarrow> bool \<times> bool" where
  "str_scan in_string escaped [] = (in_string, escaped)"
| "str_scan in_string escaped (c # cs) =
     (if escaped then str_scan in_string False cs
      else if c = 92 \<and> in_string then str_scan in_string True cs
      else if c = 34 then str_scan (\<not> in_string) False cs
      else str_scan in_string False cs)"

lemma str_scan_commas: "str_scan i e (fix_trailing_commas i e s) = str_scan i e s"
  by (induction i e s rule: fix_trailing_commas.induct) auto

lemma str_scan_escapes: "\<not> snd (str_scan i False (fix_invalid_escapes i s))"
  by (induction i s rule: fix_invalid_escapes.induct) (auto simp: escapable_def)

lemma open_brackets_append:
  "open_brackets st i e (t @ u) = (case open_brackets st i e t of (st', i') \<Rightarrow> open_brackets st' i' (snd (str_scan i e t)) u)"
  by (induction st i e t rule: open_brackets.induct) auto

lemma open_brackets_scan: "snd (open_brackets st i e t) = fst (str_scan i e t)"
  by (induction st i e t rule: open_brackets.induct) auto

lemma closers [simp]: "closes 125" "closes 93"
  by (simp_all add: closes_def)

lemma list_all_tl: "list_all P xs \<Longrightarrow> list_all P (tl xs)"
  by (cases xs) auto

lemma open_brackets_closers: "list_all closes st \<Longrightarrow> list_all closes (fst (open_brackets st i e t))"
  by (induction st i e t rule: open_brackets.induct) (simp_all add: list_all_tl)

lemma close_all: "list_all closes st \<Longrightarrow> open_brackets st False False st = ([], False)"
  by (induction st) (auto simp: closes_def)

lemma balance_brackets_balanced:
  assumes "\<not> snd (str_scan False False t)"
  shows "open_brackets [] False False (balance_brackets t) = ([], False)"
proof -
  obtain st i where o: "open_brackets [] False False t = (st, i)" by fastforce
  have "list_all closes st" using open_brackets_closers [of "[]" False False t] o by simp
  then show ?thesis using o assms close_all by (simp add: balance_brackets_def open_brackets_append)
qed

text \<open>The repair of tool arguments leaves every string and every bracket closed, or the text has no
  object in it (no brace in front, no colon, no equals sign) and comes back trimmed.\<close>

theorem repair_json_balanced:
  "if strip raw \<noteq> [] \<and> hd (strip raw) \<noteq> 123 \<and> 58 \<notin> set (strip raw) \<and> 61 \<notin> set (strip raw)
   then repair_json raw = strip raw
   else open_brackets [] False False (repair_json raw) = ([], False)"
proof -
  have "open_brackets [] False False (balance_brackets (fix_trailing_commas False False (fix_invalid_escapes False t))) = ([], False)" for t
    by (rule balance_brackets_balanced) (simp add: str_scan_commas str_scan_escapes)
  then show ?thesis by (simp add: repair_json_def Let_def lit_def closes_def)
qed

subsection \<open>Repair of the message list\<close>

definition may_follow :: "message \<Rightarrow> message \<Rightarrow> bool" where
  "may_follow a b \<longleftrightarrow> msg_role a \<noteq> msg_role b \<or> msg_role b = ROLE_TOOL \<or> msg_role b = ROLE_SYSTEM"

fun alternating :: "message list \<Rightarrow> bool" where
  "alternating (a # b # ms) = (may_follow a b \<and> alternating (b # ms))"
| "alternating ms = True"

definition says_something :: "message \<Rightarrow> bool" where
  "says_something m \<longleftrightarrow> msg_content m \<noteq> [] \<or> msg_tool_calls m \<noteq> [] \<or> msg_role m = ROLE_SYSTEM \<or> msg_role m = ROLE_TOOL"

text \<open>A tool result that stays one answers a call of the list.\<close>

definition result_answers :: "message list \<Rightarrow> message \<Rightarrow> bool" where
  "result_answers messages m \<longleftrightarrow>
     (if msg_role m = ROLE_TOOL \<and> msg_tool_call_id m \<noteq> [] then has_matching_tool_call messages (msg_tool_call_id m) else True)"

lemma alternating_snoc: "alternating (ms @ [b]) = (alternating ms \<and> (ms = [] \<or> may_follow (last ms) b))"
  by (induction ms rule: alternating.induct) auto

definition sanitized :: "message list \<Rightarrow> message list \<Rightarrow> bool" where
  "sanitized messages ms \<longleftrightarrow> alternating ms \<and> list_all says_something ms \<and> list_all (result_answers messages) ms"

lemma has_matching_append: "has_matching_tool_call ms i \<Longrightarrow> has_matching_tool_call (ms @ ns) i"
  by (simp add: has_matching_tool_call_def)

lemma role_distinct: "ROLE_SYSTEM \<noteq> ROLE_TOOL"
  by (simp add: lit_def)

lemma sanitized_snoc:
  "sanitized messages (ms @ [a]) \<longleftrightarrow>
     sanitized messages ms \<and> (ms = [] \<or> may_follow (last ms) a) \<and> says_something a \<and> result_answers messages a"
  by (auto simp: sanitized_def alternating_snoc)

lemma sanitize_step_sanitized:
  assumes s: "sanitized (before @ [m] @ rest) result"
  shows "sanitized (before @ [m] @ rest) (sanitize_step before result m)"
proof -
  let ?ms = "before @ [m] @ rest"
  consider (dropped) "\<not> says_something m"
    | (merged) "says_something m" "result \<noteq> []" "msg_role m \<noteq> ROLE_TOOL" "msg_role (last result) = msg_role m"
    | (orphan) "says_something m" "msg_role m = ROLE_TOOL" "msg_tool_call_id m \<noteq> []"
        "\<not> has_matching_tool_call before (msg_tool_call_id m)"
    | (kept) "says_something m" "result = [] \<or> msg_role (last result) \<noteq> msg_role m \<or> msg_role m = ROLE_TOOL" "result_answers before m"
    unfolding result_answers_def by metis
  then show ?thesis
  proof cases
    case dropped
    then show ?thesis using s by (simp add: sanitize_step_def says_something_def)
  next
    case merged
    let ?b = "(last result)\<lparr>msg_content := msg_content (last result) @ [10, 10] @ msg_content m\<rparr>"
    have "sanitize_step before result m = butlast result @ [?b]"
      using merged by (auto simp: sanitize_step_def says_something_def)
    moreover have "says_something ?b" "result_answers ?ms ?b" using merged by (simp_all add: says_something_def result_answers_def)
    moreover have "may_follow x ?b = may_follow x (last result)" for x by (simp add: may_follow_def)
    moreover have "sanitized ?ms (butlast result @ [last result])" using s merged(2) by simp
    ultimately show ?thesis by (simp only: sanitized_snoc)
  next
    case orphan
    have "sanitize_step before result m = result @ [orphan_as_system m]"
      using orphan by (simp add: sanitize_step_def)
    moreover have "says_something (orphan_as_system m)" "result_answers ?ms (orphan_as_system m)" "may_follow x (orphan_as_system m)" for x
      using role_distinct by (simp_all add: orphan_as_system_def says_something_def result_answers_def may_follow_def)
    ultimately show ?thesis using s by (simp add: sanitized_snoc)
  next
    case kept
    have "result_answers ?ms m" using kept(3) unfolding result_answers_def by (auto simp: has_matching_append)
    then have "sanitized ?ms (result @ [m])" using s kept by (auto simp: sanitized_snoc may_follow_def)
    moreover have "sanitize_step before result m = result @ [m]"
      using kept unfolding sanitize_step_def result_answers_def says_something_def by auto
    ultimately show ?thesis by simp
  qed
qed

lemma sanitize_from_sanitized: "sanitized (before @ ms) result \<Longrightarrow> sanitized (before @ ms) (sanitize_from before result ms)"
proof (induction ms arbitrary: before result)
  case (Cons m ms)
  then show ?case using sanitize_step_sanitized [of before m ms result] Cons.IH [of "before @ [m]"] by simp
qed simp

text \<open>In the message list sent to the model no two user messages and no two assistant messages are
  adjacent, no user or assistant message is empty, and a tool result that stays one answers a call of
  the original list.\<close>

theorem sanitize_messages_shape: "sanitized messages (sanitize_messages messages)"
  unfolding sanitize_messages_def using sanitize_from_sanitized [of "[]" messages "[]"]
  by (simp add: sanitized_def)

text \<open>Merging loses tool calls: after an assistant message, a second one with calls is merged into it
  and its calls are dropped, while the results that answer them stay tool results; the list sent to
  the model then has results for calls it does not contain.\<close>

theorem merged_calls_lost:
  assumes "msg_role u = ROLE_USER" "msg_content u \<noteq> []" "msg_role a = ROLE_ASSISTANT" "msg_content a \<noteq> []" "msg_tool_calls a = []"
    and "msg_role b = ROLE_ASSISTANT" "c \<in> set (msg_tool_calls b)" "msg_role t = ROLE_TOOL" "msg_tool_call_id t = mc_id c" "mc_id c \<noteq> []"
  shows "t \<in> set (sanitize_messages [u, a, b, t]) \<and> \<not> has_matching_tool_call (sanitize_messages [u, a, b, t]) (msg_tool_call_id t)"
  using assms
  by (auto simp: sanitize_messages_def sanitize_step_def has_matching_tool_call_def lit_def list_ex_iff)

lemma merged_calls_lost_witness:
  "let c = \<lparr>mc_id = lit ''c1'', mc_name = lit ''grep'', mc_arguments = []\<rparr>;
       u = plain_message ROLE_USER (lit ''q''); a = plain_message ROLE_ASSISTANT (lit ''a'');
       b = (plain_message ROLE_ASSISTANT (lit ''b''))\<lparr>msg_tool_calls := [c]\<rparr>;
       t = (plain_message ROLE_TOOL (lit ''r''))\<lparr>msg_tool_call_id := lit ''c1''\<rparr>
   in t \<in> set (sanitize_messages [u, a, b, t]) \<and> \<not> has_matching_tool_call (sanitize_messages [u, a, b, t]) (msg_tool_call_id t)"
  unfolding Let_def
  by (rule merged_calls_lost [where c = "\<lparr>mc_id = lit ''c1'', mc_name = lit ''grep'', mc_arguments = []\<rparr>"]) (simp_all add: plain_message_def lit_def)

end
