(* ===== verification/Agent_Answer.thy ===== *)
theory Agent_Answer
  imports Agent_Properties Agent_Texts
begin

text \<open>
  Runs with a given model: what a run returns when the model answers, and when the model is down.
\<close>

text \<open>The registry of a run without handles: its decoders pass texts through.\<close>

definition plain_context :: "('m, 'd) context_ops \<Rightarrow> bool" where
  "plain_context cx \<longleftrightarrow> (\<forall>m d s. cx_feed cx m d s = (s, d)) \<and> (\<forall>m d. cx_flush cx m d = ([], d)) \<and> (\<forall>m. cx_decode_tool_calls cx m [] = [])"

definition answer_chunk :: "str \<Rightarrow> chunk" where
  "answer_chunk a = (text_chunk ANSWER a)\<lparr>cu_done := True, cu_finish_reason := lit ''stop''\<rparr>"








definition sample_env :: "str \<Rightarrow> environment" where
  "sample_env a = \<lparr>ev_stream = \<lambda>log. ([answer_chunk a], None), ev_tool = \<lambda>log. ToolTimeout, ev_cancelled = \<lambda>log. False,
     ev_id = \<lambda>log. lit ''id'', ev_duration = \<lambda>log. 0, ev_now = \<lambda>log. [], ev_lower = \<lambda>c. [c], ev_sha256 = \<lambda>s. [],
     ev_loads = \<lambda>s. None, ev_dumps = \<lambda>j. []\<rparr>"

definition sample_context :: "(unit, unit) context_ops" where
  "sample_context = \<lparr>cx_encode_messages = \<lambda>ms m. (ms, m), cx_stream_decoder = (), cx_feed = \<lambda>m d s. (s, d), cx_flush = \<lambda>m d. ([], d),
     cx_decode_tool_calls = \<lambda>m cs. cs, cx_render_result = \<lambda>n r m. ([], m), cx_register_knowledge_base = \<lambda>i m. m,
     cx_register_document = \<lambda>i m. m, cx_compact_known_text = \<lambda>m s. s, cx_protocol_prompt = []\<rparr>"

definition sample_engine :: engine where
  "sample_engine = \<lparr>en_max_iterations = 2, en_retain_retrieval_history = False, en_system_prompt_template = [],
     en_use_custom_system_prompt = False, en_system_prompt = [], en_web_search_enabled = False, en_knowledge_bases = [],
     en_selected_docs = [], en_session_id = [], en_timeout_text = []\<rparr>"

lemma sample_context_plain: "plain_context sample_context"
  by (simp add: plain_context_def sample_context_def)



subsection \<open>A model that is down\<close>

lemma round_call_simps [simp]:
  "round_call (LlmCalled ms t) = t" "\<not> round_call (Slept k)" "\<not> round_call CancelChecked" "\<not> round_call (IdDrawn i)"
  "\<not> round_call (Complete n a steps)" "\<not> round_call (ErrorEvent m)" "\<not> round_call CleanedUp"
  by (simp_all add: round_call_def)

definition stream_error_text :: "str \<Rightarrow> str" where
  "stream_error_text e = lit ''LLM stream error: '' @ e"

lemma stream_error:
  assumes "plain_context cx" "\<And>log. ev_stream env log = ([text_chunk ERROR e], None)" "e \<noteq> []"
  shows "\<exists>ms' m. stream_llm_to_events env cx f ms t (s, w) =
    (Inl (AgentLLMError (stream_error_text e)), s, emit (LlmCalled ms' t) (w\<lparr>wd_context := m\<rparr>))"
  using assms
  by (auto simp: stream_llm_to_events_def plain_context_def Let_def text_chunk_def empty_result_def stream_error_text_def split: prod.splits)

lemma think_error:
  assumes "plain_context cx" "\<And>log. ev_stream env log = ([text_chunk ERROR e], None)" "e \<noteq> []"
  shows "\<exists>w1 es. stream_thinking_to_events env cx ms n w = (Inl (AgentLLMError (stream_error_text e)), w1) \<and>
    wd_log w1 = wd_log w @ es \<and> length (filter round_call es) = 1"
proof -
  obtain i w2 b w3 where ids: "draw_id env (lit ''thinking'') w = (i, w2)" "draw_id env (lit ''answer'') w2 = (b, w3)" by fastforce
  obtain ms' m where s: "stream_llm_to_events env cx (emit_chunk env i b n) ms True (think_start, w3) =
    (Inl (AgentLLMError (stream_error_text e)), think_start, emit (LlmCalled ms' True) (w3\<lparr>wd_context := m\<rparr>))"
    using stream_error [OF assms, of "emit_chunk env i b n" ms True think_start w3] by blast
  have "wd_log (emit (LlmCalled ms' True) (w3\<lparr>wd_context := m\<rparr>)) =
    wd_log w @ [IdDrawn (lit ''thinking''), IdDrawn (lit ''answer''), LlmCalled ms' True]"
    using ids by (auto simp: draw_id_def emit_def Let_def)
  then show ?thesis using ids s by (auto simp: stream_thinking_to_events_def)
qed

lemma retry_error:
  assumes "plain_context cx" "\<And>log. ev_stream env log = ([text_chunk ERROR e], None)" "e \<noteq> []"
    and "is_transient_error (ev_lower env) (stream_error_text e)"
  shows "\<exists>w1 es. retry_llm env cx ms n ks (stream_error_text e) w = (Inl (AgentLLMError (stream_error_text e)), w1) \<and>
    wd_log w1 = wd_log w @ es \<and> length (filter round_call es) = length ks"
proof (induction ks arbitrary: w)
  case (Cons k ks)
  obtain w1 es where 1: "stream_thinking_to_events env cx ms n (emit (Slept k) w) = (Inl (AgentLLMError (stream_error_text e)), w1)"
    "wd_log w1 = wd_log w @ Slept k # es" "length (filter round_call es) = 1"
    using think_error [OF assms(1-3), of ms n "emit (Slept k) w"] by (auto simp: emit_def)
  obtain w2 fs where 2: "retry_llm env cx ms n ks (stream_error_text e) w1 = (Inl (AgentLLMError (stream_error_text e)), w2)"
    "wd_log w2 = wd_log w1 @ fs" "length (filter round_call fs) = length ks"
    using Cons.IH by blast
  show ?case using 1 2 assms(4) by auto
qed simp

text \<open>When the model only reports an error, a run without tool results fails with that error after
  one call, or after exactly three when the error is transient, and nothing is retried again in a
  later round.\<close>

theorem failing_model:
  assumes "plain_context cx" "\<And>log. ev_stream env log = ([text_chunk ERROR e], None)" "e \<noteq> []" "\<And>log. \<not> ev_cancelled env log"
    "0 < en_max_iterations eng"
  shows "case execute env eng cx query llm images w of (r, w') \<Rightarrow>
    r = Inl (AgentLLMError (lit ''LLM call failed: '' @ stream_error_text e)) \<and>
    (\<exists>es. wd_log w' = wd_log w @ es \<and>
       length (filter round_call es) = (if is_transient_error (ev_lower env) (stream_error_text e) then 3 else 1))"
proof -
  obtain ms w1 where b: "build_messages_with_llm_context env eng cx (build_system_prompt env eng cx w) query llm images w = (ms, w1)" by fastforce
  let ?w2 = "emit CancelChecked w1"
  let ?err = "stream_error_text e"
  have c: "check_cancelled env w1 = (False, ?w2)" using assms(4) by (simp add: check_cancelled_def Let_def)
  obtain w3 es where w3: "call_with_retries env cx (sanitize_messages ms) 0 ?w2 = (Inl (AgentLLMError ?err), w3)"
    "wd_log w3 = wd_log ?w2 @ es" "length (filter round_call es) = (if is_transient_error (ev_lower env) ?err then 3 else 1)"
  proof -
    obtain w4 es where 1: "stream_thinking_to_events env cx (sanitize_messages ms) 0 ?w2 = (Inl (AgentLLMError ?err), w4)"
      "wd_log w4 = wd_log ?w2 @ es" "length (filter round_call es) = 1"
      using think_error [OF assms(1-3)] by blast
    show thesis
    proof (cases "is_transient_error (ev_lower env) ?err")
      case True
      obtain w5 fs where "retry_llm env cx (sanitize_messages ms) 0 [1..<Suc MAX_LLM_RETRIES] ?err w4 = (Inl (AgentLLMError ?err), w5)"
        "wd_log w5 = wd_log w4 @ fs" "length (filter round_call fs) = 2"
        using retry_error [OF assms(1-3) True, of "sanitize_messages ms" 0 "[1..<Suc MAX_LLM_RETRIES]" w4] by (auto simp: MAX_LLM_RETRIES_def)
      then show ?thesis using 1 True that [of w5 "es @ fs"] by (simp add: call_with_retries_def del: upt_Suc)
    next
      case False
      then show ?thesis using 1 that [of w4 es] by (simp add: call_with_retries_def del: upt_Suc)
    qed
  qed
  have i: "run_iteration env eng cx query ms run_start ?w2 = (Inl (AgentLLMError (lit ''LLM call failed: '' @ ?err)), ms, run_start, w3)"
    using w3(1) by (simp add: run_iteration_def call_llm_with_retry_def run_start_def total_tool_calls_def)
  have "rs_current_round run_start < en_max_iterations eng" using assms(5) by (simp add: run_start_def)
  then have l: "run_loop env eng cx query ms run_start w1 = (Some (AgentLLMError (lit ''LLM call failed: '' @ ?err)), run_start, w3)"
    by (simp add: run_loop.simps [of env eng cx query ms run_start w1] c i)
  have "wd_log (emit_completion_event env run_start w3) = wd_log w3 @ [IdDrawn (lit ''complete''), Complete 0 [] []]"
    by (simp add: emit_completion_event_def draw_id_def emit_def Let_def run_start_def)
  then show ?thesis using w3 messages_log [OF b]
    by (simp add: execute_log [OF b] execute_loop_def l Let_def state_of_def error_events_def)
      (simp add: emit_def)
qed

lemma failing_model_witness:
  "case execute ((sample_env [])\<lparr>ev_stream := \<lambda>log. ([text_chunk ERROR (lit ''503'')], None)\<rparr>) sample_engine sample_context [] [] []
      \<lparr>wd_context = (), wd_log = []\<rparr> of (r, w') \<Rightarrow>
    r = Inl (AgentLLMError (lit ''LLM call failed: '' @ stream_error_text (lit ''503''))) \<and> length (filter round_call (wd_log w')) = 3"
proof -
  let ?env = "(sample_env [])\<lparr>ev_stream := \<lambda>log. ([text_chunk ERROR (lit ''503'')], None)\<rparr>"
  have "is_transient_error (ev_lower ?env) (stream_error_text (lit ''503''))"
    by (simp add: sample_env_def is_transient_error_def stream_error_text_def TRANSIENT_ERROR_MARKERS_def) code_simp
  then show ?thesis
    using failing_model [OF sample_context_plain, of ?env "lit ''503''" sample_engine "\<lparr>wd_context = (), wd_log = []\<rparr>" "[]" "[]" "[]"]
    by (simp add: split_beta sample_env_def sample_engine_def)
qed

subsection \<open>A round with tools\<close>

lemma run_tool_call_name: "run_tool_call env eng cx n k tc w = (c, w1) \<Longrightarrow> ac_name c = lc_name tc"
  by (auto simp: run_tool_call_def Let_def split: prod.splits option.splits)

lemma run_tool_calls_names: "run_tool_calls env eng cx n k tcs w = (cs, w1) \<Longrightarrow> map ac_name cs = map lc_name tcs"
  by (induction tcs arbitrary: k w cs w1) (auto split: prod.splits dest: run_tool_call_name)

lemma append_results_answer:
  "append_results cx cs m = (ms, m1) \<Longrightarrow> map msg_tool_call_id ms = map ac_id cs \<and> list_all (\<lambda>r. msg_role r = ROLE_TOOL) ms"
  by (induction cs arbitrary: m ms m1) (auto simp: plain_message_def split: prod.splits)

text \<open>A round runs every tool call of the response once, in order, and whatever happens to it gives it
  a result; the message list grows by the assistant message with the calls and by one tool message per
  call, in the same order and with the same ids, which the providers accept.\<close>

theorem round_answers_calls:
  "case execute_tool_calls env eng cx response n w of (calls, w1) \<Rightarrow>
     case append_tool_results env cx messages ((build_step s response)\<lparr>as_tool_calls := calls\<rparr>) w1 of (ms, w2) \<Rightarrow>
       map ac_name calls = map lc_name (re_calls response) \<and> list_all wf_call calls \<and>
       (\<exists>assistant results. ms = messages @ assistant @ results \<and>
          map msg_tool_call_id results = map ac_id calls \<and> list_all (\<lambda>r. msg_role r = ROLE_TOOL) results \<and>
          (if calls = [] then length assistant \<le> 1
           else \<exists>a. assistant = [a] \<and> msg_role a = ROLE_ASSISTANT \<and> map mc_id (msg_tool_calls a) = map ac_id calls))"
proof -
  obtain calls w1 where c: "execute_tool_calls env eng cx response n w = (calls, w1)" by fastforce
  obtain results m where r: "append_results cx calls (wd_context w1) = (results, m)" by fastforce
  have names: "map ac_name calls = map lc_name (re_calls response)"
    using c by (auto simp: execute_tool_calls_def split: prod.splits dest: run_tool_calls_names)
  let ?step = "(build_step s response)\<lparr>as_tool_calls := calls\<rparr>"
  let ?assistant = "if as_thought ?step = [] \<and> as_tool_calls ?step = [] \<and> as_reasoning_content ?step = [] then [] else [step_message env ?step]"
  have "append_tool_results env cx messages ?step w1 = (messages @ ?assistant @ results, w1\<lparr>wd_context := m\<rparr>)"
    using r by (simp add: append_tool_results_def)
  moreover have "if calls = [] then length ?assistant \<le> 1
      else \<exists>a. ?assistant = [a] \<and> msg_role a = ROLE_ASSISTANT \<and> map mc_id (msg_tool_calls a) = map ac_id calls"
    by (simp add: step_message_def plain_message_def comp_def)
  ultimately show ?thesis
    using append_results_answer [OF r] wf_execute_tool_calls [OF c] names c by (simp only: prod.case) blast
qed

end
