(* ===== verification/Merge_Text.thy ===== *)
theory Merge_Text
  imports KB_Prelude
begin

text \<open>
  Texts of the merge step: src/src/core/agents/tools/text_utils.py (signatures, tokens, similarity)
  and src/src/core/chat/pipeline/steps/merge_utils.py (joining bodies, image links). MD5, the JSON
  codec and the tables of Unicode are parameters; ratios are rounded like the doubles of the code.
\<close>

record text_ops =
  tx_lower :: "rune \<Rightarrow> str"
  tx_punct :: "rune \<Rightarrow> bool"
  tx_md5 :: "str \<Rightarrow> str"
  tx_loads :: "str \<Rightarrow> json option"
  tx_dumps :: "json \<Rightarrow> str"

subsection \<open>Normal form, signature, tokens\<close>

text \<open>\<open>s.split()\<close> and \<open>sep.join\<close>.\<close>

function split_words :: "str \<Rightarrow> str list" where
  "split_words s =
     (let t = dropWhile is_space s
      in if t = [] then [] else takeWhile (\<lambda>c. \<not> is_space c) t # split_words (dropWhile (\<lambda>c. \<not> is_space c) t))"
  by pat_completeness auto
termination
proof (relation "measure length", simp)
  fix s t :: str
  assume t: "t = dropWhile is_space s" "t \<noteq> []"
  then have "\<not> is_space (hd t)" using hd_dropWhile [of is_space s] by simp
  then have "length (dropWhile (\<lambda>c. \<not> is_space c) t) < length t"
    using t(2) length_dropWhile_le [of "\<lambda>c. \<not> is_space c" "tl t"] by (cases t) auto
  also have "\<dots> \<le> length s" unfolding t(1) by (rule length_dropWhile_le)
  finally show "(dropWhile (\<lambda>c. \<not> is_space c) t, s) \<in> measure length" by simp
qed

declare split_words.simps [simp del]

fun join_with :: "str \<Rightarrow> str list \<Rightarrow> str" where
  "join_with sep [] = []"
| "join_with sep [x] = x"
| "join_with sep (x # y # ys) = x @ sep @ join_with sep (y # ys)"

definition normalize_content :: "text_ops \<Rightarrow> str \<Rightarrow> str" where
  "normalize_content tx text =
     (let collapsed = strip (lower_str (tx_lower tx) text)
      in if collapsed = [] then [] else join_with [32] (split_words collapsed))"

definition build_content_signature :: "text_ops \<Rightarrow> str \<Rightarrow> str" where
  "build_content_signature tx content =
     (let normalized = strip (lower_str (tx_lower tx) content)
      in if normalized = [] then [] else tx_md5 tx (join_with [32] (split_words normalized)))"

definition is_cjk_char :: "rune \<Rightarrow> bool" where
  "is_cjk_char c \<longleftrightarrow> (19968 \<le> c \<and> c \<le> 40959) \<or> (13312 \<le> c \<and> c \<le> 19903) \<or> (63744 \<le> c \<and> c \<le> 64255)"

definition contains_chinese :: "str \<Rightarrow> bool" where
  "contains_chinese text = list_ex is_cjk_char text"

definition is_all_punct :: "text_ops \<Rightarrow> str \<Rightarrow> bool" where
  "is_all_punct tx s = list_all (\<lambda>c. is_space c \<or> tx_punct tx c) s"

definition cjk_bigrams :: "str \<Rightarrow> str list" where
  "cjk_bigrams text = map (\<lambda>i. take 2 (drop i text)) [0..<length text - 1]"

definition tokenize_simple :: "text_ops \<Rightarrow> str \<Rightarrow> str set" where
  "tokenize_simple tx text0 =
     (let text = strip (lower_str (tx_lower tx) text0);
          ws = (if contains_chinese text then cjk_bigrams text else split_words text)
      in if text = [] then {} else set (filter (\<lambda>w. 1 < length w \<and> \<not> is_all_punct tx w) (map strip ws)))"

definition float_div :: "nat \<Rightarrow> nat \<Rightarrow> rat" where
  "float_div a b = fl64 (of_nat a / of_nat b)"

definition jaccard :: "str set \<Rightarrow> str set \<Rightarrow> rat" where
  "jaccard a b =
     (let i = card (a \<inter> b); u = card a + card b - i
      in if a = {} \<and> b = {} then 0 else if u = 0 then 0 else float_div i u)"

definition content_overlap_ratio :: "text_ops \<Rightarrow> str \<Rightarrow> str \<Rightarrow> rat" where
  "content_overlap_ratio tx left right =
     (let l = tokenize_simple tx left; r = tokenize_simple tx right
      in if l = {} \<or> r = {} then 0 else float_div (card (l \<inter> r)) (min (card l) (card r)))"

definition is_content_contained :: "str \<Rightarrow> str \<Rightarrow> bool" where
  "is_content_contained short long \<longleftrightarrow>
     short \<noteq> [] \<and> long \<noteq> [] \<and> length short \<le> length long \<and> contains_str short long"

subsection \<open>Joining chunk bodies\<close>

definition MIN_OVERLAP_RUNES :: nat where "MIN_OVERLAP_RUNES = 12"
definition DEFAULT_SEARCH_SPAN :: nat where "DEFAULT_SEARCH_SPAN = 400"

definition contains_chunk_content :: "str \<Rightarrow> str \<Rightarrow> bool" where
  "contains_chunk_content container body \<longleftrightarrow>
     container \<noteq> [] \<and> body \<noteq> [] \<and>
     (container = body \<or> MIN_OVERLAP_RUNES \<le> length body \<and> contains_str body container)"

text \<open>The longest overlap of the end of one body with the start of the other, within the window.\<close>

definition find_overlap :: "str \<Rightarrow> str \<Rightarrow> nat option" where
  "find_overlap acc next_body =
     (let max_overlap = min (min (length acc) (length next_body)) DEFAULT_SEARCH_SPAN
      in find (\<lambda>k. drop (length acc - k) acc = take k next_body) (rev [MIN_OVERLAP_RUNES..<Suc max_overlap]))"

definition join_chunk_content :: "str \<Rightarrow> str \<Rightarrow> str \<Rightarrow> str" where
  "join_chunk_content acc next_body separator =
     (if acc = [] then next_body
      else if next_body = [] then acc
      else if contains_chunk_content acc next_body then acc
      else if contains_chunk_content next_body acc then next_body
      else case find_overlap acc next_body of
        Some k \<Rightarrow> acc @ drop k next_body
      | None \<Rightarrow> acc @ separator @ next_body)"

subsection \<open>Image links\<close>

text \<open>A match of the Markdown image pattern at the start of a text: its URL and its length.\<close>

definition md_image :: "str \<Rightarrow> (str \<times> nat) option" where
  "md_image s =
     (if starts_with (lit ''!['') s then
        let alt = takeWhile (\<lambda>c. c \<noteq> 93) (drop 2 s);
            r = drop (2 + length alt) s
        in if starts_with (lit ''](''  ) r then
             let url = takeWhile (\<lambda>c. c \<noteq> 41) (drop 2 r)
             in if url \<noteq> [] \<and> drop (2 + length url) r \<noteq> [] then Some (url, length alt + length url + 5) else None
           else None
      else None)"

text \<open>Case-insensitive literals, with the extra pairs of the regular-expression engine for i and s.\<close>

definition ci_char :: "rune \<Rightarrow> rune \<Rightarrow> bool" where
  "ci_char p c \<longleftrightarrow> c = p \<or> (97 \<le> p \<and> c + 32 = p) \<or> (p = 105 \<and> (c = 304 \<or> c = 305)) \<or> (p = 115 \<and> c = 383)"

fun ci_starts :: "str \<Rightarrow> str \<Rightarrow> bool" where
  "ci_starts [] s = True"
| "ci_starts (p # ps) [] = False"
| "ci_starts (p # ps) (c # cs) = (ci_char p c \<and> ci_starts ps cs)"

definition is_quote :: "rune \<Rightarrow> bool" where
  "is_quote c \<longleftrightarrow> c = 39 \<or> c = 34"

text \<open>\<open>\s src \s* = \s* quote url quote [^>]* >\<close> at the start of a text: the URL and what follows.\<close>

definition img_src :: "str \<Rightarrow> (str \<times> str) option" where
  "img_src s =
     (if s \<noteq> [] \<and> is_space (hd s) \<and> ci_starts (lit ''src'') (tl s) then
        let a = dropWhile is_space (drop 4 s)
        in if a \<noteq> [] \<and> hd a = 61 then
             let b = dropWhile is_space (tl a)
             in if b \<noteq> [] \<and> is_quote (hd b) then
                  let url = takeWhile (\<lambda>c. \<not> is_quote c) (tl b);
                      r = drop (length url) (tl b);
                      t = dropWhile (\<lambda>c. c \<noteq> 62) (tl r)
                  in if url \<noteq> [] \<and> r \<noteq> [] \<and> t \<noteq> [] then Some (url, tl t) else None
                else None
           else None
      else None)"

text \<open>The lazy \<open>[^>]*?\<close> before it.\<close>

fun img_attrs :: "str \<Rightarrow> (str \<times> str) option" where
  "img_attrs [] = None"
| "img_attrs (c # cs) = (case img_src (c # cs) of Some r \<Rightarrow> Some r | None \<Rightarrow> if c = 62 then None else img_attrs cs)"

text \<open>The word boundary after the tag name is there, since white space or an attribute follows; a word
  character right after the name is excluded.\<close>

definition html_img :: "(rune \<Rightarrow> bool) \<Rightarrow> str \<Rightarrow> (str \<times> str) option" where
  "html_img word s =
     (if ci_starts (lit ''<img'') s \<and> drop 4 s \<noteq> [] \<and> \<not> word (hd (drop 4 s)) then img_attrs (drop 4 s) else None)"

text \<open>\<open>finditer\<close>: the matches of a pattern from left to right, each search going on behind the last.\<close>

function image_url_list :: "str \<Rightarrow> str list" where
  "image_url_list [] = []"
| "image_url_list (c # cs) =
     (case md_image (c # cs) of
        Some (url, n) \<Rightarrow> url # image_url_list (drop (n - 1) cs)
      | None \<Rightarrow> image_url_list cs)"
  by pat_completeness auto
termination
  by (relation "measure length") auto

lemma img_src_shorter:
  assumes "img_src s = Some (url, r)"
  shows "length r < length s"
proof -
  let ?a = "dropWhile is_space (drop 4 s)"
  let ?b = "dropWhile is_space (tl ?a)"
  let ?r = "drop (length (takeWhile (\<lambda>c. \<not> is_quote c) (tl ?b))) (tl ?b)"
  let ?t = "dropWhile (\<lambda>c. c \<noteq> 62) (tl ?r)"
  have r: "r = tl ?t" "s \<noteq> []" using assms by (auto simp: img_src_def Let_def split: if_splits)
  have "length ?t \<le> length ?r" using length_dropWhile_le [of "\<lambda>c. c \<noteq> 62" "tl ?r"] by (simp del: length_drop)
  also have "\<dots> \<le> length ?b" by simp
  also have "\<dots> \<le> length ?a" using length_dropWhile_le [of is_space "tl ?a"] by simp
  also have "\<dots> \<le> length (drop 4 s)" by (rule length_dropWhile_le)
  also have "\<dots> < length s" using r(2) by (cases s) auto
  finally show ?thesis using r(1) by simp
qed

lemma img_attrs_shorter: "img_attrs s = Some (url, r) \<Longrightarrow> length r < length s"
  by (induction s) (auto split: option.splits if_splits dest: img_src_shorter)

lemma html_img_shorter: "html_img word s = Some (url, r) \<Longrightarrow> length r < length s"
  by (auto simp: html_img_def split: if_splits dest!: img_attrs_shorter)

function html_src_list :: "(rune \<Rightarrow> bool) \<Rightarrow> str \<Rightarrow> str list" where
  "html_src_list word [] = []"
| "html_src_list word (c # cs) =
     (case html_img word (c # cs) of
        Some (src, rest) \<Rightarrow> src # html_src_list word rest
      | None \<Rightarrow> html_src_list word cs)"
  by pat_completeness auto
termination
  by (relation "measure (length \<circ> snd)") (auto dest: html_img_shorter)

text \<open>\<open>\w\<close> beyond the ASCII letters, digits and underscore is a parameter.\<close>

definition is_word :: "(rune \<Rightarrow> bool) \<Rightarrow> rune \<Rightarrow> bool" where
  "is_word alnum c \<longleftrightarrow> (97 \<le> c \<and> c \<le> 122) \<or> (65 \<le> c \<and> c \<le> 90) \<or> (48 \<le> c \<and> c \<le> 57) \<or> c = 95 \<or> (128 \<le> c \<and> alnum c)"

definition image_urls_in_content :: "(rune \<Rightarrow> bool) \<Rightarrow> str \<Rightarrow> str set" where
  "image_urls_in_content alnum content =
     set (image_url_list content) \<union> (set (map strip (html_src_list (is_word alnum) content)) - {[]})"

text \<open>The substitution of \<open>prune_markdown_images_by_image_info\<close>.\<close>

function keep_images :: "str set \<Rightarrow> str \<Rightarrow> str" where
  "keep_images allowed [] = []"
| "keep_images allowed (c # cs) =
     (case md_image (c # cs) of
        Some (url, n) \<Rightarrow> (if url \<in> allowed then take n (c # cs) else []) @ keep_images allowed (drop (n - 1) cs)
      | None \<Rightarrow> c # keep_images allowed cs)"
  by pat_completeness auto
termination
  by (relation "measure (length \<circ> snd)") auto

function collapse_newlines :: "str \<Rightarrow> str" where
  "collapse_newlines text =
     (if contains_str [10, 10, 10] text then collapse_newlines (str_replace [10, 10, 10] [10, 10] text) else text)"
  by pat_completeness auto
termination
  by (relation "measure length") (simp_all add: length_str_replace_less)

declare collapse_newlines.simps [simp del]

definition collapse_blank_lines :: "str \<Rightarrow> str" where
  "collapse_blank_lines text = strip (collapse_newlines text)"

subsection \<open>Image metadata\<close>

type_synonym json_object = "(str \<times> json) list"

text \<open>\<open>parse_image_infos\<close>: a payload that is valid JSON but cannot be iterated over raises a TypeError
  (\<open>None\<close>); the keys of an object and the characters of a string are no objects.\<close>

fun objects_of :: "json list \<Rightarrow> json_object list" where
  "objects_of [] = []"
| "objects_of (JObj o1 # js) = o1 # objects_of js"
| "objects_of (_ # js) = objects_of js"

definition parse_image_infos :: "text_ops \<Rightarrow> str \<Rightarrow> json_object list option" where
  "parse_image_infos tx raw =
     (if raw = [] then Some []
      else case tx_loads tx raw of
        None \<Rightarrow> Some []
      | Some (JArr js) \<Rightarrow> Some (objects_of js)
      | Some (JObj _) \<Rightarrow> Some []
      | Some (JStr _) \<Rightarrow> Some []
      | Some _ \<Rightarrow> None)"

definition str_field :: "str \<Rightarrow> json_object \<Rightarrow> str" where
  "str_field key info = (case map_of info key of Some (JStr v) \<Rightarrow> v | _ \<Rightarrow> [])"

definition image_url_key :: "json_object \<Rightarrow> str" where
  "image_url_key info = (let url = str_field (lit ''url'') info in if url \<noteq> [] then url else str_field (lit ''original_url'') info)"

definition marshal_image_infos :: "text_ops \<Rightarrow> json_object list \<Rightarrow> str" where
  "marshal_image_infos tx infos = (if infos = [] then [] else tx_dumps tx (JArr (map JObj infos)))"

definition filter_image_info_by_content_urls :: "text_ops \<Rightarrow> (rune \<Rightarrow> bool) \<Rightarrow> str \<Rightarrow> str \<Rightarrow> str option" where
  "filter_image_info_by_content_urls tx alnum content image_info =
     (if image_info = [] then Some []
      else map_option (\<lambda>infos.
        let urls = image_urls_in_content alnum content
        in if infos = [] \<or> urls = {} then []
           else marshal_image_infos tx (filter (\<lambda>info. image_url_key info \<in> urls) infos)) (parse_image_infos tx image_info))"

definition prune_markdown_images_by_image_info :: "text_ops \<Rightarrow> str \<Rightarrow> str \<Rightarrow> str option" where
  "prune_markdown_images_by_image_info tx content image_info =
     map_option (\<lambda>infos. collapse_blank_lines (keep_images (set (map image_url_key infos) - {[]}) content))
       (if image_info = [] then Some [] else parse_image_infos tx image_info)"

end
