(* ===== verification/Merge_Hits.thy ===== *)
theory Merge_Hits
  imports Merge_Text
begin

text \<open>
  Search hits and what the merge step does to lists of them, src/src/core/chat/pipeline/steps:
  deduplication and partial overlaps (merge_utils.py), sequential bodies (merge_overlap.py),
  grouping (merge.py), history (merge_history.py), FAQ answers (merge_faq.py) and the cut to the
  best hits (filter_topk.py). Scores are doubles, that is rationals; NaN is not modelled.
\<close>

subsection \<open>Hits\<close>

datatype match_type = EMBEDDING | HISTORY | OTHER_MATCH nat

record hit =
  ht_id :: str
  ht_content :: str
  ht_knowledge_id :: str
  ht_chunk_index :: int
  ht_knowledge_title :: str
  ht_start_at :: int
  ht_end_at :: int
  ht_seq :: int
  ht_score :: rat
  ht_match_type :: match_type
  ht_sub_chunk_id :: "str list"
  ht_metadata :: "(str \<times> str) list"
  ht_chunk_type :: str
  ht_parent_chunk_id :: str
  ht_image_info :: str
  ht_knowledge_filename :: str
  ht_knowledge_source :: str
  ht_knowledge_channel :: str
  ht_chunk_metadata :: "json_object option"
  ht_matched_content :: str
  ht_knowledge_description :: str
  ht_knowledge_custom_metadata :: str
  ht_knowledge_base_id :: str

definition search_result_sort_key :: "hit \<Rightarrow> rat \<times> str \<times> str \<times> int \<times> str" where
  "search_result_sort_key h = (- ht_score h, ht_knowledge_id h, ht_chunk_type h, ht_chunk_index h, ht_id h)"

text \<open>\<open>sorted(xs, key=lambda x: x.score, reverse=True)\<close> keeps the order of equal scores.\<close>

definition by_score :: "hit list \<Rightarrow> hit list" where
  "by_score hits = sort_key (\<lambda>h. - ht_score h) hits"

subsection \<open>Deduplication\<close>

fun dedup_hits :: "text_ops \<Rightarrow> str set \<Rightarrow> str set \<Rightarrow> hit list \<Rightarrow> hit list" where
  "dedup_hits tx ids sigs [] = []"
| "dedup_hits tx ids sigs (h # hs) =
     (let signature = build_content_signature tx (ht_content h)
      in if ht_id h \<in> ids \<or> signature \<noteq> [] \<and> signature \<in> sigs then dedup_hits tx ids sigs hs
         else h # dedup_hits tx (insert (ht_id h) ids) (if signature = [] then sigs else insert signature sigs) hs)"

definition remove_duplicate_results :: "text_ops \<Rightarrow> hit list \<Rightarrow> hit list" where
  "remove_duplicate_results tx hits = dedup_hits tx {} {} hits"

definition OVERLAP_THRESHOLD :: rat where "OVERLAP_THRESHOLD = fl64 (85 / 100)"

text \<open>Which of two entries is dropped, the first or the second, if they overlap.\<close>

definition overlap_victim :: "text_ops \<Rightarrow> hit \<Rightarrow> hit \<Rightarrow> bool option" where
  "overlap_victim tx a b =
     (let na = normalize_content tx (ht_content a); nb = normalize_content tx (ht_content b);
          swap = length nb < length na;
          short = (if swap then b else a); long = (if swap then a else b);
          contained_in = is_content_contained (if swap then nb else na) (if swap then na else nb)
      in if \<not> contained_in \<and> content_overlap_ratio tx (ht_content short) (ht_content long) < OVERLAP_THRESHOLD then None
         else Some (if ht_score long < ht_score short then swap else \<not> swap))"

text \<open>\<open>Some True\<close>: the first entry is the victim. Row \<open>i\<close> of the double loop, then the rows.\<close>

fun overlap_row :: "text_ops \<Rightarrow> hit list \<Rightarrow> nat \<Rightarrow> nat list \<Rightarrow> nat set \<Rightarrow> nat set" where
  "overlap_row tx hits i [] removed = removed"
| "overlap_row tx hits i (j # js) removed =
     overlap_row tx hits i js
       (if j \<in> removed then removed
        else case overlap_victim tx (hits ! i) (hits ! j) of
          None \<Rightarrow> removed
        | Some first \<Rightarrow> insert (if first then i else j) removed)"

fun overlap_rows :: "text_ops \<Rightarrow> hit list \<Rightarrow> nat list \<Rightarrow> nat set \<Rightarrow> nat set" where
  "overlap_rows tx hits [] removed = removed"
| "overlap_rows tx hits (i # is) removed =
     overlap_rows tx hits is
       (if i \<in> removed then removed else overlap_row tx hits i [Suc i..<length hits] removed)"

definition remove_partial_overlaps :: "text_ops \<Rightarrow> hit list \<Rightarrow> hit list" where
  "remove_partial_overlaps tx hits =
     (if length hits \<le> 1 then hits
      else let removed = overlap_rows tx hits [0..<length hits] {}
           in map ((!) hits) (filter (\<lambda>i. i \<notin> removed) [0..<length hits]))"

subsection \<open>Sequential bodies\<close>

fun truthy :: "json \<Rightarrow> bool" where
  "truthy JNull = False"
| "truthy (JBool b) = b"
| "truthy (JNum r) = (r \<noteq> 0)"
| "truthy (JStr s) = (s \<noteq> [])"
| "truthy (JArr js) = (js \<noteq> [])"
| "truthy (JObj fs) = (fs \<noteq> [])"

text \<open>\<open>info.get("url") or info.get("original_url") or ""\<close>.\<close>

definition any_url :: "json_object \<Rightarrow> json" where
  "any_url info =
     (case map_of info (lit ''url'') of
        Some v \<Rightarrow> if truthy v then v
          else (case map_of info (lit ''original_url'') of Some u \<Rightarrow> if truthy u then u else JStr [] | None \<Rightarrow> JStr [])
      | None \<Rightarrow> (case map_of info (lit ''original_url'') of Some u \<Rightarrow> if truthy u then u else JStr [] | None \<Rightarrow> JStr []))"

definition decode_image_infos :: "text_ops \<Rightarrow> str \<Rightarrow> json_object list option" where
  "decode_image_infos tx raw = (case tx_loads tx raw of Some (JArr js) \<Rightarrow> Some (objects_of js) | _ \<Rightarrow> None)"

fun unique_infos :: "str set \<Rightarrow> json_object list \<Rightarrow> json_object list" where
  "unique_infos seen [] = []"
| "unique_infos seen (i # is) =
     (case any_url i of
        JStr url \<Rightarrow> if url \<noteq> [] \<and> url \<notin> seen then i # unique_infos (insert url seen) is else unique_infos seen is
      | _ \<Rightarrow> unique_infos seen is)"

definition merge_image_info_json :: "text_ops \<Rightarrow> str \<Rightarrow> str \<Rightarrow> str \<times> bool" where
  "merge_image_info_json tx target_json source_json =
     (if source_json = [] then (target_json, False)
      else case decode_image_infos tx source_json of
        None \<Rightarrow> (target_json, True)
      | Some source_infos \<Rightarrow>
          if source_infos = [] then (target_json, False)
          else case (if target_json = [] then Some [] else decode_image_infos tx target_json) of
            None \<Rightarrow> (source_json, False)
          | Some target_infos \<Rightarrow> (tx_dumps tx (JArr (map JObj (unique_infos {} (target_infos @ source_infos)))), False))"

definition JOIN_SEPARATOR :: str where "JOIN_SEPARATOR = [10, 10]"

definition add_sub_id :: "str list \<Rightarrow> str \<Rightarrow> str list" where
  "add_sub_id ids i = (if i \<in> set ids then ids else ids @ [i])"

definition merge_pair :: "text_ops \<Rightarrow> hit \<Rightarrow> hit \<Rightarrow> hit" where
  "merge_pair tx last_hit current =
     (let img = merge_image_info_json tx (ht_image_info last_hit) (ht_image_info current);
          h = last_hit\<lparr>ht_content := join_chunk_content (ht_content last_hit) (ht_content current) JOIN_SEPARATOR,
                ht_sub_chunk_id := add_sub_id (ht_sub_chunk_id last_hit) (ht_id current)\<rparr>;
          h1 = (if snd img then h else h\<lparr>ht_image_info := fst img\<rparr>)
      in if ht_score last_hit < ht_score current then h1\<lparr>ht_score := ht_score current\<rparr> else h1)"

definition joins :: "hit \<Rightarrow> int \<Rightarrow> hit \<Rightarrow> bool" where
  "joins last_hit last_index current \<longleftrightarrow>
     contains_chunk_content (ht_content last_hit) (ht_content current) \<or>
     contains_chunk_content (ht_content current) (ht_content last_hit) \<or> ht_chunk_index current = last_index + 1"

text \<open>The open group and its index; the closed groups come out in order.\<close>

fun merge_groups :: "text_ops \<Rightarrow> hit \<Rightarrow> int \<Rightarrow> hit list \<Rightarrow> hit list" where
  "merge_groups tx last_hit last_index [] = [last_hit]"
| "merge_groups tx last_hit last_index (c # cs) =
     (if joins last_hit last_index c then merge_groups tx (merge_pair tx last_hit c) (max last_index (ht_chunk_index c)) cs
      else last_hit # merge_groups tx c (ht_chunk_index c) cs)"

definition merge_sequential_chunks :: "text_ops \<Rightarrow> hit list \<Rightarrow> hit list" where
  "merge_sequential_chunks tx chunks =
     (case chunks of [] \<Rightarrow> [] | c # cs \<Rightarrow> by_score (merge_groups tx c (ht_chunk_index c) cs))"

subsection \<open>Grouping\<close>

text \<open>The two nested dictionaries: knowledge ids by first occurrence, then chunk types.\<close>

definition first_occurrences :: "'a list \<Rightarrow> 'a list" where
  "first_occurrences xs = rev (remdups (rev xs))"

definition units :: "hit list \<Rightarrow> (str \<times> str) list" where
  "units hits =
     concat (map (\<lambda>k. map (Pair k) (first_occurrences (map ht_chunk_type (filter (\<lambda>h. ht_knowledge_id h = k) hits))))
       (first_occurrences (map ht_knowledge_id hits)))"

definition unit_hits :: "hit list \<Rightarrow> str \<times> str \<Rightarrow> hit list" where
  "unit_hits hits u = filter (\<lambda>h. (ht_knowledge_id h, ht_chunk_type h) = u) hits"

definition group_and_merge_current_content :: "text_ops \<Rightarrow> hit list \<Rightarrow> hit list" where
  "group_and_merge_current_content tx hits =
     sort_key search_result_sort_key
       (concat (map (\<lambda>u. merge_sequential_chunks tx (sort_key (\<lambda>h. (ht_chunk_index h, ht_id h)) (unit_hits hits u))) (units hits)))"

subsection \<open>History\<close>

definition MIN_SIMILARITY :: rat where "MIN_SIMILARITY = fl64 (15 / 100)"
definition HISTORY_SCORE_DISCOUNT :: rat where "HISTORY_SCORE_DISCOUNT = fl64 (6 / 10)"
definition MAX_HISTORY_RESULTS :: nat where "MAX_HISTORY_RESULTS = 3"

text \<open>The references of the last round that has some.\<close>

definition get_search_result_from_history :: "hit list list \<Rightarrow> hit list" where
  "get_search_result_from_history history =
     (case find (\<lambda>refs. refs \<noteq> []) (rev history) of None \<Rightarrow> [] | Some refs \<Rightarrow> map (\<lambda>h. h\<lparr>ht_match_type := HISTORY\<rparr>) refs)"

text \<open>\<open>f"{x:.4f}".rstrip("0").rstrip(".")\<close> of a value that is not negative.\<close>

definition rstrip_char :: "rune \<Rightarrow> str \<Rightarrow> str" where
  "rstrip_char c s = rev (dropWhile (\<lambda>d. d = c) (rev s))"

definition format_similarity :: "rat \<Rightarrow> str" where
  "format_similarity x =
     (let n = nat (round_half_even (x * 10000)); f = n mod 10000
      in rstrip_char 46 (rstrip_char 48
           (decimal_digits (n div 10000) @ [46, 48 + f div 1000, 48 + f div 100 mod 10, 48 + f div 10 mod 10, 48 + f mod 10])))"

fun keep_history :: "text_ops \<Rightarrow> str set \<Rightarrow> str set \<Rightarrow> hit list \<Rightarrow> hit list \<Rightarrow> hit list" where
  "keep_history tx existing query_tokens filtered [] = filtered"
| "keep_history tx existing query_tokens filtered (r # rs) =
     (let similarity = jaccard query_tokens (tokenize_simple tx (ht_content r))
      in if ht_id r \<in> existing \<or> similarity < MIN_SIMILARITY then keep_history tx existing query_tokens filtered rs
         else
           let kept = filtered @ [r\<lparr>ht_match_type := HISTORY, ht_score := fl64 (ht_score r * HISTORY_SCORE_DISCOUNT),
                  ht_metadata := AList.update (lit ''history_similarity'') (format_similarity similarity) (ht_metadata r)\<rparr>]
           in if MAX_HISTORY_RESULTS \<le> length kept then kept else keep_history tx existing query_tokens kept rs)"

definition filter_history_results :: "text_ops \<Rightarrow> hit list list \<Rightarrow> str \<Rightarrow> str \<Rightarrow> hit list \<Rightarrow> hit list" where
  "filter_history_results tx history rewrite_query query current =
     keep_history tx (set (map ht_id current)) (tokenize_simple tx (if rewrite_query = [] then query else rewrite_query)) []
       (get_search_result_from_history history)"

subsection \<open>FAQ answers\<close>

text \<open>A row of the chunk table; absent ids and payloads are empty.\<close>

record chunk_row =
  cr_id :: str
  cr_content :: str
  cr_knowledge_id :: str
  cr_chunk_type :: str
  cr_chunk_index :: int
  cr_parent_chunk_id :: str
  cr_pre_chunk_id :: str
  cr_next_chunk_id :: str
  cr_image_info :: str
  cr_metadata :: "json_object option"

text \<open>The chunk table as the step reads it; \<open>None\<close> is an exception.\<close>

record chunk_source =
  cs_by_ids :: "str list \<Rightarrow> chunk_row list option"
  cs_by_parents :: "str list \<Rightarrow> chunk_row list option"

fun faq_answers :: "json list \<Rightarrow> str list" where
  "faq_answers [] = []"
| "faq_answers (JStr a # js) = (if strip a = [] then faq_answers js else strip a # faq_answers js)"
| "faq_answers (_ # js) = faq_answers js"

definition build_faq_answer_content :: "json_object option \<Rightarrow> str" where
  "build_faq_answer_content meta =
     (case meta of None \<Rightarrow> []
      | Some m \<Rightarrow>
          let question = strip (str_field (lit ''standard_question'') m);
              answers = (case map_of m (lit ''answers'') of Some (JArr js) \<Rightarrow> faq_answers js | _ \<Rightarrow> [])
          in strip (join_with [10] ((if question = [] then [] else [lit ''Q: '' @ question]) @
               (if answers = [] then [] else lit ''Answer:'' # map (\<lambda>a. lit ''- '' @ a) answers))))"

definition CHUNK_TYPE_FAQ :: str where "CHUNK_TYPE_FAQ = lit ''faq''"

definition is_faq_hit :: "hit \<Rightarrow> bool" where
  "is_faq_hit h \<longleftrightarrow> ht_id h \<noteq> [] \<and> ht_chunk_type h = CHUNK_TYPE_FAQ"

text \<open>The last row of an id wins, as in the dictionary of the code.\<close>

definition faq_answer_of :: "chunk_row list \<Rightarrow> str \<Rightarrow> str option" where
  "faq_answer_of rows i =
     map_of (rev (filter (\<lambda>(_, c). c \<noteq> []) (map (\<lambda>r. (cr_id r, build_faq_answer_content (cr_metadata r))) rows))) i"

definition populate_faq_answers :: "chunk_source option \<Rightarrow> int \<Rightarrow> hit list \<Rightarrow> hit list" where
  "populate_faq_answers repo tenant_id hits =
     (case repo of None \<Rightarrow> hits
      | Some cs \<Rightarrow>
          let ids = first_occurrences (map ht_id (filter is_faq_hit hits))
          in if tenant_id = 0 \<or> ids = [] then hits
             else case cs_by_ids cs ids of
               None \<Rightarrow> hits
             | Some rows \<Rightarrow>
                 map (\<lambda>h. if is_faq_hit h then (case faq_answer_of rows (ht_id h) of Some a \<Rightarrow> h\<lparr>ht_content := a\<rparr> | None \<Rightarrow> h) else h) hits)"

subsection \<open>The best hits\<close>

definition filter_top_k :: "hit list \<Rightarrow> int \<Rightarrow> hit list" where
  "filter_top_k hits top_k =
     (let ordered = sort_key search_result_sort_key hits
      in if 0 < top_k \<and> nat top_k < length ordered then take (nat top_k) ordered else ordered)"

text \<open>The step: merged hits, else reranked, else retrieved.\<close>

record hit_state =
  hs_search_result :: "hit list"
  hs_rerank_result :: "hit list"
  hs_merge_result :: "hit list"

definition filter_top_k_step :: "bool \<Rightarrow> int \<Rightarrow> hit_state \<Rightarrow> hit_state" where
  "filter_top_k_step needs_retrieval top_k s =
     (if \<not> needs_retrieval then s
      else if hs_merge_result s \<noteq> [] then s\<lparr>hs_merge_result := filter_top_k (hs_merge_result s) top_k\<rparr>
      else if hs_rerank_result s \<noteq> [] then s\<lparr>hs_rerank_result := filter_top_k (hs_rerank_result s) top_k\<rparr>
      else s\<lparr>hs_search_result := filter_top_k (hs_search_result s) top_k\<rparr>)"

end
