(* ===== verification/Merge_Context.thy ===== *)
theory Merge_Context
  imports Merge_Hits
begin

text \<open>
  The context of a hit and the whole merge step: parent bodies and their images (merge.py), the
  neighbours of short bodies (merge_expand.py), and \<open>PluginMerge.on_event\<close>. The walk over the
  neighbours may not end, so its value is an option; a payload that raises is \<open>None\<close> in the parent
  resolution. Sets that the code turns into lists are read in the order of first occurrence.
\<close>

definition CHUNK_TYPE_TEXT :: str where "CHUNK_TYPE_TEXT = lit ''text''"
definition CHUNK_TYPE_PARENT_TEXT :: str where "CHUNK_TYPE_PARENT_TEXT = lit ''parent_text''"
definition CHUNK_TYPE_IMAGE_OCR :: str where "CHUNK_TYPE_IMAGE_OCR = lit ''image_ocr''"
definition CHUNK_TYPE_IMAGE_CAPTION :: str where "CHUNK_TYPE_IMAGE_CAPTION = lit ''image_caption''"

definition is_image_type :: "str \<Rightarrow> bool" where
  "is_image_type t \<longleftrightarrow> t = CHUNK_TYPE_IMAGE_OCR \<or> t = CHUNK_TYPE_IMAGE_CAPTION"

subsection \<open>Images of the children\<close>

type_synonym bucket = "(str \<times> json_object) list"

definition absorb_info :: "json_object \<Rightarrow> json_object \<Rightarrow> json_object" where
  "absorb_info info existing =
     (let e1 = (if str_field (lit ''ocr_text'') info = [] then existing
                else AList.update (lit ''ocr_text'') (JStr (str_field (lit ''ocr_text'') info)) existing)
      in if str_field (lit ''caption'') info = [] then e1
         else AList.update (lit ''caption'') (JStr (str_field (lit ''caption'') info)) e1)"

definition add_info :: "json_object \<Rightarrow> bucket \<Rightarrow> bucket" where
  "add_info info b =
     (case any_url info of
        JStr key \<Rightarrow>
          if key = [] then b
          else (case map_of b key of None \<Rightarrow> b @ [(key, info)] | Some existing \<Rightarrow> AList.update key (absorb_info info existing) b)
      | _ \<Rightarrow> b)"

definition add_child_info :: "text_ops \<Rightarrow> str \<Rightarrow> chunk_row \<Rightarrow> (str \<times> bucket) list \<Rightarrow> (str \<times> bucket) list option" where
  "add_child_info tx target child aggregations =
     (if cr_image_info child = [] then Some aggregations
      else map_option (\<lambda>infos.
        if infos = [] then aggregations
        else AList.update target
               (fold add_info infos (case map_of aggregations target of None \<Rightarrow> [] | Some b \<Rightarrow> b)) aggregations)
        (parse_image_infos tx (cr_image_info child)))"

fun add_children :: "text_ops \<Rightarrow> (chunk_row \<Rightarrow> str option) \<Rightarrow> chunk_row list \<Rightarrow> (str \<times> bucket) list \<Rightarrow> (str \<times> bucket) list option" where
  "add_children tx target_of [] aggregations = Some aggregations"
| "add_children tx target_of (c # cs) aggregations =
     (case target_of c of
        None \<Rightarrow> add_children tx target_of cs aggregations
      | Some target \<Rightarrow> Option.bind (add_child_info tx target c aggregations) (add_children tx target_of cs))"

definition collect_image_info_by_chunk_ids :: "text_ops \<Rightarrow> chunk_source \<Rightarrow> str list \<Rightarrow> (str \<times> str) list option" where
  "collect_image_info_by_chunk_ids tx cs ids =
     (case (if ids = [] then None else cs_by_parents cs ids) of
        None \<Rightarrow> Some []
      | Some children \<Rightarrow>
          let texts = filter (\<lambda>c. cr_chunk_type c = CHUNK_TYPE_TEXT) children;
              text_to_parent = map (\<lambda>c. (cr_id c, cr_parent_chunk_id c)) texts;
              grandchildren = (if texts = [] then []
                               else case cs_by_parents cs (map cr_id texts) of None \<Rightarrow> [] | Some gs \<Rightarrow> gs)
          in map_option (\<lambda>aggregations.
               map (\<lambda>(i, b). (i, tx_dumps tx (JArr (map (JObj \<circ> snd) b)))) (filter (\<lambda>(i, b). b \<noteq> []) aggregations))
             (Option.bind
               (add_children tx (\<lambda>c. if is_image_type (cr_chunk_type c) then Some (cr_parent_chunk_id c) else None) children [])
               (add_children tx (\<lambda>g. if is_image_type (cr_chunk_type g) then map_of (rev text_to_parent) (cr_parent_chunk_id g) else None)
                 grandchildren)))"

subsection \<open>Parents\<close>

definition assign_scoped_image_info ::
  "text_ops \<Rightarrow> (rune \<Rightarrow> bool) \<Rightarrow> (str \<times> str) list \<Rightarrow> str \<Rightarrow> hit \<Rightarrow> hit option" where
  "assign_scoped_image_info tx alnum scoped text_child_id h =
     (case map_of scoped text_child_id of
        Some info \<Rightarrow>
          if info \<noteq> [] then Some (h\<lparr>ht_image_info := info\<rparr>)
          else if ht_image_info h = [] then Some h
          else map_option (\<lambda>i. h\<lparr>ht_image_info := i\<rparr>) (filter_image_info_by_content_urls tx alnum (ht_content h) (ht_image_info h))
      | None \<Rightarrow>
          if ht_image_info h = [] then Some h
          else map_option (\<lambda>i. h\<lparr>ht_image_info := i\<rparr>) (filter_image_info_by_content_urls tx alnum (ht_content h) (ht_image_info h)))"

type_synonym row_map = "(str \<times> chunk_row) list"

definition rows_by_id :: "chunk_row list \<Rightarrow> row_map" where
  "rows_by_id rows = rev (map (\<lambda>r. (cr_id r, r)) rows)"

definition resolve_text_hit ::
  "text_ops \<Rightarrow> (rune \<Rightarrow> bool) \<Rightarrow> row_map \<Rightarrow> (str \<times> str) list \<Rightarrow> hit \<Rightarrow> hit option" where
  "resolve_text_hit tx alnum parent_map scoped h =
     (case map_of parent_map (ht_parent_chunk_id h) of
        None \<Rightarrow> Some h
      | Some parent \<Rightarrow>
          if cr_content parent = [] \<or> cr_chunk_type parent \<noteq> CHUNK_TYPE_PARENT_TEXT then Some h
          else Option.bind (assign_scoped_image_info tx alnum scoped (ht_id h) h) (\<lambda>h1.
            map_option (\<lambda>parent_content.
              h1\<lparr>ht_content := join_chunk_content parent_content (ht_content h1) JOIN_SEPARATOR,
                 ht_sub_chunk_id := add_sub_id (ht_sub_chunk_id h1) (ht_id h1)\<rparr>)
              (prune_markdown_images_by_image_info tx (cr_content parent) (ht_image_info h1))))"

definition content_source :: "row_map \<Rightarrow> chunk_row \<Rightarrow> chunk_row" where
  "content_source parent_map text_parent =
     (if cr_parent_chunk_id text_parent = [] then text_parent
      else case map_of parent_map (cr_parent_chunk_id text_parent) of
        None \<Rightarrow> text_parent
      | Some g \<Rightarrow> if cr_chunk_type g = CHUNK_TYPE_PARENT_TEXT \<and> cr_content g \<noteq> [] then g else text_parent)"

definition resolve_image_hit ::
  "text_ops \<Rightarrow> (rune \<Rightarrow> bool) \<Rightarrow> row_map \<Rightarrow> (str \<times> str) list \<Rightarrow> hit \<Rightarrow> hit option" where
  "resolve_image_hit tx alnum parent_map scoped h =
     (case map_of parent_map (ht_parent_chunk_id h) of
        None \<Rightarrow> Some h
      | Some text_parent \<Rightarrow>
          if cr_content text_parent = [] \<or> cr_chunk_type text_parent \<noteq> CHUNK_TYPE_TEXT then Some h
          else
            let hit_image_info = ht_image_info h;
                h0 = h\<lparr>ht_content := cr_content text_parent, ht_chunk_index := cr_chunk_index text_parent\<rparr>
            in Option.bind (assign_scoped_image_info tx alnum scoped (cr_id text_parent) h0) (\<lambda>h1.
               Option.bind (if ht_image_info h1 = [] \<and> hit_image_info \<noteq> []
                            then map_option (\<lambda>i. h1\<lparr>ht_image_info := i\<rparr>)
                                   (filter_image_info_by_content_urls tx alnum (cr_content text_parent) hit_image_info)
                            else Some h1) (\<lambda>h2.
               Option.bind (prune_markdown_images_by_image_info tx (cr_content text_parent) (ht_image_info h2)) (\<lambda>text_content.
               map_option (\<lambda>parent_content.
                 h2\<lparr>ht_content := join_chunk_content parent_content text_content JOIN_SEPARATOR,
                    ht_sub_chunk_id := add_sub_id (ht_sub_chunk_id h2) (ht_id h2)\<rparr>)
                 (prune_markdown_images_by_image_info tx (cr_content (content_source parent_map text_parent)) (ht_image_info h2))))))"

definition resolve_hit :: "text_ops \<Rightarrow> (rune \<Rightarrow> bool) \<Rightarrow> row_map \<Rightarrow> (str \<times> str) list \<Rightarrow> hit \<Rightarrow> hit option" where
  "resolve_hit tx alnum parent_map scoped h =
     (if ht_parent_chunk_id h = [] then Some h
      else if ht_chunk_type h = CHUNK_TYPE_TEXT then resolve_text_hit tx alnum parent_map scoped h
      else if is_image_type (ht_chunk_type h) then resolve_image_hit tx alnum parent_map scoped h
      else Some h)"

definition scoped_text_child :: "row_map \<Rightarrow> hit \<Rightarrow> str option" where
  "scoped_text_child parent_map h =
     (if ht_parent_chunk_id h = [] then None
      else if ht_chunk_type h = CHUNK_TYPE_TEXT then
        (case map_of parent_map (ht_parent_chunk_id h) of
           None \<Rightarrow> None
         | Some p \<Rightarrow> if cr_chunk_type p = CHUNK_TYPE_PARENT_TEXT then Some (ht_id h) else None)
      else if is_image_type (ht_chunk_type h) then Some (ht_parent_chunk_id h)
      else None)"

definition collect_scoped_text_child_ids :: "row_map \<Rightarrow> hit list \<Rightarrow> str list" where
  "collect_scoped_text_child_ids parent_map hits = first_occurrences (List.map_filter (scoped_text_child parent_map) hits)"

definition grandparent_ids :: "hit list \<Rightarrow> chunk_row list \<Rightarrow> row_map \<Rightarrow> str list" where
  "grandparent_ids hits parents parent_map =
     (let image_parents = set (map ht_parent_chunk_id (filter (\<lambda>h. is_image_type (ht_chunk_type h)) hits))
      in first_occurrences (map cr_parent_chunk_id (filter (\<lambda>r.
           cr_id r \<in> image_parents \<and> cr_parent_chunk_id r \<noteq> [] \<and> cr_chunk_type r = CHUNK_TYPE_TEXT \<and>
           map_of parent_map (cr_parent_chunk_id r) = None) parents)))"

definition resolve_parent_chunks ::
  "text_ops \<Rightarrow> (rune \<Rightarrow> bool) \<Rightarrow> chunk_source option \<Rightarrow> int \<Rightarrow> hit list \<Rightarrow> hit list option" where
  "resolve_parent_chunks tx alnum repo tenant_id hits =
     (case repo of None \<Rightarrow> Some hits
      | Some cs \<Rightarrow>
          let parent_ids = first_occurrences (filter (\<lambda>i. i \<noteq> []) (map ht_parent_chunk_id hits))
          in if hits = [] \<or> tenant_id = 0 \<or> parent_ids = [] then Some hits
             else case cs_by_ids cs parent_ids of
               None \<Rightarrow> Some hits
             | Some parents \<Rightarrow>
                 let map0 = rows_by_id parents;
                     gids = grandparent_ids hits parents map0;
                     parent_map = (if gids = [] then map0
                                   else case cs_by_ids cs gids of None \<Rightarrow> map0 | Some gs \<Rightarrow> rows_by_id gs @ map0);
                     child_ids = collect_scoped_text_child_ids parent_map hits
                 in Option.bind (if child_ids = [] then Some [] else collect_image_info_by_chunk_ids tx cs child_ids) (\<lambda>scoped.
                      those (map (resolve_hit tx alnum parent_map scoped) hits)))"

subsection \<open>Neighbours of short bodies\<close>

definition MIN_EXPAND_RUNES :: nat where "MIN_EXPAND_RUNES = 350"
definition MAX_EXPAND_RUNES :: nat where "MAX_EXPAND_RUNES = 850"

definition merge_ordered_content :: "str \<Rightarrow> str \<Rightarrow> str \<Rightarrow> nat \<Rightarrow> str" where
  "merge_ordered_content prev base next_body max_len =
     (let c1 = (if prev = [] then base else join_chunk_content prev base JOIN_SEPARATOR);
          c2 = (if next_body = [] then c1 else join_chunk_content c1 next_body JOIN_SEPARATOR)
      in if max_len < length c2 then take max_len c2 else c2)"

text \<open>The dictionary of known chunks; \<open>None\<close> is a chunk known to be missing.\<close>

type_synonym known_chunks = "(str \<times> chunk_row option) list"

definition known_row :: "known_chunks \<Rightarrow> str \<Rightarrow> chunk_row option" where
  "known_row known i = (case map_of known i of Some r \<Rightarrow> r | None \<Rightarrow> None)"

definition fetch_chunks_if_missing :: "chunk_source \<Rightarrow> str list \<Rightarrow> known_chunks \<Rightarrow> known_chunks" where
  "fetch_chunks_if_missing cs ids known =
     (let missing = filter (\<lambda>i. i \<noteq> [] \<and> map_of known i = None) ids
      in if missing = [] then known
         else
           let rows = (case cs_by_ids cs missing of None \<Rightarrow> [] | Some rs \<Rightarrow> rs);
               known1 = fold (\<lambda>r. AList.update (cr_id r) (Some r)) rows known
           in fold (\<lambda>i. AList.update i None) (filter (\<lambda>i. i \<notin> set (map cr_id rows)) missing) known1)"

record walk =
  wk_prev_content :: str
  wk_next_content :: str
  wk_prev_ids :: "str list"
  wk_next_ids :: "str list"
  wk_prev_cursor :: str
  wk_next_cursor :: str
  wk_known :: known_chunks

definition same_document :: "chunk_row \<Rightarrow> chunk_row option \<Rightarrow> bool" where
  "same_document base r \<longleftrightarrow> (case r of None \<Rightarrow> False | Some c \<Rightarrow> cr_knowledge_id c = cr_knowledge_id base)"

text \<open>The first neighbours, fetched together.\<close>

definition start_walk :: "chunk_source \<Rightarrow> chunk_row \<Rightarrow> known_chunks \<Rightarrow> walk" where
  "start_walk cs base known0 =
     (let known = fetch_chunks_if_missing cs [cr_pre_chunk_id base, cr_next_chunk_id base] known0;
          p = (if cr_pre_chunk_id base = [] then None else known_row known (cr_pre_chunk_id base));
          n = (if cr_next_chunk_id base = [] then None else known_row known (cr_next_chunk_id base))
      in \<lparr>wk_prev_content = (if same_document base p then cr_content (the p) else []),
          wk_next_content = (if same_document base n then cr_content (the n) else []),
          wk_prev_ids = (if same_document base p then [cr_id (the p)] else []),
          wk_next_ids = (if same_document base n then [cr_id (the n)] else []),
          wk_prev_cursor = (if same_document base p then cr_pre_chunk_id (the p) else []),
          wk_next_cursor = (if same_document base n then cr_next_chunk_id (the n) else []),
          wk_known = known\<rparr>)"

definition step_prev :: "chunk_source \<Rightarrow> chunk_row \<Rightarrow> walk \<Rightarrow> walk \<times> bool" where
  "step_prev cs base w =
     (if wk_prev_cursor w = [] then (w, False)
      else
        let known = fetch_chunks_if_missing cs [wk_prev_cursor w] (wk_known w)
        in case known_row known (wk_prev_cursor w) of
             None \<Rightarrow> (w\<lparr>wk_known := known, wk_prev_cursor := []\<rparr>, False)
           | Some c \<Rightarrow>
               if cr_knowledge_id c = cr_knowledge_id base
               then (w\<lparr>wk_known := known, wk_prev_content := join_chunk_content (cr_content c) (wk_prev_content w) JOIN_SEPARATOR,
                       wk_prev_ids := cr_id c # wk_prev_ids w, wk_prev_cursor := cr_pre_chunk_id c\<rparr>, True)
               else (w\<lparr>wk_known := known, wk_prev_cursor := []\<rparr>, False))"

definition step_next :: "chunk_source \<Rightarrow> chunk_row \<Rightarrow> walk \<Rightarrow> walk \<times> bool" where
  "step_next cs base w =
     (if wk_next_cursor w = [] then (w, False)
      else
        let known = fetch_chunks_if_missing cs [wk_next_cursor w] (wk_known w)
        in case known_row known (wk_next_cursor w) of
             None \<Rightarrow> (w\<lparr>wk_known := known, wk_next_cursor := []\<rparr>, False)
           | Some c \<Rightarrow>
               if cr_knowledge_id c = cr_knowledge_id base
               then (w\<lparr>wk_known := known, wk_next_content := join_chunk_content (wk_next_content w) (cr_content c) JOIN_SEPARATOR,
                       wk_next_ids := wk_next_ids w @ [cr_id c], wk_next_cursor := cr_next_chunk_id c\<rparr>, True)
               else (w\<lparr>wk_known := known, wk_next_cursor := []\<rparr>, False))"

definition walk_content :: "chunk_row \<Rightarrow> walk \<Rightarrow> str" where
  "walk_content base w = merge_ordered_content (wk_prev_content w) (cr_content base) (wk_next_content w) MAX_EXPAND_RUNES"

definition walk_done :: "chunk_row \<Rightarrow> walk \<Rightarrow> bool" where
  "walk_done base w \<longleftrightarrow>
     walk_content base w = [] \<or> MIN_EXPAND_RUNES \<le> length (walk_content base w) \<or> wk_prev_cursor w = [] \<and> wk_next_cursor w = []"

text \<open>The \<open>while True\<close>; the merged body is the one of the last merge, not always that of the last walk.\<close>

partial_function (option) expand_walk :: "chunk_source \<Rightarrow> chunk_row \<Rightarrow> walk \<Rightarrow> (str \<times> walk) option" where
  "expand_walk cs base w =
     (if walk_done base w then Some (walk_content base w, w)
      else
        let w1 = fst (step_prev cs base w)
        in if MIN_EXPAND_RUNES \<le> length (walk_content base w1) then Some (walk_content base w1, w1)
           else
             let w2 = fst (step_next cs base w1)
             in if \<not> (snd (step_prev cs base w) \<or> snd (step_next cs base w1)) then Some (walk_content base w1, w2)
                else expand_walk cs base w2)"

definition needs_expansion :: "hit \<Rightarrow> bool" where
  "needs_expansion h \<longleftrightarrow>
     ht_id h \<noteq> [] \<and> ht_content h \<noteq> [] \<and> ht_chunk_type h = CHUNK_TYPE_TEXT \<and> length (ht_content h) < MIN_EXPAND_RUNES"

definition expand_hit :: "chunk_source \<Rightarrow> known_chunks \<Rightarrow> hit \<Rightarrow> (hit \<times> known_chunks) option" where
  "expand_hit cs known0 h =
     (if \<not> needs_expansion h then Some (h, known0)
      else
        let known = fetch_chunks_if_missing cs [ht_id h] known0
        in case known_row known (ht_id h) of
             None \<Rightarrow> Some (h, known)
           | Some base \<Rightarrow>
               if cr_content base = [] \<or> cr_chunk_type base \<noteq> CHUNK_TYPE_TEXT then Some (h, known)
               else map_option (\<lambda>(merged, w).
                 (if merged = [] then h
                  else h\<lparr>ht_content := merged,
                         ht_sub_chunk_id := fold (\<lambda>i ids. if i = [] then ids else add_sub_id ids i)
                           (wk_prev_ids w @ wk_next_ids w) (ht_sub_chunk_id h)\<rparr>, wk_known w))
                 (expand_walk cs base (start_walk cs base known)))"

fun expand_hits :: "chunk_source \<Rightarrow> known_chunks \<Rightarrow> hit list \<Rightarrow> hit list option" where
  "expand_hits cs known [] = Some []"
| "expand_hits cs known (h # hs) =
     (case expand_hit cs known h of
        None \<Rightarrow> None
      | Some (h1, known1) \<Rightarrow> map_option (Cons h1) (expand_hits cs known1 hs))"

definition neighbor_ids :: "known_chunks \<Rightarrow> str list" where
  "neighbor_ids known =
     first_occurrences (filter (\<lambda>i. i \<noteq> [] \<and> map_of known i = None)
       (concat (map (\<lambda>(_, r). case r of None \<Rightarrow> [] | Some c \<Rightarrow> [cr_pre_chunk_id c, cr_next_chunk_id c]) known)))"

definition expand_short_context_with_neighbors :: "chunk_source option \<Rightarrow> int \<Rightarrow> hit list \<Rightarrow> hit list option" where
  "expand_short_context_with_neighbors repo tenant_id hits =
     (case repo of None \<Rightarrow> Some hits
      | Some cs \<Rightarrow>
          let base_ids = first_occurrences (map ht_id (filter needs_expansion hits))
          in if hits = [] \<or> tenant_id = 0 \<or> base_ids = [] then Some hits
             else case cs_by_ids cs base_ids of
               None \<Rightarrow> Some hits
             | Some rows \<Rightarrow>
                 let known = fold (\<lambda>r. AList.update (cr_id r) (Some r)) rows [];
                     ids = neighbor_ids known;
                     known1 = (if ids = [] then known
                               else case cs_by_ids cs ids of None \<Rightarrow> known
                                 | Some ns \<Rightarrow> fold (\<lambda>r. AList.update (cr_id r) (Some r)) ns known)
                 in expand_hits cs known1 hits)"

subsection \<open>The step\<close>

definition select_input :: "hit_state \<Rightarrow> hit list" where
  "select_input s = (if hs_rerank_result s \<noteq> [] then hs_rerank_result s else by_score (hs_search_result s))"

definition inject_history_results :: "text_ops \<Rightarrow> hit list list \<Rightarrow> str \<Rightarrow> str \<Rightarrow> hit list \<Rightarrow> hit list" where
  "inject_history_results tx history rewrite_query query current =
     (let h = filter_history_results tx history rewrite_query query current
      in if h = [] then current else remove_duplicate_results tx (current @ h))"

definition merge_candidates :: "text_ops \<Rightarrow> hit list list \<Rightarrow> str \<Rightarrow> str \<Rightarrow> hit_state \<Rightarrow> hit list" where
  "merge_candidates tx history rewrite_query query s =
     inject_history_results tx history rewrite_query query (remove_duplicate_results tx (select_input s))"

definition finish_merge :: "text_ops \<Rightarrow> hit list \<Rightarrow> hit list" where
  "finish_merge tx hits =
     remove_partial_overlaps tx (remove_duplicate_results tx (group_and_merge_current_content tx hits))"

datatype step_error = TYPE_ERROR

text \<open>\<open>None\<close>: the step does not return.\<close>

definition merge_step ::
  "text_ops \<Rightarrow> (rune \<Rightarrow> bool) \<Rightarrow> chunk_source option \<Rightarrow> int \<Rightarrow> bool \<Rightarrow> hit list list \<Rightarrow> str \<Rightarrow> str \<Rightarrow> hit_state \<Rightarrow>
     (step_error + hit_state) option" where
  "merge_step tx alnum repo tenant_id needs_retrieval history rewrite_query query s =
     (let candidates = merge_candidates tx history rewrite_query query s
      in if \<not> needs_retrieval \<or> candidates = [] then Some (Inr s)
         else case resolve_parent_chunks tx alnum repo tenant_id candidates of
           None \<Rightarrow> Some (Inl TYPE_ERROR)
         | Some resolved \<Rightarrow>
             map_option (\<lambda>expanded. Inr (s\<lparr>hs_merge_result := finish_merge tx expanded\<rparr>))
               (expand_short_context_with_neighbors repo tenant_id
                 (populate_faq_answers repo tenant_id (group_and_merge_current_content tx resolved))))"

end
