(* ===== verification/Merge_Laws.thy ===== *)
theory Merge_Laws
  imports Merge_Context "HOL-Library.Sublist"
begin

text \<open>
  Laws of the merge step: joined bodies, deduplication, partial overlaps, grouping. The stages that
  rewrite hits one by one share a contract, the locale \<open>hit_stage\<close>, with an interpretation for each.
\<close>

subsection \<open>Joined bodies\<close>

lemma contains_str_refl [simp]: "contains_str xs xs"
  unfolding contains_str_iff by (metis append_Nil append_Nil2)

lemma contains_str_append: "contains_str xs (xs @ ys)" "contains_str ys (xs @ ys)"
  unfolding contains_str_iff by (metis append_Nil append_assoc, metis append_Nil2)

lemma find_overlap_Some: "find_overlap acc nxt = Some k \<Longrightarrow> drop (length acc - k) acc = take k nxt"
  by (auto simp: find_overlap_def Let_def find_Some_iff)

lemma overlap_contains:
  assumes "drop (length acc - k) acc = take k nxt"
  shows "contains_str nxt (acc @ drop k nxt)"
proof -
  have "acc @ drop k nxt = take (length acc - k) acc @ take k nxt @ drop k nxt"
    using assms by (metis append.assoc append_take_drop_id)
  then show ?thesis by (simp add: contains_str_append)
qed

lemma join_keeps_both:
  "contains_str acc (join_chunk_content acc nxt sep) \<and> contains_str nxt (join_chunk_content acc nxt sep)"
proof -
  have sub: "contains_chunk_content a b \<Longrightarrow> contains_str b a" for a b
    by (auto simp: contains_chunk_content_def)
  have nil: "contains_str [] s" for s :: str by (cases s) simp_all
  have sep: "contains_str nxt (acc @ sep @ nxt)"
    using contains_str_append(2) [of nxt "acc @ sep"] by simp
  show ?thesis
    using sub contains_str_append sep overlap_contains [OF find_overlap_Some] nil
    by (auto simp: join_chunk_content_def split: option.splits)
qed

subsection \<open>Deduplication\<close>

definition signature_of :: "text_ops \<Rightarrow> hit \<Rightarrow> str" where
  "signature_of tx h = build_content_signature tx (ht_content h)"

definition duplicates :: "text_ops \<Rightarrow> hit \<Rightarrow> hit \<Rightarrow> bool" where
  "duplicates tx a b \<longleftrightarrow> ht_id a = ht_id b \<or> signature_of tx a \<noteq> [] \<and> signature_of tx a = signature_of tx b"

fun no_duplicates :: "text_ops \<Rightarrow> hit list \<Rightarrow> bool" where
  "no_duplicates tx [] = True"
| "no_duplicates tx (h # hs) = (list_all (\<lambda>k. \<not> duplicates tx h k) hs \<and> no_duplicates tx hs)"

lemma dedup_hits_Cons:
  "dedup_hits tx ids sigs (h # hs) =
     (if ht_id h \<in> ids \<or> signature_of tx h \<noteq> [] \<and> signature_of tx h \<in> sigs then dedup_hits tx ids sigs hs
      else h # dedup_hits tx (insert (ht_id h) ids) (if signature_of tx h = [] then sigs else insert (signature_of tx h) sigs) hs)"
  by (simp add: signature_of_def Let_def)

declare dedup_hits.simps(2) [simp del]

lemma dedup_hits_fresh:
  "k \<in> set (dedup_hits tx ids sigs hs) \<Longrightarrow> ht_id k \<notin> ids \<and> (signature_of tx k \<noteq> [] \<longrightarrow> signature_of tx k \<notin> sigs)"
proof (induction hs arbitrary: ids sigs)
  case (Cons h hs)
  show ?case
  proof (cases "k = h")
    case False
    then show ?thesis using Cons.prems Cons.IH by (auto simp: dedup_hits_Cons split: if_splits)
  next
    case True
    show ?thesis
    proof (cases "ht_id h \<in> ids \<or> signature_of tx h \<noteq> [] \<and> signature_of tx h \<in> sigs")
      case True
      then have "k \<in> set (dedup_hits tx ids sigs hs)" using Cons.prems by (simp add: dedup_hits_Cons)
      then show ?thesis by (rule Cons.IH)
    qed (use True in blast)
  qed
qed simp

lemma dedup_hits_no_duplicates: "no_duplicates tx (dedup_hits tx ids sigs hs)"
proof (induction hs arbitrary: ids sigs)
  case (Cons h hs)
  let ?rest = "dedup_hits tx (insert (ht_id h) ids) (if signature_of tx h = [] then sigs else insert (signature_of tx h) sigs) hs"
  have "\<not> duplicates tx h k" if "k \<in> set ?rest" for k
    using dedup_hits_fresh [OF that] by (auto simp: duplicates_def split: if_splits)
  then show ?case using Cons.IH by (simp add: dedup_hits_Cons list_all_iff)
qed simp

lemma dedup_hits_subseq: "subseq (dedup_hits tx ids sigs hs) hs"
  by (induction hs arbitrary: ids sigs) (auto simp: dedup_hits_Cons)

lemma dedup_hits_covers:
  "h \<in> set hs \<Longrightarrow> ht_id h \<in> ids \<or> signature_of tx h \<noteq> [] \<and> signature_of tx h \<in> sigs \<or>
     (\<exists>k \<in> set (dedup_hits tx ids sigs hs). duplicates tx k h)"
proof (induction hs arbitrary: ids sigs)
  case (Cons a hs)
  let ?skip = "ht_id a \<in> ids \<or> signature_of tx a \<noteq> [] \<and> signature_of tx a \<in> sigs"
  let ?sigs = "if signature_of tx a = [] then sigs else insert (signature_of tx a) sigs"
  show ?case
  proof (cases "h = a")
    case True
    then show ?thesis by (cases ?skip) (auto simp: dedup_hits_Cons duplicates_def)
  next
    case False
    then have h: "h \<in> set hs" using Cons.prems by simp
    show ?thesis
    proof (cases ?skip)
      case True
      then show ?thesis using Cons.IH [OF h] by (simp add: dedup_hits_Cons)
    next
      case False
      have "ht_id h \<in> insert (ht_id a) ids \<or> signature_of tx h \<noteq> [] \<and> signature_of tx h \<in> ?sigs \<or>
          (\<exists>k \<in> set (dedup_hits tx (insert (ht_id a) ids) ?sigs hs). duplicates tx k h)" by (rule Cons.IH [OF h])
      then show ?thesis using False by (auto simp: dedup_hits_Cons duplicates_def split: if_splits)
    qed
  qed
qed simp

lemma no_duplicates_subseq: "subseq xs ys \<Longrightarrow> no_duplicates tx ys \<Longrightarrow> no_duplicates tx xs"
proof (induction rule: list_emb.induct)
  case (list_emb_Cons2 x y xs ys)
  then show ?case using list_emb_set [of "(=)" xs ys] by (auto simp: list_all_iff)
qed auto

lemma no_duplicates_distinct: "no_duplicates tx hs \<Longrightarrow> distinct (map ht_id hs)"
  by (induction hs) (auto simp: list_all_iff duplicates_def)

lemma remove_duplicates_Nil [simp]: "remove_duplicate_results tx hs = [] \<longleftrightarrow> hs = []"
  by (cases hs) (auto simp: remove_duplicate_results_def dedup_hits_Cons)

subsection \<open>Partial overlaps\<close>

lemma overlap_row_mono: "removed \<subseteq> overlap_row tx hits i js removed"
proof (induction js arbitrary: removed)
  case (Cons j js)
  then show ?case by (auto split: option.splits) (meson insert_subset subsetD)+
qed simp

lemma overlap_row_within: "overlap_row tx hits i js removed \<subseteq> insert i removed \<union> set js"
proof (induction js arbitrary: removed)
  case (Cons j js)
  let ?r = "if j \<in> removed then removed
        else case overlap_victim tx (hits ! i) (hits ! j) of None \<Rightarrow> removed | Some first \<Rightarrow> insert (if first then i else j) removed"
  have "?r \<subseteq> insert i (insert j removed)" by (auto split: option.splits)
  then show ?case using Cons.IH [of ?r] by auto
qed auto

lemma overlap_row_separates:
  "i \<notin> overlap_row tx hits i js removed \<Longrightarrow> j \<in> set js \<Longrightarrow> j \<notin> overlap_row tx hits i js removed \<Longrightarrow>
     overlap_victim tx (hits ! i) (hits ! j) = None"
proof (induction js arbitrary: removed)
  case (Cons k js)
  let ?r = "if k \<in> removed then removed
        else case overlap_victim tx (hits ! i) (hits ! k) of None \<Rightarrow> removed | Some first \<Rightarrow> insert (if first then i else k) removed"
  have out: "i \<notin> ?r" "j \<notin> ?r" using Cons.prems(1,3) overlap_row_mono [of ?r tx hits i js] by auto
  show ?case
  proof (cases "j = k")
    case True
    then show ?thesis using out by (auto split: option.splits if_splits)
  next
    case False
    then show ?thesis using Cons.prems Cons.IH [of ?r] by auto
  qed
qed simp

lemma overlap_row_leaves:
  "distinct js \<Longrightarrow> i \<notin> set js \<Longrightarrow> i \<notin> removed \<Longrightarrow> i \<in> overlap_row tx hits i js removed \<Longrightarrow>
     \<exists>j \<in> set js. j \<notin> overlap_row tx hits i js removed"
proof (induction js arbitrary: removed)
  case (Cons j js)
  let ?r = "if j \<in> removed then removed
        else case overlap_victim tx (hits ! i) (hits ! j) of None \<Rightarrow> removed | Some first \<Rightarrow> insert (if first then i else j) removed"
  show ?case
  proof (cases "i \<in> ?r")
    case True
    then have "j \<notin> removed" "?r = insert i removed" using Cons.prems(3) Cons.prems(2) by (auto split: option.splits if_splits)
    then have "j \<notin> overlap_row tx hits i js ?r" using overlap_row_within [of tx hits i js ?r] Cons.prems by auto
    then show ?thesis by auto
  next
    case False
    then show ?thesis using Cons.prems Cons.IH [of ?r] by auto
  qed
qed simp

lemma overlap_rows_mono: "removed \<subseteq> overlap_rows tx hits is removed"
proof (induction "is" arbitrary: removed)
  case (Cons i "is")
  let ?r = "if i \<in> removed then removed else overlap_row tx hits i [Suc i..<length hits] removed"
  have "removed \<subseteq> ?r" using overlap_row_mono by auto
  then show ?case using Cons.IH [of ?r] by auto
qed simp

lemma overlap_rows_from:
  "k < i \<Longrightarrow> k \<notin> removed \<Longrightarrow> k \<notin> overlap_rows tx hits [i..<n] removed"
proof (induction "n - i" arbitrary: i removed)
  case (Suc d)
  let ?r = "if i \<in> removed then removed else overlap_row tx hits i [Suc i..<length hits] removed"
  have "k \<notin> ?r" using overlap_row_within [of tx hits i "[Suc i..<length hits]" removed] Suc.prems by auto
  moreover have "[i..<n] = i # [Suc i..<n]" using Suc.hyps(2) by (simp add: upt_conv_Cons)
  ultimately show ?case using Suc.hyps(1) [of "Suc i" ?r] Suc.hyps(2) Suc.prems by simp
qed simp

lemma overlap_rows_survivor:
  "k \<notin> removed \<Longrightarrow> i \<le> k \<Longrightarrow> k < length hits \<Longrightarrow>
     \<exists>m < length hits. m \<notin> overlap_rows tx hits [i..<length hits] removed"
proof (induction "length hits - i" arbitrary: i k removed)
  case (Suc d)
  let ?n = "length hits"
  let ?r = "if i \<in> removed then removed else overlap_row tx hits i [Suc i..<?n] removed"
  have rows: "overlap_rows tx hits [i..<?n] removed = overlap_rows tx hits [Suc i..<?n] ?r"
    using Suc.prems by (simp add: upt_conv_Cons)
  consider "i \<notin> ?r" | j where "j \<notin> ?r" "Suc i \<le> j" "j < ?n"
  proof (cases "i \<in> removed")
    case True
    then have "k \<noteq> i" using Suc.prems(1) by auto
    then show ?thesis using that(2) [of k] True Suc.prems by auto
  next
    case False
    show ?thesis
    proof (cases "i \<in> ?r")
      case True
      then obtain j where "j \<in> set [Suc i..<?n]" "j \<notin> ?r"
        using overlap_row_leaves [of "[Suc i..<?n]" i removed tx hits] False by auto
      then show ?thesis using that(2) [of j] by simp
    qed (rule that(1))
  qed
  then show ?case
  proof cases
    case 1
    then have "i \<notin> overlap_rows tx hits [i..<?n] removed" using overlap_rows_from [of i "Suc i" ?r tx hits ?n] rows by simp
    moreover have "i < ?n" using Suc.prems by simp
    ultimately show ?thesis by blast
  next
    case 2
    then show ?thesis using Suc.hyps(1) [of "Suc i" j ?r] Suc.hyps(2) rows by simp
  qed
qed simp

lemma overlap_rows_separates:
  "i \<in> set is \<Longrightarrow> i < j \<Longrightarrow> j < length hits \<Longrightarrow> i \<notin> overlap_rows tx hits is removed \<Longrightarrow>
     j \<notin> overlap_rows tx hits is removed \<Longrightarrow> overlap_victim tx (hits ! i) (hits ! j) = None"
proof (induction "is" arbitrary: removed)
  case (Cons m "is")
  let ?r = "if m \<in> removed then removed else overlap_row tx hits m [Suc m..<length hits] removed"
  have out: "i \<notin> ?r" "j \<notin> ?r" using Cons.prems(4,5) overlap_rows_mono [of ?r tx hits "is"] by auto
  show ?case
  proof (cases "i = m")
    case True
    then have "i \<notin> overlap_row tx hits i [Suc i..<length hits] removed" "j \<notin> overlap_row tx hits i [Suc i..<length hits] removed"
      using out overlap_row_mono [of removed tx hits i "[Suc i..<length hits]"] by (auto split: if_splits)
    then show ?thesis using overlap_row_separates [of i tx hits "[Suc i..<length hits]" removed j] Cons.prems(2,3) by simp
  next
    case False
    then show ?thesis using Cons.prems Cons.IH [of ?r] by simp
  qed
qed simp

text \<open>No two entries overlap, in the order of the list.\<close>

fun no_overlaps :: "text_ops \<Rightarrow> hit list \<Rightarrow> bool" where
  "no_overlaps tx [] = True"
| "no_overlaps tx (h # hs) = (list_all (\<lambda>k. overlap_victim tx h k = None) hs \<and> no_overlaps tx hs)"

lemma no_overlaps_map:
  "sorted_wrt (<) is \<Longrightarrow> (\<And>i j. i \<in> set is \<Longrightarrow> j \<in> set is \<Longrightarrow> i < j \<Longrightarrow> overlap_victim tx (hits ! i) (hits ! j) = None) \<Longrightarrow>
     no_overlaps tx (map ((!) hits) is)"
  by (induction "is") (auto simp: list_all_iff)

lemma remove_partial_overlaps_no_overlaps: "no_overlaps tx (remove_partial_overlaps tx hits)"
proof (cases "length hits \<le> 1")
  case True
  then show ?thesis by (cases hits) (auto simp: remove_partial_overlaps_def)
next
  case False
  then show ?thesis
    using overlap_rows_separates [of _ "[0..<length hits]" _ hits tx "{}"]
    by (simp add: remove_partial_overlaps_def Let_def) (rule no_overlaps_map, auto intro: sorted_wrt_filter)
qed

lemma remove_partial_overlaps_subseq: "subseq (remove_partial_overlaps tx hits) hits"
proof -
  have "subseq (map ((!) hits) (filter P [0..<length hits])) (map ((!) hits) [0..<length hits])" for P
    by (rule subseq_map) simp
  then show ?thesis by (simp add: remove_partial_overlaps_def Let_def map_nth)
qed

lemma remove_partial_overlaps_Nil: "remove_partial_overlaps tx hits = [] \<longleftrightarrow> hits = []"
proof
  assume e: "remove_partial_overlaps tx hits = []"
  show "hits = []"
  proof (rule ccontr)
    assume "hits \<noteq> []"
    then have "\<exists>m < length hits. m \<notin> overlap_rows tx hits [0..<length hits] {}"
      using overlap_rows_survivor [of 0 "{}" 0 hits tx] by simp
    then show False using e \<open>hits \<noteq> []\<close> by (auto simp: remove_partial_overlaps_def Let_def filter_empty_conv split: if_splits)
  qed
qed (simp add: remove_partial_overlaps_def)

subsection \<open>Stages\<close>

text \<open>A hit keeps its identity: chunk, document, kind and knowledge base.\<close>

definition same_source :: "hit \<Rightarrow> hit \<Rightarrow> bool" where
  "same_source a b \<longleftrightarrow> ht_id a = ht_id b \<and> ht_knowledge_id a = ht_knowledge_id b \<and> ht_chunk_type a = ht_chunk_type b \<and>
     ht_knowledge_base_id a = ht_knowledge_base_id b"

lemma same_source_refl [simp]: "same_source h h"
  by (simp add: same_source_def)

lemma same_source_trans: "same_source a b \<Longrightarrow> same_source b c \<Longrightarrow> same_source a c"
  by (simp add: same_source_def)

definition ids_of :: "hit \<Rightarrow> str set" where
  "ids_of h = insert (ht_id h) (set (ht_sub_chunk_id h))"

text \<open>What every stage promises: hits come from hits, and none disappears with all of them.\<close>

locale source_stage =
  fixes stage :: "hit list \<Rightarrow> hit list option"
  assumes sources: "stage hs = Some out \<Longrightarrow> h \<in> set out \<Longrightarrow> \<exists>c \<in> set hs. same_source h c"
    and not_emptied: "stage hs = Some out \<Longrightarrow> out = [] \<longleftrightarrow> hs = []"
begin

lemma source_of_source:
  "stage hs = Some out \<Longrightarrow> (\<And>c. c \<in> set hs \<Longrightarrow> \<exists>d \<in> set base. same_source c d) \<Longrightarrow> h \<in> set out \<Longrightarrow> \<exists>d \<in> set base. same_source h d"
  using sources same_source_trans by meson

end

text \<open>Stages before the deduplication also keep every chunk id, as a hit or inside one.\<close>

locale keeping_stage = source_stage +
  assumes keeps: "stage hs = Some out \<Longrightarrow> c \<in> set hs \<Longrightarrow> \<exists>h \<in> set out. ht_id c \<in> ids_of h"

lemma compose_source:
  assumes "source_stage f" "source_stage g"
  shows "source_stage (\<lambda>hs. Option.bind (f hs) g)"
proof
  fix hs out h
  assume "Option.bind (f hs) g = Some out" "h \<in> set out"
  then obtain mid where "f hs = Some mid" "g mid = Some out" "h \<in> set out" by (auto simp: bind_eq_Some_conv)
  then show "\<exists>c \<in> set hs. same_source h c"
    using source_stage.source_of_source [OF assms(2)] source_stage.sources [OF assms(1)] by metis
next
  fix hs out
  assume "Option.bind (f hs) g = Some out"
  then show "out = [] \<longleftrightarrow> hs = []"
    using source_stage.not_emptied [OF assms(1)] source_stage.not_emptied [OF assms(2)] by (auto simp: bind_eq_Some_conv)
qed

text \<open>A stage that rewrites each hit by itself.\<close>

lemma pointwise_stage:
  assumes "\<And>hs out. stage hs = Some out \<Longrightarrow> list_all2 (\<lambda>c h. same_source h c) hs out"
  shows "keeping_stage stage"
proof
  fix hs out h
  assume "stage hs = Some out" "h \<in> set out"
  then show "\<exists>c \<in> set hs. same_source h c" using assms [of hs out] by (metis list_all2_conv_all_nth in_set_conv_nth)
next
  fix hs out
  assume "stage hs = Some out"
  then show "out = [] \<longleftrightarrow> hs = []" using assms [of hs out] list_all2_lengthD by fastforce
next
  fix hs out c
  assume "stage hs = Some out" "c \<in> set hs"
  then obtain k where k: "k < length hs" "c = hs ! k" and all: "list_all2 (\<lambda>c h. same_source h c) hs out"
    using assms by (metis in_set_conv_nth)
  then have "same_source (out ! k) c" "out ! k \<in> set out" by (auto simp: list_all2_conv_all_nth)
  then show "\<exists>h \<in> set out. ht_id c \<in> ids_of h" unfolding ids_of_def same_source_def by (metis insertI1)
qed

subsection \<open>Grouping\<close>

lemma merge_pair_source: "same_source (merge_pair tx a c) a"
  by (simp add: merge_pair_def Let_def same_source_def)

lemma merge_pair_ids: "ids_of (merge_pair tx a c) = insert (ht_id c) (ids_of a)"
  by (auto simp: merge_pair_def Let_def ids_of_def add_sub_id_def)

lemma merge_groups_sources: "h \<in> set (merge_groups tx a i cs) \<Longrightarrow> \<exists>c \<in> set (a # cs). same_source h c"
proof (induction tx a i cs rule: merge_groups.induct)
  case (2 tx a i c cs)
  show ?case
  proof (cases "joins a i c")
    case True
    then obtain d where "d \<in> set (merge_pair tx a c # cs)" "same_source h d" using 2 by auto
    then show ?thesis using merge_pair_source same_source_trans by (metis list.set_intros(1,2) set_ConsD)
  next
    case False
    then show ?thesis using 2 by auto
  qed
qed simp

lemma merge_groups_ids: "i \<in> ids_of a \<union> set (map ht_id cs) \<Longrightarrow> \<exists>h \<in> set (merge_groups tx a n cs). i \<in> ids_of h"
proof (induction tx a n cs rule: merge_groups.induct)
  case (2 tx a n c cs)
  then show ?case by (cases "joins a n c") (auto simp: merge_pair_ids ids_of_def [of c])
qed simp

lemma merge_sequential_sources: "h \<in> set (merge_sequential_chunks tx cs) \<Longrightarrow> \<exists>c \<in> set cs. same_source h c"
  by (cases cs) (auto simp: merge_sequential_chunks_def by_score_def dest!: merge_groups_sources)

lemma merge_sequential_ids: "c \<in> set cs \<Longrightarrow> \<exists>h \<in> set (merge_sequential_chunks tx cs). ht_id c \<in> ids_of h"
proof (cases cs)
  case (Cons a rest)
  assume "c \<in> set cs"
  then have "ht_id c \<in> ids_of a \<union> set (map ht_id rest)" using Cons by (auto simp: ids_of_def)
  then show ?thesis using merge_groups_ids [of "ht_id c" a rest tx "ht_chunk_index a"] Cons
    by (simp add: merge_sequential_chunks_def by_score_def)
qed simp

lemma set_first_occurrences [simp]: "set (first_occurrences xs) = set xs"
  by (simp add: first_occurrences_def)

lemma unit_of_hit: "c \<in> set hs \<Longrightarrow> \<exists>u \<in> set (units hs). c \<in> set (unit_hits hs u)"
  by (auto simp: units_def unit_hits_def intro!: bexI [of _ "(ht_knowledge_id c, ht_chunk_type c)"])

lemma unit_hits_subset: "c \<in> set (unit_hits hs u) \<Longrightarrow> c \<in> set hs"
  by (simp add: unit_hits_def)

interpretation grouping: keeping_stage "\<lambda>hs. Some (group_and_merge_current_content tx hs)" for tx
proof
  fix hs out h
  assume "Some (group_and_merge_current_content tx hs) = Some out" "h \<in> set out"
  then show "\<exists>c \<in> set hs. same_source h c"
    by (auto simp: group_and_merge_current_content_def dest!: merge_sequential_sources) (metis unit_hits_subset)
next
  fix hs out c
  assume o: "Some (group_and_merge_current_content tx hs) = Some out" and c: "c \<in> set hs"
  obtain u where u: "u \<in> set (units hs)" "c \<in> set (sort_key (\<lambda>h. (ht_chunk_index h, ht_id h)) (unit_hits hs u))"
    using unit_of_hit [OF c] by auto
  obtain h where "h \<in> set (merge_sequential_chunks tx (sort_key (\<lambda>h. (ht_chunk_index h, ht_id h)) (unit_hits hs u)))" "ht_id c \<in> ids_of h"
    using merge_sequential_ids [OF u(2), of tx] by blast
  moreover from this have "h \<in> set out" using u(1) o by (auto simp: group_and_merge_current_content_def)
  ultimately show "\<exists>h \<in> set out. ht_id c \<in> ids_of h" by blast
next
  fix hs out
  assume o: "Some (group_and_merge_current_content tx hs) = Some out"
  have "hs = [] \<Longrightarrow> out = []" using o by (auto simp: group_and_merge_current_content_def units_def first_occurrences_def)
  moreover have "out \<noteq> []" if "hs \<noteq> []"
  proof -
    have "hd hs \<in> set hs" using that by simp
    then obtain u where u: "u \<in> set (units hs)" "hd hs \<in> set (unit_hits hs u)" using unit_of_hit by blast
    then have c: "hd hs \<in> set (sort_key (\<lambda>h. (ht_chunk_index h, ht_id h)) (unit_hits hs u))" by simp
    obtain h where "h \<in> set (merge_sequential_chunks tx (sort_key (\<lambda>h. (ht_chunk_index h, ht_id h)) (unit_hits hs u)))"
      using merge_sequential_ids [OF c, of tx] by blast
    then have "h \<in> set out" using u(1) o by (auto simp: group_and_merge_current_content_def)
    then show ?thesis by auto
  qed
  ultimately show "out = [] \<longleftrightarrow> hs = []" by blast
qed

lemma group_sorted: "sorted (map search_result_sort_key (group_and_merge_current_content tx hs))"
  by (simp add: group_and_merge_current_content_def)

end
