(* ===== verification/Merge_Stages.thy ===== *)
theory Merge_Stages
  imports Merge_Laws
begin

text \<open>
  The stages of the merge step as interpretations of the contract of hit stages, and when the walk
  over the neighbours of a short body ends.
\<close>

subsection \<open>Parents, FAQ answers and neighbours\<close>

lemma those_list_all2: "those (map f xs) = Some ys \<Longrightarrow> list_all2 (\<lambda>x y. f x = Some y) xs ys"
  by (induction xs arbitrary: ys) (auto split: option.splits)

lemma assign_scoped_source: "assign_scoped_image_info tx alnum scoped i h = Some h1 \<Longrightarrow> same_source h1 h"
  by (auto simp: assign_scoped_image_info_def same_source_def split: option.splits if_splits)

lemma resolve_hit_source: "resolve_hit tx alnum pm scoped h = Some h1 \<Longrightarrow> same_source h1 h"
  by (auto simp: resolve_hit_def resolve_text_hit_def resolve_image_hit_def Let_def bind_eq_Some_conv same_source_def
      split: option.splits if_splits dest!: assign_scoped_source)

lemma list_all2_same: "list_all2 (\<lambda>c h. same_source h c) hs hs"
  by (simp add: list_all2_conv_all_nth)

interpretation parents: keeping_stage "resolve_parent_chunks tx alnum repo tenant_id" for tx alnum repo tenant_id
proof (rule pointwise_stage)
  fix hs out
  have "list_all2 (\<lambda>c h. same_source h c) hs out" if "those (map (resolve_hit tx alnum pm scoped) hs) = Some out" for pm scoped
    using those_list_all2 [OF that] by (rule list_all2_mono) (rule resolve_hit_source)
  then show "resolve_parent_chunks tx alnum repo tenant_id hs = Some out \<Longrightarrow> list_all2 (\<lambda>c h. same_source h c) hs out"
    by (auto simp: resolve_parent_chunks_def Let_def bind_eq_Some_conv list_all2_same split: option.splits if_splits)
qed

interpretation faq: keeping_stage "\<lambda>hs. Some (populate_faq_answers repo tenant_id hs)" for repo tenant_id
  by (rule pointwise_stage)
    (auto simp: populate_faq_answers_def Let_def list_all2_conv_all_nth same_source_def split: option.splits if_splits)

lemma expand_hit_source: "expand_hit cs known h = Some (h1, known1) \<Longrightarrow> same_source h1 h"
  by (auto simp: expand_hit_def Let_def same_source_def split: option.splits if_splits prod.splits)

lemma expand_hits_source: "expand_hits cs known hs = Some out \<Longrightarrow> list_all2 (\<lambda>c h. same_source h c) hs out"
  by (induction hs arbitrary: known out) (auto split: option.splits prod.splits dest: expand_hit_source)

interpretation neighbours: keeping_stage "expand_short_context_with_neighbors repo tenant_id" for repo tenant_id
  by (rule pointwise_stage)
    (auto simp: expand_short_context_with_neighbors_def Let_def list_all2_same split: option.splits if_splits dest: expand_hits_source)

text \<open>Final grouping, deduplication and removal of overlaps.\<close>

lemma subseq_set: "subseq xs ys \<Longrightarrow> x \<in> set xs \<Longrightarrow> x \<in> set ys"
  using list_emb_set [of "(=)"] by metis

lemma finish_merge_subseq: "subseq (finish_merge tx hs) (group_and_merge_current_content tx hs)"
  unfolding finish_merge_def remove_duplicate_results_def
  using remove_partial_overlaps_subseq dedup_hits_subseq subseq_order.order_trans by blast

interpretation finishing: source_stage "\<lambda>hs. Some (finish_merge tx hs)" for tx
proof
  fix hs out h
  assume "Some (finish_merge tx hs) = Some out" "h \<in> set out"
  then show "\<exists>c \<in> set hs. same_source h c"
    using grouping.sources [of tx hs] subseq_set [OF finish_merge_subseq] by auto
next
  fix hs out
  assume "Some (finish_merge tx hs) = Some out"
  then show "out = [] \<longleftrightarrow> hs = []"
    using grouping.not_emptied [of tx hs] by (auto simp: finish_merge_def remove_partial_overlaps_Nil)
qed

text \<open>All stages of the step behind the choice of the candidates.\<close>

definition merge_stages :: "text_ops \<Rightarrow> (rune \<Rightarrow> bool) \<Rightarrow> chunk_source option \<Rightarrow> int \<Rightarrow> hit list \<Rightarrow> hit list option" where
  "merge_stages tx alnum repo tenant_id hs =
     Option.bind (resolve_parent_chunks tx alnum repo tenant_id hs) (\<lambda>r.
     Option.bind (Some (group_and_merge_current_content tx r)) (\<lambda>g.
     Option.bind (Some (populate_faq_answers repo tenant_id g)) (\<lambda>f.
     Option.bind (expand_short_context_with_neighbors repo tenant_id f) (\<lambda>e. Some (finish_merge tx e)))))"

interpretation stages: source_stage "merge_stages tx alnum repo tenant_id" for tx alnum repo tenant_id
  unfolding merge_stages_def
  by (intro compose_source parents.source_stage_axioms grouping.source_stage_axioms faq.source_stage_axioms
      neighbours.source_stage_axioms finishing.source_stage_axioms)

lemma merge_step_stages:
  "merge_step tx alnum repo tenant_id True history rewrite query s = Some (Inr s1) \<Longrightarrow>
     (if merge_candidates tx history rewrite query s = [] then s1 = s
      else \<exists>e. merge_stages tx alnum repo tenant_id (merge_candidates tx history rewrite query s) = Some (finish_merge tx e) \<and>
        s1 = s\<lparr>hs_merge_result := finish_merge tx e\<rparr>)"
  by (auto simp: merge_step_def merge_stages_def Let_def split: option.splits if_splits)

subsection \<open>The walk ends\<close>

text \<open>Ranks that fall along the links of every row the table gives.\<close>

definition chains_end :: "(str \<Rightarrow> nat) \<Rightarrow> (str \<Rightarrow> nat) \<Rightarrow> chunk_source \<Rightarrow> bool" where
  "chains_end f g cs \<longleftrightarrow>
     (\<forall>ids rows r. cs_by_ids cs ids = Some rows \<and> r \<in> set rows \<longrightarrow>
        (cr_pre_chunk_id r \<noteq> [] \<longrightarrow> f (cr_pre_chunk_id r) < f (cr_id r)) \<and>
        (cr_next_chunk_id r \<noteq> [] \<longrightarrow> g (cr_next_chunk_id r) < g (cr_id r)))"

definition falls :: "(str \<Rightarrow> nat) \<Rightarrow> (str \<Rightarrow> nat) \<Rightarrow> str \<Rightarrow> chunk_row \<Rightarrow> bool" where
  "falls f g i r \<longleftrightarrow>
     (cr_pre_chunk_id r \<noteq> [] \<longrightarrow> f (cr_pre_chunk_id r) < f i) \<and> (cr_next_chunk_id r \<noteq> [] \<longrightarrow> g (cr_next_chunk_id r) < g i)"

definition known_falls :: "(str \<Rightarrow> nat) \<Rightarrow> (str \<Rightarrow> nat) \<Rightarrow> known_chunks \<Rightarrow> bool" where
  "known_falls f g known \<longleftrightarrow> (\<forall>i r. map_of known i = Some (Some r) \<longrightarrow> falls f g i r)"

lemma known_falls_update:
  "known_falls f g known \<Longrightarrow> (\<And>r. v = Some r \<Longrightarrow> falls f g i r) \<Longrightarrow> known_falls f g (AList.update i v known)"
  by (simp add: known_falls_def update_conv')

lemma known_falls_add:
  "known_falls f g known \<Longrightarrow> (\<And>r. r \<in> set rows \<Longrightarrow> falls f g (cr_id r) r) \<Longrightarrow>
     known_falls f g (fold (\<lambda>r. AList.update (cr_id r) (Some r)) rows known)"
proof (induction rows arbitrary: known)
  case (Cons r rows)
  have "known_falls f g (AList.update (cr_id r) (Some r) known)"
    by (rule known_falls_update [OF Cons.prems(1)]) (use Cons.prems(2) in auto)
  then show ?case using Cons.IH Cons.prems(2) by simp
qed simp

lemma known_falls_missing:
  "known_falls f g known \<Longrightarrow> known_falls f g (fold (\<lambda>i. AList.update i None) ids known)"
  by (induction ids arbitrary: known) (auto intro: known_falls_update)

lemma chains_end_rows: "chains_end f g cs \<Longrightarrow> cs_by_ids cs ids = Some rows \<Longrightarrow> r \<in> set rows \<Longrightarrow> falls f g (cr_id r) r"
  unfolding chains_end_def falls_def by blast

lemma fetch_falls: "chains_end f g cs \<Longrightarrow> known_falls f g known \<Longrightarrow> known_falls f g (fetch_chunks_if_missing cs ids known)"
  unfolding fetch_chunks_if_missing_def Let_def
  by (auto intro!: known_falls_missing known_falls_add split: option.splits dest: chains_end_rows)

lemma known_row_falls: "known_falls f g known \<Longrightarrow> known_row known i = Some r \<Longrightarrow> falls f g i r"
  by (auto simp: known_falls_def known_row_def split: option.splits)

text \<open>How far the two cursors still are from their ends.\<close>

definition cursor_rank :: "(str \<Rightarrow> nat) \<Rightarrow> str \<Rightarrow> nat" where
  "cursor_rank f i = (if i = [] then 0 else Suc (f i))"

lemma step_prev_falls:
  assumes "chains_end f g cs" "known_falls f g (wk_known w)"
  shows "known_falls f g (wk_known (fst (step_prev cs base w))) \<and>
     wk_next_cursor (fst (step_prev cs base w)) = wk_next_cursor w \<and>
     (if snd (step_prev cs base w) then cursor_rank f (wk_prev_cursor (fst (step_prev cs base w))) < cursor_rank f (wk_prev_cursor w)
      else cursor_rank f (wk_prev_cursor (fst (step_prev cs base w))) \<le> cursor_rank f (wk_prev_cursor w))"
  using fetch_falls [OF assms, of "[wk_prev_cursor w]"] known_row_falls [OF fetch_falls [OF assms, of "[wk_prev_cursor w]"]] assms(2)
  by (auto simp: step_prev_def Let_def cursor_rank_def falls_def split: option.splits if_splits)

lemma step_next_falls:
  assumes "chains_end f g cs" "known_falls f g (wk_known w)"
  shows "known_falls f g (wk_known (fst (step_next cs base w))) \<and>
     wk_prev_cursor (fst (step_next cs base w)) = wk_prev_cursor w \<and>
     (if snd (step_next cs base w) then cursor_rank g (wk_next_cursor (fst (step_next cs base w))) < cursor_rank g (wk_next_cursor w)
      else cursor_rank g (wk_next_cursor (fst (step_next cs base w))) \<le> cursor_rank g (wk_next_cursor w))"
  using fetch_falls [OF assms, of "[wk_next_cursor w]"] known_row_falls [OF fetch_falls [OF assms, of "[wk_next_cursor w]"]] assms(2)
  by (auto simp: step_next_def Let_def cursor_rank_def falls_def split: option.splits if_splits)

lemma expand_walk_ends:
  assumes "chains_end f g cs" "known_falls f g (wk_known w)"
  shows "\<exists>m w1. expand_walk cs base w = Some (m, w1) \<and> known_falls f g (wk_known w1)"
  using assms(2)
proof (induction "cursor_rank f (wk_prev_cursor w) + cursor_rank g (wk_next_cursor w)" arbitrary: w rule: less_induct)
  case less
  let ?w1 = "fst (step_prev cs base w)"
  let ?w2 = "fst (step_next cs base ?w1)"
  note p = step_prev_falls [OF assms(1) less.prems, of base]
  have k1: "known_falls f g (wk_known ?w1)" using p by blast
  note n = step_next_falls [OF assms(1) k1, of base]
  have go: "\<exists>m w1. expand_walk cs base ?w2 = Some (m, w1) \<and> known_falls f g (wk_known w1)"
    if "snd (step_prev cs base w) \<or> snd (step_next cs base ?w1)"
    by (rule less.hyps) (use p n that in \<open>auto split: if_splits\<close>)
  show ?case using go less.prems k1 n by (subst expand_walk.simps) (auto simp: Let_def)
qed

lemma start_walk_falls:
  "chains_end f g cs \<Longrightarrow> known_falls f g known \<Longrightarrow> known_falls f g (wk_known (start_walk cs base known))"
  by (simp add: start_walk_def Let_def fetch_falls)

lemma expand_hit_ends:
  assumes "chains_end f g cs" "known_falls f g known"
  shows "\<exists>h1 known1. expand_hit cs known h = Some (h1, known1) \<and> known_falls f g known1"
proof -
  have k: "known_falls f g (fetch_chunks_if_missing cs [ht_id h] known)" by (rule fetch_falls [OF assms])
  have w: "\<exists>m w1. expand_walk cs base (start_walk cs base (fetch_chunks_if_missing cs [ht_id h] known)) = Some (m, w1) \<and>
      known_falls f g (wk_known w1)" for base
    by (rule expand_walk_ends [OF assms(1) start_walk_falls [OF assms(1) k]])
  show ?thesis
  proof (cases "known_row (fetch_chunks_if_missing cs [ht_id h] known) (ht_id h)")
    case None
    then show ?thesis using k assms(2) by (simp add: expand_hit_def)
  next
    case (Some base)
    obtain m w1 where "expand_walk cs base (start_walk cs base (fetch_chunks_if_missing cs [ht_id h] known)) = Some (m, w1)"
      "known_falls f g (wk_known w1)" using w [of base] by blast
    then show ?thesis using k assms(2) Some by (simp add: expand_hit_def Let_def)
  qed
qed

lemma expand_hits_end: "chains_end f g cs \<Longrightarrow> known_falls f g known \<Longrightarrow> expand_hits cs known hs \<noteq> None"
proof (induction hs arbitrary: known)
  case (Cons h hs)
  obtain h1 known1 where "expand_hit cs known h = Some (h1, known1)" "known_falls f g known1"
    using expand_hit_ends [OF Cons.prems] by blast
  then show ?case using Cons.IH [OF Cons.prems(1)] by auto
qed simp

lemma expand_ends:
  assumes "\<And>cs. repo = Some cs \<Longrightarrow> chains_end f g cs"
  shows "expand_short_context_with_neighbors repo tenant_id hs \<noteq> None"
proof (cases repo)
  case (Some cs)
  have k: "known_falls f g (fold (\<lambda>r. AList.update (cr_id r) (Some r)) rows known)"
    if "known_falls f g known" "cs_by_ids cs ids = Some rows" for rows ids known
    using that chains_end_rows [OF assms [OF Some]] by (intro known_falls_add) auto
  have "known_falls f g []" by (simp add: known_falls_def)
  then show ?thesis using Some k expand_hits_end [OF assms [OF Some]]
    by (auto simp: expand_short_context_with_neighbors_def Let_def split: option.splits)
qed (simp add: expand_short_context_with_neighbors_def)

end
