(* ===== verification/Merge_Properties.thy ===== *)
theory Merge_Properties
  imports Merge_Stages "HOL-Library.Multiset"
begin

text \<open>
  Properties of the merge step: joined bodies, duplicates, the shape of its result, when it returns
  and when it never does, and the cut to the best hits.
\<close>

text \<open>Joining two bodies never drops text: whatever branch is taken, both bodies are contiguous parts of
  the result, and the result is no longer than both with the separator.\<close>

theorem joined_bodies_kept:
  "contains_str acc (join_chunk_content acc nxt separator) \<and> contains_str nxt (join_chunk_content acc nxt separator) \<and>
   length (join_chunk_content acc nxt separator) \<le> length acc + length separator + length nxt"
  using join_keeps_both [of acc nxt separator] by (auto simp: join_chunk_content_def split: option.splits)

lemma dedup_idempotent: "no_duplicates tx hs \<Longrightarrow> (\<And>h. h \<in> set hs \<Longrightarrow> ht_id h \<notin> ids \<and> (signature_of tx h \<noteq> [] \<longrightarrow> signature_of tx h \<notin> sigs)) \<Longrightarrow>
    dedup_hits tx ids sigs hs = hs"
proof (induction hs arbitrary: ids sigs)
  case (Cons a hs)
  let ?sigs = "if signature_of tx a = [] then sigs else insert (signature_of tx a) sigs"
  have "dedup_hits tx (insert (ht_id a) ids) ?sigs hs = hs"
    by (rule Cons.IH) (use Cons.prems in \<open>auto simp: list_all_iff duplicates_def split: if_splits\<close>)
  then show ?case using Cons.prems(2) [of a] by (auto simp: dedup_hits_Cons)
qed simp

text \<open>Deduplication keeps the first of the hits with the same chunk id or the same signature of their
  text: the result is a subsequence without duplicates, every hit duplicates a kept one, and a second
  pass changes nothing.\<close>

theorem dedup_keeps_first:
  "subseq (remove_duplicate_results tx hits) hits \<and> no_duplicates tx (remove_duplicate_results tx hits) \<and>
   list_all (\<lambda>h. list_ex (\<lambda>k. duplicates tx k h) (remove_duplicate_results tx hits)) hits \<and>
   remove_duplicate_results tx (remove_duplicate_results tx hits) = remove_duplicate_results tx hits"
proof -
  let ?out = "dedup_hits tx {} {} hits"
  have "dedup_hits tx {} {} ?out = ?out" by (rule dedup_idempotent [OF dedup_hits_no_duplicates]) simp
  then show ?thesis
    using dedup_hits_covers [of _ hits "{}" tx "{}"]
    by (auto simp: remove_duplicate_results_def dedup_hits_subseq dedup_hits_no_duplicates list_all_iff list_ex_iff)
qed

lemma sorted_subseq: "subseq xs ys \<Longrightarrow> sorted (map f ys) \<Longrightarrow> sorted (map f xs)"
proof (induction rule: list_emb.induct)
  case (list_emb_Cons2 x y xs ys)
  then show ?case using subseq_set by fastforce
qed auto

lemma finish_merge_shape:
  "sorted (map search_result_sort_key (finish_merge tx hs)) \<and> no_duplicates tx (finish_merge tx hs) \<and> no_overlaps tx (finish_merge tx hs)"
  using sorted_subseq [OF finish_merge_subseq group_sorted] remove_partial_overlaps_no_overlaps
    no_duplicates_subseq [OF remove_partial_overlaps_subseq dedup_hits_no_duplicates]
  by (auto simp: finish_merge_def remove_duplicate_results_def)

text \<open>C8: when the step returns with retrieval on and some candidate, its result is not empty, is ordered by
  score and the stable keys, has no two hits with the same chunk or the same text and no two that
  overlap, and every hit is one of the candidates: same chunk, document, kind and knowledge base.\<close>

theorem merge_result_shape:
  assumes "merge_step tx alnum repo tenant_id True history rewrite query s = Some (Inr s1)"
    and "merge_candidates tx history rewrite query s \<noteq> []"
  shows "hs_merge_result s1 \<noteq> [] \<and> sorted (map search_result_sort_key (hs_merge_result s1)) \<and>
    distinct (map ht_id (hs_merge_result s1)) \<and> no_duplicates tx (hs_merge_result s1) \<and> no_overlaps tx (hs_merge_result s1) \<and>
    (\<forall>h \<in> set (hs_merge_result s1). \<exists>c \<in> set (merge_candidates tx history rewrite query s). same_source h c)"
proof -
  obtain e where e: "merge_stages tx alnum repo tenant_id (merge_candidates tx history rewrite query s) = Some (finish_merge tx e)"
    "s1 = s\<lparr>hs_merge_result := finish_merge tx e\<rparr>"
    using merge_step_stages [OF assms(1)] assms(2) by auto
  have "finish_merge tx e \<noteq> []" using stages.not_emptied [OF e(1)] assms(2) by simp
  then show ?thesis
    using finish_merge_shape [of tx e] no_duplicates_distinct stages.sources [OF e(1)] e(2) by auto
qed

text \<open>C9: when the links of the chunk table run out (ranks fall along the previous and along the next links)
  the step returns.\<close>

theorem merge_step_returns:
  assumes "\<And>cs. repo = Some cs \<Longrightarrow> chains_end f g cs"
  shows "\<exists>r. merge_step tx alnum repo tenant_id needs history rewrite query s = Some r"
proof -
  have "expand_short_context_with_neighbors repo tenant_id hs \<noteq> None" for hs
    by (rule expand_ends) (rule assms)
  then show ?thesis by (auto simp: merge_step_def Let_def split: option.splits)
qed








subsection \<open>The best hits\<close>

text \<open>The cut keeps, in the order of score and stable keys, as many hits as asked for (all of them when
  the number is not positive), and no hit it drops is better than one it keeps.\<close>

theorem filter_top_k_best:
  "\<exists>dropped. mset (filter_top_k hits k @ dropped) = mset hits \<and>
     sorted (map search_result_sort_key (filter_top_k hits k @ dropped)) \<and>
     length (filter_top_k hits k) = (if 0 < k then min (nat k) (length hits) else length hits)"
proof -
  let ?o = "sort_key search_result_sort_key hits"
  have "filter_top_k hits k = take (if 0 < k then nat k else length hits) ?o" by (auto simp: filter_top_k_def Let_def)
  then have "filter_top_k hits k @ drop (if 0 < k then nat k else length hits) ?o = ?o"
    "length (filter_top_k hits k) = (if 0 < k then min (nat k) (length hits) else length hits)" by auto
  then show ?thesis by (metis mset_sort sorted_sort_key)
qed

subsection \<open>Witnesses\<close>

definition sample_ops :: text_ops where
  "sample_ops = \<lparr>tx_lower = \<lambda>c. [c], tx_punct = \<lambda>c. False, tx_md5 = \<lambda>s. s, tx_loads = \<lambda>s. None, tx_dumps = \<lambda>j. []\<rparr>"

definition sample_hit :: "str \<Rightarrow> str \<Rightarrow> hit" where
  "sample_hit i content = \<lparr>ht_id = i, ht_content = content, ht_knowledge_id = lit ''doc'', ht_chunk_index = 0, ht_knowledge_title = [],
     ht_start_at = 0, ht_end_at = 0, ht_seq = 0, ht_score = 1, ht_match_type = EMBEDDING, ht_sub_chunk_id = [], ht_metadata = [],
     ht_chunk_type = CHUNK_TYPE_TEXT, ht_parent_chunk_id = [], ht_image_info = [], ht_knowledge_filename = [],
     ht_knowledge_source = [], ht_knowledge_channel = [], ht_chunk_metadata = None, ht_matched_content = [],
     ht_knowledge_description = [], ht_knowledge_custom_metadata = [], ht_knowledge_base_id = []\<rparr>"

definition sample_row :: "str \<Rightarrow> str \<Rightarrow> chunk_row" where
  "sample_row i pre = \<lparr>cr_id = i, cr_content = lit ''short'', cr_knowledge_id = lit ''doc'', cr_chunk_type = CHUNK_TYPE_TEXT,
     cr_chunk_index = 0, cr_parent_chunk_id = [], cr_pre_chunk_id = pre, cr_next_chunk_id = [], cr_image_info = [], cr_metadata = None\<rparr>"

definition sample_table :: "chunk_row list \<Rightarrow> chunk_source" where
  "sample_table rows = \<lparr>cs_by_ids = \<lambda>ids. Some (filter (\<lambda>r. cr_id r \<in> set ids) rows), cs_by_parents = \<lambda>ids. Some []\<rparr>"

lemma merge_result_shape_witness:
  "\<exists>s1. let s = \<lparr>hs_search_result = [], hs_rerank_result = [sample_hit (lit ''a'') (lit ''text''), sample_hit (lit ''a'') (lit ''text'')],
            hs_merge_result = []\<rparr>
     in merge_step sample_ops (\<lambda>c. False) None 1 True [] [] [] s = Some (Inr s1) \<and> hs_merge_result s1 \<noteq> [] \<and>
       distinct (map ht_id (hs_merge_result s1))"
proof -
  let ?s = "\<lparr>hs_search_result = [], hs_rerank_result = [sample_hit (lit ''a'') (lit ''text''), sample_hit (lit ''a'') (lit ''text'')],
    hs_merge_result = []\<rparr>"
  have c: "merge_candidates sample_ops [] [] [] ?s \<noteq> []"
    by (simp add: merge_candidates_def inject_history_results_def filter_history_results_def get_search_result_from_history_def select_input_def)
  have "\<exists>s1. merge_step sample_ops (\<lambda>c. False) None 1 True [] [] [] ?s = Some (Inr s1)"
    by (simp add: merge_step_def resolve_parent_chunks_def expand_short_context_with_neighbors_def Let_def)
  then obtain s1 where m: "merge_step sample_ops (\<lambda>c. False) None 1 True [] [] [] ?s = Some (Inr s1)" by blast
  show ?thesis using merge_result_shape [OF m c] m by auto
qed

lemma merge_step_returns_witness:
  "\<exists>r. merge_step sample_ops (\<lambda>c. False) (Some (sample_table [sample_row (lit ''b'') (lit ''a''), sample_row (lit ''a'') []])) 1 True [] [] []
     \<lparr>hs_search_result = [], hs_rerank_result = [sample_hit (lit ''b'') (lit ''short'')], hs_merge_result = []\<rparr> = Some r"
  by (rule merge_step_returns [where f = "\<lambda>i. if i = lit ''a'' then 0 else 1" and g = "\<lambda>i. 0"])
    (auto simp: chains_end_def sample_table_def sample_row_def)


end
