(* ===== verification/Rerank.thy ===== *)
theory Rerank
  imports Merge_Hits
begin

text \<open>
  The rerank step, src/src/core/chat/pipeline/steps/rerank.py: enriched passages, the call of the
  model with its thresholds and fall-backs, composite scores and maximal marginal relevance. The
  cleaning of Markdown by regular expressions and the model are parameters; arithmetic is that of
  doubles.
\<close>

subsection \<open>Passages\<close>

fun question_strings :: "json list \<Rightarrow> str list" where
  "question_strings [] = []"
| "question_strings (JObj e # js) =
     (let q = str_field (lit ''question'') e in if q = [] then question_strings js else q # question_strings js)"
| "question_strings (_ # js) = question_strings js"

definition generated_question_strings :: "json_object \<Rightarrow> str list" where
  "generated_question_strings meta = (case map_of meta (lit ''generated_questions'') of Some (JArr js) \<Rightarrow> question_strings js | _ \<Rightarrow> [])"

definition image_texts :: "json_object list \<Rightarrow> str list" where
  "image_texts infos = filter (\<lambda>t. t \<noteq> []) (concat (map (\<lambda>i. [str_field (lit ''caption'') i, str_field (lit ''ocr_text'') i]) infos))"

definition get_enriched_passage :: "text_ops \<Rightarrow> (str \<Rightarrow> str) \<Rightarrow> hit \<Rightarrow> str" where
  "get_enriched_passage tx clean h =
     (let combined = clean (ht_content h);
          images = (if ht_image_info h = [] then []
                    else case decode_image_infos tx (ht_image_info h) of None \<Rightarrow> [] | Some infos \<Rightarrow> image_texts infos);
          questions = (case ht_chunk_metadata h of None \<Rightarrow> [] | Some meta \<Rightarrow> generated_question_strings meta);
          enrichments = images @ (if questions = [] then [] else [join_with (lit ''; '') questions])
      in if enrichments = [] then combined
         else (if combined = [] then [] else combined @ [10, 10]) @ join_with [10] enrichments)"

subsection \<open>Scores\<close>

definition composite_score :: "text_ops \<Rightarrow> hit \<Rightarrow> rat \<Rightarrow> rat \<Rightarrow> rat" where
  "composite_score tx h model_score base_score =
     (let source_weight = (if lower_str (tx_lower tx) (ht_knowledge_source h) = lit ''web_search'' then fl64 (95 / 100) else 1);
          composite = fl64 (fl64 (fl64 (fl64 (6 / 10) * model_score) + fl64 (fl64 (3 / 10) * base_score)) +
            fl64 (fl64 (1 / 10) * source_weight))
      in min (max composite 0) 1)"

definition MMR_LAMBDA :: rat where "MMR_LAMBDA = fl64 (7 / 10)"
definition DEFAULT_FALLBACK_MIN_SCORE :: rat where "DEFAULT_FALLBACK_MIN_SCORE = fl64 (15 / 100)"
definition DEGRADE_THRESHOLD :: rat where "DEGRADE_THRESHOLD = fl64 (3 / 10)"

text \<open>Whether a target disables the recall thresholds.\<close>

definition rerank_fallback_min_score :: "bool list \<Rightarrow> rat" where
  "rerank_fallback_min_score targets = (if list_ex id targets then 0 else DEFAULT_FALLBACK_MIN_SCORE)"

subsection \<open>Maximal marginal relevance\<close>

definition redundancy_of :: "str set \<Rightarrow> str set list \<Rightarrow> rat" where
  "redundancy_of tokens selected = fold (\<lambda>s r. let similarity = jaccard tokens s in if r < similarity then similarity else r) selected 0"

definition mmr_score :: "rat \<Rightarrow> hit \<Rightarrow> str set \<Rightarrow> str set list \<Rightarrow> rat" where
  "mmr_score lambda h tokens selected =
     fl64 (fl64 (lambda * ht_score h) - fl64 (fl64 (1 - lambda) * redundancy_of tokens selected))"

text \<open>The inner loop: the first index with the best score above \<open>-1\<close> among those not selected.\<close>

definition best_index :: "rat \<Rightarrow> hit list \<Rightarrow> str set list \<Rightarrow> nat list \<Rightarrow> nat option" where
  "best_index lambda hits tokens selected =
     fst (fold (\<lambda>i (best, score).
       if i \<in> set selected then (best, score)
       else let m = mmr_score lambda (hits ! i) (tokens ! i) (map ((!) tokens) selected)
            in if score < m then (Some i, m) else (best, score)) [0..<length hits] (None, -1))"

text \<open>The outer loop, with its bound on the number of turns as the first argument.\<close>

fun mmr_loop :: "nat \<Rightarrow> rat \<Rightarrow> hit list \<Rightarrow> str set list \<Rightarrow> nat list \<Rightarrow> nat list" where
  "mmr_loop 0 lambda hits tokens selected = selected"
| "mmr_loop (Suc k) lambda hits tokens selected =
     (if length hits \<le> length selected then selected
      else case best_index lambda hits tokens selected of
        None \<Rightarrow> selected
      | Some i \<Rightarrow> mmr_loop k lambda hits tokens (selected @ [i]))"

definition apply_mmr :: "text_ops \<Rightarrow> (str \<Rightarrow> str) \<Rightarrow> hit list \<Rightarrow> nat \<Rightarrow> rat \<Rightarrow> hit list" where
  "apply_mmr tx clean hits k lambda =
     map ((!) hits) (mmr_loop k lambda hits (map (\<lambda>h. tokenize_simple tx (get_enriched_passage tx clean h)) hits) [])"

subsection \<open>The step\<close>

record rank_result =
  rr_index :: int
  rr_score :: rat

record rerank_config =
  rc_model_id :: str
  rc_query :: str
  rc_threshold :: rat
  rc_top_k :: int
  rc_faq_priority :: bool
  rc_faq_boost :: rat
  rc_targets :: "bool list"

text \<open>The model answers from the number of calls before; \<open>None\<close> is an exception.\<close>

type_synonym reranker = "nat \<Rightarrow> str \<Rightarrow> str list \<Rightarrow> rank_result list option"

definition rank_filter :: "bool list \<Rightarrow> rat \<Rightarrow> nat \<Rightarrow> rank_result list \<Rightarrow> rank_result list" where
  "rank_filter targets threshold n resp =
     (let kept = filter (\<lambda>r. rr_index r < int n \<and> threshold \<le> rr_score r) resp
      in if kept = [] \<and> resp \<noteq> [] \<and> rerank_fallback_min_score targets \<le> rr_score (hd resp) then [hd resp] else kept)"

text \<open>The passages are not blank here; without one the model is not called.\<close>

definition rerank_call :: "reranker \<Rightarrow> nat \<Rightarrow> rerank_config \<Rightarrow> rat \<Rightarrow> str list \<Rightarrow> rank_result list option" where
  "rerank_call model n cfg threshold passages =
     (let clean = filter (\<lambda>p. strip p \<noteq> []) passages
      in if clean = [] then Some []
         else map_option (rank_filter (rc_targets cfg) threshold (length clean)) (model n (rc_query cfg) clean))"

text \<open>\<open>f"{x:.4f}"\<close>.\<close>

definition format4 :: "rat \<Rightarrow> str" where
  "format4 x =
     (let n = nat (round_half_even (\<bar>x\<bar> * 10000)); f = n mod 10000
      in (if x < 0 then [45] else []) @ decimal_digits (n div 10000) @ [46, 48 + f div 1000, 48 + f div 100 mod 10, 48 + f div 10 mod 10, 48 + f mod 10])"

text \<open>A list read with a Python index, which may count from the end; \<open>None\<close> is an IndexError.\<close>

definition py_index :: "'a list \<Rightarrow> int \<Rightarrow> 'a option" where
  "py_index xs i =
     (if 0 \<le> i then (if i < int (length xs) then Some (xs ! nat i) else None)
      else if - int (length xs) \<le> i then Some (xs ! nat (int (length xs) + i)) else None)"

definition rescored :: "text_ops \<Rightarrow> rerank_config \<Rightarrow> hit \<Rightarrow> rat \<Rightarrow> hit" where
  "rescored tx cfg h model_score =
     (let base_score = ht_score h;
          u = h\<lparr>ht_score := composite_score tx h model_score base_score,
                ht_metadata := AList.update (lit ''model_score'') (format4 model_score)
                  (AList.update (lit ''base_score'') (format4 base_score) (ht_metadata h))\<rparr>
      in if rc_faq_priority cfg \<and> 1 < rc_faq_boost cfg \<and> ht_chunk_type u = CHUNK_TYPE_FAQ
         then u\<lparr>ht_score := min (fl64 (ht_score u * rc_faq_boost cfg)) 1,
                ht_metadata := AList.update (lit ''faq_original_score'') (format4 (ht_score u))
                  (AList.update (lit ''faq_boosted'') (lit ''true'') (ht_metadata u))\<rparr>
         else u)"

datatype plugin_error = GET_RERANK_MODEL | SEARCH_NOTHING | INDEX_ERROR

fun rerank_hits :: "text_ops \<Rightarrow> rerank_config \<Rightarrow> hit list \<Rightarrow> rank_result list \<Rightarrow> hit list option" where
  "rerank_hits tx cfg candidates [] = Some []"
| "rerank_hits tx cfg candidates (r # rs) =
     (if int (length candidates) \<le> rr_index r then rerank_hits tx cfg candidates rs
      else case py_index candidates (rr_index r) of
        None \<Rightarrow> None
      | Some h \<Rightarrow> map_option (Cons (rescored tx cfg h (rr_score r))) (rerank_hits tx cfg candidates rs))"

text \<open>Two calls at most: a high threshold that leaves nothing is lowered once.\<close>

definition rerank_with_degrade :: "reranker \<Rightarrow> rerank_config \<Rightarrow> str list \<Rightarrow> rank_result list option" where
  "rerank_with_degrade model cfg passages =
     (case rerank_call model 0 cfg (rc_threshold cfg) passages of
        None \<Rightarrow> None
      | Some resp \<Rightarrow>
          if resp = [] \<and> DEGRADE_THRESHOLD < rc_threshold cfg
          then rerank_call model 1 cfg (max (fl64 (rc_threshold cfg * fl64 (7 / 10))) DEGRADE_THRESHOLD) passages
          else Some resp)"

text \<open>Later copies of a chunk win in the dictionary that publishes the scores.\<close>

definition publish :: "hit list \<Rightarrow> hit list \<Rightarrow> hit list" where
  "publish reranked hits =
     map (\<lambda>h. case map_of (rev (map (\<lambda>u. (ht_id u, u)) reranked)) (ht_id h) of Some u \<Rightarrow> u | None \<Rightarrow> h) hits"

text \<open>\<open>model_of = None\<close>: the model service raises. An error stops the chain, as \<open>next\<close> is not called.\<close>

definition rerank_step ::
  "text_ops \<Rightarrow> (str \<Rightarrow> str) \<Rightarrow> reranker option \<Rightarrow> rerank_config \<Rightarrow> bool \<Rightarrow> hit_state \<Rightarrow> plugin_error option \<times> hit_state" where
  "rerank_step tx clean model_of cfg needs_retrieval s =
     (if \<not> needs_retrieval \<or> hs_search_result s = [] \<or> rc_model_id cfg = [] then (None, s)
      else case model_of of
        None \<Rightarrow> (Some GET_RERANK_MODEL, s)
      | Some model \<Rightarrow>
          let candidates = filter (\<lambda>h. strip (get_enriched_passage tx clean h) \<noteq> []) (hs_search_result s);
              passages = map (get_enriched_passage tx clean) candidates
          in case (if candidates = [] then Some [] else rerank_with_degrade model cfg passages) of
               None \<Rightarrow> (None, s\<lparr>hs_search_result := candidates\<rparr>)
             | Some resp \<Rightarrow>
                 (case rerank_hits tx cfg candidates resp of
                    None \<Rightarrow> (Some INDEX_ERROR, s)
                  | Some reranked \<Rightarrow>
                      let top_k = min (length reranked) (nat (max 1 (rc_top_k cfg)));
                          final = apply_mmr tx clean reranked top_k MMR_LAMBDA;
                          s1 = s\<lparr>hs_rerank_result := final, hs_search_result := publish reranked (hs_search_result s)\<rparr>
                      in (if final = [] then Some SEARCH_NOTHING else None, s1)))"

end
