(* ===== verification/Rerank_Laws.thy ===== *)
theory Rerank_Laws
  imports Rerank
begin

text \<open>
  What the rerank step relies on: doubles stay within powers of two, the inner loop of maximal
  marginal relevance finds the first best index, and a greedy selection that always finds a fresh
  index gives as many as asked for.
\<close>

subsection \<open>Bounds on doubles\<close>

lemma round_half_even_le:
  assumes "x \<le> of_int n"
  shows "round_half_even x \<le> n"
proof (cases "x = of_int n")
  case True
  then show ?thesis by (simp add: round_half_even_def)
next
  case False
  then have "\<lfloor>x\<rfloor> < n" using assms by (simp add: floor_less_iff)
  then show ?thesis by (auto simp: round_half_even_def Let_def)
qed

lemma round_half_even_small: "0 \<le> x \<Longrightarrow> x \<le> 1 / 2 \<Longrightarrow> round_half_even x = 0"
proof -
  assume a: "0 \<le> x" "x \<le> 1 / 2"
  then have "\<lfloor>x\<rfloor> = 0" by (simp add: floor_eq_iff)
  then show ?thesis using a by (simp add: round_half_even_def)
qed

lemma pow2_add: "pow2 (a + b) = pow2 a * pow2 b"
proof -
  have p: "pow2 e = 2 powi e" for e by (simp add: pow2_def power_int_def power_one_over)
  show ?thesis by (simp add: p power_int_add)
qed

lemma pow2_nat: "0 \<le> e \<Longrightarrow> pow2 e = of_int (2 ^ nat e)"
  by (simp add: pow2_def)

lemma pow2_half: "e < 0 \<Longrightarrow> pow2 e \<le> 1 / 2"
proof -
  assume "e < 0"
  then have "(2::rat) ^ 1 \<le> 2 ^ nat (- e)" by (intro power_increasing) auto
  then show ?thesis using \<open>e < 0\<close> by (simp add: pow2_def field_simps)
qed

lemma round_scaled_le:
  assumes "0 \<le> x" "x \<le> pow2 z"
  shows "of_int (round_half_even (x / pow2 e)) * pow2 e \<le> pow2 z"
proof -
  have z: "pow2 z = pow2 (z - e) * pow2 e" by (simp flip: pow2_add)
  have x: "x / pow2 e \<le> pow2 (z - e)" "0 \<le> x / pow2 e"
    using assms by (simp_all add: z divide_le_eq less_imp_le [OF pow2_pos])
  show ?thesis
  proof (cases "0 \<le> z - e")
    case True
    then have "round_half_even (x / pow2 e) \<le> 2 ^ nat (z - e)"
      using x by (intro round_half_even_le) (simp add: pow2_nat)
    then have "of_int (round_half_even (x / pow2 e)) \<le> pow2 (z - e)"
      using True by (simp only: pow2_nat of_int_le_iff)
    then show ?thesis unfolding z by (intro mult_right_mono) (simp_all add: less_imp_le)
  next
    case False
    then have "round_half_even (x / pow2 e) = 0"
      using x(2) order_trans [OF x(1) pow2_half [of "z - e"]] by (intro round_half_even_small) auto
    then show ?thesis by (simp add: less_imp_le)
  qed
qed

lemma fl64_le_pow2: "0 \<le> x \<Longrightarrow> x \<le> pow2 z \<Longrightarrow> fl64 x \<le> pow2 z"
  using round_scaled_le [of x z]
  by (auto simp: fl64_def Let_def sgn_if less_imp_le split: prod.splits)

lemma fl64_uminus: "fl64 (- x) = - fl64 x"
  by (auto simp: fl64_def Let_def sgn_minus split: prod.splits)

lemma fl64_half: "0 \<le> x \<Longrightarrow> x \<le> 1 / 2 \<Longrightarrow> fl64 x \<le> 1 / 2"
  using fl64_le_pow2 [of x "-1"] by (simp add: pow2_def)

lemma fl64_one: "0 \<le> x \<Longrightarrow> x \<le> 1 \<Longrightarrow> fl64 x \<le> 1"
  using fl64_le_pow2 [of x 0] by (simp add: pow2_def)

lemma fl64_above:
  assumes "- (1 / 2) \<le> x"
  shows "- (1 / 2) \<le> fl64 x"
proof (cases "0 \<le> x")
  case True
  then show ?thesis using fl64_nonneg [of x] by linarith
next
  case False
  then show ?thesis using fl64_half [of "- x"] assms by (simp add: fl64_uminus)
qed

text \<open>The value of a constant, its exponent found step by step.\<close>

lemma fl64_by:
  assumes "0 < x" "quotient_of x = (p, q)" "bitlen p - bitlen q - 53 = e0"
    "(if 2 ^ 53 \<le> x / pow2 e0 then e0 + 1 else e0) = e" "round_half_even (x / pow2 e) = m"
  shows "fl64 x = of_int m * pow2 e"
proof -
  have "fl64 x = of_int (round_half_even (x / pow2 (if 2 ^ 53 \<le> x / pow2 e0 then e0 + 1 else e0))) *
      pow2 (if 2 ^ 53 \<le> x / pow2 e0 then e0 + 1 else e0)"
    using assms(1-3) by (simp add: fl64_def Let_def)
  then show ?thesis by (simp only: assms(4,5))
qed

lemma float_constants:
  "MMR_LAMBDA = of_int 6305039478318694 * pow2 (- 53)"
  "DEGRADE_THRESHOLD = of_int 5404319552844595 * pow2 (- 54)"
  "DEFAULT_FALLBACK_MIN_SCORE = of_int 5404319552844595 * pow2 (- 55)"
  unfolding MMR_LAMBDA_def DEGRADE_THRESHOLD_def DEFAULT_FALLBACK_MIN_SCORE_def
proof -
  show "fl64 (7 / 10) = of_int 6305039478318694 * pow2 (- 53)"
    by (rule fl64_by [where p = 7 and q = 10 and ?e0.0 = "-54"]; code_simp)
  show "fl64 (3 / 10) = of_int 5404319552844595 * pow2 (- 54)"
    by (rule fl64_by [where p = 3 and q = 10 and ?e0.0 = "-55"]; code_simp)
  show "fl64 (15 / 100) = of_int 5404319552844595 * pow2 (- 55)"
    by (rule fl64_by [where p = 3 and q = 20 and ?e0.0 = "-56"]; code_simp)
qed

lemma constant_order:
  "1 / 2 \<le> MMR_LAMBDA \<and> MMR_LAMBDA \<le> 1 \<and> 0 < DEFAULT_FALLBACK_MIN_SCORE \<and> DEFAULT_FALLBACK_MIN_SCORE < DEGRADE_THRESHOLD \<and>
   1 / 4 < DEGRADE_THRESHOLD"
  by (simp add: float_constants pow2_def)

lemma float_div_unit: "a \<le> b \<Longrightarrow> 0 \<le> float_div a b \<and> float_div a b \<le> 1"
  by (auto simp: float_div_def divide_le_eq intro!: fl64_nonneg fl64_one)

lemma jaccard_unit:
  assumes "finite a" "finite b"
  shows "0 \<le> jaccard a b" "jaccard a b \<le> 1"
proof -
  have "card (a \<inter> b) \<le> card a" "card (a \<inter> b) \<le> card b" using assms by (simp_all add: card_mono)
  then show "0 \<le> jaccard a b" "jaccard a b \<le> 1"
    using float_div_unit [of "card (a \<inter> b)" "card a + card b - card (a \<inter> b)"] by (auto simp: jaccard_def Let_def)
qed

lemma finite_tokens [simp]: "finite (tokenize_simple tx s)"
  by (simp add: tokenize_simple_def Let_def)

subsection \<open>The first best index\<close>

definition first_best :: "('i \<Rightarrow> bool) \<Rightarrow> ('i \<Rightarrow> rat) \<Rightarrow> 'i list \<Rightarrow> rat \<Rightarrow> 'i option \<times> rat" where
  "first_best used score xs c = fold (\<lambda>i (best, s). if used i then (best, s) else let m = score i in if s < m then (Some i, m) else (best, s)) xs (None, c)"

lemma first_best_append: "first_best used score (xs @ [x]) c =
    (case first_best used score xs c of (best, s) \<Rightarrow> if used x then (best, s) else if s < score x then (Some x, score x) else (best, s))"
  by (simp add: first_best_def Let_def split: prod.splits)

definition best_so_far :: "('i::linorder \<Rightarrow> bool) \<Rightarrow> ('i \<Rightarrow> rat) \<Rightarrow> 'i list \<Rightarrow> rat \<Rightarrow> 'i option \<times> rat \<Rightarrow> bool" where
  "best_so_far used score xs c r \<longleftrightarrow> (case r of
      (None, s) \<Rightarrow> s = c \<and> (\<forall>i \<in> set xs. used i \<or> score i \<le> c)
    | (Some i, s) \<Rightarrow> i \<in> set xs \<and> \<not> used i \<and> s = score i \<and> c < s \<and>
        (\<forall>j \<in> set xs. used j \<or> score j \<le> s \<and> (j < i \<longrightarrow> score j < s)))"

lemma first_best_result: "sorted_wrt (<) xs \<Longrightarrow> best_so_far used score xs c (first_best used score xs c)"
proof (induction xs rule: rev_induct)
  case (snoc x xs)
  obtain b s where r: "first_best used score xs c = (b, s)" by fastforce
  have IH: "best_so_far used score xs c (b, s)" and x: "\<forall>j \<in> set xs. j < x"
    using snoc r by (auto simp: sorted_wrt_append)
  show ?case
  proof (cases b)
    case None
    then show ?thesis using IH x by (auto simp: first_best_append r best_so_far_def)
  next
    case (Some i)
    then have i: "i < x" using IH x by (simp add: best_so_far_def)
    show ?thesis using IH x i unfolding first_best_append r Some best_so_far_def
      by (auto dest: order.strict_trans1 order.strict_trans)
  qed
qed (simp add: first_best_def best_so_far_def)

lemma best_index_first_best: "best_index lambda hits tokens sel =
    fst (first_best (\<lambda>i. i \<in> set sel) (\<lambda>i. mmr_score lambda (hits ! i) (tokens ! i) (map ((!) tokens) sel)) [0..<length hits] (- 1))"
  by (simp add: best_index_def first_best_def)

definition mmr_at :: "rat \<Rightarrow> hit list \<Rightarrow> str set list \<Rightarrow> nat list \<Rightarrow> nat \<Rightarrow> rat" where
  "mmr_at lambda hits tokens sel i = mmr_score lambda (hits ! i) (tokens ! i) (map ((!) tokens) sel)"

lemma best_index_best: "best_so_far (\<lambda>i. i \<in> set sel) (mmr_at lambda hits tokens sel) [0..<length hits] (- 1)
    (first_best (\<lambda>i. i \<in> set sel) (mmr_at lambda hits tokens sel) [0..<length hits] (- 1))"
  by (rule first_best_result) simp

lemma best_index_at: "best_index lambda hits tokens sel =
    fst (first_best (\<lambda>i. i \<in> set sel) (mmr_at lambda hits tokens sel) [0..<length hits] (- 1))"
  by (simp add: best_index_first_best mmr_at_def [abs_def])

lemma best_index_Some:
  assumes "best_index lambda hits tokens sel = Some i"
  shows "i < length hits" "i \<notin> set sel"
    "\<And>j. j < length hits \<Longrightarrow> j \<notin> set sel \<Longrightarrow> mmr_at lambda hits tokens sel j \<le> mmr_at lambda hits tokens sel i \<and>
      (j < i \<longrightarrow> mmr_at lambda hits tokens sel j < mmr_at lambda hits tokens sel i)"
  using best_index_best [of sel lambda hits tokens] assms
  by (auto simp: best_index_at best_so_far_def split: prod.splits)

lemma best_index_None:
  assumes "best_index lambda hits tokens sel = None" "j < length hits" "j \<notin> set sel"
  shows "mmr_at lambda hits tokens sel j \<le> - 1"
  using best_index_best [of sel lambda hits tokens] assms
  by (auto simp: best_index_at best_so_far_def split: prod.splits)

subsection \<open>Greedy selection\<close>

text \<open>
  A pool gives, for the indices chosen so far, the next one: an index of the pool not chosen yet, and
  one as long as some is left when the pool is well formed.
\<close>

locale fresh_choice =
  fixes pick :: "'p \<Rightarrow> nat list \<Rightarrow> nat option" and pool_size :: "'p \<Rightarrow> nat" and wf_pool :: "'p \<Rightarrow> bool"
  assumes fresh: "pick p sel = Some i \<Longrightarrow> i < pool_size p \<and> i \<notin> set sel"
    and found: "wf_pool p \<Longrightarrow> set sel \<subseteq> {..<pool_size p} \<Longrightarrow> i < pool_size p \<Longrightarrow> i \<notin> set sel \<Longrightarrow> pick p sel \<noteq> None"
begin

fun greedy :: "nat \<Rightarrow> 'p \<Rightarrow> nat list \<Rightarrow> nat list" where
  "greedy 0 p sel = sel"
| "greedy (Suc k) p sel =
     (if pool_size p \<le> length sel then sel
      else case pick p sel of None \<Rightarrow> sel | Some i \<Rightarrow> greedy k p (sel @ [i]))"

lemma greedy_extends: "\<exists>picks. greedy k p sel = sel @ picks"
proof (induction k p sel rule: greedy.induct)
  case (2 k p sel)
  show ?case
  proof (cases "pick p sel")
    case (Some i)
    then show ?thesis using 2 by (cases "pool_size p \<le> length sel") auto
  qed simp
qed simp

lemma greedy_picks:
  assumes "distinct sel" "set sel \<subseteq> {..<pool_size p}"
  shows "distinct (greedy k p sel) \<and> set (greedy k p sel) \<subseteq> {..<pool_size p} \<and> length (greedy k p sel) \<le> length sel + k"
  using assms
proof (induction k p sel rule: greedy.induct)
  case (2 k p sel)
  show ?case
  proof (cases "pick p sel")
    case (Some i)
    then show ?thesis using 2 fresh [of p sel i] by (cases "pool_size p \<le> length sel") auto
  qed (use 2 in auto)
qed simp

lemma greedy_full:
  assumes "wf_pool p" "distinct sel" "set sel \<subseteq> {..<pool_size p}"
  shows "length (greedy k p sel) = min (length sel + k) (pool_size p)"
  using assms
proof (induction k p sel rule: greedy.induct)
  case (1 p sel)
  then show ?case using card_mono [OF _ 1(3)] distinct_card [of sel] by simp
next
  case (2 k p sel)
  have l: "length sel \<le> pool_size p" using card_mono [OF _ 2(4)] distinct_card [of sel] 2(3) by simp
  show ?case
  proof (cases "pool_size p \<le> length sel")
    case False
    then have "\<not> {..<pool_size p} \<subseteq> set sel" using card_mono [of "set sel" "{..<pool_size p}"] card_length [of sel] by auto
    then obtain j where "j < pool_size p" "j \<notin> set sel" by auto
    then obtain i where "pick p sel = Some i" using found [OF 2(2,4)] by blast
    then show ?thesis using 2 False fresh [of p sel i] by simp
  qed (use l in simp)
qed

lemma greedy_each:
  assumes "greedy k p sel = sel @ picks" "j < length picks"
  shows "pick p (sel @ take j picks) = Some (picks ! j)"
  using assms
proof (induction k p sel arbitrary: picks j rule: greedy.induct)
  case (2 k p sel)
  from 2(2,3) obtain i where c: "\<not> pool_size p \<le> length sel" "pick p sel = Some i"
    by (auto split: if_splits option.splits)
  then have g: "greedy k p (sel @ [i]) = sel @ picks" using 2(2) by simp
  obtain rest where "greedy k p (sel @ [i]) = (sel @ [i]) @ rest" using greedy_extends by blast
  with g have r: "picks = i # rest" by simp
  show ?case
  proof (cases j)
    case 0
    then show ?thesis using r c by simp
  next
    case (Suc m)
    then show ?thesis using 2(1) [OF c, of rest m] g r 2(3) by simp
  qed
qed simp

end

type_synonym mmr_pool = "rat \<times> hit list \<times> str set list"

fun mmr_choice :: "mmr_pool \<Rightarrow> nat list \<Rightarrow> nat option" where
  "mmr_choice (lambda, hits, tokens) sel = best_index lambda hits tokens sel"

fun mmr_size :: "mmr_pool \<Rightarrow> nat" where
  "mmr_size (lambda, hits, tokens) = length hits"

fun wf_mmr :: "mmr_pool \<Rightarrow> bool" where
  "wf_mmr (lambda, hits, tokens) \<longleftrightarrow> 1 / 2 \<le> lambda \<and> lambda \<le> 1 \<and> length tokens = length hits \<and>
     list_all (\<lambda>h. 0 \<le> ht_score h) hits \<and> list_all finite tokens"

lemma redundancy_unit:
  assumes "finite t" "list_all finite sel"
  shows "0 \<le> redundancy_of t sel \<and> redundancy_of t sel \<le> 1"
proof -
  have "0 \<le> fold (\<lambda>s r. let similarity = jaccard t s in if r < similarity then similarity else r) sel r \<and>
      fold (\<lambda>s r. let similarity = jaccard t s in if r < similarity then similarity else r) sel r \<le> 1" if "0 \<le> r" "r \<le> 1" for r
    using assms(2) that
  proof (induction sel arbitrary: r)
    case (Cons s sel)
    then show ?case using jaccard_unit [OF assms(1), of s] by (simp add: Let_def)
  qed simp
  then show ?thesis by (simp add: redundancy_of_def)
qed

lemma mmr_score_above:
  assumes "1 / 2 \<le> lambda" "lambda \<le> 1" "0 \<le> ht_score h" "finite t" "list_all finite sel"
  shows "- 1 < mmr_score lambda h t sel"
proof -
  have r: "0 \<le> redundancy_of t sel" "redundancy_of t sel \<le> 1" using redundancy_unit [OF assms(4,5)] by auto
  have "0 \<le> fl64 (1 - lambda)" "fl64 (1 - lambda) \<le> 1 / 2" using assms(1,2) by (intro fl64_nonneg fl64_half; simp)+
  then have "fl64 (1 - lambda) * redundancy_of t sel \<le> 1 / 2 * 1" "0 \<le> fl64 (1 - lambda) * redundancy_of t sel"
    using r by (intro mult_mono mult_nonneg_nonneg; simp)+
  then have "fl64 (fl64 (1 - lambda) * redundancy_of t sel) \<le> 1 / 2" by (intro fl64_half) auto
  moreover have "0 \<le> fl64 (lambda * ht_score h)" using assms by (intro fl64_nonneg) auto
  ultimately have "- (1 / 2) \<le> fl64 (lambda * ht_score h) - fl64 (fl64 (1 - lambda) * redundancy_of t sel)" by linarith
  then show ?thesis using fl64_above by (fastforce simp: mmr_score_def)
qed

interpretation mmr: fresh_choice mmr_choice mmr_size wf_mmr
proof
  fix p sel i
  assume "mmr_choice p sel = Some i"
  then show "i < mmr_size p \<and> i \<notin> set sel" by (cases p) (auto dest: best_index_Some)
next
  fix p sel i
  assume a: "wf_mmr p" "set sel \<subseteq> {..<mmr_size p}" "i < mmr_size p" "i \<notin> set sel"
  obtain lambda hits tokens where p: "p = (lambda, hits, tokens)" by (cases p) auto
  show "mmr_choice p sel \<noteq> None"
  proof
    assume n: "mmr_choice p sel = None"
    have "mmr_at lambda hits tokens sel i \<le> - 1" using n a p by (auto dest: best_index_None)
    moreover have "- 1 < mmr_at lambda hits tokens sel i" unfolding mmr_at_def
      using a p by (intro mmr_score_above) (auto simp: list_all_length list_all_iff subset_eq)
    ultimately show False by simp
  qed
qed

lemma mmr_loop_greedy: "mmr_loop k lambda hits tokens sel = mmr.greedy k (lambda, hits, tokens) sel"
  by (induction k arbitrary: sel) (auto split: option.splits)

end
