(* ===== verification/Rerank_Properties.thy ===== *)
theory Rerank_Properties
  imports Rerank_Laws Merge_Properties
begin

text \<open>
  Properties of the rerank step: the selection of maximal marginal relevance against its definition,
  the shape of the step's results, its thresholds, and the retry that changes nothing.
\<close>

subsection \<open>Maximal marginal relevance\<close>

definition passage_tokens :: "text_ops \<Rightarrow> (str \<Rightarrow> str) \<Rightarrow> hit list \<Rightarrow> str set list" where
  "passage_tokens tx clean hits = map (\<lambda>h. tokenize_simple tx (get_enriched_passage tx clean h)) hits"

lemma wf_passages: "\<forall>h \<in> set hits. 0 \<le> ht_score h \<Longrightarrow> wf_mmr (MMR_LAMBDA, hits, passage_tokens tx clean hits)"
  using constant_order by (auto simp: passage_tokens_def list_all_iff)

lemma apply_mmr_count:
  assumes "\<forall>h \<in> set hits. 0 \<le> ht_score h"
  shows "length (apply_mmr tx clean hits k MMR_LAMBDA) = min k (length hits)"
  using mmr.greedy_full [OF wf_passages [OF assms], where k = k and sel = "[]"]
  by (simp add: apply_mmr_def mmr_loop_greedy passage_tokens_def)

text \<open>C33: on hits whose scores are not negative, the selection returns as many hits as asked for (all, when
  there are fewer), at different positions, and each one chosen has, given those chosen before, the
  best marginal relevance of all that were left, the first one on a tie.\<close>

theorem apply_mmr_greedy:
  assumes "\<forall>h \<in> set hits. 0 \<le> ht_score h"
  shows "\<exists>idx. apply_mmr tx clean hits k MMR_LAMBDA = map ((!) hits) idx \<and> distinct idx \<and> set idx \<subseteq> {..<length hits} \<and>
    length idx = min k (length hits) \<and>
    (\<forall>j < length idx. \<forall>i < length hits. i \<notin> set (take j idx) \<longrightarrow>
      mmr_at MMR_LAMBDA hits (passage_tokens tx clean hits) (take j idx) i
        \<le> mmr_at MMR_LAMBDA hits (passage_tokens tx clean hits) (take j idx) (idx ! j) \<and>
      (i < idx ! j \<longrightarrow> mmr_at MMR_LAMBDA hits (passage_tokens tx clean hits) (take j idx) i
        < mmr_at MMR_LAMBDA hits (passage_tokens tx clean hits) (take j idx) (idx ! j)))"
proof -
  let ?p = "(MMR_LAMBDA, hits, passage_tokens tx clean hits)"
  let ?idx = "mmr.greedy k ?p []"
  have "distinct ?idx \<and> set ?idx \<subseteq> {..<length hits}" using mmr.greedy_picks [of "[]" ?p k] by simp
  moreover have "length ?idx = min k (length hits)" using mmr.greedy_full [OF wf_passages [OF assms], where k = k and sel = "[]"] by simp
  moreover have best: "best_index MMR_LAMBDA hits (passage_tokens tx clean hits) (take j ?idx) = Some (?idx ! j)" if "j < length ?idx" for j
    using mmr.greedy_each [of k ?p "[]" ?idx j] that by simp
  moreover have "apply_mmr tx clean hits k MMR_LAMBDA = map ((!) hits) ?idx"
    by (simp add: apply_mmr_def mmr_loop_greedy passage_tokens_def)
  ultimately show ?thesis using best_index_Some(3) [OF best] by (intro exI [of _ ?idx]) blast
qed

lemma apply_mmr_set: "set (apply_mmr tx clean hits k lambda) \<subseteq> set hits"
proof -
  have "set (mmr.greedy k (lambda, hits, passage_tokens tx clean hits) []) \<subseteq> {..<length hits}"
    using mmr.greedy_picks [of "[]" "(lambda, hits, passage_tokens tx clean hits)" k] by simp
  then show ?thesis by (auto simp: apply_mmr_def mmr_loop_greedy passage_tokens_def)
qed

lemma apply_mmr_length: "length (apply_mmr tx clean hits k lambda) \<le> k"
  using mmr.greedy_picks [of "[]" "(lambda, hits, passage_tokens tx clean hits)" k]
  by (simp add: apply_mmr_def mmr_loop_greedy passage_tokens_def)

subsection \<open>Scores and results of the step\<close>

lemma composite_score_unit: "0 \<le> composite_score tx h m b \<and> composite_score tx h m b \<le> 1"
  by (simp add: composite_score_def Let_def)

lemma rescored_score: "0 \<le> ht_score (rescored tx cfg h m) \<and> ht_score (rescored tx cfg h m) \<le> 1"
  using composite_score_unit [of tx h m "ht_score h"] fl64_nonneg
  by (auto simp: rescored_def Let_def min_def not_le intro!: fl64_nonneg mult_nonneg_nonneg)

definition same_text :: "hit \<Rightarrow> hit \<Rightarrow> bool" where
  "same_text h c \<longleftrightarrow> ht_id h = ht_id c \<and> ht_content h = ht_content c \<and> ht_knowledge_id h = ht_knowledge_id c \<and>
     ht_chunk_type h = ht_chunk_type c"

lemma rescored_same [simp]: "same_text (rescored tx cfg h m) h"
  by (simp add: rescored_def same_text_def Let_def)

lemma py_index_set: "py_index xs i = Some x \<Longrightarrow> x \<in> set xs"
  by (auto simp: py_index_def split: if_splits)

lemma rerank_hits_from:
  "rerank_hits tx cfg candidates rs = Some out \<Longrightarrow> h \<in> set out \<Longrightarrow>
    \<exists>c \<in> set candidates. \<exists>m. h = rescored tx cfg c m"
proof (induction rs arbitrary: out)
  case (Cons r rs)
  show ?case
  proof (cases "int (length candidates) \<le> rr_index r")
    case True
    then show ?thesis using Cons by simp
  next
    case False
    then obtain c rest where "py_index candidates (rr_index r) = Some c" "rerank_hits tx cfg candidates rs = Some rest"
      "out = rescored tx cfg c (rr_score r) # rest"
      using Cons.prems(1) by (auto split: option.splits)
    then show ?thesis using Cons.IH [of rest] Cons.prems(2) py_index_set by fastforce
  qed
qed simp

lemma publish_ids: "map ht_id (publish reranked hits) = map ht_id hits"
  by (auto simp: publish_def dest!: map_of_SomeD split: option.splits)

definition rerank_candidates :: "text_ops \<Rightarrow> (str \<Rightarrow> str) \<Rightarrow> hit list \<Rightarrow> hit list" where
  "rerank_candidates tx clean hits = filter (\<lambda>h. strip (get_enriched_passage tx clean h) \<noteq> []) hits"

definition rank_answer :: "text_ops \<Rightarrow> (str \<Rightarrow> str) \<Rightarrow> reranker \<Rightarrow> rerank_config \<Rightarrow> hit list \<Rightarrow> rank_result list option" where
  "rank_answer tx clean model cfg cs =
     (if cs = [] then Some [] else rerank_with_degrade model cfg (map (get_enriched_passage tx clean) cs))"

lemma rerank_step_run:
  assumes "hs_search_result s \<noteq> []" "rc_model_id cfg \<noteq> []"
  shows "rerank_step tx clean (Some model) cfg True s =
    (let cs = rerank_candidates tx clean (hs_search_result s)
     in case rank_answer tx clean model cfg cs of
          None \<Rightarrow> (None, s\<lparr>hs_search_result := cs\<rparr>)
        | Some resp \<Rightarrow>
            (case rerank_hits tx cfg cs resp of
               None \<Rightarrow> (Some INDEX_ERROR, s)
             | Some reranked \<Rightarrow>
                 let final = apply_mmr tx clean reranked (min (length reranked) (nat (max 1 (rc_top_k cfg)))) MMR_LAMBDA
                 in (if final = [] then Some SEARCH_NOTHING else None,
                     s\<lparr>hs_rerank_result := final, hs_search_result := publish reranked (hs_search_result s)\<rparr>)))"
  using assms by (simp only: rerank_step_def rank_answer_def rerank_candidates_def Let_def option.case simp_thms if_False)

lemma rerank_step_cases:
  assumes "rerank_step tx clean model_of cfg True s = (e, s1)" "hs_search_result s \<noteq> []" "rc_model_id cfg \<noteq> []"
  obtains (no_model) "model_of = None" "e = Some GET_RERANK_MODEL" "s1 = s"
    | (fallback) "e = None" "s1 = s\<lparr>hs_search_result := rerank_candidates tx clean (hs_search_result s)\<rparr>"
    | (bad_index) "e = Some INDEX_ERROR" "s1 = s"
    | (ranked) resp reranked final where
        "rerank_hits tx cfg (rerank_candidates tx clean (hs_search_result s)) resp = Some reranked"
        "final = apply_mmr tx clean reranked (min (length reranked) (nat (max 1 (rc_top_k cfg)))) MMR_LAMBDA"
        "e = (if final = [] then Some SEARCH_NOTHING else None)"
        "s1 = s\<lparr>hs_rerank_result := final, hs_search_result := publish reranked (hs_search_result s)\<rparr>"
proof (cases model_of)
  case None
  then show thesis using no_model assms by (simp add: rerank_step_def)
next
  case (Some model)
  let ?cs = "rerank_candidates tx clean (hs_search_result s)"
  note run = assms(1) [unfolded Some rerank_step_run [OF assms(2,3)] Let_def]
  show thesis
  proof (cases "rank_answer tx clean model cfg ?cs")
    case None
    then show thesis using fallback run by simp
  next
    case (Some resp)
    note r = Some
    show thesis
    proof (cases "rerank_hits tx cfg ?cs resp")
      case None
      then show thesis using bad_index run r by simp
    next
      case (Some reranked)
      then show thesis using ranked [OF Some refl] run r by simp
    qed
  qed
qed

text \<open>When the step runs and reports no error, it either falls back to the candidates with some text and
  leaves the ranked results as they were, or its results are not empty, at most as many as configured
  (one at least), scored between zero and one, each a search result with its text unchanged; the
  search results keep their chunks and order.\<close>

theorem rerank_step_result:
  assumes "rerank_step tx clean model_of cfg True s = (None, s1)" "hs_search_result s \<noteq> []" "rc_model_id cfg \<noteq> []"
  shows "(hs_rerank_result s1 = hs_rerank_result s \<and> hs_search_result s1 = rerank_candidates tx clean (hs_search_result s)) \<or>
    (hs_rerank_result s1 \<noteq> [] \<and> int (length (hs_rerank_result s1)) \<le> max 1 (rc_top_k cfg) \<and>
     (\<forall>h \<in> set (hs_rerank_result s1). 0 \<le> ht_score h \<and> ht_score h \<le> 1 \<and> (\<exists>c \<in> set (hs_search_result s). same_text h c)) \<and>
     map ht_id (hs_search_result s1) = map ht_id (hs_search_result s))"
  using assms
proof (cases rule: rerank_step_cases)
  case (ranked resp reranked final)
  have "\<exists>c \<in> set (hs_search_result s). \<exists>m. h = rescored tx cfg c m" if "h \<in> set final" for h
    using rerank_hits_from [OF ranked(1)] subsetD [OF apply_mmr_set] that ranked(2) by (fastforce simp: rerank_candidates_def)
  then have "\<forall>h \<in> set final. 0 \<le> ht_score h \<and> ht_score h \<le> 1 \<and> (\<exists>c \<in> set (hs_search_result s). same_text h c)"
    using rescored_score rescored_same by metis
  moreover have "int (length final) \<le> max 1 (rc_top_k cfg)"
    using apply_mmr_length [of tx clean reranked "min (length reranked) (nat (max 1 (rc_top_k cfg)))" MMR_LAMBDA] ranked(2)
    by (simp add: le_nat_iff)
  ultimately show ?thesis using ranked(3,4) publish_ids by (simp split: if_splits)
qed simp_all

text \<open>The step reports that nothing was found only when no result of the model was accepted: as long as
  one is, at least one hit reaches the next step.\<close>

theorem rerank_never_empties:
  assumes "rerank_step tx clean (Some model) cfg True s = (Some SEARCH_NOTHING, s1)"
    and "rerank_with_degrade model cfg (map (get_enriched_passage tx clean) (rerank_candidates tx clean (hs_search_result s))) = Some resp"
    and "\<forall>r \<in> set resp. rr_index r < int (length (rerank_candidates tx clean (hs_search_result s)))"
    and "rerank_candidates tx clean (hs_search_result s) \<noteq> []"
  shows "resp = []"
proof -
  let ?cs = "rerank_candidates tx clean (hs_search_result s)"
  have "hs_search_result s \<noteq> []" "rc_model_id cfg \<noteq> []"
    using assms(1,4) by (auto simp: rerank_step_def rerank_candidates_def split: if_splits)
  then obtain reranked where h: "rerank_hits tx cfg ?cs resp = Some reranked"
    and e: "apply_mmr tx clean reranked (min (length reranked) (nat (max 1 (rc_top_k cfg)))) MMR_LAMBDA = []"
    using assms(1,2,4) by (auto simp: rerank_step_run Let_def rank_answer_def split: option.splits if_splits)
  have "\<forall>h \<in> set reranked. 0 \<le> ht_score h" using rerank_hits_from [OF h] rescored_score by fastforce
  then have "length (apply_mmr tx clean reranked (min (length reranked) (nat (max 1 (rc_top_k cfg)))) MMR_LAMBDA)
      = min (min (length reranked) (nat (max 1 (rc_top_k cfg)))) (length reranked)"
    by (rule apply_mmr_count)
  moreover have "0 < nat (max 1 (rc_top_k cfg))" by simp
  ultimately have "reranked = []" using e by (cases reranked) (auto simp del: zero_less_nat_eq)
  then show ?thesis using h assms(3) by (cases resp) (auto split: option.splits)
qed

subsection \<open>Thresholds\<close>

text \<open>Every accepted result either reaches the threshold of the call, or is the only one, the first of
  the answer, at or above the floor.\<close>

theorem rank_filter_threshold:
  "(\<forall>r \<in> set (rank_filter targets threshold n resp). threshold \<le> rr_score r) \<or>
   (\<exists>r rest. resp = r # rest \<and> rank_filter targets threshold n resp = [r] \<and> rerank_fallback_min_score targets \<le> rr_score r)"
  by (cases resp) (auto simp: rank_filter_def Let_def)

lemma rank_filter_empty_degraded:
  assumes "rank_filter targets threshold n resp = []" "sorted_wrt (\<lambda>a b. rr_score b \<le> rr_score a) resp" "DEGRADE_THRESHOLD \<le> degraded"
  shows "rank_filter targets degraded n resp = []"
proof (cases resp)
  case (Cons r rest)
  then have "rr_score r < rerank_fallback_min_score targets"
    using assms(1) by (auto simp: rank_filter_def Let_def split: if_splits)
  moreover have "rerank_fallback_min_score targets < DEGRADE_THRESHOLD"
    using constant_order by (simp add: rerank_fallback_min_score_def)
  ultimately show ?thesis using Cons assms(2,3) by (fastforce simp: rank_filter_def Let_def filter_empty_conv)
qed (simp add: rank_filter_def)

text \<open>The second call with a lowered threshold is of no use: when the model gives the same answer, best
  first, to the same question, the results are those of the first call. The floor of the first call lies
  below every lowered threshold.\<close>

theorem degrade_changes_nothing:
  assumes "model 1 (rc_query cfg) (filter (\<lambda>p. strip p \<noteq> []) passages) = model 0 (rc_query cfg) (filter (\<lambda>p. strip p \<noteq> []) passages)"
    and "\<And>resp. model 0 (rc_query cfg) (filter (\<lambda>p. strip p \<noteq> []) passages) = Some resp \<Longrightarrow> sorted_wrt (\<lambda>a b. rr_score b \<le> rr_score a) resp"
  shows "rerank_with_degrade model cfg passages = rerank_call model 0 cfg (rc_threshold cfg) passages"
proof (cases "model 0 (rc_query cfg) (filter (\<lambda>p. strip p \<noteq> []) passages)")
  case None
  then show ?thesis by (simp add: rerank_with_degrade_def rerank_call_def Let_def)
next
  case (Some resp)
  note d = rank_filter_empty_degraded [OF _ assms(2) [OF Some], of "rc_targets cfg" "rc_threshold cfg" _ "max (fl64 (rc_threshold cfg * fl64 (7 / 10))) DEGRADE_THRESHOLD"]
  show ?thesis using Some assms(1) d by (simp add: rerank_with_degrade_def rerank_call_def Let_def)
qed

subsection \<open>Witnesses\<close>

definition sample_rank :: rerank_config where
  "sample_rank = \<lparr>rc_model_id = lit ''m'', rc_query = lit ''q'', rc_threshold = 1 / 2, rc_top_k = 1, rc_faq_priority = False, rc_faq_boost = 1,
     rc_targets = []\<rparr>"

definition sample_model :: reranker where
  "sample_model n q passages = Some [\<lparr>rr_index = 0, rr_score = 1\<rparr>, \<lparr>rr_index = 1, rr_score = 3 / 4\<rparr>]"

definition poor_model :: reranker where
  "poor_model n q passages = Some [\<lparr>rr_index = 0, rr_score = 0\<rparr>]"

definition sample_found :: hit_state where
  "sample_found = \<lparr>hs_search_result = [sample_hit (lit ''a'') (lit ''one text''), sample_hit (lit ''b'') (lit ''two text'')],
     hs_rerank_result = [], hs_merge_result = []\<rparr>"

lemma apply_mmr_greedy_witness:
  "length (apply_mmr sample_ops (\<lambda>s. s) (hs_search_result sample_found) 1 MMR_LAMBDA) = 1"
proof -
  have "\<forall>h \<in> set (hs_search_result sample_found). 0 \<le> ht_score h" by (simp add: sample_found_def sample_hit_def)
  then obtain idx where "apply_mmr sample_ops (\<lambda>s. s) (hs_search_result sample_found) 1 MMR_LAMBDA = map ((!) (hs_search_result sample_found)) idx"
    "length idx = min 1 (length (hs_search_result sample_found))"
    using apply_mmr_greedy by blast
  then show ?thesis by (simp add: sample_found_def)
qed

lemma sample_texts: "strip (lit ''one text'') \<noteq> [] \<and> strip (lit ''two text'') \<noteq> []"
  by (simp add: strip_def lit_def is_space_def)

lemma sample_candidates: "rerank_candidates sample_ops (\<lambda>s. s) (hs_search_result sample_found) = hs_search_result sample_found"
proof -
  show ?thesis using sample_texts by (simp add: rerank_candidates_def sample_found_def sample_hit_def get_enriched_passage_def)
qed

lemma sample_passages: "map (get_enriched_passage sample_ops (\<lambda>s. s)) (hs_search_result sample_found) = [lit ''one text'', lit ''two text'']"
  by (simp add: sample_found_def sample_hit_def get_enriched_passage_def)

lemma sample_runs: "hs_search_result sample_found \<noteq> [] \<and> rc_model_id sample_rank \<noteq> []"
  by (simp add: sample_found_def sample_rank_def lit_def)

lemma rerank_step_result_witness:
  "\<exists>s1. rerank_step sample_ops (\<lambda>s. s) (Some sample_model) sample_rank True sample_found = (None, s1) \<and>
     hs_rerank_result s1 \<noteq> [] \<and> (\<forall>h \<in> set (hs_rerank_result s1). ht_score h \<le> 1)"
proof -
  let ?cs = "hs_search_result sample_found"
  have "rerank_with_degrade sample_model sample_rank [lit ''one text'', lit ''two text''] = Some (the (sample_model 0 [] []))"
    using sample_texts by (simp add: rerank_with_degrade_def rerank_call_def rank_filter_def sample_model_def sample_rank_def)
  then have a: "rank_answer sample_ops (\<lambda>s. s) sample_model sample_rank ?cs = Some (the (sample_model 0 [] []))"
    using sample_runs by (simp add: rank_answer_def sample_passages)
  have h: "rerank_hits sample_ops sample_rank ?cs (the (sample_model 0 [] [])) =
      Some [rescored sample_ops sample_rank (?cs ! 0) 1, rescored sample_ops sample_rank (?cs ! 1) (3 / 4)]"
    by (simp add: sample_model_def py_index_def sample_found_def)
  let ?out = "apply_mmr sample_ops (\<lambda>s. s) [rescored sample_ops sample_rank (?cs ! 0) 1, rescored sample_ops sample_rank (?cs ! 1) (3 / 4)] 1 MMR_LAMBDA"
  have "length ?out = min 1 2" by (subst apply_mmr_count) (simp_all add: rescored_score)
  then have n: "?out \<noteq> []" by auto
  have r: "rerank_step sample_ops (\<lambda>s. s) (Some sample_model) sample_rank True sample_found =
      (None, sample_found\<lparr>hs_rerank_result := ?out, hs_search_result := publish
        [rescored sample_ops sample_rank (?cs ! 0) 1, rescored sample_ops sample_rank (?cs ! 1) (3 / 4)] ?cs\<rparr>)"
    using n sample_runs by (simp add: rerank_step_run sample_candidates a h Let_def) (simp add: sample_rank_def)
  from rerank_step_result [OF r] show ?thesis using sample_runs n r by (auto simp: sample_found_def)
qed

definition low_rank :: rerank_config where
  "low_rank = sample_rank\<lparr>rc_threshold := 1 / 4\<rparr>"

lemma low_runs: "hs_search_result sample_found \<noteq> [] \<and> rc_model_id low_rank \<noteq> []"
  using sample_runs by (simp add: low_rank_def)

lemma rerank_never_empties_witness:
  "rerank_with_degrade poor_model low_rank
     (map (get_enriched_passage sample_ops (\<lambda>s. s)) (rerank_candidates sample_ops (\<lambda>s. s) (hs_search_result sample_found))) = Some []"
proof -
  have "rerank_call poor_model 0 low_rank (rc_threshold low_rank) [lit ''one text'', lit ''two text''] = Some []"
    using sample_texts constant_order by (simp add: rerank_call_def rank_filter_def poor_model_def sample_rank_def low_rank_def rerank_fallback_min_score_def)
  then have "rerank_with_degrade poor_model low_rank [lit ''one text'', lit ''two text''] = Some []"
    using constant_order by (simp add: rerank_with_degrade_def low_rank_def)
  then have w: "rerank_with_degrade poor_model low_rank
      (map (get_enriched_passage sample_ops (\<lambda>s. s)) (rerank_candidates sample_ops (\<lambda>s. s) (hs_search_result sample_found))) = Some []"
    by (simp only: sample_candidates sample_passages)
  have "rerank_step sample_ops (\<lambda>s. s) (Some poor_model) low_rank True sample_found =
      (Some SEARCH_NOTHING, sample_found\<lparr>hs_rerank_result := [], hs_search_result := publish [] (hs_search_result sample_found)\<rparr>)"
    using low_runs w by (simp add: rerank_step_run rank_answer_def sample_candidates Let_def apply_mmr_def)
  from rerank_never_empties [OF this w] show ?thesis using w by simp
qed

lemma degrade_changes_nothing_witness:
  "rerank_with_degrade poor_model sample_rank [lit ''one text''] = Some []"
proof -
  have "rerank_call poor_model 0 sample_rank (rc_threshold sample_rank) [lit ''one text''] = Some []"
    using sample_texts constant_order by (simp add: rerank_call_def rank_filter_def poor_model_def sample_rank_def low_rank_def rerank_fallback_min_score_def)
  then show ?thesis using degrade_changes_nothing [of poor_model sample_rank "[lit ''one text'']"]
    by (simp add: poor_model_def)
qed

end
