(* ===== verification/Regex.thy ===== *)
theory Regex
  imports KB_Prelude
begin

text \<open>
  Backtracking regular expressions as Python's re matches them: the possible matches of an expression
  at a position are listed in the order in which the matcher tries them, and the first one is the
  match. Greedy and lazy repetition, groups and the anchors that the sources use. A repetition only
  goes on while its body consumes something; no pattern of the sources repeats an empty match.
\<close>

subsection \<open>Expressions\<close>

datatype rx =
    Eps
  | Ch "rune \<Rightarrow> bool"
  | Seq rx rx
  | Alt rx rx
  | Star rx
  | Lazy rx
  | Grp nat rx
  | Bos | Bol | Eol | Fin

fun seqs :: "rx list \<Rightarrow> rx" where
  "seqs [] = Eps"
| "seqs [r] = r"
| "seqs (r # q # rs) = Seq r (seqs (q # rs))"

fun alts :: "rx list \<Rightarrow> rx" where
  "alts [] = Ch (\<lambda>c. False)"
| "alts [r] = r"
| "alts (r # q # rs) = Alt r (alts (q # rs))"

definition chr_rx :: "rune \<Rightarrow> rx" where "chr_rx c = Ch ((=) c)"
definition word_rx :: "str \<Rightarrow> rx" where "word_rx s = seqs (map chr_rx s)"
definition opt_rx :: "rx \<Rightarrow> rx" where "opt_rx r = Alt r Eps"
definition plus_rx :: "rx \<Rightarrow> rx" where "plus_rx r = Seq r (Star r)"
definition lazy_plus_rx :: "rx \<Rightarrow> rx" where "lazy_plus_rx r = Seq r (Lazy r)"

fun times_rx :: "nat \<Rightarrow> rx \<Rightarrow> rx" where
  "times_rx 0 r = Eps"
| "times_rx (Suc n) r = Seq r (times_rx n r)"

fun upto_rx :: "nat \<Rightarrow> rx \<Rightarrow> rx" where
  "upto_rx 0 r = Eps"
| "upto_rx (Suc n) r = Alt (Seq r (upto_rx n r)) Eps"

definition at_least_rx :: "nat \<Rightarrow> rx \<Rightarrow> rx" where "at_least_rx n r = Seq (times_rx n r) (Star r)"
definition between_rx :: "nat \<Rightarrow> nat \<Rightarrow> rx \<Rightarrow> rx" where "between_rx lo hi r = Seq (times_rx lo r) (upto_rx (hi - lo) r)"

subsection \<open>Matching\<close>

text \<open>A position: the text before it (last first), the text after it, and the groups set so far.\<close>

type_synonym place = "str \<times> str \<times> (nat \<times> str) list"

definition rest_of :: "place \<Rightarrow> str" where "rest_of p = fst (snd p)"

function matches :: "rx \<Rightarrow> place \<Rightarrow> place list" where
  "matches Eps p = [p]"
| "matches (Ch P) p = (case rest_of p of [] \<Rightarrow> [] | c # cs \<Rightarrow> if P c then [(c # fst p, cs, snd (snd p))] else [])"
| "matches (Seq r q) p = concat (map (matches q) (matches r p))"
| "matches (Alt r q) p = matches r p @ matches q p"
| "matches (Star r) p =
     concat (map (\<lambda>p1. if length (rest_of p1) < length (rest_of p) then matches (Star r) p1 else []) (matches r p)) @ [p]"
| "matches (Lazy r) p =
     p # concat (map (\<lambda>p1. if length (rest_of p1) < length (rest_of p) then matches (Lazy r) p1 else []) (matches r p))"
| "matches (Grp n r) p =
     map (\<lambda>p1. (fst p1, rest_of p1, (n, take (length (rest_of p) - length (rest_of p1)) (rest_of p)) # snd (snd p1))) (matches r p)"
| "matches Bos p = (if fst p = [] then [p] else [])"
| "matches Bol p = (if fst p = [] \<or> hd (fst p) = 10 then [p] else [])"
| "matches Eol p = (if rest_of p = [] \<or> hd (rest_of p) = 10 then [p] else [])"
| "matches Fin p = (if rest_of p = [] \<or> rest_of p = [10] then [p] else [])"
  by pat_completeness auto
termination
  by (relation "measures [\<lambda>(r, p). size r, \<lambda>(r, p). length (rest_of p)]") auto

declare matches.simps(5,6) [simp del]
lemmas matches_loop = matches.simps(5,6)

definition first_match :: "rx \<Rightarrow> str \<Rightarrow> str \<Rightarrow> place option" where
  "first_match r past s = (case matches r (past, s, []) of [] \<Rightarrow> None | p # ps \<Rightarrow> Some p)"

text \<open>\<open>pattern.search\<close>: where the match starts and ends, and its groups.\<close>

type_synonym found = "nat \<times> nat \<times> (nat \<times> str) list"

fun search_from :: "rx \<Rightarrow> str \<Rightarrow> str \<Rightarrow> found option" where
  "search_from r past [] = map_option (\<lambda>(b, s, g). (length past, length b, g)) (first_match r past [])"
| "search_from r past (c # cs) =
     (case first_match r past (c # cs) of
        Some (b, s, g) \<Rightarrow> Some (length past, length b, g)
      | None \<Rightarrow> search_from r (c # past) cs)"

definition search_rx :: "rx \<Rightarrow> str \<Rightarrow> found option" where
  "search_rx r s = search_from r [] s"

definition occurs :: "rx \<Rightarrow> str \<Rightarrow> bool" where
  "occurs r s \<longleftrightarrow> search_rx r s \<noteq> None"

text \<open>
  \<open>finditer\<close> and \<open>sub\<close>: matches from left to right that do not overlap. For expressions that
  match something: an empty match counts as none.
\<close>

function find_from :: "rx \<Rightarrow> str \<Rightarrow> str \<Rightarrow> found list" where
  "find_from r past s =
     (case first_match r past s of
        Some (b, s1, g) \<Rightarrow>
          if length s1 < length s then (length past, length b, g) # find_from r b s1
          else (case s of [] \<Rightarrow> [] | c # cs \<Rightarrow> find_from r (c # past) cs)
      | None \<Rightarrow> (case s of [] \<Rightarrow> [] | c # cs \<Rightarrow> find_from r (c # past) cs))"
  by pat_completeness auto
termination by (relation "measure (\<lambda>(r, past, s). length s)") auto

definition find_all :: "rx \<Rightarrow> str \<Rightarrow> found list" where
  "find_all r s = find_from r [] s"

function sub_from :: "rx \<Rightarrow> ((nat \<times> str) list \<Rightarrow> str) \<Rightarrow> str \<Rightarrow> str \<Rightarrow> str" where
  "sub_from r f past s =
     (case first_match r past s of
        Some (b, s1, g) \<Rightarrow>
          if length s1 < length s then f g @ sub_from r f b s1
          else (case s of [] \<Rightarrow> [] | c # cs \<Rightarrow> c # sub_from r f (c # past) cs)
      | None \<Rightarrow> (case s of [] \<Rightarrow> [] | c # cs \<Rightarrow> c # sub_from r f (c # past) cs))"
  by pat_completeness auto
termination by (relation "measure (\<lambda>(r, f, past, s). length s)") auto

declare find_from.simps [simp del] sub_from.simps [simp del]

definition sub_rx :: "rx \<Rightarrow> ((nat \<times> str) list \<Rightarrow> str) \<Rightarrow> str \<Rightarrow> str" where
  "sub_rx r f s = sub_from r f [] s"

text \<open>\<open>m.group(n)\<close>.\<close>

definition group_of :: "nat \<Rightarrow> (nat \<times> str) list \<Rightarrow> str" where
  "group_of n g = (case map_of g n of None \<Rightarrow> [] | Some s \<Rightarrow> s)"

subsection \<open>Laws\<close>

lemma matches_consume: "p1 \<in> set (matches r p) \<Longrightarrow> \<exists>w. rest_of p = w @ rest_of p1 \<and> fst p1 = rev w @ fst p"
proof (induction r p arbitrary: p1 rule: matches.induct)
  case (3 r q p)
  then obtain p2 where p2: "p2 \<in> set (matches r p)" "p1 \<in> set (matches q p2)" by auto
  obtain w where "rest_of p = w @ rest_of p2" "fst p2 = rev w @ fst p" using 3(1) [OF p2(1)] by blast
  moreover obtain v where "rest_of p2 = v @ rest_of p1" "fst p1 = rev v @ fst p2" using 3(2) [OF p2] by blast
  ultimately show ?case by (intro exI [of _ "w @ v"]) simp
next
  case (5 r p)
  show ?case
  proof (cases "p1 = p")
    case False
    then obtain p2 where p2: "p2 \<in> set (matches r p)" "length (rest_of p2) < length (rest_of p)" "p1 \<in> set (matches (Star r) p2)"
      using 5(3) by (auto simp: matches_loop(1) [of r p] split: if_splits)
    obtain w where "rest_of p = w @ rest_of p2" "fst p2 = rev w @ fst p" using 5(1) [OF p2(1)] by blast
    moreover obtain v where "rest_of p2 = v @ rest_of p1" "fst p1 = rev v @ fst p2" using 5(2) [OF p2] by blast
    ultimately show ?thesis by (intro exI [of _ "w @ v"]) simp
  qed simp
next
  case (6 r p)
  show ?case
  proof (cases "p1 = p")
    case False
    then obtain p2 where p2: "p2 \<in> set (matches r p)" "length (rest_of p2) < length (rest_of p)" "p1 \<in> set (matches (Lazy r) p2)"
      using 6(3) by (auto simp: matches_loop(2) [of r p] split: if_splits)
    obtain w where "rest_of p = w @ rest_of p2" "fst p2 = rev w @ fst p" using 6(1) [OF p2(1)] by blast
    moreover obtain v where "rest_of p2 = v @ rest_of p1" "fst p1 = rev v @ fst p2" using 6(2) [OF p2] by blast
    ultimately show ?thesis by (intro exI [of _ "w @ v"]) simp
  qed simp
next
  case (2 P p)
  then show ?case by (cases "rest_of p") (auto simp: rest_of_def split: if_splits)
next
  case (7 n r p)
  then obtain p2 where p2: "p2 \<in> set (matches r p)" "fst p1 = fst p2" "rest_of p1 = rest_of p2" by (auto simp: rest_of_def)
  then show ?case using 7(1) [OF p2(1)] by simp
qed (auto split: if_splits)

text \<open>A sufficient test that every match consumes something.\<close>

fun consuming :: "rx \<Rightarrow> bool" where
  "consuming (Ch P) = True"
| "consuming (Seq r q) = (consuming r \<or> consuming q)"
| "consuming (Alt r q) = (consuming r \<and> consuming q)"
| "consuming (Grp n r) = consuming r"
| "consuming _ = False"

lemma matches_shorter: "p1 \<in> set (matches r p) \<Longrightarrow> length (rest_of p1) \<le> length (rest_of p)"
  using matches_consume by fastforce

lemma consuming_shorter: "consuming r \<Longrightarrow> p1 \<in> set (matches r p) \<Longrightarrow> length (rest_of p1) < length (rest_of p)"
proof (induction r arbitrary: p p1)
  case (Seq r q)
  then obtain p2 where p2: "p2 \<in> set (matches r p)" "p1 \<in> set (matches q p2)" by auto
  show ?case
  proof (cases "consuming r")
    case True
    then show ?thesis using Seq.IH(1) [OF True p2(1)] matches_shorter [OF p2(2)] by simp
  next
    case False
    then show ?thesis using Seq.IH(2) [OF _ p2(2)] Seq.prems(1) matches_shorter [OF p2(1)] by simp
  qed
next
  case (Ch P)
  then show ?case by (cases "rest_of p") (auto simp: rest_of_def split: if_splits)
next
  case (Grp n r)
  then obtain p2 where "p2 \<in> set (matches r p)" "rest_of p1 = rest_of p2" by (auto simp: rest_of_def)
  then show ?case using Grp by simp
qed (auto split: if_splits)

lemma first_match_place:
  assumes "first_match r past s = Some (b, s1, g)"
  shows "\<exists>w. s = w @ s1 \<and> b = rev w @ past"
  using matches_consume [of "(b, s1, g)" r "(past, s, [])"] assms
  by (auto simp: first_match_def rest_of_def split: list.splits)

text \<open>Spans of a text: within it, not empty, in order and apart.\<close>

fun spans_from :: "nat \<Rightarrow> nat \<Rightarrow> (nat \<times> nat) list \<Rightarrow> bool" where
  "spans_from lo hi [] = (lo \<le> hi)"
| "spans_from lo hi ((a, b) # ss) = (lo \<le> a \<and> a < b \<and> spans_from b hi ss)"

lemma spans_from_mono: "spans_from lo hi ss \<Longrightarrow> lo' \<le> lo \<Longrightarrow> spans_from lo' hi ss"
  by (cases "(lo, hi, ss)" rule: spans_from.cases) auto

definition span_of :: "found \<Rightarrow> nat \<times> nat" where "span_of m = (fst m, fst (snd m))"

lemma span_of_simp [simp]: "span_of (a, b, g) = (a, b)" by (simp add: span_of_def)

lemma find_from_spans:
  "spans_from (length past) (length past + length s) (map span_of (find_from r past s))"
proof (induction r past s rule: find_from.induct)
  case (1 r past s)
  have skip: "spans_from (length past) (length past + length s)
      (map span_of (case s of [] \<Rightarrow> [] | c # cs \<Rightarrow> find_from r (c # past) cs))"
    if "\<And>c cs. s = c # cs \<Longrightarrow> spans_from (length (c # past)) (length (c # past) + length cs)
      (map span_of (find_from r (c # past) cs))"
    using that by (cases s) (auto intro: spans_from_mono)
  show ?case
  proof (cases "first_match r past s")
    case None
    then show ?thesis using skip 1(1) [OF None] None unfolding find_from.simps [of r past s] by (simp add: ac_simps)
  next
    case (Some p)
    obtain b s1 g where p: "p = (b, s1, g)" by (cases p) auto
    obtain w where w: "s = w @ s1" "b = rev w @ past" using first_match_place Some p by blast
    show ?thesis
    proof (cases "length s1 < length s")
      case True
      then show ?thesis using 1(2) [OF Some p [symmetric] refl True] Some p w unfolding find_from.simps [of r past s] by (simp add: ac_simps)
    next
      case False
      then show ?thesis using 1(3) [OF Some p [symmetric] refl False] Some p skip unfolding find_from.simps [of r past s] by (simp add: ac_simps)
    qed
  qed
qed

lemma find_all_spans: "spans_from 0 (length s) (map span_of (find_all r s))"
  using find_from_spans [of "[]" s r] by (simp add: find_all_def)

end
