(* ===== verification/Chunk_Patterns.thy ===== *)
theory Chunk_Patterns
  imports Regex Merge_Text
begin

text \<open>
  The patterns of the text chunker, src/src/core/knowledge/documents/chunker: protected regions
  (splitter.py), table headers (header_tracker.py) and section marks (patterns.py), and its language
  and token estimates (tokens.py). Unicode digits and letters are parameters.
\<close>

subsection \<open>Character classes\<close>

record char_ops =
  co_digit :: "rune \<Rightarrow> bool"
  co_alnum :: "rune \<Rightarrow> bool"

definition one_of :: "str \<Rightarrow> rx" where "one_of cs = Ch (\<lambda>c. c \<in> set cs)"
definition none_of :: "str \<Rightarrow> rx" where "none_of cs = Ch (\<lambda>c. c \<notin> set cs)"
definition any_rx :: rx where "any_rx = Ch (\<lambda>c. True)"
definition dot_rx :: rx where "dot_rx = none_of [10]"
definition space_rx :: rx where "space_rx = Ch is_space"
definition visible_rx :: rx where "visible_rx = Ch (\<lambda>c. \<not> is_space c)"
definition digit_rx :: "char_ops \<Rightarrow> rx" where "digit_rx co = Ch (\<lambda>c. (48 \<le> c \<and> c \<le> 57) \<or> (128 \<le> c \<and> co_digit co c))"
definition word_char_rx :: "char_ops \<Rightarrow> rx" where "word_char_rx co = Ch (is_word (co_alnum co))"
definition blank_rx :: rx where "blank_rx = one_of [32, 9]"
definition newline_rx :: rx where "newline_rx = one_of [13, 10]"

subsection \<open>Protected regions\<close>

definition latex_rx :: rx where "latex_rx = seqs [word_rx [36, 36], Lazy any_rx, word_rx [36, 36]]"

definition link_rx :: rx where
  "link_rx = seqs [chr_rx 91, Star (none_of [93]), chr_rx 93, chr_rx 40, plus_rx (none_of [41]), chr_rx 41]"

definition image_rx :: rx where "image_rx = Seq (chr_rx 33) link_rx"

definition cell_rx :: rx where "cell_rx = Seq (chr_rx 124) (Star (none_of [124, 10]))"

definition rule_cell_rx :: rx where
  "rule_cell_rx = seqs [chr_rx 124, Star space_rx, opt_rx (chr_rx 58), at_least_rx 3 (chr_rx 45), opt_rx (chr_rx 58), Star space_rx]"

definition table_head_rx :: rx where
  "table_head_rx = seqs [Star (chr_rx 32), plus_rx cell_rx, chr_rx 124, plus_rx newline_rx, Star space_rx,
     plus_rx rule_cell_rx, chr_rx 124, plus_rx newline_rx]"

definition table_rows_rx :: rx where
  "table_rows_rx = seqs [Star (chr_rx 32), plus_rx cell_rx, chr_rx 124, plus_rx newline_rx]"

definition fence_rx :: "char_ops \<Rightarrow> rx" where
  "fence_rx co = seqs [word_rx [96, 96, 96], opt_rx (plus_rx (word_char_rx co)), newline_rx, Lazy any_rx, word_rx [96, 96, 96]]"

definition code_rx :: rx where "code_rx = seqs [chr_rx 96, plus_rx (none_of [96, 13, 10]), chr_rx 96]"

definition PROTECTED_PATTERNS :: "char_ops \<Rightarrow> rx list" where
  "PROTECTED_PATTERNS co = [latex_rx, image_rx, link_rx, table_head_rx, table_rows_rx, fence_rx co, code_rx]"

subsection \<open>Table headers\<close>

definition TABLE_HEADER_START_PATTERN :: rx where
  "TABLE_HEADER_START_PATTERN = seqs [Bos, Star space_rx, plus_rx cell_rx, plus_rx newline_rx, Star space_rx,
     plus_rx rule_cell_rx, opt_rx (chr_rx 124), plus_rx newline_rx, Fin]"

definition TABLE_HEADER_END_PATTERN :: rx where
  "TABLE_HEADER_END_PATTERN = Alt (seqs [Bos, Star space_rx, Fin])
     (seqs [Bos, Star space_rx, Ch (\<lambda>c. c \<noteq> 124 \<and> \<not> is_space c), Star any_rx, Fin])"

definition TABLE_ROW_PATTERN :: rx where
  "TABLE_ROW_PATTERN = seqs [Bol, Star space_rx, plus_rx cell_rx, chr_rx 124, Star space_rx, Eol]"

subsection \<open>Sections\<close>

definition MARKDOWN_HEADING_PATTERN :: rx where
  "MARKDOWN_HEADING_PATTERN = seqs [Bol, Grp 1 (between_rx 1 6 (chr_rx 35)), plus_rx space_rx, Grp 2 (lazy_plus_rx dot_rx),
     Star space_rx, Star (chr_rx 35), Star space_rx, Eol]"

definition roman_rx :: rx where "roman_rx = between_rx 1 5 (one_of (lit ''IVX''))"
definition tail_rx :: rx where "tail_rx = upto_rx 200 dot_rx"

definition NUMBERED_SECTION_PATTERN :: "char_ops \<Rightarrow> rx" where
  "NUMBERED_SECTION_PATTERN co = seqs [Bol, Star blank_rx,
     Alt (seqs [plus_rx (digit_rx co), between_rx 1 3 (Seq (chr_rx 46) (plus_rx (digit_rx co))), opt_rx (chr_rx 46)])
       (Seq (Alt (plus_rx (digit_rx co)) roman_rx) (chr_rx 46)),
     plus_rx blank_rx, visible_rx, tail_rx, Eol]"

definition is_capital :: "rune \<Rightarrow> bool" where "is_capital c \<longleftrightarrow> (65 \<le> c \<and> c \<le> 90) \<or> c \<in> {196, 214, 220}"

definition ALL_CAPS_HEADING_PATTERN :: rx where
  "ALL_CAPS_HEADING_PATTERN = seqs [Bol, Star blank_rx,
     Grp 1 (Seq (Ch is_capital) (between_rx 3 80 (Ch (\<lambda>c. is_capital c \<or> c = 32 \<or> c = 45)))),
     opt_rx (chr_rx 58), Star space_rx, Eol]"

definition VISUAL_SEPARATOR_PATTERN :: rx where
  "VISUAL_SEPARATOR_PATTERN = seqs [Bol, Star blank_rx, alts (map (\<lambda>c. at_least_rx 3 (chr_rx c)) [45, 61, 42, 95]), Star blank_rx, Eol]"

definition EXCESSIVE_BLANKS_PATTERN :: rx where "EXCESSIVE_BLANKS_PATTERN = at_least_rx 3 (chr_rx 10)"

text \<open>A letter under \<open>re.IGNORECASE\<close>, from its lower-case form.\<close>

definition ci_word_rx :: "str \<Rightarrow> rx" where "ci_word_rx s = seqs (map (\<lambda>c. Ch (ci_char c)) s)"

definition PAGE_FOOTER_PATTERN :: "char_ops \<Rightarrow> rx" where
  "PAGE_FOOTER_PATTERN co = seqs [Bol, Star blank_rx,
     alts [ci_word_rx (lit ''seite''), ci_word_rx (lit ''page''), Seq (chr_rx 39029) (opt_rx (chr_rx 30721))],
     plus_rx space_rx, plus_rx (digit_rx co),
     opt_rx (seqs [Star space_rx, alts [ci_word_rx (lit ''von''), ci_word_rx (lit ''of''), chr_rx 47], Star space_rx, plus_rx (digit_rx co)]),
     Star blank_rx, Eol]"

definition chapter_rx :: "str list \<Rightarrow> rx" where
  "chapter_rx names = seqs [Bol, Star blank_rx, alts (map word_rx names), plus_rx space_rx,
     Alt (plus_rx (Ch (\<lambda>c. 48 \<le> c \<and> c \<le> 57))) roman_rx, one_of [46, 58, 32], tail_rx, Eol]"

definition GERMAN_CHAPTER_PATTERN :: rx where
  "GERMAN_CHAPTER_PATTERN = chapter_rx [lit ''Kapitel'', lit ''Abschnitt'', lit ''Teil'']"

definition ENGLISH_CHAPTER_PATTERN :: rx where
  "ENGLISH_CHAPTER_PATTERN = chapter_rx [lit ''Chapter'', lit ''Section'', lit ''Part'']"

definition chinese_numeral :: "rune \<Rightarrow> bool" where
  "chinese_numeral c \<longleftrightarrow> (48 \<le> c \<and> c \<le> 57) \<or>
     c \<in> {19968, 20108, 19977, 22235, 20116, 20845, 19971, 20843, 20061, 21313, 30334, 21315, 38646, 12295}"

definition CHINESE_CHAPTER_PATTERN :: rx where
  "CHINESE_CHAPTER_PATTERN = seqs [Bol, Star blank_rx, chr_rx 31532, Star blank_rx, plus_rx (Ch chinese_numeral), Star blank_rx,
     alts [chr_rx 31456, chr_rx 33410, chr_rx 31680, word_rx [37096, 20998], chr_rx 31687], opt_rx blank_rx, tail_rx, Eol]"

subsection \<open>Languages and tokens\<close>

definition LangEnglish :: str where "LangEnglish = lit ''en''"
definition LangGerman :: str where "LangGerman = lit ''de''"
definition LangChinese :: str where "LangChinese = lit ''zh''"
definition LangMixed :: str where "LangMixed = lit ''mixed''"

definition chars_per_token :: "str \<Rightarrow> rat" where
  "chars_per_token lang =
     (if lang = LangEnglish then 4 else if lang = LangGerman then 9 / 2 else if lang = LangChinese then fl64 (17 / 10) else 3)"

definition is_cjk :: "rune \<Rightarrow> bool" where
  "is_cjk c \<longleftrightarrow> list_ex (\<lambda>(lo, hi). lo \<le> c \<and> c \<le> hi)
     [(19968, 40959), (13312, 19903), (63744, 64255), (12352, 12447), (12448, 12543), (44032, 55215), (4352, 4607), (12592, 12687)]"

definition is_german_umlaut :: "rune \<Rightarrow> bool" where "is_german_umlaut c \<longleftrightarrow> c \<in> {228, 246, 252, 196, 214, 220, 223}"

definition ascii_lower :: "rune \<Rightarrow> rune" where "ascii_lower c = (if 65 \<le> c \<and> c \<le> 90 then c + 32 else c)"

definition contains_lower :: "str \<Rightarrow> str \<Rightarrow> bool" where "contains_lower haystack needle \<longleftrightarrow> contains_str needle (map ascii_lower haystack)"

definition GERMAN_STOPWORDS :: "str list" where
  "GERMAN_STOPWORDS = map (\<lambda>w. [32] @ lit w @ [32]) [''der'', ''die'', ''das'', ''und'', ''ist'', ''nicht'', ''mit'', ''auf'']"

definition has_german_words :: "str \<Rightarrow> bool" where
  "has_german_words s \<longleftrightarrow> list_ex (contains_lower (take 512 s)) GERMAN_STOPWORDS"

definition detect_language :: "str \<Rightarrow> str" where
  "detect_language s =
     (let cjk = length (filter is_cjk s);
          umlaut = length (filter (\<lambda>c. \<not> is_cjk c \<and> is_german_umlaut c) s);
          latin = length (filter (\<lambda>c. \<not> is_cjk c \<and> (is_german_umlaut c \<or> (97 \<le> c \<and> c \<le> 122) \<or> (65 \<le> c \<and> c \<le> 90))) s);
          total = cjk + latin
      in if s = [] \<or> total = 0 then LangMixed
         else if fl64 (15 / 100) \<le> float_div cjk total \<and> fl64 (15 / 100) \<le> float_div latin total then LangMixed
         else if fl64 (3 / 10) < float_div cjk total then LangChinese
         else if 0 < umlaut \<or> has_german_words s then LangGerman else LangEnglish)"

definition approx_token_count_from_rune_len :: "int \<Rightarrow> str \<Rightarrow> int" where
  "approx_token_count_from_rune_len rune_len lang =
     (let approx = fl64 (of_int rune_len / chars_per_token lang)
      in if rune_len \<le> 0 then 0 else if approx < 1 then 1 else trunc (fl64 (approx + 1 / 2)))"

definition approx_token_count :: "str \<Rightarrow> str \<Rightarrow> int" where
  "approx_token_count s lang = (if s = [] then 0 else approx_token_count_from_rune_len (int (length s)) lang)"

definition chars_for_token_limit :: "int \<Rightarrow> str \<Rightarrow> int" where
  "chars_for_token_limit tokens lang =
     (if tokens \<le> 0 then 0 else trunc (fl64 (fl64 (of_int tokens * chars_per_token lang) * fl64 (9 / 10))))"

subsection \<open>Patterns and separators by language\<close>

definition sentence_separators :: "str \<Rightarrow> str list" where
  "sentence_separators lang =
     (let cjk = [[12290], [65281], [65311], [65307]]; latin = [[46, 32], [33, 32], [63, 32], [59, 32]]
      in if lang = LangChinese then cjk @ [[10]] else if lang = LangGerman \<or> lang = LangEnglish then latin @ [[10]]
         else cjk @ latin @ [[10]])"

definition chapter_patterns_for_langs :: "str list \<Rightarrow> rx list" where
  "chapter_patterns_for_langs langs =
     (let all_patterns = [GERMAN_CHAPTER_PATTERN, ENGLISH_CHAPTER_PATTERN, CHINESE_CHAPTER_PATTERN];
          out = concat (map (\<lambda>lang. if lang = LangGerman then [GERMAN_CHAPTER_PATTERN]
            else if lang = LangEnglish then [ENGLISH_CHAPTER_PATTERN]
            else if lang = LangChinese then [CHINESE_CHAPTER_PATTERN] else []) langs)
      in if out = [] then all_patterns else out)"

end
