(* ===== verification/Chunk_Splitter.thy ===== *)
theory Chunk_Splitter
  imports Chunk_Patterns
begin

text \<open>
  The table-header tracker and the recursive splitter of the text chunker,
  src/src/core/knowledge/documents/chunker/header_tracker.py and splitter.py. Positions are indices of
  code points. The tracker has the one hook of the code, so each of its dictionaries has at most the
  key of that hook; it is kept as an optional header and flags.
\<close>

subsection \<open>Texts\<close>

definition slice :: "str \<Rightarrow> nat \<Rightarrow> nat \<Rightarrow> str" where "slice text a b = take (b - a) (drop a text)"

text \<open>\<open>text.split("\n")\<close>.\<close>

fun lines_of :: "str \<Rightarrow> str list" where
  "lines_of [] = [[]]"
| "lines_of (c # cs) = (if c = 10 then [] # lines_of cs else (c # hd (lines_of cs)) # tl (lines_of cs))"

definition ends_with :: "str \<Rightarrow> str \<Rightarrow> bool" where "ends_with tail s \<longleftrightarrow> starts_with (rev tail) (rev s)"

definition rstrip_of :: "str \<Rightarrow> str \<Rightarrow> str" where "rstrip_of cs s = rev (dropWhile (\<lambda>c. c \<in> set cs) (rev s))"

fun split_on :: "rune \<Rightarrow> str \<Rightarrow> str list" where
  "split_on d [] = [[]]"
| "split_on d (c # cs) = (if c = d then [] # split_on d cs else (c # hd (split_on d cs)) # tl (split_on d cs))"

definition dashes :: str where "dashes = [45, 45, 45]"

subsection \<open>The header tracker\<close>

definition only_pipes :: "str \<Rightarrow> bool" where "only_pipes s \<longleftrightarrow> list_all (\<lambda>c. c \<in> {124, 9, 32}) s"

definition is_empty_table_header_row :: "str \<Rightarrow> bool" where
  "is_empty_table_header_row header = (case find_str [10] header of None \<Rightarrow> False | Some i \<Rightarrow> only_pipes (strip (take i header)))"

definition extract_separator_line :: "str \<Rightarrow> str" where
  "extract_separator_line header = (case find (contains_str dashes) (lines_of header) of None \<Rightarrow> [] | Some l \<Rightarrow> l @ [10])"

definition split_ends_with_paragraph_break :: "str \<Rightarrow> bool" where
  "split_ends_with_paragraph_break s =
     (let t = rstrip_of [32, 9, 13] s in ends_with [10, 10] t \<or> ends_with [13, 10, 13, 10] t)"

definition table_row_column_count :: "str \<Rightarrow> nat" where
  "table_row_column_count line0 =
     (let line = strip line0; parts = split_on 124 line;
          p1 = (if strip (hd parts) = [] then tl parts else parts);
          p2 = (if p1 \<noteq> [] \<and> strip (last p1) = [] then butlast p1 else p1)
      in if \<not> starts_with [124] line then 0 else length p2)"

definition first_table_row_column_count :: "str \<Rightarrow> nat" where
  "first_table_row_column_count text =
     (case find (\<lambda>l. l \<noteq> [] \<and> occurs TABLE_ROW_PATTERN l) (map strip (lines_of text)) of
        None \<Rightarrow> 0 | Some l \<Rightarrow> table_row_column_count l)"

definition header_table_column_count :: "str \<Rightarrow> nat" where
  "header_table_column_count header =
     (case find ((<) 0) (map table_row_column_count (filter (\<lambda>l. l \<noteq> [] \<and> \<not> contains_str dashes l) (map strip (lines_of header)))) of
        None \<Rightarrow> 0 | Some n \<Rightarrow> n)"

definition header_column_mismatch :: "str \<Rightarrow> str \<Rightarrow> bool" where
  "header_column_mismatch headers next_unit \<longleftrightarrow>
     0 < header_table_column_count headers \<and> 0 < first_table_row_column_count next_unit \<and>
     header_table_column_count headers \<noteq> first_table_row_column_count next_unit"

record tracker =
  tk_active :: "str option"
  tk_ended :: bool
  tk_pending_extend :: bool
  tk_pending_table_break :: bool
  tk_header_ended :: bool

definition new_tracker :: tracker where
  "new_tracker = \<lparr>tk_active = None, tk_ended = False, tk_pending_extend = False, tk_pending_table_break = False, tk_header_ended = False\<rparr>"

definition clear_table_header :: "tracker \<Rightarrow> tracker" where
  "clear_table_header t = t\<lparr>tk_ended := True, tk_active := None, tk_pending_extend := False\<rparr>"

definition end_on_column_mismatch :: "str \<Rightarrow> tracker \<Rightarrow> tracker" where
  "end_on_column_mismatch s t =
     (case tk_active t of None \<Rightarrow> t
      | Some header \<Rightarrow> if header_column_mismatch header s then (clear_table_header t)\<lparr>tk_header_ended := True\<rparr> else t)"

text \<open>The steps of \<open>update\<close>: a pending break, the end marks (1, 1b), an empty header row (2), a new header (3, 4).\<close>

definition resolve_break :: "str \<Rightarrow> tracker \<Rightarrow> tracker" where
  "resolve_break s t0 =
     (let t = t0\<lparr>tk_header_ended := False\<rparr>
      in if \<not> tk_pending_table_break t then t
         else let t1 = t\<lparr>tk_pending_table_break := False\<rparr>
              in if tk_active t1 = None then t1
                 else if 0 < first_table_row_column_count s then (clear_table_header t1)\<lparr>tk_header_ended := True\<rparr>
                 else clear_table_header t1)"

definition end_headers :: "str \<Rightarrow> tracker \<Rightarrow> tracker" where
  "end_headers s t =
     (let t1 = (if tk_active t \<noteq> None \<and> occurs TABLE_HEADER_END_PATTERN s then clear_table_header t else t)
      in if tk_active t1 \<noteq> None \<and> \<not> tk_pending_extend t1 then
           (if split_ends_with_paragraph_break s then t1\<lparr>tk_pending_table_break := True\<rparr> else end_on_column_mismatch s t1)
         else t1)"

definition extend_header :: "str \<Rightarrow> tracker \<Rightarrow> tracker" where
  "extend_header s t =
     (if \<not> tk_pending_extend t then t
      else (case tk_active t of
          None \<Rightarrow> t
        | Some h \<Rightarrow> if occurs TABLE_ROW_PATTERN s then t\<lparr>tk_active := Some (s @ extract_separator_line h)\<rparr> else t)\<lparr>tk_pending_extend := False\<rparr>)"

definition start_header :: "str \<Rightarrow> tracker \<Rightarrow> tracker" where
  "start_header s t =
     (let t1 = (if tk_active t \<noteq> None \<or> tk_ended t then t
                else case search_rx TABLE_HEADER_START_PATTERN s of
                  None \<Rightarrow> t
                | Some (a, b, g) \<Rightarrow>
                    let h = slice s a b
                    in t\<lparr>tk_active := Some h, tk_pending_extend := (is_empty_table_header_row h \<or> tk_pending_extend t)\<rparr>)
      in if tk_active t1 = None then t1\<lparr>tk_ended := False\<rparr> else t1)"

definition tracker_update :: "str \<Rightarrow> tracker \<Rightarrow> tracker" where
  "tracker_update s t = start_header s (extend_header s (end_headers s (resolve_break s t)))"

definition get_headers :: "tracker \<Rightarrow> str" where
  "get_headers t = (case tk_active t of None \<Rightarrow> [] | Some h \<Rightarrow> h)"

subsection \<open>Chunks and configuration\<close>

record chunk =
  ck_content :: str
  ck_context_header :: str
  ck_seq :: nat
  ck_start :: nat
  ck_end :: nat

definition embedding_content :: "chunk \<Rightarrow> str" where
  "embedding_content c = (if ck_context_header c = [] then strip (ck_content c) else ck_context_header c @ [10, 10] @ strip (ck_content c))"

record splitter_config =
  sc_chunk_size :: int
  sc_chunk_overlap :: int
  sc_separators :: "str list"
  sc_strategy :: str
  sc_token_limit :: int
  sc_languages :: "str list"

record child_chunk =
  cc_chunk :: chunk
  cc_parent_index :: int

definition DEFAULT_CHUNK_SIZE :: int where "DEFAULT_CHUNK_SIZE = 512"
definition DEFAULT_CHUNK_OVERLAP :: int where "DEFAULT_CHUNK_OVERLAP = 80"
definition DEFAULT_SEPARATORS :: "str list" where "DEFAULT_SEPARATORS = [[10, 10], [10], [12290]]"
definition MAX_PROTECTED_SIZE :: nat where "MAX_PROTECTED_SIZE = 7500"
definition ABSOLUTE_MAX_SIZE :: nat where "ABSOLUTE_MAX_SIZE = 7500"

definition default_config :: splitter_config where
  "default_config = \<lparr>sc_chunk_size = DEFAULT_CHUNK_SIZE, sc_chunk_overlap = DEFAULT_CHUNK_OVERLAP, sc_separators = DEFAULT_SEPARATORS,
     sc_strategy = [], sc_token_limit = 0, sc_languages = []\<rparr>"

type_synonym span = "nat \<times> nat"

record split_unit =
  un_text :: str
  un_start :: nat
  un_end :: nat

subsection \<open>Units\<close>

fun keep_disjoint :: "nat \<Rightarrow> span list \<Rightarrow> span list" where
  "keep_disjoint last_end [] = []"
| "keep_disjoint last_end ((a, b) # ss) = (if last_end \<le> a then (a, b) # keep_disjoint b ss else keep_disjoint last_end ss)"

definition protected_spans :: "char_ops \<Rightarrow> str \<Rightarrow> span list" where
  "protected_spans co text =
     keep_disjoint 0 (sort_key (\<lambda>(a, b). (a, - int (b - a)))
       (concat (map (\<lambda>r. map span_of (find_all r text)) (PROTECTED_PATTERNS co))))"

text \<open>The pieces of \<open>re.split\<close> with a captured separator, the empty ones dropped.\<close>

function split_keeping :: "str \<Rightarrow> str \<Rightarrow> str \<Rightarrow> str list" where
  "split_keeping sep piece text =
     (if text = [] then [piece]
      else if sep \<noteq> [] \<and> starts_with sep text then piece # sep # split_keeping sep [] (drop (length sep) text)
      else split_keeping sep (piece @ [hd text]) (tl text))"
  by pat_completeness auto
termination by (relation "measure (\<lambda>(sep, piece, text). length text)") (auto simp: neq_Nil_conv)

declare split_keeping.simps [simp del]

definition pieces_at :: "str \<Rightarrow> str \<Rightarrow> str list" where
  "pieces_at sep text = filter (\<lambda>p. p \<noteq> []) (split_keeping sep [] text)"

fun split_by_separators :: "str \<Rightarrow> str list \<Rightarrow> nat \<Rightarrow> str list" where
  "split_by_separators text [] chunk_size = [text]"
| "split_by_separators text (sep # remaining) chunk_size =
     (if text = [] \<or> (0 < chunk_size \<and> length text \<le> chunk_size) then [text]
      else if sep = [] \<or> length (pieces_at sep text) \<le> 1 then split_by_separators text remaining chunk_size
      else concat (map (\<lambda>p. if 0 < chunk_size \<and> chunk_size < length p \<and> remaining \<noteq> []
        then split_by_separators p remaining chunk_size else [p]) (pieces_at sep text)))"

text \<open>Where a forced piece ends: the limit, or just after a newline or space among its last 200 characters.\<close>

definition cut_end :: "nat \<Rightarrow> str \<Rightarrow> nat \<Rightarrow> nat" where
  "cut_end limit text offset =
     (let chunk_end = offset + limit
      in if length text < chunk_end then length text
         else case find (\<lambda>i. text ! i = 10 \<or> text ! i = 32) (rev [max (Suc offset) (chunk_end - 199)..<chunk_end]) of
           Some i \<Rightarrow> Suc i | None \<Rightarrow> chunk_end)"

lemma find_in_set: "find P xs = Some x \<Longrightarrow> x \<in> set xs"
  by (induction xs) (auto split: if_splits)

lemma cut_end_range: "0 < limit \<Longrightarrow> offset < length s \<Longrightarrow>
    offset < cut_end limit s offset \<and> cut_end limit s offset \<le> length s \<and> cut_end limit s offset \<le> offset + limit"
  by (auto simp: cut_end_def Let_def split: option.splits dest!: find_in_set)

lemma cut_end_later: "0 < limit \<Longrightarrow> \<not> length s \<le> offset \<Longrightarrow> length s - cut_end limit s offset < length s - offset"
  using cut_end_range [of limit offset s] by linarith

function forced_cuts :: "nat \<Rightarrow> str \<Rightarrow> nat \<Rightarrow> span list" where
  "forced_cuts limit text offset =
     (if limit = 0 \<or> length text \<le> offset then []
      else (offset, cut_end limit text offset) # forced_cuts limit text (cut_end limit text offset))"
  by pat_completeness auto
termination by (relation "measure (\<lambda>(limit, s, offset). length s - offset)") (auto intro: cut_end_later)

declare forced_cuts.simps [simp del]

fun units_at :: "nat \<Rightarrow> str list \<Rightarrow> split_unit list" where
  "units_at offset [] = []"
| "units_at offset (p # ps) = \<lparr>un_text = p, un_start = offset, un_end = offset + length p\<rparr> # units_at (offset + length p) ps"

definition protected_units :: "str \<Rightarrow> nat \<Rightarrow> split_unit list" where
  "protected_units prot rune_pos =
     (if MAX_PROTECTED_SIZE < length prot
      then map (\<lambda>(a, b). \<lparr>un_text = slice prot a b, un_start = rune_pos + a, un_end = rune_pos + a + (b - a)\<rparr>) (forced_cuts MAX_PROTECTED_SIZE prot 0)
      else [\<lparr>un_text = prot, un_start = rune_pos, un_end = rune_pos + length prot\<rparr>])"

fun build_units :: "str \<Rightarrow> span list \<Rightarrow> str list \<Rightarrow> nat \<Rightarrow> nat \<Rightarrow> nat \<Rightarrow> split_unit list" where
  "build_units text [] separators chunk_size pos rune_pos =
     (if pos < length text then units_at rune_pos (split_by_separators (drop pos text) separators chunk_size) else [])"
| "build_units text ((a, b) # ss) separators chunk_size pos rune_pos =
     (let pre = (if pos < a then slice text pos a else []);
          prot = slice text a b;
          rune1 = rune_pos + length pre
      in (if pos < a then units_at rune_pos (split_by_separators pre separators chunk_size) else []) @
         protected_units prot rune1 @ build_units text ss separators chunk_size b (rune1 + length prot))"

definition build_units_with_protection :: "str \<Rightarrow> span list \<Rightarrow> str list \<Rightarrow> nat \<Rightarrow> split_unit list" where
  "build_units_with_protection text protected_regions separators chunk_size = build_units text protected_regions separators chunk_size 0 0"

end
