(* ===== verification/Chunk_Merge.thy ===== *)
theory Chunk_Merge
  imports Chunk_Splitter
begin

text \<open>
  Merging split units into chunks, src/src/core/knowledge/documents/chunker/splitter.py: overlaps that
  start at a semantic boundary, table headers repeated at the start of a chunk, the two-level split
  and image references.
\<close>

definition units_text :: "split_unit list \<Rightarrow> str" where "units_text us = concat (map un_text us)"

definition header_column_row :: "str \<Rightarrow> str" where
  "header_column_row header =
     (case find (\<lambda>l. l \<noteq> [] \<and> \<not> contains_str dashes l \<and> \<not> only_pipes l) (map strip (lines_of header)) of None \<Rightarrow> [] | Some l \<Rightarrow> l)"

definition header_already_present :: "str \<Rightarrow> str \<Rightarrow> str \<Rightarrow> bool" where
  "header_already_present headers overlap_text unit_text \<longleftrightarrow>
     contains_str headers overlap_text \<or> contains_str headers unit_text \<or>
     (header_column_row headers \<noteq> [] \<and>
      (contains_str (header_column_row headers) overlap_text \<or> contains_str (header_column_row headers) unit_text))"

subsection \<open>Semantic boundaries\<close>

text \<open>Candidates with their priorities, in the order in which they are considered.\<close>

function paragraph_breaks :: "nat \<Rightarrow> str \<Rightarrow> span list" where
  "paragraph_breaks i s =
     (if s = [] then []
      else if starts_with [13, 10, 13, 10] s then (i, i + 4) # paragraph_breaks (i + 4) (drop 4 s)
      else if starts_with [10, 10] s then (i, i + 2) # paragraph_breaks (i + 2) (drop 2 s)
      else paragraph_breaks (Suc i) (tl s))"
  by pat_completeness auto
termination by (relation "measure (\<lambda>(i, s). length s)") (auto simp: neq_Nil_conv)

definition in_spans :: "span list \<Rightarrow> nat \<Rightarrow> bool" where "in_spans ss i \<longleftrightarrow> list_ex (\<lambda>(a, b). a \<le> i \<and> i < b) ss"

function line_breaks :: "span list \<Rightarrow> nat \<Rightarrow> str \<Rightarrow> span list" where
  "line_breaks paras i s =
     (if s = [] then []
      else if in_spans paras i then line_breaks paras (Suc i) (tl s)
      else if starts_with [13, 10] s \<and> \<not> in_spans paras (Suc i) then (i, i + 2) # line_breaks paras (i + 2) (drop 2 s)
      else if hd s = 10 then (i, Suc i) # line_breaks paras (Suc i) (tl s)
      else line_breaks paras (Suc i) (tl s))"
  by pat_completeness auto
termination by (relation "measure (\<lambda>(paras, i, s). length s)") (auto simp: neq_Nil_conv)

declare paragraph_breaks.simps [simp del] line_breaks.simps [simp del]

definition sentence_ends :: "str \<Rightarrow> span list" where
  "sentence_ends text = concat (map (\<lambda>i.
     if text ! i \<in> {12290, 65311, 65281} then [(i, Suc i)]
     else if text ! i \<in> {46, 63, 33} \<and> Suc i < length text \<and> text ! Suc i = 32 then [(i, i + 2)] else []) [0..<length text])"

fun inside_protected :: "span list \<Rightarrow> nat \<Rightarrow> bool" where
  "inside_protected [] pos = False"
| "inside_protected ((a, b) # ss) pos = (if pos < a then False else if pos < b then True else inside_protected ss pos)"

type_synonym candidate = "nat \<times> nat \<times> nat"

definition boundary_ok :: "str \<Rightarrow> span list \<Rightarrow> nat \<Rightarrow> candidate \<Rightarrow> bool" where
  "boundary_ok text prot min_end c = (case c of (a, b, priority) \<Rightarrow>
     a < b \<and> min_end \<le> b \<and> b < length text \<and> \<not> inside_protected prot a \<and> strip (drop b text) \<noteq> [])"

definition better_boundary :: "candidate option \<Rightarrow> candidate \<Rightarrow> candidate option" where
  "better_boundary best c = (case best of None \<Rightarrow> Some c
     | Some b \<Rightarrow> if snd (snd c) < snd (snd b) \<or> snd (snd c) = snd (snd b) \<and> fst c < fst b then Some c else best)"

definition boundary_candidates :: "str \<Rightarrow> candidate list" where
  "boundary_candidates text =
     (let paras = paragraph_breaks 0 text
      in map (\<lambda>(a, b). (a, b, 1)) paras @ map (\<lambda>(a, b). (a, b, 2)) (line_breaks paras 0 text) @
         map (\<lambda>(a, b). (a, b, 3)) (sentence_ends text))"

definition find_semantic_overlap_boundary_ending_at_or_after :: "char_ops \<Rightarrow> str \<Rightarrow> nat \<Rightarrow> nat option" where
  "find_semantic_overlap_boundary_ending_at_or_after co text min_end =
     (if text = [] \<or> length text < min_end then None
      else map_option (\<lambda>c. fst (snd c))
        (foldl better_boundary None (filter (boundary_ok text (protected_spans co text) min_end) (boundary_candidates text))))"

subsection \<open>Overlap\<close>

fun window_from :: "nat \<Rightarrow> split_unit list \<Rightarrow> split_unit list" where
  "window_from remaining [] = []"
| "window_from remaining (u # us) =
     (let n = length (un_text u)
      in if remaining = 0 then []
         else if n = 0 then window_from remaining us
         else if un_start u = un_end u \<or> un_start u + n \<noteq> un_end u then []
         else if n \<le> remaining then u # window_from (remaining - n) us
         else [u\<lparr>un_text := drop (n - remaining) (un_text u), un_start := un_start u + (n - remaining)\<rparr>])"

definition semantic_overlap_window :: "split_unit list \<Rightarrow> nat \<Rightarrow> split_unit list" where
  "semantic_overlap_window current max_len = rev (window_from max_len (rev current))"

fun trim_loop :: "split_unit list \<Rightarrow> nat \<Rightarrow> split_unit list" where
  "trim_loop [] remaining = []"
| "trim_loop (u # us) remaining =
     (if length (un_text u) \<le> remaining then trim_loop us (remaining - length (un_text u))
      else (if 0 < remaining then u\<lparr>un_text := drop remaining (un_text u), un_start := un_start u + remaining\<rparr> else u)
        # trim_loop us 0)"

definition trim_units_prefix :: "split_unit list \<Rightarrow> nat \<Rightarrow> split_unit list" where
  "trim_units_prefix us prefix_len = (if prefix_len = 0 then us else trim_loop us prefix_len)"

definition SEMANTIC_OVERLAP_LOOKBEHIND :: nat where "SEMANTIC_OVERLAP_LOOKBEHIND = 4"

definition compute_overlap :: "char_ops \<Rightarrow> split_unit list \<Rightarrow> nat \<Rightarrow> nat \<Rightarrow> nat \<Rightarrow> split_unit list \<times> nat" where
  "compute_overlap co current chunk_overlap chunk_size next_len =
     (let max_overlap = min chunk_overlap (chunk_size - next_len);
          window = semantic_overlap_window current (max_overlap + SEMANTIC_OVERLAP_LOOKBEHIND);
          window_text = units_text window
      in if max_overlap = 0 \<or> window = [] then ([], 0)
         else case find_semantic_overlap_boundary_ending_at_or_after co window_text (length window_text - max_overlap) of
           None \<Rightarrow> ([], 0)
         | Some boundary_end \<Rightarrow>
             let overlap = trim_units_prefix window boundary_end;
                 overlap_len = length (units_text overlap)
             in if overlap_len = 0 \<or> max_overlap < overlap_len \<or> strip (units_text overlap) = [] then ([], 0)
                else (overlap, overlap_len))"

subsection \<open>Merging\<close>

definition build_chunk :: "split_unit list \<Rightarrow> nat \<Rightarrow> chunk" where
  "build_chunk us seq = \<lparr>ck_content = units_text us, ck_context_header = [], ck_seq = seq, ck_start = un_start (hd us), ck_end = un_end (last us)\<rparr>"

record merge_state =
  ms_chunks :: "chunk list"
  ms_current :: "split_unit list"
  ms_len :: nat
  ms_tracker :: tracker

definition merge_flush :: "merge_state \<Rightarrow> merge_state" where
  "merge_flush m =
     (if ms_current m = [] then m
      else m\<lparr>ms_chunks := ms_chunks m @ [build_chunk (ms_current m) (length (ms_chunks m))], ms_current := [], ms_len := 0\<rparr>)"

fun forced_chunks :: "split_unit \<Rightarrow> span list \<Rightarrow> nat \<Rightarrow> chunk list" where
  "forced_chunks u [] seq = []"
| "forced_chunks u ((a, b) # ss) seq =
     \<lparr>ck_content = slice (un_text u) a b, ck_context_header = [], ck_seq = seq, ck_start = un_start u + a, ck_end = un_start u + b\<rparr>
       # forced_chunks u ss (Suc seq)"

text \<open>The \<open>while\<close> that drops overlap until the header and the unit fit.\<close>

fun shrink_overlap :: "nat \<Rightarrow> nat \<Rightarrow> split_unit list \<Rightarrow> nat \<Rightarrow> split_unit list \<times> nat" where
  "shrink_overlap room chunk_size [] cur_len = ([], cur_len)"
| "shrink_overlap room chunk_size (u # us) cur_len =
     (if chunk_size < cur_len + room then shrink_overlap room chunk_size us (cur_len - length (un_text u)) else (u # us, cur_len))"

definition reopen :: "char_ops \<Rightarrow> nat \<Rightarrow> nat \<Rightarrow> str \<Rightarrow> split_unit \<Rightarrow> merge_state \<Rightarrow> merge_state" where
  "reopen co chunk_size chunk_overlap headers u m =
     (let m1 = merge_flush m;
          (current, cur_len) = compute_overlap co (ms_current m) chunk_overlap chunk_size (length (un_text u))
      in if headers \<noteq> [] \<and> length headers + length (un_text u) \<le> chunk_size then
           let (current2, len2) = shrink_overlap (length (un_text u) + length headers) chunk_size current cur_len
           in if \<not> header_already_present headers (units_text current2) (un_text u) \<and> \<not> header_column_mismatch headers (un_text u) then
                let start_pos = (if current2 = [] then un_start u else un_start (hd current2))
                in m1\<lparr>ms_current := \<lparr>un_text = headers, un_start = start_pos, un_end = start_pos\<rparr> # current2, ms_len := len2 + length headers\<rparr>
              else m1\<lparr>ms_current := current2, ms_len := len2\<rparr>
         else m1\<lparr>ms_current := current, ms_len := cur_len\<rparr>)"

definition merge_unit :: "char_ops \<Rightarrow> nat \<Rightarrow> nat \<Rightarrow> split_unit \<Rightarrow> merge_state \<Rightarrow> merge_state" where
  "merge_unit co chunk_size chunk_overlap u m =
     (let n = length (un_text u); t = tracker_update (un_text u) (ms_tracker m)
      in if ABSOLUTE_MAX_SIZE < n then
           let m1 = (merge_flush m)\<lparr>ms_tracker := t\<rparr>
           in m1\<lparr>ms_chunks := ms_chunks m1 @ forced_chunks u (forced_cuts ABSOLUTE_MAX_SIZE (un_text u) 0) (length (ms_chunks m1))\<rparr>
         else
           let m1 = m\<lparr>ms_tracker := t\<rparr>;
               m2 = (if tk_header_ended t then merge_flush m1 else m1);
               headers = (if chunk_size < length (get_headers t) then [] else get_headers t);
               m3 = (if chunk_size < ms_len m2 + n + length headers \<and> ms_current m2 \<noteq> []
                     then reopen co chunk_size chunk_overlap headers u m2 else m2);
               m4 = (if ABSOLUTE_MAX_SIZE < ms_len m3 + n then merge_flush m3 else m3)
           in m4\<lparr>ms_current := ms_current m4 @ [u], ms_len := ms_len m4 + n\<rparr>)"

definition merge_units :: "char_ops \<Rightarrow> split_unit list \<Rightarrow> nat \<Rightarrow> nat \<Rightarrow> chunk list" where
  "merge_units co us chunk_size chunk_overlap =
     ms_chunks (merge_flush (fold (merge_unit co chunk_size chunk_overlap) us
       \<lparr>ms_chunks = [], ms_current = [], ms_len = 0, ms_tracker = new_tracker\<rparr>))"

definition split_text :: "char_ops \<Rightarrow> splitter_config \<Rightarrow> str \<Rightarrow> chunk list" where
  "split_text co cfg text =
     (let chunk_size = (if sc_chunk_size cfg \<le> 0 then 512 else nat (sc_chunk_size cfg))
      in if text = [] then []
         else merge_units co (build_units_with_protection text (protected_spans co text) (sc_separators cfg) chunk_size)
           chunk_size (nat (sc_chunk_overlap cfg)))"

subsection \<open>Two levels\<close>

definition shift_child :: "chunk \<Rightarrow> str \<Rightarrow> nat \<Rightarrow> chunk \<Rightarrow> chunk" where
  "shift_child parent header seq c =
     c\<lparr>ck_context_header := header, ck_seq := seq, ck_start := ck_start c + ck_start parent, ck_end := ck_end c + ck_start parent\<rparr>"

fun children_of :: "(chunk \<Rightarrow> str) \<Rightarrow> chunk \<Rightarrow> int \<Rightarrow> nat \<Rightarrow> chunk list \<Rightarrow> child_chunk list" where
  "children_of header parent index seq [] = []"
| "children_of header parent index seq (c # cs) =
     \<lparr>cc_chunk = shift_child parent (header c) seq c, cc_parent_index = index\<rparr> # children_of header parent index (Suc seq) cs"

definition keeps_parent :: "chunk \<Rightarrow> chunk list \<Rightarrow> bool" where
  "keeps_parent parent subs \<longleftrightarrow> 1 < length subs \<or> (length subs = 1 \<and> ck_content (hd subs) \<noteq> ck_content parent)"

text \<open>The loop over the parents; \<open>header\<close> gives the context header of a child under its parent.\<close>

fun parent_loop :: "(str \<Rightarrow> chunk list) \<Rightarrow> (chunk \<Rightarrow> chunk \<Rightarrow> str) \<Rightarrow> chunk list \<Rightarrow> chunk list \<times> child_chunk list \<Rightarrow> chunk list \<times> child_chunk list" where
  "parent_loop split_child header [] acc = acc"
| "parent_loop split_child header (p # ps) (parents, children) =
     (let subs = split_child (ck_content p); keep = keeps_parent p subs
      in parent_loop split_child header ps
           (if keep then parents @ [p] else parents,
            children @ children_of (header p) p (if keep then int (length parents) else -1) (length children) subs))"

definition split_text_parent_child :: "char_ops \<Rightarrow> splitter_config \<Rightarrow> splitter_config \<Rightarrow> str \<Rightarrow> chunk list \<times> child_chunk list" where
  "split_text_parent_child co parent_cfg child_cfg text =
     parent_loop (split_text co child_cfg) (\<lambda>p c. ck_context_header c) (split_text co parent_cfg text) ([], [])"

subsection \<open>Image references\<close>

definition balanced_url_rx :: rx where
  "balanced_url_rx =
     (let plain = Star (Ch (\<lambda>c. c \<noteq> 40 \<and> c \<noteq> 41 \<and> \<not> is_space c))
      in Seq plain (Star (seqs [chr_rx 40, Star (none_of [41]), chr_rx 41, plain])))"

definition IMAGE_REF_PATTERN :: rx where
  "IMAGE_REF_PATTERN = seqs [word_rx [33, 91], Grp 1 (Star (none_of [93])), word_rx [93, 40], Grp 2 balanced_url_rx, chr_rx 41]"

definition LINKED_IMAGE_PATTERN :: rx where
  "LINKED_IMAGE_PATTERN = seqs [chr_rx 91, IMAGE_REF_PATTERN, word_rx [93, 40], balanced_url_rx, chr_rx 41]"

definition unwrap_linked_images :: "str \<Rightarrow> str" where
  "unwrap_linked_images markdown =
     sub_rx LINKED_IMAGE_PATTERN (\<lambda>g. [33, 91] @ group_of 1 g @ [93, 40] @ group_of 2 g @ [41]) markdown"

record image_ref =
  ir_original_ref :: str
  ir_alt_text :: str
  ir_start :: nat
  ir_end :: nat

definition extract_image_refs :: "str \<Rightarrow> image_ref list" where
  "extract_image_refs text =
     map (\<lambda>(a, b, g). \<lparr>ir_original_ref = group_of 2 g, ir_alt_text = group_of 1 g, ir_start = a, ir_end = b\<rparr>)
       (find_all IMAGE_REF_PATTERN (unwrap_linked_images text))"

end
