(* ===== verification/Chunk_Laws.thy ===== *)
theory Chunk_Laws
  imports Chunk_Merge "HOL-Library.Sublist"
begin

text \<open>
  Laws of the splitter: units tile the text, windows and trimmed windows tile the end of what they
  are taken from, and the state of the merge stands for a covered start of the text.
\<close>

subsection \<open>Slices\<close>

lemma slice_all [simp]: "slice t 0 (length t) = t"
  by (simp add: slice_def)

lemma slice_empty [simp]: "slice t a a = []"
  by (simp add: slice_def)

lemma length_slice [simp]: "a \<le> b \<Longrightarrow> b \<le> length t \<Longrightarrow> length (slice t a b) = b - a"
  by (simp add: slice_def)

lemma slice_append: "a \<le> b \<Longrightarrow> b \<le> c \<Longrightarrow> slice t a b @ slice t b c = slice t a c"
proof -
  assume "a \<le> b" "b \<le> c"
  then have "slice t a c = take (b - a) (drop a t) @ take (c - b) (drop (b - a) (drop a t))"
    unfolding slice_def using take_add [of "b - a" "c - b" "drop a t"] by simp
  then show ?thesis using \<open>a \<le> b\<close> by (simp add: slice_def)
qed

lemma drop_slice: "a + k \<le> b \<Longrightarrow> drop k (slice t a b) = slice t (a + k) b"
  by (simp add: slice_def drop_take add.commute)

lemma slice_slice: "a \<le> b \<Longrightarrow> b \<le> d - c \<Longrightarrow> slice (slice t c d) a b = slice t (c + a) (c + b)"
  by (simp add: slice_def drop_take min_def add.commute)

lemma slice_nth: "a \<le> i \<Longrightarrow> i < b \<Longrightarrow> b \<le> length t \<Longrightarrow> slice t a b ! (i - a) = t ! i"
  by (simp add: slice_def)

subsection \<open>Tilings\<close>

fun tiles :: "str \<Rightarrow> nat \<Rightarrow> split_unit list \<Rightarrow> nat \<Rightarrow> bool" where
  "tiles t a [] b \<longleftrightarrow> a = b \<and> b \<le> length t"
| "tiles t a (u # us) b \<longleftrightarrow> un_start u = a \<and> a \<le> un_end u \<and> un_end u \<le> length t \<and> un_text u = slice t a (un_end u) \<and> tiles t (un_end u) us b"

lemma tiles_range: "tiles t a us b \<Longrightarrow> a \<le> b \<and> b \<le> length t"
  by (induction us arbitrary: a) fastforce+

lemma tiles_text: "tiles t a us b \<Longrightarrow> units_text us = slice t a b"
proof (induction us arbitrary: a)
  case (Cons u us)
  have "units_text (u # us) = slice t a (un_end u) @ slice t (un_end u) b" using Cons by (simp add: units_text_def)
  then show ?case using Cons.prems tiles_range [of t "un_end u" us b] by (simp add: slice_append)
qed (simp add: units_text_def)

lemma tiles_length: "tiles t a us b \<Longrightarrow> length (units_text us) = b - a"
  using tiles_text tiles_range by fastforce

lemma tiles_append: "tiles t a (us @ vs) c \<longleftrightarrow> (\<exists>b. tiles t a us b \<and> tiles t b vs c)"
proof (induction us arbitrary: a)
  case Nil
  then show ?case using tiles_range by fastforce
qed auto

lemma tiles_last: "tiles t a us b \<Longrightarrow> us \<noteq> [] \<Longrightarrow> un_end (last us) = b"
  by (induction us arbitrary: a) (auto split: if_splits)

lemma tiles_hd: "tiles t a us b \<Longrightarrow> us \<noteq> [] \<Longrightarrow> un_start (hd us) = a"
  by (cases us) auto

lemma units_at_tiles: "concat ps = slice t a b \<Longrightarrow> a \<le> b \<Longrightarrow> b \<le> length t \<Longrightarrow> tiles t a (units_at a ps) b"
proof (induction ps arbitrary: a)
  case (Cons p ps)
  have l: "length p + length (concat ps) = b - a" using arg_cong [OF Cons.prems(1), of length] Cons.prems by simp
  have "p = take (length p) (slice t a b)" using Cons.prems(1) [symmetric] by simp
  then have p: "p = slice t a (a + length p)" using l by (simp add: slice_def min_def)
  have "concat ps = drop (length p) (slice t a b)" using Cons.prems(1) [symmetric] by simp
  then have "concat ps = slice t (a + length p) b" using l Cons.prems by (simp add: drop_slice)
  then show ?case using Cons p l by simp
qed (auto simp: slice_def)

subsection \<open>Pieces\<close>

lemma split_keeping_concat: "concat (split_keeping sep piece s) = piece @ s"
proof (induction sep piece s rule: split_keeping.induct)
  case (1 sep piece s)
  show ?case
  proof (cases "s = []")
    case False
    show ?thesis
    proof (cases "sep \<noteq> [] \<and> starts_with sep s")
      case True
      then have "sep @ drop (length sep) s = s" by (auto simp: starts_with_iff)
      then show ?thesis using 1(1) [OF False True] True False by (simp add: split_keeping.simps [of sep piece s])
    next
      case no: False
      then have "split_keeping sep piece s = split_keeping sep (piece @ [hd s]) (tl s)"
        using False by (auto simp: split_keeping.simps [of sep piece s])
      then show ?thesis using 1(2) [OF False no] False by simp
    qed
  qed (simp add: split_keeping.simps)
qed

lemma concat_filter_ne: "concat (filter (\<lambda>p. p \<noteq> []) ps) = concat ps"
  by (induction ps) auto

lemma pieces_at_concat: "concat (pieces_at sep s) = s"
  by (simp add: pieces_at_def concat_filter_ne split_keeping_concat)

lemma concat_concat_map: "(\<And>p. p \<in> set ps \<Longrightarrow> concat (f p) = p) \<Longrightarrow> concat (concat (map f ps)) = concat ps"
  by (induction ps) auto

lemma split_by_separators_concat: "concat (split_by_separators s seps n) = s"
proof (induction s seps n rule: split_by_separators.induct)
  case (2 s sep remaining n)
  show ?case
  proof (cases "s = [] \<or> (0 < n \<and> length s \<le> n)")
    case False
    note big = False
    show ?thesis
    proof (cases "sep = [] \<or> length (pieces_at sep s) \<le> 1")
      case True
      then show ?thesis using 2(1) [OF big True] big by simp
    next
      case no: False
      have "concat (concat (map (\<lambda>p. if 0 < n \<and> n < length p \<and> remaining \<noteq> [] then split_by_separators p remaining n else [p]) (pieces_at sep s))) =
          concat (pieces_at sep s)"
        by (rule concat_concat_map) (use 2(2) [OF big no] in auto)
      then show ?thesis using big no by (simp add: pieces_at_concat)
    qed
  qed auto
qed simp

subsection \<open>Protected spans\<close>

lemma keep_disjoint_spans: "(\<And>a b. (a, b) \<in> set ss \<Longrightarrow> a < b \<and> b \<le> n) \<Longrightarrow> lo \<le> n \<Longrightarrow> spans_from lo n (keep_disjoint lo ss)"
proof (induction lo ss rule: keep_disjoint.induct)
  case (2 last_end a b ss)
  then have "a < b \<and> b \<le> n" by auto
  then show ?case using 2 by auto
qed simp

lemma spans_from_bounds: "spans_from lo hi ss \<Longrightarrow> (a, b) \<in> set ss \<Longrightarrow> lo \<le> a \<and> a < b \<and> b \<le> hi"
proof (induction lo hi ss rule: spans_from.induct)
  case (2 lo hi c d ss)
  have r: "x \<le> hi" if "spans_from x hi ss" for x ss using that by (induction x hi ss rule: spans_from.induct) auto
  show ?case
  proof (cases "(a, b) = (c, d)")
    case True
    then show ?thesis using 2 r by auto
  next
    case False
    then show ?thesis using 2 by auto
  qed
qed simp

lemma protected_spans_ok: "spans_from 0 (length t) (protected_spans co t)"
proof -
  have "a < b \<and> b \<le> length t" if "(a, b) \<in> set (concat (map (\<lambda>r. map span_of (find_all r t)) (PROTECTED_PATTERNS co)))" for a b
  proof -
    from that obtain r where "(a, b) \<in> set (map span_of (find_all r t))" by auto
    then show ?thesis using spans_from_bounds [OF find_all_spans] by blast
  qed
  then show ?thesis unfolding protected_spans_def by (intro keep_disjoint_spans) auto
qed

subsection \<open>Units tile the text\<close>

lemma forced_cuts_tiles:
  "0 < limit \<Longrightarrow> offset \<le> length s \<Longrightarrow> s = slice t c (c + length s) \<Longrightarrow> c + length s \<le> length t \<Longrightarrow>
    tiles t (c + offset) (map (\<lambda>(a, b). \<lparr>un_text = slice s a b, un_start = c + a, un_end = c + a + (b - a)\<rparr>) (forced_cuts limit s offset)) (c + length s)"
proof (induction limit s offset rule: forced_cuts.induct)
  case (1 limit s offset)
  show ?case
  proof (cases "length s \<le> offset")
    case True
    then have "forced_cuts limit s offset = []" by (simp add: forced_cuts.simps)
    then show ?thesis using True 1(3,5) by simp
  next
    case False
    let ?e = "cut_end limit s offset"
    have e: "offset < ?e" "?e \<le> length s" using cut_end_range [of limit offset s] 1 False by auto
    have "slice s offset ?e = slice (slice t c (c + length s)) offset ?e" using 1(4) by (rule arg_cong)
    also have "\<dots> = slice t (c + offset) (c + ?e)" using e by (intro slice_slice) auto
    finally show ?thesis using 1(1) 1(2-5) False e by (simp add: forced_cuts.simps [of limit s offset])
  qed
qed

lemma protected_units_tiles:
  assumes "a \<le> b" "b \<le> length t"
  shows "tiles t a (protected_units (slice t a b) a) b"
proof -
  have "slice t a b = slice t a (a + length (slice t a b))" using assms by simp
  then have "tiles t (a + 0) (map (\<lambda>(x, y). \<lparr>un_text = slice (slice t a b) x y, un_start = a + x, un_end = a + x + (y - x)\<rparr>)
      (forced_cuts MAX_PROTECTED_SIZE (slice t a b) 0)) (a + length (slice t a b))"
    by (intro forced_cuts_tiles) (use assms in \<open>auto simp: MAX_PROTECTED_SIZE_def\<close>)
  then show ?thesis using assms by (simp add: protected_units_def)
qed

lemma build_units_tiles:
  "spans_from pos (length t) ss \<Longrightarrow> tiles t pos (build_units t ss seps n pos pos) (length t)"
proof (induction ss arbitrary: pos)
  case Nil
  have "tiles t pos (units_at pos (split_by_separators (drop pos t) seps n)) (length t)" if "pos < length t"
    using that by (intro units_at_tiles) (simp_all add: split_by_separators_concat slice_def)
  then show ?case using Nil by auto
next
  case (Cons s ss)
  obtain a b where s: "s = (a, b)" by (cases s) auto
  have ab: "pos \<le> a" "a < b" "b \<le> length t" using spans_from_bounds [of pos "length t" "s # ss" a b] Cons.prems s by auto
  have pre: "tiles t pos (if pos < a then units_at pos (split_by_separators (if pos < a then slice t pos a else []) seps n) else []) a"
    using ab units_at_tiles [of "split_by_separators (slice t pos a) seps n" t pos a] by (auto simp: split_by_separators_concat)
  have pos: "pos + length (if pos < a then slice t pos a else []) = a" "a + length (slice t a b) = b" using ab by auto
  have "tiles t a (protected_units (slice t a b) a) b" using ab by (intro protected_units_tiles) auto
  moreover have "tiles t b (build_units t ss seps n b b) (length t)" using Cons s by auto
  ultimately show ?case using pre unfolding s build_units.simps Let_def pos tiles_append by blast
qed

lemma build_units_with_protection_tiles:
  "tiles t 0 (build_units_with_protection t (protected_spans co t) seps n) (length t)"
  unfolding build_units_with_protection_def by (rule build_units_tiles [OF protected_spans_ok])

subsection \<open>Windows\<close>

text \<open>A header unit occupies no text and stops every window.\<close>

definition header_unit :: "nat \<Rightarrow> split_unit \<Rightarrow> bool" where
  "header_unit s u \<longleftrightarrow> un_text u \<noteq> [] \<and> un_start u = s \<and> un_end u = s"

lemma window_barrier: "header_unit s u \<Longrightarrow> window_from m (us @ [u]) = window_from m us"
  by (induction m us rule: window_from.induct) (auto simp: header_unit_def Let_def)

lemma window_tiles:
  "tiles t a (rev us) b \<Longrightarrow> \<exists>a'. a \<le> a' \<and> tiles t a' (rev (window_from m us)) b \<and> b - a' \<le> m"
proof (induction us arbitrary: b m)
  case Nil
  then show ?case by auto
next
  case (Cons u us)
  then obtain c where c: "tiles t a (rev us) c" "un_start u = c" "c \<le> un_end u" "un_end u = b" "b \<le> length t" "un_text u = slice t c b"
    by (auto simp: tiles_append)
  have n: "length (un_text u) = b - c" using c by simp
  have ac: "a \<le> c" using tiles_range [OF c(1)] by simp
  show ?case
  proof (cases "m = 0")
    case True
    then show ?thesis using ac c by (intro exI [of _ b]) auto
  next
    case m: False
    show ?thesis
    proof (cases "c = b")
      case True
      then show ?thesis using Cons.IH [OF c(1), of m] m n by auto
    next
      case False
      show ?thesis
      proof (cases "b - c \<le> m")
        case True
        obtain a' where "a \<le> a'" "tiles t a' (rev (window_from (m - (b - c)) us)) c" "c - a' \<le> m - (b - c)"
          using Cons.IH [OF c(1)] by blast
        then show ?thesis using m False True n c by (intro exI [of _ a']) (auto simp: tiles_append)
      next
        case no: False
        let ?s = "c + (b - c - m)"
        have "drop (b - c - m) (slice t c b) = slice t ?s b" using no by (intro drop_slice) linarith
        moreover have "?s \<le> b" "b - ?s \<le> m" using no by linarith+
        ultimately show ?thesis using m False no n c ac by (intro exI [of _ ?s]) auto
      qed
    qed
  qed
qed

lemma trim_loop_tiles:
  "tiles t a us b \<Longrightarrow> \<exists>a'. a \<le> a' \<and> tiles t a' (trim_loop us k) b"
proof (induction us k arbitrary: a rule: trim_loop.induct)
  case (2 u us k)
  then have u: "un_start u = a" "a \<le> un_end u" "un_end u \<le> length t" "un_text u = slice t a (un_end u)" "tiles t (un_end u) us b" by auto
  have n: "length (un_text u) = un_end u - a" using u by simp
  show ?case
  proof (cases "length (un_text u) \<le> k")
    case True
    then obtain a' where "un_end u \<le> a'" "tiles t a' (trim_loop us (k - length (un_text u))) b" using 2(1) [OF True u(5)] by blast
    then show ?thesis using True u(2) by (intro exI [of _ a']) auto
  next
    case False
    then obtain a' where a': "un_end u \<le> a'" "tiles t a' (trim_loop us 0) b" using 2(2) [OF False u(5)] by blast
    have z: "a' = un_end u"
    proof -
      have "tiles t e us b \<Longrightarrow> tiles t e (trim_loop us 0) b" for e us
        by (induction us arbitrary: e) auto
      then have "tiles t (un_end u) (trim_loop us 0) b" using u(5) by blast
      then show ?thesis using a' tiles_length by (metis diff_diff_cancel tiles_range)
    qed
    have "drop k (slice t a (un_end u)) = slice t (a + k) (un_end u)" using False n by (intro drop_slice) auto
    then show ?thesis using False u n a' z by (intro exI [of _ "a + k"]) auto
  qed
qed auto

end
