(* ===== verification/Chunk_Cover.thy ===== *)
theory Chunk_Cover
  imports Chunk_Laws
begin

text \<open>
  The merge of split units covers the text: the chunks so far and the units in hand reach from the
  start of the text to the end of the last unit read, without a gap and with bounded overlaps, and
  every chunk ends with the text between its positions.
\<close>

subsection \<open>Covering chunk lists\<close>

definition linked :: "nat \<Rightarrow> chunk \<Rightarrow> chunk \<Rightarrow> bool" where
  "linked k c d \<longleftrightarrow> ck_start c \<le> ck_start d \<and> ck_start d \<le> ck_end c \<and> ck_end c \<le> ck_start d + k \<and> ck_end c \<le> ck_end d"

definition from_text :: "str \<Rightarrow> chunk \<Rightarrow> bool" where
  "from_text t c \<longleftrightarrow> ck_start c \<le> ck_end c \<and> ck_end c \<le> length t \<and> suffix (slice t (ck_start c) (ck_end c)) (ck_content c)"

definition covers_to :: "nat \<Rightarrow> str \<Rightarrow> nat \<Rightarrow> nat \<Rightarrow> chunk list \<Rightarrow> bool" where
  "covers_to k t s p cs \<longleftrightarrow>
     successively (linked k) cs \<and> list_all (from_text t) cs \<and> map ck_seq cs = [0..<length cs] \<and> s \<le> p \<and>
     (if cs = [] then s = 0
      else ck_start (hd cs) = 0 \<and> ck_start (last cs) \<le> s \<and> s \<le> ck_end (last cs) \<and> ck_end (last cs) \<le> s + k \<and> ck_end (last cs) \<le> p)"

lemma covers_to_Nil [simp]: "covers_to k t s p [] \<longleftrightarrow> s = 0"
  by (auto simp: covers_to_def)

lemma covers_snoc:
  assumes "covers_to k t s p cs" "from_text t c" "ck_seq c = length cs" "ck_start c = s" "p \<le> ck_end c"
    "s \<le> s'" "s' \<le> ck_end c" "ck_end c \<le> s' + k" "ck_end c \<le> p'"
  shows "covers_to k t s' p' (cs @ [c])"
proof -
  have "cs = [] \<or> linked k (last cs) c" using assms by (auto simp: covers_to_def linked_def)
  then have "successively (linked k) (cs @ [c])" using assms(1) by (auto simp: covers_to_def successively_append_iff)
  moreover have "ck_start (hd (cs @ [c])) = 0" using assms(1,4) by (cases cs) (auto simp: covers_to_def)
  ultimately show ?thesis using assms by (auto simp: covers_to_def)
qed

lemma forced_chunks_cover:
  assumes "0 < limit" "offset \<le> length w" "w = slice t a (a + length w)" "a + length w \<le> length t"
    "covers_to k t (a + offset) (a + offset) cs" "un_text u = w" "un_start u = a"
  shows "covers_to k t (a + length w) (a + length w) (cs @ forced_chunks u (forced_cuts limit w offset) (length cs))"
  using assms
proof (induction limit w offset arbitrary: cs rule: forced_cuts.induct)
  case (1 limit w offset)
  show ?case
  proof (cases "length w \<le> offset")
    case True
    then have "forced_cuts limit w offset = []" by (simp add: forced_cuts.simps)
    then show ?thesis using True 1(3,6) by simp
  next
    case False
    let ?e = "cut_end limit w offset"
    let ?c = "\<lparr>ck_content = slice w offset ?e, ck_context_header = [], ck_seq = length cs, ck_start = a + offset, ck_end = a + ?e\<rparr>"
    have e: "offset < ?e" "?e \<le> length w" using cut_end_range [of limit offset w] 1 False by auto
    have "slice w offset ?e = slice (slice t a (a + length w)) offset ?e" using 1(4) by (rule arg_cong)
    also have "\<dots> = slice t (a + offset) (a + ?e)" using e by (intro slice_slice) auto
    finally have f: "from_text t ?c" using e 1(5) by (simp add: from_text_def)
    have "covers_to k t (a + ?e) (a + ?e) (cs @ [?c])" by (rule covers_snoc [OF 1(6) f]) (use e in auto)
    then have "covers_to k t (a + length w) (a + length w) ((cs @ [?c]) @ forced_chunks u (forced_cuts limit w ?e) (length (cs @ [?c])))"
      using 1(1) [of "cs @ [?c]"] 1(2-) False e by auto
    moreover have "forced_cuts limit w offset = (offset, ?e) # forced_cuts limit w ?e"
      using False 1(2) by (simp add: forced_cuts.simps [of limit w offset])
    ultimately show ?thesis using 1(7,8) by simp
  qed
qed

subsection \<open>The units in hand\<close>

definition in_hand :: "str \<Rightarrow> nat \<Rightarrow> nat \<Rightarrow> split_unit list \<Rightarrow> bool" where
  "in_hand t s p us \<longleftrightarrow> tiles t s us p \<or> (us \<noteq> [] \<and> header_unit s (hd us) \<and> tiles t s (tl us) p)"

lemma in_hand_Nil: "in_hand t s p [] \<longleftrightarrow> s = p \<and> p \<le> length t"
  by (auto simp: in_hand_def)

lemma in_hand_range: "in_hand t s p us \<Longrightarrow> s \<le> p \<and> p \<le> length t"
  by (auto simp: in_hand_def dest: tiles_range)

lemma in_hand_snoc:
  assumes "in_hand t s p us" "un_start u = p" "p \<le> un_end u" "un_end u \<le> length t" "un_text u = slice t p (un_end u)"
  shows "in_hand t s (un_end u) (us @ [u])"
proof (cases "tiles t s us p")
  case True
  then show ?thesis using assms by (auto simp: in_hand_def tiles_append)
next
  case False
  then have "us \<noteq> []" "header_unit s (hd us)" "tiles t s (tl us @ [u]) (un_end u)"
    using assms by (auto simp: in_hand_def tiles_append)
  then show ?thesis by (cases us) (auto simp: in_hand_def)
qed

lemma in_hand_chunk:
  assumes "in_hand t s p us" "us \<noteq> []"
  shows "from_text t (build_chunk us n)" "ck_start (build_chunk us n) = s" "ck_end (build_chunk us n) = p"
proof -
  have "suffix (slice t s p) (units_text us) \<and> un_start (hd us) = s \<and> un_end (last us) = p"
  proof (cases "tiles t s us p")
    case True
    then show ?thesis using tiles_text tiles_hd tiles_last assms(2) by fastforce
  next
    case False
    then obtain h vs where h: "us = h # vs" "header_unit s h" "tiles t s vs p"
      using assms by (cases us) (auto simp: in_hand_def)
    have "units_text us = un_text h @ slice t s p" using tiles_text [OF h(3)] h(1) by (simp add: units_text_def)
    then have "suffix (slice t s p) (units_text us)" by (metis suffixI)
    moreover have "un_end (last us) = p" using h tiles_last [OF h(3)] by (cases vs) (auto simp: header_unit_def)
    ultimately show ?thesis using h by (simp add: header_unit_def)
  qed
  then show "from_text t (build_chunk us n)" "ck_start (build_chunk us n) = s" "ck_end (build_chunk us n) = p"
    using in_hand_range [OF assms(1)] by (simp_all add: from_text_def build_chunk_def)
qed

lemma window_in_hand:
  assumes "in_hand t s p us"
  shows "\<exists>s'. s \<le> s' \<and> tiles t s' (semantic_overlap_window us m) p \<and> p - s' \<le> m"
proof (cases "tiles t s us p")
  case True
  then show ?thesis using window_tiles [of t s "rev us" p m] by (simp add: semantic_overlap_window_def)
next
  case False
  then obtain h vs where h: "us = h # vs" "header_unit s h" "tiles t s vs p"
    using assms by (cases us) (auto simp: in_hand_def)
  then show ?thesis using window_tiles [of t s "rev vs" p m] window_barrier [OF h(2)] by (simp add: semantic_overlap_window_def)
qed

lemma trim_tiles: "tiles t a us b \<Longrightarrow> \<exists>a'. a \<le> a' \<and> tiles t a' (trim_units_prefix us k) b"
  using trim_loop_tiles by (auto simp: trim_units_prefix_def)

lemma compute_overlap_tiles:
  assumes "in_hand t s p us" "compute_overlap co us chunk_overlap chunk_size n = (cur, len)"
  shows "\<exists>s'. s \<le> s' \<and> tiles t s' cur p \<and> p - s' \<le> chunk_overlap \<and> len = length (units_text cur) \<and> (cur = [] \<or> len + n \<le> chunk_size)"
proof -
  have none: ?thesis if "cur = []" "len = 0" using that in_hand_range [OF assms(1)]
    by (intro exI [of _ p]) (simp add: units_text_def)
  let ?m = "min chunk_overlap (chunk_size - n)"
  let ?w = "semantic_overlap_window us (?m + SEMANTIC_OVERLAP_LOOKBEHIND)"
  obtain a where a: "s \<le> a" "tiles t a ?w p" using window_in_hand [OF assms(1)] by blast
  show ?thesis
  proof (cases "?m = 0 \<or> ?w = []")
    case True
    then show ?thesis using none assms(2) by (auto simp: compute_overlap_def Let_def)
  next
    case False
    show ?thesis
    proof (cases "find_semantic_overlap_boundary_ending_at_or_after co (units_text ?w) (length (units_text ?w) - ?m)")
      case None
      then show ?thesis using none assms(2) False by (auto simp: compute_overlap_def Let_def)
    next
      case (Some e)
      obtain a' where a': "a \<le> a'" "tiles t a' (trim_units_prefix ?w e) p" using trim_tiles [OF a(2)] by blast
      let ?o = "trim_units_prefix ?w e"
      show ?thesis
      proof (cases "length (units_text ?o) = 0 \<or> ?m < length (units_text ?o) \<or> strip (units_text ?o) = []")
        case True
        then have "cur = [] \<and> len = 0" using assms(2) False Some by (simp add: compute_overlap_def Let_def split: if_splits)
        then show ?thesis using none by simp
      next
        case no: False
        then have "compute_overlap co us chunk_overlap chunk_size n = (?o, length (units_text ?o))"
          using False Some unfolding compute_overlap_def Let_def by (simp only: option.case if_False)
        then have "cur = ?o" "len = length (units_text ?o)" using assms(2) by simp_all
        then show ?thesis using no a a' tiles_length [OF a'(2)] by (intro exI [of _ a']) auto
      qed
    qed
  qed
qed

lemma shrink_overlap_tiles:
  "tiles t s us p \<Longrightarrow> shrink_overlap room n us (length (units_text us)) = (cur, len) \<Longrightarrow>
    \<exists>s'. s \<le> s' \<and> tiles t s' cur p \<and> len = length (units_text cur) \<and> (cur = [] \<or> len + room \<le> n)"
proof (induction us arbitrary: s)
  case (Cons u us)
  have l: "length (units_text (u # us)) - length (un_text u) = length (units_text us)" by (simp add: units_text_def)
  show ?case
  proof (cases "n < length (units_text (u # us)) + room")
    case True
    then have "shrink_overlap room n us (length (units_text us)) = (cur, len)" using Cons.prems(2) l by simp
    then obtain s' where "un_end u \<le> s'" "tiles t s' cur p" "len = length (units_text cur)" "cur = [] \<or> len + room \<le> n"
      using Cons.IH [of "un_end u"] Cons.prems(1) by auto
    then show ?thesis using Cons.prems(1) by (intro exI [of _ s']) auto
  next
    case False
    then show ?thesis using Cons.prems by (intro exI [of _ s]) auto
  qed
qed (auto simp: units_text_def)

subsection \<open>The merge\<close>

definition merge_inv :: "nat \<Rightarrow> str \<Rightarrow> nat \<Rightarrow> nat \<Rightarrow> merge_state \<Rightarrow> bool" where
  "merge_inv k t s p m \<longleftrightarrow>
     covers_to k t s p (ms_chunks m) \<and> in_hand t s p (ms_current m) \<and> ms_len m = length (units_text (ms_current m))"

lemma merge_flush_inv:
  assumes "merge_inv k t s p m"
  shows "merge_inv k t p p (merge_flush m)"
proof (cases "ms_current m = []")
  case True
  then have "s = p" using assms by (simp add: merge_inv_def in_hand_Nil)
  then show ?thesis using True assms by (simp add: merge_flush_def)
next
  case False
  note c = in_hand_chunk [of t s p "ms_current m" "length (ms_chunks m)"]
  have i: "in_hand t s p (ms_current m)" "covers_to k t s p (ms_chunks m)" using assms by (simp_all add: merge_inv_def)
  have "covers_to k t p p (ms_chunks m @ [build_chunk (ms_current m) (length (ms_chunks m))])"
    by (rule covers_snoc [OF i(2) c(1)]) (use i(1) False c(2,3) in_hand_range [OF i(1)] in \<open>auto simp: build_chunk_def\<close>)
  then show ?thesis using False in_hand_range [OF i(1)] by (simp add: merge_flush_def merge_inv_def in_hand_Nil units_text_def)
qed

text \<open>Units kept after a flush: an earlier start, within the overlap.\<close>

lemma kept_inv:
  assumes "merge_inv k t s p m" "ms_current m \<noteq> []" "s \<le> s'" "p - s' \<le> k" "in_hand t s' p cur"
  shows "merge_inv k t s' p ((merge_flush m)\<lparr>ms_current := cur, ms_len := length (units_text cur)\<rparr>)"
proof -
  note c = in_hand_chunk [of t s p "ms_current m" "length (ms_chunks m)"]
  have i: "in_hand t s p (ms_current m)" "covers_to k t s p (ms_chunks m)" using assms by (simp_all add: merge_inv_def)
  have "covers_to k t s' p (ms_chunks m @ [build_chunk (ms_current m) (length (ms_chunks m))])"
    by (rule covers_snoc [OF i(2) c(1)])
      (use i(1) assms c(2,3) in_hand_range [OF assms(5)] in \<open>auto simp: build_chunk_def\<close>)
  then show ?thesis using assms by (simp add: merge_flush_def merge_inv_def)
qed

lemma reopen_inv:
  assumes "merge_inv k t s p m" "ms_current m \<noteq> []" "un_start u = p"
  shows "\<exists>s'. merge_inv k t s' p (reopen co n k headers u m)"
proof -
  obtain cur len where o: "compute_overlap co (ms_current m) k n (length (un_text u)) = (cur, len)" by fastforce
  have h: "in_hand t s p (ms_current m)" using assms(1) by (simp add: merge_inv_def)
  obtain s1 where s1: "s \<le> s1" "tiles t s1 cur p" "p - s1 \<le> k" "len = length (units_text cur)"
    using compute_overlap_tiles [OF h o] by blast
  show ?thesis
  proof (cases "headers \<noteq> [] \<and> length headers + length (un_text u) \<le> n")
    case False
    then have "reopen co n k headers u m = (merge_flush m)\<lparr>ms_current := cur, ms_len := length (units_text cur)\<rparr>"
      using o s1(4) by (auto simp: reopen_def Let_def)
    moreover have "in_hand t s1 p cur" using s1(2) by (simp add: in_hand_def)
    ultimately show ?thesis using kept_inv [OF assms(1,2) s1(1,3)] by metis
  next
    case True
    obtain cur2 len2 where sh: "shrink_overlap (length (un_text u) + length headers) n cur len = (cur2, len2)" by fastforce
    obtain s2 where s2: "s1 \<le> s2" "tiles t s2 cur2 p" "len2 = length (units_text cur2)"
      using shrink_overlap_tiles [OF s1(2) sh [unfolded s1(4)]] by blast
    have le: "s \<le> s2" "p - s2 \<le> k" using s1 s2 by auto
    let ?h = "\<lparr>un_text = headers, un_start = s2, un_end = s2\<rparr>"
    have start: "(if cur2 = [] then un_start u else un_start (hd cur2)) = s2"
      using s2(2) assms(3) by (cases cur2) auto
    have plain: "in_hand t s2 p cur2" and head: "in_hand t s2 p (?h # cur2)" using s2(2) True by (simp_all add: in_hand_def header_unit_def)
    show ?thesis
    proof (cases "\<not> header_already_present headers (units_text cur2) (un_text u) \<and> \<not> header_column_mismatch headers (un_text u)")
      case True
      have "reopen co n k headers u m = (merge_flush m)\<lparr>ms_current := ?h # cur2, ms_len := length (units_text (?h # cur2))\<rparr>"
        using o sh start s2(3) True \<open>headers \<noteq> [] \<and> _\<close> by (simp add: reopen_def units_text_def)
      then show ?thesis using kept_inv [OF assms(1,2) le head] by metis
    next
      case False
      have "reopen co n k headers u m = (merge_flush m)\<lparr>ms_current := cur2, ms_len := length (units_text cur2)\<rparr>"
        using o sh s2(3) False \<open>headers \<noteq> [] \<and> _\<close> by (auto simp: reopen_def)
      then show ?thesis using kept_inv [OF assms(1,2) le plain] by metis
    qed
  qed
qed

lemma merge_unit_inv:
  assumes "merge_inv k t s p m" "un_start u = p" "p \<le> un_end u" "un_end u \<le> length t" "un_text u = slice t p (un_end u)"
  shows "\<exists>s'. merge_inv k t s' (un_end u) (merge_unit co n k u m)"
proof -
  let ?t = "tracker_update (un_text u) (ms_tracker m)"
  have e: "p + length (un_text u) = un_end u" using assms by simp
  show ?thesis
  proof (cases "ABSOLUTE_MAX_SIZE < length (un_text u)")
    case True
    let ?m = "merge_flush m"
    have f: "merge_inv k t p p ?m" by (rule merge_flush_inv [OF assms(1)])
    have "covers_to k t (p + length (un_text u)) (p + length (un_text u))
        (ms_chunks ?m @ forced_chunks u (forced_cuts ABSOLUTE_MAX_SIZE (un_text u) 0) (length (ms_chunks ?m)))"
      by (rule forced_chunks_cover) (use f e assms in \<open>auto simp: merge_inv_def ABSOLUTE_MAX_SIZE_def\<close>)
    moreover have "ms_current ?m = []" "ms_len ?m = 0" using f assms(1) by (auto simp: merge_flush_def merge_inv_def units_text_def)
    ultimately show ?thesis using True e assms(4)
      by (intro exI [of _ "un_end u"]) (simp add: merge_unit_def Let_def merge_inv_def in_hand_Nil units_text_def)
  next
    case False
    define m1 where "m1 = m\<lparr>ms_tracker := ?t\<rparr>"
    define m2 where "m2 = (if tk_header_ended ?t then merge_flush m1 else m1)"
    define headers where "headers = (if n < length (get_headers ?t) then [] else get_headers ?t)"
    define m3 where "m3 = (if n < ms_len m2 + length (un_text u) + length headers \<and> ms_current m2 \<noteq> [] then reopen co n k headers u m2 else m2)"
    define m4 where "m4 = (if ABSOLUTE_MAX_SIZE < ms_len m3 + length (un_text u) then merge_flush m3 else m3)"
    have "merge_inv k t s p m1" using assms(1) by (simp add: m1_def merge_inv_def)
    then have "\<exists>s. merge_inv k t s p m2" using merge_flush_inv [of k t s p m1] unfolding m2_def by auto
    then have "\<exists>s. merge_inv k t s p m3" using reopen_inv [OF _ _ assms(2)] unfolding m3_def by auto
    then have "\<exists>s. merge_inv k t s p m4" using merge_flush_inv [of k t _ p m3] unfolding m4_def by auto
    then obtain s4 where i: "merge_inv k t s4 p m4" by blast
    have "merge_unit co n k u m = m4\<lparr>ms_current := ms_current m4 @ [u], ms_len := ms_len m4 + length (un_text u)\<rparr>"
      using False by (simp add: merge_unit_def Let_def m1_def m2_def m3_def m4_def headers_def)
    moreover have "in_hand t s4 (un_end u) (ms_current m4 @ [u])" using i by (intro in_hand_snoc [OF _ assms(2-5)]) (simp add: merge_inv_def)
    moreover have "covers_to k t s4 (un_end u) (ms_chunks m4)" using i assms(3) by (auto simp: merge_inv_def covers_to_def)
    ultimately show ?thesis using i by (intro exI [of _ s4]) (simp add: merge_inv_def units_text_def)
  qed
qed

lemma merge_fold_inv:
  "merge_inv k t s p m \<Longrightarrow> tiles t p us q \<Longrightarrow> \<exists>s'. merge_inv k t s' q (fold (merge_unit co n k) us m)"
proof (induction us arbitrary: s p m)
  case (Cons u us)
  then have u: "un_start u = p" "p \<le> un_end u" "un_end u \<le> length t" "un_text u = slice t p (un_end u)" "tiles t (un_end u) us q" by auto
  obtain s' where "merge_inv k t s' (un_end u) (merge_unit co n k u m)" using merge_unit_inv [OF Cons.prems(1) u(1-4)] by blast
  then show ?case using Cons.IH u(5) by simp
qed auto

lemma merge_units_cover:
  assumes "tiles t 0 us (length t)"
  shows "covers_to k t (length t) (length t) (merge_units co us n k)"
proof -
  let ?m = "\<lparr>ms_chunks = [], ms_current = [], ms_len = 0, ms_tracker = new_tracker\<rparr>"
  have "merge_inv k t 0 0 ?m" by (simp add: merge_inv_def in_hand_Nil units_text_def)
  then obtain s where "merge_inv k t s (length t) (fold (merge_unit co n k) us ?m)" using merge_fold_inv assms by blast
  then have "merge_inv k t (length t) (length t) (merge_flush (fold (merge_unit co n k) us ?m))" by (rule merge_flush_inv)
  then show ?thesis by (simp add: merge_units_def merge_inv_def)
qed

lemma split_text_cover: "t \<noteq> [] \<Longrightarrow> covers_to (nat (sc_chunk_overlap cfg)) t (length t) (length t) (split_text co cfg t)"
  by (simp add: split_text_def Let_def merge_units_cover build_units_with_protection_tiles)

end
