(* ===== verification/Chunk_Sizes.thy ===== *)
theory Chunk_Sizes
  imports Chunk_Cover
begin

text \<open>
  The sizes of the chunks of the recursive splitter: never above the absolute maximum, and above the
  configured size only for text of a single unit.
\<close>

definition within_unit :: "split_unit set \<Rightarrow> chunk \<Rightarrow> bool" where
  "within_unit U c \<longleftrightarrow> (\<exists>u \<in> U. un_start u \<le> ck_start c \<and> ck_end c \<le> un_end u)"

definition fits_size :: "split_unit set \<Rightarrow> nat \<Rightarrow> chunk \<Rightarrow> bool" where
  "fits_size U n c \<longleftrightarrow> length (ck_content c) \<le> ABSOLUTE_MAX_SIZE \<and> (length (ck_content c) \<le> n \<or> within_unit U c)"

definition size_inv :: "split_unit set \<Rightarrow> nat \<Rightarrow> merge_state \<Rightarrow> bool" where
  "size_inv U n m \<longleftrightarrow>
     list_all (fits_size U n) (ms_chunks m) \<and> ms_len m = length (units_text (ms_current m)) \<and> ms_len m \<le> ABSOLUTE_MAX_SIZE \<and>
     (ms_len m \<le> n \<or> (\<exists>u \<in> U. ms_current m = [u]))"

lemma fits_in_hand:
  assumes "size_inv U n m" "ms_current m \<noteq> []"
  shows "fits_size U n (build_chunk (ms_current m) i)"
  using assms by (auto simp: size_inv_def fits_size_def within_unit_def build_chunk_def)

lemma flush_size: "size_inv U n m \<Longrightarrow> size_inv U n (merge_flush m)"
  using fits_in_hand [of U n m "length (ms_chunks m)"] by (auto simp: merge_flush_def size_inv_def units_text_def)

lemma flush_chunks_size: "size_inv U n m \<Longrightarrow> list_all (fits_size U n) (ms_chunks (merge_flush m))"
  using flush_size by (auto simp: size_inv_def)

lemma reopen_size:
  assumes "merge_inv k t s p m" "size_inv U n m" "ms_current m \<noteq> []"
  shows "list_all (fits_size U n) (ms_chunks (reopen co n k headers u m)) \<and>
    ms_len (reopen co n k headers u m) = length (units_text (ms_current (reopen co n k headers u m))) \<and>
    (ms_current (reopen co n k headers u m) = [] \<or> ms_len (reopen co n k headers u m) + length (un_text u) \<le> n)"
proof -
  obtain cur len where o: "compute_overlap co (ms_current m) k n (length (un_text u)) = (cur, len)" by fastforce
  have h: "in_hand t s p (ms_current m)" using assms(1) by (simp add: merge_inv_def)
  obtain s1 where s1: "tiles t s1 cur p" "len = length (units_text cur)" "cur = [] \<or> len + length (un_text u) \<le> n"
    using compute_overlap_tiles [OF h o] by blast
  note f = flush_chunks_size [OF assms(2)]
  show ?thesis
  proof (cases "headers \<noteq> [] \<and> length headers + length (un_text u) \<le> n")
    case False
    then show ?thesis using o s1 f by (auto simp: reopen_def Let_def)
  next
    case True
    obtain cur2 len2 where sh: "shrink_overlap (length (un_text u) + length headers) n cur len = (cur2, len2)" by fastforce
    obtain s2 where s2: "len2 = length (units_text cur2)" "cur2 = [] \<or> len2 + (length (un_text u) + length headers) \<le> n"
      using shrink_overlap_tiles [OF s1(1) sh [unfolded s1(2)]] by blast
    have "cur2 = [] \<longrightarrow> len2 = 0" using s2 by (simp add: units_text_def)
    then show ?thesis using o sh s2 f True by (auto simp: reopen_def Let_def units_text_def)
  qed
qed

lemma forced_chunks_size:
  assumes "0 < limit" "limit \<le> ABSOLUTE_MAX_SIZE" "u \<in> U" "un_start u + length (un_text u) = un_end u" "c \<in> set (forced_chunks u (forced_cuts limit (un_text u) offset) i)"
  shows "fits_size U n c"
  using assms(1,2,5)
proof (induction limit "un_text u" offset arbitrary: i rule: forced_cuts.induct)
  case (1 limit offset)
  show ?case
  proof (cases "length (un_text u) \<le> offset")
    case True
    then have "forced_cuts limit (un_text u) offset = []" by (simp add: forced_cuts.simps)
    then show ?thesis using 1(4) by simp
  next
    case False
    let ?e = "cut_end limit (un_text u) offset"
    have e: "offset < ?e" "?e \<le> length (un_text u)" "?e \<le> offset + limit" using cut_end_range [of limit offset "un_text u"] 1 False by auto
    have "forced_cuts limit (un_text u) offset = (offset, ?e) # forced_cuts limit (un_text u) ?e"
      using False 1(2) by (simp add: forced_cuts.simps [of limit "un_text u" offset])
    then consider "c = \<lparr>ck_content = slice (un_text u) offset ?e, ck_context_header = [], ck_seq = i, ck_start = un_start u + offset, ck_end = un_start u + ?e\<rparr>"
      | "c \<in> set (forced_chunks u (forced_cuts limit (un_text u) ?e) (Suc i))" using 1(4) by auto
    then show ?thesis
    proof cases
      case 1
      then show ?thesis using e assms(3,4) \<open>limit \<le> ABSOLUTE_MAX_SIZE\<close>
        by (auto simp: fits_size_def within_unit_def intro!: bexI [of _ u])
    next
      case 2
      then show ?thesis using 1(1) [of "Suc i"] 1(2,3) False by auto
    qed
  qed
qed

lemma merge_unit_size:
  assumes "merge_inv k t s p m" "size_inv U n m" "u \<in> U" "un_start u = p" "p \<le> un_end u" "un_end u \<le> length t" "un_text u = slice t p (un_end u)"
    "n \<le> ABSOLUTE_MAX_SIZE"
  shows "size_inv U n (merge_unit co n k u m)"
proof -
  let ?t = "tracker_update (un_text u) (ms_tracker m)"
  show ?thesis
  proof (cases "ABSOLUTE_MAX_SIZE < length (un_text u)")
    case True
    have e: "un_start u + length (un_text u) = un_end u" using assms by simp
    have z: "ms_current (merge_flush m) = []" "ms_len (merge_flush m) = 0"
      using assms(2) by (auto simp: merge_flush_def size_inv_def units_text_def)
    have "list_all (fits_size U n) (forced_chunks u (forced_cuts ABSOLUTE_MAX_SIZE (un_text u) 0) (length (ms_chunks (merge_flush m))))"
      using forced_chunks_size [OF _ order_refl assms(3) e] by (simp add: list_all_iff ABSOLUTE_MAX_SIZE_def [symmetric]) (simp add: ABSOLUTE_MAX_SIZE_def)
    then show ?thesis using True z flush_chunks_size [OF assms(2)] by (simp add: merge_unit_def Let_def size_inv_def units_text_def)
  next
    case False
    define m1 where "m1 = m\<lparr>ms_tracker := ?t\<rparr>"
    define m2 where "m2 = (if tk_header_ended ?t then merge_flush m1 else m1)"
    define headers where "headers = (if n < length (get_headers ?t) then [] else get_headers ?t)"
    define m3 where "m3 = (if n < ms_len m2 + length (un_text u) + length headers \<and> ms_current m2 \<noteq> [] then reopen co n k headers u m2 else m2)"
    define m4 where "m4 = (if ABSOLUTE_MAX_SIZE < ms_len m3 + length (un_text u) then merge_flush m3 else m3)"
    have "merge_inv k t s p m1" "size_inv U n m1" using assms(1,2) by (simp_all add: m1_def merge_inv_def size_inv_def)
    then have "\<exists>s2. merge_inv k t s2 p m2 \<and> size_inv U n m2"
      using merge_flush_inv [of k t s p m1] flush_size [of U n m1] unfolding m2_def by auto
    then obtain s2 where i2: "merge_inv k t s2 p m2" "size_inv U n m2" by blast
    have i3: "list_all (fits_size U n) (ms_chunks m3) \<and> ms_len m3 = length (units_text (ms_current m3)) \<and>
        (ms_current m3 = [] \<or> ms_len m3 + length (un_text u) \<le> n)"
    proof (cases "n < ms_len m2 + length (un_text u) + length headers \<and> ms_current m2 \<noteq> []")
      case True
      then have eq: "m3 = reopen co n k headers u m2" by (simp add: m3_def)
      show ?thesis unfolding eq by (rule reopen_size [OF i2 conjunct2 [OF True]])
    next
      case False
      then show ?thesis using i2(2) by (auto simp: m3_def size_inv_def)
    qed
    have i4: "list_all (fits_size U n) (ms_chunks m4) \<and> ms_len m4 = length (units_text (ms_current m4)) \<and>
        (ms_current m4 = [] \<or> (ms_len m4 + length (un_text u) \<le> n \<and> ms_len m4 + length (un_text u) \<le> ABSOLUTE_MAX_SIZE))"
    proof (cases "ABSOLUTE_MAX_SIZE < ms_len m3 + length (un_text u) \<and> ms_current m3 \<noteq> []")
      case True
      then have "fits_size U n (build_chunk (ms_current m3) (length (ms_chunks m3)))"
        using i3 assms(8) by (auto simp: fits_size_def build_chunk_def)
      then show ?thesis using True i3 by (simp add: m4_def merge_flush_def units_text_def)
    next
      case no: False
      then show ?thesis using i3 by (auto simp: m4_def merge_flush_def)
    qed
    have "merge_unit co n k u m = m4\<lparr>ms_current := ms_current m4 @ [u], ms_len := ms_len m4 + length (un_text u)\<rparr>"
      using False by (simp add: merge_unit_def Let_def m1_def m2_def m3_def m4_def headers_def)
    then show ?thesis using i4 False assms(3) by (cases "ms_current m4 = []") (auto simp: size_inv_def units_text_def)
  qed
qed

lemma merge_fold_size:
  "merge_inv k t s p m \<Longrightarrow> size_inv U n m \<Longrightarrow> tiles t p us q \<Longrightarrow> set us \<subseteq> U \<Longrightarrow> n \<le> ABSOLUTE_MAX_SIZE \<Longrightarrow>
    size_inv U n (fold (merge_unit co n k) us m)"
proof (induction us arbitrary: s p m)
  case (Cons u us)
  then have u: "un_start u = p" "p \<le> un_end u" "un_end u \<le> length t" "un_text u = slice t p (un_end u)" "tiles t (un_end u) us q" by auto
  obtain s' where "merge_inv k t s' (un_end u) (merge_unit co n k u m)" using merge_unit_inv [OF Cons.prems(1) u(1-4)] by blast
  moreover have "size_inv U n (merge_unit co n k u m)" using merge_unit_size [OF Cons.prems(1,2) _ u(1-4)] Cons.prems(4,5) by simp
  ultimately show ?case using Cons.IH u(5) Cons.prems(4,5) by simp
qed simp

lemma merge_units_size:
  assumes "tiles t 0 us (length t)" "n \<le> ABSOLUTE_MAX_SIZE"
  shows "list_all (fits_size (set us) n) (merge_units co us n k)"
proof -
  let ?m = "\<lparr>ms_chunks = [], ms_current = [], ms_len = 0, ms_tracker = new_tracker\<rparr>"
  have "merge_inv k t 0 0 ?m" "size_inv (set us) n ?m" by (simp_all add: merge_inv_def size_inv_def in_hand_Nil units_text_def)
  then have "size_inv (set us) n (fold (merge_unit co n k) us ?m)" using merge_fold_size assms by blast
  then show ?thesis using flush_chunks_size by (simp add: merge_units_def)
qed

end
