(* ===== verification/Chunk_Tiers.thy ===== *)
theory Chunk_Tiers
  imports Chunk_Merge "HOL-Library.AList"
begin

text \<open>
  The tiers of the text chunker, src/src/core/knowledge/documents/chunker: heading breadcrumbs
  (heading_hierarchy.py), the profile of a document (profiler.py), the heading tier
  (heading_splitter.py), the heuristic tier (heuristic_splitter.py), the check of a result
  (validator.py) and the choice among the tiers (strategy.py). The two line-length statistics of the
  profile, which nothing reads, are left out.
\<close>

subsection \<open>Lines outside code fences\<close>

text \<open>Lines with their positions; a fence line toggles and is not kept itself.\<close>

definition is_fence :: "str \<Rightarrow> bool" where "is_fence line \<longleftrightarrow> starts_with [96, 96, 96] (strip line)"

fun open_lines :: "nat \<Rightarrow> bool \<Rightarrow> str list \<Rightarrow> (nat \<times> str) list" where
  "open_lines pos in_fence [] = []"
| "open_lines pos in_fence (l # ls) =
     (if is_fence l then open_lines (Suc (pos + length l)) (\<not> in_fence) ls
      else (if in_fence then [] else [(pos, l)]) @ open_lines (Suc (pos + length l)) in_fence ls)"

subsection \<open>Heading hierarchy\<close>

record hierarchy =
  hh_stack :: "str list"
  hh_depth :: nat

definition new_hierarchy :: hierarchy where "new_hierarchy = \<lparr>hh_stack = replicate 6 [], hh_depth = 0\<rparr>"

text \<open>The level of a heading line, 0 if it is none, and its text.\<close>

definition heading_of :: "str \<Rightarrow> nat \<times> str" where
  "heading_of line = (case search_rx MARKDOWN_HEADING_PATTERN line of None \<Rightarrow> (0, [])
     | Some (a, b, g) \<Rightarrow> (length (group_of 1 g), strip (group_of 2 g)))"

definition observe :: "str \<Rightarrow> hierarchy \<Rightarrow> hierarchy" where
  "observe line h =
     (let (level, heading) = heading_of line;
          stack = take (level - 1) (hh_stack h) @ [heading] @ replicate (6 - level) [];
          depth = (if hh_depth h < level then level else fold (\<lambda>i d. if stack ! i \<noteq> [] then Suc i else d) [0..<6] 0)
      in if level < 1 \<or> 6 < level then h else \<lparr>hh_stack = stack, hh_depth = depth\<rparr>)"

definition active_levels :: "hierarchy \<Rightarrow> nat list" where
  "active_levels h = filter (\<lambda>i. hh_stack h ! i \<noteq> []) [0..<hh_depth h]"

definition breadcrumb :: "hierarchy \<Rightarrow> str" where
  "breadcrumb h = join_with [32, 62, 32] (map ((!) (hh_stack h)) (active_levels h))"

definition breadcrumb_with_hashes :: "hierarchy \<Rightarrow> str" where
  "breadcrumb_with_hashes h = join_with [10] (map (\<lambda>i. replicate (Suc i) 35 @ [32] @ hh_stack h ! i) (active_levels h))"

subsection \<open>Profile\<close>

datatype tier = HEADING | HEURISTIC | LEGACY

record doc_profile =
  dp_total_chars :: nat
  dp_total_lines :: nat
  dp_heading_counts :: "(nat \<times> nat) list"
  dp_heading_total :: nat
  dp_numbered :: nat
  dp_all_caps :: nat
  dp_blank_breaks :: nat
  dp_form_feeds :: nat
  dp_visual_seps :: nat
  dp_german :: nat
  dp_english :: nat
  dp_chinese :: nat
  dp_footers :: nat
  dp_has_tables :: bool
  dp_has_code :: bool
  dp_code_ratio :: rat
  dp_langs :: "str list"

definition empty_profile :: doc_profile where
  "empty_profile = \<lparr>dp_total_chars = 0, dp_total_lines = 0, dp_heading_counts = [], dp_heading_total = 0, dp_numbered = 0,
     dp_all_caps = 0, dp_blank_breaks = 0, dp_form_feeds = 0, dp_visual_seps = 0, dp_german = 0, dp_english = 0, dp_chinese = 0,
     dp_footers = 0, dp_has_tables = False, dp_has_code = False, dp_code_ratio = 0, dp_langs = []\<rparr>"

definition level_count :: "doc_profile \<Rightarrow> nat \<Rightarrow> nat" where
  "level_count p level = (case map_of (dp_heading_counts p) level of None \<Rightarrow> 0 | Some n \<Rightarrow> n)"

definition heading_density :: "doc_profile \<Rightarrow> rat" where
  "heading_density p = (if dp_total_lines p = 0 then 0 else float_div (dp_heading_total p) (dp_total_lines p))"

definition dominant_heading_level :: "doc_profile \<Rightarrow> nat" where
  "dominant_heading_level p =
     (if dp_heading_total p = 0 then 0
      else case find (\<lambda>l. 3 \<le> level_count p l) [1..<7] of Some l \<Rightarrow> l
        | None \<Rightarrow> (case find (\<lambda>l. 0 < level_count p l) (rev [1..<7]) of Some l \<Rightarrow> l | None \<Rightarrow> 0))"

definition heuristic_marker_total :: "doc_profile \<Rightarrow> nat" where
  "heuristic_marker_total p = dp_numbered p + dp_german p + dp_english p + dp_chinese p + dp_all_caps p + dp_visual_seps p + dp_form_feeds p"

definition match_heading :: "str \<Rightarrow> (nat \<times> nat) list \<Rightarrow> (nat \<times> nat) list option" where
  "match_heading line counts =
     (let level = fst (heading_of line)
      in if level < 1 \<or> 6 < level then None
         else Some (AList.update level (Suc (case map_of counts level of None \<Rightarrow> 0 | Some n \<Rightarrow> n)) counts))"

definition count_if :: "bool \<Rightarrow> nat" where "count_if b = (if b then 1 else 0)"

definition profile_line :: "char_ops \<Rightarrow> str \<Rightarrow> doc_profile \<Rightarrow> doc_profile" where
  "profile_line co line p =
     (case match_heading line (dp_heading_counts p) of
        Some counts \<Rightarrow> p\<lparr>dp_heading_counts := counts, dp_heading_total := Suc (dp_heading_total p)\<rparr>
      | None \<Rightarrow>
          p\<lparr>dp_numbered := dp_numbered p + count_if (occurs (NUMBERED_SECTION_PATTERN co) line),
            dp_german := dp_german p + count_if (occurs GERMAN_CHAPTER_PATTERN line),
            dp_english := dp_english p + count_if (occurs ENGLISH_CHAPTER_PATTERN line),
            dp_chinese := dp_chinese p + count_if (occurs CHINESE_CHAPTER_PATTERN line),
            dp_all_caps := dp_all_caps p + count_if (occurs ALL_CAPS_HEADING_PATTERN line),
            dp_visual_seps := dp_visual_seps p + count_if (occurs VISUAL_SEPARATOR_PATTERN line),
            dp_footers := dp_footers p + count_if (occurs (PAGE_FOOTER_PATTERN co) line),
            dp_has_tables := (dp_has_tables p \<or> starts_with [124] (strip line) \<and> ends_with [124] (strip line))\<rparr>)"

text \<open>The pass over the lines: the fence state, the characters inside fences and the profile.\<close>

fun profile_lines :: "char_ops \<Rightarrow> str list \<Rightarrow> bool \<Rightarrow> nat \<Rightarrow> doc_profile \<Rightarrow> nat \<times> doc_profile" where
  "profile_lines co [] in_fence code_chars p = (code_chars, p)"
| "profile_lines co (l # ls) in_fence code_chars p =
     (if is_fence l then profile_lines co ls (\<not> in_fence) code_chars (p\<lparr>dp_has_code := True\<rparr>)
      else if in_fence then profile_lines co ls in_fence (code_chars + length l) p
      else profile_lines co ls in_fence code_chars (profile_line co l p))"

function count_str :: "str \<Rightarrow> str \<Rightarrow> nat" where
  "count_str needle s =
     (if s = [] \<or> needle = [] then 0
      else if starts_with needle s then Suc (count_str needle (drop (length needle) s)) else count_str needle (tl s))"
  by pat_completeness auto
termination by (relation "measure (\<lambda>(needle, s). length s)") auto

declare count_str.simps [simp del]

definition profile_document :: "char_ops \<Rightarrow> str \<Rightarrow> doc_profile" where
  "profile_document co doc =
     (if doc = [] then empty_profile
      else
        let lines = lines_of doc;
            p0 = empty_profile\<lparr>dp_total_chars := length doc, dp_form_feeds := count_list doc 12, dp_total_lines := length lines\<rparr>;
            (code_chars, p1) = profile_lines co lines False 0 p0;
            lang = detect_language (take 4096 doc)
        in p1\<lparr>dp_code_ratio := float_div code_chars (length doc), dp_blank_breaks := count_str [10, 10, 10] doc,
              dp_langs := (if lang = LangMixed then [LangEnglish, LangGerman, LangChinese] else [lang])\<rparr>)"

definition select_strategy :: "doc_profile option \<Rightarrow> tier list" where
  "select_strategy profile =
     (case profile of None \<Rightarrow> [LEGACY]
      | Some p \<Rightarrow>
          (if 3 \<le> dp_heading_total p \<and> fl64 (5 / 1000) < heading_density p \<and> 0 < dominant_heading_level p then [HEADING] else []) @
          (if 5 \<le> heuristic_marker_total p \<or> 0 < dp_form_feeds p \<or> 0 < dp_german p + dp_english p + dp_chinese p then [HEURISTIC] else []) @
          [LEGACY])"

subsection \<open>Heading tier\<close>

definition primary_headings :: "nat \<Rightarrow> str \<Rightarrow> (nat \<times> str) list" where
  "primary_headings primary_level doc =
     filter (\<lambda>(pos, line). 1 \<le> fst (heading_of line) \<and> fst (heading_of line) \<le> primary_level) (open_lines 0 False (lines_of doc))"

text \<open>A boundary is a position and its heading line, empty for a leading boundary without one.\<close>

definition find_heading_boundaries :: "str \<Rightarrow> nat \<Rightarrow> (nat \<times> str) list" where
  "find_heading_boundaries doc primary_level =
     (case primary_headings primary_level doc of
        [] \<Rightarrow> [(0, [])]
      | (pos, line) # hs \<Rightarrow> if pos = 0 then (pos, line) # hs else (0, []) # (pos, line) # hs)"

definition sub_headings :: "nat \<Rightarrow> str \<Rightarrow> (nat \<times> str) list" where
  "sub_headings primary_level section =
     filter (\<lambda>(pos, line). primary_level < fst (heading_of line)) (open_lines 0 False (lines_of section))"

definition observe_sub_headings :: "str \<Rightarrow> nat \<Rightarrow> hierarchy \<Rightarrow> hierarchy" where
  "observe_sub_headings section primary_level h = fold (\<lambda>(pos, line). observe line) (sub_headings primary_level section) h"

fun breadcrumb_steps :: "hierarchy \<Rightarrow> (nat \<times> str) list \<Rightarrow> (nat \<times> str) list" where
  "breadcrumb_steps h [] = []"
| "breadcrumb_steps h ((pos, line) # hs) =
     (let h1 = observe line h in (pos, breadcrumb_with_hashes h1) # breadcrumb_steps h1 hs)"

definition section_breadcrumbs :: "str \<Rightarrow> nat \<Rightarrow> hierarchy \<Rightarrow> (nat \<times> str) list" where
  "section_breadcrumbs section primary_level seed =
     (0, breadcrumb_with_hashes seed) # breadcrumb_steps seed (sub_headings primary_level section)"

fun breadcrumb_at_offset :: "(nat \<times> str) list \<Rightarrow> nat \<Rightarrow> str \<Rightarrow> str" where
  "breadcrumb_at_offset [] offset bc = bc"
| "breadcrumb_at_offset ((start, b) # bs) offset bc = (if offset < start then bc else breadcrumb_at_offset bs offset b)"

fun number_chunks :: "nat \<Rightarrow> chunk list \<Rightarrow> chunk list" where
  "number_chunks n [] = []"
| "number_chunks n (c # cs) = c\<lparr>ck_seq := n\<rparr> # number_chunks (Suc n) cs"

definition shift_chunk :: "nat \<Rightarrow> (nat \<Rightarrow> str) \<Rightarrow> chunk \<Rightarrow> chunk" where
  "shift_chunk d header c = c\<lparr>ck_context_header := header (ck_start c), ck_start := d + ck_start c, ck_end := d + ck_end c\<rparr>"

definition section_chunks :: "char_ops \<Rightarrow> splitter_config \<Rightarrow> nat \<Rightarrow> hierarchy \<Rightarrow> str \<Rightarrow> nat \<Rightarrow> nat \<Rightarrow> chunk list" where
  "section_chunks co cfg primary_level h section a seq =
     (let bc = breadcrumb_with_hashes h; n = length section
      in if n = 0 then []
         else if int (length bc + 2 + n) \<le> sc_chunk_size cfg
         then [\<lparr>ck_content = section, ck_context_header = bc, ck_seq = seq, ck_start = a, ck_end = a + n\<rparr>]
         else number_chunks seq (map (shift_chunk a (\<lambda>offset. breadcrumb_at_offset (section_breadcrumbs section primary_level h) offset bc))
           (split_text co cfg section)))"

fun heading_sections :: "char_ops \<Rightarrow> splitter_config \<Rightarrow> str \<Rightarrow> nat \<Rightarrow> hierarchy \<Rightarrow> nat \<Rightarrow> (nat \<times> str) list \<Rightarrow> chunk list" where
  "heading_sections co cfg doc primary_level h seq [] = []"
| "heading_sections co cfg doc primary_level h seq ((a, line) # bs) =
     (let end_rune = (case bs of [] \<Rightarrow> length doc | (b, _) # _ \<Rightarrow> b);
          h1 = (if line \<noteq> [] then observe line h else h);
          section = slice doc a end_rune;
          cs = section_chunks co cfg primary_level h1 section a seq
      in cs @ heading_sections co cfg doc primary_level (observe_sub_headings section primary_level h1) (seq + length cs) bs)"

fun common_prefix :: "'a list \<Rightarrow> 'a list \<Rightarrow> 'a list" where
  "common_prefix (x # xs) (y # ys) = (if x = y then x # common_prefix xs ys else [])"
| "common_prefix _ _ = []"

definition common_heading_prefix :: "str \<Rightarrow> str \<Rightarrow> str" where
  "common_heading_prefix a b = (if a = b then a else join_with [10] (common_prefix (lines_of a) (lines_of b)))"

fun coalesce :: "int \<Rightarrow> int \<Rightarrow> chunk \<Rightarrow> int \<Rightarrow> chunk list \<Rightarrow> chunk list" where
  "coalesce target chunk_size cur cur_len [] = [cur]"
| "coalesce target chunk_size cur cur_len (c # cs) =
     (let shared = common_heading_prefix (ck_context_header cur) (ck_context_header c); n = int (length (ck_content c))
      in if shared \<noteq> [] \<and> ck_end cur = ck_start c \<and> cur_len < target \<and> cur_len + n \<le> chunk_size
         then coalesce target chunk_size
           (cur\<lparr>ck_content := ck_content cur @ ck_content c, ck_context_header := shared, ck_end := ck_end c\<rparr>) (cur_len + n) cs
         else cur # coalesce target chunk_size c n cs)"

definition coalesce_tiny_chunks :: "chunk list \<Rightarrow> int \<Rightarrow> chunk list" where
  "coalesce_tiny_chunks chunks chunk_size =
     (case chunks of [] \<Rightarrow> []
      | c # cs \<Rightarrow> if cs = [] \<or> chunk_size \<le> 0 then chunks
          else number_chunks 0 (coalesce (max 200 (chunk_size div 2)) chunk_size c (int (length (ck_content c))) cs))"

definition split_by_headings :: "char_ops \<Rightarrow> splitter_config \<Rightarrow> doc_profile option \<Rightarrow> str \<Rightarrow> chunk list" where
  "split_by_headings co cfg profile doc =
     (let p = (case profile of None \<Rightarrow> profile_document co doc | Some q \<Rightarrow> q);
          primary_level = dominant_heading_level p;
          bounds = find_heading_boundaries doc primary_level
      in if doc = [] then []
         else if primary_level = 0 \<or> length bounds \<le> 1 then split_text co cfg doc
         else coalesce_tiny_chunks (heading_sections co cfg doc primary_level new_hierarchy 0 bounds) (sc_chunk_size cfg))"

end
