(* ===== verification/Chunk_Strategy.thy ===== *)
theory Chunk_Strategy
  imports Chunk_Tiers
begin

text \<open>
  The heuristic tier (heuristic_splitter.py), the check of a result (validator.py) and the choice
  among the tiers (strategy.py) of the text chunker, src/src/core/knowledge/documents/chunker.
\<close>

subsection \<open>Heuristic boundaries\<close>

type_synonym boundary = "nat \<times> nat"

definition PRIO_FORM_FEED :: nat where "PRIO_FORM_FEED = 100"
definition PRIO_NUMBERED_HEAD :: nat where "PRIO_NUMBERED_HEAD = 90"
definition PRIO_CHAPTER_MARKER :: nat where "PRIO_CHAPTER_MARKER = 85"
definition PRIO_ALL_CAPS_HEADING :: nat where "PRIO_ALL_CAPS_HEADING = 70"
definition PRIO_VISUAL_SEP :: nat where "PRIO_VISUAL_SEP = 60"
definition PRIO_PAGE_FOOTER :: nat where "PRIO_PAGE_FOOTER = 50"
definition PRIO_BLANK_BLOCK :: nat where "PRIO_BLANK_BLOCK = 40"

definition all_rune_indices :: "str \<Rightarrow> rune \<Rightarrow> nat list" where
  "all_rune_indices doc needle = filter (\<lambda>i. doc ! i = needle) [0..<length doc]"

definition line_priority :: "char_ops \<Rightarrow> str list \<Rightarrow> str \<Rightarrow> nat option" where
  "line_priority co langs line =
     (if list_ex (\<lambda>r. occurs r line) (chapter_patterns_for_langs langs) then Some PRIO_CHAPTER_MARKER
      else if occurs (NUMBERED_SECTION_PATTERN co) line then Some PRIO_NUMBERED_HEAD
      else if occurs ALL_CAPS_HEADING_PATTERN line then Some PRIO_ALL_CAPS_HEADING
      else if occurs VISUAL_SEPARATOR_PATTERN line then Some PRIO_VISUAL_SEP
      else if occurs (PAGE_FOOTER_PATTERN co) line then Some PRIO_PAGE_FOOTER else None)"

fun first_at_each :: "boundary list \<Rightarrow> boundary list" where
  "first_at_each [] = []"
| "first_at_each (b # bs) = b # filter (\<lambda>c. fst c \<noteq> fst b) (first_at_each bs)"

definition find_heuristic_boundaries :: "char_ops \<Rightarrow> str \<Rightarrow> str list \<Rightarrow> boundary list" where
  "find_heuristic_boundaries co doc langs =
     first_at_each (sort_key (\<lambda>(pos, prio). (pos, - int prio))
       (map (\<lambda>i. (i, PRIO_FORM_FEED)) (all_rune_indices doc 12) @
        concat (map (\<lambda>(pos, line). case line_priority co langs line of None \<Rightarrow> [] | Some p \<Rightarrow> [(pos, p)])
          (open_lines 0 False (lines_of doc))) @
        map (\<lambda>m. (snd (span_of m), PRIO_BLANK_BLOCK)) (find_all EXCESSIVE_BLANKS_PATTERN doc)))"

text \<open>A boundary strictly inside a protected region; the regions are in order.\<close>

fun inside_span :: "nat \<Rightarrow> span list \<Rightarrow> bool" where
  "inside_span pos [] = False"
| "inside_span pos ((a, b) # ss) = (if pos \<le> a then False else if pos < b then True else inside_span pos ss)"

definition drop_bounds_inside_spans :: "boundary list \<Rightarrow> span list \<Rightarrow> boundary list" where
  "drop_bounds_inside_spans bounds ss = filter (\<lambda>b. \<not> inside_span (fst b) ss) bounds"

subsection \<open>Heuristic tier\<close>

text \<open>The sequence number is always the number of chunks so far.\<close>

definition append_chunk :: "chunk list \<Rightarrow> str \<Rightarrow> nat \<Rightarrow> nat \<Rightarrow> chunk list" where
  "append_chunk out doc a b =
     (if b \<le> a \<or> strip (slice doc a b) = [] then out
      else out @ [\<lparr>ck_content = slice doc a b, ck_context_header = [], ck_seq = length out, ck_start = a, ck_end = b\<rparr>])"

definition append_oversize_block :: "char_ops \<Rightarrow> chunk list \<Rightarrow> str \<Rightarrow> nat \<Rightarrow> nat \<Rightarrow> splitter_config \<Rightarrow> chunk list" where
  "append_oversize_block co out doc a b cfg =
     (if b \<le> a then out else out @ number_chunks (length out) (map (shift_chunk a (\<lambda>offset. [])) (split_text co cfg (slice doc a b))))"

definition apply_overlap_aligned :: "str \<Rightarrow> nat \<Rightarrow> int \<Rightarrow> boundary list \<Rightarrow> nat" where
  "apply_overlap_aligned doc cur_end overlap bounds =
     (let target = cur_end - nat overlap; window_start = cur_end - 2 * nat overlap;
          best = fold (\<lambda>(b, _) best. if window_start \<le> b \<and> b < cur_end \<and> (case best of None \<Rightarrow> True | Some x \<Rightarrow> x < b) then Some b else best) bounds None
      in if overlap \<le> 0 then cur_end
         else case best of Some b \<Rightarrow> b
           | None \<Rightarrow> (case find (\<lambda>i. i < length doc \<and> doc ! i = 10) (rev [Suc window_start..<Suc target]) of
                Some i \<Rightarrow> Suc i | None \<Rightarrow> target))"

fun pack_blocks :: "char_ops \<Rightarrow> splitter_config \<Rightarrow> str \<Rightarrow> boundary list \<Rightarrow> chunk list \<Rightarrow> nat \<Rightarrow> nat \<Rightarrow> boundary list \<Rightarrow> chunk list" where
  "pack_blocks co cfg doc bounds out chunk_start cur_end [] =
     (if chunk_start < cur_end then append_chunk out doc chunk_start cur_end else out)"
| "pack_blocks co cfg doc bounds out chunk_start cur_end ((next_end, _) # bs) =
     (if sc_chunk_size cfg < int next_end - int cur_end then
        let out1 = (if chunk_start < cur_end then append_chunk out doc chunk_start cur_end else out);
            out2 = append_oversize_block co out1 doc cur_end next_end cfg
        in pack_blocks co cfg doc bounds out2 next_end next_end bs
      else if sc_chunk_size cfg < int next_end - int chunk_start \<and> max 50 (sc_chunk_size cfg div 4) \<le> int cur_end - int chunk_start then
        pack_blocks co cfg doc bounds (append_chunk out doc chunk_start cur_end)
          (apply_overlap_aligned doc cur_end (sc_chunk_overlap cfg) bounds) next_end bs
      else pack_blocks co cfg doc bounds out chunk_start next_end bs)"

definition all_bounds :: "str \<Rightarrow> boundary list \<Rightarrow> boundary list" where
  "all_bounds doc bounds =
     (let b1 = bounds @ [(length doc, 0)] in if fst (hd b1) \<noteq> 0 then (0, 0) # b1 else b1)"

definition split_by_heuristics :: "char_ops \<Rightarrow> splitter_config \<Rightarrow> str \<Rightarrow> chunk list" where
  "split_by_heuristics co cfg doc =
     (let found_bounds = drop_bounds_inside_spans (find_heuristic_boundaries co doc (sc_languages cfg)) (protected_spans co doc);
          bounds = all_bounds doc found_bounds;
          first = fst (hd bounds)
      in if doc = [] then []
         else if int (length doc) \<le> sc_chunk_size cfg \<or> found_bounds = [] then split_text co cfg doc
         else pack_blocks co cfg doc bounds [] first first (tl bounds))"

subsection \<open>Validation\<close>

text \<open>The reason of a rejection; \<open>None\<close> is a verdict of ok.\<close>

datatype rejection = NO_CHUNKS | SINGLE_CHUNK | TINY_CHUNKS | FAR_BELOW_TARGET | EXCEEDS_TARGET

definition validate_chunks :: "chunk list \<Rightarrow> nat \<Rightarrow> int \<Rightarrow> rejection option" where
  "validate_chunks chunks total_chars chunk_size =
     (let max_len = fold max (map (\<lambda>c. length (ck_content c)) chunks) 0;
          tiny_count = length (filter (\<lambda>c. length (ck_content c) < 50) (butlast chunks))
      in if chunks = [] then Some NO_CHUNKS
         else if length chunks = 1 \<and> 2 * chunk_size < int total_chars then Some SINGLE_CHUNK
         else if length chunks div 4 < tiny_count \<and> 2 < tiny_count then Some TINY_CHUNKS
         else if int max_len < chunk_size div 4 \<and> chunk_size < int total_chars then Some FAR_BELOW_TARGET
         else if 2 * chunk_size < int max_len \<and> 0 < chunk_size then Some EXCEEDS_TARGET
         else None)"

subsection \<open>Strategy\<close>

definition STRATEGY_AUTO :: str where "STRATEGY_AUTO = lit ''auto''"
definition STRATEGY_HEADING :: str where "STRATEGY_HEADING = lit ''heading''"
definition STRATEGY_HEURISTIC :: str where "STRATEGY_HEURISTIC = lit ''heuristic''"
definition STRATEGY_RECURSIVE :: str where "STRATEGY_RECURSIVE = lit ''recursive''"
definition STRATEGY_LEGACY :: str where "STRATEGY_LEGACY = lit ''legacy''"

definition resolve_chain_with_profile :: "char_ops \<Rightarrow> splitter_config \<Rightarrow> str \<Rightarrow> tier list \<times> doc_profile option" where
  "resolve_chain_with_profile co cfg doc =
     (if sc_strategy cfg = STRATEGY_HEADING then ([HEADING, LEGACY], None)
      else if sc_strategy cfg = STRATEGY_HEURISTIC then ([HEURISTIC, LEGACY], None)
      else if sc_strategy cfg = STRATEGY_RECURSIVE then ([LEGACY], None)
      else if sc_strategy cfg = STRATEGY_LEGACY \<or> sc_strategy cfg = [] then ([LEGACY], None)
      else (select_strategy (Some (profile_document co doc)), Some (profile_document co doc)))"

definition run_tier :: "char_ops \<Rightarrow> splitter_config \<Rightarrow> doc_profile option \<Rightarrow> tier \<Rightarrow> str \<Rightarrow> chunk list" where
  "run_tier co cfg profile t doc =
     (case t of HEADING \<Rightarrow> split_by_headings co cfg profile doc
      | HEURISTIC \<Rightarrow> split_by_heuristics co cfg doc
      | LEGACY \<Rightarrow> split_text co cfg doc)"

definition ensure_defaults :: "splitter_config \<Rightarrow> splitter_config" where
  "ensure_defaults cfg0 =
     (let c1 = (if sc_chunk_size cfg0 \<le> 0 then cfg0\<lparr>sc_chunk_size := DEFAULT_CHUNK_SIZE\<rparr> else cfg0);
          c2 = (if sc_chunk_overlap c1 \<le> 0 then c1\<lparr>sc_chunk_overlap := DEFAULT_CHUNK_OVERLAP\<rparr> else c1);
          c3 = (if sc_separators c2 = [] then c2\<lparr>sc_separators := DEFAULT_SEPARATORS\<rparr> else c2);
          budget = chars_for_token_limit (sc_token_limit c3) (if sc_languages c3 = [] then LangMixed else hd (sc_languages c3));
          c4 = (if 0 < sc_token_limit c3 \<and> 0 < budget \<and> (sc_chunk_size c3 = 0 \<or> budget < sc_chunk_size c3)
                then c3\<lparr>sc_chunk_size := budget\<rparr> else c3)
      in if sc_chunk_size c4 div 2 < sc_chunk_overlap c4 \<and> 0 < sc_chunk_size c4
         then c4\<lparr>sc_chunk_overlap := sc_chunk_size c4 div 2\<rparr> else c4)"

fun try_tiers :: "char_ops \<Rightarrow> splitter_config \<Rightarrow> doc_profile option \<Rightarrow> str \<Rightarrow> tier list \<Rightarrow> chunk list option \<Rightarrow> chunk list" where
  "try_tiers co cfg profile doc [] last_out = (case last_out of Some out \<Rightarrow> out | None \<Rightarrow> split_text co cfg doc)"
| "try_tiers co cfg profile doc (t # ts) last_out =
     (let out = run_tier co cfg profile t doc
      in if validate_chunks out (length doc) (sc_chunk_size cfg) = None then out
         else try_tiers co cfg profile doc ts (if t = LEGACY \<and> ts = [] then Some out else last_out))"

definition split_doc :: "char_ops \<Rightarrow> splitter_config \<Rightarrow> str \<Rightarrow> chunk list" where
  "split_doc co cfg0 doc =
     (let cfg = ensure_defaults cfg0; (chain, profile) = resolve_chain_with_profile co cfg doc
      in if doc = [] then [] else try_tiers co cfg profile doc chain None)"

record diagnostics =
  dg_selected_tier :: tier
  dg_tier_chain :: "tier list"
  dg_rejected :: "(tier \<times> rejection) list"
  dg_profile :: "doc_profile option"

fun diagnose_tiers :: "char_ops \<Rightarrow> splitter_config \<Rightarrow> str \<Rightarrow> tier list \<Rightarrow> (chunk list \<times> tier) option \<Rightarrow> diagnostics \<Rightarrow> chunk list \<times> diagnostics" where
  "diagnose_tiers co cfg doc [] last_out d =
     (case last_out of Some (out, t) \<Rightarrow> (out, d\<lparr>dg_selected_tier := t\<rparr>) | None \<Rightarrow> (split_text co cfg doc, d))"
| "diagnose_tiers co cfg doc (t # ts) last_out d =
     (let out = run_tier co cfg (dg_profile d) t doc
      in case validate_chunks out (length doc) (sc_chunk_size cfg) of
           None \<Rightarrow> (out, d\<lparr>dg_selected_tier := t\<rparr>)
         | Some r \<Rightarrow> diagnose_tiers co cfg doc ts (if t = LEGACY \<and> ts = [] then Some (out, t) else last_out)
             (d\<lparr>dg_rejected := dg_rejected d @ [(t, r)]\<rparr>))"

definition split_with_diagnostics :: "char_ops \<Rightarrow> splitter_config \<Rightarrow> str \<Rightarrow> chunk list \<times> diagnostics" where
  "split_with_diagnostics co cfg0 doc =
     (let diag = \<lparr>dg_selected_tier = LEGACY, dg_tier_chain = [], dg_rejected = [], dg_profile = None\<rparr>;
          cfg = ensure_defaults cfg0; (chain, profile) = resolve_chain_with_profile co cfg doc
      in if doc = [] then ([], diag) else diagnose_tiers co cfg doc chain None (diag\<lparr>dg_tier_chain := chain, dg_profile := profile\<rparr>))"

definition merge_breadcrumbs :: "str \<Rightarrow> str \<Rightarrow> str" where
  "merge_breadcrumbs parent child =
     (let ls = lines_of child;
          rest = (if strip (last (lines_of parent)) = strip (hd ls) then tl ls else ls)
      in if parent = [] then child else if child = [] then parent
         else if rest = [] then parent else parent @ [10] @ join_with [10] rest)"

definition split_parent_child :: "char_ops \<Rightarrow> splitter_config \<Rightarrow> splitter_config \<Rightarrow> str \<Rightarrow> chunk list \<times> child_chunk list" where
  "split_parent_child co parent_cfg child_cfg doc =
     (if doc = [] then ([], [])
      else parent_loop (split_doc co (ensure_defaults child_cfg))
        (\<lambda>p c. merge_breadcrumbs (ck_context_header p) (ck_context_header c))
        (split_doc co (ensure_defaults parent_cfg) doc) ([], []))"

end
