(* ===== verification/Chunk_Contract.thy ===== *)
theory Chunk_Contract
  imports Chunk_Sizes Chunk_Strategy
begin

text \<open>
  What every tier of the chunker promises, as a locale, and what the two-level split derives from it;
  the interpretation of the recursive splitter.
\<close>

subsection \<open>Covering a text\<close>

definition placed :: "str \<Rightarrow> chunk \<Rightarrow> bool" where
  "placed doc c \<longleftrightarrow> ck_start c \<le> ck_end c \<and> ck_end c \<le> length doc \<and> subseq (slice doc (ck_start c) (ck_end c)) (ck_content c)"

definition holds_at :: "chunk \<Rightarrow> nat \<Rightarrow> bool" where "holds_at c i \<longleftrightarrow> ck_start c \<le> i \<and> i < ck_end c"

text \<open>Every visible character of a region is in some chunk.\<close>

definition reaches :: "str \<Rightarrow> nat \<Rightarrow> nat \<Rightarrow> chunk list \<Rightarrow> bool" where
  "reaches doc a b cs \<longleftrightarrow> (\<forall>i. a \<le> i \<and> i < b \<and> i < length doc \<and> \<not> is_space (doc ! i) \<longrightarrow> list_ex (\<lambda>c. holds_at c i) cs)"

definition covers_text :: "str \<Rightarrow> chunk list \<Rightarrow> bool" where
  "covers_text doc cs \<longleftrightarrow> list_all (placed doc) cs \<and> reaches doc 0 (length doc) cs \<and> map ck_seq cs = [0..<length cs]"

lemma reaches_empty [simp]: "reaches doc a a cs"
  unfolding reaches_def by linarith

lemma reaches_append: "reaches doc a b xs \<Longrightarrow> reaches doc b c ys \<Longrightarrow> reaches doc a c (xs @ ys)"
  unfolding reaches_def list_ex_append by (metis not_le)

lemma reaches_more: "reaches doc a b xs \<Longrightarrow> set xs \<subseteq> set ys \<Longrightarrow> reaches doc a b ys"
  by (fastforce simp: reaches_def list_ex_iff)

lemma reaches_same: "reaches doc a b xs \<Longrightarrow> map ck_start ys = map ck_start xs \<Longrightarrow> map ck_end ys = map ck_end xs \<Longrightarrow> reaches doc a b ys"
proof -
  assume a: "reaches doc a b xs" "map ck_start ys = map ck_start xs" "map ck_end ys = map ck_end xs"
  have l: "length ys = length xs" using a(2) by (metis length_map)
  have "list_ex (\<lambda>c. holds_at c i) ys = list_ex (\<lambda>c. holds_at c i) xs" for i
    using l a(2,3) by (induction ys xs rule: list_induct2) (simp_all add: holds_at_def)
  then show ?thesis using a(1) by (simp add: reaches_def)
qed

lemma successively_reach:
  "successively (linked k) cs \<Longrightarrow> cs \<noteq> [] \<Longrightarrow> ck_start (hd cs) \<le> i \<Longrightarrow> i < ck_end (last cs) \<Longrightarrow> list_ex (\<lambda>c. holds_at c i) cs"
proof (induction cs)
  case (Cons c cs)
  show ?case
  proof (cases "i < ck_end c \<or> cs = []")
    case True
    then show ?thesis using Cons.prems by (auto simp: holds_at_def)
  next
    case False
    then have "linked k c (hd cs)" "successively (linked k) cs" using Cons.prems(1) by (auto simp: successively_Cons)
    then show ?thesis using Cons.IH False Cons.prems by (auto simp: linked_def)
  qed
qed simp

lemma covers_to_text:
  assumes "covers_to k doc (length doc) (length doc) cs" "doc \<noteq> []"
  shows "covers_text doc cs \<and> cs \<noteq> [] \<and> reaches doc 0 (length doc) cs"
proof -
  have ne: "cs \<noteq> []" using assms by auto
  then have c: "successively (linked k) cs" "ck_start (hd cs) = 0" "ck_end (last cs) = length doc" "map ck_seq cs = [0..<length cs]" "list_all (from_text doc) cs"
    using assms by (auto simp: covers_to_def)
  have "reaches doc 0 (length doc) cs" using successively_reach [OF c(1) ne] c(2,3) by (simp add: reaches_def)
  moreover have "list_all (placed doc) cs" using c(5) by (auto simp: list_all_iff from_text_def placed_def dest: suffix_imp_subseq)
  ultimately show ?thesis using c ne by (simp add: covers_text_def)
qed

lemma split_text_Nil [simp]: "split_text co cfg [] = []"
  by (simp add: split_text_def)

lemma split_text_covers: "covers_text doc (split_text co cfg doc)"
  using covers_to_text [OF split_text_cover [of doc cfg co]] by (cases "doc = []") (auto simp: covers_text_def reaches_def)

subsection \<open>Shifted and numbered chunks\<close>

lemma number_chunks_seq: "map ck_seq (number_chunks n cs) = [n..<n + length cs]"
proof (induction cs arbitrary: n)
  case (Cons c cs)
  have "[n..<n + length (c # cs)] = n # [Suc n..<Suc n + length cs]" by (subst upt_conv_Cons) (simp_all del: upt_Suc)
  then show ?case using Cons by (simp del: upt_Suc)
qed simp

lemma number_chunks_fields [simp]:
  "length (number_chunks n cs) = length cs" "map ck_start (number_chunks n cs) = map ck_start cs" "map ck_end (number_chunks n cs) = map ck_end cs"
  "list_all (placed doc) (number_chunks n cs) = list_all (placed doc) cs"
  by (induction cs arbitrary: n) (simp_all add: placed_def)

lemma placed_shift:
  assumes "placed (slice doc a b) c" "a \<le> b" "b \<le> length doc"
  shows "placed doc (shift_chunk a header c)"
proof -
  have "slice (slice doc a b) (ck_start c) (ck_end c) = slice doc (a + ck_start c) (a + ck_end c)"
    using assms by (intro slice_slice) (auto simp: placed_def)
  then show ?thesis using assms by (auto simp: placed_def shift_chunk_def)
qed

lemma reaches_shift:
  assumes "reaches (slice doc a b) 0 (b - a) cs" "a \<le> b" "b \<le> length doc"
  shows "reaches doc a b (map (shift_chunk a header) cs)"
  unfolding reaches_def
proof (intro allI impI)
  fix i
  assume i: "a \<le> i \<and> i < b \<and> i < length doc \<and> \<not> is_space (doc ! i)"
  then have "slice doc a b ! (i - a) = doc ! i" using assms by (intro slice_nth) auto
  then have "list_ex (\<lambda>c. holds_at c (i - a)) cs" using assms i by (auto simp: reaches_def)
  then obtain c where "c \<in> set cs" "holds_at c (i - a)" by (auto simp: list_ex_iff)
  moreover from this have "holds_at (shift_chunk a header c) i" using i by (auto simp: holds_at_def shift_chunk_def)
  ultimately show "list_ex (\<lambda>c. holds_at c i) (map (shift_chunk a header) cs)"
    by (auto simp: list_ex_iff)
qed

lemma shifted_split:
  assumes "a \<le> b" "b \<le> length doc"
  shows "list_all (placed doc) (number_chunks n (map (shift_chunk a header) (split_text co cfg (slice doc a b)))) \<and>
    reaches doc a b (number_chunks n (map (shift_chunk a header) (split_text co cfg (slice doc a b))))"
proof -
  have c: "covers_text (slice doc a b) (split_text co cfg (slice doc a b))" by (rule split_text_covers)
  have "list_all (placed doc) (map (shift_chunk a header) (split_text co cfg (slice doc a b)))"
    using c placed_shift [OF _ assms] by (auto simp: covers_text_def list_all_iff)
  moreover have "reaches doc a b (map (shift_chunk a header) (split_text co cfg (slice doc a b)))"
    using c assms by (intro reaches_shift) (auto simp: covers_text_def)
  ultimately show ?thesis by (auto intro: reaches_same)
qed

subsection \<open>The contract\<close>

locale text_splitter =
  fixes split_with :: "'c \<Rightarrow> str \<Rightarrow> chunk list"
  assumes splits: "covers_text doc (split_with c doc)"
begin

lemma finds_visible:
  assumes "i < length doc" "\<not> is_space (doc ! i)"
  shows "list_ex (\<lambda>c. holds_at c i \<and> placed doc c) (split_with c doc)"
proof -
  have "covers_text doc (split_with c doc)" by (rule splits)
  then show ?thesis using assms by (fastforce simp: covers_text_def reaches_def list_ex_iff list_all_iff)
qed

lemma nothing_lost: "\<exists>i < length doc. \<not> is_space (doc ! i) \<Longrightarrow> split_with c doc \<noteq> []"
  using finds_visible [of _ doc c] by fastforce

text \<open>The children of one parent whose body is its piece of the document.\<close>

lemma children_placed:
  assumes "ck_content p = slice doc (ck_start p) (ck_end p)" "ck_start p \<le> ck_end p" "ck_end p \<le> length doc"
  shows "list_all (\<lambda>c. placed doc (cc_chunk c) \<and> ck_start p \<le> ck_start (cc_chunk c) \<and> ck_end (cc_chunk c) \<le> ck_end p)
      (children_of header p index seq (split_with c (ck_content p))) \<and>
    reaches doc (ck_start p) (ck_end p) (map cc_chunk (children_of header p index seq (split_with c (ck_content p))))"
proof -
  have c: "covers_text (slice doc (ck_start p) (ck_end p)) (split_with c (ck_content p))" using splits assms(1) by metis
  have "list_all (\<lambda>c. placed doc (cc_chunk c) \<and> ck_start p \<le> ck_start (cc_chunk c) \<and> ck_end (cc_chunk c) \<le> ck_end p) (children_of header p index seq cs)"
    if "list_all (placed (slice doc (ck_start p) (ck_end p))) cs" for cs
    using that
  proof (induction cs arbitrary: seq)
    case (Cons d ds)
    then have "placed doc (shift_chunk (ck_start p) (\<lambda>_. []) d)" using assms(2,3) by (intro placed_shift) auto
    then show ?case using Cons assms by (auto simp: placed_def shift_chunk_def shift_child_def add.commute)
  qed simp
  moreover have "map ck_start (map cc_chunk (children_of header p index seq cs)) = map ck_start (map (shift_chunk (ck_start p) (\<lambda>_. [])) cs)"
    "map ck_end (map cc_chunk (children_of header p index seq cs)) = map ck_end (map (shift_chunk (ck_start p) (\<lambda>_. [])) cs)" for cs
    by (induction cs arbitrary: seq) (auto simp: shift_child_def shift_chunk_def)
  moreover have "reaches doc (ck_start p) (ck_end p) (map (shift_chunk (ck_start p) (\<lambda>_. [])) (split_with c (ck_content p)))"
    using c assms by (intro reaches_shift) (auto simp: covers_text_def)
  ultimately show ?thesis using c reaches_same unfolding covers_text_def by blast
qed

end

interpretation legacy: text_splitter "\<lambda>(co, cfg). split_text co cfg"
  by unfold_locales (simp add: split_text_covers split: prod.splits)

end
