(* ===== verification/Chunk_Tier_Laws.thy ===== *)
theory Chunk_Tier_Laws
  imports Chunk_Contract
begin

text \<open>
  The heading tier, the heuristic tier and the choice among the tiers meet the contract of the
  chunker.
\<close>

subsection \<open>Positions of lines\<close>

lemma lines_of_length: "sum_list (map (\<lambda>l. Suc (length l)) (lines_of s)) = Suc (length s)"
proof (induction s)
  case (Cons c cs)
  have "lines_of cs \<noteq> []" by (cases cs) auto
  then show ?case using Cons by (cases "lines_of cs") auto
qed simp

lemma open_lines_sorted:
  "sorted_wrt (<) (map fst (open_lines pos f ls)) \<and> (\<forall>(p, l) \<in> set (open_lines pos f ls). pos \<le> p \<and> p + length l < pos + sum_list (map (\<lambda>l. Suc (length l)) ls))"
proof (induction ls arbitrary: pos f)
  case (Cons l ls)
  have r: "sorted_wrt (<) (map fst (open_lines (Suc (pos + length l)) g ls))"
    "\<And>p q. (p, q) \<in> set (open_lines (Suc (pos + length l)) g ls) \<Longrightarrow>
      Suc (pos + length l) \<le> p \<and> p + length q < Suc (pos + length l) + sum_list (map (\<lambda>l. Suc (length l)) ls)" for g
    using Cons [of "Suc (pos + length l)" g] by auto
  have "\<forall>x \<in> set (map fst (open_lines (Suc (pos + length l)) g ls)). pos < x" for g
  proof
    fix x
    assume "x \<in> set (map fst (open_lines (Suc (pos + length l)) g ls))"
    then obtain q where "(x, q) \<in> set (open_lines (Suc (pos + length l)) g ls)" by auto
    from r(2) [OF this] show "pos < x" by linarith
  qed
  moreover have "\<forall>(p, q) \<in> set (open_lines (Suc (pos + length l)) g ls).
      pos \<le> p \<and> p + length q < pos + sum_list (map (\<lambda>l. Suc (length l)) (l # ls))" for g
  proof (clarify)
    fix p q
    assume "(p, q) \<in> set (open_lines (Suc (pos + length l)) g ls)"
    from r(2) [OF this] show "pos \<le> p \<and> p + length q < pos + sum_list (map (\<lambda>l. Suc (length l)) (l # ls))" by simp
  qed
  ultimately show ?case using r(1) by (cases "is_fence l"; cases f) simp_all
qed simp

lemma open_lines_within: "(p, l) \<in> set (open_lines 0 False (lines_of doc)) \<Longrightarrow> p + length l \<le> length doc"
  using open_lines_sorted [of 0 False "lines_of doc"] lines_of_length [of doc] by fastforce

subsection \<open>The heading tier\<close>

lemma primary_headings_sorted: "sorted_wrt (<) (map fst (primary_headings n doc)) \<and> (\<forall>b \<in> set (primary_headings n doc). fst b \<le> length doc)"
proof -
  have "sorted_wrt (<) (map fst (primary_headings n doc))"
    unfolding primary_headings_def using open_lines_sorted [of 0 False "lines_of doc"]
    by (simp add: sorted_wrt_map sorted_wrt_filter)
  moreover have "fst b \<le> length doc" if "b \<in> set (primary_headings n doc)" for b
    using that open_lines_within [of "fst b" "snd b" doc] by (auto simp: primary_headings_def)
  ultimately show ?thesis by blast
qed

lemma heading_bounds:
  "fst (hd (find_heading_boundaries doc n)) = 0 \<and> sorted_wrt (<) (map fst (find_heading_boundaries doc n)) \<and>
   (\<forall>b \<in> set (find_heading_boundaries doc n). fst b \<le> length doc)"
proof (cases "primary_headings n doc")
  case (Cons b bs)
  obtain pos line where b: "b = (pos, line)" by (cases b) auto
  then show ?thesis using primary_headings_sorted [of n doc] Cons
    by (auto simp: find_heading_boundaries_def)
qed (simp add: find_heading_boundaries_def)

lemma section_chunks_cover:
  assumes "a \<le> b" "b \<le> length doc"
  shows "list_all (placed doc) (section_chunks co cfg n h (slice doc a b) a seq) \<and>
    reaches doc a b (section_chunks co cfg n h (slice doc a b) a seq) \<and>
    map ck_seq (section_chunks co cfg n h (slice doc a b) a seq) = [seq..<seq + length (section_chunks co cfg n h (slice doc a b) a seq)]"
proof -
  consider "a = b" | "a < b" "int (length (breadcrumb_with_hashes h) + 2 + (b - a)) \<le> sc_chunk_size cfg"
    | "a < b" "\<not> int (length (breadcrumb_with_hashes h) + 2 + (b - a)) \<le> sc_chunk_size cfg" using assms by linarith
  then show ?thesis
  proof cases
    case 1
    then show ?thesis by (simp add: section_chunks_def)
  next
    case 2
    then have "section_chunks co cfg n h (slice doc a b) a seq =
        [\<lparr>ck_content = slice doc a b, ck_context_header = breadcrumb_with_hashes h, ck_seq = seq, ck_start = a, ck_end = b\<rparr>]"
      using assms by (simp add: section_chunks_def Let_def)
    then show ?thesis using 2 assms by (simp add: placed_def reaches_def holds_at_def)
  next
    case 3
    then show ?thesis using assms shifted_split [OF assms] by (simp add: section_chunks_def Let_def number_chunks_seq)
  qed
qed

lemma upt_join: "a \<le> b \<Longrightarrow> b \<le> c \<Longrightarrow> [a..<b] @ [b..<c] = [a..<c]"
  by (metis le_add_diff_inverse upt_add_eq_append)

lemma heading_sections_cover:
  "bs \<noteq> [] \<Longrightarrow> sorted_wrt (<) (map fst bs) \<Longrightarrow> \<forall>b \<in> set bs. fst b \<le> length doc \<Longrightarrow>
    list_all (placed doc) (heading_sections co cfg doc n h seq bs) \<and> reaches doc (fst (hd bs)) (length doc) (heading_sections co cfg doc n h seq bs) \<and>
    map ck_seq (heading_sections co cfg doc n h seq bs) = [seq..<seq + length (heading_sections co cfg doc n h seq bs)]"
proof (induction bs arbitrary: h seq)
  case (Cons b bs)
  obtain a line where b: "b = (a, line)" by (cases b) auto
  define e where "e = (case bs of [] \<Rightarrow> length doc | (x, _) # _ \<Rightarrow> x)"
  have ae: "a \<le> e" "e \<le> length doc" using Cons.prems b by (auto simp: e_def less_imp_le split: list.splits)
  let ?h = "if line \<noteq> [] then observe line h else h"
  let ?cs = "section_chunks co cfg n ?h (slice doc a e) a seq"
  let ?rest = "heading_sections co cfg doc n (observe_sub_headings (slice doc a e) n ?h) (seq + length ?cs) bs"
  have eq: "heading_sections co cfg doc n h seq (b # bs) = ?cs @ ?rest" by (simp add: b e_def Let_def)
  note s = section_chunks_cover [OF ae, of co cfg n ?h seq]
  have r: "list_all (placed doc) ?rest \<and> reaches doc e (length doc) ?rest \<and> map ck_seq ?rest = [seq + length ?cs..<seq + length ?cs + length ?rest]"
  proof (cases bs)
    case Nil
    then show ?thesis by (simp add: e_def)
  next
    case (Cons d ds)
    then have "e = fst (hd bs)" by (simp add: e_def split: prod.splits)
    then show ?thesis using Cons.IH Cons.prems Cons by simp
  qed
  have "reaches doc a (length doc) (?cs @ ?rest)" using s r by (blast intro: reaches_append)
  moreover have "map ck_seq (?cs @ ?rest) = [seq..<seq + length (?cs @ ?rest)]"
    using s r by (simp add: upt_join add.assoc)
  ultimately show ?case using s r unfolding eq by (simp add: b)
qed simp

text \<open>Joined chunks reach what their parts reach.\<close>

lemma coalesce_cover:
  "placed doc cur \<Longrightarrow> list_all (placed doc) cs \<Longrightarrow>
    list_all (placed doc) (coalesce target size cur n cs) \<and>
    (\<forall>i. list_ex (\<lambda>c. holds_at c i) (cur # cs) \<longrightarrow> list_ex (\<lambda>c. holds_at c i) (coalesce target size cur n cs))"
  for size :: int
proof (induction target size cur n cs rule: coalesce.induct)
  case (2 target size cur n c cs)
  let ?shared = "common_heading_prefix (ck_context_header cur) (ck_context_header c)"
  let ?join = "cur\<lparr>ck_content := ck_content cur @ ck_content c, ck_context_header := ?shared, ck_end := ck_end c\<rparr>"
  show ?case
  proof (cases "?shared \<noteq> [] \<and> ck_end cur = ck_start c \<and> n < target \<and> n + int (length (ck_content c)) \<le> size")
    case True
    have "slice doc (ck_start cur) (ck_end c) = slice doc (ck_start cur) (ck_end cur) @ slice doc (ck_start c) (ck_end c)"
      using True 2(3,4) by (simp add: placed_def slice_append)
    then have p: "placed doc ?join" using True 2(3,4) by (auto simp: placed_def intro: list_emb_append_mono)
    have h: "list_ex (\<lambda>c. holds_at c i) (cur # c # cs) \<Longrightarrow> list_ex (\<lambda>c. holds_at c i) (?join # cs)" for i
      using True 2(3,4) by (auto simp: holds_at_def placed_def)
    have eq: "coalesce target size cur n (c # cs) = coalesce target size ?join (n + int (length (ck_content c))) cs"
      using True by (simp add: Let_def)
    have "list_all (placed doc) cs" using 2(4) by simp
    from 2(1) [OF refl refl True p this] show ?thesis unfolding eq using h by blast
  next
    case False
    have eq: "coalesce target size cur n (c # cs) = cur # coalesce target size c (int (length (ck_content c))) cs"
      by (simp only: coalesce.simps Let_def if_not_P [OF False])
    have "placed doc c" "list_all (placed doc) cs" using 2(4) by simp_all
    from 2(2) [OF refl refl False this] show ?thesis unfolding eq using 2(3) by auto
  qed
qed simp

lemma coalesce_tiny_cover: "covers_text doc cs \<Longrightarrow> covers_text doc (coalesce_tiny_chunks cs n)"
proof (cases cs)
  case (Cons c ds)
  assume a: "covers_text doc cs"
  show ?thesis
  proof (cases "ds = [] \<or> n \<le> 0")
    case True
    then show ?thesis using a Cons by (simp add: coalesce_tiny_chunks_def)
  next
    case False
    let ?out = "coalesce (max 200 (n div 2)) n c (int (length (ck_content c))) ds"
    have c: "list_all (placed doc) ?out" "\<And>i. list_ex (\<lambda>c. holds_at c i) cs \<Longrightarrow> list_ex (\<lambda>c. holds_at c i) ?out"
      using coalesce_cover [of doc c ds "max 200 (n div 2)" n "int (length (ck_content c))"] a Cons by (auto simp: covers_text_def)
    then have "reaches doc 0 (length doc) ?out" using a by (simp add: covers_text_def reaches_def)
    then have "reaches doc 0 (length doc) (number_chunks 0 ?out)" by (rule reaches_same) simp_all
    moreover have "coalesce_tiny_chunks cs n = number_chunks 0 ?out" using Cons False by (simp add: coalesce_tiny_chunks_def)
    ultimately show ?thesis using c(1) number_chunks_seq [of 0 ?out] by (simp add: covers_text_def)
  qed
qed (simp add: coalesce_tiny_chunks_def)

lemma split_by_headings_covers: "covers_text doc (split_by_headings co cfg profile doc)"
proof -
  have "covers_text doc (heading_sections co cfg doc n new_hierarchy 0 (find_heading_boundaries doc n))"
    if "find_heading_boundaries doc n \<noteq> []" for n
    using heading_sections_cover [OF that] heading_bounds [of doc n] by (auto simp: covers_text_def)
  moreover have "find_heading_boundaries doc n \<noteq> []" for n
    by (simp add: find_heading_boundaries_def split: list.splits prod.splits)
  ultimately show ?thesis
    using split_text_covers coalesce_tiny_cover by (auto simp: split_by_headings_def Let_def covers_text_def [of "[]"] reaches_def)
qed

subsection \<open>The heuristic tier\<close>

lemma first_at_each_subset: "set (first_at_each bs) \<subseteq> set bs"
  by (induction bs rule: first_at_each.induct) auto

lemma first_at_each_sorted: "sorted (map fst bs) \<Longrightarrow> sorted (map fst (first_at_each bs))"
proof (induction bs rule: first_at_each.induct)
  case (2 b bs)
  then have "\<forall>x \<in> set (first_at_each bs). fst b \<le> fst x" using first_at_each_subset by fastforce
  then show ?case using 2 by (auto intro: sorted_filter)
qed simp

lemma lex_sorted: "sorted (map (\<lambda>(pos, prio). (pos, - int prio)) bs) \<Longrightarrow> sorted (map fst bs)"
  by (induction bs) (auto simp: less_eq_prod_def)

lemma heuristic_bounds_sorted: "sorted (map fst (find_heuristic_boundaries co doc langs))"
  unfolding find_heuristic_boundaries_def by (intro first_at_each_sorted lex_sorted) simp

lemma heuristic_bounds_within: "b \<in> set (find_heuristic_boundaries co doc langs) \<Longrightarrow> fst b \<le> length doc"
proof -
  assume "b \<in> set (find_heuristic_boundaries co doc langs)"
  then consider "fst b < length doc" | pos line where "(pos, line) \<in> set (open_lines 0 False (lines_of doc))" "fst b = pos"
    | m where "m \<in> set (find_all EXCESSIVE_BLANKS_PATTERN doc)" "fst b = snd (span_of m)"
    using first_at_each_subset unfolding find_heuristic_boundaries_def
    by (fastforce simp: all_rune_indices_def split: option.splits)
  then show ?thesis
  proof cases
    case 2
    then show ?thesis using open_lines_within by fastforce
  next
    case 3
    then have "span_of m \<in> set (map span_of (find_all EXCESSIVE_BLANKS_PATTERN doc))" by simp
    then show ?thesis using spans_from_bounds [OF find_all_spans, of "fst (span_of m)" "snd (span_of m)"] 3(2) by simp
  qed simp
qed

text \<open>Sorted bounds that start at 0 and end with the text.\<close>

lemma all_bounds_shape:
  assumes "sorted (map fst bs)" "\<forall>b \<in> set bs. fst b \<le> length doc"
  shows "all_bounds doc bs \<noteq> [] \<and> fst (hd (all_bounds doc bs)) = 0 \<and> sorted (map fst (all_bounds doc bs)) \<and>
    fst (last (all_bounds doc bs)) = length doc"
proof -
  have "sorted (map fst (bs @ [(length doc, 0)]))" using assms by (auto simp: sorted_append)
  then show ?thesis by (auto simp: all_bounds_def Let_def)
qed

definition packed :: "str \<Rightarrow> chunk list \<Rightarrow> nat \<Rightarrow> bool" where
  "packed doc out a \<longleftrightarrow> list_all (placed doc) out \<and> map ck_seq out = [0..<length out] \<and> reaches doc 0 a out"

lemma packed_earlier: "packed doc out b \<Longrightarrow> a \<le> b \<Longrightarrow> packed doc out a"
  by (auto simp: packed_def reaches_def)

lemma append_chunk_packed:
  assumes "packed doc out a" "a \<le> b" "b \<le> length doc"
  shows "packed doc (append_chunk out doc a b) b"
proof (cases "b \<le> a \<or> strip (slice doc a b) = []")
  case True
  have "is_space (doc ! i)" if "a \<le> i" "i < b" for i
  proof -
    have "list_all is_space (slice doc a b)" using True that by (auto simp: strip_eq_Nil_iff)
    then have "is_space (slice doc a b ! (i - a))" using that assms by (auto simp: list_all_length)
    then show ?thesis using that assms slice_nth [of a i b doc] by simp
  qed
  then have "reaches doc a b out" by (auto simp: reaches_def)
  then have "reaches doc 0 b out" using assms(1) reaches_append [of doc 0 a out b out] reaches_more [of doc 0 b "out @ out" out]
    by (simp add: packed_def)
  then show ?thesis using True assms(1) by (auto simp: append_chunk_def packed_def)
next
  case False
  let ?c = "\<lparr>ck_content = slice doc a b, ck_context_header = [], ck_seq = length out, ck_start = a, ck_end = b\<rparr>"
  have "reaches doc a b [?c]" by (simp add: reaches_def holds_at_def)
  then have "reaches doc 0 b (out @ [?c])" using assms(1) reaches_append by (auto simp: packed_def)
  then show ?thesis using False assms by (auto simp: append_chunk_def packed_def placed_def)
qed

lemma append_oversize_packed:
  assumes "packed doc out a" "a \<le> b" "b \<le> length doc"
  shows "packed doc (append_oversize_block co out doc a b cfg) b"
proof (cases "b \<le> a")
  case True
  then show ?thesis using assms by (simp add: append_oversize_block_def)
next
  case False
  let ?new = "number_chunks (length out) (map (shift_chunk a (\<lambda>offset. [])) (split_text co cfg (slice doc a b)))"
  have n: "list_all (placed doc) ?new" "reaches doc a b ?new" using shifted_split [OF assms(2,3)] by auto
  then have "reaches doc 0 b (out @ ?new)" using assms(1) reaches_append by (auto simp: packed_def)
  moreover have "map ck_seq (out @ ?new) = [0..<length (out @ ?new)]"
    using assms(1) by (simp add: packed_def number_chunks_seq upt_join)
  ultimately show ?thesis using False assms(1) n(1) by (simp add: append_oversize_block_def packed_def)
qed

lemma best_bound_before:
  "fold (\<lambda>(b, _) best. if w \<le> b \<and> b < e \<and> (case best of None \<Rightarrow> True | Some x \<Rightarrow> x < b) then Some b else best) bs start = Some b \<Longrightarrow>
    (\<And>x. start = Some x \<Longrightarrow> x < e) \<Longrightarrow> b < e" for bs :: "boundary list" and e :: nat
proof (induction bs arbitrary: start)
  case (Cons d bs)
  obtain x p where d: "d = (x, p)" by (cases d) auto
  let ?start = "if w \<le> x \<and> x < e \<and> (case start of None \<Rightarrow> True | Some y \<Rightarrow> y < x) then Some x else start"
  show ?case
  proof (rule Cons.IH [of ?start])
    show "y < e" if "?start = Some y" for y using that Cons.prems(2) by (simp split: if_splits)
  qed (use Cons.prems(1) in \<open>simp add: d\<close>)
qed simp

lemma overlap_aligned_back: "apply_overlap_aligned doc cur_end overlap bounds \<le> cur_end"
proof -
  have best: "b \<le> cur_end" if "fold (\<lambda>(b, _) best. if w \<le> b \<and> b < cur_end \<and> (case best of None \<Rightarrow> True | Some x \<Rightarrow> x < b) then Some b else best) bounds None = Some b" for w b
    using best_bound_before [OF that] by simp
  moreover have "Suc i \<le> cur_end" if "find P (rev [Suc w..<Suc (cur_end - nat overlap)]) = Some i" "0 < overlap" for P w i
  proof -
    have "Suc w \<le> i" "i \<le> cur_end - nat overlap" using find_in_set [OF that(1)] by auto
    moreover have "0 < nat overlap" using that(2) by simp
    ultimately show ?thesis by linarith
  qed
  ultimately show ?thesis using best unfolding apply_overlap_aligned_def Let_def
    by (simp split: option.splits del: upt_Suc)
qed

lemma pack_blocks_packed:
  "packed doc out a \<Longrightarrow> a \<le> e \<Longrightarrow> e \<le> length doc \<Longrightarrow> sorted (e # map fst bs) \<Longrightarrow> fst (last ((e, 0) # bs)) = length doc \<Longrightarrow>
    packed doc (pack_blocks co cfg doc bounds out a e bs) (length doc)"
proof (induction co cfg doc bounds out a e bs rule: pack_blocks.induct)
  case (1 co cfg doc bounds out a e)
  then show ?case using append_chunk_packed [of doc out a e] by (cases "a < e") auto
next
  case (2 co cfg doc bounds out a e next_end prio bs)
  have n: "e \<le> next_end" "next_end \<le> length doc" "sorted (next_end # map fst bs)" "fst (last ((next_end, 0) # bs)) = length doc"
  proof -
    show "e \<le> next_end" "sorted (next_end # map fst bs)" using 2(7) by auto
    show l: "fst (last ((next_end, 0) # bs)) = length doc" using 2(8) by (auto split: if_splits)
    have "next_end \<le> fst (last ((next_end, 0) # bs))" using 2(7) by (cases "bs = []") auto
    then show "next_end \<le> length doc" using l by simp
  qed
  have flushed: "packed doc (if a < e then append_chunk out doc a e else out) e"
    using append_chunk_packed [OF 2(4-6)] 2(4,5) by (cases "a < e") auto
  consider "sc_chunk_size cfg < int next_end - int e"
    | "\<not> sc_chunk_size cfg < int next_end - int e" "sc_chunk_size cfg < int next_end - int a \<and> max 50 (sc_chunk_size cfg div 4) \<le> int e - int a"
    | "\<not> sc_chunk_size cfg < int next_end - int e" "\<not> (sc_chunk_size cfg < int next_end - int a \<and> max 50 (sc_chunk_size cfg div 4) \<le> int e - int a)"
    by blast
  then show ?case
  proof cases
    case 1
    then show ?thesis using 2(1) [OF 1 refl refl] append_oversize_packed [OF flushed n(1,2)] n by (simp add: Let_def)
  next
    case c: 2
    have "packed doc (append_chunk out doc a e) e" by (rule append_chunk_packed [OF 2(4-6)])
    then show ?thesis using 2(2) [OF c] c n overlap_aligned_back [of doc e "sc_chunk_overlap cfg" bounds] packed_earlier
      by (auto intro: le_trans)
  next
    case c: 3
    then show ?thesis using 2(3) [OF c] 2(4,5) n by (auto intro: le_trans)
  qed
qed

lemma split_by_heuristics_covers: "covers_text doc (split_by_heuristics co cfg doc)"
proof -
  let ?found = "drop_bounds_inside_spans (find_heuristic_boundaries co doc (sc_languages cfg)) (protected_spans co doc)"
  have f: "sorted (map fst ?found)" "\<forall>b \<in> set ?found. fst b \<le> length doc"
    using heuristic_bounds_sorted heuristic_bounds_within by (auto simp: drop_bounds_inside_spans_def intro: sorted_filter)
  note b = all_bounds_shape [OF f]
  obtain x xs where x: "all_bounds doc ?found = x # xs" "fst x = 0" using b by (cases "all_bounds doc ?found") auto
  have "sorted (0 # map fst xs)" "fst (last ((0, 0) # xs)) = length doc" using b x by auto
  then have "packed doc (pack_blocks co cfg doc (x # xs) [] 0 0 xs) (length doc)"
    by (intro pack_blocks_packed) (auto simp: packed_def)
  then have "covers_text doc (pack_blocks co cfg doc (x # xs) [] 0 0 xs)" by (simp add: packed_def covers_text_def)
  then show ?thesis using split_text_covers x by (auto simp: split_by_heuristics_def Let_def covers_text_def [of "[]"] reaches_def)
qed

subsection \<open>The choice among the tiers\<close>

interpretation tiers: text_splitter "\<lambda>(co, cfg, profile, t). run_tier co cfg profile t"
  by unfold_locales
    (auto simp: run_tier_def split_text_covers split_by_headings_covers split_by_heuristics_covers split: tier.splits)

lemma try_tiers_covers: "(\<And>out. last_out = Some out \<Longrightarrow> covers_text doc out) \<Longrightarrow> covers_text doc (try_tiers co cfg profile doc ts last_out)"
proof (induction ts arbitrary: last_out)
  case Nil
  then show ?case using split_text_covers by (simp split: option.splits)
next
  case (Cons t ts)
  have "covers_text doc (run_tier co cfg profile t doc)" using tiers.splits [of doc "(co, cfg, profile, t)"] by simp
  then show ?case using Cons by (auto simp: Let_def)
qed

lemma split_doc_covers: "covers_text doc (split_doc co cfg doc)"
  using try_tiers_covers [of None doc co "ensure_defaults cfg"]
  by (auto simp: split_doc_def Let_def covers_text_def [of "[]"] reaches_def split: prod.splits)

interpretation chooser: text_splitter "\<lambda>(co, cfg). split_doc co cfg"
  by unfold_locales (simp add: split_doc_covers split: prod.splits)

end
