(* ===== verification/Chunk_Levels.thy ===== *)
theory Chunk_Levels
  imports Chunk_Tier_Laws
begin

text \<open>
  The two-level split of the chunker, for every tier at once: the loop over the parents, inside the
  contract of the tiers.
\<close>

subsection \<open>Two levels\<close>

definition exact_in :: "str \<Rightarrow> chunk \<Rightarrow> bool" where
  "exact_in doc p \<longleftrightarrow> ck_content p = slice doc (ck_start p) (ck_end p) \<and> ck_start p \<le> ck_end p \<and> ck_end p \<le> length doc"

definition under_parent :: "str \<Rightarrow> chunk list \<Rightarrow> child_chunk \<Rightarrow> bool" where
  "under_parent doc parents c \<longleftrightarrow> placed doc (cc_chunk c) \<and>
     (cc_parent_index c = - 1 \<or> (0 \<le> cc_parent_index c \<and> cc_parent_index c < int (length parents) \<and>
        ck_start (parents ! nat (cc_parent_index c)) \<le> ck_start (cc_chunk c) \<and> ck_end (cc_chunk c) \<le> ck_end (parents ! nat (cc_parent_index c))))"

lemma children_numbers:
  "map (\<lambda>c. ck_seq (cc_chunk c)) (children_of header p index n cs) = [n..<n + length cs] \<and>
   list_all (\<lambda>c. cc_parent_index c = index) (children_of header p index n cs)"
proof (induction cs arbitrary: n)
  case (Cons c cs)
  have "[n..<n + length (c # cs)] = n # [Suc n..<Suc n + length cs]" by (subst upt_conv_Cons) (simp_all del: upt_Suc)
  then show ?case using Cons by (simp add: shift_child_def del: upt_Suc)
qed simp

lemma children_length [simp]: "length (children_of header p index n cs) = length cs"
  by (induction cs arbitrary: n) auto

lemma under_more: "under_parent doc parents c \<Longrightarrow> under_parent doc (parents @ ps) c"
  by (auto simp: under_parent_def nth_append)

text \<open>The children of every parent are in the result.\<close>

lemma children_member: "c \<in> set cs \<Longrightarrow> \<exists>m. \<lparr>cc_chunk = shift_child p (header c) m c, cc_parent_index = index\<rparr> \<in> set (children_of header p index n cs)"
  by (induction cs arbitrary: n) auto

lemma parent_loop_keeps: "set children \<subseteq> set (snd (parent_loop split_child header ps (parents, children)))"
proof (induction ps arbitrary: parents children)
  case (Cons p ps)
  show ?case unfolding parent_loop.simps Let_def by (rule subset_trans [OF _ Cons.IH]) simp
qed simp

lemma parent_loop_children:
  "p \<in> set ps \<Longrightarrow> \<exists>index n. set (children_of (header p) p index n (split_child (ck_content p))) \<subseteq> set (snd (parent_loop split_child header ps (parents, children)))"
proof (induction ps arbitrary: parents children)
  case (Cons q ps)
  show ?case
  proof (cases "p = q")
    case True
    show ?thesis unfolding True parent_loop.simps Let_def 
      by (intro exI [of _ "if keeps_parent q (split_child (ck_content q)) then int (length parents) else - 1"] exI [of _ "length children"],
        rule subset_trans [OF _ parent_loop_keeps]) simp
  next
    case False
    then show ?thesis using Cons unfolding parent_loop.simps Let_def by simp
  qed
qed simp

context text_splitter
begin

lemma parent_loop_inv:
  assumes "list_all (exact_in doc) ps" "parent_loop (split_with k) header ps (parents, children) = (parents1, children1)"
    "list_all (under_parent doc parents) children" "map (\<lambda>c. ck_seq (cc_chunk c)) children = [0..<length children]"
  shows "list_all (under_parent doc parents1) children1 \<and> map (\<lambda>c. ck_seq (cc_chunk c)) children1 = [0..<length children1] \<and>
    parents1 = parents @ filter (\<lambda>p. keeps_parent p (split_with k (ck_content p))) ps \<and> set children \<subseteq> set children1 \<and>
    list_all (\<lambda>p. reaches doc (ck_start p) (ck_end p) (map cc_chunk children1)) ps"
  using assms
proof (induction ps arbitrary: parents children)
  case (Cons p ps)
  let ?subs = "split_with k (ck_content p)"
  let ?keep = "keeps_parent p ?subs"
  let ?ps = "if ?keep then parents @ [p] else parents"
  let ?new = "children_of (header p) p (if ?keep then int (length parents) else - 1) (length children) ?subs"
  have p: "ck_content p = slice doc (ck_start p) (ck_end p)" "ck_start p \<le> ck_end p" "ck_end p \<le> length doc"
    using Cons.prems(1) by (simp_all add: exact_in_def)
  note c = children_placed [OF p, of "header p" "if ?keep then int (length parents) else - 1" "length children", where c = k]
  note n = children_numbers [of "header p" p "if ?keep then int (length parents) else - 1" "length children" ?subs]
  have "list_all (under_parent doc ?ps) ?new"
    using c n by (auto simp: list_all_iff under_parent_def)
  moreover have "list_all (under_parent doc ?ps) children" using Cons.prems(3) under_more by (auto simp: list_all_iff)
  moreover have "map (\<lambda>c. ck_seq (cc_chunk c)) (children @ ?new) = [0..<length (children @ ?new)]"
    using Cons.prems(4) n by (simp add: upt_join)
  moreover have "parent_loop (split_with k) header ps (?ps, children @ ?new) = (parents1, children1)" using Cons.prems(2) by (simp add: Let_def)
  ultimately have r: "list_all (under_parent doc parents1) children1" "map (\<lambda>c. ck_seq (cc_chunk c)) children1 = [0..<length children1]"
    "parents1 = ?ps @ filter (\<lambda>p. keeps_parent p (split_with k (ck_content p))) ps" "set (children @ ?new) \<subseteq> set children1"
    "list_all (\<lambda>p. reaches doc (ck_start p) (ck_end p) (map cc_chunk children1)) ps"
    using Cons.IH [of ?ps "children @ ?new"] Cons.prems(1) by auto
  have "reaches doc (ck_start p) (ck_end p) (map cc_chunk children1)"
  proof (rule reaches_more)
    show "reaches doc (ck_start p) (ck_end p) (map cc_chunk ?new)" by (rule conjunct2 [OF c])
    show "set (map cc_chunk ?new) \<subseteq> set (map cc_chunk children1)" using r(4) by auto
  qed
  then have "list_all (\<lambda>p. reaches doc (ck_start p) (ck_end p) (map cc_chunk children1)) (p # ps)" using r(5) by simp
  moreover have "parents1 = parents @ filter (\<lambda>p. keeps_parent p (split_with k (ck_content p))) (p # ps)"
    unfolding r(3) by simp
  moreover have "set children \<subseteq> set children1" using r(4) by simp
  ultimately show ?case using r(1,2) by blast
qed simp

end

end
