(* ===== verification/Chunk_Examples.thy ===== *)
theory Chunk_Examples
  imports Chunk_Merge
begin

text \<open>
  Evaluation of the chunker on small texts, for the witnesses: a table of 18 characters cut to chunks
  of 14 characters, each of which repeats the head of the table, and a plain text of two characters.
\<close>

subsection \<open>The table\<close>

definition ascii_ops :: char_ops where
  "ascii_ops = \<lparr>co_digit = (\<lambda>c. False), co_alnum = (\<lambda>c. 97 \<le> c \<and> c \<le> 122)\<rparr>"

definition small_table :: str where
  "small_table = [124, 97, 124, 10, 124, 45, 45, 45, 124, 10, 124, 98, 124, 10, 124, 99, 124, 10]"

definition small_config :: splitter_config where
  "small_config = default_config\<lparr>sc_chunk_size := 14, sc_chunk_overlap := 0\<rparr>"

lemmas rx_eval = find_all_def find_from.simps first_match_def matches_loop plus_rx_def chr_rx_def word_rx_def opt_rx_def
  at_least_rx_def numeral_3_eq_3 rest_of_def span_of_def one_of_def none_of_def any_rx_def dot_rx_def space_rx_def visible_rx_def
  word_char_rx_def newline_rx_def is_space_def cell_rx_def rule_cell_rx_def

lemmas pattern_eval = PROTECTED_PATTERNS_def latex_rx_def image_rx_def link_rx_def table_head_rx_def table_rows_rx_def fence_rx_def code_rx_def

lemma small_table_spans: "protected_spans ascii_ops small_table = [(0, 10), (10, 14), (14, 18)]"
  by (simp add: protected_spans_def small_table_def pattern_eval rx_eval)

lemma small_table_units: "build_units_with_protection small_table [(0, 10), (10, 14), (14, 18)] seps n =
    [\<lparr>un_text = take 10 small_table, un_start = 0, un_end = 10\<rparr>, \<lparr>un_text = [124, 98, 124, 10], un_start = 10, un_end = 14\<rparr>,
     \<lparr>un_text = [124, 99, 124, 10], un_start = 14, un_end = 18\<rparr>]"
  by (simp add: build_units_with_protection_def protected_units_def slice_def small_table_def MAX_PROTECTED_SIZE_def)

lemmas header_eval = TABLE_HEADER_START_PATTERN_def TABLE_HEADER_END_PATTERN_def TABLE_ROW_PATTERN_def search_rx_def occurs_def
  is_empty_table_header_row_def only_pipes_def strip_def lstrip_def

lemmas row_eval = split_ends_with_paragraph_break_def rstrip_of_def ends_with_def end_on_column_mismatch_def header_column_mismatch_def
  header_table_column_count_def first_table_row_column_count_def table_row_column_count_def dashes_def

definition header_tracker :: tracker where
  "header_tracker = new_tracker\<lparr>tk_active := Some (take 10 small_table)\<rparr>"

lemma small_table_header: "tracker_update (take 10 small_table) new_tracker = header_tracker"
  by (simp add: tracker_update_def resolve_break_def end_headers_def extend_header_def start_header_def new_tracker_def Let_def
    header_tracker_def header_eval small_table_def rx_eval slice_def)

lemma small_table_row:
  assumes "row = [124, 98, 124, 10] \<or> row = [124, 99, 124, 10]"
  shows "tracker_update row header_tracker = header_tracker"
  using assms
  by (elim disjE) (simp_all add: tracker_update_def resolve_break_def end_headers_def extend_header_def start_header_def new_tracker_def Let_def
    header_tracker_def header_eval small_table_def rx_eval row_eval slice_def)

lemma small_table_chunks:
  "split_text ascii_ops small_config small_table =
    [\<lparr>ck_content = take 10 small_table, ck_context_header = [], ck_seq = 0, ck_start = 0, ck_end = 10\<rparr>,
     \<lparr>ck_content = take 14 small_table, ck_context_header = [], ck_seq = 1, ck_start = 10, ck_end = 14\<rparr>,
     \<lparr>ck_content = take 10 small_table @ [124, 99, 124, 10], ck_context_header = [], ck_seq = 2, ck_start = 14, ck_end = 18\<rparr>]"
proof -
  have h: "get_headers header_tracker = take 10 small_table" "tk_header_ended header_tracker = False" "tk_header_ended new_tracker = False"
    by (simp_all add: header_tracker_def get_headers_def new_tracker_def)
  have row: "header_already_present (take 10 small_table) [] row = False \<and> header_column_mismatch (take 10 small_table) row = False"
    if "row = [124, 98, 124, 10] \<or> row = [124, 99, 124, 10]" for row
    using that by (elim disjE) (simp_all add: header_eval rx_eval row_eval small_table_def header_already_present_def header_column_row_def dashes_def)
  have len: "length small_table = 18" by (simp add: small_table_def)
  let ?u = "\<lambda>row a b. \<lparr>un_text = row, un_start = a, un_end = b\<rparr>"
  have first: "merge_unit ascii_ops 14 0 (?u (take 10 small_table) 0 10) \<lparr>ms_chunks = [], ms_current = [], ms_len = 0, ms_tracker = new_tracker\<rparr> =
      \<lparr>ms_chunks = [], ms_current = [?u (take 10 small_table) 0 10], ms_len = 10, ms_tracker = header_tracker\<rparr>"
    by (simp add: merge_unit_def small_table_header h len ABSOLUTE_MAX_SIZE_def)
  have next_row: "merge_unit ascii_ops 14 0 (?u row a b) \<lparr>ms_chunks = cs, ms_current = us, ms_len = n, ms_tracker = header_tracker\<rparr> =
      \<lparr>ms_chunks = cs @ [build_chunk us (length cs)], ms_current = [?u (take 10 small_table) a a, ?u row a b], ms_len = 14, ms_tracker = header_tracker\<rparr>"
    if "row = [124, 98, 124, 10] \<or> row = [124, 99, 124, 10]" "us \<noteq> []" "10 \<le> n" for row a b cs us n
  proof -
    have l: "length row = 4" using that(1) by auto
    have "take 10 small_table \<noteq> []" by (simp add: small_table_def)
    then have "reopen ascii_ops 14 0 (take 10 small_table) (?u row a b) \<lparr>ms_chunks = cs, ms_current = us, ms_len = n, ms_tracker = header_tracker\<rparr> =
      \<lparr>ms_chunks = cs @ [build_chunk us (length cs)], ms_current = [?u (take 10 small_table) a a], ms_len = 10, ms_tracker = header_tracker\<rparr>"
      using that l len row [OF that(1)] by (simp add: reopen_def compute_overlap_def merge_flush_def units_text_def)
    then show ?thesis using that l len h small_table_row [OF that(1)] by (simp add: merge_unit_def ABSOLUTE_MAX_SIZE_def)
  qed
  have "split_text ascii_ops small_config small_table = merge_units ascii_ops (build_units_with_protection small_table [(0, 10), (10, 14), (14, 18)] DEFAULT_SEPARATORS 14) 14 0"
    by (simp add: split_text_def small_table_spans small_config_def default_config_def small_table_def [THEN arg_cong, of "\<lambda>t. t = []"])
  also have "\<dots> = [build_chunk [?u (take 10 small_table) 0 10] 0, build_chunk [?u (take 10 small_table) 10 10, ?u [124, 98, 124, 10] 10 14] 1,
      build_chunk [?u (take 10 small_table) 14 14, ?u [124, 99, 124, 10] 14 18] 2]"
    by (simp add: small_table_units merge_units_def first next_row merge_flush_def numeral_2_eq_2)
  finally show ?thesis by (simp add: build_chunk_def units_text_def small_table_def)
qed

subsection \<open>A plain text\<close>

definition plain_text :: str where "plain_text = [97, 98]"

lemma plain_spans: "protected_spans ascii_ops plain_text = []"
  by (simp add: protected_spans_def plain_text_def pattern_eval rx_eval)

lemma plain_header: "tracker_update plain_text new_tracker = new_tracker"
  by (simp add: tracker_update_def resolve_break_def end_headers_def extend_header_def start_header_def new_tracker_def Let_def
    header_eval plain_text_def rx_eval)

lemma plain_chunks:
  assumes "2 \<le> sc_chunk_size cfg"
  shows "split_text ascii_ops cfg plain_text = [\<lparr>ck_content = plain_text, ck_context_header = [], ck_seq = 0, ck_start = 0, ck_end = 2\<rparr>]"
proof -
  have ne: "plain_text \<noteq> []" "length plain_text = 2" by (simp_all add: plain_text_def)
  have "split_by_separators plain_text seps n = [plain_text]" if "2 \<le> n" for seps n
    using that ne by (cases seps) simp_all
  then have "build_units_with_protection plain_text [] (sc_separators cfg) (nat (sc_chunk_size cfg)) = [\<lparr>un_text = plain_text, un_start = 0, un_end = 2\<rparr>]"
    using assms ne by (simp add: build_units_with_protection_def)
  then show ?thesis using assms ne
    by (simp add: split_text_def plain_spans merge_units_def merge_unit_def plain_header get_headers_def new_tracker_def Let_def
      ABSOLUTE_MAX_SIZE_def merge_flush_def build_chunk_def units_text_def)
qed

end
