(* ===== verification/Chunk_Properties.thy ===== *)
theory Chunk_Properties
  imports Chunk_Levels Chunk_Examples
begin

text \<open>
  Properties of the chunker: the chunks of the recursive splitter cover the text without a gap and keep
  to their sizes; the choice among the tiers never loses a visible character, ends in a checked result
  or in the recursive splitter, and is traced faithfully; the two-level split places its children in
  their parents, unless a parent carries a repeated table header.
\<close>

subsection \<open>The recursive splitter\<close>

text \<open>C5: the chunks of the recursive splitter start at the start of the text and end at its end;
  each starts where the one before it ends or inside it, by no more than the configured overlap; each
  body ends with the text between its positions; and they are numbered in order.\<close>

theorem split_text_no_gap:
  assumes "t \<noteq> []"
  shows "split_text co cfg t \<noteq> [] \<and> ck_start (hd (split_text co cfg t)) = 0 \<and> ck_end (last (split_text co cfg t)) = length t \<and>
    successively (linked (nat (sc_chunk_overlap cfg))) (split_text co cfg t) \<and> list_all (from_text t) (split_text co cfg t) \<and>
    map ck_seq (split_text co cfg t) = [0..<length (split_text co cfg t)]"
  using split_text_cover [OF assms, of cfg co] assms unfolding covers_to_def by (auto split: if_splits)

theorem split_text_no_gap_witness:
  "ck_end (last (split_text ascii_ops small_config small_table)) = 18 \<and> successively (linked 0) (split_text ascii_ops small_config small_table)"
  using split_text_no_gap [of small_table ascii_ops small_config] by (simp add: small_table_def small_config_def)



subsection \<open>The configuration\<close>

definition sized :: "splitter_config \<Rightarrow> bool" where
  "sized cfg \<longleftrightarrow> 0 < sc_chunk_size cfg \<and> 2 * sc_chunk_overlap cfg \<le> sc_chunk_size cfg \<and> 0 \<le> sc_chunk_overlap cfg \<and> sc_separators cfg \<noteq> [] \<and>
    (let budget = chars_for_token_limit (sc_token_limit cfg) (if sc_languages cfg = [] then LangMixed else hd (sc_languages cfg))
     in \<not> (0 < sc_token_limit cfg \<and> 0 < budget \<and> budget < sc_chunk_size cfg)) \<and> (sc_chunk_overlap cfg = 0 \<longrightarrow> sc_chunk_size cfg = 1)"

definition size_for :: "splitter_config \<Rightarrow> int" where
  "size_for cfg =
     (let s = (if sc_chunk_size cfg \<le> 0 then DEFAULT_CHUNK_SIZE else sc_chunk_size cfg);
          budget = chars_for_token_limit (sc_token_limit cfg) (if sc_languages cfg = [] then LangMixed else hd (sc_languages cfg))
      in if 0 < sc_token_limit cfg \<and> 0 < budget \<and> budget < s then budget else s)"

lemma size_for_pos: "0 < size_for cfg \<and> (0 < sc_chunk_size cfg \<longrightarrow> size_for cfg \<le> sc_chunk_size cfg)"
  by (auto simp: size_for_def Let_def DEFAULT_CHUNK_SIZE_def)

lemma ensure_fields:
  "ensure_defaults cfg = cfg\<lparr>sc_chunk_size := size_for cfg,
     sc_chunk_overlap := min (if sc_chunk_overlap cfg \<le> 0 then DEFAULT_CHUNK_OVERLAP else sc_chunk_overlap cfg) (size_for cfg div 2),
     sc_separators := (if sc_separators cfg = [] then DEFAULT_SEPARATORS else sc_separators cfg)\<rparr>"
proof -
  define s where "s = (if sc_chunk_size cfg \<le> 0 then DEFAULT_CHUNK_SIZE else sc_chunk_size cfg)"
  define k where "k = (if sc_chunk_overlap cfg \<le> 0 then DEFAULT_CHUNK_OVERLAP else sc_chunk_overlap cfg)"
  define q where "q = (if sc_separators cfg = [] then DEFAULT_SEPARATORS else sc_separators cfg)"
  let ?c1 = "cfg\<lparr>sc_chunk_size := s\<rparr>" and ?c2 = "cfg\<lparr>sc_chunk_size := s, sc_chunk_overlap := k\<rparr>"
  let ?c3 = "cfg\<lparr>sc_chunk_size := s, sc_chunk_overlap := k, sc_separators := q\<rparr>"
  let ?c4 = "cfg\<lparr>sc_chunk_size := size_for cfg, sc_chunk_overlap := k, sc_separators := q\<rparr>"
  have e1: "(if sc_chunk_size cfg \<le> 0 then cfg\<lparr>sc_chunk_size := DEFAULT_CHUNK_SIZE\<rparr> else cfg) = ?c1" by (simp add: s_def)
  have e2: "(if sc_chunk_overlap ?c1 \<le> 0 then ?c1\<lparr>sc_chunk_overlap := DEFAULT_CHUNK_OVERLAP\<rparr> else ?c1) = ?c2" by (simp add: k_def)
  have e3: "(if sc_separators ?c2 = [] then ?c2\<lparr>sc_separators := DEFAULT_SEPARATORS\<rparr> else ?c2) = ?c3" by (simp add: q_def)
  define b where "b = chars_for_token_limit (sc_token_limit ?c3) (if sc_languages ?c3 = [] then LangMixed else hd (sc_languages ?c3))"
  have s: "0 < s" by (simp add: s_def DEFAULT_CHUNK_SIZE_def)
  have z: "size_for cfg = (if 0 < sc_token_limit cfg \<and> 0 < b \<and> b < s then b else s)"
    unfolding size_for_def Let_def s_def [symmetric] by (simp add: b_def)
  have e4: "(if 0 < sc_token_limit ?c3 \<and> 0 < b \<and> (sc_chunk_size ?c3 = 0 \<or> b < sc_chunk_size ?c3) then ?c3\<lparr>sc_chunk_size := b\<rparr> else ?c3) = ?c4"
    using s by (simp add: z)
  have "ensure_defaults cfg = (if sc_chunk_size ?c4 div 2 < sc_chunk_overlap ?c4 \<and> 0 < sc_chunk_size ?c4
      then ?c4\<lparr>sc_chunk_overlap := sc_chunk_size ?c4 div 2\<rparr> else ?c4)"
    unfolding ensure_defaults_def e1 Let_def [of ?c1] e2 Let_def [of ?c2] e3 Let_def [of ?c3] b_def [symmetric] Let_def [of b] e4 Let_def [of ?c4] ..
  then show ?thesis using size_for_pos [of cfg] by (simp add: min_def k_def [symmetric] q_def [symmetric])
qed

lemma sized_fixed: "sized cfg \<Longrightarrow> ensure_defaults cfg = cfg"
proof -
  assume z: "sized cfg"
  then have "size_for cfg = sc_chunk_size cfg" by (simp add: sized_def size_for_def Let_def)
  moreover have "min (if sc_chunk_overlap cfg \<le> 0 then DEFAULT_CHUNK_OVERLAP else sc_chunk_overlap cfg) (sc_chunk_size cfg div 2) = sc_chunk_overlap cfg"
  proof -
    have "0 \<le> sc_chunk_overlap cfg" "sc_chunk_overlap cfg = 0 \<longrightarrow> sc_chunk_size cfg = 1" "2 * sc_chunk_overlap cfg \<le> sc_chunk_size cfg"
      using z by (simp_all add: sized_def)
    moreover from this have "sc_chunk_overlap cfg \<le> sc_chunk_size cfg div 2" by linarith
    ultimately show ?thesis by (cases "sc_chunk_overlap cfg = 0") (simp_all add: DEFAULT_CHUNK_OVERLAP_def)
  qed
  moreover have "sc_separators cfg \<noteq> []" using z by (simp add: sized_def)
  ultimately show ?thesis unfolding ensure_fields by simp
qed

lemma ensure_sized: "sized (ensure_defaults cfg)"
proof -
  define k where "k = (if sc_chunk_overlap cfg \<le> 0 then DEFAULT_CHUNK_OVERLAP else sc_chunk_overlap cfg)"
  define n where "n = size_for cfg"
  define b where "b = chars_for_token_limit (sc_token_limit cfg) (if sc_languages cfg = [] then LangMixed else hd (sc_languages cfg))"
  define q where "q = (if sc_separators cfg = [] then DEFAULT_SEPARATORS else sc_separators cfg)"
  have "0 < k" "0 < n" "q \<noteq> []" using size_for_pos [of cfg] by (simp_all add: k_def n_def q_def DEFAULT_CHUNK_OVERLAP_def DEFAULT_SEPARATORS_def)
  moreover have "\<not> (0 < sc_token_limit cfg \<and> 0 < b \<and> b < n)" unfolding n_def size_for_def Let_def b_def [symmetric] by simp
  moreover have "2 * min k (n div 2) \<le> n" "0 \<le> min k (n div 2)" "min k (n div 2) = 0 \<longrightarrow> n = 1" using \<open>0 < k\<close> \<open>0 < n\<close> by linarith+
  moreover have "ensure_defaults cfg = cfg\<lparr>sc_chunk_size := n, sc_chunk_overlap := min k (n div 2), sc_separators := q\<rparr>"
    unfolding k_def n_def q_def by (rule ensure_fields)
  ultimately show ?thesis by (cases "sc_languages cfg = []") (simp_all add: sized_def b_def Let_def)
qed

text \<open>The completed configuration has a positive size, not above a positive size asked for, a
  non-negative overlap of at most half of it, and separators; completing it twice is completing it once.\<close>

theorem ensure_defaults_sound:
  "0 < sc_chunk_size (ensure_defaults cfg) \<and> (0 < sc_chunk_size cfg \<longrightarrow> sc_chunk_size (ensure_defaults cfg) \<le> sc_chunk_size cfg) \<and>
   0 \<le> sc_chunk_overlap (ensure_defaults cfg) \<and> 2 * sc_chunk_overlap (ensure_defaults cfg) \<le> sc_chunk_size (ensure_defaults cfg) \<and>
   sc_separators (ensure_defaults cfg) \<noteq> [] \<and> ensure_defaults (ensure_defaults cfg) = ensure_defaults cfg"
proof -
  have "sc_chunk_size (ensure_defaults cfg) = size_for cfg" by (simp add: ensure_fields)
  then have "0 < sc_chunk_size cfg \<longrightarrow> sc_chunk_size (ensure_defaults cfg) \<le> sc_chunk_size cfg" using size_for_pos [of cfg] by simp
  then show ?thesis using ensure_sized [of cfg] sized_fixed [OF ensure_sized, of cfg] unfolding sized_def by blast
qed

subsection \<open>The choice among the tiers\<close>

lemma split_text_ne: "t \<noteq> [] \<Longrightarrow> split_text co cfg t \<noteq> []"
  using split_text_cover [of t cfg co] by auto

lemma try_tiers_checked:
  "(last_out = None \<or> last_out = Some (split_text co cfg doc)) \<Longrightarrow>
    validate_chunks (try_tiers co cfg profile doc ts last_out) (length doc) (sc_chunk_size cfg) = None \<or>
    try_tiers co cfg profile doc ts last_out = split_text co cfg doc"
proof (induction ts arbitrary: last_out)
  case (Cons t ts)
  have "t = LEGACY \<Longrightarrow> run_tier co cfg profile t doc = split_text co cfg doc" by (simp add: run_tier_def)
  then show ?case using Cons by (auto simp: Let_def)
qed auto

lemma fold_max_ge: "x \<in> set xs \<or> x \<le> m \<Longrightarrow> x \<le> fold max xs m" for x :: nat
  by (induction xs arbitrary: m) (auto simp: le_max_iff_disj)

lemma checked_ne: "validate_chunks cs n k = None \<Longrightarrow> cs \<noteq> [] \<and> (0 < k \<longrightarrow> list_all (\<lambda>c. int (length (ck_content c)) \<le> 2 * k) cs)"
proof -
  assume v: "validate_chunks cs n k = None"
  then have m: "cs \<noteq> []" "0 < k \<Longrightarrow> int (fold max (map (\<lambda>c. length (ck_content c)) cs) 0) \<le> 2 * k"
    by (auto simp: validate_chunks_def Let_def split: if_splits)
  have "int (length (ck_content c)) \<le> int (fold max (map (\<lambda>c. length (ck_content c)) cs) 0)" if "c \<in> set cs" for c
    using that by (simp add: fold_max_ge)
  then show ?thesis using m by (fastforce simp: list_all_iff)
qed

lemma split_doc_tiers: "doc \<noteq> [] \<Longrightarrow> \<exists>profile chain. split_doc co cfg doc = try_tiers co (ensure_defaults cfg) profile doc chain None"
  by (auto simp: split_doc_def Let_def split: prod.splits)

lemma split_doc_checked:
  assumes "doc \<noteq> []"
  shows "validate_chunks (split_doc co cfg doc) (length doc) (sc_chunk_size (ensure_defaults cfg)) = None \<or>
    split_doc co cfg doc = split_text co (ensure_defaults cfg) doc"
proof -
  obtain profile chain where t: "split_doc co cfg doc = try_tiers co (ensure_defaults cfg) profile doc chain None"
    using split_doc_tiers [OF assms] by blast
  show ?thesis unfolding t by (rule try_tiers_checked) simp
qed

text \<open>C3: a non-empty document has chunks; they are numbered in order, each lies at its positions in the
  document and holds the text there, perhaps with the text of repeated headers, and every character
  that is not white space is in one of them.\<close>

theorem split_loses_nothing:
  assumes "doc \<noteq> []"
  shows "split_doc co cfg doc \<noteq> [] \<and> map ck_seq (split_doc co cfg doc) = [0..<length (split_doc co cfg doc)] \<and>
    list_all (placed doc) (split_doc co cfg doc) \<and>
    list_all (\<lambda>i. is_space (doc ! i) \<or> list_ex (\<lambda>c. ck_start c \<le> i \<and> i < ck_end c) (split_doc co cfg doc)) [0..<length doc]"
proof -
  have c: "covers_text doc (split_doc co cfg doc)" using chooser.splits [of doc "(co, cfg)"] by simp
  have "split_doc co cfg doc \<noteq> []"
    using split_doc_checked [OF assms, of co cfg] checked_ne split_text_ne [OF assms] by metis
  then show ?thesis using c by (auto simp: covers_text_def reaches_def list_all_iff holds_at_def)
qed

text \<open>Whatever tiers are tried, the result is one that the validator accepts, in which no chunk is
  longer than twice the configured size, or it is the result of the recursive splitter.\<close>

theorem split_checked_or_legacy:
  "(validate_chunks (split_doc co cfg doc) (length doc) (sc_chunk_size (ensure_defaults cfg)) = None \<and>
    list_all (\<lambda>c. int (length (ck_content c)) \<le> 2 * sc_chunk_size (ensure_defaults cfg)) (split_doc co cfg doc)) \<or>
   split_doc co cfg doc = split_text co (ensure_defaults cfg) doc"
proof (cases "doc = []")
  case False
  have "0 < sc_chunk_size (ensure_defaults cfg)" using ensure_sized by (simp add: sized_def)
  then show ?thesis using split_doc_checked [OF False, of co cfg] checked_ne by metis
qed (simp add: split_doc_def split: prod.splits)

subsection \<open>The trace\<close>

definition traced :: "char_ops \<Rightarrow> splitter_config \<Rightarrow> str \<Rightarrow> diagnostics \<Rightarrow> bool" where
  "traced co cfg doc d \<longleftrightarrow>
     list_all (\<lambda>(t, r). validate_chunks (run_tier co cfg (dg_profile d) t doc) (length doc) (sc_chunk_size cfg) = Some r) (dg_rejected d)"

lemma diagnose_same:
  "map_option fst last_out = last1 \<Longrightarrow> traced co cfg doc d \<Longrightarrow> diagnose_tiers co cfg doc ts last_out d = (cs, d1) \<Longrightarrow>
    cs = try_tiers co cfg (dg_profile d) doc ts last1 \<and> traced co cfg doc d1 \<and> dg_profile d1 = dg_profile d \<and> dg_tier_chain d1 = dg_tier_chain d \<and>
    prefix (map fst (dg_rejected d1)) (map fst (dg_rejected d) @ ts)"
proof (induction ts arbitrary: last_out last1 d)
  case Nil
  then show ?case by (auto simp: traced_def split: option.splits prod.splits)
next
  case (Cons t ts)
  let ?out = "run_tier co cfg (dg_profile d) t doc"
  show ?case
  proof (cases "validate_chunks ?out (length doc) (sc_chunk_size cfg)")
    case None
    then show ?thesis using Cons.prems by (auto simp: Let_def traced_def)
  next
    case (Some r)
    let ?d = "d\<lparr>dg_rejected := dg_rejected d @ [(t, r)]\<rparr>"
    let ?last = "if t = LEGACY \<and> ts = [] then Some (?out, t) else last_out"
    have "diagnose_tiers co cfg doc ts ?last ?d = (cs, d1)" using Cons.prems(3) Some by (simp add: Let_def)
    moreover have "traced co cfg doc ?d" using Cons.prems(2) Some by (simp add: traced_def)
    moreover have "map_option fst ?last = (if t = LEGACY \<and> ts = [] then Some ?out else last1)" using Cons.prems(1) by simp
    ultimately show ?thesis using Cons.IH [of ?last _ ?d] Some by (simp add: Let_def)
  qed
qed

text \<open>Splitting with diagnostics gives the chunks that splitting gives, and its trace is true: the
  tiers listed as rejected open the chain that was tried, and each was rejected for the reason listed.\<close>

theorem diagnostics_faithful:
  "fst (split_with_diagnostics co cfg doc) = split_doc co cfg doc \<and>
   traced co (ensure_defaults cfg) doc (snd (split_with_diagnostics co cfg doc)) \<and>
   prefix (map fst (dg_rejected (snd (split_with_diagnostics co cfg doc)))) (dg_tier_chain (snd (split_with_diagnostics co cfg doc)))"
proof -
  obtain chain profile where r: "resolve_chain_with_profile co (ensure_defaults cfg) doc = (chain, profile)" by fastforce
  let ?d = "\<lparr>dg_selected_tier = LEGACY, dg_tier_chain = chain, dg_rejected = [], dg_profile = profile\<rparr>"
  obtain cs d1 where o: "diagnose_tiers co (ensure_defaults cfg) doc chain None ?d = (cs, d1)" by fastforce
  have "traced co (ensure_defaults cfg) doc ?d" by (simp add: traced_def)
  from diagnose_same [OF _ this o, of None] show ?thesis
    by (auto simp: split_with_diagnostics_def split_doc_def r o Let_def traced_def)
qed

theorem split_loses_nothing_witness:
  "split_doc ascii_ops small_config small_table \<noteq> [] \<and> list_all (placed small_table) (split_doc ascii_ops small_config small_table)"
  using split_loses_nothing [of small_table ascii_ops small_config] by (simp add: small_table_def)

subsection \<open>Two levels\<close>

text \<open>C12: when no parent carries a repeated header, each child of the two-level split holds the document's
  text at its positions and lies in the parent that its index names, or has the index -1; the children
  are numbered through the document and miss no visible character; the parents kept are those that
  their children divide.\<close>

theorem two_levels_cover:
  assumes "list_all (exact_in doc) (split_doc co (ensure_defaults pcfg) doc)" and "split_parent_child co pcfg ccfg doc = (parents, children)"
  shows "list_all (under_parent doc parents) children \<and> map (\<lambda>c. ck_seq (cc_chunk c)) children = [0..<length children] \<and>
    reaches doc 0 (length doc) (map cc_chunk children) \<and>
    parents = filter (\<lambda>p. keeps_parent p (split_doc co (ensure_defaults ccfg) (ck_content p))) (split_doc co (ensure_defaults pcfg) doc)"
proof (cases "doc = []")
  case True
  then show ?thesis using assms(2) by (simp add: split_parent_child_def split_doc_def split: prod.splits)
next
  case False
  let ?ps = "split_doc co (ensure_defaults pcfg) doc"
  have "parent_loop (split_doc co (ensure_defaults ccfg)) (\<lambda>p c. merge_breadcrumbs (ck_context_header p) (ck_context_header c)) ?ps ([], []) = (parents, children)"
    using assms(2) False by (simp add: split_parent_child_def)
  note inv = chooser.parent_loop_inv [where k = "(co, ensure_defaults ccfg)", unfolded prod.case, OF assms(1) this]
  have r: "list_all (under_parent doc parents) children" "map (\<lambda>c. ck_seq (cc_chunk c)) children = [0..<length children]"
    "parents = filter (\<lambda>p. keeps_parent p (split_doc co (ensure_defaults ccfg) (ck_content p))) ?ps"
    "list_all (\<lambda>p. reaches doc (ck_start p) (ck_end p) (map cc_chunk children)) ?ps"
    using inv [OF list.pred_inject(1)] unfolding append_Nil list.size(3) upt_0 list.simps(8) by blast+
  have c: "reaches doc 0 (length doc) ?ps" using chooser.splits [of doc "(co, ensure_defaults pcfg)"] by (simp add: covers_text_def)
  have "reaches doc 0 (length doc) (map cc_chunk children)"
    unfolding reaches_def
  proof (intro allI impI)
    fix i
    assume i: "0 \<le> i \<and> i < length doc \<and> i < length doc \<and> \<not> is_space (doc ! i)"
    then obtain p where p: "p \<in> set ?ps" "ck_start p \<le> i" "i < ck_end p" using c by (auto simp: reaches_def list_ex_iff holds_at_def)
    then have "reaches doc (ck_start p) (ck_end p) (map cc_chunk children)" using r(4) by (simp add: list_all_iff)
    then show "list_ex (\<lambda>c. holds_at c i) (map cc_chunk children)" using p i by (simp add: reaches_def)
  qed
  then show ?thesis using r by blast
qed

lemma plain_split: "split_doc ascii_ops default_config plain_text = [\<lparr>ck_content = plain_text, ck_context_header = [], ck_seq = 0, ck_start = 0, ck_end = 2\<rparr>]"
proof -
  have d: "sized default_config"
    by (simp add: sized_def default_config_def DEFAULT_CHUNK_SIZE_def DEFAULT_CHUNK_OVERLAP_def DEFAULT_SEPARATORS_def)
  have n: "2 \<le> sc_chunk_size default_config" by (simp add: default_config_def DEFAULT_CHUNK_SIZE_def)
  have "resolve_chain_with_profile ascii_ops default_config plain_text = ([LEGACY], None)"
    by (simp add: resolve_chain_with_profile_def default_config_def STRATEGY_HEADING_def STRATEGY_HEURISTIC_def STRATEGY_RECURSIVE_def)
  then show ?thesis
    by (simp add: split_doc_def sized_fixed [OF d] run_tier_def plain_chunks [OF n] Let_def) (simp add: plain_text_def)
qed

theorem two_levels_cover_witness:
  "reaches plain_text 0 2 (map cc_chunk (snd (split_parent_child ascii_ops default_config default_config plain_text)))"
proof -
  have d: "ensure_defaults default_config = default_config" by (rule sized_fixed)
    (simp add: sized_def default_config_def DEFAULT_CHUNK_SIZE_def DEFAULT_CHUNK_OVERLAP_def DEFAULT_SEPARATORS_def)
  have "list_all (exact_in plain_text) (split_doc ascii_ops (ensure_defaults default_config) plain_text)"
    unfolding d plain_split by (simp add: exact_in_def slice_def plain_text_def)
  from two_levels_cover [OF this prod.collapse [symmetric], of default_config]
  have "reaches plain_text 0 (length plain_text) (map cc_chunk (snd (split_parent_child ascii_ops default_config default_config plain_text)))" by blast
  then show ?thesis by (simp add: plain_text_def numeral_2_eq_2)
qed

definition child_config :: splitter_config where
  "child_config = default_config\<lparr>sc_chunk_size := 5, sc_chunk_overlap := 0\<rparr>"

text \<open>C6: the positions of children are wrong as soon as their parent carries a repeated table header: for
  every such parent a child is reported that ends past the parent, by the length of the header.\<close>

theorem decorated_children_overrun:
  assumes "p \<in> set (split_text co pcfg t)" "ck_end p - ck_start p < length (ck_content p)"
  shows "list_ex (\<lambda>c. ck_end (cc_chunk c) = ck_start p + length (ck_content p) \<and> ck_end p < ck_end (cc_chunk c))
    (snd (split_text_parent_child co pcfg ccfg t))"
proof -
  let ?subs = "split_text co ccfg (ck_content p)"
  have ne: "ck_content p \<noteq> []" using assms(2) by auto
  then have "?subs \<noteq> []" "ck_end (last ?subs) = length (ck_content p)"
    using split_text_cover [OF ne, of ccfg co] split_text_ne [OF ne, of co ccfg] by (simp_all add: covers_to_def)
  then obtain d where d: "d \<in> set ?subs" "ck_end d = length (ck_content p)" using last_in_set by blast
  obtain index n where "set (children_of ck_context_header p index n ?subs) \<subseteq> set (snd (split_text_parent_child co pcfg ccfg t))"
    using parent_loop_children [OF assms(1), of "\<lambda>p. ck_context_header" "split_text co ccfg"] unfolding split_text_parent_child_def by blast
  then obtain m where "\<lparr>cc_chunk = shift_child p (ck_context_header d) m d, cc_parent_index = index\<rparr> \<in> set (snd (split_text_parent_child co pcfg ccfg t))"
    using children_member [OF d(1), of p ck_context_header index n] by blast
  then show ?thesis unfolding list_ex_iff using d(2) assms(2)
    by (intro bexI [of _ "\<lparr>cc_chunk = shift_child p (ck_context_header d) m d, cc_parent_index = index\<rparr>"]) (auto simp: shift_child_def)
qed

theorem decorated_children_overrun_witness:
  "list_ex (\<lambda>c. length small_table < ck_end (cc_chunk c)) (snd (split_text_parent_child ascii_ops small_config child_config small_table))"
proof -
  let ?p = "\<lparr>ck_content = take 10 small_table @ [124, 99, 124, 10], ck_context_header = [], ck_seq = 2, ck_start = 14, ck_end = 18\<rparr>"
  have "?p \<in> set (split_text ascii_ops small_config small_table)" unfolding small_table_chunks by simp
  from decorated_children_overrun [OF this, of child_config]
  have "list_ex (\<lambda>c. ck_end (cc_chunk c) = 28) (snd (split_text_parent_child ascii_ops small_config child_config small_table))"
    by (auto simp: small_table_def list_ex_iff)
  then obtain c where "c \<in> set (snd (split_text_parent_child ascii_ops small_config child_config small_table))" "ck_end (cc_chunk c) = 28"
    by (auto simp: list_ex_iff)
  moreover have "length small_table = 18" by (simp add: small_table_def)
  ultimately show ?thesis unfolding list_ex_iff by (intro bexI [of _ c]) simp_all
qed

end
