(* ===== verification/Org_Store.thy ===== *)
theory Org_Store
  imports Tags
begin

text \<open>
  Organizations: the tables \<open>organizations\<close>, \<open>organization_tenant_members\<close> and
  \<open>organization_join_requests\<close> (src/src/db/models/organization.py) with the SQL of
  src/src/db/dao/organization_repository.py. The unique constraints of the migration are part of the
  model: a statement that breaks one fails and changes nothing. Instants are integers; ids, invite
  codes and instants that the code draws are arguments.
\<close>

subsection \<open>Roles and states\<close>

definition ORG_ROLE_ADMIN :: str where "ORG_ROLE_ADMIN = lit ''admin''"
definition ORG_ROLE_EDITOR :: str where "ORG_ROLE_EDITOR = lit ''editor''"
definition ORG_ROLE_VIEWER :: str where "ORG_ROLE_VIEWER = lit ''viewer''"

definition org_role_level :: "str \<Rightarrow> nat" where
  "org_role_level role =
     (if role = ORG_ROLE_ADMIN then 3 else if role = ORG_ROLE_EDITOR then 2 else if role = ORG_ROLE_VIEWER then 1 else 0)"

definition is_valid_org_role :: "str \<Rightarrow> bool" where
  "is_valid_org_role role \<longleftrightarrow> role \<in> {ORG_ROLE_ADMIN, ORG_ROLE_EDITOR, ORG_ROLE_VIEWER}"

definition has_org_permission :: "str \<Rightarrow> str \<Rightarrow> bool" where
  "has_org_permission role required \<longleftrightarrow> org_role_level required \<le> org_role_level role"

definition JOIN_REQUEST_STATUS_PENDING :: str where "JOIN_REQUEST_STATUS_PENDING = lit ''pending''"
definition JOIN_REQUEST_STATUS_APPROVED :: str where "JOIN_REQUEST_STATUS_APPROVED = lit ''approved''"
definition JOIN_REQUEST_STATUS_REJECTED :: str where "JOIN_REQUEST_STATUS_REJECTED = lit ''rejected''"
definition JOIN_REQUEST_STATUSES :: "str list" where
  "JOIN_REQUEST_STATUSES = [JOIN_REQUEST_STATUS_PENDING, JOIN_REQUEST_STATUS_APPROVED, JOIN_REQUEST_STATUS_REJECTED]"
definition JOIN_REQUEST_TYPE_JOIN :: str where "JOIN_REQUEST_TYPE_JOIN = lit ''join''"
definition JOIN_REQUEST_TYPE_UPGRADE :: str where "JOIN_REQUEST_TYPE_UPGRADE = lit ''upgrade''"

lemmas org_role_defs = ORG_ROLE_ADMIN_def ORG_ROLE_EDITOR_def ORG_ROLE_VIEWER_def
lemmas request_word_defs = JOIN_REQUEST_STATUS_PENDING_def JOIN_REQUEST_STATUS_APPROVED_def JOIN_REQUEST_STATUS_REJECTED_def
  JOIN_REQUEST_TYPE_JOIN_def JOIN_REQUEST_TYPE_UPGRADE_def

lemma org_roles_differ [simp]:
  "ORG_ROLE_ADMIN \<noteq> ORG_ROLE_EDITOR" "ORG_ROLE_ADMIN \<noteq> ORG_ROLE_VIEWER" "ORG_ROLE_EDITOR \<noteq> ORG_ROLE_VIEWER"
  "ORG_ROLE_EDITOR \<noteq> ORG_ROLE_ADMIN" "ORG_ROLE_VIEWER \<noteq> ORG_ROLE_ADMIN" "ORG_ROLE_VIEWER \<noteq> ORG_ROLE_EDITOR"
  by (simp_all add: org_role_defs lit_eq_iff)

lemma request_words_differ [simp]:
  "JOIN_REQUEST_STATUS_PENDING \<noteq> JOIN_REQUEST_STATUS_APPROVED" "JOIN_REQUEST_STATUS_PENDING \<noteq> JOIN_REQUEST_STATUS_REJECTED"
  "JOIN_REQUEST_STATUS_APPROVED \<noteq> JOIN_REQUEST_STATUS_PENDING" "JOIN_REQUEST_STATUS_REJECTED \<noteq> JOIN_REQUEST_STATUS_PENDING"
  "JOIN_REQUEST_STATUS_APPROVED \<noteq> JOIN_REQUEST_STATUS_REJECTED" "JOIN_REQUEST_STATUS_REJECTED \<noteq> JOIN_REQUEST_STATUS_APPROVED"
  "JOIN_REQUEST_TYPE_JOIN \<noteq> JOIN_REQUEST_TYPE_UPGRADE" "JOIN_REQUEST_TYPE_UPGRADE \<noteq> JOIN_REQUEST_TYPE_JOIN"
  by (simp_all add: request_word_defs lit_eq_iff)

subsection \<open>Rows\<close>

record organization =
  og_id :: str
  og_name :: str
  og_description :: "str option"
  og_owner_id :: str
  og_owner_tenant_id :: int
  og_invite_code :: "str option"
  og_invite_code_expires_at :: "int option"
  og_invite_code_validity_days :: int
  og_avatar :: str
  og_require_approval :: bool
  og_searchable :: bool
  og_member_limit :: int
  og_created_at :: int
  og_updated_at :: int
  og_deleted_at :: "int option"

record tenant_member =
  mb_id :: str
  mb_organization_id :: str
  mb_tenant_id :: int
  mb_role :: str
  mb_representative_user_id :: str
  mb_joined_at :: "int option"
  mb_created_at :: int
  mb_updated_at :: int

record join_request =
  jr_id :: str
  jr_organization_id :: str
  jr_user_id :: str
  jr_tenant_id :: int
  jr_status :: str
  jr_requested_role :: str
  jr_request_type :: str
  jr_prev_role :: "str option"
  jr_message :: "str option"
  jr_reviewed_by :: "str option"
  jr_reviewed_at :: "int option"
  jr_review_message :: "str option"
  jr_created_at :: int
  jr_updated_at :: int

record org_db =
  od_orgs :: "organization list"
  od_members :: "tenant_member list"
  od_requests :: "join_request list"

subsection \<open>Operations on a database\<close>

text \<open>An operation returns its result or the exception it raises, and the database it leaves.\<close>

type_synonym ('d, 'a) db_op = "'d \<Rightarrow> (app_error + 'a) \<times> 'd"

definition yields :: "'a \<Rightarrow> ('d, 'a) db_op" where "yields x d = (Inr x, d)"
definition raises :: "app_error \<Rightarrow> ('d, 'a) db_op" where "raises e d = (Inl e, d)"
definition reads :: "('d \<Rightarrow> 'a) \<Rightarrow> ('d, 'a) db_op" where "reads f d = (Inr (f d), d)"
definition requires :: "bool \<Rightarrow> app_error \<Rightarrow> ('d, unit) db_op" where "requires b e d = (if b then (Inr (), d) else (Inl e, d))"

definition chain :: "('d, 'a) db_op \<Rightarrow> ('a \<Rightarrow> ('d, 'b) db_op) \<Rightarrow> ('d, 'b) db_op" where
  "chain m f d = (case m d of (Inl e, d1) \<Rightarrow> (Inl e, d1) | (Inr x, d1) \<Rightarrow> f x d1)"

definition found_or :: "app_error \<Rightarrow> ('d \<Rightarrow> 'a option) \<Rightarrow> ('d, 'a) db_op" where
  "found_or e f d = (case f d of None \<Rightarrow> (Inl e, d) | Some x \<Rightarrow> (Inr x, d))"

lemma chain_steps [simp]:
  "chain (yields x) f1 d = f1 x d" "chain (raises e) f2 d = (Inl e, d)" "chain (reads g1) f3 d = f3 (g1 d) d"
  "chain (requires b e) f4 d = (if b then f4 () d else (Inl e, d))"
  "chain (found_or e g) h d = (case g d of None \<Rightarrow> (Inl e, d) | Some x \<Rightarrow> h x d)"
  by (simp_all add: chain_def yields_def raises_def reads_def requires_def found_or_def split: option.splits)

lemma op_ends [simp]: "yields x d = (Inr x, d)" "raises e d = (Inl e, d)"
  by (simp_all add: yields_def raises_def)

subsection \<open>Organizations\<close>

definition live_org :: "organization \<Rightarrow> bool" where "live_org g = (og_deleted_at g = None)"

text \<open>The unique index over the invite codes of live rows.\<close>

definition code_taken :: "str \<Rightarrow> str option \<Rightarrow> org_db \<Rightarrow> bool" where
  "code_taken oid code d \<longleftrightarrow> code \<noteq> None \<and> list_ex (\<lambda>g. live_org g \<and> og_id g \<noteq> oid \<and> og_invite_code g = code) (od_orgs d)"

definition org_create :: "organization \<Rightarrow> (org_db, organization) db_op" where
  "org_create row d =
     (if list_ex (\<lambda>g. og_id g = og_id row) (od_orgs d) \<or> code_taken (og_id row) (og_invite_code row) d then (Inl BackendError, d)
      else (Inr row, d\<lparr>od_orgs := od_orgs d @ [row]\<rparr>))"

definition org_get :: "str \<Rightarrow> org_db \<Rightarrow> organization option" where
  "org_get oid d = find (\<lambda>g. og_id g = oid \<and> live_org g) (od_orgs d)"

definition set_org_columns :: "organization \<Rightarrow> organization \<Rightarrow> organization" where
  "set_org_columns new old =
     new\<lparr>og_id := og_id old, og_owner_id := og_owner_id old, og_owner_tenant_id := og_owner_tenant_id old, og_created_at := og_created_at old\<rparr>"

definition on_live_org :: "str \<Rightarrow> (organization \<Rightarrow> organization) \<Rightarrow> org_db \<Rightarrow> org_db" where
  "on_live_org oid f d = d\<lparr>od_orgs := map (\<lambda>g. if og_id g = oid \<and> live_org g then f g else g) (od_orgs d)\<rparr>"

definition org_update :: "organization \<Rightarrow> (org_db, organization) db_op" where
  "org_update row d =
     (case org_get (og_id row) d of
        None \<Rightarrow> (Inl (DataError (lit ''organization.update_no_row'')), d)
      | Some old \<Rightarrow>
          if live_org row \<and> code_taken (og_id row) (og_invite_code row) d then (Inl BackendError, d)
          else (Inr (set_org_columns row old), on_live_org (og_id row) (set_org_columns row) d))"

definition org_soft_delete :: "str \<Rightarrow> int \<Rightarrow> org_db \<Rightarrow> org_db" where
  "org_soft_delete oid now d = on_live_org oid (\<lambda>g. g\<lparr>og_deleted_at := Some now, og_updated_at := now\<rparr>) d"

definition org_update_invite_code :: "str \<Rightarrow> str option \<Rightarrow> int option \<Rightarrow> int \<Rightarrow> (org_db, bool) db_op" where
  "org_update_invite_code oid code expires_at now d =
     (case org_get oid d of
        None \<Rightarrow> (Inr False, d)
      | Some old \<Rightarrow>
          if code_taken oid code d then (Inl BackendError, d)
          else (Inr True, on_live_org oid
            (\<lambda>g. g\<lparr>og_invite_code := code, og_invite_code_expires_at := expires_at, og_updated_at := now\<rparr>) d))"

definition org_by_invite_code :: "str \<Rightarrow> org_db \<Rightarrow> organization option" where
  "org_by_invite_code code d = (if code = [] then None else find (\<lambda>g. og_invite_code g = Some code \<and> live_org g) (od_orgs d))"

text \<open>Newest first, then by id: \<open>order by created_at desc, id desc\<close>.\<close>

definition newest_first :: "('r \<Rightarrow> int \<times> str) \<Rightarrow> 'r list \<Rightarrow> 'r list" where
  "newest_first key rows = rev (sort_key key rows)"

definition orgs_by_tenant :: "int \<Rightarrow> org_db \<Rightarrow> organization list" where
  "orgs_by_tenant tenant d =
     newest_first (\<lambda>g. (og_created_at g, og_id g))
       (map fst (filter (\<lambda>(g, m). mb_organization_id m = og_id g \<and> mb_tenant_id m = tenant \<and> live_org g)
         (List.product (od_orgs d) (od_members d))))"

text \<open>\<open>lower\<close> is the case folding of the database's \<open>ilike\<close>.\<close>

definition sql_ilike :: "(rune \<Rightarrow> rune) \<Rightarrow> str \<Rightarrow> str \<Rightarrow> bool" where
  "sql_ilike lower p s = sql_like (map lower p) (map lower s)"

definition orgs_searchable :: "(rune \<Rightarrow> rune) \<Rightarrow> str \<Rightarrow> int \<Rightarrow> org_db \<Rightarrow> organization list" where
  "orgs_searchable lower query limit d =
     (let page_size = (if 0 < limit then limit else 20); pat = [PERCENT] @ query @ [PERCENT]
      in take (nat page_size) (newest_first (\<lambda>g. (og_created_at g, og_id g))
        (filter (\<lambda>g. og_searchable g \<and> live_org g \<and>
           (sql_ilike lower pat (og_name g) \<or> (case og_description g of None \<Rightarrow> False | Some s \<Rightarrow> sql_ilike lower pat s) \<or>
            sql_ilike lower pat (og_id g))) (od_orgs d))))"

subsection \<open>Members\<close>

definition is_membership :: "str \<Rightarrow> int \<Rightarrow> tenant_member \<Rightarrow> bool" where
  "is_membership oid tenant m \<longleftrightarrow> mb_organization_id m = oid \<and> mb_tenant_id m = tenant"

definition get_member :: "str \<Rightarrow> int \<Rightarrow> org_db \<Rightarrow> tenant_member option" where
  "get_member oid tenant d = find (is_membership oid tenant) (od_members d)"

text \<open>\<open>None\<close> when the tenant is a member already.\<close>

definition add_member :: "tenant_member \<Rightarrow> (org_db, tenant_member option) db_op" where
  "add_member row d =
     (if get_member (mb_organization_id row) (mb_tenant_id row) d \<noteq> None then (Inr None, d)
      else if list_ex (\<lambda>m. mb_id m = mb_id row) (od_members d) then (Inl BackendError, d)
      else (Inr (Some row), d\<lparr>od_members := od_members d @ [row]\<rparr>))"

definition remove_member :: "str \<Rightarrow> int \<Rightarrow> org_db \<Rightarrow> org_db" where
  "remove_member oid tenant d = d\<lparr>od_members := filter (\<lambda>m. \<not> is_membership oid tenant m) (od_members d)\<rparr>"

definition update_member_role :: "str \<Rightarrow> int \<Rightarrow> str \<Rightarrow> (org_db, bool) db_op" where
  "update_member_role oid tenant role d =
     (Inr (get_member oid tenant d \<noteq> None),
      d\<lparr>od_members := map (\<lambda>m. if is_membership oid tenant m then m\<lparr>mb_role := role\<rparr> else m) (od_members d)\<rparr>)"

definition list_members :: "str \<Rightarrow> org_db \<Rightarrow> tenant_member list" where
  "list_members oid d = sort_key (\<lambda>m. (mb_created_at m, mb_id m)) (filter (\<lambda>m. mb_organization_id m = oid) (od_members d))"

definition count_members :: "str \<Rightarrow> org_db \<Rightarrow> int" where
  "count_members oid d = int (length (filter (\<lambda>m. mb_organization_id m = oid) (od_members d)))"

subsection \<open>Join requests\<close>

definition is_pending :: "str \<Rightarrow> int \<Rightarrow> str \<Rightarrow> join_request \<Rightarrow> bool" where
  "is_pending oid tenant request_type r \<longleftrightarrow>
     jr_organization_id r = oid \<and> jr_tenant_id r = tenant \<and> jr_status r = JOIN_REQUEST_STATUS_PENDING \<and> jr_request_type r = request_type"

definition pending_by_type :: "str \<Rightarrow> int \<Rightarrow> str \<Rightarrow> org_db \<Rightarrow> join_request option" where
  "pending_by_type oid tenant request_type d = find (is_pending oid tenant request_type) (od_requests d)"

definition create_join_request :: "join_request \<Rightarrow> (org_db, join_request) db_op" where
  "create_join_request row d =
     (if list_ex (\<lambda>r. jr_id r = jr_id row) (od_requests d) \<or>
         (jr_status row = JOIN_REQUEST_STATUS_PENDING \<and> pending_by_type (jr_organization_id row) (jr_tenant_id row) (jr_request_type row) d \<noteq> None)
      then (Inl BackendError, d)
      else (Inr row, d\<lparr>od_requests := od_requests d @ [row]\<rparr>))"

definition request_by_id :: "str \<Rightarrow> org_db \<Rightarrow> join_request option" where
  "request_by_id rid d = find (\<lambda>r. jr_id r = rid) (od_requests d)"

text \<open>The service only sets statuses that the index over pending requests does not cover.\<close>

definition update_request_status :: "str \<Rightarrow> str \<Rightarrow> str option \<Rightarrow> str option \<Rightarrow> int \<Rightarrow> org_db \<Rightarrow> org_db" where
  "update_request_status rid status reviewed_by review_message reviewed_at d =
     d\<lparr>od_requests := map (\<lambda>r. if jr_id r = rid
        then r\<lparr>jr_status := status, jr_reviewed_by := reviewed_by, jr_review_message := review_message,
               jr_reviewed_at := Some reviewed_at, jr_updated_at := reviewed_at\<rparr> else r) (od_requests d)\<rparr>"

definition requests_where :: "str \<Rightarrow> str option \<Rightarrow> org_db \<Rightarrow> join_request list" where
  "requests_where oid status d =
     filter (\<lambda>r. jr_organization_id r = oid \<and> (case status of None \<Rightarrow> True | Some s \<Rightarrow> s = [] \<or> jr_status r = s)) (od_requests d)"

definition list_requests :: "str \<Rightarrow> str option \<Rightarrow> org_db \<Rightarrow> join_request list" where
  "list_requests oid status d = newest_first (\<lambda>r. (jr_created_at r, jr_id r)) (requests_where oid status d)"

definition count_requests :: "str \<Rightarrow> str option \<Rightarrow> org_db \<Rightarrow> int" where
  "count_requests oid status d = int (length (requests_where oid status d))"

end
