(* ===== verification/Org_Service.thy ===== *)
theory Org_Service
  imports Org_Store
begin

text \<open>
  The organization service, src/src/core/organizations/service/organization_service.py, over the
  repositories: organizations, tenant membership, join flows and join requests. The information records
  of the service are the rows with the columns that they leave out set to \<open>None\<close>.
\<close>

subsection \<open>Constants and checks\<close>

definition DEFAULT_INVITE_CODE_VALIDITY_DAYS :: int where "DEFAULT_INVITE_CODE_VALIDITY_DAYS = 7"
definition VALID_INVITE_CODE_VALIDITY_DAYS :: "int list" where "VALID_INVITE_CODE_VALIDITY_DAYS = [0, 1, 7, 30]"
definition DEFAULT_MEMBER_LIMIT :: int where "DEFAULT_MEMBER_LIMIT = 50"
definition DEFAULT_SEARCH_LIMIT :: int where "DEFAULT_SEARCH_LIMIT = 20"

text \<open>Instants count microseconds.\<close>

definition resolve_invite_expiry :: "int \<Rightarrow> int \<Rightarrow> int option" where
  "resolve_invite_expiry validity_days now = (if validity_days = 0 then None else Some (now + validity_days * 86400000000))"

definition require_org_id :: "str \<Rightarrow> ('d, unit) db_op" where
  "require_org_id oid = requires (strip oid \<noteq> []) (ValidationError (lit ''organization.id_required''))"

definition require_tenant_id :: "int \<Rightarrow> ('d, unit) db_op" where
  "require_tenant_id tenant = requires (0 < tenant) (ValidationError (lit ''organization.tenant_required''))"

definition require_user_id :: "str \<Rightarrow> ('d, str) db_op" where
  "require_user_id user = chain (requires (strip user \<noteq> []) (ValidationError (lit ''organization.user_required''))) (\<lambda>_. yields (strip user))"

definition require_name :: "str \<Rightarrow> ('d, str) db_op" where
  "require_name name = chain (requires (strip name \<noteq> []) (ValidationError (lit ''organization.name_required''))) (\<lambda>_. yields (strip name))"

definition require_role :: "str \<Rightarrow> ('d, str) db_op" where
  "require_role role = chain (requires (is_valid_org_role role) (ValidationError (lit ''organization.role_invalid''))) (\<lambda>_. yields role)"

definition require_member_limit :: "int \<Rightarrow> ('d, int) db_op" where
  "require_member_limit n = chain (requires (0 \<le> n) (ValidationError (lit ''organization.member_limit_invalid''))) (\<lambda>_. yields n)"

definition require_validity_days :: "int \<Rightarrow> ('d, int) db_op" where
  "require_validity_days n =
     chain (requires (n \<in> set VALID_INVITE_CODE_VALIDITY_DAYS) (ValidationError (lit ''organization.invite_validity_invalid''))) (\<lambda>_. yields n)"

definition normalise_role :: "str \<Rightarrow> ('d, str) db_op" where
  "normalise_role role = (if role = [] then yields ORG_ROLE_VIEWER else require_role role)"

definition org_not_found :: app_error where "org_not_found = NotFoundError (lit ''organization.not_found'')"
definition not_a_member :: app_error where "not_a_member = NotFoundError (lit ''organization.tenant_not_member'')"
definition org_permission_denied :: app_error where "org_permission_denied = PermissionDeniedError (lit ''organization.permission_denied'')"
definition invite_code_not_found :: app_error where "invite_code_not_found = NotFoundError (lit ''organization.invite_code_not_found'')"
definition member_limit_reached :: app_error where "member_limit_reached = ConflictError (lit ''organization.member_limit_reached'')"
definition join_request_not_found :: app_error where "join_request_not_found = NotFoundError (lit ''organization.join_request_not_found'')"

lemmas check_defs = require_org_id_def require_tenant_id_def require_user_id_def require_name_def require_role_def
  require_member_limit_def require_validity_days_def normalise_role_def

definition organization_info :: "organization \<Rightarrow> organization" where
  "organization_info g = g\<lparr>og_invite_code := None, og_deleted_at := None\<rparr>"

definition join_request_info :: "join_request \<Rightarrow> join_request" where
  "join_request_info r = r\<lparr>jr_reviewed_by := None, jr_review_message := None\<rparr>"

text \<open>A row without an owning tenant counts every tenant as the owner.\<close>

definition is_owner_tenant :: "organization \<Rightarrow> int \<Rightarrow> bool" where
  "is_owner_tenant g tenant \<longleftrightarrow> og_owner_tenant_id g = 0 \<or> og_owner_tenant_id g = tenant"

text \<open>The check that the code repeats before it adds a member.\<close>

definition require_room :: "organization \<Rightarrow> (org_db, unit) db_op" where
  "require_room g d =
     (if 0 < og_member_limit g \<and> og_member_limit g \<le> count_members (og_id g) d then (Inl member_limit_reached, d) else (Inr (), d))"

definition new_member :: "str \<Rightarrow> int \<Rightarrow> str \<Rightarrow> str \<Rightarrow> int \<Rightarrow> str \<Rightarrow> tenant_member" where
  "new_member oid tenant role user now mid =
     \<lparr>mb_id = mid, mb_organization_id = oid, mb_tenant_id = tenant, mb_role = role, mb_representative_user_id = user,
      mb_joined_at = Some now, mb_created_at = now, mb_updated_at = now\<rparr>"

subsection \<open>Organizations\<close>

definition create_organization ::
  "str \<Rightarrow> int \<Rightarrow> str \<Rightarrow> str option \<Rightarrow> str option \<Rightarrow> int option \<Rightarrow> int option \<Rightarrow> int \<Rightarrow> str \<Rightarrow> str \<Rightarrow> str \<Rightarrow> (org_db, organization) db_op" where
  "create_organization user tenant name description avatar validity member_limit now oid code mid =
     chain (require_user_id user) (\<lambda>clean_user.
     chain (require_tenant_id tenant) (\<lambda>_.
     chain (require_name name) (\<lambda>clean_name.
     chain (case validity of None \<Rightarrow> yields DEFAULT_INVITE_CODE_VALIDITY_DAYS | Some v \<Rightarrow> require_validity_days v) (\<lambda>validity_days.
     chain (case member_limit of None \<Rightarrow> yields DEFAULT_MEMBER_LIMIT | Some n \<Rightarrow> require_member_limit n) (\<lambda>limit.
     chain (org_create \<lparr>og_id = oid, og_name = clean_name, og_description = description, og_owner_id = clean_user,
         og_owner_tenant_id = tenant, og_invite_code = Some code, og_invite_code_expires_at = resolve_invite_expiry validity_days now,
         og_invite_code_validity_days = validity_days, og_avatar = (case avatar of None \<Rightarrow> [] | Some a \<Rightarrow> strip a),
         og_require_approval = False, og_searchable = False, og_member_limit = limit, og_created_at = now, og_updated_at = now,
         og_deleted_at = None\<rparr>) (\<lambda>persisted d.
       (case add_member (new_member oid tenant ORG_ROLE_ADMIN clean_user now mid) d of
          (Inl e, d1) \<Rightarrow> (Inl e, org_soft_delete oid now d1)
        | (Inr stored, d1) \<Rightarrow> (Inr (organization_info persisted), d1))))))))"

definition get_organization :: "str \<Rightarrow> (org_db, organization) db_op" where
  "get_organization oid = chain (require_org_id oid) (\<lambda>_. chain (found_or org_not_found (org_get oid)) (\<lambda>g. yields (organization_info g)))"

definition get_organization_by_invite_code :: "str \<Rightarrow> int \<Rightarrow> (org_db, organization) db_op" where
  "get_organization_by_invite_code code now =
     chain (requires (code \<noteq> []) invite_code_not_found) (\<lambda>_.
     chain (found_or invite_code_not_found (org_by_invite_code code)) (\<lambda>g.
     chain (requires (case og_invite_code_expires_at g of None \<Rightarrow> True | Some t \<Rightarrow> now < t)
       (ValidationError (lit ''organization.invite_code_expired''))) (\<lambda>_.
     yields (organization_info g))))"

definition list_tenant_organizations :: "int \<Rightarrow> (org_db, organization list) db_op" where
  "list_tenant_organizations tenant = chain (require_tenant_id tenant) (\<lambda>_. reads (\<lambda>d. map organization_info (orgs_by_tenant tenant d)))"

definition tenant_is_admin :: "str \<Rightarrow> int \<Rightarrow> org_db \<Rightarrow> bool" where
  "tenant_is_admin oid tenant d = (case get_member oid tenant d of None \<Rightarrow> False | Some m \<Rightarrow> mb_role m = ORG_ROLE_ADMIN)"

definition is_tenant_org_admin :: "str \<Rightarrow> int \<Rightarrow> (org_db, bool) db_op" where
  "is_tenant_org_admin oid tenant =
     chain (require_org_id oid) (\<lambda>_. chain (require_tenant_id tenant) (\<lambda>_. reads (tenant_is_admin oid tenant)))"

definition require_admin :: "str \<Rightarrow> int \<Rightarrow> (org_db, unit) db_op" where
  "require_admin oid tenant = chain (is_tenant_org_admin oid tenant) (\<lambda>is_admin. requires is_admin org_permission_denied)"

text \<open>An absent field is \<open>None\<close> and leaves its column.\<close>

definition set_given :: "'a option \<Rightarrow> 'a \<Rightarrow> 'a" where "set_given x old = (case x of None \<Rightarrow> old | Some y \<Rightarrow> y)"

definition require_limit_fits :: "int option \<Rightarrow> int \<Rightarrow> str \<Rightarrow> (org_db, unit) db_op" where
  "require_limit_fits member_limit limit oid d =
     (if member_limit \<noteq> None \<and> 0 < limit \<and> limit < count_members oid d
      then (Inl (ValidationError (lit ''organization.member_limit_too_low'')), d) else (Inr (), d))"

definition updated_row :: "organization \<Rightarrow> str \<Rightarrow> str option \<Rightarrow> str option \<Rightarrow> bool option \<Rightarrow> bool option \<Rightarrow> int \<Rightarrow> int \<Rightarrow> int \<Rightarrow> organization" where
  "updated_row existing name description avatar require_approval searchable days limit now =
     existing\<lparr>og_name := name, og_description := (case description of None \<Rightarrow> og_description existing | Some s \<Rightarrow> Some s),
       og_avatar := (case avatar of None \<Rightarrow> og_avatar existing | Some a \<Rightarrow> strip a),
       og_require_approval := set_given require_approval (og_require_approval existing),
       og_searchable := set_given searchable (og_searchable existing),
       og_invite_code_validity_days := days, og_member_limit := limit, og_updated_at := now\<rparr>"

definition update_organization ::
  "str \<Rightarrow> str \<Rightarrow> int \<Rightarrow> str option \<Rightarrow> str option \<Rightarrow> str option \<Rightarrow> bool option \<Rightarrow> bool option \<Rightarrow> int option \<Rightarrow> int option \<Rightarrow> int \<Rightarrow>
   (org_db, organization) db_op" where
  "update_organization oid user tenant name description avatar require_approval searchable validity member_limit now =
     chain (require_org_id oid) (\<lambda>_.
     chain (require_user_id user) (\<lambda>_.
     chain (require_tenant_id tenant) (\<lambda>_.
     chain (require_admin oid tenant) (\<lambda>_.
     chain (found_or org_not_found (org_get oid)) (\<lambda>existing.
     chain (case name of None \<Rightarrow> yields (og_name existing) | Some n \<Rightarrow> require_name n) (\<lambda>new_name.
     chain (case validity of None \<Rightarrow> yields (og_invite_code_validity_days existing) | Some v \<Rightarrow> require_validity_days v) (\<lambda>days.
     chain (case member_limit of None \<Rightarrow> yields (og_member_limit existing) | Some n \<Rightarrow> require_member_limit n) (\<lambda>limit.
     chain (require_limit_fits member_limit limit oid) (\<lambda>_.
     chain (org_update (updated_row existing new_name description avatar require_approval searchable days limit now)) (\<lambda>persisted.
     yields (organization_info persisted)))))))))))"

definition delete_organization :: "str \<Rightarrow> str \<Rightarrow> int \<Rightarrow> int \<Rightarrow> (org_db, unit) db_op" where
  "delete_organization oid user tenant now =
     chain (require_org_id oid) (\<lambda>_.
     chain (require_user_id user) (\<lambda>_.
     chain (require_tenant_id tenant) (\<lambda>_.
     chain (found_or org_not_found (org_get oid)) (\<lambda>existing.
     chain (requires ((og_owner_tenant_id existing \<noteq> 0 \<and> og_owner_tenant_id existing = tenant) \<or>
         (og_owner_tenant_id existing = 0 \<and> og_owner_id existing = user)) org_permission_denied) (\<lambda>_ d.
     (Inr (), org_soft_delete oid now d))))))"

definition generate_invite_code :: "str \<Rightarrow> str \<Rightarrow> int \<Rightarrow> int \<Rightarrow> str \<Rightarrow> (org_db, str) db_op" where
  "generate_invite_code oid user tenant now new_code =
     chain (require_org_id oid) (\<lambda>_.
     chain (require_user_id user) (\<lambda>_.
     chain (require_tenant_id tenant) (\<lambda>_.
     chain (require_admin oid tenant) (\<lambda>_.
     chain (found_or org_not_found (org_get oid)) (\<lambda>existing.
     let validity_days = (if og_invite_code_validity_days existing \<in> set VALID_INVITE_CODE_VALIDITY_DAYS
       then og_invite_code_validity_days existing else DEFAULT_INVITE_CODE_VALIDITY_DAYS)
     in chain (org_update_invite_code oid (Some new_code) (resolve_invite_expiry validity_days now) now) (\<lambda>updated.
        chain (requires updated org_not_found) (\<lambda>_. yields new_code)))))))"

subsection \<open>Membership\<close>

definition add_tenant_member :: "str \<Rightarrow> int \<Rightarrow> str \<Rightarrow> str \<Rightarrow> int \<Rightarrow> str \<Rightarrow> (org_db, tenant_member) db_op" where
  "add_tenant_member oid tenant user role now mid =
     chain (require_org_id oid) (\<lambda>_.
     chain (require_tenant_id tenant) (\<lambda>_.
     chain (require_role role) (\<lambda>required_role.
     chain (found_or org_not_found (org_get oid)) (\<lambda>g.
     chain (require_room g) (\<lambda>_.
     chain (add_member (new_member oid tenant required_role user now mid)) (\<lambda>stored.
     (case stored of None \<Rightarrow> raises (ConflictError (lit ''organization.tenant_already_member'')) | Some m \<Rightarrow> yields m)))))))"

definition remove_tenant_member :: "str \<Rightarrow> int \<Rightarrow> str \<Rightarrow> int \<Rightarrow> (org_db, unit) db_op" where
  "remove_tenant_member oid member_tenant user operator_tenant =
     chain (require_org_id oid) (\<lambda>_.
     chain (require_tenant_id member_tenant) (\<lambda>_.
     chain (require_user_id user) (\<lambda>_.
     chain (require_tenant_id operator_tenant) (\<lambda>_.
     chain (found_or org_not_found (org_get oid)) (\<lambda>g.
     chain (requires (\<not> is_owner_tenant g member_tenant) (ConflictError (lit ''organization.cannot_remove_owner''))) (\<lambda>_.
     chain (if operator_tenant \<noteq> member_tenant then require_admin oid operator_tenant else yields ()) (\<lambda>_ d.
     (Inr (), remove_member oid member_tenant d))))))))"

definition update_tenant_member_role :: "str \<Rightarrow> int \<Rightarrow> str \<Rightarrow> str \<Rightarrow> int \<Rightarrow> (org_db, tenant_member) db_op" where
  "update_tenant_member_role oid member_tenant role user operator_tenant =
     chain (require_org_id oid) (\<lambda>_.
     chain (require_tenant_id member_tenant) (\<lambda>_.
     chain (require_role role) (\<lambda>required_role.
     chain (require_user_id user) (\<lambda>_.
     chain (require_tenant_id operator_tenant) (\<lambda>_.
     chain (require_admin oid operator_tenant) (\<lambda>_.
     chain (found_or org_not_found (org_get oid)) (\<lambda>g.
     chain (requires (\<not> is_owner_tenant g member_tenant) (ConflictError (lit ''organization.cannot_change_owner_role''))) (\<lambda>_.
     chain (update_member_role oid member_tenant required_role) (\<lambda>updated.
     chain (requires updated not_a_member) (\<lambda>_.
     found_or not_a_member (get_member oid member_tenant)))))))))))"

definition list_tenant_members :: "str \<Rightarrow> (org_db, tenant_member list) db_op" where
  "list_tenant_members oid = chain (require_org_id oid) (\<lambda>_. reads (list_members oid))"

definition get_tenant_member :: "str \<Rightarrow> int \<Rightarrow> (org_db, tenant_member) db_op" where
  "get_tenant_member oid tenant =
     chain (require_org_id oid) (\<lambda>_. chain (require_tenant_id tenant) (\<lambda>_. found_or not_a_member (get_member oid tenant)))"

definition get_tenant_role_in_org :: "str \<Rightarrow> int \<Rightarrow> (org_db, str) db_op" where
  "get_tenant_role_in_org oid tenant =
     chain (require_org_id oid) (\<lambda>_. chain (require_tenant_id tenant) (\<lambda>_.
     chain (found_or not_a_member (get_member oid tenant)) (\<lambda>m. yields (mb_role m))))"

subsection \<open>Joining\<close>

definition join_as_viewer_with_checks :: "str \<Rightarrow> int \<Rightarrow> str \<Rightarrow> int \<Rightarrow> str \<Rightarrow> (org_db, unit) db_op" where
  "join_as_viewer_with_checks oid tenant user now mid =
     chain (reads (get_member oid tenant)) (\<lambda>existing.
     if existing \<noteq> None then yields ()
     else chain (found_or org_not_found (org_get oid)) (\<lambda>g.
          chain (require_room g) (\<lambda>_.
          chain (add_member (new_member oid tenant ORG_ROLE_VIEWER user now mid)) (\<lambda>stored. yields ()))))"

definition join_by_invite_code :: "str \<Rightarrow> str \<Rightarrow> int \<Rightarrow> int \<Rightarrow> str \<Rightarrow> (org_db, organization) db_op" where
  "join_by_invite_code code user tenant now mid =
     chain (require_user_id user) (\<lambda>clean_user.
     chain (require_tenant_id tenant) (\<lambda>_.
     chain (get_organization_by_invite_code code now) (\<lambda>g.
     chain (requires (\<not> og_require_approval g) org_permission_denied) (\<lambda>_.
     chain (join_as_viewer_with_checks (og_id g) tenant clean_user now mid) (\<lambda>_. yields g)))))"

definition submit_join_request :: "str \<Rightarrow> str \<Rightarrow> int \<Rightarrow> str \<Rightarrow> str \<Rightarrow> int \<Rightarrow> str \<Rightarrow> (org_db, join_request) db_op" where
  "submit_join_request oid user tenant message requested_role now rid =
     chain (require_user_id user) (\<lambda>clean_user.
     chain (require_tenant_id tenant) (\<lambda>_.
     chain (require_org_id oid) (\<lambda>_.
     chain (reads (pending_by_type oid tenant JOIN_REQUEST_TYPE_JOIN)) (\<lambda>existing.
     chain (requires (existing = None) (ConflictError (lit ''organization.pending_request_exists''))) (\<lambda>_.
     chain (found_or org_not_found (org_get oid)) (\<lambda>g.
     chain (require_room g) (\<lambda>_.
     chain (normalise_role requested_role) (\<lambda>requested.
     chain (create_join_request \<lparr>jr_id = rid, jr_organization_id = oid, jr_user_id = clean_user, jr_tenant_id = tenant,
         jr_status = JOIN_REQUEST_STATUS_PENDING, jr_requested_role = requested, jr_request_type = JOIN_REQUEST_TYPE_JOIN,
         jr_prev_role = None, jr_message = (if message = [] then None else Some message), jr_reviewed_by = None,
         jr_reviewed_at = None, jr_review_message = None, jr_created_at = now, jr_updated_at = now\<rparr>) (\<lambda>persisted.
     yields (join_request_info persisted))))))))))"

definition join_by_organization_id :: "str \<Rightarrow> str \<Rightarrow> int \<Rightarrow> str \<Rightarrow> str \<Rightarrow> int \<Rightarrow> str \<Rightarrow> str \<Rightarrow> (org_db, organization) db_op" where
  "join_by_organization_id oid user tenant message requested_role now mid rid =
     chain (require_user_id user) (\<lambda>clean_user.
     chain (require_tenant_id tenant) (\<lambda>_.
     chain (require_org_id oid) (\<lambda>_.
     chain (found_or org_not_found (org_get oid)) (\<lambda>g.
     chain (requires (og_searchable g) org_permission_denied) (\<lambda>_.
     chain (reads (get_member oid tenant)) (\<lambda>existing.
     if existing \<noteq> None then yields (organization_info g)
     else chain (normalise_role requested_role) (\<lambda>requested.
       if og_require_approval g
       then chain (submit_join_request oid clean_user tenant message requested now rid) (\<lambda>_. yields (organization_info g))
       else chain (join_as_viewer_with_checks oid tenant clean_user now mid) (\<lambda>_. yields (organization_info g)))))))))"

subsection \<open>Join requests\<close>

definition list_join_requests :: "str \<Rightarrow> str option \<Rightarrow> (org_db, join_request list) db_op" where
  "list_join_requests oid status =
     chain (require_org_id oid) (\<lambda>_.
     chain (requires (case status of None \<Rightarrow> True | Some s \<Rightarrow> s \<in> set JOIN_REQUEST_STATUSES)
       (ValidationError (lit ''organization.join_request_status_invalid''))) (\<lambda>_.
     reads (\<lambda>d. map join_request_info (list_requests oid status d))))"

definition count_pending_join_requests :: "str \<Rightarrow> (org_db, int) db_op" where
  "count_pending_join_requests oid = chain (require_org_id oid) (\<lambda>_. reads (count_requests oid (Some JOIN_REQUEST_STATUS_PENDING)))"

text \<open>The role an approval gives.\<close>

definition approved_role :: "str option \<Rightarrow> join_request \<Rightarrow> (org_db, str) db_op" where
  "approved_role assign_role r =
     (case assign_role of
        Some role \<Rightarrow> require_role role
      | None \<Rightarrow> yields (if is_valid_org_role (jr_requested_role r) then jr_requested_role r else ORG_ROLE_VIEWER))"

definition approve_request :: "join_request \<Rightarrow> str \<Rightarrow> int \<Rightarrow> str \<Rightarrow> (org_db, unit) db_op" where
  "approve_request r role now mid =
     (if jr_request_type r = JOIN_REQUEST_TYPE_UPGRADE
      then chain (update_member_role (jr_organization_id r) (jr_tenant_id r) role) (\<lambda>updated. requires updated not_a_member)
      else chain (found_or org_not_found (org_get (jr_organization_id r))) (\<lambda>g.
           chain (require_room g) (\<lambda>_.
           chain (add_member (new_member (jr_organization_id r) (jr_tenant_id r) role (jr_user_id r) now mid)) (\<lambda>stored d.
             if stored = None \<and> get_member (jr_organization_id r) (jr_tenant_id r) d = None
             then (Inl (ConflictError (lit ''organization.tenant_already_member'')), d) else (Inr (), d)))))"

definition decide_request :: "bool \<Rightarrow> str option \<Rightarrow> join_request \<Rightarrow> int \<Rightarrow> str \<Rightarrow> (org_db, unit) db_op" where
  "decide_request approved assign_role r now mid =
     (if approved then chain (approved_role assign_role r) (\<lambda>role. approve_request r role now mid) else yields ())"

definition close_request :: "str \<Rightarrow> bool \<Rightarrow> str \<Rightarrow> str \<Rightarrow> int \<Rightarrow> (org_db, join_request) db_op" where
  "close_request rid approved reviewer message now d =
     chain (found_or join_request_not_found (request_by_id rid)) (\<lambda>updated. yields (join_request_info updated))
       (update_request_status rid (if approved then JOIN_REQUEST_STATUS_APPROVED else JOIN_REQUEST_STATUS_REJECTED)
          (Some reviewer) (if message = [] then None else Some message) now d)"

definition review_join_request ::
  "str \<Rightarrow> str \<Rightarrow> bool \<Rightarrow> str \<Rightarrow> int \<Rightarrow> str \<Rightarrow> str option \<Rightarrow> int \<Rightarrow> str \<Rightarrow> (org_db, join_request) db_op" where
  "review_join_request oid rid approved reviewer reviewer_tenant message assign_role now mid =
     chain (require_user_id reviewer) (\<lambda>clean_reviewer.
     chain (require_tenant_id reviewer_tenant) (\<lambda>_.
     chain (require_org_id oid) (\<lambda>_.
     chain (requires (strip rid \<noteq> []) (ValidationError (lit ''organization.join_request_id_required''))) (\<lambda>_.
     chain (found_or join_request_not_found (request_by_id rid)) (\<lambda>r.
     chain (requires (jr_organization_id r = oid) join_request_not_found) (\<lambda>_.
     chain (requires (jr_status r = JOIN_REQUEST_STATUS_PENDING) (ConflictError (lit ''organization.join_request_already_reviewed''))) (\<lambda>_.
     chain (decide_request approved assign_role r now mid) (\<lambda>_. close_request rid approved clean_reviewer message now))))))))"

definition request_role_upgrade :: "str \<Rightarrow> str \<Rightarrow> int \<Rightarrow> str \<Rightarrow> str \<Rightarrow> int \<Rightarrow> str \<Rightarrow> (org_db, join_request) db_op" where
  "request_role_upgrade oid user tenant requested_role message now rid =
     chain (require_user_id user) (\<lambda>clean_user.
     chain (require_tenant_id tenant) (\<lambda>_.
     chain (require_org_id oid) (\<lambda>_.
     chain (require_role requested_role) (\<lambda>required_role.
     chain (found_or not_a_member (get_member oid tenant)) (\<lambda>m.
     chain (requires (mb_role m \<noteq> ORG_ROLE_ADMIN) (ConflictError (lit ''organization.already_admin''))) (\<lambda>_.
     chain (requires (has_org_permission required_role (mb_role m) \<and> required_role \<noteq> mb_role m)
       (ConflictError (lit ''organization.upgrade_to_same_or_lower_role''))) (\<lambda>_.
     chain (reads (pending_by_type oid tenant JOIN_REQUEST_TYPE_UPGRADE)) (\<lambda>existing.
     chain (requires (existing = None) (ConflictError (lit ''organization.pending_request_exists''))) (\<lambda>_.
     chain (create_join_request \<lparr>jr_id = rid, jr_organization_id = oid, jr_user_id = clean_user, jr_tenant_id = tenant,
         jr_status = JOIN_REQUEST_STATUS_PENDING, jr_requested_role = required_role, jr_request_type = JOIN_REQUEST_TYPE_UPGRADE,
         jr_prev_role = Some (mb_role m), jr_message = (if message = [] then None else Some message), jr_reviewed_by = None,
         jr_reviewed_at = None, jr_review_message = None, jr_created_at = now, jr_updated_at = now\<rparr>) (\<lambda>persisted.
     yields (join_request_info persisted)))))))))))"

definition get_pending_upgrade_request :: "str \<Rightarrow> int \<Rightarrow> (org_db, join_request) db_op" where
  "get_pending_upgrade_request oid tenant =
     chain (require_org_id oid) (\<lambda>_. chain (require_tenant_id tenant) (\<lambda>_.
     chain (found_or (NotFoundError (lit ''organization.upgrade_request_not_found'')) (pending_by_type oid tenant JOIN_REQUEST_TYPE_UPGRADE))
       (\<lambda>r. yields (join_request_info r))))"

definition search_searchable_organizations :: "(rune \<Rightarrow> rune) \<Rightarrow> int \<Rightarrow> str \<Rightarrow> int \<Rightarrow> (org_db, organization list) db_op" where
  "search_searchable_organizations lower tenant query limit =
     chain (require_tenant_id tenant) (\<lambda>_.
     reads (\<lambda>d. map organization_info (orgs_searchable lower query (if 0 < limit then limit else DEFAULT_SEARCH_LIMIT) d)))"

subsection \<open>Runs\<close>

text \<open>A step is one call of the service.\<close>

inductive org_step :: "org_db \<Rightarrow> org_db \<Rightarrow> bool" where
  created: "org_step d (snd (create_organization user tenant name description avatar validity member_limit now oid code mid d))"
| updated: "org_step d (snd (update_organization oid user tenant name description avatar approval searchable validity member_limit now d))"
| deleted: "org_step d (snd (delete_organization oid user tenant now d))"
| rotated: "org_step d (snd (generate_invite_code oid user tenant now code d))"
| enrolled: "org_step d (snd (add_tenant_member oid tenant user role now mid d))"
| removed: "org_step d (snd (remove_tenant_member oid member_tenant user tenant d))"
| role_set: "org_step d (snd (update_tenant_member_role oid member_tenant role user tenant d))"
| joined_by_code: "org_step d (snd (join_by_invite_code code user tenant now mid d))"
| joined_by_id: "org_step d (snd (join_by_organization_id oid user tenant message role now mid rid d))"
| requested: "org_step d (snd (submit_join_request oid user tenant message role now rid d))"
| reviewed: "org_step d (snd (review_join_request oid rid approved user tenant message assign now mid d))"
| upgrade_requested: "org_step d (snd (request_role_upgrade oid user tenant role message now rid d))"

inductive org_reachable :: "org_db \<Rightarrow> bool" where
  start: "org_reachable \<lparr>od_orgs = [], od_members = [], od_requests = []\<rparr>"
| step: "org_reachable d \<Longrightarrow> org_step d d1 \<Longrightarrow> org_reachable d1"

end
