(* ===== verification/Org_Laws.thy ===== *)
theory Org_Laws
  imports Org_Service
begin

text \<open>
  What a call of the organization service may do to the tables, as an abstract transition system; that
  every call refines it; and the invariant that its transitions keep.
\<close>

subsection \<open>Abstract transitions\<close>

definition has_room :: "organization \<Rightarrow> org_db \<Rightarrow> bool" where
  "has_room g d \<longleftrightarrow> 0 < og_member_limit g \<longrightarrow> count_members (og_id g) d < og_member_limit g"

text \<open>Edits of a live row: its identity, owner and life stay, and a new limit admits the members.\<close>

definition org_edit :: "organization \<Rightarrow> organization \<Rightarrow> org_db \<Rightarrow> bool" where
  "org_edit g h d \<longleftrightarrow> og_id h = og_id g \<and> og_owner_tenant_id h = og_owner_tenant_id g \<and> og_deleted_at h = None \<and>
     (og_member_limit h = og_member_limit g \<or> og_member_limit h \<le> 0 \<or> count_members (og_id g) d \<le> og_member_limit h)"

inductive org_change :: "org_db \<Rightarrow> org_db \<Rightarrow> bool" where
  unchanged: "org_change d d"
| founded: "\<lbrakk>\<forall>h \<in> set (od_orgs d). og_id h \<noteq> og_id g; live_org g; 0 < og_owner_tenant_id g; 0 \<le> og_member_limit g;
     mb_organization_id m = og_id g; mb_tenant_id m = og_owner_tenant_id g; mb_role m = ORG_ROLE_ADMIN\<rbrakk>
   \<Longrightarrow> org_change d (d\<lparr>od_orgs := od_orgs d @ [g], od_members := od_members d @ [m]\<rparr>)"
| stillborn: "\<lbrakk>\<forall>h \<in> set (od_orgs d). og_id h \<noteq> og_id g; \<not> live_org g; 0 < og_owner_tenant_id g\<rbrakk>
   \<Longrightarrow> org_change d (d\<lparr>od_orgs := od_orgs d @ [g]\<rparr>)"
| edited: "\<lbrakk>org_get oid d = Some g; \<And>h. org_get oid d = Some h \<Longrightarrow> org_edit h (f h) d\<rbrakk> \<Longrightarrow> org_change d (on_live_org oid f d)"
| closed: "org_change d (org_soft_delete oid now d)"
| enrolled: "\<lbrakk>org_get (mb_organization_id m) d = Some g; has_room g d; get_member (mb_organization_id m) (mb_tenant_id m) d = None;
     is_valid_org_role (mb_role m)\<rbrakk> \<Longrightarrow> org_change d (d\<lparr>od_members := od_members d @ [m]\<rparr>)"
| left: "\<lbrakk>org_get oid d = Some g; \<not> is_owner_tenant g tenant\<rbrakk> \<Longrightarrow> org_change d (remove_member oid tenant d)"
| role_set: "\<lbrakk>is_valid_org_role role; (\<exists>g. org_get oid d = Some g \<and> \<not> is_owner_tenant g tenant) \<or>
     (\<exists>r \<in> set (od_requests d). is_pending oid tenant JOIN_REQUEST_TYPE_UPGRADE r)\<rbrakk>
   \<Longrightarrow> org_change d (snd (update_member_role oid tenant role d))"
| asked: "\<lbrakk>\<forall>q \<in> set (od_requests d). jr_id q \<noteq> jr_id r; jr_status r = JOIN_REQUEST_STATUS_PENDING;
     pending_by_type (jr_organization_id r) (jr_tenant_id r) (jr_request_type r) d = None;
     (jr_request_type r = JOIN_REQUEST_TYPE_JOIN \<and> org_get (jr_organization_id r) d \<noteq> None) \<or>
     (jr_request_type r = JOIN_REQUEST_TYPE_UPGRADE \<and>
      (\<exists>m. get_member (jr_organization_id r) (jr_tenant_id r) d = Some m \<and> mb_role m \<noteq> ORG_ROLE_ADMIN))\<rbrakk>
   \<Longrightarrow> org_change d (d\<lparr>od_requests := od_requests d @ [r]\<rparr>)"
| reviewed: "\<lbrakk>request_by_id rid d = Some r; jr_status r = JOIN_REQUEST_STATUS_PENDING;
     status = JOIN_REQUEST_STATUS_APPROVED \<or> status = JOIN_REQUEST_STATUS_REJECTED\<rbrakk>
   \<Longrightarrow> org_change d (update_request_status rid status reviewer review_message now d)"

subsection \<open>The invariant\<close>

text \<open>An organization with its members: it has an owning tenant, which stays an admin member, and its
  members are within its limit.\<close>

definition org_ok :: "organization \<Rightarrow> org_db \<Rightarrow> bool" where
  "org_ok g d \<longleftrightarrow> 0 < og_owner_tenant_id g \<and>
     (live_org g \<longrightarrow> (\<exists>m \<in> set (od_members d). is_membership (og_id g) (og_owner_tenant_id g) m)) \<and>
     (\<forall>m \<in> set (od_members d). is_membership (og_id g) (og_owner_tenant_id g) m \<longrightarrow> mb_role m = ORG_ROLE_ADMIN) \<and>
     (live_org g \<and> 0 < og_member_limit g \<longrightarrow> count_members (og_id g) d \<le> og_member_limit g)"

definition org_inv :: "org_db \<Rightarrow> bool" where
  "org_inv d \<longleftrightarrow>
     distinct (map og_id (od_orgs d)) \<and>
     distinct (map (\<lambda>m. (mb_organization_id m, mb_tenant_id m)) (od_members d)) \<and>
     (\<forall>m \<in> set (od_members d). is_valid_org_role (mb_role m) \<and> mb_organization_id m \<in> og_id ` set (od_orgs d)) \<and>
     (\<forall>g \<in> set (od_orgs d). org_ok g d) \<and>
     distinct (map jr_id (od_requests d)) \<and>
     (\<forall>oid tenant kind. length (filter (is_pending oid tenant kind) (od_requests d)) \<le> 1) \<and>
     (\<forall>r \<in> set (od_requests d). jr_status r \<in> set JOIN_REQUEST_STATUSES \<and> jr_organization_id r \<in> og_id ` set (od_orgs d)) \<and>
     (\<forall>r \<in> set (od_requests d). \<forall>g \<in> set (od_orgs d). is_pending (og_id g) (og_owner_tenant_id g) JOIN_REQUEST_TYPE_UPGRADE r \<longrightarrow> False)"

lemma org_get_Some: "org_get oid d = Some g \<Longrightarrow> g \<in> set (od_orgs d) \<and> og_id g = oid \<and> live_org g"
  by (auto simp: org_get_def find_Some_iff)

lemma get_member_Some: "get_member oid tenant d = Some m \<Longrightarrow> m \<in> set (od_members d) \<and> is_membership oid tenant m"
  by (auto simp: get_member_def find_Some_iff)

lemma get_member_None: "get_member oid tenant d = None \<longleftrightarrow> (\<forall>m \<in> set (od_members d). \<not> is_membership oid tenant m)"
  by (auto simp: get_member_def find_None_iff)

lemma same_org: "org_inv d \<Longrightarrow> g \<in> set (od_orgs d) \<Longrightarrow> h \<in> set (od_orgs d) \<Longrightarrow> og_id g = og_id h \<Longrightarrow> g = h"
  by (auto simp: org_inv_def distinct_map inj_on_def)

subsection \<open>Calls refine the transitions\<close>

lemma chain_chain [simp]: "chain (chain m f) h d = chain m (\<lambda>x. chain (f x) h) d"
  by (auto simp: chain_def split: prod.splits sum.splits)

lemma chain_if [simp]: "chain (if b then m else n) f d = (if b then chain m f d else chain n f d)"
  by simp

lemma chain_room [simp]: "chain (require_room g) f d = (if has_room g d then f () d else (Inl member_limit_reached, d))"
  by (auto simp: chain_def require_room_def has_room_def)

lemma chain_add [simp]: "chain (add_member m) f d =
    (if get_member (mb_organization_id m) (mb_tenant_id m) d \<noteq> None then f None d
     else if list_ex (\<lambda>n. mb_id n = mb_id m) (od_members d) then (Inl BackendError, d)
     else f (Some m) (d\<lparr>od_members := od_members d @ [m]\<rparr>))"
  by (auto simp: chain_def add_member_def)

lemma chain_role [simp]: "chain (update_member_role oid tenant role) f d =
    f (get_member oid tenant d \<noteq> None) (snd (update_member_role oid tenant role d))"
  by (simp add: chain_def update_member_role_def)

lemma chain_request [simp]: "chain (create_join_request r) f d =
    (if list_ex (\<lambda>q. jr_id q = jr_id r) (od_requests d) \<or>
        (jr_status r = JOIN_REQUEST_STATUS_PENDING \<and> pending_by_type (jr_organization_id r) (jr_tenant_id r) (jr_request_type r) d \<noteq> None)
     then (Inl BackendError, d) else f r (d\<lparr>od_requests := od_requests d @ [r]\<rparr>))"
  by (auto simp: chain_def create_join_request_def)

lemma chain_admin [simp]: "chain (require_admin oid tenant) f d =
    (if strip oid = [] then (Inl (ValidationError (lit ''organization.id_required'')), d)
     else if tenant \<le> 0 then (Inl (ValidationError (lit ''organization.tenant_required'')), d)
     else if tenant_is_admin oid tenant d then f () d else (Inl org_permission_denied, d))"
  by (auto simp: require_admin_def is_tenant_org_admin_def require_org_id_def require_tenant_id_def)

lemma new_member_fields [simp]:
  "mb_organization_id (new_member oid tenant role user now mid) = oid" "mb_tenant_id (new_member oid tenant role user now mid) = tenant"
  "mb_role (new_member oid tenant role user now mid) = role"
  by (simp_all add: new_member_def)

abbreviation org_changes :: "org_db \<Rightarrow> org_db \<Rightarrow> bool" where "org_changes \<equiv> org_change\<^sup>*\<^sup>*"

lemma enrolling:
  "org_get oid d = Some g \<Longrightarrow> has_room g d \<Longrightarrow> get_member oid tenant d = None \<Longrightarrow> is_valid_org_role role \<Longrightarrow>
    org_changes d (d\<lparr>od_members := od_members d @ [new_member oid tenant role user now mid]\<rparr>)"
  by (rule r_into_rtranclp, rule org_change.enrolled) simp_all

lemma viewer_valid [simp]: "is_valid_org_role ORG_ROLE_VIEWER" "is_valid_org_role ORG_ROLE_ADMIN"
  by (simp_all add: is_valid_org_role_def)

lemma add_tenant_member_change: "org_changes d (snd (add_tenant_member oid tenant user role now mid d))"
  by (auto simp: add_tenant_member_def check_defs enrolling split: option.split)

lemma remove_tenant_member_change: "org_changes d (snd (remove_tenant_member oid member_tenant user tenant d))"
  by (auto simp: remove_tenant_member_def check_defs intro: org_change.left split: option.split)

lemma update_role_change: "org_changes d (snd (update_tenant_member_role oid member_tenant role user tenant d))"
  by (auto simp: update_tenant_member_role_def check_defs found_or_def intro!: r_into_rtranclp org_change.role_set split: option.split)

lemma join_as_viewer_change: "org_changes d (snd (join_as_viewer_with_checks oid tenant user now mid d))"
  by (auto simp: join_as_viewer_with_checks_def enrolling split: option.split)

lemma join_by_code_change: "org_changes d (snd (join_by_invite_code code user tenant now mid d))"
proof -
  have "snd (chain (join_as_viewer_with_checks oid tenant user now mid) (\<lambda>_. yields g) d) = snd (join_as_viewer_with_checks oid tenant user now mid d)"
    for oid user and g :: organization
    by (simp add: chain_def split: prod.split sum.split)
  then show ?thesis using join_as_viewer_change
    by (auto simp: join_by_invite_code_def get_organization_by_invite_code_def check_defs split: option.split)
qed

lemma chain_last: "snd (chain m (\<lambda>_. yields x) d) = snd (m d)"
  by (simp add: chain_def split: prod.split sum.split)

lemma submit_change: "org_changes d (snd (submit_join_request oid user tenant message role now rid d))"
  by (auto simp: submit_join_request_def check_defs list_ex_iff intro!: r_into_rtranclp org_change.asked split: option.split)

lemma join_by_id_change: "org_changes d (snd (join_by_organization_id oid user tenant message role now mid rid d))"
  using submit_change join_as_viewer_change
  by (auto simp: join_by_organization_id_def check_defs chain_last split: option.split)

lemma upgrade_change: "org_changes d (snd (request_role_upgrade oid user tenant role message now rid d))"
  by (auto simp: request_role_upgrade_def check_defs list_ex_iff intro!: r_into_rtranclp org_change.asked split: option.split)

lemma delete_change: "org_changes d (snd (delete_organization oid user tenant now d))"
  by (auto simp: delete_organization_def check_defs intro: org_change.closed split: option.split)

lemma live_edit: "org_edit g h d \<Longrightarrow> live_org h"
  by (simp add: org_edit_def live_org_def)

lemma rotate_change: "org_changes d (snd (generate_invite_code oid user tenant now code d))"
proof -
  have "org_change d (on_live_org oid (\<lambda>g. g\<lparr>og_invite_code := c, og_invite_code_expires_at := t, og_updated_at := now\<rparr>) d)"
    if "org_get oid d = Some g" for c t g
    by (rule org_change.edited [OF that]) (use org_get_Some in \<open>auto simp: org_edit_def live_org_def\<close>)
  then show ?thesis
    by (auto simp: generate_invite_code_def check_defs org_update_invite_code_def chain_def [of "org_update_invite_code _ _ _ _"] Let_def split: option.split)
qed

lemma update_tail:
  assumes "org_get oid d = Some g" "og_id row = oid" "og_deleted_at row = None"
    "og_member_limit row = og_member_limit g \<or> og_member_limit row \<le> 0 \<or> count_members oid d \<le> og_member_limit row"
  shows "org_changes d (snd (chain (org_update row) (\<lambda>persisted. yields (organization_info persisted)) d))"
proof -
  have "org_change d (on_live_org oid (set_org_columns row) d)"
    by (rule org_change.edited [OF assms(1)]) (use assms org_get_Some in \<open>auto simp: org_edit_def set_org_columns_def\<close>)
  then show ?thesis using assms(1,2) by (auto simp: chain_def org_update_def)
qed

lemma chain_opt: "chain (case x of None \<Rightarrow> yields a | Some v \<Rightarrow> m v) f d = (case x of None \<Rightarrow> f a d | Some v \<Rightarrow> chain (m v) f d)"
  by (simp split: option.split)

lemma chain_fits [simp]: "chain (require_limit_fits member_limit limit oid) f d =
    (if member_limit \<noteq> None \<and> 0 < limit \<and> limit < count_members oid d
     then (Inl (ValidationError (lit ''organization.member_limit_too_low'')), d) else f () d)"
  by (auto simp: chain_def require_limit_fits_def)

lemma update_change: "org_changes d (snd (update_organization oid user tenant name description avatar approval searchable validity member_limit now d))"
proof -
  have tail: "org_changes d (snd (chain (org_update (updated_row g n description avatar approval searchable v l now))
      (\<lambda>persisted. yields (organization_info persisted)) d))"
    if "org_get oid d = Some g" "l = og_member_limit g \<or> l \<le> 0 \<or> count_members oid d \<le> l" for g n v l
    using org_get_Some [OF that(1)] that by (intro update_tail) (auto simp: live_org_def updated_row_def)
  show ?thesis unfolding update_organization_def check_defs
    by (cases name; cases validity; cases member_limit) (auto simp: tail split: option.split)
qed

lemma on_live_new:
  "\<forall>h \<in> set (od_orgs d). og_id h \<noteq> og_id g \<Longrightarrow> live_org g \<Longrightarrow>
    on_live_org (og_id g) f (d\<lparr>od_orgs := od_orgs d @ [g]\<rparr>) = d\<lparr>od_orgs := od_orgs d @ [f g]\<rparr>"
proof -
  assume a: "\<forall>h \<in> set (od_orgs d). og_id h \<noteq> og_id g" "live_org g"
  then have "map (\<lambda>h. if og_id h = og_id g \<and> live_org h then f h else h) (od_orgs d) = od_orgs d" by (intro map_idI) simp
  then show ?thesis using a(2) by (simp add: on_live_org_def)
qed

lemma founding:
  assumes "org_inv d" "live_org g" "0 < og_owner_tenant_id g" "0 \<le> og_member_limit g" "mb_organization_id m = og_id g"
    "mb_tenant_id m = og_owner_tenant_id g" "mb_role m = ORG_ROLE_ADMIN" "og_id g = oid"
  shows "org_changes d (snd (chain (org_create g) (\<lambda>persisted d.
       (case add_member m d of (Inl e, d1) \<Rightarrow> (Inl e, org_soft_delete oid now d1)
        | (Inr stored, d1) \<Rightarrow> (Inr (organization_info persisted), d1))) d))"
proof (cases "list_ex (\<lambda>h. og_id h = og_id g) (od_orgs d) \<or> code_taken (og_id g) (og_invite_code g) d")
  case True
  then show ?thesis by (simp add: chain_def org_create_def)
next
  case False
  then have fresh: "\<forall>h \<in> set (od_orgs d). og_id h \<noteq> og_id g" by (simp add: list_ex_iff)
  let ?d = "d\<lparr>od_orgs := od_orgs d @ [g]\<rparr>"
  have "mb_organization_id n \<noteq> og_id g" if "n \<in> set (od_members d)" for n
    using assms(1) fresh that unfolding org_inv_def by fastforce
  then have none: "get_member (mb_organization_id m) (mb_tenant_id m) ?d = None"
    unfolding get_member_None using assms(5) by (auto simp: is_membership_def)
  have "org_change d (org_soft_delete (og_id g) now ?d)"
    unfolding org_soft_delete_def on_live_new [OF fresh assms(2)]
    by (rule org_change.stillborn) (use fresh assms in \<open>simp_all add: live_org_def\<close>)
  moreover have "org_change d (?d\<lparr>od_members := od_members d @ [m]\<rparr>)"
    using org_change.founded [OF fresh assms(2-7)] by simp
  ultimately show ?thesis using False none
    by (auto simp: chain_def org_create_def add_member_def assms(8) [symmetric])
qed

lemma create_change: "org_inv d \<Longrightarrow> org_changes d (snd (create_organization user tenant name description avatar validity member_limit now oid code mid d))"
  unfolding create_organization_def
  by (auto simp: check_defs chain_opt DEFAULT_MEMBER_LIMIT_def live_org_def split: option.split
    intro!: founding)

lemma approve_change:
  assumes "r \<in> set (od_requests d)" "jr_status r = JOIN_REQUEST_STATUS_PENDING" "is_valid_org_role role"
  shows "org_changes d (snd (approve_request r role now mid d)) \<and> od_requests (snd (approve_request r role now mid d)) = od_requests d"
proof -
  have "is_pending (jr_organization_id r) (jr_tenant_id r) JOIN_REQUEST_TYPE_UPGRADE r" if "jr_request_type r = JOIN_REQUEST_TYPE_UPGRADE"
    using assms that by (simp add: is_pending_def)
  then have "org_change d (snd (update_member_role (jr_organization_id r) (jr_tenant_id r) role d))" if "jr_request_type r = JOIN_REQUEST_TYPE_UPGRADE"
    using assms that by (blast intro: org_change.role_set)
  moreover have "od_requests (snd (update_member_role (jr_organization_id r) (jr_tenant_id r) role d)) = od_requests d"
    by (simp add: update_member_role_def)
  ultimately show ?thesis using assms(3) enrolling
    by (auto simp: approve_request_def requires_def split: option.split)
qed

lemma chain_snd:
  assumes "org_changes d (snd (m d))" "\<And>x d1. m d = (Inr x, d1) \<Longrightarrow> org_changes d1 (snd (f x d1))"
  shows "org_changes d (snd (chain m f d))"
  using assms by (auto simp: chain_def split: prod.split sum.split intro: rtranclp_trans)

lemma close_change:
  assumes "request_by_id rid d = Some r" "jr_status r = JOIN_REQUEST_STATUS_PENDING"
  shows "org_changes d (snd (close_request rid approved reviewer message now d))"
proof -
  have "org_change d (update_request_status rid (if approved then JOIN_REQUEST_STATUS_APPROVED else JOIN_REQUEST_STATUS_REJECTED)
     (Some reviewer) (if message = [] then None else Some message) now d)"
    by (rule org_change.reviewed [OF assms]) simp
  then show ?thesis by (auto simp: close_request_def split: option.split)
qed

lemma decide_change:
  assumes "request_by_id rid d = Some r" "jr_status r = JOIN_REQUEST_STATUS_PENDING"
  shows "org_changes d (snd (decide_request approved assign r now mid d)) \<and> od_requests (snd (decide_request approved assign r now mid d)) = od_requests d"
proof -
  have rs: "r \<in> set (od_requests d)" using assms(1) by (auto simp: request_by_id_def find_Some_iff)
  have valid: "is_valid_org_role (if is_valid_org_role (jr_requested_role r) then jr_requested_role r else ORG_ROLE_VIEWER)" by simp
  show ?thesis using approve_change [OF rs assms(2)] valid
    by (auto simp: decide_request_def approved_role_def require_role_def split: option.split)
qed

lemma review_change: "org_changes d (snd (review_join_request oid rid approved user tenant message assign now mid d))"
proof -
  have "org_changes d (snd (chain (decide_request approved assign r now mid) (\<lambda>_. close_request rid approved reviewer message now) d))"
    if r: "request_by_id rid d = Some r" "jr_status r = JOIN_REQUEST_STATUS_PENDING" for r reviewer
  proof (rule chain_snd)
    show "org_changes d (snd (decide_request approved assign r now mid d))" using decide_change [OF r] by blast
    have "od_requests (snd (decide_request approved assign r now mid d)) = od_requests d" using decide_change [OF r] by blast
    then show "org_changes d1 (snd (close_request rid approved reviewer message now d1))" if "decide_request approved assign r now mid d = (Inr x, d1)" for x d1
      using that r close_change [of rid d1 r] by (simp add: request_by_id_def)
  qed
  then show ?thesis by (auto simp: review_join_request_def check_defs split: option.split)
qed

theorem org_step_refines: "org_inv d \<Longrightarrow> org_step d d1 \<Longrightarrow> org_changes d d1"
  by (erule org_step.cases) (simp_all add: create_change update_change delete_change rotate_change add_tenant_member_change
    remove_tenant_member_change update_role_change join_by_code_change join_by_id_change submit_change review_change upgrade_change)

subsection \<open>The invariant holds\<close>

lemma count_snoc: "count_members oid (d\<lparr>od_members := od_members d @ [m]\<rparr>) = count_members oid d + (if mb_organization_id m = oid then 1 else 0)"
  by (simp add: count_members_def)

lemma count_orgs [simp]: "count_members oid (d\<lparr>od_orgs := x\<rparr>) = count_members oid d" "count_members oid (d\<lparr>od_requests := y\<rparr>) = count_members oid d"
  by (simp_all add: count_members_def)

text \<open>The invariant in parts: the organizations and their members, and the requests.\<close>

definition members_inv :: "org_db \<Rightarrow> bool" where
  "members_inv d \<longleftrightarrow>
     distinct (map og_id (od_orgs d)) \<and>
     distinct (map (\<lambda>m. (mb_organization_id m, mb_tenant_id m)) (od_members d)) \<and>
     (\<forall>m \<in> set (od_members d). is_valid_org_role (mb_role m) \<and> mb_organization_id m \<in> og_id ` set (od_orgs d)) \<and>
     (\<forall>g \<in> set (od_orgs d). org_ok g d)"

definition requests_inv :: "org_db \<Rightarrow> bool" where
  "requests_inv d \<longleftrightarrow>
     distinct (map jr_id (od_requests d)) \<and>
     (\<forall>oid tenant kind. length (filter (is_pending oid tenant kind) (od_requests d)) \<le> 1) \<and>
     (\<forall>r \<in> set (od_requests d). jr_status r \<in> set JOIN_REQUEST_STATUSES \<and> jr_organization_id r \<in> og_id ` set (od_orgs d)) \<and>
     (\<forall>r \<in> set (od_requests d). \<forall>g \<in> set (od_orgs d). is_pending (og_id g) (og_owner_tenant_id g) JOIN_REQUEST_TYPE_UPGRADE r \<longrightarrow> False)"

lemma org_inv_parts: "org_inv d \<longleftrightarrow> members_inv d \<and> requests_inv d"
  unfolding org_inv_def members_inv_def requests_inv_def by blast

text \<open>Edits of organizations keep ids and owners.\<close>

lemma requests_inv_orgs:
  assumes "requests_inv d" "od_requests e = od_requests d"
    "map (\<lambda>g. (og_id g, og_owner_tenant_id g)) (od_orgs e) = map (\<lambda>g. (og_id g, og_owner_tenant_id g)) (od_orgs d)"
  shows "requests_inv e"
proof -
  have s: "(\<lambda>g. (og_id g, og_owner_tenant_id g)) ` set (od_orgs e) = (\<lambda>g. (og_id g, og_owner_tenant_id g)) ` set (od_orgs d)"
    using assms(3) by (metis set_map)
  have "og_id ` set (od_orgs e) = fst ` (\<lambda>g. (og_id g, og_owner_tenant_id g)) ` set (od_orgs e)" by (simp add: image_image)
  then have ids: "og_id ` set (od_orgs e) = og_id ` set (od_orgs d)" by (simp add: s image_image)
  have "\<exists>h \<in> set (od_orgs d). og_id h = og_id g \<and> og_owner_tenant_id h = og_owner_tenant_id g" if "g \<in> set (od_orgs e)" for g
    using that s by (metis (mono_tags, lifting) Pair_inject image_iff)
  then show ?thesis using assms(1) unfolding requests_inv_def assms(2) ids by metis
qed

lemma on_live_one:
  assumes "distinct (map og_id (od_orgs d))" "org_get oid d = Some g"
  shows "on_live_org oid f d = d\<lparr>od_orgs := map (\<lambda>h. if h = g then f g else h) (od_orgs d)\<rparr>"
proof -
  have g: "g \<in> set (od_orgs d)" "og_id g = oid" "live_org g" using org_get_Some [OF assms(2)] by auto
  have "(og_id h = oid \<and> live_org h) = (h = g)" if "h \<in> set (od_orgs d)" for h
    using assms(1) g that by (auto simp: distinct_map inj_on_def)
  then have "map (\<lambda>h. if og_id h = oid \<and> live_org h then f h else h) (od_orgs d) = map (\<lambda>h. if h = g then f g else h) (od_orgs d)"
    by (intro map_cong) auto
  then show ?thesis by (simp add: on_live_org_def)
qed

lemma on_live_none: "org_get oid d = None \<Longrightarrow> on_live_org oid f d = d"
proof -
  assume "org_get oid d = None"
  then have "map (\<lambda>h. if og_id h = oid \<and> live_org h then f h else h) (od_orgs d) = od_orgs d"
    by (intro map_idI) (auto simp: org_get_def find_None_iff)
  then show ?thesis by (simp add: on_live_org_def)
qed

lemma modify_inv:
  assumes "org_inv d" "org_get oid d = Some g" "og_id (f g) = og_id g" "og_owner_tenant_id (f g) = og_owner_tenant_id g"
    "live_org (f g) \<Longrightarrow> 0 < og_member_limit (f g) \<Longrightarrow> count_members (og_id g) d \<le> og_member_limit (f g)"
  shows "org_inv (on_live_org oid f d)"
proof -
  have ids: "distinct (map og_id (od_orgs d))" using assms(1) by (simp add: org_inv_def)
  have g: "g \<in> set (od_orgs d)" "live_org g" using org_get_Some [OF assms(2)] by auto
  let ?e = "on_live_org oid f d"
  have e: "?e = d\<lparr>od_orgs := map (\<lambda>h. if h = g then f g else h) (od_orgs d)\<rparr>" by (rule on_live_one [OF ids assms(2)])
  have keys: "map (\<lambda>h. (og_id h, og_owner_tenant_id h)) (od_orgs ?e) = map (\<lambda>h. (og_id h, og_owner_tenant_id h)) (od_orgs d)"
    using assms(3,4) by (simp add: e)
  then have "map fst (map (\<lambda>h. (og_id h, og_owner_tenant_id h)) (od_orgs ?e)) = map fst (map (\<lambda>h. (og_id h, og_owner_tenant_id h)) (od_orgs d))"
    by (rule arg_cong)
  then have same: "map og_id (od_orgs ?e) = map og_id (od_orgs d)" by (simp add: comp_def)
  then have "og_id ` set (od_orgs ?e) = og_id ` set (od_orgs d)" by (metis set_map)
  moreover have m: "od_members ?e = od_members d" "od_requests ?e = od_requests d" by (simp_all add: e)
  moreover have ok: "org_ok h ?e = org_ok h d" for h by (simp add: org_ok_def e)
  moreover have "org_ok g d" using assms(1) g by (simp add: org_inv_def)
  then have "org_ok (f g) d" using assms(3-5) g by (auto simp: org_ok_def)
  then have "org_ok h ?e" if "h \<in> set (od_orgs ?e)" for h
    using that assms(1) unfolding ok by (auto simp: e org_inv_def split: if_splits)
  ultimately have "members_inv ?e" using assms(1) same unfolding org_inv_parts members_inv_def by metis
  then show ?thesis using requests_inv_orgs [OF _ m(2) keys] assms(1) by (simp add: org_inv_parts)
qed

lemma edited_inv: "org_inv d \<Longrightarrow> org_get oid d = Some g \<Longrightarrow> org_edit g (f g) d \<Longrightarrow> org_inv (on_live_org oid f d)"
proof (rule modify_inv)
  assume a: "org_inv d" "org_get oid d = Some g" "org_edit g (f g) d"
  have "live_org g \<and> 0 < og_member_limit g \<longrightarrow> count_members (og_id g) d \<le> og_member_limit g"
    using a(1) org_get_Some [OF a(2)] by (auto simp: org_inv_def org_ok_def)
  then show "count_members (og_id g) d \<le> og_member_limit (f g)" if "0 < og_member_limit (f g)"
    using a(3) org_get_Some [OF a(2)] that by (auto simp: org_edit_def)
qed (simp_all add: org_edit_def)

lemma closed_inv: "org_inv d \<Longrightarrow> org_inv (org_soft_delete oid now d)"
proof (cases "org_get oid d")
  case None
  assume "org_inv d"
  then show ?thesis by (simp add: org_soft_delete_def on_live_none [OF None])
next
  case (Some g)
  assume "org_inv d"
  then show ?thesis unfolding org_soft_delete_def by (rule modify_inv [OF _ Some]) (simp_all add: live_org_def)
qed

lemma requests_same:
  assumes "requests_inv d" "od_requests e = od_requests d" "od_orgs e = od_orgs d"
  shows "requests_inv e"
  using assms by (intro requests_inv_orgs [OF assms(1)]) simp_all

lemma no_members: "org_inv d \<Longrightarrow> \<forall>h \<in> set (od_orgs d). og_id h \<noteq> oid \<Longrightarrow> m \<in> set (od_members d) \<Longrightarrow> mb_organization_id m \<noteq> oid"
  unfolding org_inv_def by fastforce

lemma no_requests: "org_inv d \<Longrightarrow> \<forall>h \<in> set (od_orgs d). og_id h \<noteq> oid \<Longrightarrow> r \<in> set (od_requests d) \<Longrightarrow> jr_organization_id r \<noteq> oid"
  unfolding org_inv_def by fastforce

lemma count_none: "\<forall>m \<in> set (od_members d). mb_organization_id m \<noteq> oid \<Longrightarrow> count_members oid d = 0"
  by (simp add: count_members_def filter_empty_conv)

lemma new_org_requests:
  assumes "org_inv d" "\<forall>h \<in> set (od_orgs d). og_id h \<noteq> og_id g" "od_requests e = od_requests d" "od_orgs e = od_orgs d @ [g]"
  shows "requests_inv e"
proof -
  have "\<not> is_pending (og_id g) tenant kind r" if "r \<in> set (od_requests d)" for r tenant kind
    using no_requests [OF assms(1,2) that] by (simp add: is_pending_def)
  then show ?thesis using assms(1,3,4) by (auto simp: org_inv_parts requests_inv_def)
qed

lemma founded_inv:
  assumes "org_inv d" "\<forall>h \<in> set (od_orgs d). og_id h \<noteq> og_id g" "live_org g" "0 < og_owner_tenant_id g" "0 \<le> og_member_limit g"
    "mb_organization_id m = og_id g" "mb_tenant_id m = og_owner_tenant_id g" "mb_role m = ORG_ROLE_ADMIN"
  shows "org_inv (d\<lparr>od_orgs := od_orgs d @ [g], od_members := od_members d @ [m]\<rparr>)" (is "org_inv ?e")
proof -
  have none: "\<forall>n \<in> set (od_members d). mb_organization_id n \<noteq> og_id g" using no_members [OF assms(1,2)] by blast
  have "org_ok h ?e" if "h \<in> set (od_orgs d)" for h
    using that assms(1,2,6) by (auto simp: org_inv_def org_ok_def count_members_def is_membership_def)
  moreover have "org_ok g ?e"
    using assms(3-8) none count_none [OF none] by (auto simp: org_ok_def is_membership_def count_members_def)
  ultimately have "members_inv ?e"
    using assms(1,2,6,8) none by (auto simp: members_inv_def org_inv_def)
  then show ?thesis using new_org_requests [OF assms(1,2), of ?e] by (simp add: org_inv_parts)
qed

lemma stillborn_inv:
  assumes "org_inv d" "\<forall>h \<in> set (od_orgs d). og_id h \<noteq> og_id g" "\<not> live_org g" "0 < og_owner_tenant_id g"
  shows "org_inv (d\<lparr>od_orgs := od_orgs d @ [g]\<rparr>)" (is "org_inv ?e")
proof -
  have none: "\<forall>n \<in> set (od_members d). mb_organization_id n \<noteq> og_id g" using no_members [OF assms(1,2)] by blast
  have "org_ok h ?e = org_ok h d" for h by (simp add: org_ok_def)
  moreover have "org_ok g d" using assms(3,4) none by (auto simp: org_ok_def is_membership_def)
  ultimately have "members_inv ?e" using assms(1,2) by (auto simp: members_inv_def org_inv_def)
  then show ?thesis using new_org_requests [OF assms(1,2), of ?e] by (simp add: org_inv_parts)
qed

subsection \<open>Owners\<close>

lemma inv_org_ok: "org_inv d \<Longrightarrow> g \<in> set (od_orgs d) \<Longrightarrow> org_ok g d"
  by (simp add: org_inv_def)

lemma owner_member:
  assumes "org_inv d" "g \<in> set (od_orgs d)" "live_org g"
  shows "\<exists>m. get_member (og_id g) (og_owner_tenant_id g) d = Some m \<and> mb_role m = ORG_ROLE_ADMIN"
proof -
  obtain m where "get_member (og_id g) (og_owner_tenant_id g) d = Some m"
    using inv_org_ok [OF assms(1,2)] assms(3) get_member_None by (fastforce simp: org_ok_def)
  then show ?thesis using inv_org_ok [OF assms(1,2)] get_member_Some by (fastforce simp: org_ok_def)
qed

lemma not_owner: "org_inv d \<Longrightarrow> g \<in> set (od_orgs d) \<Longrightarrow> \<not> is_owner_tenant g tenant \<Longrightarrow> tenant \<noteq> og_owner_tenant_id g"
  using inv_org_ok by (auto simp: is_owner_tenant_def org_ok_def)

subsection \<open>Members\<close>

lemma enrolled_inv:
  assumes "org_inv d" "org_get (mb_organization_id m) d = Some g" "has_room g d"
    "get_member (mb_organization_id m) (mb_tenant_id m) d = None" "is_valid_org_role (mb_role m)"
  shows "org_inv (d\<lparr>od_members := od_members d @ [m]\<rparr>)" (is "org_inv ?e")
proof -
  have g: "g \<in> set (od_orgs d)" "og_id g = mb_organization_id m" "live_org g" using org_get_Some [OF assms(2)] by auto
  have nm: "\<not> is_membership (mb_organization_id m) (mb_tenant_id m) n" if "n \<in> set (od_members d)" for n
    using assms(4) that unfolding get_member_None by blast
  have own: "mb_tenant_id m \<noteq> og_owner_tenant_id g" using owner_member [OF assms(1) g(1,3)] assms(4) g(2) by auto
  have ok: "org_ok h ?e" if h: "h \<in> set (od_orgs d)" for h
  proof (cases "h = g")
    case True
    then show ?thesis using inv_org_ok [OF assms(1) g(1)] own assms(3) unfolding org_ok_def has_room_def
      by (auto simp: count_snoc is_membership_def)
  next
    case False
    then have "og_id h \<noteq> mb_organization_id m" using same_org [OF assms(1) h g(1)] g(2) by auto
    then show ?thesis using inv_org_ok [OF assms(1) h] by (auto simp: org_ok_def count_snoc is_membership_def)
  qed
  have "mb_organization_id m \<in> og_id ` set (od_orgs d)" using g by (metis imageI)
  moreover have "(mb_organization_id m, mb_tenant_id m) \<notin> set (map (\<lambda>m. (mb_organization_id m, mb_tenant_id m)) (od_members d))"
    using nm by (force simp: is_membership_def)
  ultimately have "members_inv ?e" using assms(1,5) ok by (auto simp: org_inv_parts members_inv_def)
  then show ?thesis using requests_same [of d ?e] assms(1) by (simp add: org_inv_parts)
qed

lemma left_inv:
  assumes "org_inv d" "org_get oid d = Some g" "\<not> is_owner_tenant g tenant"
  shows "org_inv (remove_member oid tenant d)" (is "org_inv ?e")
proof -
  have g: "g \<in> set (od_orgs d)" "og_id g = oid" using org_get_Some [OF assms(2)] by auto
  have own: "tenant \<noteq> og_owner_tenant_id g" by (rule not_owner [OF assms(1) g(1) assms(3)])
  have fewer: "count_members i ?e \<le> count_members i d" for i
    using length_filter_le [of "\<lambda>m. \<not> is_membership oid tenant m" "filter (\<lambda>m. mb_organization_id m = i) (od_members d)"]
    by (simp add: count_members_def remove_member_def conj_commute)
  have ok: "org_ok h ?e" if h: "h \<in> set (od_orgs d)" for h
  proof -
    have "\<not> is_membership oid tenant n" if "is_membership (og_id h) (og_owner_tenant_id h) n" for n
      using own g that same_org [OF assms(1) h g(1)] by (auto simp: is_membership_def)
    then show ?thesis using inv_org_ok [OF assms(1) h] fewer [of "og_id h"] by (fastforce simp: org_ok_def remove_member_def)
  qed
  have "distinct (map (\<lambda>m. (mb_organization_id m, mb_tenant_id m)) (od_members ?e))"
    using assms(1) by (simp add: org_inv_def remove_member_def distinct_map_filter)
  then have "members_inv ?e" using assms(1) ok by (auto simp: org_inv_parts members_inv_def remove_member_def)
  then show ?thesis using requests_same [of d ?e] assms(1) by (simp add: org_inv_parts remove_member_def)
qed

lemma role_target:
  assumes "org_inv d" "(\<exists>g. org_get oid d = Some g \<and> \<not> is_owner_tenant g tenant) \<or>
     (\<exists>r \<in> set (od_requests d). is_pending oid tenant JOIN_REQUEST_TYPE_UPGRADE r)" "h \<in> set (od_orgs d)" "og_id h = oid"
  shows "tenant \<noteq> og_owner_tenant_id h"
  using assms(2)
proof
  assume "\<exists>g. org_get oid d = Some g \<and> \<not> is_owner_tenant g tenant"
  then obtain g where g: "org_get oid d = Some g" "\<not> is_owner_tenant g tenant" by blast
  then have "g = h" using org_get_Some [OF g(1)] same_org [OF assms(1) _ assms(3)] assms(4) by auto
  then show ?thesis using not_owner [OF assms(1,3)] g(2) by blast
next
  assume "\<exists>r \<in> set (od_requests d). is_pending oid tenant JOIN_REQUEST_TYPE_UPGRADE r"
  then show ?thesis using assms(1,3,4) unfolding org_inv_def by blast
qed

lemma role_set_inv:
  assumes "org_inv d" "is_valid_org_role role" "(\<exists>g. org_get oid d = Some g \<and> \<not> is_owner_tenant g tenant) \<or>
     (\<exists>r \<in> set (od_requests d). is_pending oid tenant JOIN_REQUEST_TYPE_UPGRADE r)"
  shows "org_inv (snd (update_member_role oid tenant role d))" (is "org_inv ?e")
proof -
  define f where "f m = (if is_membership oid tenant m then m\<lparr>mb_role := role\<rparr> else m)" for m :: tenant_member
  have e: "od_members ?e = map f (od_members d)" "od_orgs ?e = od_orgs d" "od_requests ?e = od_requests d"
    by (simp_all add: update_member_role_def f_def [abs_def])
  have f: "mb_organization_id (f m) = mb_organization_id m" "mb_tenant_id (f m) = mb_tenant_id m"
    "is_membership i t (f m) = is_membership i t m" "mb_role (f m) \<in> {role, mb_role m}" for m i t
    by (auto simp: f_def is_membership_def)
  have keys: "map (\<lambda>m. (mb_organization_id m, mb_tenant_id m)) (od_members ?e) = map (\<lambda>m. (mb_organization_id m, mb_tenant_id m)) (od_members d)"
    by (simp add: e f comp_def)
  have cnt: "count_members i ?e = count_members i d" for i by (simp add: count_members_def e filter_map comp_def f)
  have ok: "org_ok h ?e" if h: "h \<in> set (od_orgs d)" for h
  proof -
    have "f m = m" if "is_membership (og_id h) (og_owner_tenant_id h) m" for m
      using role_target [OF assms(1,3) h] that by (auto simp: is_membership_def f_def)
    then show ?thesis using inv_org_ok [OF assms(1) h] by (simp add: org_ok_def e f(3) cnt)
  qed
  have "is_valid_org_role (mb_role (f m))" if "m \<in> set (od_members d)" for m
    using that f(4) [of m] assms(1,2) by (auto simp: org_inv_parts members_inv_def)
  then have "members_inv ?e" unfolding members_inv_def keys using assms(1) ok by (simp add: org_inv_parts members_inv_def e f)
  then show ?thesis using requests_same [OF _ e(3,2)] assms(1) by (simp add: org_inv_parts)
qed

subsection \<open>Requests\<close>

lemma pending_None: "pending_by_type oid tenant kind d = None \<longleftrightarrow> filter (is_pending oid tenant kind) (od_requests d) = []"
  by (auto simp: pending_by_type_def find_None_iff filter_empty_conv)

lemma members_same: "members_inv d \<Longrightarrow> od_members e = od_members d \<Longrightarrow> od_orgs e = od_orgs d \<Longrightarrow> members_inv e"
  by (simp add: members_inv_def org_ok_def count_members_def)

lemma asked_inv:
  assumes "org_inv d" "\<forall>q \<in> set (od_requests d). jr_id q \<noteq> jr_id r" "jr_status r = JOIN_REQUEST_STATUS_PENDING"
    "pending_by_type (jr_organization_id r) (jr_tenant_id r) (jr_request_type r) d = None"
    "(jr_request_type r = JOIN_REQUEST_TYPE_JOIN \<and> org_get (jr_organization_id r) d \<noteq> None) \<or>
     (jr_request_type r = JOIN_REQUEST_TYPE_UPGRADE \<and>
      (\<exists>m. get_member (jr_organization_id r) (jr_tenant_id r) d = Some m \<and> mb_role m \<noteq> ORG_ROLE_ADMIN))"
  shows "org_inv (d\<lparr>od_requests := od_requests d @ [r]\<rparr>)" (is "org_inv ?e")
proof -
  have one: "length (filter (is_pending i t k) (od_requests ?e)) \<le> 1" for i t k
    using assms(1,4) by (auto simp: org_inv_parts requests_inv_def pending_None) (auto simp: is_pending_def)
  have "jr_organization_id r \<in> og_id ` set (od_orgs d)" if "org_get (jr_organization_id r) d = Some g" for g
    using org_get_Some [OF that] by (metis imageI)
  moreover have "jr_organization_id r \<in> og_id ` set (od_orgs d)" if "get_member (jr_organization_id r) (jr_tenant_id r) d = Some m" for m
    using get_member_Some [OF that] assms(1) unfolding is_membership_def org_inv_parts members_inv_def by metis
  ultimately have org: "jr_organization_id r \<in> og_id ` set (od_orgs d)" using assms(5) by blast
  have own: "\<not> is_pending (og_id g) (og_owner_tenant_id g) JOIN_REQUEST_TYPE_UPGRADE r" if g: "g \<in> set (od_orgs d)" for g
  proof
    assume p: "is_pending (og_id g) (og_owner_tenant_id g) JOIN_REQUEST_TYPE_UPGRADE r"
    then obtain m where "get_member (og_id g) (og_owner_tenant_id g) d = Some m" "mb_role m \<noteq> ORG_ROLE_ADMIN"
      using assms(5) by (auto simp: is_pending_def)
    then show False using inv_org_ok [OF assms(1) g] get_member_Some by (fastforce simp: org_ok_def)
  qed
  have "distinct (map jr_id (od_requests ?e))" using assms(1,2) by (auto simp: org_inv_def)
  then have "requests_inv ?e" unfolding requests_inv_def using one org own assms(1,3)
    by (auto simp: org_inv_parts requests_inv_def JOIN_REQUEST_STATUSES_def)
  then show ?thesis using members_same [of d ?e] assms(1) by (simp add: org_inv_parts)
qed

lemma length_filter_map_le: "(\<And>x. P (f x) \<Longrightarrow> P x) \<Longrightarrow> length (filter P (map f xs)) \<le> length (filter P xs)"
  by (induction xs) auto

lemma reviewed_inv:
  assumes "org_inv d" "status = JOIN_REQUEST_STATUS_APPROVED \<or> status = JOIN_REQUEST_STATUS_REJECTED"
  shows "org_inv (update_request_status rid status reviewer message now d)" (is "org_inv ?e")
proof -
  define f :: "join_request \<Rightarrow> join_request" where "f r = (if jr_id r = rid
        then r\<lparr>jr_status := status, jr_reviewed_by := reviewer, jr_review_message := message,
               jr_reviewed_at := Some now, jr_updated_at := now\<rparr> else r)" for r
  have e: "od_requests ?e = map f (od_requests d)" "od_orgs ?e = od_orgs d" "od_members ?e = od_members d"
    by (simp_all add: update_request_status_def f_def [abs_def])
  have f: "jr_id (f r) = jr_id r" "jr_organization_id (f r) = jr_organization_id r" "jr_status (f r) \<in> {status, jr_status r}" for r
    by (simp_all add: f_def)
  have p: "is_pending i t k r" if "is_pending i t k (f r)" for i t k r
    using that assms(2) by (auto simp: is_pending_def f_def split: if_splits)
  have "length (filter (is_pending i t k) (od_requests ?e)) \<le> 1" for i t k
    using length_filter_map_le [of "is_pending i t k" f "od_requests d", OF p] assms(1)
    unfolding e org_inv_parts requests_inv_def by (meson le_trans)
  moreover have "status \<in> set JOIN_REQUEST_STATUSES" using assms(2) by (auto simp: JOIN_REQUEST_STATUSES_def)
  then have "jr_status (f r) \<in> set JOIN_REQUEST_STATUSES" if "r \<in> set (od_requests d)" for r
    using that f(3) [of r] assms(1) by (auto simp: org_inv_def)
  moreover have "\<not> is_pending (og_id g) (og_owner_tenant_id g) JOIN_REQUEST_TYPE_UPGRADE (f r)"
    if "r \<in> set (od_requests d)" "g \<in> set (od_orgs d)" for r g
    using that assms(1) p unfolding org_inv_def by blast
  ultimately have "requests_inv ?e" using assms(1)
    by (simp add: requests_inv_def org_inv_parts e f comp_def)
  then show ?thesis using members_same [of d ?e] assms(1) by (simp add: org_inv_parts e)
qed

subsection \<open>Reachable states\<close>

lemma org_change_inv: "org_change d e \<Longrightarrow> org_inv d \<Longrightarrow> org_inv e"
  by (induction rule: org_change.induct)
    (assumption | rule founded_inv stillborn_inv edited_inv closed_inv enrolled_inv left_inv role_set_inv asked_inv reviewed_inv; blast)+

lemma org_changes_inv: "org_changes d e \<Longrightarrow> org_inv d \<Longrightarrow> org_inv e"
  by (induction rule: rtranclp_induct) (auto intro: org_change_inv)

lemma org_start_inv: "org_inv \<lparr>od_orgs = [], od_members = [], od_requests = []\<rparr>"
  by (simp add: org_inv_def)

lemma reachable_inv: "org_reachable d \<Longrightarrow> org_inv d"
  by (induction rule: org_reachable.induct) (auto intro: org_start_inv org_changes_inv org_step_refines)

end
