(* ===== verification/Org_Properties.thy ===== *)
theory Org_Properties
  imports Org_Laws
begin

text \<open>
  The properties of the organization service: what holds in every state that calls of the service reach,
  which calls are refused, when an invite code admits a tenant, and what a review writes.
\<close>

subsection \<open>Lemmas\<close>

lemma membership_once:
  "distinct (map (\<lambda>m. (mb_organization_id m, mb_tenant_id m)) ms) \<Longrightarrow> length (filter (is_membership oid tenant) ms) \<le> 1"
proof (induction ms)
  case (Cons m ms)
  have "filter (is_membership oid tenant) ms = []" if "is_membership oid tenant m"
    using Cons.prems that by (auto simp: is_membership_def filter_empty_conv image_iff)
  then show ?case using Cons by auto
qed simp

lemma org_get_live: "org_inv d \<Longrightarrow> g \<in> set (od_orgs d) \<Longrightarrow> live_org g \<Longrightarrow> org_get (og_id g) d = Some g"
proof (cases "org_get (og_id g) d")
  case None
  moreover assume "g \<in> set (od_orgs d)" "live_org g"
  ultimately show ?thesis by (auto simp: org_get_def find_None_iff)
next
  case (Some h)
  moreover assume "org_inv d" "g \<in> set (od_orgs d)"
  ultimately show ?thesis using same_org org_get_Some by metis
qed

lemma updated_request:
  "request_by_id rid d = Some r \<Longrightarrow> \<exists>q. request_by_id rid (update_request_status rid status reviewer message now d) = Some q \<and> jr_status q = status"
proof -
  have "find (\<lambda>r. jr_id r = rid) rs = Some r \<Longrightarrow>
      \<exists>q. find (\<lambda>r. jr_id r = rid) (map (\<lambda>r. if jr_id r = rid then r\<lparr>jr_status := status, jr_reviewed_by := reviewer,
        jr_review_message := message, jr_reviewed_at := Some now, jr_updated_at := now\<rparr> else r) rs) = Some q \<and> jr_status q = status" for rs
    by (induction rs) (auto split: if_splits)
  then show "request_by_id rid d = Some r \<Longrightarrow> ?thesis" by (simp add: request_by_id_def update_request_status_def)
qed

lemma updated_member:
  "get_member oid tenant d = Some m \<Longrightarrow> get_member oid tenant (snd (update_member_role oid tenant role d)) = Some (m\<lparr>mb_role := role\<rparr>)"
proof -
  have keeps: "is_membership oid tenant (n\<lparr>mb_role := role\<rparr>) = is_membership oid tenant n" for n by (simp add: is_membership_def)
  have "find (is_membership oid tenant) ms = Some m \<Longrightarrow> find (is_membership oid tenant)
      (map (\<lambda>m. if is_membership oid tenant m then m\<lparr>mb_role := role\<rparr> else m) ms) = Some (m\<lparr>mb_role := role\<rparr>)" for ms
    by (induction ms) (auto simp: keeps split: if_splits)
  then show "get_member oid tenant d = Some m \<Longrightarrow> ?thesis" by (simp add: get_member_def update_member_role_def)
qed

text \<open>What a request asks for, and who asked.\<close>

definition same_ask :: "join_request \<Rightarrow> join_request \<Rightarrow> bool" where
  "same_ask r q \<longleftrightarrow> jr_id q = jr_id r \<and> jr_organization_id q = jr_organization_id r \<and> jr_user_id q = jr_user_id r \<and>
     jr_tenant_id q = jr_tenant_id r \<and> jr_requested_role q = jr_requested_role r \<and> jr_request_type q = jr_request_type r \<and>
     jr_prev_role q = jr_prev_role r \<and> jr_message q = jr_message r \<and> jr_created_at q = jr_created_at r"

lemma same_ask_refl [simp]: "same_ask r r"
  by (simp add: same_ask_def)

lemma org_change_requests:
  assumes "org_change d e" "org_inv d" "r \<in> set (od_requests d)"
  shows "\<exists>q \<in> set (od_requests e). same_ask r q \<and> (jr_status r \<noteq> JOIN_REQUEST_STATUS_PENDING \<longrightarrow> q = r)"
  using assms(1)
proof cases
  case (reviewed rid r1 status reviewer message now)
  show ?thesis
  proof (cases "jr_id r = rid")
    case True
    have "r1 \<in> set (od_requests d)" "jr_id r1 = rid" using reviewed(2) by (auto simp: request_by_id_def find_Some_iff)
    then have "r = r1" using assms(2,3) True by (auto simp: org_inv_def distinct_map inj_on_def)
    then have pending: "jr_status r = JOIN_REQUEST_STATUS_PENDING" using reviewed(3) by simp
    let ?q = "r\<lparr>jr_status := status, jr_reviewed_by := reviewer, jr_review_message := message, jr_reviewed_at := Some now, jr_updated_at := now\<rparr>"
    have "?q \<in> set (od_requests e)" unfolding reviewed(1) update_request_status_def using assms(3) True by (simp add: image_iff) blast
    then show ?thesis using pending by (intro bexI [of _ ?q]) (simp_all add: same_ask_def)
  next
    case False
    then show ?thesis using reviewed(1) assms(3) by (force simp: update_request_status_def)
  qed
qed (use assms(3) in \<open>auto simp: on_live_org_def org_soft_delete_def remove_member_def update_member_role_def intro!: bexI [of _ r]\<close>)

lemma org_changes_requests:
  assumes "org_changes d e" "org_inv d" "r \<in> set (od_requests d)"
  shows "\<exists>q \<in> set (od_requests e). same_ask r q \<and> (jr_status r \<noteq> JOIN_REQUEST_STATUS_PENDING \<longrightarrow> q = r)"
  using assms(1)
proof (induction rule: rtranclp_induct)
  case base
  show ?case using assms(3) same_ask_refl by blast
next
  case (step e f)
  then obtain q where q: "q \<in> set (od_requests e)" "same_ask r q" "jr_status r \<noteq> JOIN_REQUEST_STATUS_PENDING \<longrightarrow> q = r" by blast
  show ?case using org_change_requests [OF step.hyps(2) org_changes_inv [OF step.hyps(1) assms(2)] q(1)] q(2,3)
    by (auto simp: same_ask_def)
qed

subsection \<open>Runs that witnesses use\<close>

lemmas org_eval = create_organization_def add_tenant_member_def join_by_invite_code_def get_organization_by_invite_code_def
  request_role_upgrade_def update_tenant_member_role_def join_as_viewer_with_checks_def check_defs
  org_create_def add_member_def code_taken_def get_member_def is_membership_def new_member_def org_get_def live_org_def
  organization_info_def resolve_invite_expiry_def DEFAULT_MEMBER_LIMIT_def DEFAULT_INVITE_CODE_VALIDITY_DAYS_def

definition org_empty :: org_db where "org_empty = \<lparr>od_orgs = [], od_members = [], od_requests = []\<rparr>"

definition demo_org :: organization where
  "demo_org = \<lparr>og_id = lit ''o'', og_name = lit ''n'', og_description = None, og_owner_id = lit ''u'', og_owner_tenant_id = 1,
     og_invite_code = Some (lit ''c''), og_invite_code_expires_at = None, og_invite_code_validity_days = 0, og_avatar = [],
     og_require_approval = False, og_searchable = False, og_member_limit = 2, og_created_at = 0, og_updated_at = 0, og_deleted_at = None\<rparr>"

definition demo_owner :: tenant_member where "demo_owner = new_member (lit ''o'') 1 ORG_ROLE_ADMIN (lit ''u'') 0 (lit ''m1'')"

definition demo_founded :: org_db where "demo_founded = \<lparr>od_orgs = [demo_org], od_members = [demo_owner], od_requests = []\<rparr>"

lemma demo_words [simp]: "strip (lit ''o'') = lit ''o''" "strip (lit ''u'') = lit ''u''" "strip (lit ''n'') = lit ''n''" "strip (lit ''q'') = lit ''q''"
  by (simp_all add: strip_def lit_def is_space_def)

lemma demo_differ [simp]: "lit ''m1'' \<noteq> lit ''m2''" "lit ''o'' \<noteq> []" "lit ''u'' \<noteq> []" "lit ''n'' \<noteq> []" "lit ''c'' \<noteq> []" "lit ''q'' \<noteq> []"
  by (simp_all add: lit_def)

lemma demo_founding: "org_reachable demo_founded"
proof -
  have "demo_founded = snd (create_organization (lit ''u'') 1 (lit ''n'') None None (Some 0) (Some 2) 0 (lit ''o'') (lit ''c'') (lit ''m1'') org_empty)"
    by (simp add: org_eval demo_founded_def demo_org_def demo_owner_def org_empty_def VALID_INVITE_CODE_VALIDITY_DAYS_def chain_def [of "org_create _"])
  then show ?thesis using org_reachable.step [OF org_reachable.start org_step.created] unfolding org_empty_def by metis
qed


definition demo_viewer :: tenant_member where "demo_viewer = new_member (lit ''o'') 2 ORG_ROLE_VIEWER (lit ''u'') 0 (lit ''m2'')"

definition demo_ask :: join_request where
  "demo_ask = \<lparr>jr_id = lit ''q'', jr_organization_id = lit ''o'', jr_user_id = lit ''u'', jr_tenant_id = 2,
     jr_status = JOIN_REQUEST_STATUS_PENDING, jr_requested_role = ORG_ROLE_EDITOR, jr_request_type = JOIN_REQUEST_TYPE_UPGRADE,
     jr_prev_role = Some ORG_ROLE_VIEWER, jr_message = None, jr_reviewed_by = None, jr_reviewed_at = None, jr_review_message = None,
     jr_created_at = 0, jr_updated_at = 0\<rparr>"

text \<open>Tenant 2 joins as a viewer, asks to be an editor, and is made an admin before anybody reviews it.\<close>

definition demo_joined :: org_db where "demo_joined = demo_founded\<lparr>od_members := [demo_owner, demo_viewer]\<rparr>"
definition demo_asked :: org_db where "demo_asked = demo_joined\<lparr>od_requests := [demo_ask]\<rparr>"
definition demo_raised :: org_db where
  "demo_raised = demo_asked\<lparr>od_members := [demo_owner, demo_viewer\<lparr>mb_role := ORG_ROLE_ADMIN\<rparr>]\<rparr>"

lemmas demo_defs = demo_raised_def demo_asked_def demo_joined_def demo_founded_def demo_org_def demo_owner_def demo_viewer_def demo_ask_def

lemma demo_joining: "org_reachable demo_joined"
proof -
  have "demo_joined = snd (add_tenant_member (lit ''o'') 2 (lit ''u'') ORG_ROLE_VIEWER 0 (lit ''m2'') demo_founded)"
    by (simp add: org_eval demo_defs has_room_def count_members_def)
  then show ?thesis using org_reachable.step [OF demo_founding org_step.enrolled] by metis
qed

lemma demo_asking: "org_reachable demo_asked"
proof -
  have "demo_asked = snd (request_role_upgrade (lit ''o'') (lit ''u'') 2 ORG_ROLE_EDITOR [] 0 (lit ''q'') demo_joined)"
    by (simp add: org_eval demo_defs is_valid_org_role_def has_org_permission_def org_role_level_def pending_by_type_def)
  then show ?thesis using org_reachable.step [OF demo_joining org_step.upgrade_requested] by metis
qed

lemma demo_raising: "org_reachable demo_raised"
proof -
  have "demo_raised = snd (update_tenant_member_role (lit ''o'') 2 ORG_ROLE_ADMIN (lit ''u'') 1 demo_asked)"
    by (simp add: org_eval demo_defs tenant_is_admin_def is_owner_tenant_def found_or_def update_member_role_def)
  then show ?thesis using org_reachable.step [OF demo_asking org_step.role_set] by metis
qed


subsection \<open>What always holds\<close>

text \<open>C16: in every state that calls of the service reach, the owning tenant of a live organization is a member with the role
  of an admin, an organization with a limit has no more members than the limit, a tenant has at most one membership of an
  organization and at most one pending request of a type.\<close>

theorem owner_stays_admin:
  assumes "org_reachable d"
  shows "(\<forall>g \<in> set (od_orgs d). live_org g \<longrightarrow>
      (\<exists>m. get_member (og_id g) (og_owner_tenant_id g) d = Some m \<and> mb_role m = ORG_ROLE_ADMIN) \<and>
      (0 < og_member_limit g \<longrightarrow> count_members (og_id g) d \<le> og_member_limit g)) \<and>
    (\<forall>oid tenant. length (filter (is_membership oid tenant) (od_members d)) \<le> 1) \<and>
    (\<forall>oid tenant kind. length (filter (is_pending oid tenant kind) (od_requests d)) \<le> 1)"
proof (intro conjI)
  have i: "org_inv d" using assms by (rule reachable_inv)
  show "\<forall>g \<in> set (od_orgs d). live_org g \<longrightarrow>
      (\<exists>m. get_member (og_id g) (og_owner_tenant_id g) d = Some m \<and> mb_role m = ORG_ROLE_ADMIN) \<and>
      (0 < og_member_limit g \<longrightarrow> count_members (og_id g) d \<le> og_member_limit g)"
    using owner_member [OF i] inv_org_ok [OF i] by (auto simp: org_ok_def)
  show "\<forall>oid tenant kind. length (filter (is_pending oid tenant kind) (od_requests d)) \<le> 1" using i unfolding org_inv_def by blast
  have "distinct (map (\<lambda>m. (mb_organization_id m, mb_tenant_id m)) (od_members d))" using i by (simp add: org_inv_def)
  then show "\<forall>oid tenant. length (filter (is_membership oid tenant) (od_members d)) \<le> 1" using membership_once by blast
qed

lemma owner_stays_admin_witness: "length (filter (is_membership (lit ''o'') 1) (od_members demo_raised)) \<le> 1"
  using owner_stays_admin [OF demo_raising] by blast

subsection \<open>Refinement\<close>

text \<open>C17: every call of the service on a reachable state is a sequence of abstract transitions, and these keep the invariant.\<close>

theorem calls_refine:
  assumes "org_reachable d" "org_step d e"
  shows "org_changes d e \<and> org_inv d \<and> org_inv e"
  using org_step_refines reachable_inv org_changes_inv assms by blast

lemma calls_refine_witness: "org_changes demo_asked demo_raised"
proof -
  have "demo_raised = snd (update_tenant_member_role (lit ''o'') 2 ORG_ROLE_ADMIN (lit ''u'') 1 demo_asked)"
    by (simp add: org_eval demo_defs tenant_is_admin_def is_owner_tenant_def found_or_def update_member_role_def)
  then have "org_step demo_asked demo_raised" by (metis org_step.role_set)
  then show ?thesis using calls_refine [OF demo_asking] by blast
qed

text \<open>C19: no call loses a join request, changes who asked for what, or touches a request once it is reviewed.\<close>

theorem reviews_are_final:
  assumes "org_reachable d" "org_step d e" "r \<in> set (od_requests d)"
  shows "\<exists>q \<in> set (od_requests e). same_ask r q \<and> (jr_status r \<noteq> JOIN_REQUEST_STATUS_PENDING \<longrightarrow> q = r)"
  using org_changes_requests [OF org_step_refines [OF reachable_inv [OF assms(1)] assms(2)] reachable_inv [OF assms(1)] assms(3)] .

lemma reviews_are_final_witness: "\<exists>q \<in> set (od_requests demo_raised). same_ask demo_ask q"
proof -
  have "demo_raised = snd (update_tenant_member_role (lit ''o'') 2 ORG_ROLE_ADMIN (lit ''u'') 1 demo_asked)"
    by (simp add: org_eval demo_defs tenant_is_admin_def is_owner_tenant_def found_or_def update_member_role_def)
  then have "org_step demo_asked demo_raised" by (metis org_step.role_set)
  then show ?thesis using reviews_are_final [OF demo_asking, of demo_raised demo_ask] by (auto simp: demo_asked_def)
qed


subsection \<open>Refusals\<close>

text \<open>C18: a tenant that is not an admin member of an organization cannot edit or delete it, rotate its invite code, change a
  role or remove another member: the call raises and the database stays.\<close>

theorem non_admin_changes_nothing:
  assumes "org_reachable d" "\<not> tenant_is_admin oid tenant d"
  shows "(\<exists>err. update_organization oid user tenant name description avatar approval searchable validity member_limit now d = (Inl err, d)) \<and>
    (\<exists>err. delete_organization oid user tenant now d = (Inl err, d)) \<and>
    (\<exists>err. generate_invite_code oid user tenant now code d = (Inl err, d)) \<and>
    (\<exists>err. update_tenant_member_role oid member_tenant role user tenant d = (Inl err, d)) \<and>
    (member_tenant = tenant \<or> (\<exists>err. remove_tenant_member oid member_tenant user tenant d = (Inl err, d)))"
proof (intro conjI)
  show "\<exists>err. update_organization oid user tenant name description avatar approval searchable validity member_limit now d = (Inl err, d)"
    using assms(2) by (auto simp: update_organization_def check_defs)
  show "\<exists>err. generate_invite_code oid user tenant now code d = (Inl err, d)"
    using assms(2) by (auto simp: generate_invite_code_def check_defs)
  show "\<exists>err. update_tenant_member_role oid member_tenant role user tenant d = (Inl err, d)"
    using assms(2) by (auto simp: update_tenant_member_role_def check_defs)
  show "member_tenant = tenant \<or> (\<exists>err. remove_tenant_member oid member_tenant user tenant d = (Inl err, d))"
    using assms(2) by (auto simp: remove_tenant_member_def check_defs split: option.split)
  have i: "org_inv d" using assms(1) by (rule reachable_inv)
  have "og_owner_tenant_id g \<noteq> 0 \<and> og_owner_tenant_id g \<noteq> tenant" if "org_get oid d = Some g" for g
    using owner_member [OF i] inv_org_ok [OF i] org_get_Some [OF that] assms(2) by (fastforce simp: tenant_is_admin_def org_ok_def)
  then show "\<exists>err. delete_organization oid user tenant now d = (Inl err, d)"
    by (auto simp: delete_organization_def check_defs split: option.split)
qed

lemma non_admin_changes_nothing_witness: "\<exists>err. generate_invite_code (lit ''o'') (lit ''u'') 2 0 (lit ''x'') demo_joined = (Inl err, demo_joined)"
proof -
  have "\<not> tenant_is_admin (lit ''o'') 2 demo_joined" by (simp add: tenant_is_admin_def demo_defs org_eval)
  then show ?thesis using non_admin_changes_nothing [OF demo_joining] by blast
qed

subsection \<open>Joining\<close>

text \<open>An invite code admits a tenant exactly when it belongs to a live organization, has not expired, needs no approval, and
  the tenant is a member already, which changes nothing, or there is room, and then it becomes a viewer.\<close>

theorem join_by_code_iff:
  assumes "org_reachable d" "\<forall>m \<in> set (od_members d). mb_id m \<noteq> mid"
  shows "join_by_invite_code code user tenant now mid d = (Inr info, e) \<longleftrightarrow>
    strip user \<noteq> [] \<and> 0 < tenant \<and>
    (\<exists>g. org_by_invite_code code d = Some g \<and> info = organization_info g \<and> \<not> og_require_approval g \<and>
      (case og_invite_code_expires_at g of None \<Rightarrow> True | Some t \<Rightarrow> now < t) \<and>
      (if get_member (og_id g) tenant d \<noteq> None then e = d
       else has_room g d \<and> e = d\<lparr>od_members := od_members d @ [new_member (og_id g) tenant ORG_ROLE_VIEWER (strip user) now mid]\<rparr>))"
proof -
  have i: "org_inv d" using assms(1) by (rule reachable_inv)
  have get: "org_get (og_id g) d = Some g" "code \<noteq> []" if "org_by_invite_code code d = Some g" for g
    using that org_get_live [OF i] by (auto simp: org_by_invite_code_def find_Some_iff split: if_splits)
  have fresh: "\<not> list_ex (\<lambda>n. mb_id n = mid) (od_members d)" using assms(2) by (auto simp: list_ex_iff)
  have fields: "og_require_approval (organization_info g) = og_require_approval g" "og_id (organization_info g) = og_id g" for g
    by (simp_all add: organization_info_def)
  have mid: "mb_id (new_member oid t role u n mid) = mid" for oid t role u n by (simp add: new_member_def)
  have none: "code = [] \<Longrightarrow> org_by_invite_code code d = None" by (simp add: org_by_invite_code_def)
  show ?thesis
  proof (cases "org_by_invite_code code d")
    case None
    then show ?thesis by (auto simp: join_by_invite_code_def get_organization_by_invite_code_def check_defs)
  next
    case (Some g)
    note g = get [OF Some]
    show ?thesis using Some g fresh
      by (auto simp: join_by_invite_code_def get_organization_by_invite_code_def check_defs join_as_viewer_with_checks_def fields mid
        split: option.split)
  qed
qed

lemma join_by_code_iff_witness:
  "join_by_invite_code (lit ''c'') (lit ''u'') 2 0 (lit ''m2'') demo_founded = (Inr (organization_info demo_org), demo_joined)"
proof -
  have "\<forall>m \<in> set (od_members demo_founded). mb_id m \<noteq> lit ''m2''" by (simp add: demo_defs org_eval)
  from join_by_code_iff [OF demo_founding this] show ?thesis
    by (simp only:) (simp add: demo_defs org_eval org_by_invite_code_def has_room_def count_members_def)
qed

subsection \<open>Reviews\<close>

text \<open>C20: approving an upgrade request writes the role that it asked for over the role that the member has by then, without
  comparing them or looking at the role that the request recorded, so an old request lowers an admin to an editor; and
  whichever tenant reviews it, the service does not ask whether it is an admin.\<close>

theorem stale_upgrade_overwrites:
  assumes "request_by_id rid d = Some r" "jr_status r = JOIN_REQUEST_STATUS_PENDING" "jr_request_type r = JOIN_REQUEST_TYPE_UPGRADE"
    "is_valid_org_role (jr_requested_role r)" "get_member (jr_organization_id r) (jr_tenant_id r) d = Some m"
    "strip (jr_organization_id r) \<noteq> []" "strip rid \<noteq> []" "strip reviewer \<noteq> []" "0 < reviewer_tenant"
  shows "\<exists>info e. review_join_request (jr_organization_id r) rid True reviewer reviewer_tenant message None now mid d = (Inr info, e) \<and>
    jr_status info = JOIN_REQUEST_STATUS_APPROVED \<and>
    get_member (jr_organization_id r) (jr_tenant_id r) e = Some (m\<lparr>mb_role := jr_requested_role r\<rparr>)"
proof -
  let ?oid = "jr_organization_id r" and ?t = "jr_tenant_id r"
  let ?d1 = "snd (update_member_role ?oid ?t (jr_requested_role r) d)"
  have "od_requests ?d1 = od_requests d" by (simp add: update_member_role_def)
  then have "request_by_id rid ?d1 = Some r" using assms(1) by (simp add: request_by_id_def)
  then obtain q where q: "request_by_id rid (update_request_status rid JOIN_REQUEST_STATUS_APPROVED (Some (strip reviewer))
      (if message = [] then None else Some message) now ?d1) = Some q" "jr_status q = JOIN_REQUEST_STATUS_APPROVED"
    using updated_request by blast
  have "review_join_request ?oid rid True reviewer reviewer_tenant message None now mid d = close_request rid True (strip reviewer) message now ?d1"
    using assms by (simp add: review_join_request_def check_defs decide_request_def approved_role_def approve_request_def)
  moreover have "get_member ?oid ?t ?d1 = Some (m\<lparr>mb_role := jr_requested_role r\<rparr>)" using updated_member assms(5) by blast
  then have "get_member ?oid ?t (update_request_status rid st rv ms now ?d1) = Some (m\<lparr>mb_role := jr_requested_role r\<rparr>)" for st rv ms
    by (simp add: get_member_def update_request_status_def)
  ultimately show ?thesis using q by (simp add: close_request_def join_request_info_def)
qed

text \<open>The reviewer's tenant is nobody's member, and an admin becomes an editor.\<close>

lemma stale_upgrade_overwrites_witness:
  "org_reachable demo_raised \<and> tenant_is_admin (lit ''o'') 2 demo_raised \<and> \<not> tenant_is_admin (lit ''o'') 9 demo_raised \<and>
   (\<exists>info e. review_join_request (lit ''o'') (lit ''q'') True (lit ''u'') 9 [] None 0 (lit ''m3'') demo_raised = (Inr info, e) \<and>
     get_member (lit ''o'') 2 e = Some (demo_viewer\<lparr>mb_role := ORG_ROLE_EDITOR\<rparr>))"
proof -
  have "\<exists>info e. review_join_request (jr_organization_id demo_ask) (lit ''q'') True (lit ''u'') 9 [] None 0 (lit ''m3'') demo_raised = (Inr info, e) \<and>
     jr_status info = JOIN_REQUEST_STATUS_APPROVED \<and>
     get_member (jr_organization_id demo_ask) (jr_tenant_id demo_ask) e = Some ((demo_viewer\<lparr>mb_role := ORG_ROLE_ADMIN\<rparr>)\<lparr>mb_role := jr_requested_role demo_ask\<rparr>)"
    by (rule stale_upgrade_overwrites) (simp_all add: demo_defs org_eval request_by_id_def is_valid_org_role_def)
  moreover have "jr_organization_id demo_ask = lit ''o''" "jr_tenant_id demo_ask = 2" "jr_requested_role demo_ask = ORG_ROLE_EDITOR"
    by (simp_all add: demo_ask_def)
  moreover have "tenant_is_admin (lit ''o'') 2 demo_raised" "\<not> tenant_is_admin (lit ''o'') 9 demo_raised"
    by (simp_all add: demo_defs org_eval tenant_is_admin_def)
  ultimately show ?thesis using demo_raising by auto
qed

end
