(* ===== verification/Share_Store.thy ===== *)
theory Share_Store
  imports Org_Service Access_Control Merge_Hits "HOL-Library.AList"
begin

text \<open>
  Sharing into organizations: the tables \<open>kb_shares\<close>, \<open>agent_shares\<close> and \<open>tenant_disabled_shared_agents\<close>
  (src/src/db/models) with the SQL of their repositories (src/src/db/dao). Of knowledge bases and agents
  the rows hold the columns that sharing reads.
\<close>

subsection \<open>Rows\<close>

record kb_share =
  ks_id :: str
  ks_knowledge_base_id :: str
  ks_organization_id :: str
  ks_shared_by_user_id :: str
  ks_source_tenant_id :: int
  ks_permission :: str
  ks_created_at :: int
  ks_updated_at :: int
  ks_deleted_at :: "int option"

record agent_share =
  as_id :: str
  as_agent_id :: str
  as_organization_id :: str
  as_shared_by_user_id :: str
  as_source_tenant_id :: int
  as_permission :: str
  as_created_at :: int
  as_updated_at :: int
  as_deleted_at :: "int option"

record hidden_agent =
  hd_tenant_id :: int
  hd_agent_id :: str
  hd_source_tenant_id :: int
  hd_created_at :: int

record kb_row =
  kb_id :: str
  kb_tenant_id :: int
  kb_creator_id :: "str option"
  kb_type :: str
  kb_deleted_at :: "int option"

record agent_row =
  ag_id :: str
  ag_tenant_id :: int
  ag_config :: "(str \<times> json) list"
  ag_deleted_at :: "int option"

record share_db =
  sd_orgs :: org_db
  sd_kbs :: "kb_row list"
  sd_agents :: "agent_row list"
  sd_kb_shares :: "kb_share list"
  sd_agent_shares :: "agent_share list"
  sd_hidden :: "hidden_agent list"

definition SHARE_PERMISSION_ADMIN :: str where "SHARE_PERMISSION_ADMIN = lit ''admin''"
definition SHARE_PERMISSION_EDITOR :: str where "SHARE_PERMISSION_EDITOR = lit ''editor''"
definition SHARE_PERMISSION_VIEWER :: str where "SHARE_PERMISSION_VIEWER = lit ''viewer''"
definition SHARE_PERMISSIONS :: "str list" where
  "SHARE_PERMISSIONS = [SHARE_PERMISSION_ADMIN, SHARE_PERMISSION_EDITOR, SHARE_PERMISSION_VIEWER]"

lemmas share_permission_defs = SHARE_PERMISSION_ADMIN_def SHARE_PERMISSION_EDITOR_def SHARE_PERMISSION_VIEWER_def

text \<open>Lookups of the tables that sharing reads by key only.\<close>

definition kb_by_id_and_tenant :: "str \<Rightarrow> int \<Rightarrow> share_db \<Rightarrow> kb_row option" where
  "kb_by_id_and_tenant kid tenant d = find (\<lambda>k. kb_id k = kid \<and> kb_tenant_id k = tenant \<and> kb_deleted_at k = None) (sd_kbs d)"

definition kbs_by_ids :: "str set \<Rightarrow> share_db \<Rightarrow> kb_row list" where
  "kbs_by_ids ids d = filter (\<lambda>k. kb_id k \<in> ids \<and> kb_deleted_at k = None) (sd_kbs d)"

definition agent_by_id_and_tenant :: "str \<Rightarrow> int \<Rightarrow> share_db \<Rightarrow> agent_row option" where
  "agent_by_id_and_tenant aid tenant d = find (\<lambda>a. ag_id a = aid \<and> ag_tenant_id a = tenant \<and> ag_deleted_at a = None) (sd_agents d)"

definition share_org :: "str \<Rightarrow> share_db \<Rightarrow> organization option" where "share_org oid d = org_get oid (sd_orgs d)"
definition share_member :: "str \<Rightarrow> int \<Rightarrow> share_db \<Rightarrow> tenant_member option" where "share_member oid tenant d = get_member oid tenant (sd_orgs d)"

subsection \<open>Shares of knowledge bases\<close>

definition live_kb_share :: "kb_share \<Rightarrow> bool" where "live_kb_share s = (ks_deleted_at s = None)"

definition same_kb_pair :: "kb_share \<Rightarrow> kb_share \<Rightarrow> bool" where
  "same_kb_pair s t \<longleftrightarrow> ks_knowledge_base_id s = ks_knowledge_base_id t \<and> ks_organization_id s = ks_organization_id t"

definition kb_share_create_or_none :: "kb_share \<Rightarrow> (share_db, kb_share option) db_op" where
  "kb_share_create_or_none row d =
     (if list_ex (\<lambda>s. ks_id s = ks_id row) (sd_kb_shares d) then (Inl BackendError, d)
      else if list_ex (\<lambda>s. live_kb_share s \<and> same_kb_pair s row) (sd_kb_shares d) then (Inr None, d)
      else (Inr (Some row), d\<lparr>sd_kb_shares := sd_kb_shares d @ [row]\<rparr>))"

definition kb_share_by_id :: "str \<Rightarrow> share_db \<Rightarrow> kb_share option" where
  "kb_share_by_id sid d = find (\<lambda>s. ks_id s = sid \<and> live_kb_share s) (sd_kb_shares d)"

definition set_kb_share_columns :: "kb_share \<Rightarrow> kb_share \<Rightarrow> kb_share" where
  "set_kb_share_columns new old =
     old\<lparr>ks_shared_by_user_id := ks_shared_by_user_id new, ks_permission := ks_permission new,
         ks_updated_at := ks_updated_at new, ks_deleted_at := ks_deleted_at new\<rparr>"

definition on_kb_share :: "str \<Rightarrow> (kb_share \<Rightarrow> kb_share) \<Rightarrow> share_db \<Rightarrow> share_db" where
  "on_kb_share sid f d = d\<lparr>sd_kb_shares := map (\<lambda>s. if ks_id s = sid \<and> live_kb_share s then f s else s) (sd_kb_shares d)\<rparr>"

definition kb_share_update :: "kb_share \<Rightarrow> (share_db, kb_share) db_op" where
  "kb_share_update row d =
     (case kb_share_by_id (ks_id row) d of
        None \<Rightarrow> (Inl (DataError (lit ''kb_share.update_no_row'')), d)
      | Some old \<Rightarrow> (Inr (set_kb_share_columns row old), on_kb_share (ks_id row) (set_kb_share_columns row) d))"

definition kb_share_soft_delete :: "str \<Rightarrow> int \<Rightarrow> share_db \<Rightarrow> share_db" where
  "kb_share_soft_delete sid now d = on_kb_share sid (\<lambda>s. s\<lparr>ks_deleted_at := Some now, ks_updated_at := now\<rparr>) d"

definition kb_share_by_kb_and_org :: "str \<Rightarrow> str \<Rightarrow> share_db \<Rightarrow> kb_share option" where
  "kb_share_by_kb_and_org kid oid d =
     find (\<lambda>s. ks_knowledge_base_id s = kid \<and> ks_organization_id s = oid \<and> live_kb_share s) (sd_kb_shares d)"

definition kb_share_order :: "kb_share \<Rightarrow> int \<times> str" where "kb_share_order s = (ks_created_at s, ks_id s)"

definition kb_shares_by_kb :: "str \<Rightarrow> share_db \<Rightarrow> kb_share list" where
  "kb_shares_by_kb kid d = newest_first kb_share_order (filter (\<lambda>s. ks_knowledge_base_id s = kid \<and> live_kb_share s) (sd_kb_shares d))"

definition kb_shares_by_org :: "str \<Rightarrow> share_db \<Rightarrow> kb_share list" where
  "kb_shares_by_org oid d = newest_first kb_share_order (filter (\<lambda>s. ks_organization_id s = oid \<and> live_kb_share s) (sd_kb_shares d))"

text \<open>The join over members, organizations and knowledge bases.\<close>

definition kb_shares_for_tenant :: "int \<Rightarrow> share_db \<Rightarrow> kb_share list" where
  "kb_shares_for_tenant tenant d = newest_first kb_share_order
     [s. s \<leftarrow> sd_kb_shares d, m \<leftarrow> od_members (sd_orgs d), g \<leftarrow> od_orgs (sd_orgs d), k \<leftarrow> sd_kbs d,
         mb_organization_id m = ks_organization_id s \<and> og_id g = ks_organization_id s \<and> live_org g \<and>
         kb_id k = ks_knowledge_base_id s \<and> kb_deleted_at k = None \<and> mb_tenant_id m = tenant \<and> live_kb_share s]"

subsection \<open>Shares of agents\<close>

definition live_agent_share :: "agent_share \<Rightarrow> bool" where "live_agent_share s = (as_deleted_at s = None)"

definition agent_share_create_or_none :: "agent_share \<Rightarrow> (share_db, agent_share option) db_op" where
  "agent_share_create_or_none row d =
     (if list_ex (\<lambda>s. as_id s = as_id row) (sd_agent_shares d) then (Inl BackendError, d)
      else if list_ex (\<lambda>s. live_agent_share s \<and> as_agent_id s = as_agent_id row \<and> as_source_tenant_id s = as_source_tenant_id row \<and>
          as_organization_id s = as_organization_id row) (sd_agent_shares d) then (Inr None, d)
      else (Inr (Some row), d\<lparr>sd_agent_shares := sd_agent_shares d @ [row]\<rparr>))"

definition agent_share_by_id :: "str \<Rightarrow> share_db \<Rightarrow> agent_share option" where
  "agent_share_by_id sid d = find (\<lambda>s. as_id s = sid \<and> live_agent_share s) (sd_agent_shares d)"

definition set_agent_share_columns :: "agent_share \<Rightarrow> agent_share \<Rightarrow> agent_share" where
  "set_agent_share_columns new old =
     old\<lparr>as_shared_by_user_id := as_shared_by_user_id new, as_permission := as_permission new,
         as_updated_at := as_updated_at new, as_deleted_at := as_deleted_at new\<rparr>"

definition on_agent_share :: "str \<Rightarrow> (agent_share \<Rightarrow> agent_share) \<Rightarrow> share_db \<Rightarrow> share_db" where
  "on_agent_share sid f d = d\<lparr>sd_agent_shares := map (\<lambda>s. if as_id s = sid \<and> live_agent_share s then f s else s) (sd_agent_shares d)\<rparr>"

definition agent_share_update :: "agent_share \<Rightarrow> (share_db, agent_share) db_op" where
  "agent_share_update row d =
     (case agent_share_by_id (as_id row) d of
        None \<Rightarrow> (Inl (DataError (lit ''agent_share.update_no_row'')), d)
      | Some old \<Rightarrow> (Inr (set_agent_share_columns row old), on_agent_share (as_id row) (set_agent_share_columns row) d))"

definition agent_share_soft_delete :: "str \<Rightarrow> int \<Rightarrow> share_db \<Rightarrow> share_db" where
  "agent_share_soft_delete sid now d = on_agent_share sid (\<lambda>s. s\<lparr>as_deleted_at := Some now, as_updated_at := now\<rparr>) d"

text \<open>The first row that matches, in the order of the table: the pair is not a key.\<close>

definition agent_share_by_agent_and_org :: "str \<Rightarrow> str \<Rightarrow> share_db \<Rightarrow> agent_share option" where
  "agent_share_by_agent_and_org aid oid d =
     find (\<lambda>s. as_agent_id s = aid \<and> as_organization_id s = oid \<and> live_agent_share s) (sd_agent_shares d)"

definition agent_share_order :: "agent_share \<Rightarrow> int \<times> str" where "agent_share_order s = (as_created_at s, as_id s)"

definition agent_shares_by_agent :: "str \<Rightarrow> share_db \<Rightarrow> agent_share list" where
  "agent_shares_by_agent aid d = newest_first agent_share_order (filter (\<lambda>s. as_agent_id s = aid \<and> live_agent_share s) (sd_agent_shares d))"

definition agent_shares_by_org :: "str \<Rightarrow> share_db \<Rightarrow> agent_share list" where
  "agent_shares_by_org oid d = newest_first agent_share_order (filter (\<lambda>s. as_organization_id s = oid \<and> live_agent_share s) (sd_agent_shares d))"

definition agent_shares_for_tenant :: "int \<Rightarrow> share_db \<Rightarrow> agent_share list" where
  "agent_shares_for_tenant tenant d = newest_first agent_share_order
     [s. s \<leftarrow> sd_agent_shares d, m \<leftarrow> od_members (sd_orgs d), g \<leftarrow> od_orgs (sd_orgs d), a \<leftarrow> sd_agents d,
         mb_organization_id m = as_organization_id s \<and> og_id g = as_organization_id s \<and> live_org g \<and>
         ag_id a = as_agent_id s \<and> ag_tenant_id a = as_source_tenant_id s \<and> ag_deleted_at a = None \<and>
         mb_tenant_id m = tenant \<and> live_agent_share s]"

text \<open>\<open>order by id limit 1\<close>; organizations are not joined.\<close>

definition agent_share_for_tenant :: "int \<Rightarrow> str \<Rightarrow> int \<Rightarrow> share_db \<Rightarrow> agent_share option" where
  "agent_share_for_tenant tenant aid excluded d =
     (case sort_key as_id [s. s \<leftarrow> sd_agent_shares d, m \<leftarrow> od_members (sd_orgs d),
         mb_organization_id m = as_organization_id s \<and> mb_tenant_id m = tenant \<and> as_agent_id s = aid \<and>
         as_source_tenant_id s \<noteq> excluded \<and> live_agent_share s] of
        [] \<Rightarrow> None | s # _ \<Rightarrow> Some s)"

subsection \<open>Hidden agents\<close>

definition is_hidden_row :: "int \<Rightarrow> str \<Rightarrow> int \<Rightarrow> hidden_agent \<Rightarrow> bool" where
  "is_hidden_row tenant aid source h \<longleftrightarrow> hd_tenant_id h = tenant \<and> hd_agent_id h = aid \<and> hd_source_tenant_id h = source"

definition hidden_by_tenant :: "int \<Rightarrow> share_db \<Rightarrow> hidden_agent list" where
  "hidden_by_tenant tenant d = sort_key hd_created_at (filter (\<lambda>h. hd_tenant_id h = tenant) (sd_hidden d))"

definition hide_agent :: "int \<Rightarrow> str \<Rightarrow> int \<Rightarrow> int \<Rightarrow> share_db \<Rightarrow> share_db" where
  "hide_agent tenant aid source now d =
     (if list_ex (is_hidden_row tenant aid source) (sd_hidden d) then d
      else d\<lparr>sd_hidden := sd_hidden d @ [\<lparr>hd_tenant_id = tenant, hd_agent_id = aid, hd_source_tenant_id = source, hd_created_at = now\<rparr>]\<rparr>)"

definition show_agent :: "int \<Rightarrow> str \<Rightarrow> int \<Rightarrow> share_db \<Rightarrow> share_db" where
  "show_agent tenant aid source d = d\<lparr>sd_hidden := filter (\<lambda>h. \<not> is_hidden_row tenant aid source h) (sd_hidden d)\<rparr>"

end
