(* ===== verification/Share_Service.thy ===== *)
theory Share_Service
  imports Share_Store
begin

text \<open>
  The services of sharing: knowledge-base shares (src/src/core/sharing/kb_share_service.py), agent shares
  (src/src/core/sharing/agent_share_service.py) and the view of what is shared with a tenant
  (src/src/core/organizations/service/shared_resource_service.py).
\<close>

subsection \<open>Shares of knowledge bases\<close>

definition kb_not_found :: app_error where "kb_not_found = NotFoundError (lit ''knowledge_base.not_found'')"
definition kb_share_not_found :: app_error where "kb_share_not_found = NotFoundError (lit ''kb_share.not_found'')"

text \<open>A share with the caller's role in its organization and the effective permission, when it has one.\<close>

record kb_share_info =
  ki_share :: kb_share
  ki_my_role_in_org :: "str option"
  ki_my_permission :: "str option"

definition kb_share_info_of :: "kb_share \<Rightarrow> kb_share_info" where
  "kb_share_info_of s = \<lparr>ki_share = s\<lparr>ks_deleted_at := None\<rparr>, ki_my_role_in_org = None, ki_my_permission = None\<rparr>"

definition min_grant :: "str \<Rightarrow> str \<Rightarrow> str" where
  "min_grant left right = (if has_org_permission left right then right else left)"

definition project_share :: "kb_share \<Rightarrow> str option \<Rightarrow> str \<Rightarrow> kb_share_info" where
  "project_share row org_role t_role =
     (case org_role of
        None \<Rightarrow> kb_share_info_of row
      | Some role \<Rightarrow>
          if role = [] then kb_share_info_of row
          else let effective = min_grant (ks_permission row) role;
                   capped = (if t_role = ROLE_VIEWER then min_grant effective ORG_ROLE_VIEWER else effective)
               in (kb_share_info_of row)\<lparr>ki_my_role_in_org := Some role, ki_my_permission := Some capped\<rparr>)"

definition require_permission :: "str \<Rightarrow> ('d, unit) db_op" where
  "require_permission permission = requires (permission \<in> set SHARE_PERMISSIONS) (ValidationError (lit ''kb_share.invalid_permission''))"

definition may_mutate_kb :: "kb_row \<Rightarrow> str \<Rightarrow> str \<Rightarrow> bool" where
  "may_mutate_kb k user t_role \<longleftrightarrow>
     (case kb_creator_id k of None \<Rightarrow> False | Some c \<Rightarrow> c \<noteq> [] \<and> c = user) \<or> has_permission t_role ROLE_ADMIN"

definition authorize_mutate_kb :: "kb_row \<Rightarrow> str \<Rightarrow> str \<Rightarrow> ('d, unit) db_op" where
  "authorize_mutate_kb k user t_role =
     requires (may_mutate_kb k user t_role) (PermissionDeniedError (lit ''kb_share.permission_denied''))"

definition authorize_manage :: "kb_share \<Rightarrow> kb_row \<Rightarrow> str \<Rightarrow> str \<Rightarrow> ('d, unit) db_op" where
  "authorize_manage s k user t_role =
     (if ks_shared_by_user_id s = user then yields () else authorize_mutate_kb k user t_role)"

definition owned_kb :: "str \<Rightarrow> int \<Rightarrow> (share_db, kb_row) db_op" where
  "owned_kb kid tenant = found_or kb_not_found (kb_by_id_and_tenant kid tenant)"

definition live_share :: "str \<Rightarrow> (share_db, kb_share) db_op" where
  "live_share sid = found_or kb_share_not_found (kb_share_by_id sid)"

definition manageable_share :: "str \<Rightarrow> str \<Rightarrow> str \<Rightarrow> int \<Rightarrow> str \<Rightarrow> (share_db, kb_share) db_op" where
  "manageable_share kid sid user tenant t_role =
     chain (live_share sid) (\<lambda>s.
     chain (requires (ks_knowledge_base_id s = kid) kb_share_not_found) (\<lambda>_.
     chain (owned_kb kid tenant) (\<lambda>k.
     chain (authorize_manage s k user t_role) (\<lambda>_. yields s))))"

definition source_tenant_in_org :: "str \<Rightarrow> int \<Rightarrow> (share_db, str) db_op" where
  "source_tenant_in_org oid tenant =
     chain (found_or org_not_found (share_org oid)) (\<lambda>_.
     chain (found_or (PermissionDeniedError (lit ''kb_share.tenant_not_in_org'')) (share_member oid tenant)) (\<lambda>m. yields (mb_role m)))"

definition require_org_member :: "str \<Rightarrow> int \<Rightarrow> (share_db, str) db_op" where
  "require_org_member oid tenant =
     chain (found_or org_not_found (share_org oid)) (\<lambda>_.
     chain (found_or not_a_member (share_member oid tenant)) (\<lambda>m. yields (mb_role m)))"

definition can_access_knowledge_base :: "int \<Rightarrow> int \<Rightarrow> str \<Rightarrow> share_db \<Rightarrow> bool" where
  "can_access_knowledge_base tenant owner kid d \<longleftrightarrow>
     tenant = owner \<or> list_ex (\<lambda>s. ks_knowledge_base_id s = kid) (kb_shares_for_tenant tenant d)"

definition get_kb_share :: "str \<Rightarrow> (share_db, kb_share_info) db_op" where
  "get_kb_share sid = chain (live_share sid) (\<lambda>s. yields (kb_share_info_of s))"

definition get_share_by_kb_and_org :: "str \<Rightarrow> str \<Rightarrow> (share_db, kb_share_info) db_op" where
  "get_share_by_kb_and_org kid oid =
     chain (found_or kb_share_not_found (kb_share_by_kb_and_org kid oid)) (\<lambda>s. yields (kb_share_info_of s))"

definition list_shares_by_knowledge_base :: "str \<Rightarrow> int \<Rightarrow> str \<Rightarrow> (share_db, kb_share_info list) db_op" where
  "list_shares_by_knowledge_base kid tenant t_role =
     chain (owned_kb kid tenant) (\<lambda>_.
     reads (\<lambda>d. map (\<lambda>s. project_share s (map_option mb_role (share_member (ks_organization_id s) tenant d)) t_role) (kb_shares_by_kb kid d)))"

definition list_shares_by_organization :: "str \<Rightarrow> int \<Rightarrow> str \<Rightarrow> (share_db, kb_share_info list) db_op" where
  "list_shares_by_organization oid tenant t_role =
     chain (require_org_member oid tenant) (\<lambda>role. reads (\<lambda>d. map (\<lambda>s. project_share s (Some role) t_role) (kb_shares_by_org oid d)))"

definition upgrade_duplicate :: "str \<Rightarrow> str \<Rightarrow> str \<Rightarrow> str \<Rightarrow> str \<Rightarrow> int \<Rightarrow> (share_db, kb_share_info) db_op" where
  "upgrade_duplicate kid oid permission org_role t_role now =
     chain (found_or kb_share_not_found (kb_share_by_kb_and_org kid oid)) (\<lambda>existing.
     chain (kb_share_update (existing\<lparr>ks_permission := permission, ks_updated_at := now\<rparr>)) (\<lambda>updated.
     yields (project_share updated (Some org_role) t_role)))"

definition share_knowledge_base ::
  "str \<Rightarrow> str \<Rightarrow> str \<Rightarrow> int \<Rightarrow> str \<Rightarrow> str \<Rightarrow> int \<Rightarrow> str \<Rightarrow> (share_db, kb_share_info) db_op" where
  "share_knowledge_base kid oid user tenant t_role permission now sid =
     chain (require_permission permission) (\<lambda>_.
     chain (owned_kb kid tenant) (\<lambda>k.
     chain (authorize_mutate_kb k user t_role) (\<lambda>_.
     chain (source_tenant_in_org oid tenant) (\<lambda>org_role.
     chain (kb_share_create_or_none \<lparr>ks_id = sid, ks_knowledge_base_id = kid, ks_organization_id = oid, ks_shared_by_user_id = user,
         ks_source_tenant_id = tenant, ks_permission = permission, ks_created_at = now, ks_updated_at = now, ks_deleted_at = None\<rparr>) (\<lambda>created.
     (case created of
        Some row \<Rightarrow> yields (project_share row (Some org_role) t_role)
      | None \<Rightarrow> upgrade_duplicate kid oid permission org_role t_role now))))))"

definition update_share_permission :: "str \<Rightarrow> str \<Rightarrow> str \<Rightarrow> str \<Rightarrow> int \<Rightarrow> str \<Rightarrow> int \<Rightarrow> (share_db, unit) db_op" where
  "update_share_permission kid sid permission user tenant t_role now =
     chain (require_permission permission) (\<lambda>_.
     chain (manageable_share kid sid user tenant t_role) (\<lambda>s.
     chain (kb_share_update (s\<lparr>ks_permission := permission, ks_updated_at := now\<rparr>)) (\<lambda>_. yields ())))"

definition remove_share :: "str \<Rightarrow> str \<Rightarrow> str \<Rightarrow> int \<Rightarrow> str \<Rightarrow> int \<Rightarrow> (share_db, unit) db_op" where
  "remove_share kid sid user tenant t_role now =
     chain (manageable_share kid sid user tenant t_role) (\<lambda>_ d. (Inr (), kb_share_soft_delete sid now d))"

subsection \<open>Shares of agents\<close>

definition agent_not_found :: app_error where "agent_not_found = NotFoundError (lit ''agent.not_found'')"
definition agent_share_not_found :: app_error where "agent_share_not_found = NotFoundError (lit ''agent_share.not_found'')"

definition agent_share_info_of :: "agent_share \<Rightarrow> agent_share" where "agent_share_info_of s = s\<lparr>as_deleted_at := None\<rparr>"

definition config_value :: "agent_row \<Rightarrow> str \<Rightarrow> json" where
  "config_value a key = (case map_of (ag_config a) key of None \<Rightarrow> JNull | Some v \<Rightarrow> v)"

definition share_agent :: "str \<Rightarrow> str \<Rightarrow> str \<Rightarrow> int \<Rightarrow> str \<Rightarrow> int \<Rightarrow> str \<Rightarrow> (share_db, agent_share) db_op" where
  "share_agent aid oid user tenant permission now sid =
     chain (found_or agent_not_found (agent_by_id_and_tenant aid tenant)) (\<lambda>a.
     chain (requires (ag_tenant_id a = tenant) (PermissionDeniedError (lit ''agent_share.not_owner''))) (\<lambda>_.
     chain (requires (truthy (config_value a (lit ''model_id''))) (ValidationError (lit ''agent_share.agent_not_configured''))) (\<lambda>_.
     chain (found_or org_not_found (share_org oid)) (\<lambda>_.
     chain (found_or (PermissionDeniedError (lit ''agent_share.tenant_not_in_org'')) (share_member oid tenant)) (\<lambda>m.
     chain (requires (has_org_permission (mb_role m) ORG_ROLE_EDITOR) (PermissionDeniedError (lit ''agent_share.org_role_cannot_share''))) (\<lambda>_.
     chain (agent_share_create_or_none \<lparr>as_id = sid, as_agent_id = aid, as_organization_id = oid, as_shared_by_user_id = user,
         as_source_tenant_id = tenant, as_permission = SHARE_PERMISSION_VIEWER, as_created_at = now, as_updated_at = now,
         as_deleted_at = None\<rparr>) (\<lambda>created.
     (case created of
        Some row \<Rightarrow> yields (agent_share_info_of row)
      | None \<Rightarrow>
          chain (found_or agent_share_not_found (agent_share_by_agent_and_org aid oid)) (\<lambda>existing.
          chain (agent_share_update (existing\<lparr>as_permission := SHARE_PERMISSION_VIEWER, as_updated_at := now\<rparr>)) (\<lambda>updated.
          yields (agent_share_info_of updated)))))))))))"

definition may_manage_agent_share :: "agent_share \<Rightarrow> str \<Rightarrow> int \<Rightarrow> str \<Rightarrow> share_db \<Rightarrow> bool" where
  "may_manage_agent_share s user tenant t_role d \<longleftrightarrow>
     as_shared_by_user_id s = user \<or>
     (tenant \<noteq> 0 \<and> tenant = as_source_tenant_id s \<and> t_role = ROLE_ADMIN) \<or>
     (case share_member (as_organization_id s) tenant d of None \<Rightarrow> False | Some m \<Rightarrow> mb_role m = ORG_ROLE_ADMIN)"

definition authorize_manage_agent_share :: "agent_share \<Rightarrow> str \<Rightarrow> int \<Rightarrow> str \<Rightarrow> (share_db, unit) db_op" where
  "authorize_manage_agent_share s user tenant t_role d =
     requires (may_manage_agent_share s user tenant t_role d) (PermissionDeniedError (lit ''agent_share.permission_denied'')) d"

definition update_agent_share_permission :: "str \<Rightarrow> str \<Rightarrow> str \<Rightarrow> int \<Rightarrow> str \<Rightarrow> int \<Rightarrow> (share_db, unit) db_op" where
  "update_agent_share_permission sid permission user tenant t_role now =
     chain (found_or agent_share_not_found (agent_share_by_id sid)) (\<lambda>s.
     chain (authorize_manage_agent_share s user tenant t_role) (\<lambda>_.
     chain (agent_share_update (s\<lparr>as_permission := SHARE_PERMISSION_VIEWER, as_updated_at := now\<rparr>)) (\<lambda>_. yields ())))"

definition remove_agent_share :: "str \<Rightarrow> str \<Rightarrow> int \<Rightarrow> str \<Rightarrow> int \<Rightarrow> (share_db, unit) db_op" where
  "remove_agent_share sid user tenant t_role now =
     chain (found_or agent_share_not_found (agent_share_by_id sid)) (\<lambda>s.
     chain (authorize_manage_agent_share s user tenant t_role) (\<lambda>_ d. (Inr (), agent_share_soft_delete sid now d)))"

definition get_agent_share :: "str \<Rightarrow> (share_db, agent_share) db_op" where
  "get_agent_share sid = chain (found_or agent_share_not_found (agent_share_by_id sid)) (\<lambda>s. yields (agent_share_info_of s))"

definition get_share_by_agent_and_org :: "str \<Rightarrow> str \<Rightarrow> (share_db, agent_share) db_op" where
  "get_share_by_agent_and_org aid oid =
     chain (found_or agent_share_not_found (agent_share_by_agent_and_org aid oid)) (\<lambda>s. yields (agent_share_info_of s))"

definition list_shares_by_agent :: "str \<Rightarrow> (share_db, agent_share list) db_op" where
  "list_shares_by_agent aid = reads (\<lambda>d. map agent_share_info_of (agent_shares_by_agent aid d))"

definition list_agent_shares_by_organization :: "str \<Rightarrow> (share_db, agent_share list) db_op" where
  "list_agent_shares_by_organization oid = reads (\<lambda>d. map agent_share_info_of (agent_shares_by_org oid d))"

subsection \<open>What is shared with a tenant\<close>

text \<open>What the listing asks of other tables: counts (\<open>None\<close> when the query fails), names of live users,
  web-search providers, and Python's \<open>str\<close> of a JSON value.\<close>

record share_env =
  se_documents :: "int \<Rightarrow> str \<Rightarrow> nat option"
  se_chunks :: "int \<Rightarrow> str \<Rightarrow> nat option"
  se_username :: "str \<Rightarrow> str option"
  se_provider :: "int \<Rightarrow> str \<Rightarrow> bool"
  se_default_provider :: "int \<Rightarrow> bool"
  se_str :: "json \<Rightarrow> str"

record shared_kb =
  si_kb :: kb_row
  si_knowledge_count :: nat
  si_chunk_count :: nat
  si_share_id :: str
  si_organization_id :: str
  si_org_name :: str
  si_permission :: str
  si_source_tenant_id :: int
  si_shared_at :: int
  si_is_mine :: bool

record shared_agent =
  sa_agent :: agent_row
  sa_share_id :: str
  sa_organization_id :: str
  sa_org_name :: str
  sa_permission :: str
  sa_source_tenant_id :: int
  sa_shared_at :: int
  sa_shared_by_user_id :: str
  sa_shared_by_username :: str
  sa_web_search_ready :: bool
  sa_disabled_by_me :: bool

definition min_org_role :: "str \<Rightarrow> str \<Rightarrow> str" where
  "min_org_role left right =
     (if left = [] then right else if right = [] then left else if has_org_permission left right then right else left)"

definition apply_tenant_role_cap :: "str \<Rightarrow> str \<Rightarrow> str" where
  "apply_tenant_role_cap permission caller_role =
     (if caller_role = ROLE_VIEWER \<and> has_org_permission permission ORG_ROLE_EDITOR then ORG_ROLE_VIEWER else permission)"

definition KNOWLEDGE_BASE_TYPE_DOCUMENT :: str where "KNOWLEDGE_BASE_TYPE_DOCUMENT = lit ''document''"
definition KNOWLEDGE_BASE_TYPE_FAQ :: str where "KNOWLEDGE_BASE_TYPE_FAQ = lit ''faq''"

text \<open>The counts of documents and of chunks.\<close>

definition fill_kb_counts :: "share_env \<Rightarrow> kb_row \<Rightarrow> int \<Rightarrow> nat \<times> nat" where
  "fill_kb_counts env k source =
     (if kb_type k = KNOWLEDGE_BASE_TYPE_DOCUMENT then (case se_documents env source (kb_id k) of None \<Rightarrow> (0, 0) | Some n \<Rightarrow> (n, 0))
      else if kb_type k = KNOWLEDGE_BASE_TYPE_FAQ then (case se_chunks env source (kb_id k) of None \<Rightarrow> (0, 0) | Some n \<Rightarrow> (0, n))
      else (0, 0))"

definition role_of :: "str \<Rightarrow> int \<Rightarrow> share_db \<Rightarrow> str option" where
  "role_of oid tenant d = map_option mb_role (share_member oid tenant d)"

definition org_name :: "str \<Rightarrow> share_db \<Rightarrow> str" where
  "org_name oid d = (case share_org oid d of None \<Rightarrow> [] | Some g \<Rightarrow> og_name g)"

definition effective_permission :: "str \<Rightarrow> str \<Rightarrow> str \<Rightarrow> str" where
  "effective_permission grant role caller_role = apply_tenant_role_cap (min_org_role grant role) caller_role"

definition shared_kb_row :: "share_env \<Rightarrow> kb_share \<Rightarrow> kb_row \<Rightarrow> str \<Rightarrow> str \<Rightarrow> bool \<Rightarrow> shared_kb" where
  "shared_kb_row env s k name permission is_mine =
     \<lparr>si_kb = k, si_knowledge_count = fst (fill_kb_counts env k (ks_source_tenant_id s)),
      si_chunk_count = snd (fill_kb_counts env k (ks_source_tenant_id s)), si_share_id = ks_id s,
      si_organization_id = ks_organization_id s, si_org_name = name, si_permission = permission,
      si_source_tenant_id = ks_source_tenant_id s, si_shared_at = ks_created_at s, si_is_mine = is_mine\<rparr>"

text \<open>The first row of a resource keeps its place; a stronger one replaces it there.\<close>

definition keep_strongest :: "('r \<Rightarrow> str) \<Rightarrow> 'k \<Rightarrow> 'r \<Rightarrow> ('k \<times> 'r) list \<Rightarrow> ('k \<times> 'r) list" where
  "keep_strongest permission key info acc =
     (case map_of acc key of
        None \<Rightarrow> AList.update key info acc
      | Some existing \<Rightarrow>
          if has_org_permission (permission info) (permission existing) \<and> permission info \<noteq> permission existing
          then AList.update key info acc else acc)"

definition visible_kb :: "share_env \<Rightarrow> int \<Rightarrow> str \<Rightarrow> share_db \<Rightarrow> kb_share \<Rightarrow> (str \<times> shared_kb) option" where
  "visible_kb env tenant caller_role d s =
     (if ks_source_tenant_id s = tenant then None
      else case find (\<lambda>k. kb_id k = ks_knowledge_base_id s \<and> kb_deleted_at k = None) (sd_kbs d) of
          None \<Rightarrow> None
        | Some k \<Rightarrow>
            (case role_of (ks_organization_id s) tenant d of
               None \<Rightarrow> None
             | Some role \<Rightarrow> Some (kb_id k, shared_kb_row env s k (org_name (ks_organization_id s) d)
                 (effective_permission (ks_permission s) role caller_role) False)))"

definition list_shared_knowledge_bases :: "share_env \<Rightarrow> int \<Rightarrow> str \<Rightarrow> (share_db, shared_kb list) db_op" where
  "list_shared_knowledge_bases env tenant caller_role = reads (\<lambda>d.
     map snd (fold (\<lambda>s acc. case visible_kb env tenant caller_role d s of None \<Rightarrow> acc
         | Some (key, info) \<Rightarrow> keep_strongest si_permission key info acc) (kb_shares_for_tenant tenant d) []))"

definition organization_shared_kb :: "share_env \<Rightarrow> organization \<Rightarrow> int \<Rightarrow> str \<Rightarrow> str \<Rightarrow> kb_share \<Rightarrow> kb_row \<Rightarrow> shared_kb" where
  "organization_shared_kb env g tenant role caller_role s k =
     (let is_mine = (ks_source_tenant_id s = tenant);
          permission = (if is_mine then ks_permission s else effective_permission (ks_permission s) role caller_role)
      in shared_kb_row env s k (og_name g) permission is_mine)"

definition list_organization_shared_knowledge_bases :: "share_env \<Rightarrow> str \<Rightarrow> int \<Rightarrow> str \<Rightarrow> (share_db, shared_kb list) db_op" where
  "list_organization_shared_knowledge_bases env oid tenant caller_role =
     chain (found_or org_not_found (share_org oid)) (\<lambda>g.
     chain (found_or not_a_member (share_member oid tenant)) (\<lambda>m.
     reads (\<lambda>d. List.map_filter (\<lambda>s.
        map_option (organization_shared_kb env g tenant (mb_role m) caller_role s)
          (find (\<lambda>k. kb_id k = ks_knowledge_base_id s \<and> kb_deleted_at k = None) (sd_kbs d))) (kb_shares_by_org oid d))))"

definition shared_by_username :: "share_env \<Rightarrow> str \<Rightarrow> (share_db, str) db_op" where
  "shared_by_username env user =
     (if user = [] then yields []
      else (case se_username env user of None \<Rightarrow> raises (NotFoundError (lit ''resource.not_found'')) | Some name \<Rightarrow> yields name))"

definition agent_web_search_ready :: "share_env \<Rightarrow> agent_row \<Rightarrow> int \<Rightarrow> bool" where
  "agent_web_search_ready env a source =
     (let provider = config_value a (lit ''web_search_provider_id'');
          provider_id = (if \<not> truthy provider then [] else case provider of JStr s \<Rightarrow> s | v \<Rightarrow> se_str env v)
      in truthy (config_value a (lit ''web_search_enabled'')) \<and>
         (if provider_id \<noteq> [] then se_provider env source provider_id else se_default_provider env source))"

definition visible_agent :: "int \<Rightarrow> share_db \<Rightarrow> agent_share \<Rightarrow> (agent_row \<times> str) option" where
  "visible_agent tenant d s =
     (if as_source_tenant_id s = tenant then None
      else case agent_by_id_and_tenant (as_agent_id s) (as_source_tenant_id s) d of
          None \<Rightarrow> None
        | Some a \<Rightarrow> map_option (\<lambda>role. (a, role)) (role_of (as_organization_id s) tenant d))"

definition shared_agent_row :: "share_env \<Rightarrow> agent_share \<Rightarrow> agent_row \<Rightarrow> str \<Rightarrow> str \<Rightarrow> str \<Rightarrow> shared_agent" where
  "shared_agent_row env s a name permission username =
     \<lparr>sa_agent = a, sa_share_id = as_id s, sa_organization_id = as_organization_id s, sa_org_name = name, sa_permission = permission,
      sa_source_tenant_id = as_source_tenant_id s, sa_shared_at = as_created_at s, sa_shared_by_user_id = as_shared_by_user_id s,
      sa_shared_by_username = username, sa_web_search_ready = agent_web_search_ready env a (as_source_tenant_id s),
      sa_disabled_by_me = False\<rparr>"

fun collect_agents :: "share_env \<Rightarrow> int \<Rightarrow> str \<Rightarrow> agent_share list \<Rightarrow> ((str \<times> int) \<times> shared_agent) list \<Rightarrow>
    (share_db, ((str \<times> int) \<times> shared_agent) list) db_op" where
  "collect_agents env tenant caller_role [] acc d = (Inr acc, d)"
| "collect_agents env tenant caller_role (s # ss) acc d =
     (case visible_agent tenant d s of
        None \<Rightarrow> collect_agents env tenant caller_role ss acc d
      | Some (a, role) \<Rightarrow>
          chain (shared_by_username env (as_shared_by_user_id s)) (\<lambda>username.
          collect_agents env tenant caller_role ss (keep_strongest sa_permission (as_agent_id s, as_source_tenant_id s)
            (shared_agent_row env s a (org_name (as_organization_id s) d)
               (effective_permission (as_permission s) role caller_role) username) acc)) d)"

definition disabled_keys :: "int \<Rightarrow> share_db \<Rightarrow> (str \<times> int) set" where
  "disabled_keys tenant d = set (map (\<lambda>h. (hd_agent_id h, hd_source_tenant_id h)) (hidden_by_tenant tenant d))"

definition list_shared_agents :: "share_env \<Rightarrow> int \<Rightarrow> str \<Rightarrow> (share_db, shared_agent list) db_op" where
  "list_shared_agents env tenant caller_role =
     chain (reads (agent_shares_for_tenant tenant)) (\<lambda>shares.
     chain (collect_agents env tenant caller_role shares []) (\<lambda>by_agent.
     reads (\<lambda>d. map (\<lambda>info. info\<lparr>sa_disabled_by_me := (ag_id (sa_agent info), sa_source_tenant_id info) \<in> disabled_keys tenant d\<rparr>)
       (map snd by_agent))))"

subsection \<open>Hiding\<close>

definition resolve_source_tenant :: "int \<Rightarrow> str \<Rightarrow> (share_db, int) db_op" where
  "resolve_source_tenant tenant aid d =
     (if agent_by_id_and_tenant aid tenant d \<noteq> None then (Inr tenant, d)
      else case agent_share_for_tenant tenant aid tenant d of
          None \<Rightarrow> (Inl (PermissionDeniedError (lit ''shared_agent.no_access'')), d)
        | Some s \<Rightarrow> (Inr (as_source_tenant_id s), d))"

definition set_shared_agent_disabled_by_me :: "int \<Rightarrow> str \<Rightarrow> bool \<Rightarrow> int \<Rightarrow> (share_db, unit) db_op" where
  "set_shared_agent_disabled_by_me tenant aid disabled now =
     chain (resolve_source_tenant tenant aid) (\<lambda>source d.
     (Inr (), if disabled then hide_agent tenant aid source now d else show_agent tenant aid source d))"

subsection \<open>Runs\<close>

text \<open>Calls that write shares, calls of the organization service, and changes of the other tables, which keep the ids of
  live knowledge bases distinct.\<close>

inductive share_step :: "share_db \<Rightarrow> share_db \<Rightarrow> bool" where
  kb_shared: "share_step d (snd (share_knowledge_base kid oid user tenant t_role permission now sid d))"
| kb_updated: "share_step d (snd (update_share_permission kid sid permission user tenant t_role now d))"
| kb_removed: "share_step d (snd (remove_share kid sid user tenant t_role now d))"
| agent_shared: "share_step d (snd (share_agent aid oid user tenant permission now sid d))"
| agent_updated: "share_step d (snd (update_agent_share_permission sid permission user tenant t_role now d))"
| agent_removed: "share_step d (snd (remove_agent_share sid user tenant t_role now d))"
| hid: "share_step d (snd (set_shared_agent_disabled_by_me tenant aid disabled now d))"
| org_called: "org_step (sd_orgs d) o1 \<Longrightarrow> share_step d (d\<lparr>sd_orgs := o1\<rparr>)"
| kbs_changed: "distinct (map kb_id ks) \<Longrightarrow> share_step d (d\<lparr>sd_kbs := ks\<rparr>)"
| agents_changed: "distinct (map (\<lambda>a. (ag_id a, ag_tenant_id a)) ags) \<Longrightarrow> share_step d (d\<lparr>sd_agents := ags\<rparr>)"

inductive share_reachable :: "share_db \<Rightarrow> bool" where
  start: "share_reachable \<lparr>sd_orgs = \<lparr>od_orgs = [], od_members = [], od_requests = []\<rparr>, sd_kbs = [], sd_agents = [],
    sd_kb_shares = [], sd_agent_shares = [], sd_hidden = []\<rparr>"
| step: "share_reachable d \<Longrightarrow> share_step d e \<Longrightarrow> share_reachable e"

end
