(* ===== verification/Share_Laws.thy ===== *)
theory Share_Laws
  imports Share_Service Org_Laws
begin

text \<open>
  Laws of sharing: who is granted what, the caps on a permission, the listing that keeps the strongest
  row, and the invariant of the share tables with what every call keeps of it.
\<close>

subsection \<open>Grants\<close>

definition granted :: "int \<Rightarrow> str \<Rightarrow> str \<Rightarrow> share_db \<Rightarrow> bool" where
  "granted tenant kid oid d \<longleftrightarrow>
     (\<exists>s \<in> set (sd_kb_shares d). live_kb_share s \<and> ks_knowledge_base_id s = kid \<and> ks_organization_id s = oid) \<and>
     (\<exists>m \<in> set (od_members (sd_orgs d)). is_membership oid tenant m) \<and>
     (\<exists>g \<in> set (od_orgs (sd_orgs d)). og_id g = oid \<and> live_org g) \<and>
     (\<exists>k \<in> set (sd_kbs d). kb_id k = kid \<and> kb_deleted_at k = None)"

lemma newest_first_set [simp]: "set (newest_first key rows) = set rows"
  by (simp add: newest_first_def)

lemma kb_shares_for_tenant_set: "s \<in> set (kb_shares_for_tenant tenant d) \<longleftrightarrow>
    s \<in> set (sd_kb_shares d) \<and> live_kb_share s \<and> granted tenant (ks_knowledge_base_id s) (ks_organization_id s) d"
  by (auto simp: kb_shares_for_tenant_def granted_def is_membership_def)

lemma agent_shares_for_tenant_set: "s \<in> set (agent_shares_for_tenant tenant d) \<longleftrightarrow>
    s \<in> set (sd_agent_shares d) \<and> live_agent_share s \<and>
    (\<exists>m \<in> set (od_members (sd_orgs d)). is_membership (as_organization_id s) tenant m) \<and>
    (\<exists>g \<in> set (od_orgs (sd_orgs d)). og_id g = as_organization_id s \<and> live_org g) \<and>
    (\<exists>a \<in> set (sd_agents d). ag_id a = as_agent_id s \<and> ag_tenant_id a = as_source_tenant_id s \<and> ag_deleted_at a = None)"
  by (auto simp: agent_shares_for_tenant_def is_membership_def)

lemma granted_orgs: "granted tenant kid oid (d\<lparr>sd_orgs := o1\<rparr>) \<longleftrightarrow>
    (\<exists>s \<in> set (sd_kb_shares d). live_kb_share s \<and> ks_knowledge_base_id s = kid \<and> ks_organization_id s = oid) \<and>
    (\<exists>m \<in> set (od_members o1). is_membership oid tenant m) \<and> (\<exists>g \<in> set (od_orgs o1). og_id g = oid \<and> live_org g) \<and>
    (\<exists>k \<in> set (sd_kbs d). kb_id k = kid \<and> kb_deleted_at k = None)"
  by (simp add: granted_def)

lemma granted_removed: "granted t kid oid (d\<lparr>sd_orgs := remove_member o1 tenant (sd_orgs d)\<rparr>) \<longleftrightarrow>
    granted t kid oid d \<and> (o1, tenant) \<noteq> (oid, t)"
  unfolding granted_orgs by (auto simp: granted_def remove_member_def is_membership_def)

lemma granted_closed: "granted t kid oid (d\<lparr>sd_orgs := org_soft_delete o1 now (sd_orgs d)\<rparr>) \<longleftrightarrow> granted t kid oid d \<and> o1 \<noteq> oid"
proof -
  have "(\<exists>g \<in> set (od_orgs (org_soft_delete o1 now c)). og_id g = oid \<and> live_org g) \<longleftrightarrow>
      o1 \<noteq> oid \<and> (\<exists>g \<in> set (od_orgs c). og_id g = oid \<and> live_org g)" for c
  proof -
    define f where "f g = (if og_id g = o1 \<and> live_org g then g\<lparr>og_deleted_at := Some now, og_updated_at := now\<rparr> else g)" for g :: organization
    have o: "od_orgs (org_soft_delete o1 now c) = map f (od_orgs c)" by (simp add: org_soft_delete_def on_live_org_def f_def [abs_def])
    have f: "(og_id (f g) = oid \<and> live_org (f g)) = (o1 \<noteq> oid \<and> og_id g = oid \<and> live_org g)" for g
      by (auto simp: f_def live_org_def)
    show ?thesis unfolding o by (simp add: f)
  qed
  moreover have "od_members (org_soft_delete o1 now c) = od_members c" for c by (simp add: org_soft_delete_def on_live_org_def)
  ultimately show ?thesis unfolding granted_orgs by (auto simp: granted_def)
qed

lemma access_by_grant: "can_access_knowledge_base tenant owner kid d \<longleftrightarrow> tenant = owner \<or> (\<exists>oid. granted tenant kid oid d)"
proof -
  have "(\<exists>s \<in> set (kb_shares_for_tenant tenant d). ks_knowledge_base_id s = kid) \<longleftrightarrow> (\<exists>oid. granted tenant kid oid d)"
    unfolding Bex_def kb_shares_for_tenant_set by (auto simp: granted_def)
  then show ?thesis by (simp add: can_access_knowledge_base_def list_ex_iff)
qed

subsection \<open>Caps\<close>

lemma org_level_le: "org_role_level r \<le> 3"
  by (simp add: org_role_level_def)

lemma viewer_cap: "org_role_level (effective_permission grant role ROLE_VIEWER) \<le> 1"
  by (auto simp: effective_permission_def apply_tenant_role_cap_def has_org_permission_def org_role_level_def)

lemma valid_not_empty: "is_valid_org_role r \<Longrightarrow> r \<noteq> []"
  by (auto simp: is_valid_org_role_def org_role_defs lit_def)

lemma effective_level:
  assumes "is_valid_org_role grant" "is_valid_org_role role"
  shows "org_role_level (effective_permission grant role caller) =
      min (min (org_role_level grant) (org_role_level role)) (if caller = ROLE_VIEWER then 1 else 3)"
proof -
  have "grant = ORG_ROLE_ADMIN \<or> grant = ORG_ROLE_EDITOR \<or> grant = ORG_ROLE_VIEWER"
    "role = ORG_ROLE_ADMIN \<or> role = ORG_ROLE_EDITOR \<or> role = ORG_ROLE_VIEWER"
    using assms by (auto simp: is_valid_org_role_def)
  then show ?thesis using valid_not_empty [OF assms(1)] valid_not_empty [OF assms(2)] unfolding effective_permission_def min_org_role_def
    by (cases "caller = ROLE_VIEWER"; elim disjE) (simp_all add: apply_tenant_role_cap_def has_org_permission_def org_role_level_def)
qed

text \<open>The two services compute the same permission.\<close>

lemma caps_agree:
  assumes "is_valid_org_role (ks_permission s)" "is_valid_org_role role"
  shows "ki_my_permission (project_share s (Some role) caller) = Some (effective_permission (ks_permission s) role caller)"
proof -
  have "ks_permission s = ORG_ROLE_ADMIN \<or> ks_permission s = ORG_ROLE_EDITOR \<or> ks_permission s = ORG_ROLE_VIEWER"
    "role = ORG_ROLE_ADMIN \<or> role = ORG_ROLE_EDITOR \<or> role = ORG_ROLE_VIEWER"
    using assms by (auto simp: is_valid_org_role_def)
  moreover have "[] \<noteq> ORG_ROLE_ADMIN" "[] \<noteq> ORG_ROLE_EDITOR" "[] \<noteq> ORG_ROLE_VIEWER" by (simp_all add: org_role_defs lit_def)
  ultimately show ?thesis unfolding project_share_def effective_permission_def min_org_role_def
    by (cases "caller = ROLE_VIEWER"; elim disjE)
      (simp_all add: apply_tenant_role_cap_def min_grant_def has_org_permission_def org_role_level_def kb_share_info_of_def)
qed

subsection \<open>Keeping the strongest\<close>

lemma keep_keys: "map fst (keep_strongest p k r acc) = (if k \<in> set (map fst acc) then map fst acc else map fst acc @ [k])"
proof (cases "map_of acc k")
  case None
  then have "k \<notin> fst ` set acc" by (simp add: map_of_eq_None_iff)
  then show ?thesis using None by (simp add: keep_strongest_def AList.update_keys)
next
  case (Some r1)
  then have "k \<in> fst ` set acc" by (metis domI dom_map_of_conv_image_fst)
  then show ?thesis using Some by (simp add: keep_strongest_def AList.update_keys)
qed

text \<open>What a fold of \<open>keep_strongest\<close> leaves: distinct keys, rows that were offered, and nothing stronger was.\<close>

definition strongest_of :: "('r \<Rightarrow> str) \<Rightarrow> ('k \<times> 'r) list \<Rightarrow> ('k \<times> 'r) list \<Rightarrow> bool" where
  "strongest_of p offers acc \<longleftrightarrow> distinct (map fst acc) \<and> set acc \<subseteq> set offers \<and>
     (\<forall>(k, r) \<in> set offers. \<exists>r1. (k, r1) \<in> set acc \<and> org_role_level (p r) \<le> org_role_level (p r1))"

lemma update_set: "distinct (map fst acc) \<Longrightarrow> set (AList.update k r acc) = insert (k, r) {x \<in> set acc. fst x \<noteq> k}"
proof (induction acc)
  case (Cons x acc)
  then show ?case by (cases x) (auto simp: image_iff)
qed simp

lemma keep_strongest_step:
  assumes "strongest_of p offers acc"
  shows "strongest_of p (offers @ [(k, r)]) (keep_strongest p k r acc)"
proof -
  have d: "distinct (map fst acc)" and sub: "set acc \<subseteq> set offers"
    and best: "\<And>k r. (k, r) \<in> set offers \<Longrightarrow> \<exists>r1. (k, r1) \<in> set acc \<and> org_role_level (p r) \<le> org_role_level (p r1)"
    using assms by (auto simp: strongest_of_def)
  have dk: "distinct (map fst (keep_strongest p k r acc))" using d by (simp add: keep_keys)
  show ?thesis
  proof (cases "map_of acc k")
    case None
    then have "k \<notin> fst ` set acc" by (simp add: map_of_eq_None_iff)
    then have "set (keep_strongest p k r acc) = insert (k, r) (set acc)"
      using None d by (auto simp: keep_strongest_def update_set)
    then show ?thesis using dk sub best unfolding strongest_of_def by fastforce
  next
    case (Some old)
    then have old: "(k, old) \<in> set acc" by (rule map_of_SomeD)
    have only: "r1 = old" if "(k, r1) \<in> set acc" for r1 using that old d by (metis eq_key_imp_eq_value)
    show ?thesis
    proof (cases "has_org_permission (p r) (p old) \<and> p r \<noteq> p old")
      case True
      then have s: "set (keep_strongest p k r acc) = insert (k, r) {x \<in> set acc. fst x \<noteq> k}"
        using Some d by (simp add: keep_strongest_def update_set)
      have "\<exists>r2. (k1, r2) \<in> set (keep_strongest p k r acc) \<and> org_role_level (p q) \<le> org_role_level (p r2)" if q: "(k1, q) \<in> set offers" for k1 q
      proof (cases "k1 = k")
        case t: True
        then have "org_role_level (p q) \<le> org_role_level (p old)" using best [OF q] only by blast
        then show ?thesis using True s t by (intro exI [of _ r]) (simp add: has_org_permission_def)
      next
        case False
        then show ?thesis using best [OF q] s by auto
      qed
      then show ?thesis using dk sub s unfolding strongest_of_def by auto
    next
      case False
      then have "keep_strongest p k r acc = acc" unfolding keep_strongest_def Some by (simp only: option.case if_False)
      moreover have "org_role_level (p r) \<le> org_role_level (p old)" using False by (auto simp: has_org_permission_def)
      ultimately show ?thesis using dk sub best old unfolding strongest_of_def by fastforce
    qed
  qed
qed

lemma fold_strongest:
  "strongest_of p offers acc \<Longrightarrow>
    strongest_of p (offers @ List.map_filter f xs) (fold (\<lambda>x acc. case f x of None \<Rightarrow> acc | Some (k, r) \<Rightarrow> keep_strongest p k r acc) xs acc)"
proof (induction xs arbitrary: offers acc)
  case (Cons x xs)
  show ?case
  proof (cases "f x")
    case None
    then show ?thesis using Cons by (simp add: List.map_filter_simps)
  next
    case (Some kr)
    obtain k r where kr: "kr = (k, r)" by (cases kr)
    show ?thesis using Cons.IH [OF keep_strongest_step [OF Cons.prems, of k r]] Some kr by (simp add: List.map_filter_simps)
  qed
qed (simp add: List.map_filter_simps)

subsection \<open>The tables\<close>

definition live_pair :: "str \<Rightarrow> str \<Rightarrow> kb_share \<Rightarrow> bool" where
  "live_pair kid oid s \<longleftrightarrow> live_kb_share s \<and> ks_knowledge_base_id s = kid \<and> ks_organization_id s = oid"

definition live_triple :: "str \<Rightarrow> int \<Rightarrow> str \<Rightarrow> agent_share \<Rightarrow> bool" where
  "live_triple aid source oid s \<longleftrightarrow>
     live_agent_share s \<and> as_agent_id s = aid \<and> as_source_tenant_id s = source \<and> as_organization_id s = oid"

definition kb_table_ok :: "kb_share list \<Rightarrow> bool" where
  "kb_table_ok ss \<longleftrightarrow> distinct (map ks_id ss) \<and> (\<forall>kid oid. length (filter (live_pair kid oid) ss) \<le> 1) \<and>
     (\<forall>s \<in> set ss. ks_permission s \<in> set SHARE_PERMISSIONS)"

definition agent_table_ok :: "agent_share list \<Rightarrow> bool" where
  "agent_table_ok ss \<longleftrightarrow> distinct (map as_id ss) \<and> (\<forall>aid source oid. length (filter (live_triple aid source oid) ss) \<le> 1) \<and>
     (\<forall>s \<in> set ss. as_permission s = SHARE_PERMISSION_VIEWER)"

definition share_inv :: "share_db \<Rightarrow> bool" where
  "share_inv d \<longleftrightarrow> org_inv (sd_orgs d) \<and> kb_table_ok (sd_kb_shares d) \<and> agent_table_ok (sd_agent_shares d) \<and>
     (\<forall>tenant aid source. length (filter (is_hidden_row tenant aid source) (sd_hidden d)) \<le> 1)"

lemma kb_table_snoc:
  assumes "kb_table_ok ss" "\<not> list_ex (\<lambda>s. ks_id s = ks_id row) ss" "\<not> list_ex (\<lambda>s. live_kb_share s \<and> same_kb_pair s row) ss"
    "ks_permission row \<in> set SHARE_PERMISSIONS"
  shows "kb_table_ok (ss @ [row])"
proof -
  have "filter (live_pair kid oid) ss = []" if "live_pair kid oid row" for kid oid
    using assms(3) that by (auto simp: live_pair_def same_kb_pair_def list_ex_iff filter_empty_conv)
  then show ?thesis using assms(1,2,4) by (auto simp: kb_table_ok_def list_ex_iff)
qed

lemma agent_table_snoc:
  assumes "agent_table_ok ss" "\<not> list_ex (\<lambda>s. as_id s = as_id row) ss"
    "\<not> list_ex (\<lambda>s. live_agent_share s \<and> as_agent_id s = as_agent_id row \<and> as_source_tenant_id s = as_source_tenant_id row \<and>
        as_organization_id s = as_organization_id row) ss" "as_permission row = SHARE_PERMISSION_VIEWER"
  shows "agent_table_ok (ss @ [row])"
proof -
  have "filter (live_triple aid source oid) ss = []" if "live_triple aid source oid row" for aid source oid
    using assms(3) that by (auto simp: live_triple_def list_ex_iff filter_empty_conv)
  then show ?thesis using assms(1,2,4) by (auto simp: agent_table_ok_def list_ex_iff)
qed

lemma kb_table_map:
  assumes "kb_table_ok ss" "\<And>s. ks_id (f s) = ks_id s \<and> ks_knowledge_base_id (f s) = ks_knowledge_base_id s \<and>
      ks_organization_id (f s) = ks_organization_id s \<and> (live_kb_share (f s) \<longrightarrow> live_kb_share s)"
    "\<And>s. s \<in> set ss \<Longrightarrow> ks_permission (f s) \<in> set SHARE_PERMISSIONS"
  shows "kb_table_ok (map f ss)"
proof -
  have "live_pair kid oid (f s) \<Longrightarrow> live_pair kid oid s" for kid oid s using assms(2) [of s] by (simp add: live_pair_def)
  then have "length (filter (live_pair kid oid) (map f ss)) \<le> 1" for kid oid
    using length_filter_map_le [of "live_pair kid oid" f ss] assms(1) unfolding kb_table_ok_def by (meson le_trans)
  then show ?thesis using assms by (auto simp: kb_table_ok_def comp_def)
qed

lemma agent_table_map:
  assumes "agent_table_ok ss" "\<And>s. as_id (f s) = as_id s \<and> as_agent_id (f s) = as_agent_id s \<and> as_source_tenant_id (f s) = as_source_tenant_id s \<and>
      as_organization_id (f s) = as_organization_id s \<and> (live_agent_share (f s) \<longrightarrow> live_agent_share s)"
    "\<And>s. s \<in> set ss \<Longrightarrow> as_permission (f s) = SHARE_PERMISSION_VIEWER"
  shows "agent_table_ok (map f ss)"
proof -
  have "live_triple aid source oid (f s) \<Longrightarrow> live_triple aid source oid s" for aid source oid s
    using assms(2) [of s] by (simp add: live_triple_def)
  then have "length (filter (live_triple aid source oid) (map f ss)) \<le> 1" for aid source oid
    using length_filter_map_le [of "live_triple aid source oid" f ss] assms(1) unfolding agent_table_ok_def by (meson le_trans)
  then show ?thesis using assms by (auto simp: agent_table_ok_def comp_def)
qed

lemma on_kb_share_inv:
  assumes "share_inv d" "\<And>s. ks_id (f s) = ks_id s \<and> ks_knowledge_base_id (f s) = ks_knowledge_base_id s \<and> ks_organization_id (f s) = ks_organization_id s"
    "\<And>s. s \<in> set (sd_kb_shares d) \<Longrightarrow> ks_permission (f s) \<in> set SHARE_PERMISSIONS"
  shows "share_inv (on_kb_share sid f d)"
proof -
  have ok: "kb_table_ok (sd_kb_shares d)" using assms(1) by (simp add: share_inv_def)
  have "kb_table_ok (map (\<lambda>s. if ks_id s = sid \<and> live_kb_share s then f s else s) (sd_kb_shares d))"
    by (rule kb_table_map [OF ok]) (use assms(2,3) ok in \<open>auto simp: kb_table_ok_def\<close>)
  then show ?thesis using assms(1) by (simp add: share_inv_def on_kb_share_def)
qed

lemma on_agent_share_inv:
  assumes "share_inv d" "\<And>s. as_id (f s) = as_id s \<and> as_agent_id (f s) = as_agent_id s \<and> as_source_tenant_id (f s) = as_source_tenant_id s \<and>
      as_organization_id (f s) = as_organization_id s"
    "\<And>s. s \<in> set (sd_agent_shares d) \<Longrightarrow> as_permission (f s) = SHARE_PERMISSION_VIEWER"
  shows "share_inv (on_agent_share sid f d)"
proof -
  have ok: "agent_table_ok (sd_agent_shares d)" using assms(1) by (simp add: share_inv_def)
  have "agent_table_ok (map (\<lambda>s. if as_id s = sid \<and> live_agent_share s then f s else s) (sd_agent_shares d))"
    by (rule agent_table_map [OF ok]) (use assms(2,3) ok in \<open>auto simp: agent_table_ok_def\<close>)
  then show ?thesis using assms(1) by (simp add: share_inv_def on_agent_share_def)
qed

subsection \<open>Every call keeps the tables\<close>

lemma kb_perms: "share_inv d \<Longrightarrow> s \<in> set (sd_kb_shares d) \<Longrightarrow> ks_permission s \<in> set SHARE_PERMISSIONS"
  by (simp add: share_inv_def kb_table_ok_def)

lemma agent_perms: "share_inv d \<Longrightarrow> s \<in> set (sd_agent_shares d) \<Longrightarrow> as_permission s = SHARE_PERMISSION_VIEWER"
  by (simp add: share_inv_def agent_table_ok_def)

lemma kb_update_inv: "share_inv d \<Longrightarrow> ks_permission row \<in> set SHARE_PERMISSIONS \<Longrightarrow> share_inv (snd (kb_share_update row d))"
  by (auto simp: kb_share_update_def set_kb_share_columns_def intro!: on_kb_share_inv split: option.split)

lemma agent_update_inv: "share_inv d \<Longrightarrow> as_permission row = SHARE_PERMISSION_VIEWER \<Longrightarrow> share_inv (snd (agent_share_update row d))"
  by (auto simp: agent_share_update_def set_agent_share_columns_def intro!: on_agent_share_inv split: option.split)

lemma kb_delete_inv: "share_inv d \<Longrightarrow> share_inv (kb_share_soft_delete sid now d)"
  unfolding kb_share_soft_delete_def by (rule on_kb_share_inv) (simp_all add: kb_perms)

lemma agent_delete_inv: "share_inv d \<Longrightarrow> share_inv (agent_share_soft_delete sid now d)"
  unfolding agent_share_soft_delete_def by (rule on_agent_share_inv) (simp_all add: agent_perms)

lemma chain_inv: "share_inv (snd (m d)) \<Longrightarrow> (\<And>x e. m d = (Inr x, e) \<Longrightarrow> share_inv e \<Longrightarrow> share_inv (snd (f x e))) \<Longrightarrow> share_inv (snd (chain m f d))"
  by (auto simp: chain_def split: prod.split sum.split)

lemma kb_create_inv:
  "share_inv d \<Longrightarrow> ks_permission row \<in> set SHARE_PERMISSIONS \<Longrightarrow> share_inv (snd (kb_share_create_or_none row d))"
  by (auto simp: kb_share_create_or_none_def share_inv_def intro: kb_table_snoc)

lemma agent_create_inv:
  "share_inv d \<Longrightarrow> as_permission row = SHARE_PERMISSION_VIEWER \<Longrightarrow> share_inv (snd (agent_share_create_or_none row d))"
  by (auto simp: agent_share_create_or_none_def share_inv_def intro: agent_table_snoc)

lemma reading_inv: "share_inv d \<Longrightarrow> share_inv (snd (found_or err f d))" "share_inv d \<Longrightarrow> share_inv (snd (requires b err d))"
  by (simp_all add: found_or_def requires_def split: option.split)

lemma upgrade_inv:
  "share_inv d \<Longrightarrow> permission \<in> set SHARE_PERMISSIONS \<Longrightarrow> share_inv (snd (upgrade_duplicate kid oid permission org_role t_role now d))"
  unfolding upgrade_duplicate_def by (rule chain_inv; (rule reading_inv | rule chain_inv)?) (auto intro: kb_update_inv)

lemma share_kb_inv: "share_inv d \<Longrightarrow> share_inv (snd (share_knowledge_base kid oid user tenant t_role permission now sid d))"
  unfolding share_knowledge_base_def require_permission_def owned_kb_def authorize_mutate_kb_def source_tenant_in_org_def
  by (auto intro!: chain_inv [of "kb_share_create_or_none _"] kb_create_inv upgrade_inv split: option.split)

lemma manageable_same: "snd (manageable_share kid sid user tenant t_role d) = d"
  by (auto simp: manageable_share_def live_share_def owned_kb_def authorize_manage_def authorize_mutate_kb_def split: option.split)

lemma update_share_inv: "share_inv d \<Longrightarrow> share_inv (snd (update_share_permission kid sid permission user tenant t_role now d))"
  unfolding update_share_permission_def require_permission_def
  by (auto simp: manageable_same intro!: chain_inv kb_update_inv)

lemma remove_share_inv: "share_inv d \<Longrightarrow> share_inv (snd (remove_share kid sid user tenant t_role now d))"
  unfolding remove_share_def by (auto simp: manageable_same intro!: chain_inv kb_delete_inv)

lemma share_agent_inv: "share_inv d \<Longrightarrow> share_inv (snd (share_agent aid oid user tenant permission now sid d))"
  unfolding share_agent_def
  by (auto intro!: chain_inv [of "agent_share_create_or_none _"] chain_inv [of "agent_share_update _"] agent_create_inv agent_update_inv split: option.split)

lemma update_agent_inv: "share_inv d \<Longrightarrow> share_inv (snd (update_agent_share_permission sid permission user tenant t_role now d))"
  unfolding update_agent_share_permission_def
  by (auto simp: authorize_manage_agent_share_def requires_def intro!: chain_inv agent_update_inv reading_inv split: option.split)

lemma remove_agent_inv: "share_inv d \<Longrightarrow> share_inv (snd (remove_agent_share sid user tenant t_role now d))"
  unfolding remove_agent_share_def
  by (auto simp: authorize_manage_agent_share_def requires_def intro!: chain_inv agent_delete_inv reading_inv split: option.split)

lemma hide_inv: "share_inv d \<Longrightarrow> share_inv (snd (set_shared_agent_disabled_by_me tenant aid disabled now d))"
proof -
  assume i: "share_inv d"
  have same: "snd (resolve_source_tenant tenant aid d) = d" by (simp add: resolve_source_tenant_def split: option.split)
  have one: "length (filter (is_hidden_row t a s) (sd_hidden d)) \<le> 1" for t a s using i by (simp add: share_inv_def)
  have "share_inv (show_agent tenant aid source d)" for source
  proof -
    have "length (filter (\<lambda>h. \<not> is_hidden_row tenant aid source h \<and> is_hidden_row t a s h) (sd_hidden d)) \<le> 1" for t a s
      using one [of t a s] length_filter_le [of "\<lambda>h. \<not> is_hidden_row tenant aid source h" "filter (is_hidden_row t a s) (sd_hidden d)"]
      by (simp add: conj_commute)
    then show ?thesis using i by (simp add: share_inv_def show_agent_def conj_commute)
  qed
  moreover have "share_inv (hide_agent tenant aid source now d)" for source
    using i one by (auto simp: share_inv_def hide_agent_def list_ex_iff is_hidden_row_def filter_empty_conv)
  ultimately show ?thesis using i same unfolding set_shared_agent_disabled_by_me_def by (auto intro!: chain_inv)
qed

lemma share_step_inv: "share_step d e \<Longrightarrow> share_inv d \<Longrightarrow> share_inv e"
proof (induction rule: share_step.induct)
  case (org_called d o1)
  then have "org_inv o1" using org_changes_inv org_step_refines by (auto simp: share_inv_def)
  then show ?case using org_called by (simp add: share_inv_def)
qed (simp_all add: share_kb_inv update_share_inv remove_share_inv share_agent_inv update_agent_inv remove_agent_inv hide_inv, simp_all add: share_inv_def)

lemma share_start_inv: "share_inv \<lparr>sd_orgs = \<lparr>od_orgs = [], od_members = [], od_requests = []\<rparr>, sd_kbs = [], sd_agents = [],
    sd_kb_shares = [], sd_agent_shares = [], sd_hidden = []\<rparr>"
  by (simp add: share_inv_def org_start_inv kb_table_ok_def agent_table_ok_def)

lemma share_reachable_inv: "share_reachable d \<Longrightarrow> share_inv d"
  by (induction rule: share_reachable.induct) (auto intro: share_start_inv share_step_inv)

end
