(* ===== verification/Share_Properties.thy ===== *)
theory Share_Properties
  imports Share_Laws Org_Properties
begin

text \<open>
  The properties of sharing: who can read a shared knowledge base and how that follows the membership of
  organizations, what a tenant is shown, and what every run of calls keeps.
\<close>

subsection \<open>A run that witnesses use\<close>

text \<open>Tenant 1 owns a knowledge base and an agent and founded the organization; tenant 2 is a viewer of it.\<close>

definition demo_kb :: kb_row where
  "demo_kb = \<lparr>kb_id = lit ''k'', kb_tenant_id = 1, kb_creator_id = Some (lit ''u''), kb_type = lit ''document'', kb_deleted_at = None\<rparr>"

definition demo_agent :: agent_row where
  "demo_agent = \<lparr>ag_id = lit ''a'', ag_tenant_id = 1, ag_config = [(lit ''model_id'', JStr (lit ''m''))], ag_deleted_at = None\<rparr>"

definition demo_kb_share :: kb_share where
  "demo_kb_share = \<lparr>ks_id = lit ''s'', ks_knowledge_base_id = lit ''k'', ks_organization_id = lit ''o'', ks_shared_by_user_id = lit ''u'',
     ks_source_tenant_id = 1, ks_permission = SHARE_PERMISSION_ADMIN, ks_created_at = 0, ks_updated_at = 0, ks_deleted_at = None\<rparr>"

definition demo_agent_share :: agent_share where
  "demo_agent_share = \<lparr>as_id = lit ''t'', as_agent_id = lit ''a'', as_organization_id = lit ''o'', as_shared_by_user_id = lit ''u'',
     as_source_tenant_id = 1, as_permission = SHARE_PERMISSION_VIEWER, as_created_at = 0, as_updated_at = 0, as_deleted_at = None\<rparr>"

definition demo_rows :: "org_db \<Rightarrow> kb_share list \<Rightarrow> agent_share list \<Rightarrow> share_db" where
  "demo_rows c ks ags = \<lparr>sd_orgs = c, sd_kbs = [demo_kb], sd_agents = [demo_agent], sd_kb_shares = ks, sd_agent_shares = ags, sd_hidden = []\<rparr>"

definition demo_shared :: share_db where "demo_shared = demo_rows demo_joined [demo_kb_share] [demo_agent_share]"

lemma org_runs: "org_reachable c \<Longrightarrow> share_reachable \<lparr>sd_orgs = c, sd_kbs = [], sd_agents = [], sd_kb_shares = [], sd_agent_shares = [], sd_hidden = []\<rparr>"
proof (induction rule: org_reachable.induct)
  case start
  show ?case by (rule share_reachable.start)
next
  case (step c e)
  show ?case using share_reachable.step [OF step.IH share_step.org_called [of _ e]] step.hyps(2) by simp
qed

lemmas share_eval = share_knowledge_base_def require_permission_def owned_kb_def authorize_mutate_kb_def source_tenant_in_org_def
  kb_by_id_and_tenant_def may_mutate_kb_def share_org_def share_member_def kb_share_create_or_none_def agent_share_create_or_none_def
  share_agent_def agent_by_id_and_tenant_def config_value_def has_org_permission_def org_role_level_def SHARE_PERMISSIONS_def demo_rows_def
  demo_kb_def demo_agent_def demo_kb_share_def demo_agent_share_def

lemma demo_sharing: "share_reachable demo_shared"
proof -
  have 0: "share_reachable (demo_rows demo_joined [] [])"
  proof -
    let ?d = "\<lparr>sd_orgs = demo_joined, sd_kbs = [], sd_agents = [], sd_kb_shares = [], sd_agent_shares = [], sd_hidden = []\<rparr>"
    have "share_reachable (?d\<lparr>sd_kbs := [demo_kb]\<rparr>)"
      by (rule share_reachable.step [OF org_runs [OF demo_joining] share_step.kbs_changed]) simp
    then have "share_reachable (?d\<lparr>sd_kbs := [demo_kb]\<rparr>\<lparr>sd_agents := [demo_agent]\<rparr>)"
      by (rule share_reachable.step) (rule share_step.agents_changed, simp)
    then show ?thesis by (simp add: demo_rows_def)
  qed
  have "demo_rows demo_joined [demo_kb_share] [] =
      snd (share_knowledge_base (lit ''k'') (lit ''o'') (lit ''u'') 1 ROLE_VIEWER SHARE_PERMISSION_ADMIN 0 (lit ''s'') (demo_rows demo_joined [] []))"
    by (simp add: share_eval chain_def [of "kb_share_create_or_none _"] org_eval demo_defs)
  then have 1: "share_reachable (demo_rows demo_joined [demo_kb_share] [])" using share_reachable.step [OF 0 share_step.kb_shared] by metis
  have "demo_shared = snd (share_agent (lit ''a'') (lit ''o'') (lit ''u'') 1 [] 0 (lit ''t'') (demo_rows demo_joined [demo_kb_share] []))"
    by (simp add: demo_shared_def share_eval chain_def [of "agent_share_create_or_none _"] org_eval demo_defs lit_def)
  then show ?thesis using share_reachable.step [OF 1 share_step.agent_shared] by metis
qed

subsection \<open>Access\<close>

text \<open>C21: a tenant can read a knowledge base exactly when it owns it or a live share grants it into a live organization that
  the tenant is a member of; so when a tenant leaves or is removed it keeps only what other organizations grant it, and
  deleting an organization takes what it granted from every tenant, at once and without touching a share.\<close>

theorem access_follows_membership:
  "(can_access_knowledge_base t owner kid d \<longleftrightarrow> t = owner \<or> (\<exists>o1. granted t kid o1 d)) \<and>
   (remove_tenant_member oid tenant user operator_tenant (sd_orgs d) = (Inr (), c1) \<longrightarrow>
      (can_access_knowledge_base t owner kid (d\<lparr>sd_orgs := c1\<rparr>) \<longleftrightarrow> t = owner \<or> (\<exists>o1. granted t kid o1 d \<and> (o1, t) \<noteq> (oid, tenant)))) \<and>
   (delete_organization oid user operator_tenant now (sd_orgs d) = (Inr (), c2) \<longrightarrow>
      (can_access_knowledge_base t owner kid (d\<lparr>sd_orgs := c2\<rparr>) \<longleftrightarrow> t = owner \<or> (\<exists>o1. granted t kid o1 d \<and> o1 \<noteq> oid)))"
proof (intro conjI impI)
  show "can_access_knowledge_base t owner kid d \<longleftrightarrow> t = owner \<or> (\<exists>o1. granted t kid o1 d)" by (rule access_by_grant)
next
  assume "remove_tenant_member oid tenant user operator_tenant (sd_orgs d) = (Inr (), c1)"
  then have "c1 = remove_member oid tenant (sd_orgs d)"
    by (auto simp: remove_tenant_member_def check_defs split: if_splits option.splits)
  then show "can_access_knowledge_base t owner kid (d\<lparr>sd_orgs := c1\<rparr>) \<longleftrightarrow> t = owner \<or> (\<exists>o1. granted t kid o1 d \<and> (o1, t) \<noteq> (oid, tenant))"
    unfolding access_by_grant by (auto simp: granted_removed)
next
  assume "delete_organization oid user operator_tenant now (sd_orgs d) = (Inr (), c2)"
  then have "c2 = org_soft_delete oid now (sd_orgs d)"
    by (auto simp: delete_organization_def check_defs split: if_splits option.splits)
  then show "can_access_knowledge_base t owner kid (d\<lparr>sd_orgs := c2\<rparr>) \<longleftrightarrow> t = owner \<or> (\<exists>o1. granted t kid o1 d \<and> o1 \<noteq> oid)"
    unfolding access_by_grant by (auto simp: granted_closed)
qed

lemma access_follows_membership_witness:
  "can_access_knowledge_base 2 1 (lit ''k'') demo_shared \<and>
   (\<exists>c. remove_tenant_member (lit ''o'') 2 (lit ''u'') 2 demo_joined = (Inr (), c) \<and>
     \<not> can_access_knowledge_base 2 1 (lit ''k'') (demo_shared\<lparr>sd_orgs := c\<rparr>))"
proof -
  have r: "remove_tenant_member (lit ''o'') 2 (lit ''u'') 2 demo_joined = (Inr (), remove_member (lit ''o'') 2 demo_joined)"
    by (simp add: remove_tenant_member_def is_owner_tenant_def org_eval demo_defs)
  have g: "granted 2 (lit ''k'') (lit ''o'') demo_shared" "\<And>o1. granted 2 (lit ''k'') o1 demo_shared \<Longrightarrow> o1 = lit ''o''"
    by (simp_all add: granted_def demo_shared_def share_eval live_kb_share_def org_eval demo_defs)
  have o: "sd_orgs demo_shared = demo_joined" by (simp add: demo_shared_def demo_rows_def)
  note A = access_follows_membership [of 2 1 "lit ''k''" demo_shared "lit ''o''" 2 "lit ''u''" 2, unfolded o]
  have "can_access_knowledge_base 2 1 (lit ''k'') demo_shared" using A g(1) by blast
  moreover have "\<not> can_access_knowledge_base 2 1 (lit ''k'') (demo_shared\<lparr>sd_orgs := remove_member (lit ''o'') 2 demo_joined\<rparr>)"
    using A r g(2) by fastforce
  ultimately show ?thesis using r by blast
qed

subsection \<open>Tables\<close>

text \<open>C23: in every state that calls of the sharing and organization services reach, ids are unique, a knowledge base has at
  most one live share into an organization and an agent of a tenant too, grants are known permissions, an agent is shared
  for viewing only, and a tenant hides an agent at most once.\<close>

theorem share_tables_kept:
  assumes "share_reachable d"
  shows "distinct (map ks_id (sd_kb_shares d)) \<and> distinct (map as_id (sd_agent_shares d)) \<and>
    (\<forall>kid oid. length (filter (live_pair kid oid) (sd_kb_shares d)) \<le> 1) \<and>
    (\<forall>aid source oid. length (filter (live_triple aid source oid) (sd_agent_shares d)) \<le> 1) \<and>
    (\<forall>s \<in> set (sd_kb_shares d). ks_permission s \<in> set SHARE_PERMISSIONS) \<and>
    (\<forall>s \<in> set (sd_agent_shares d). as_permission s = SHARE_PERMISSION_VIEWER) \<and>
    (\<forall>tenant aid source. length (filter (is_hidden_row tenant aid source) (sd_hidden d)) \<le> 1) \<and> org_inv (sd_orgs d)"
  using share_reachable_inv [OF assms] unfolding share_inv_def kb_table_ok_def agent_table_ok_def by blast

lemma share_tables_kept_witness: "length (filter (live_pair (lit ''k'') (lit ''o'')) (sd_kb_shares demo_shared)) \<le> 1"
  using share_tables_kept [OF demo_sharing] by blast

subsection \<open>What a tenant is shown\<close>

lemma map_filter_set: "x \<in> set (List.map_filter f xs) \<longleftrightarrow> (\<exists>y \<in> set xs. f y = Some x)"
  by (induction xs) (auto simp: List.map_filter_simps split: option.splits)

lemma find_kb_id: "find (\<lambda>k. kb_id k = x \<and> kb_deleted_at k = None) ks = Some k \<Longrightarrow> kb_id k = x"
  by (auto simp: find_Some_iff)

lemma visible_key: "visible_kb env tenant caller d s = Some (key, info) \<Longrightarrow>
    key = kb_id (si_kb info) \<and> key = ks_knowledge_base_id s \<and> si_share_id info = ks_id s \<and> ks_source_tenant_id s \<noteq> tenant \<and>
    (\<exists>role. role_of (ks_organization_id s) tenant d = Some role \<and> si_permission info = effective_permission (ks_permission s) role caller)"
  by (auto simp: visible_kb_def shared_kb_row_def dest: find_kb_id split: if_splits option.splits)

text \<open>C22: the list of shared knowledge bases has no knowledge base twice and none that the tenant shared itself; each row comes
  from a live share that reaches the tenant, every other visible share of that knowledge base is no stronger, and the
  permission shown is the least of the grant, the tenant's role in the organization, and viewing for a tenant viewer.\<close>

theorem shared_list_strongest:
  assumes "share_reachable d" "list_shared_knowledge_bases env tenant caller d = (Inr infos, e)"
  shows "e = d \<and> distinct (map (kb_id \<circ> si_kb) infos) \<and>
    (\<forall>info \<in> set infos. \<exists>s role. s \<in> set (sd_kb_shares d) \<and> live_kb_share s \<and> ks_source_tenant_id s \<noteq> tenant \<and>
       granted tenant (kb_id (si_kb info)) (ks_organization_id s) d \<and> ks_knowledge_base_id s = kb_id (si_kb info) \<and>
       role_of (ks_organization_id s) tenant d = Some role \<and>
       org_role_level (si_permission info) =
         min (min (org_role_level (ks_permission s)) (org_role_level role)) (if caller = ROLE_VIEWER then 1 else 3)) \<and>
    (\<forall>s \<in> set (kb_shares_for_tenant tenant d). \<forall>key info. visible_kb env tenant caller d s = Some (key, info) \<longrightarrow>
       (\<exists>best \<in> set infos. kb_id (si_kb best) = key \<and> org_role_level (si_permission info) \<le> org_role_level (si_permission best)))"
proof -
  let ?ss = "kb_shares_for_tenant tenant d" and ?f = "visible_kb env tenant caller d"
  let ?acc = "fold (\<lambda>s acc. case ?f s of None \<Rightarrow> acc | Some (key, info) \<Rightarrow> keep_strongest si_permission key info acc) ?ss []"
  have "(Inr (map snd ?acc), d) = ((Inr infos, e) :: (app_error + shared_kb list) \<times> share_db)"
    using assms(2) unfolding list_shared_knowledge_bases_def reads_def .
  then have e: "e = d" "infos = map snd ?acc" by blast+
  have "strongest_of si_permission ([] @ List.map_filter ?f ?ss) ?acc"
    by (rule fold_strongest) (simp add: strongest_of_def)
  then have st: "distinct (map fst ?acc)" "set ?acc \<subseteq> set (List.map_filter ?f ?ss)"
    "\<And>k r. (k, r) \<in> set (List.map_filter ?f ?ss) \<Longrightarrow> \<exists>r1. (k, r1) \<in> set ?acc \<and> org_role_level (si_permission r) \<le> org_role_level (si_permission r1)"
    by (auto simp: strongest_of_def)
  have offered: "\<exists>s \<in> set ?ss. ?f s = Some (k, r)" if "(k, r) \<in> set ?acc" for k r
    using st(2) that by (fastforce simp: map_filter_set)
  have key: "k = kb_id (si_kb r)" if "(k, r) \<in> set ?acc" for k r using offered [OF that] visible_key by blast
  have "map (kb_id \<circ> si_kb) infos = map fst ?acc" unfolding e(2) using key by auto
  then have "distinct (map (kb_id \<circ> si_kb) infos)" using st(1) by simp
  moreover have "\<exists>s role. s \<in> set (sd_kb_shares d) \<and> live_kb_share s \<and> ks_source_tenant_id s \<noteq> tenant \<and>
       granted tenant (kb_id (si_kb info)) (ks_organization_id s) d \<and> ks_knowledge_base_id s = kb_id (si_kb info) \<and>
       role_of (ks_organization_id s) tenant d = Some role \<and> org_role_level (si_permission info) =
         min (min (org_role_level (ks_permission s)) (org_role_level role)) (if caller = ROLE_VIEWER then 1 else 3)"
    if mem: "info \<in> set infos" for info
  proof -
    obtain k where k: "(k, info) \<in> set ?acc" using mem unfolding e(2) by auto
    then obtain s where s: "s \<in> set ?ss" "?f s = Some (kb_id (si_kb info), info)" using offered [OF k] key [OF k] by auto
    obtain role where role: "role_of (ks_organization_id s) tenant d = Some role"
      "si_permission info = effective_permission (ks_permission s) role caller" using visible_key [OF s(2)] by blast
    have i: "share_inv d" using assms(1) by (rule share_reachable_inv)
    have "is_valid_org_role (ks_permission s)"
      using kb_perms [OF i] s(1) by (auto simp: kb_shares_for_tenant_set SHARE_PERMISSIONS_def share_permission_defs is_valid_org_role_def org_role_defs)
    moreover have "is_valid_org_role role"
      using role(1) i get_member_Some by (fastforce simp: role_of_def share_member_def share_inv_def org_inv_def)
    ultimately show ?thesis using role visible_key [OF s(2)] s(1) effective_level
      by (intro exI [of _ s] exI [of _ role]) (simp add: kb_shares_for_tenant_set)
  qed
  moreover have "\<exists>best \<in> set infos. kb_id (si_kb best) = k \<and> org_role_level (si_permission info) \<le> org_role_level (si_permission best)"
    if "s \<in> set ?ss" "?f s = Some (k, info)" for s k info
  proof -
    have "(k, info) \<in> set (List.map_filter ?f ?ss)" using that by (simp add: map_filter_set) blast
    then obtain r1 where r1: "(k, r1) \<in> set ?acc" "org_role_level (si_permission info) \<le> org_role_level (si_permission r1)" using st(3) by blast
    have "snd (k, r1) \<in> snd ` set ?acc" by (rule imageI [OF r1(1)])
    then have "r1 \<in> set infos" unfolding e(2) set_map by (simp only: snd_conv)
    then show ?thesis using r1 key [OF r1(1)] by blast
  qed
  ultimately show ?thesis using e(1) by blast
qed

definition demo_env :: share_env where
  "demo_env = \<lparr>se_documents = \<lambda>_ _. None, se_chunks = \<lambda>_ _. None, se_username = \<lambda>_. None, se_provider = \<lambda>_ _. False,
     se_default_provider = \<lambda>_. False, se_str = \<lambda>_. []\<rparr>"

text \<open>An admin grant shows as viewing to a viewer of the organization.\<close>

lemma shared_list_strongest_witness:
  "\<exists>infos. list_shared_knowledge_bases demo_env 2 ROLE_ADMIN demo_shared = (Inr infos, demo_shared) \<and>
    distinct (map (kb_id \<circ> si_kb) infos) \<and> (\<exists>best \<in> set infos. kb_id (si_kb best) = lit ''k'')"
proof -
  obtain infos e where r: "list_shared_knowledge_bases demo_env 2 ROLE_ADMIN demo_shared = (Inr infos, e)"
    by (simp add: list_shared_knowledge_bases_def reads_def)
  note T = shared_list_strongest [OF demo_sharing r]
  have "demo_kb_share \<in> set (kb_shares_for_tenant 2 demo_shared)"
    by (simp add: kb_shares_for_tenant_set granted_def demo_shared_def share_eval live_kb_share_def org_eval demo_defs)
  moreover obtain info where "visible_kb demo_env 2 ROLE_ADMIN demo_shared demo_kb_share = Some (lit ''k'', info)"
    by (simp add: visible_kb_def role_of_def demo_shared_def share_eval org_eval demo_defs)
  ultimately show ?thesis using T r by blast
qed

subsection \<open>A deleted user\<close>

text \<open>C25: listing the shared agents fails exactly when some visible share was made by a user that the user table no longer
  finds, so one deleted sharer takes the whole list from every tenant that its share reaches.\<close>

theorem shared_agents_fail_iff:
  "(\<exists>err. fst (list_shared_agents env tenant caller d) = Inl err) \<longleftrightarrow>
   (\<exists>s \<in> set (agent_shares_for_tenant tenant d). visible_agent tenant d s \<noteq> None \<and> as_shared_by_user_id s \<noteq> [] \<and>
      se_username env (as_shared_by_user_id s) = None)"
proof -
  have loop: "(\<exists>err. fst (collect_agents env tenant caller ss acc d) = Inl err) \<longleftrightarrow>
     (\<exists>s \<in> set ss. visible_agent tenant d s \<noteq> None \<and> as_shared_by_user_id s \<noteq> [] \<and> se_username env (as_shared_by_user_id s) = None)" for ss acc
  proof (induction ss arbitrary: acc)
    case (Cons s ss)
    show ?case
    proof (cases "visible_agent tenant d s")
      case None
      then show ?thesis by (simp add: Cons.IH)
    next
      case (Some ar)
      then show ?thesis by (cases ar; cases "as_shared_by_user_id s = []"; cases "se_username env (as_shared_by_user_id s)")
        (simp_all add: Cons.IH shared_by_username_def)
    qed
  qed simp
  have last: "(\<exists>err. fst (chain m (\<lambda>x. reads (g x)) d) = Inl err) \<longleftrightarrow> (\<exists>err. fst (m d) = Inl err)" for m and g :: "'x \<Rightarrow> share_db \<Rightarrow> 'y"
    by (simp add: chain_def reads_def split: prod.split sum.split)
  show ?thesis unfolding list_shared_agents_def chain_steps last loop ..
qed

text \<open>The agent shared by user u is not listed to tenant 2, as nobody is found under that id.\<close>

lemma shared_agents_fail_iff_witness: "\<exists>err. fst (list_shared_agents demo_env 2 ROLE_ADMIN demo_shared) = Inl err"
proof -
  have "demo_agent_share \<in> set (agent_shares_for_tenant 2 demo_shared)"
    by (simp add: agent_shares_for_tenant_set demo_shared_def share_eval live_agent_share_def org_eval demo_defs)
  moreover have "visible_agent 2 demo_shared demo_agent_share \<noteq> None"
    by (simp add: visible_agent_def role_of_def demo_shared_def share_eval org_eval demo_defs)
  moreover have "as_shared_by_user_id demo_agent_share \<noteq> []" "se_username demo_env u = None" for u
    by (simp_all add: demo_agent_share_def demo_env_def)
  ultimately show ?thesis unfolding shared_agents_fail_iff by blast
qed

subsection \<open>Sharing an agent again\<close>

lemma agent_share_id:
  assumes "share_inv d" "s \<in> set (sd_agent_shares d)" "live_agent_share s"
  shows "agent_share_by_id (as_id s) d = Some s"
proof -
  have "distinct (map as_id (sd_agent_shares d))" using assms(1) by (simp add: share_inv_def agent_table_ok_def)
  then have one: "t = s" if "t \<in> set (sd_agent_shares d)" "as_id t = as_id s" for t
    using that assms(2) by (auto simp: distinct_map inj_on_def)
  obtain t where t: "agent_share_by_id (as_id s) d = Some t"
    using assms(2,3) by (cases "agent_share_by_id (as_id s) d") (auto simp: agent_share_by_id_def find_None_iff)
  then have "t \<in> set (sd_agent_shares d)" "as_id t = as_id s" by (auto simp: agent_share_by_id_def find_Some_iff)
  then show ?thesis using one t by blast
qed

text \<open>C24: agent ids are unique per tenant only, but a repeated share is looked up by agent and organization alone: when another
  tenant's share of an agent with that id comes first, a tenant that shares its agent again is told of the other tenant's
  share, and that row is rewritten instead of its own.\<close>

theorem repeated_share_hits_other:
  assumes "share_reachable d" "agent_by_id_and_tenant aid tenant d = Some a" "truthy (config_value a (lit ''model_id''))"
    "share_org oid d = Some g" "share_member oid tenant d = Some m" "has_org_permission (mb_role m) ORG_ROLE_EDITOR"
    "\<forall>s \<in> set (sd_agent_shares d). as_id s \<noteq> sid" "own \<in> set (sd_agent_shares d)" "live_triple aid tenant oid own"
    "agent_share_by_agent_and_org aid oid d = Some other" "as_source_tenant_id other \<noteq> tenant"
  shows "\<exists>info e. share_agent aid oid user tenant permission now sid d = (Inr info, e) \<and> as_id info = as_id other \<and>
    as_source_tenant_id info \<noteq> tenant \<and> own \<in> set (sd_agent_shares e) \<and>
    other\<lparr>as_permission := SHARE_PERMISSION_VIEWER, as_updated_at := now\<rparr> \<in> set (sd_agent_shares e)"
proof -
  have i: "share_inv d" using assms(1) by (rule share_reachable_inv)
  have ag: "ag_tenant_id a = tenant" using assms(2) by (auto simp: agent_by_id_and_tenant_def find_Some_iff)
  have o: "other \<in> set (sd_agent_shares d)" "live_agent_share other"
    using assms(10) by (auto simp: agent_share_by_agent_and_org_def find_Some_iff)
  let ?row = "other\<lparr>as_permission := SHARE_PERMISSION_VIEWER, as_updated_at := now\<rparr>"
  let ?e = "on_agent_share (as_id other) (set_agent_share_columns ?row) d"
  have upd: "agent_share_update ?row d = (Inr ?row, ?e)"
    using agent_share_id [OF i o] by (simp add: agent_share_update_def set_agent_share_columns_def)
  have "distinct (map as_id (sd_agent_shares d))" using i by (simp add: share_inv_def agent_table_ok_def)
  moreover have "own \<noteq> other" using assms(9,11) by (auto simp: live_triple_def)
  ultimately have "as_id own \<noteq> as_id other" using assms(8) o(1) by (auto simp: distinct_map inj_on_def)
  then have "own \<in> set (sd_agent_shares ?e)" using assms(8) by (force simp: on_agent_share_def)
  moreover have "set_agent_share_columns ?row other = ?row" by (simp add: set_agent_share_columns_def)
  then have "?row \<in> set (sd_agent_shares ?e)" using o by (force simp: on_agent_share_def)
  moreover have "share_agent aid oid user tenant permission now sid d = (Inr (agent_share_info_of ?row), ?e)"
  proof -
    have "agent_share_create_or_none row d = (Inr None, d)"
      if "as_id row = sid" "as_agent_id row = aid" "as_source_tenant_id row = tenant" "as_organization_id row = oid" for row
      using assms(7-9) that by (auto simp: agent_share_create_or_none_def live_triple_def list_ex_iff)
    then show ?thesis using assms(2-6,10) ag upd
      by (simp add: share_agent_def chain_def [of "agent_share_create_or_none _"] chain_def [of "agent_share_update _"])
  qed
  ultimately show ?thesis using assms(11) by (auto simp: agent_share_info_of_def)
qed

definition demo_editors :: org_db where
  "demo_editors = demo_joined\<lparr>od_members := [demo_owner, demo_viewer\<lparr>mb_role := ORG_ROLE_EDITOR\<rparr>]\<rparr>"

definition demo_agent_share2 :: agent_share where
  "demo_agent_share2 = demo_agent_share\<lparr>as_id := lit ''w'', as_source_tenant_id := 2\<rparr>"

definition demo_both :: "agent_share list \<Rightarrow> share_db" where
  "demo_both ss = \<lparr>sd_orgs = demo_editors, sd_kbs = [], sd_agents = [demo_agent, demo_agent\<lparr>ag_tenant_id := 2\<rparr>], sd_kb_shares = [],
     sd_agent_shares = ss, sd_hidden = []\<rparr>"

lemma demo_editing: "org_reachable demo_editors"
proof -
  have "demo_editors = snd (update_tenant_member_role (lit ''o'') 2 ORG_ROLE_EDITOR (lit ''u'') 1 demo_joined)"
    by (simp add: org_eval demo_defs demo_editors_def is_valid_org_role_def tenant_is_admin_def is_owner_tenant_def found_or_def update_member_role_def)
  then show ?thesis using org_reachable.step [OF demo_joining org_step.role_set] by metis
qed

lemmas both_eval = demo_both_def demo_editors_def demo_agent_share2_def share_eval org_eval demo_defs

lemma demo_both_sharing: "share_reachable (demo_both [demo_agent_share, demo_agent_share2])"
proof -
  have 0: "share_reachable (demo_both [])"
  proof -
    have "share_reachable (\<lparr>sd_orgs = demo_editors, sd_kbs = [], sd_agents = [], sd_kb_shares = [], sd_agent_shares = [], sd_hidden = []\<rparr>
        \<lparr>sd_agents := [demo_agent, demo_agent\<lparr>ag_tenant_id := 2\<rparr>]\<rparr>)"
      by (rule share_reachable.step [OF org_runs [OF demo_editing] share_step.agents_changed]) (simp add: demo_agent_def)
    then show ?thesis by (simp add: demo_both_def)
  qed
  have "demo_both [demo_agent_share] = snd (share_agent (lit ''a'') (lit ''o'') (lit ''u'') 1 [] 0 (lit ''t'') (demo_both []))"
    by (simp add: both_eval chain_def [of "agent_share_create_or_none _"] lit_def)
  then have 1: "share_reachable (demo_both [demo_agent_share])" using share_reachable.step [OF 0 share_step.agent_shared] by metis
  have "demo_both [demo_agent_share, demo_agent_share2] =
      snd (share_agent (lit ''a'') (lit ''o'') (lit ''u'') 2 [] 0 (lit ''w'') (demo_both [demo_agent_share]))"
    by (simp add: both_eval chain_def [of "agent_share_create_or_none _"] lit_def)
  then show ?thesis using share_reachable.step [OF 1 share_step.agent_shared] by metis
qed

lemma repeated_share_hits_other_witness:
  "\<exists>info e. share_agent (lit ''a'') (lit ''o'') (lit ''v'') 2 [] 7 (lit ''z'') (demo_both [demo_agent_share, demo_agent_share2]) = (Inr info, e) \<and>
    as_id info = lit ''t'' \<and> as_source_tenant_id info \<noteq> 2 \<and> demo_agent_share2 \<in> set (sd_agent_shares e)"
proof -
  have "\<exists>info e. share_agent (lit ''a'') (lit ''o'') (lit ''v'') 2 [] 7 (lit ''z'') (demo_both [demo_agent_share, demo_agent_share2]) = (Inr info, e) \<and>
    as_id info = as_id demo_agent_share \<and> as_source_tenant_id info \<noteq> 2 \<and> demo_agent_share2 \<in> set (sd_agent_shares e) \<and>
    demo_agent_share\<lparr>as_permission := SHARE_PERMISSION_VIEWER, as_updated_at := 7\<rparr> \<in> set (sd_agent_shares e)"
    by (rule repeated_share_hits_other [OF demo_both_sharing, where a = "demo_agent\<lparr>ag_tenant_id := 2\<rparr>" and
          m = "demo_viewer\<lparr>mb_role := ORG_ROLE_EDITOR\<rparr>" and g = demo_org])
      (simp_all add: both_eval live_triple_def live_agent_share_def agent_share_by_agent_and_org_def lit_def)
  moreover have "as_id demo_agent_share = lit ''t''" by (simp add: demo_agent_share_def)
  ultimately show ?thesis by metis
qed

end
