(* ===== verification/Spec2Isabelle.thy ===== *)
theory Spec2Isabelle
  imports KB_Prelude Span_Types Span_Store Span_Tracker Span_Invariants Span_Laws Span_Closing Span_Properties Span_Tree
    Access_Control Tags Tag_Properties Scope_Auth Scope_Properties
    Handle_Table Resource_Codec Resource_Laws Resource_Stream Resource_Roundtrip Citation_Stream Decoder_Properties
    Limiter Limiter_Laws Limiter_Local Limiter_Properties
    SQL_Lexer SQL_Parser SQL_Guard SQL_Rewrite SQL_Properties SQL_Filters Database_Query Query_Properties SQL_Bypass
    Guard_Properties Data_Analysis Analysis_Properties
    Agent_Answer
    Merge_Properties Rerank_Properties Chunk_Properties
    Org_Properties Share_Properties
begin

text \<open>
  A model of knowledge-be, a knowledge-base and agent back end (Python, under src/src), and the
  theorems that make its own logic correct. The system takes in documents (a traced ingest
  pipeline), tags and scopes them per tenant, and answers questions through an agent that calls
  tools, reads model streams and is rate-limited per model. Modelled are the parts whose logic is
  the program's own and can be stated without its services.

  \<^bold>\<open>Conventions.\<close> A Python string is a list of code points (\<open>str\<close>, naturals; \<open>lit\<close>
  turns an ASCII literal into one), an int is an \<open>int\<close>, a class with fields is a record and a
  method takes it and returns it updated. An exception is the left side of a sum; \<open>None\<close> is
  \<open>None\<close>. A lookup, a database, Redis, a clock, a file system, the tables of Unicode and \<open>json\<close>
  are arguments of the definitions; what the code relies on of them is the assumption of a locale
  (\<open>span_store_contract\<close>, \<open>tag_source\<close>, \<open>redis_zset\<close>, \<open>stream_hold\<close>) that is interpreted on the model, or a
  named hypothesis of the theorem. Concurrency is a list of steps in any order.

  \<^bold>\<open>Prelude.\<close> \<open>KB_Prelude\<close>: strings as the code uses them (strip, prefix and substring search, replace,
  case), the error type of src/src/common/exception.py, lists without duplicates.

  \<^bold>\<open>Document tracing\<close> (src/src/core/knowledge/documents, src/src/db/dao/knowledge_span_repository.py).
  \<open>Span_Types\<close>: the vocabulary of spans and the graph of pipeline stages. \<open>Span_Store\<close>: the rows, the
  contract \<open>span_store_contract\<close> and the repository, which may fail at any statement, shown to keep it.
  \<open>Span_Tracker\<close>: the tracker's operations. \<open>Span_Invariants\<close>, \<open>Span_Laws\<close>, \<open>Span_Closing\<close>: invariants of
  the table, the laws of each write, and the sweeps that close spans. \<open>Span_Properties\<close>: every run of
  tracker calls under any faults keeps the table well formed; a failed stage closes its attempt;
  finalizing happens once; cancelling reaches exactly the descendants. \<open>Span_Tree\<close>: the timeline tree
  holds every reachable span once, and its fuel, the number of rows, always suffices.

  \<^bold>\<open>Access\<close>. \<open>Access_Control\<close>: roles, API-key scopes, the route policies and the gate
  (src/src/core/auth and src/src/web): the decision on every branch.

  \<^bold>\<open>Tags and the scope of the agent.\<close> \<open>Tags\<close>, \<open>Tag_Properties\<close> (src/src/core/knowledge/tags): the service over
  its tables, as runs that keep ids, names and bindings unique. \<open>Scope_Auth\<close>, \<open>Scope_Properties\<close>
  (src/src/core/agents/tools/scope_auth.py, search_target.py): the code's checks of a document, a chunk,
  a list of results and a list of references, each proved to be the relation \<open>in_scope\<close>.

  \<^bold>\<open>Handles in model text\<close> (src/src/core/agents/engine, the model-context package). \<open>Handle_Table\<close>: the
  bijection of keys and handles. \<open>Resource_Codec\<close>: replacing addresses by handles and back, and the
  stages of the stream decoder. \<open>Resource_Laws\<close>, \<open>Resource_Stream\<close>, \<open>Resource_Roundtrip\<close>,
  \<open>Citation_Stream\<close>: the locale of a stage that holds back an unfinished handle, and its instances.
  \<open>Decoder_Properties\<close>: decoding undoes encoding, and the decoded stream does not depend on how the
  provider cuts it, for up to 9999 handles of a kind (the width of a handle).

  \<^bold>\<open>The limiter\<close> (src/src/ai/llm/limiter.py). \<open>Limiter\<close>: the Redis semaphore and its script, with
  \<open>redis_zset\<close> the commands it uses. \<open>Limiter_Laws\<close>: the laws of leases. \<open>Limiter_Local\<close>: the
  in-process semaphore. \<open>Limiter_Properties\<close>: never more leases than the limit in any interleaving
  without heartbeats, an acquirer gets its slot after a lease time, what a heartbeat really does,
  exact counters, and no lost wake-up.

  \<^bold>\<open>The SQL guard\<close> (src/src/core/agents/tools/sql_security.py). \<open>SQL_Lexer\<close>: the scanner. \<open>SQL_Parser\<close>:
  statements, the FROM clause, functions, \<open>parse_sql\<close>; the recursion into groups is by fuel, one
  more than the length, and \<open>from_clause_recursion\<close> shows it is the recursion of the code.
  \<open>SQL_Guard\<close>: the configuration, its builders and every check of \<open>validate_sql\<close>. \<open>SQL_Rewrite\<close>: the
  injection of filters and \<open>validate_and_secure_sql\<close>. \<open>SQL_Properties\<close>, \<open>SQL_Filters\<close>: the checks
  reduced to what they accept; how filters accumulate; quoting. \<open>Database_Query\<close>,
  \<open>Query_Properties\<close> (database_query.py): the tool, its scopes against \<open>in_scope\<close>, and what it sends to
  the database. \<open>SQL_Bypass\<close>: the accepted queries that run without their filters.
  \<open>Guard_Properties\<close>: the theorems of all of these. \<open>Data_Analysis\<close>, \<open>Analysis_Properties\<close>
  (data_analysis.py): the tool over an arbitrary engine as runs with a log of effects: what the
  log always satisfies, and which statements no check looks at.

  \<^bold>\<open>The agent\<close> (src/src/core/agents/engine). \<open>Think_Stream\<close>: the splitter of inline reasoning.
  \<open>Agent_Types\<close>, \<open>Agent_Texts\<close>, \<open>Agent_Messages\<close>: values and events of a run, tool arguments and their
  repair, the list of messages sent to the model. \<open>Agent_State\<close>, \<open>Agent_Engine\<close>, \<open>Agent_Loop\<close>: the
  state, one round with its tool calls, and the loop over rounds, over an arbitrary model, tools and
  cancellation signal. \<open>Agent_Laws\<close>, \<open>Agent_Runs\<close>, \<open>Agent_Properties\<close>, \<open>Agent_Answer\<close>: one completion event
  per run, the bound on model calls, obedience to a cancellation, the shape of the state, and when a run
  answers. The loop is bounded by the configured rounds and nudges, so it needs no fuel.

  \<^bold>\<open>Merging and ranking hits\<close> (src/src/core/chat/pipeline/steps). \<open>Merge_Text\<close>: texts of chunks and their overlaps.
  \<open>Merge_Hits\<close>, \<open>Merge_Stages\<close>, \<open>Merge_Context\<close>, \<open>Merge_Laws\<close>: duplicates, groups, partial overlaps, history,
  and the expansion of short chunks, a partial function since it may run for ever. \<open>Merge_Properties\<close>:
  the shape of the result, when the step returns and when it never does. \<open>Rerank\<close>, \<open>Rerank_Laws\<close>,
  \<open>Rerank_Properties\<close>: the rerank step with double arithmetic: what it leaves, that it never loses all
  hits, that the relevance loop is greedy, and that its retry changes nothing.

  \<^bold>\<open>The chunker\<close> (src/src/core/knowledge/documents/chunker). \<open>Regex\<close>: backtracking regular expressions as Python's
  re matches them, of which \<open>Chunk_Patterns\<close> states every pattern of the chunker. \<open>Chunk_Splitter\<close>, \<open>Chunk_Merge\<close>:
  protected regions, units, the table-header tracker and the merge of units with overlaps (splitter.py,
  header_tracker.py). \<open>Chunk_Tiers\<close>, \<open>Chunk_Strategy\<close>: breadcrumbs, profile, the heading and heuristic tiers,
  the validator and the choice among the tiers. \<open>Chunk_Laws\<close>, \<open>Chunk_Cover\<close>, \<open>Chunk_Sizes\<close>: units tile the text,
  chunks cover it, sizes. \<open>Chunk_Contract\<close>: the locale \<open>text_splitter\<close> of what each tier promises,
  interpreted on the recursive splitter there and on the other tiers and the choice in \<open>Chunk_Tier_Laws\<close>;
  \<open>Chunk_Levels\<close> derives the two-level split from it. \<open>Chunk_Examples\<close>, \<open>Chunk_Properties\<close>: small texts and the theorems.

  \<^bold>\<open>Organizations\<close> (src/src/core/organizations, src/src/db/dao/organization_repository.py). \<open>Org_Store\<close>: the rows,
  the SQL with its unique constraints, and operations that return a result or an exception and the
  database. \<open>Org_Service\<close>: every method of the organization service, and runs of calls. \<open>Org_Laws\<close>: the
  abstract transitions of an organization (founded, edited, enrolled, left, asked, reviewed, closed) and
  that every call refines them and they keep the invariant. \<open>Org_Properties\<close>: the
  owner stays an admin, limits hold, who may do what, when a code admits, what a review writes.

  \<^bold>\<open>Sharing\<close> (src/src/core/sharing, shared_resource_service.py, the share repositories). \<open>Share_Store\<close>,
  \<open>Share_Service\<close>: the tables and every method of the three services, over the organizations above, with
  runs that interleave both. \<open>Share_Laws\<close>: grants, caps, the listing that keeps the strongest row, and the
  invariant of the tables. \<open>Share_Properties\<close>: access follows membership, what a tenant is shown, and the
  two calls that go wrong.

  \<^bold>\<open>How the parts meet.\<close> The tag service is what \<open>Scope_Auth\<close> asks for the tags of a document
  (\<open>tag_source\<close> is interpreted on it); the SQL tools use the same targets and the same
  authorization (\<open>scopes_agree\<close>, \<open>resolve_knowledge\<close>); the stream decoder composes the resource and
  the citation stages; the rerank step is fed by the hits that the merge step shapes; the heading and
  heuristic tiers call the recursive splitter, and both levels of a two-level split call the choice; who can read a
  shared knowledge base follows the calls of the organization service.

  \<^bold>\<open>Not modelled.\<close> Clients of services (model providers, vector stores, object stores, MCP servers,
  messaging platforms), the SQLAlchemy declarations and queries other than those of spans, tags,
  organizations and shares,
  the FastAPI routers, process wiring and configuration, and the front end: they hold little logic of
  their own beside the calls. Approval of tool calls waits on futures and Redis. Logging, metrics and the
  wording of log lines are left out everywhere. Of Unicode only what ASCII fixes is defined.
\<close>

end
